(* ===== verification/Prelude.thy ===== *)
theory Prelude
  imports Main "HOL-Library.AList"
begin

text \<open>
  Shared vocabulary of the development: the exceptions the Python code raises, results as
  sums, the monadic loop, and generic lemmas on lists and association lists that the
  component theories use.

  A computation that may raise has type \<open>'a res\<close>: \<open>Inl e\<close> is the raised exception \<open>e\<close>,
  \<open>Inr v\<close> the returned value.  \<open>rbind\<close> sequences two such computations and \<open>rfold\<close> is a
  \<open>for\<close> loop whose body may raise; the first exception leaves the loop.
\<close>

section \<open>Exceptions and results\<close>

text \<open>
  \<open>SystemExit\<close> carries the message that \<open>die\<close> prints and the exit code; \<open>Unsupported\<close> marks a
  value outside the model's domain (see the theories that use it), it is no Python exception.
\<close>

datatype exc =
    ValueError string
  | TypeError
  | KeyError string
  | AttributeError
  | OverflowError
  | IntegrityError
  | OperationalError
  | ClashSchemaError string
  | RuntimeError string
  | SystemExit string int
  | Unsupported

type_synonym 'a res = "exc + 'a"

named_theorems res_simps \<open>unfolding of the result monad\<close>
named_theorems model_defs \<open>definitions of small model functions\<close>

definition rbind :: "'e + 'a \<Rightarrow> ('a \<Rightarrow> 'e + 'b) \<Rightarrow> 'e + 'b" where
  "rbind m f = (case m of Inl e \<Rightarrow> Inl e | Inr a \<Rightarrow> f a)"

lemma rbind_Inl [simp]: "rbind (Inl e) f = Inl e"
  by (simp add: rbind_def)

lemma rbind_Inr [simp]: "rbind (Inr a) f = f a"
  by (simp add: rbind_def)

lemma rbind_eq_Inr [res_simps]: "rbind m f = Inr b \<longleftrightarrow> (\<exists>a. m = Inr a \<and> f a = Inr b)"
  by (simp add: rbind_def split: sum.split)

lemma rbind_eq_Inl [res_simps]:
  "rbind m f = Inl e \<longleftrightarrow> m = Inl e \<or> (\<exists>a. m = Inr a \<and> f a = Inl e)"
  by (auto simp: rbind_def split: sum.split)

lemma rbind_Inr_E:
  assumes "rbind m f = Inr b"
  obtains a where "m = Inr a" "f a = Inr b"
  using assms by (auto simp: res_simps)

lemma rbind_cong [fundef_cong]:
  "m = m' \<Longrightarrow> (\<And>a. m' = Inr a \<Longrightarrow> f a = g a) \<Longrightarrow> rbind m f = rbind m' g"
  by (auto simp: rbind_def split: sum.split)

fun rfold :: "('a \<Rightarrow> 's \<Rightarrow> 'e + 's) \<Rightarrow> 'a list \<Rightarrow> 's \<Rightarrow> 'e + 's" where
  "rfold f [] s = Inr s"
| "rfold f (x # xs) s = rbind (f x s) (rfold f xs)"

text \<open>Partial correctness of the loop: an invariant of every iteration that completes.\<close>

lemma rfold_invariant:
  assumes "rfold f xs s = Inr t" and "P s"
    and "\<And>x u v. x \<in> set xs \<Longrightarrow> P u \<Longrightarrow> f x u = Inr v \<Longrightarrow> P v"
  shows "P t"
  using assms
proof (induction xs arbitrary: s)
  case Nil
  then show ?case by simp
next
  case (Cons x xs)
  from Cons.prems(1) obtain u where "f x s = Inr u" and rest: "rfold f xs u = Inr t"
    by (auto simp: res_simps)
  with Cons.prems(2,3) have "P u" by (meson list.set_intros(1))
  with rest Cons.prems(3) show ?case by (intro Cons.IH [of u]) auto
qed

text \<open>Total correctness: an invariant under which no iteration raises.\<close>

lemma rfold_total:
  assumes "P s" and "\<And>x u. x \<in> set xs \<Longrightarrow> P u \<Longrightarrow> \<exists>v. f x u = Inr v \<and> P v"
  shows "\<exists>t. rfold f xs s = Inr t \<and> P t"
  using assms
proof (induction xs arbitrary: s)
  case Nil
  then show ?case by simp
next
  case (Cons x xs)
  then obtain u where "f x s = Inr u" and "P u" by (meson list.set_intros(1))
  moreover have "\<exists>t. rfold f xs u = Inr t \<and> P t"
    using \<open>P u\<close> Cons.prems(2) by (intro Cons.IH) auto
  ultimately show ?case by simp
qed

lemma rfold_append:
  "rfold f (xs @ ys) s = rbind (rfold f xs s) (rfold f ys)"
  by (induction xs arbitrary: s) (auto simp: rbind_def split: sum.split)

text \<open>A monadic map: the list comprehension whose element expression may raise.\<close>

fun rmap :: "('a \<Rightarrow> 'e + 'b) \<Rightarrow> 'a list \<Rightarrow> 'e + 'b list" where
  "rmap f [] = Inr []"
| "rmap f (x # xs) = rbind (f x) (\<lambda>y. rbind (rmap f xs) (\<lambda>ys. Inr (y # ys)))"

lemma rmap_Inr_length: "rmap f xs = Inr ys \<Longrightarrow> length ys = length xs"
  by (induction xs arbitrary: ys) (auto simp: res_simps)

lemma rmap_Inr_set:
  "rmap f xs = Inr ys \<Longrightarrow> y \<in> set ys \<Longrightarrow> \<exists>x \<in> set xs. f x = Inr y"
  by (induction xs arbitrary: ys) (auto simp: res_simps)

lemma rmap_Inr_list_all2:
  "rmap f xs = Inr ys \<longleftrightarrow> list_all2 (\<lambda>x y. f x = Inr y) xs ys"
  by (induction xs arbitrary: ys) (auto simp: res_simps list_all2_Cons1)

lemma rmap_Inr_map:
  assumes "\<And>x. x \<in> set xs \<Longrightarrow> f x = Inr (g x)"
  shows "rmap f xs = Inr (map g xs)"
  using assms by (induction xs) auto

section \<open>Association lists\<close>

text \<open>
  A Python dict, and a table with a one-column primary key, is an association list with
  distinct keys in insertion order: \<open>AList.update\<close> keeps the position of a key it replaces
  and appends a new one, as a dict does.
\<close>

lemma map_of_update [simp]: "map_of (AList.update k v al) = (map_of al)(k \<mapsto> v)"
  by (simp add: update_conv')

lemma map_of_delete [simp]: "map_of (AList.delete k al) = (map_of al)(k := None)"
  by (simp add: delete_conv')

lemma update_twice: "AList.update k v (AList.update k w al) = AList.update k v al"
  by (induction al) auto

lemma keys_update: "fst ` set (AList.update k v al) = insert k (fst ` set al)"
  using dom_update [of k v al] by simp

lemma distinct_keys_update:
  "distinct (map fst al) \<Longrightarrow> distinct (map fst (AList.update k v al))"
  by (rule distinct_update)

lemma distinct_keys_delete:
  "distinct (map fst al) \<Longrightarrow> distinct (map fst (AList.delete k al))"
  by (rule distinct_delete)

lemma distinct_keys_filter:
  "distinct (map fst al) \<Longrightarrow> distinct (map fst (filter P al))"
  by (rule distinct_map_filter)

lemma map_of_filter_key:
  assumes "distinct (map fst al)"
  shows "map_of (filter P al) k
    = (case map_of al k of Some v \<Rightarrow> if P (k, v) then Some v else None | None \<Rightarrow> None)"
  using assms
  by (induction al) (auto split: option.splits dest: map_of_SomeD simp: rev_image_eqI map_of_eq_None_iff)

lemma in_set_update_cases:
  "(k', v') \<in> set (AList.update k v al) \<Longrightarrow> (k' = k \<and> v' = v) \<or> (k', v') \<in> set al"
  by (induction al) (auto split: if_splits)

lemma in_set_delete_cases: "p \<in> set (AList.delete k al) \<Longrightarrow> p \<in> set al"
  by (induction al) (auto split: if_splits)

lemma in_set_update_distinct:
  assumes "distinct (map fst al)" and "(k', v') \<in> set (AList.update k v al)"
  shows "(k' = k \<and> v' = v) \<or> (k' \<noteq> k \<and> (k', v') \<in> set al)"
proof -
  have "map_of (AList.update k v al) k' = Some v'"
    using assms by (intro map_of_is_SomeI distinct_keys_update)
  then show ?thesis by (auto split: if_splits dest: map_of_SomeD)
qed

text \<open>The dict comprehension \<open>{key x: x for x in xs}\<close>: the last value of a key wins.\<close>

definition dict_of :: "('a \<Rightarrow> 'k) \<Rightarrow> 'a list \<Rightarrow> ('k \<times> 'a) list" where
  "dict_of key xs = fold (\<lambda>x. AList.update (key x) x) xs []"

lemma dict_of_distinct: "distinct (map fst (dict_of key xs))"
proof -
  have "distinct (map fst (fold (\<lambda>x. AList.update (key x) x) xs al))"
    if "distinct (map fst al)" for al
    using that by (induction xs arbitrary: al) (auto simp: distinct_keys_update)
  then show ?thesis by (simp add: dict_of_def)
qed

lemma dict_of_member:
  assumes "(k, v) \<in> set (dict_of key xs)"
  shows "v \<in> set xs \<and> key v = k"
proof -
  have "(k, v) \<in> set (fold (\<lambda>x. AList.update (key x) x) xs al) \<Longrightarrow>
      (k, v) \<in> set al \<or> (v \<in> set xs \<and> key v = k)" for al
    by (induction xs arbitrary: al) (fastforce dest: in_set_update_cases)+
  from this [of "[]"] assms show ?thesis by (simp add: dict_of_def)
qed

lemma dict_of_keys: "set (map fst (dict_of key xs)) = key ` set xs"
proof -
  have "fst ` set (fold (\<lambda>x. AList.update (key x) x) xs al) = fst ` set al \<union> key ` set xs" for al
    by (induction xs arbitrary: al) (auto simp: keys_update)
  from this [of "[]"] show ?thesis by (simp add: dict_of_def)
qed

section \<open>Lists\<close>

text \<open>The first \<open>n\<close> rows of a query, \<open>n\<close> not negative.\<close>

fun limit_to :: "int \<Rightarrow> 'a list \<Rightarrow> 'a list" where
  "limit_to n [] = []"
| "limit_to n (x # xs) = (if n \<le> 0 then [] else x # limit_to (n - 1) xs)"

lemma limit_to_take: "limit_to n xs = take (nat n) xs"
proof (induction xs arbitrary: n)
  case (Cons x xs)
  show ?case
  proof (cases "n \<le> 0")
    case False
    then have "nat n = Suc (nat (n - 1))" by simp
    with Cons.IH [of "n - 1"] False show ?thesis by simp
  qed simp
qed simp

lemma last_in_set_Cons: "xs \<noteq> [] \<Longrightarrow> last xs \<in> set xs"
  by simp

lemma strict_sorted_last_max:
  "sorted_wrt (<) xs \<Longrightarrow> xs \<noteq> [] \<Longrightarrow> x \<in> set xs \<Longrightarrow> (x :: 'a :: linorder) \<le> last xs"
  by (induction xs) (auto split: if_splits intro: less_imp_le)

lemma filter_update_map:
  "(\<And>x. P (f x) = P x) \<Longrightarrow> filter P (map f xs) = map f (filter P xs)"
  by (induction xs) auto

lemma filter_map_same:
  assumes "\<And>x. Q (h x) = Q x" and "\<And>x. Q x \<Longrightarrow> h x = x"
  shows "filter Q (map h xs) = filter Q xs"
  using assms by (induction xs) auto

lemma find_filter:
  assumes "\<And>x. P x \<Longrightarrow> Q x"
  shows "find P (filter Q xs) = find P xs"
  using assms by (induction xs) auto

lemma find_unique:
  assumes "distinct (map key xs)" and "x \<in> set xs" and "P x"
    and "\<forall>y \<in> set xs. P y \<longrightarrow> key y = k" and "key x = k"
  shows "find P xs = Some x"
proof -
  obtain y where y: "find P xs = Some y"
    using assms(2,3) by (cases "find P xs") (auto simp: find_None_iff)
  then have "y \<in> set xs" "P y" by (auto simp: find_Some_iff)
  then have "key y = key x" using assms(4,5) by blast
  then have "y = x" using assms(1,2) \<open>y \<in> set xs\<close> by (meson distinct_map inj_onD)
  with y show ?thesis by simp
qed

lemma find_None_iff_list_ex: "find P xs = None \<longleftrightarrow> \<not> list_ex P xs"
  by (induction xs) auto

lemma find_SomeD: "find P xs = Some x \<Longrightarrow> x \<in> set xs \<and> P x"
  by (induction xs) (auto split: if_splits)

lemma distinct_map_map_if:
  assumes "\<And>x. x \<in> set xs \<Longrightarrow> key (f x) = key x"
  shows "map key (map f xs) = map key xs"
  using assms by (induction xs) auto

lemma sum_list_update_one:
  fixes g :: "'a \<Rightarrow> int"
  assumes "distinct xs" and "r \<in> set xs" and "\<And>x. x \<in> set xs \<Longrightarrow> P x \<longleftrightarrow> x = r"
  shows "sum_list (map g (map (\<lambda>x. if P x then f x else x) xs)) = sum_list (map g xs) + (g (f r) - g r)"
  using assms
proof (induction xs)
  case (Cons x xs)
  show ?case
  proof (cases "x = r")
    case True
    then have "map (\<lambda>x. if P x then f x else x) xs = xs"
      using Cons.prems by (intro map_idI) auto
    with True Cons.prems(3) [of x] show ?thesis by simp
  next
    case False
    then have "\<not> P x" "r \<in> set xs" using Cons.prems by auto
    with Cons show ?thesis by simp
  qed
qed simp

end
