(* ===== verification/PyStr.thy ===== *)
theory PyStr
  imports Prelude
begin

text \<open>
  Python \<open>str\<close> values and the string methods the code uses.  A \<open>string\<close> of the model stands
  for a Python string whose code points are below 256; on these the definitions agree with
  CPython's \<open>str\<close> methods (whitespace and case mapping include the Latin-1 characters).  The
  regular expressions of the code are recognisers written out by hand.
\<close>

section \<open>Characters\<close>

definition code :: "char \<Rightarrow> nat" where
  "code c = of_char c"

definition is_digit :: "char \<Rightarrow> bool" where
  "is_digit c = (48 \<le> code c \<and> code c \<le> 57)"

definition is_lower :: "char \<Rightarrow> bool" where
  "is_lower c = (97 \<le> code c \<and> code c \<le> 122)"

definition is_upper :: "char \<Rightarrow> bool" where
  "is_upper c = (65 \<le> code c \<and> code c \<le> 90)"

definition is_space :: "char \<Rightarrow> bool" where
  "is_space c = ((9 \<le> code c \<and> code c \<le> 13) \<or> (28 \<le> code c \<and> code c \<le> 32)
     \<or> code c = 133 \<or> code c = 160)"

definition is_hex_lower :: "char \<Rightarrow> bool" where
  "is_hex_lower c = (is_digit c \<or> (97 \<le> code c \<and> code c \<le> 102))"

definition lower_char :: "char \<Rightarrow> char" where
  "lower_char c = (if is_upper c \<or> (192 \<le> code c \<and> code c \<le> 222 \<and> code c \<noteq> 215)
     then char_of (code c + 32) else c)"

lemma code_less: "code c < 256"
  by (simp add: code_def)

lemma char_of_code [simp]: "char_of (code c) = c"
  by (simp add: code_def)

lemma code_char_of [simp]: "n < 256 \<Longrightarrow> code (char_of n) = n"
  by (simp add: code_def)

section \<open>String methods\<close>

definition lstrip :: "string \<Rightarrow> string" where
  "lstrip s = dropWhile is_space s"

definition rstrip :: "string \<Rightarrow> string" where
  "rstrip s = rev (dropWhile is_space (rev s))"

definition strip :: "string \<Rightarrow> string" where
  "strip s = rstrip (lstrip s)"

definition rstrip_char :: "char \<Rightarrow> string \<Rightarrow> string" where
  "rstrip_char d s = rev (dropWhile (\<lambda>c. c = d) (rev s))"

definition lower :: "string \<Rightarrow> string" where
  "lower s = map lower_char s"

definition starts_with :: "string \<Rightarrow> string \<Rightarrow> bool" where
  "starts_with p s = (take (length p) s = p)"

definition ends_with :: "string \<Rightarrow> string \<Rightarrow> bool" where
  "ends_with p s = (length p \<le> length s \<and> drop (length s - length p) s = p)"

fun contains :: "string \<Rightarrow> string \<Rightarrow> bool" where
  "contains p [] = (p = [])"
| "contains p (c # s) = (starts_with p (c # s) \<or> contains p s)"

fun split_on :: "char \<Rightarrow> string \<Rightarrow> string list" where
  "split_on d [] = [[]]"
| "split_on d (c # s) =
     (if c = d then [] # split_on d s
      else (case split_on d s of [] \<Rightarrow> [[c]] | p # ps \<Rightarrow> (c # p) # ps))"

text \<open>\<open>s.rsplit(d, 1)\<close> on a string that holds \<open>d\<close>: the text before and after the last one.\<close>

definition rsplit1 :: "char \<Rightarrow> string \<Rightarrow> string \<times> string" where
  "rsplit1 d s = (let r = rev s in
     (rev (drop (Suc (length (takeWhile (\<lambda>c. c \<noteq> d) r))) r), rev (takeWhile (\<lambda>c. c \<noteq> d) r)))"

definition is_line_break :: "char \<Rightarrow> bool" where
  "is_line_break c = (code c \<in> {10, 11, 12, 13, 28, 29, 30, 133})"

text \<open>\<open>str.splitlines()\<close>: a break ends a line, \<open>CR LF\<close> counts once, no last empty line.\<close>

fun splitlines_acc :: "string \<Rightarrow> string \<Rightarrow> string list" where
  "splitlines_acc acc [] = (if acc = [] then [] else [rev acc])"
| "splitlines_acc acc [c] = (if is_line_break c then [rev acc] else [rev (c # acc)])"
| "splitlines_acc acc (c # d # s) =
     (if code c = 13 \<and> code d = 10 then rev acc # splitlines_acc [] s
      else if is_line_break c then rev acc # splitlines_acc [] (d # s)
      else splitlines_acc (c # acc) (d # s))"

definition splitlines :: "string \<Rightarrow> string list" where
  "splitlines s = splitlines_acc [] s"

definition has_ascii_control :: "string \<Rightarrow> bool" where
  "has_ascii_control s = list_ex (\<lambda>c. code c < 32 \<or> code c = 127) s"

subsection \<open>Laws of \<open>strip\<close> and \<open>lower\<close>\<close>

lemma dropWhile_idem: "dropWhile P (dropWhile P xs) = dropWhile P xs"
  by (induction xs) auto

lemma rstrip_idem [simp]: "rstrip (rstrip s) = rstrip s"
  by (simp add: rstrip_def dropWhile_idem)

lemma lstrip_idem [simp]: "lstrip (lstrip s) = lstrip s"
  by (simp add: lstrip_def dropWhile_idem)

lemma rstrip_prefix: "\<exists>t. s = rstrip s @ t"
  unfolding rstrip_def
  by (metis rev_append rev_rev_ident takeWhile_dropWhile_id)

lemma lstrip_rstrip_lstrip: "lstrip (rstrip (lstrip s)) = rstrip (lstrip s)"
proof (cases "rstrip (lstrip s)")
  case Nil
  then show ?thesis by (simp add: lstrip_def)
next
  case (Cons c t)
  obtain u where "lstrip s = (c # t) @ u"
    using rstrip_prefix [of "lstrip s"] Cons by auto
  then have "\<not> is_space c"
    unfolding lstrip_def by (metis append_Cons hd_dropWhile list.distinct(1) list.sel(1))
  with Cons show ?thesis by (simp add: lstrip_def)
qed

lemma strip_idem [simp]: "strip (strip s) = strip s"
  by (simp add: strip_def lstrip_rstrip_lstrip)

lemma lower_char_idem [simp]: "lower_char (lower_char c) = lower_char c"
proof -
  consider "is_upper c" | "192 \<le> code c \<and> code c \<le> 222 \<and> code c \<noteq> 215"
    | "\<not> (is_upper c \<or> (192 \<le> code c \<and> code c \<le> 222 \<and> code c \<noteq> 215))"
    by blast
  then show ?thesis
  proof cases
    case 1
    then have "code (lower_char c) = code c + 32"
      by (simp add: lower_char_def is_upper_def)
    with 1 show ?thesis
      by (simp add: lower_char_def [of "lower_char c"] is_upper_def)
  next
    case 2
    then have "code (lower_char c) = code c + 32"
      by (simp add: lower_char_def)
    with 2 show ?thesis
      by (simp add: lower_char_def [of "lower_char c"] is_upper_def)
  next
    case 3
    then have "lower_char c = c" by (simp only: lower_char_def if_False)
    then show ?thesis by simp
  qed
qed

lemma lower_idem [simp]: "lower (lower s) = lower s"
  by (simp add: lower_def)

section \<open>Integers and their decimal text\<close>

fun nat_text :: "nat \<Rightarrow> string" where
  "nat_text n = (if n < 10 then [char_of (48 + n)]
     else nat_text (n div 10) @ [char_of (48 + n mod 10)])"

declare nat_text.simps [simp del]

definition int_text :: "int \<Rightarrow> string" where
  "int_text i = (if i < 0 then CHR ''-'' # nat_text (nat (- i)) else nat_text (nat i))"

definition digit_val :: "char \<Rightarrow> nat" where
  "digit_val c = code c - 48"

text \<open>
  The digits of \<open>int(text)\<close>: decimal digits, single underscores allowed between two of them.
  \<open>digits_value acc after_digit s\<close> reads the rest \<open>s\<close>; the text must end after a digit.
\<close>

fun digits_value :: "nat \<Rightarrow> bool \<Rightarrow> string \<Rightarrow> nat option" where
  "digits_value acc after_digit [] = (if after_digit then Some acc else None)"
| "digits_value acc after_digit (c # s) =
     (if is_digit c then digits_value (10 * acc + digit_val c) True s
      else if c = CHR ''_'' \<and> after_digit then digits_value acc False s
      else None)"

definition int_of_text :: "string \<Rightarrow> int option" where
  "int_of_text t = (let s = strip t in
     (case s of
        [] \<Rightarrow> None
      | c # r \<Rightarrow>
          if c = CHR ''-'' then map_option (\<lambda>n. - int n) (digits_value 0 False r)
          else if c = CHR ''+'' then map_option int (digits_value 0 False r)
          else map_option int (digits_value 0 False s)))"

lemma is_digit_char_of: "d < (10 :: nat) \<Longrightarrow> is_digit (char_of (48 + d))"
  by (simp add: is_digit_def)

lemma digit_val_char_of: "d < (10 :: nat) \<Longrightarrow> digit_val (char_of (48 + d)) = d"
  by (simp add: digit_val_def)

lemma nat_text_digits: "c \<in> set (nat_text n) \<Longrightarrow> is_digit c"
proof (induction n rule: nat_text.induct)
  case (1 n)
  then show ?case
    by (subst (asm) nat_text.simps) (auto simp: is_digit_char_of split: if_splits)
qed

lemma nat_text_nonempty [simp]: "nat_text n \<noteq> []"
  by (subst nat_text.simps) simp

lemma digits_value_append_digit:
  assumes "digits_value acc b s = Some v" and "d < (10 :: nat)"
  shows "digits_value acc b (s @ [char_of (48 + d)]) = Some (10 * v + d)"
  using assms
  by (induction s arbitrary: acc b)
    (auto simp: is_digit_char_of digit_val_char_of split: if_splits)

lemma digits_value_nat_text: "digits_value 0 False (nat_text n) = Some n"
proof (induction n rule: nat_text.induct)
  case (1 n)
  show ?case
  proof (cases "n < 10")
    case True
    then show ?thesis
      by (subst nat_text.simps) (simp add: is_digit_char_of digit_val_char_of)
  next
    case False
    with 1 have IH: "digits_value 0 False (nat_text (n div 10)) = Some (n div 10)" by simp
    have "digits_value 0 False (nat_text (n div 10) @ [char_of (48 + n mod 10)])
        = Some (10 * (n div 10) + n mod 10)"
      by (rule digits_value_append_digit [OF IH]) simp
    with False show ?thesis by (subst nat_text.simps) simp
  qed
qed

lemma digit_not_space: "is_digit c \<Longrightarrow> \<not> is_space c"
  by (auto simp: is_digit_def is_space_def)

lemma strip_no_space:
  assumes "\<And>c. c \<in> set s \<Longrightarrow> \<not> is_space c"
  shows "strip s = s"
proof -
  have "lstrip s = s" using assms by (cases s) (auto simp: lstrip_def)
  moreover have "rstrip s = s"
    using assms by (cases s rule: rev_cases) (auto simp: rstrip_def)
  ultimately show ?thesis by (simp add: strip_def)
qed

lemma strip_int_text [simp]: "strip (int_text i) = int_text i"
proof (rule strip_no_space)
  fix c assume "c \<in> set (int_text i)"
  then show "\<not> is_space c"
    by (auto simp: int_text_def is_space_def code_def
        dest!: nat_text_digits digit_not_space split: if_splits)
qed

text \<open>Printing an integer with \<open>str\<close> and reading it with \<open>int\<close> gives it back.\<close>

lemma int_of_text_int_text [simp]: "int_of_text (int_text i) = Some i"
proof (cases "i < 0")
  case True
  then show ?thesis
    by (simp add: int_of_text_def int_text_def digits_value_nat_text
        flip: int_text_def)
       (simp add: int_text_def digits_value_nat_text)
next
  case False
  obtain c r where cr: "nat_text (nat i) = c # r"
    by (cases "nat_text (nat i)") auto
  then have "is_digit c" using nat_text_digits [of c "nat i"] by simp
  then have "c \<noteq> CHR ''-''" "c \<noteq> CHR ''+''" by (auto simp: is_digit_def code_def)
  moreover have "strip (nat_text (nat i)) = nat_text (nat i)"
    using strip_int_text [of i] False by (simp add: int_text_def)
  ultimately show ?thesis
    using False digits_value_nat_text [of "nat i"]
    by (simp add: int_of_text_def int_text_def cr)
qed

lemma int_text_nonempty [simp]: "int_text i \<noteq> []"
  by (simp add: int_text_def)

lemma int_text_inject [simp]: "int_text i = int_text j \<longleftrightarrow> i = j"
  by (metis int_of_text_int_text option.inject)

end
