(* ===== verification/PyValue.thy ===== *)
theory PyValue
  imports PyStr
begin

text \<open>
  The values \<open>json.loads\<close> returns, and the operations the code applies to them without
  knowing their type: truth tests, \<open>dict.get\<close>, \<open>==\<close> with an int, \<open>int(v)\<close>, \<open>str(v)\<close> and
  \<open>repr(v)\<close>.  Booleans are ints in Python (\<open>True == 1\<close>), which the code has to rule out by hand;
  the model keeps the two apart and writes the coincidence out in \<open>py_eq_int\<close> and \<open>py_int\<close>.

  A finite float is \<open>n / 2 ^ k\<close>, which every IEEE double is; \<open>PyFloat n k t\<close> also carries the
  text \<open>t\<close> that Python prints for it.
\<close>

section \<open>Values\<close>

datatype pyfloat = PyFloat int nat string | PyInf bool | PyNaN

datatype json =
    JNull
  | JBool bool
  | JInt int
  | JFloat pyfloat
  | JStr string
  | JList "json list"
  | JObj "(string \<times> json) list"

type_synonym dict = "(string \<times> json) list"

fun float_truthy :: "pyfloat \<Rightarrow> bool" where
  "float_truthy (PyFloat n k t) = (n \<noteq> 0)"
| "float_truthy _ = True"

fun truthy :: "json \<Rightarrow> bool" where
  "truthy JNull = False"
| "truthy (JBool b) = b"
| "truthy (JInt n) = (n \<noteq> 0)"
| "truthy (JFloat f) = float_truthy f"
| "truthy (JStr s) = (s \<noteq> [])"
| "truthy (JList xs) = (xs \<noteq> [])"
| "truthy (JObj kvs) = (kvs \<noteq> [])"

text \<open>\<open>a or b\<close>.\<close>

definition py_or :: "json \<Rightarrow> json \<Rightarrow> json" where
  "py_or a b = (if truthy a then a else b)"

text \<open>\<open>d.get(k)\<close> and \<open>d.get(k, default)\<close>.\<close>

definition dget :: "string \<Rightarrow> dict \<Rightarrow> json" where
  "dget k d = (case map_of d k of Some v \<Rightarrow> v | None \<Rightarrow> JNull)"

definition dget_or :: "string \<Rightarrow> json \<Rightarrow> dict \<Rightarrow> json" where
  "dget_or k dflt d = (case map_of d k of Some v \<Rightarrow> v | None \<Rightarrow> dflt)"

definition has_key :: "string \<Rightarrow> dict \<Rightarrow> bool" where
  "has_key k d = (map_of d k \<noteq> None)"

text \<open>\<open>isinstance(v, int) and not isinstance(v, bool)\<close>.\<close>

fun is_int :: "json \<Rightarrow> bool" where
  "is_int (JInt _) = True"
| "is_int _ = False"

fun is_str :: "json \<Rightarrow> bool" where
  "is_str (JStr _) = True"
| "is_str _ = False"

fun is_bool :: "json \<Rightarrow> bool" where
  "is_bool (JBool _) = True"
| "is_bool _ = False"

text \<open>\<open>v == n\<close> for an int \<open>n\<close>: \<open>True == 1\<close> and \<open>2.0 == 2\<close> hold.\<close>

fun py_eq_int :: "json \<Rightarrow> int \<Rightarrow> bool" where
  "py_eq_int (JInt m) n = (m = n)"
| "py_eq_int (JBool b) n = ((if b then 1 else 0) = n)"
| "py_eq_int (JFloat (PyFloat m k t)) n = (m = n * 2 ^ k)"
| "py_eq_int _ n = False"

text \<open>\<open>v == s\<close> for a str \<open>s\<close>.\<close>

definition py_eq_str :: "json \<Rightarrow> string \<Rightarrow> bool" where
  "py_eq_str v s = (v = JStr s)"

text \<open>\<open>int(v)\<close>.\<close>

fun py_int :: "json \<Rightarrow> int res" where
  "py_int (JInt n) = Inr n"
| "py_int (JBool b) = Inr (if b then 1 else 0)"
| "py_int (JStr s) =
     (case int_of_text s of Some n \<Rightarrow> Inr n | None \<Rightarrow> Inl (ValueError ''invalid literal for int()''))"
| "py_int (JFloat (PyFloat n k t)) =
     Inr (if n < 0 then - ((- n) div 2 ^ k) else n div 2 ^ k)"
| "py_int (JFloat (PyInf b)) = Inl OverflowError"
| "py_int (JFloat PyNaN) = Inl (ValueError ''cannot convert float NaN to integer'')"
| "py_int _ = Inl TypeError"

text \<open>The dicts of \<open>for x in v or []\<close>; a value that cannot be iterated raises TypeError.\<close>

definition dicts_of :: "json \<Rightarrow> dict list res" where
  "dicts_of v = (if \<not> truthy v then Inr [] else (case v of
     JList xs \<Rightarrow> Inr (concat (map (\<lambda>x. case x of JObj d \<Rightarrow> [d] | _ \<Rightarrow> []) xs))
   | JStr _ \<Rightarrow> Inr []
   | JObj _ \<Rightarrow> Inr []
   | _ \<Rightarrow> Inl TypeError))"

section \<open>Text of a value\<close>

definition hex_digit :: "nat \<Rightarrow> char" where
  "hex_digit n = (if n < 10 then char_of (48 + n) else char_of (87 + n))"

definition repr_char :: "char \<Rightarrow> char \<Rightarrow> string" where
  "repr_char q c =
     (if c = q \<or> code c = 92 then [char_of (92 :: nat), c]
      else if code c = 10 then [char_of (92 :: nat), CHR ''n'']
      else if code c = 13 then [char_of (92 :: nat), CHR ''r'']
      else if code c = 9 then [char_of (92 :: nat), CHR ''t'']
      else if code c < 32 \<or> (127 \<le> code c \<and> code c \<le> 160) \<or> code c = 173
        then [char_of (92 :: nat), CHR ''x'', hex_digit (code c div 16), hex_digit (code c mod 16)]
      else [c])"

text \<open>\<open>repr\<close> of a str quotes with \<open>'\<close> unless the text holds one and no double quote.\<close>

definition repr_str :: "string \<Rightarrow> string" where
  "repr_str s =
     (let q = (if list_ex (\<lambda>c. code c = 39) s \<and> \<not> list_ex (\<lambda>c. code c = 34) s
               then char_of (34 :: nat) else char_of (39 :: nat))
      in [q] @ concat (map (repr_char q) s) @ [q])"

fun float_text :: "pyfloat \<Rightarrow> string" where
  "float_text (PyFloat n k t) = t"
| "float_text (PyInf neg) = (if neg then ''-inf'' else ''inf'')"
| "float_text PyNaN = ''nan''"

fun join :: "string \<Rightarrow> string list \<Rightarrow> string" where
  "join sep [] = []"
| "join sep [s] = s"
| "join sep (s # t # ss) = s @ sep @ join sep (t # ss)"

fun py_repr :: "json \<Rightarrow> string" where
  "py_repr JNull = ''None''"
| "py_repr (JBool b) = (if b then ''True'' else ''False'')"
| "py_repr (JInt n) = int_text n"
| "py_repr (JFloat f) = float_text f"
| "py_repr (JStr s) = repr_str s"
| "py_repr (JList xs) = ''['' @ join '', '' (map py_repr xs) @ '']''"
| "py_repr (JObj kvs) =
     ''{'' @ join '', '' (map (\<lambda>p. repr_str (fst p) @ '': '' @ py_repr (snd p)) kvs) @ ''}''"

definition py_str :: "json \<Rightarrow> string" where
  "py_str v = (case v of JStr s \<Rightarrow> s | _ \<Rightarrow> py_repr v)"

section \<open>Helpers of the controller that read a value\<close>

text \<open>\<open>_optional_text\<close>, \<open>_int_or_default\<close> and \<open>_int_or_none\<close> of \<open>lib/vincula-fleet.py\<close>.\<close>

definition text_or_none :: "string \<Rightarrow> string option" where
  "text_or_none s = (if strip s = [] then None else Some (strip s))"

definition optional_text :: "json \<Rightarrow> string option" where
  "optional_text v = (if v = JNull then None else text_or_none (py_str v))"

definition int_or_default :: "json \<Rightarrow> int \<Rightarrow> int res" where
  "int_or_default v dflt = (if v = JNull \<or> v = JStr [] then Inr dflt else py_int v)"

definition int_or_none :: "json \<Rightarrow> int option res" where
  "int_or_none v = (if v = JNull \<or> v = JStr [] then Inr None
     else rbind (py_int v) (\<lambda>n. Inr (Some n)))"

text \<open>The truth value of an optional text.\<close>

definition nonempty :: "string option \<Rightarrow> bool" where
  "nonempty v = (case v of None \<Rightarrow> False | Some s \<Rightarrow> s \<noteq> [])"

text \<open>A SQL value of a nullable text or integer column as Python reads it.\<close>

definition of_text :: "string option \<Rightarrow> json" where
  "of_text v = (case v of None \<Rightarrow> JNull | Some s \<Rightarrow> JStr s)"

definition of_int_opt :: "int option \<Rightarrow> json" where
  "of_int_opt v = (case v of None \<Rightarrow> JNull | Some n \<Rightarrow> JInt n)"

lemma text_or_none_Some: "text_or_none s = Some t \<Longrightarrow> t = strip s \<and> t \<noteq> []"
  by (auto simp: text_or_none_def split: if_splits)

lemma text_or_none_idem: "text_or_none s = Some t \<Longrightarrow> text_or_none t = Some t"
  by (auto simp: text_or_none_def split: if_splits)

lemma optional_text_JNull [simp]: "optional_text JNull = None"
  by (simp add: optional_text_def)

lemma optional_text_JStr [simp]: "optional_text (JStr s) = text_or_none s"
  by (simp add: optional_text_def py_str_def)

lemma optional_text_of_text:
  "optional_text (of_text v) = (case v of None \<Rightarrow> None | Some s \<Rightarrow> text_or_none s)"
  by (simp add: of_text_def split: option.split)

lemma dget_Nil [simp]: "dget k [] = JNull"
  by (simp add: dget_def)

lemma dget_Cons [simp]: "dget k ((k', v) # d) = (if k = k' then v else dget k d)"
  by (simp add: dget_def)

lemma dget_update [simp]: "dget k (AList.update k' v d) = (if k = k' then v else dget k d)"
  by (simp add: dget_def)

lemma has_key_Nil [simp]: "\<not> has_key k []"
  by (simp add: has_key_def)

lemma has_key_update: "has_key k (AList.update k' v d) \<longleftrightarrow> k = k' \<or> has_key k d"
  by (simp add: has_key_def update_conv')

lemma has_key_Cons [simp]: "has_key k ((k', v) # d) = (k = k' \<or> has_key k d)"
  by (simp add: has_key_def)

lemma int_or_default_JInt [simp]: "int_or_default (JInt n) d = Inr n"
  by (simp add: int_or_default_def)

section \<open>Recognisers for the code's identifiers\<close>

text \<open>\<open>UUID_RE.fullmatch\<close>: lower-case hex in groups of 8-4-4-4-12.\<close>

definition uuid_ok :: "string \<Rightarrow> bool" where
  "uuid_ok s = list_all2 (\<lambda>t c. if t = CHR ''x'' then is_hex_lower c else c = CHR ''-'')
     ''xxxxxxxx-xxxx-xxxx-xxxx-xxxxxxxxxxxx'' s"

definition name_char :: "char \<Rightarrow> bool" where
  "name_char c = (is_lower c \<or> is_digit c \<or> c = CHR ''.'' \<or> c = CHR ''_'' \<or> c = CHR ''-'')"

text \<open>\<open>NAME_RE.fullmatch\<close>: one of \<open>[a-z0-9]\<close>, then at most 31 of \<open>[a-z0-9._-]\<close>.\<close>

definition name_ok :: "string \<Rightarrow> bool" where
  "name_ok s = (case s of [] \<Rightarrow> False
     | c # r \<Rightarrow> (is_lower c \<or> is_digit c) \<and> length r \<le> 31 \<and> list_all name_char r)"

definition uuid_json :: "json \<Rightarrow> bool" where
  "uuid_json v = (case v of JStr s \<Rightarrow> uuid_ok s | _ \<Rightarrow> False)"

lemma uuid_ok_length: "uuid_ok s \<Longrightarrow> length s = 36"
  by (auto simp: uuid_ok_def dest!: list_all2_lengthD)

lemma uuid_ok_nonempty: "uuid_ok s \<Longrightarrow> s \<noteq> []"
  using uuid_ok_length by fastforce

lemma uuid_ok_chars:
  assumes "uuid_ok s" and "c \<in> set s"
  shows "is_hex_lower c \<or> c = CHR ''-''"
proof -
  obtain t where "list_all2 (\<lambda>t c. if t = CHR ''x'' then is_hex_lower c else c = CHR ''-'') t s"
    using assms(1) uuid_ok_def by blast
  then show ?thesis
    using assms(2) by (induction t s) (auto split: if_splits)
qed

lemma uuid_ok_strip [simp]: "uuid_ok s \<Longrightarrow> strip s = s"
  by (rule strip_no_space)
     (auto dest!: uuid_ok_chars simp: is_hex_lower_def is_digit_def is_space_def code_def)

lemma uuid_ok_text_or_none [simp]: "uuid_ok s \<Longrightarrow> text_or_none s = Some s"
  by (simp add: text_or_none_def uuid_ok_nonempty)

end
