(* ===== verification/AcctDb.thy ===== *)
theory AcctDb
  imports PyValue
begin

text \<open>
  The node's accounting database (\<open>lib/vincula-accountd.py\<close>): its tables, the poll-baseline
  and export-sequence operations, and the row writer \<open>upsert_connection\<close>.

  A table is the list of its rows in rowid order.  Statements that SQLite can refuse return
  \<open>res\<close>: an integer parameter outside 64 bits is an \<open>OverflowError\<close> of the sqlite3 module, a
  violated UNIQUE index an \<open>IntegrityError\<close>.  The process globals (\<open>NODE_ID\<close>, \<open>INSTANCE_ID\<close>,
  \<open>TAG_TO_USER_ID\<close>) are an \<open>acct_env\<close>; \<open>clock\<close> arguments stand for \<open>utc_now_iso()\<close>.
\<close>

section \<open>Tables\<close>

record conn_row =
  c_event_id :: int
  c_connection_id :: string
  c_generation :: int
  c_user_id :: string
  c_node_id :: string
  c_instance_id :: "string option"
  c_user_tag :: "string option"
  c_started_at :: string
  c_last_seen_at :: string
  c_closed_at :: "string option"
  c_destination_host :: "string option"
  c_destination_ip :: "string option"
  c_destination_port :: "int option"
  c_network :: "string option"
  c_upload_bytes :: int
  c_download_bytes :: int
  c_export_seq :: "int option"

record baseline =
  b_generation :: int
  b_raw_up :: int
  b_raw_dn :: int
  b_acc_up :: int
  b_acc_dn :: int
  b_last_seen_at :: string

record daily_row =
  d_date :: string
  d_user_id :: string
  d_user_tag :: "string option"
  d_destination_host :: string
  d_upload_bytes :: int
  d_download_bytes :: int
  d_connection_count :: int

text \<open>\<open>conn_seq\<close> is the row of \<open>sqlite_sequence\<close> behind AUTOINCREMENT.\<close>

record acct_db =
  connections :: "conn_row list"
  conn_seq :: int
  poll_baseline :: "(string \<times> baseline) list"
  meta :: "(string \<times> string) list"
  daily_usage :: "daily_row list"

record acct_env =
  g_node_id :: string
  g_instance_id :: "string option"
  g_tag_to_user_id :: "(string \<times> string) list"

text \<open>
  The internal event dict that a Clash connection is normalised to.  The counters stay JSON
  values: an event with unusable counters is kept and only its delta is skipped.  No producer
  sets \<open>closed_at\<close>, so the record has no such field.
\<close>

record event =
  ev_connection_id :: string
  ev_generation :: int
  ev_node_id :: string
  ev_user_id :: string
  ev_user_tag :: "string option"
  ev_destination_host :: "string option"
  ev_destination_ip :: "string option"
  ev_destination_port :: "int option"
  ev_network :: "string option"
  ev_upload_bytes :: json
  ev_download_bytes :: json
  ev_started_at :: string
  ev_ts :: string

record cache_entry =
  k_ev :: event
  k_raw_up :: int
  k_raw_dn :: int
  k_acc_up :: int
  k_acc_dn :: int
  k_generation :: int

abbreviation open_row :: "conn_row \<Rightarrow> bool" where
  "open_row r \<equiv> c_closed_at r = None"

definition row_at :: "string \<Rightarrow> int \<Rightarrow> conn_row \<Rightarrow> bool" where
  "row_at cid gen r = (c_connection_id r = cid \<and> c_generation r = gen)"

definition rows_of :: "string \<Rightarrow> acct_db \<Rightarrow> conn_row list" where
  "rows_of cid db = filter (\<lambda>r. c_connection_id r = cid) (connections db)"

section \<open>Integers\<close>

definition INT64_MAX :: int where
  "INT64_MAX = 2 ^ 63 - 1"

text \<open>An int parameter of a statement: sqlite3 raises \<open>OverflowError\<close> beyond 64 bits.\<close>

definition bind_int :: "int \<Rightarrow> int res" where
  "bind_int n = (if - (2 ^ 63) \<le> n \<and> n \<le> INT64_MAX then Inr n else Inl OverflowError)"

definition bind_ints :: "int list \<Rightarrow> unit res" where
  "bind_ints ns = rfold (\<lambda>n _. rbind (bind_int n) (\<lambda>_. Inr ())) ns ()"

definition require_nonneg_int :: "json \<Rightarrow> int res" where
  "require_nonneg_int v = (case v of
     JInt n \<Rightarrow> if n < 0 \<or> n > INT64_MAX then Inl (ValueError ''out of range'') else Inr n
   | _ \<Rightarrow> Inl (ValueError ''must be a non-negative int''))"

definition event_counter :: "json \<Rightarrow> int res" where
  "event_counter raw = require_nonneg_int (if raw = JNull then JInt 0 else raw)"

section \<open>Meta and export sequence\<close>

definition meta_get :: "acct_db \<Rightarrow> string \<Rightarrow> string \<Rightarrow> string" where
  "meta_get db key dflt = (case map_of (meta db) key of Some v \<Rightarrow> v | None \<Rightarrow> dflt)"

definition meta_set :: "acct_db \<Rightarrow> string \<Rightarrow> string \<Rightarrow> acct_db" where
  "meta_set db key v = db\<lparr>meta := AList.update key v (meta db)\<rparr>"

abbreviation META_AUDIT_EXPORT_SEQ :: string where
  "META_AUDIT_EXPORT_SEQ \<equiv> ''audit_export_seq''"

abbreviation META_AUDIT_PRUNED_MAX_EXPORT_SEQ :: string where
  "META_AUDIT_PRUNED_MAX_EXPORT_SEQ \<equiv> ''audit_pruned_max_export_seq''"

text \<open>\<open>int(meta_get(conn, key, "0") or "0")\<close>.\<close>

definition meta_int :: "acct_db \<Rightarrow> string \<Rightarrow> int res" where
  "meta_int db key = (let t = meta_get db key ''0'' in py_int (JStr (if t = [] then ''0'' else t)))"

definition next_export_seq :: "acct_db \<Rightarrow> (acct_db \<times> int) res" where
  "next_export_seq db =
     rbind (meta_int db META_AUDIT_EXPORT_SEQ) (\<lambda>current.
       let v = current + 1 in
       Inr (meta_set db META_AUDIT_EXPORT_SEQ (int_text v), v))"

section \<open>Poll baselines\<close>

definition load_poll_baseline :: "acct_db \<Rightarrow> string \<Rightarrow> baseline option" where
  "load_poll_baseline db cid = map_of (poll_baseline db) cid"

definition upsert_poll_baseline :: "acct_db \<Rightarrow> string \<Rightarrow> baseline \<Rightarrow> acct_db res" where
  "upsert_poll_baseline db cid b =
     rbind (bind_ints [b_generation b, b_raw_up b, b_raw_dn b, b_acc_up b, b_acc_dn b]) (\<lambda>_.
       Inr (db\<lparr>poll_baseline := AList.update cid b (poll_baseline db)\<rparr>))"

definition delete_poll_baseline :: "acct_db \<Rightarrow> string \<Rightarrow> acct_db" where
  "delete_poll_baseline db cid = db\<lparr>poll_baseline := AList.delete cid (poll_baseline db)\<rparr>"

definition baseline_open :: "acct_db \<Rightarrow> string \<times> baseline \<Rightarrow> bool" where
  "baseline_open db p =
     list_ex (\<lambda>r. row_at (fst p) (b_generation (snd p)) r \<and> open_row r) (connections db)"

definition prune_closed_poll_baselines :: "acct_db \<Rightarrow> acct_db" where
  "prune_closed_poll_baselines db =
     db\<lparr>poll_baseline := filter (baseline_open db) (poll_baseline db)\<rparr>"

definition make_cache_entry :: "event \<Rightarrow> int \<Rightarrow> int \<Rightarrow> int \<Rightarrow> int \<Rightarrow> int \<Rightarrow> cache_entry" where
  "make_cache_entry ev raw_up raw_dn acc_up acc_dn gen =
     \<lparr>k_ev = ev\<lparr>ev_generation := gen\<rparr>, k_raw_up = raw_up, k_raw_dn = raw_dn,
      k_acc_up = acc_up, k_acc_dn = acc_dn, k_generation = gen\<rparr>"

text \<open>The cache entry that a baseline and its connection row give.\<close>

definition entry_of :: "string \<Rightarrow> baseline \<Rightarrow> conn_row \<Rightarrow> cache_entry" where
  "entry_of cid b r = make_cache_entry
     \<lparr>ev_connection_id = cid, ev_generation = b_generation b, ev_node_id = c_node_id r,
      ev_user_id = c_user_id r, ev_user_tag = c_user_tag r,
      ev_destination_host = c_destination_host r, ev_destination_ip = c_destination_ip r,
      ev_destination_port = c_destination_port r, ev_network = c_network r,
      ev_upload_bytes = JInt (b_raw_up b), ev_download_bytes = JInt (b_raw_dn b),
      ev_started_at = c_started_at r, ev_ts = b_last_seen_at b\<rparr>
     (b_raw_up b) (b_raw_dn b) (b_acc_up b) (b_acc_dn b) (b_generation b)"

definition reload_known_open_from_db :: "acct_db \<Rightarrow> (string \<times> cache_entry) list" where
  "reload_known_open_from_db db =
     fold (\<lambda>(cid, e). AList.update cid e)
       (concat (map (\<lambda>(cid, b).
          map (\<lambda>r. (cid, entry_of cid b r))
            (filter (\<lambda>r. row_at cid (b_generation b) r \<and> open_row r) (connections db)))
          (poll_baseline db))) []"

definition max_generation :: "acct_db \<Rightarrow> string \<Rightarrow> int option" where
  "max_generation db cid = (case map c_generation (rows_of cid db) of
     [] \<Rightarrow> None | g # gs \<Rightarrow> Some (fold max gs g))"

text \<open>\<open>ORDER BY generation DESC LIMIT 1\<close> among the open rows of a connection.\<close>

definition open_connection_row :: "acct_db \<Rightarrow> string \<Rightarrow> conn_row option" where
  "open_connection_row db cid =
     (case sort_key (\<lambda>r. - c_generation r) (filter open_row (rows_of cid db)) of
        [] \<Rightarrow> None | r # _ \<Rightarrow> Some r)"

definition durable_prev_state :: "acct_db \<Rightarrow> string \<Rightarrow> cache_entry option" where
  "durable_prev_state db cid = (case load_poll_baseline db cid of
     None \<Rightarrow> None
   | Some b \<Rightarrow> (case find (row_at cid (b_generation b)) (connections db) of
       None \<Rightarrow> None
     | Some r \<Rightarrow> if open_row r then Some (entry_of cid b r) else None))"

section \<open>Writing a connection row\<close>

definition resolve_user_id :: "acct_env \<Rightarrow> string \<Rightarrow> string res" where
  "resolve_user_id env tag = (case map_of (g_tag_to_user_id env) tag of
     None \<Rightarrow> Inl (ValueError ''cannot map user_tag'')
   | Some uid \<Rightarrow> if uid = [] then Inl (ValueError ''cannot map user_tag'') else Inr uid)"

definition assign_export_seq_if_needed ::
    "acct_db \<Rightarrow> string \<Rightarrow> int \<Rightarrow> (acct_db \<times> int option) res" where
  "assign_export_seq_if_needed db cid gen =
     (case find (row_at cid gen) (connections db) of
        None \<Rightarrow> Inr (db, None)
      | Some row \<Rightarrow>
          if open_row row then Inr (db, None)
          else (case c_export_seq row of
              Some s \<Rightarrow> Inr (db, Some s)
            | None \<Rightarrow>
                rbind (next_export_seq db) (\<lambda>(db1, s).
                rbind (bind_int s) (\<lambda>_.
                  if list_ex (\<lambda>r. c_export_seq r = Some s \<and> c_event_id r \<noteq> c_event_id row)
                       (connections db1)
                  then Inl IntegrityError
                  else Inr (db1\<lparr>connections := map (\<lambda>r.
                      if c_event_id r = c_event_id row \<and> c_export_seq r = None
                      then r\<lparr>c_export_seq := Some s\<rparr> else r) (connections db1)\<rparr>, Some s)))))"

definition coalesce :: "'a option \<Rightarrow> 'a option \<Rightarrow> 'a option" where
  "coalesce a b = (case a of None \<Rightarrow> b | Some _ \<Rightarrow> a)"

text \<open>The SET clause of the UPDATE: metadata is refreshed, never erased.\<close>

definition refresh_row ::
    "event \<Rightarrow> string \<Rightarrow> int \<Rightarrow> int \<Rightarrow> string option \<Rightarrow> string \<Rightarrow> conn_row \<Rightarrow> conn_row" where
  "refresh_row ev uid up dn closed now r = r\<lparr>
     c_user_id := uid,
     c_user_tag := ev_user_tag ev,
     c_destination_host := coalesce (ev_destination_host ev) (c_destination_host r),
     c_destination_ip := coalesce (ev_destination_ip ev) (c_destination_ip r),
     c_destination_port := coalesce (ev_destination_port ev) (c_destination_port r),
     c_network := coalesce (ev_network ev) (c_network r),
     c_upload_bytes := up,
     c_download_bytes := dn,
     c_closed_at := closed,
     c_last_seen_at := now\<rparr>"

definition new_row ::
    "acct_env \<Rightarrow> event \<Rightarrow> int \<Rightarrow> int \<Rightarrow> string \<Rightarrow> int \<Rightarrow> int \<Rightarrow> string option \<Rightarrow> string \<Rightarrow> conn_row" where
  "new_row env ev eid gen uid up dn closed now =
     \<lparr>c_event_id = eid, c_connection_id = ev_connection_id ev, c_generation = gen,
      c_user_id = uid,
      c_node_id = (if ev_node_id ev = [] then g_node_id env else ev_node_id ev),
      c_instance_id = (if g_instance_id env = Some [] then None else g_instance_id env),
      c_user_tag = ev_user_tag ev,
      c_started_at = (if ev_started_at ev = [] then now else ev_started_at ev),
      c_last_seen_at = now, c_closed_at = closed,
      c_destination_host = ev_destination_host ev, c_destination_ip = ev_destination_ip ev,
      c_destination_port = ev_destination_port ev, c_network = ev_network ev,
      c_upload_bytes = up, c_download_bytes = dn, c_export_seq = None\<rparr>"

definition insert_connection :: "acct_db \<Rightarrow> conn_row \<Rightarrow> acct_db res" where
  "insert_connection db r =
     (if list_ex (row_at (c_connection_id r) (c_generation r)) (connections db)
      then Inl IntegrityError
      else Inr (db\<lparr>connections := connections db @ [r], conn_seq := c_event_id r\<rparr>))"

text \<open>\<open>int(accounted)\<close> if the caller gives it, else \<open>int(ev.get(...) or 0)\<close>.\<close>

definition counter_arg :: "int option \<Rightarrow> json \<Rightarrow> int res" where
  "counter_arg acc raw = (case acc of Some n \<Rightarrow> Inr n
     | None \<Rightarrow> py_int (if truthy raw then raw else JInt 0))"

definition user_id_of_event :: "acct_env \<Rightarrow> event \<Rightarrow> string res" where
  "user_id_of_event env ev = (if ev_user_id ev \<noteq> [] then Inr (ev_user_id ev)
     else resolve_user_id env (case ev_user_tag ev of None \<Rightarrow> ''None'' | Some t \<Rightarrow> t))"

definition opt_ints :: "int option \<Rightarrow> int list" where
  "opt_ints p = (case p of None \<Rightarrow> [] | Some n \<Rightarrow> [n])"

definition upsert_connection ::
    "acct_env \<Rightarrow> string \<Rightarrow> acct_db \<Rightarrow> event \<Rightarrow> bool \<Rightarrow> int option \<Rightarrow> int option \<Rightarrow> int option
      \<Rightarrow> (acct_db \<times> bool) res" where
  "upsert_connection env clock db ev close acc_up acc_dn generation =
     (let now = (if ev_ts ev = [] then clock else ev_ts ev);
          closed = (if close then Some now else None);
          gen = (case generation of Some g \<Rightarrow> g | None \<Rightarrow> ev_generation ev);
          cid = ev_connection_id ev
      in
      rbind (counter_arg acc_up (ev_upload_bytes ev)) (\<lambda>up.
      rbind (counter_arg acc_dn (ev_download_bytes ev)) (\<lambda>dn.
      rbind (user_id_of_event env ev) (\<lambda>uid.
      rbind (bind_ints (opt_ints (ev_destination_port ev) @ [up, dn, gen])) (\<lambda>_.
        if list_ex (\<lambda>r. row_at cid gen r \<and> open_row r) (connections db) then
          (let db1 = db\<lparr>connections := map (\<lambda>r. if row_at cid gen r \<and> open_row r
                 then refresh_row ev uid up dn closed now r else r) (connections db)\<rparr>
           in if closed \<noteq> None
              then rbind (assign_export_seq_if_needed db1 cid gen) (\<lambda>(db2, _). Inr (db2, True))
              else Inr (db1, True))
        else if list_ex (row_at cid gen) (connections db) then Inr (db, False)
        else
          rbind (insert_connection db
              (new_row env ev (conn_seq db + 1) gen uid up dn closed now)) (\<lambda>db1.
            if closed \<noteq> None
            then rbind (assign_export_seq_if_needed db1 cid gen) (\<lambda>(db2, _). Inr (db2, True))
            else Inr (db1, True)))))))"

text \<open>
  \<open>_write_open_state\<close>: land the row, falling back to a fresh generation when the target one
  is closed, then store the baseline; \<open>_close_generation\<close>: close the row, drop the baseline.
\<close>

definition write_open_state ::
    "acct_env \<Rightarrow> string \<Rightarrow> acct_db \<Rightarrow> event \<Rightarrow> string \<Rightarrow> int \<Rightarrow> int \<Rightarrow> int \<Rightarrow> int \<Rightarrow> int \<Rightarrow> string
      \<Rightarrow> (acct_db \<times> cache_entry) res" where
  "write_open_state env clock db ev cid gen raw_up raw_dn acc_up acc_dn now =
     (let finish = (\<lambda>db ev_w gen acc_up acc_dn.
        rbind (upsert_poll_baseline db cid
            \<lparr>b_generation = gen, b_raw_up = raw_up, b_raw_dn = raw_dn,
             b_acc_up = acc_up, b_acc_dn = acc_dn, b_last_seen_at = now\<rparr>) (\<lambda>db'.
          Inr (db', make_cache_entry ev_w raw_up raw_dn acc_up acc_dn gen)));
        ev_w = ev\<lparr>ev_generation := gen, ev_ts := now\<rparr>
      in
      rbind (upsert_connection env clock db ev_w False (Some acc_up) (Some acc_dn) (Some gen))
        (\<lambda>(db1, landed).
          if landed then finish db1 ev_w gen acc_up acc_dn
          else (let gen' = (case max_generation db1 cid of None \<Rightarrow> 0 | Some g \<Rightarrow> g) + 1;
                    ev_w' = ev_w\<lparr>ev_generation := gen'\<rparr>
                in rbind (upsert_connection env clock db1 ev_w' False (Some 0) (Some 0) (Some gen'))
                     (\<lambda>(db2, _). finish db2 ev_w' gen' 0 0))))"

definition close_generation ::
    "acct_env \<Rightarrow> string \<Rightarrow> acct_db \<Rightarrow> cache_entry \<Rightarrow> string \<Rightarrow> acct_db res" where
  "close_generation env clock db state now =
     (let gen = k_generation state;
          last_ev = (k_ev state)\<lparr>ev_ts := now, ev_generation := gen\<rparr>
      in rbind (upsert_connection env clock db last_ev True
             (Some (k_acc_up state)) (Some (k_acc_dn state)) (Some gen)) (\<lambda>(db1, _).
           Inr (delete_poll_baseline db1 (ev_connection_id last_ev))))"

end
