(* ===== verification/AcctInv.thy ===== *)
theory AcctInv
  imports AcctDb
begin

text \<open>
  The invariant of the accounting database and the two-state guarantee \<open>evolves\<close> that every
  write of the collector gives, proved for the row writer and the two state writers of
  \<open>AcctDb\<close>.  \<open>evolves\<close> is reflexive and transitive, so the loops of a poll inherit it.
\<close>

section \<open>Invariant and guarantee\<close>

definition seq_counter :: "acct_db \<Rightarrow> int" where
  "seq_counter db = (case meta_int db META_AUDIT_EXPORT_SEQ of Inr n \<Rightarrow> n | Inl _ \<Rightarrow> 0)"

definition keys_inv :: "acct_db \<Rightarrow> bool" where
  "keys_inv db \<longleftrightarrow> 0 \<le> conn_seq db \<and> distinct (map c_event_id (connections db))
     \<and> (\<forall>r \<in> set (connections db). 1 \<le> c_event_id r \<and> c_event_id r \<le> conn_seq db)
     \<and> distinct (map (\<lambda>r. (c_connection_id r, c_generation r)) (connections db))"

definition seq_inv :: "acct_db \<Rightarrow> bool" where
  "seq_inv db \<longleftrightarrow> meta_int db META_AUDIT_EXPORT_SEQ = Inr (seq_counter db) \<and> 0 \<le> seq_counter db
     \<and> (\<forall>r \<in> set (connections db). open_row r = (c_export_seq r = None))
     \<and> (\<forall>r \<in> set (connections db). \<forall>s. c_export_seq r = Some s \<longrightarrow> 1 \<le> s \<and> s \<le> seq_counter db)
     \<and> (\<forall>r \<in> set (connections db). \<forall>r' \<in> set (connections db). \<forall>s.
          c_export_seq r = Some s \<longrightarrow> c_export_seq r' = Some s \<longrightarrow> r = r')"

definition gen_inv :: "acct_db \<Rightarrow> bool" where
  "gen_inv db \<longleftrightarrow> (\<forall>r \<in> set (connections db). \<forall>r' \<in> set (connections db).
     open_row r \<longrightarrow> c_connection_id r' = c_connection_id r \<longrightarrow> c_generation r' \<le> c_generation r)"

definition base_inv :: "acct_db \<Rightarrow> bool" where
  "base_inv db \<longleftrightarrow> distinct (map fst (poll_baseline db))
     \<and> (\<forall>(cid, b) \<in> set (poll_baseline db). 0 \<le> b_raw_up b \<and> 0 \<le> b_raw_dn b
          \<and> (\<forall>r \<in> set (connections db). row_at cid (b_generation b) r \<longrightarrow> open_row r \<longrightarrow>
               c_upload_bytes r = b_acc_up b \<and> c_download_bytes r = b_acc_dn b))"

definition acct_inv :: "acct_db \<Rightarrow> bool" where
  "acct_inv db \<longleftrightarrow> keys_inv db \<and> seq_inv db \<and> gen_inv db \<and> base_inv db"

text \<open>
  From \<open>db\<close> to \<open>db'\<close>: closed rows stay byte for byte; an open row keeps its keys, its counters
  do not shrink, and if it is closed its export sequence is above every one assigned before;
  rows that appear have new event ids, every sequence number handed out is on a row, and no row
  shows up under a number handed out before.
\<close>

definition row_grows :: "acct_db \<Rightarrow> conn_row \<Rightarrow> conn_row \<Rightarrow> bool" where
  "row_grows db r r' \<longleftrightarrow> c_event_id r' = c_event_id r
     \<and> c_connection_id r' = c_connection_id r \<and> c_generation r' = c_generation r
     \<and> (\<forall>s. c_export_seq r = Some s \<longrightarrow> c_export_seq r' = Some s)
     \<and> (if open_row r
        then c_upload_bytes r \<le> c_upload_bytes r' \<and> c_download_bytes r \<le> c_download_bytes r'
          \<and> (open_row r' \<or> (\<exists>s. c_export_seq r' = Some s \<and> seq_counter db < s))
        else r' = r)"

definition evolves :: "acct_db \<Rightarrow> acct_db \<Rightarrow> bool" where
  "evolves db db' \<longleftrightarrow>
     (\<forall>r \<in> set (connections db). \<exists>r' \<in> set (connections db'). row_grows db r r')
     \<and> (\<forall>r' \<in> set (connections db'). c_event_id r' \<le> conn_seq db \<longrightarrow>
          (\<exists>r \<in> set (connections db). c_event_id r = c_event_id r'))
     \<and> conn_seq db \<le> conn_seq db' \<and> seq_counter db \<le> seq_counter db'
     \<and> (\<forall>s. seq_counter db < s \<and> s \<le> seq_counter db' \<longrightarrow>
          (\<exists>r' \<in> set (connections db'). c_export_seq r' = Some s))
     \<and> (\<forall>r' \<in> set (connections db'). \<forall>s. c_export_seq r' = Some s \<longrightarrow> s \<le> seq_counter db \<longrightarrow>
          r' \<in> set (connections db))
     \<and> meta_get db' META_AUDIT_PRUNED_MAX_EXPORT_SEQ ''0''
         = meta_get db META_AUDIT_PRUNED_MAX_EXPORT_SEQ ''0''"

lemma row_grows_refl: "row_grows db r r"
  by (simp add: row_grows_def)

lemma evolves_refl [simp]: "evolves db db"
  by (auto simp: evolves_def intro: row_grows_refl)

lemma evolves_trans:
  assumes 1: "evolves a b" and 2: "evolves b c"
  shows "evolves a c"
  unfolding evolves_def
proof (intro conjI ballI allI impI)
  fix r assume "r \<in> set (connections a)"
  then obtain r' where r': "r' \<in> set (connections b)" "row_grows a r r'"
    using 1 by (auto simp: evolves_def)
  then obtain r'' where r'': "r'' \<in> set (connections c)" "row_grows b r' r''"
    using 2 by (auto simp: evolves_def)
  have "seq_counter a \<le> seq_counter b" using 1 by (simp add: evolves_def)
  with r'(2) r''(2) have "row_grows a r r''"
    by (fastforce simp: row_grows_def split: if_splits)
  with r''(1) show "\<exists>r''\<in>set (connections c). row_grows a r r''" ..
next
  fix r assume r: "r \<in> set (connections c)" "c_event_id r \<le> conn_seq a"
  then have "c_event_id r \<le> conn_seq b" using 1 by (simp add: evolves_def)
  with r 2 obtain q where q: "q \<in> set (connections b)" "c_event_id q = c_event_id r"
    by (auto simp: evolves_def)
  with r have "c_event_id q \<le> conn_seq a" by simp
  with q 1 obtain p where "p \<in> set (connections a)" "c_event_id p = c_event_id q"
    by (auto simp: evolves_def)
  with q show "\<exists>p\<in>set (connections a). c_event_id p = c_event_id r" by auto
next
  fix s assume s: "seq_counter a < s \<and> s \<le> seq_counter c"
  show "\<exists>r\<in> set (connections c). c_export_seq r = Some s"
  proof (cases "s \<le> seq_counter b")
    case True
    with s 1 obtain r where r: "r \<in> set (connections b)" "c_export_seq r = Some s"
      unfolding evolves_def by blast
    with 2 obtain r' where "r' \<in> set (connections c)" "row_grows b r r'" by (auto simp: evolves_def)
    with r(2) show ?thesis by (auto simp: row_grows_def)
  next
    case False
    with s 2 show ?thesis by (auto simp: evolves_def)
  qed
next
  fix r s assume "r \<in> set (connections c)" "c_export_seq r = Some s" "s \<le> seq_counter a"
  moreover from this have "s \<le> seq_counter b" using 1 by (auto simp: evolves_def)
  ultimately show "r \<in> set (connections a)" using 1 2 unfolding evolves_def by blast
next
  show "conn_seq a \<le> conn_seq c" "seq_counter a \<le> seq_counter c"
    and "meta_get c META_AUDIT_PRUNED_MAX_EXPORT_SEQ ''0'' = meta_get a META_AUDIT_PRUNED_MAX_EXPORT_SEQ ''0''"
    using 1 2 by (auto simp: evolves_def)
qed

text \<open>Writes for one connection leave the rows and the baseline of every other one alone.\<close>

definition same_for :: "string \<Rightarrow> acct_db \<Rightarrow> acct_db \<Rightarrow> bool" where
  "same_for cid db db' \<longleftrightarrow> rows_of cid db' = rows_of cid db
     \<and> load_poll_baseline db' cid = load_poll_baseline db cid"

lemma same_for_refl [simp]: "same_for cid db db"
  by (simp add: same_for_def)

lemma same_for_trans: "same_for cid a b \<Longrightarrow> same_for cid b c \<Longrightarrow> same_for cid a c"
  by (simp add: same_for_def)

lemma find_row_at: "find (row_at cid g) (connections db) = find (row_at cid g) (rows_of cid db)"
  unfolding rows_of_def by (rule find_filter [symmetric]) (simp add: row_at_def)

section \<open>Meta counters\<close>

lemma meta_get_set: "meta_get (meta_set db k v) k' d = (if k = k' then v else meta_get db k' d)"
  by (simp add: meta_get_def meta_set_def)

lemma meta_int_set [simp]: "meta_int (meta_set db k (int_text n)) k = Inr n"
  by (simp add: meta_int_def meta_get_set)

lemma seq_counter_set [simp]: "seq_counter (meta_set db META_AUDIT_EXPORT_SEQ (int_text n)) = n"
  by (simp add: seq_counter_def)

lemma meta_set_fields [simp]:
  "connections (meta_set db k v) = connections db" "conn_seq (meta_set db k v) = conn_seq db"
  "poll_baseline (meta_set db k v) = poll_baseline db" "daily_usage (meta_set db k v) = daily_usage db"
  by (simp_all add: meta_set_def)

text \<open>Reading the meta table sees nothing of a change to another table.\<close>

lemma meta_int_frame [simp]:
  "meta_int (db\<lparr>connections := x\<rparr>) k = meta_int db k"
  "meta_int (db\<lparr>conn_seq := n\<rparr>) k = meta_int db k"
  "meta_int (db\<lparr>poll_baseline := y\<rparr>) k = meta_int db k"
  by (simp_all add: meta_int_def meta_get_def)

lemma meta_get_frame [simp]:
  "meta_get (db\<lparr>connections := x\<rparr>) k d = meta_get db k d"
  "meta_get (db\<lparr>conn_seq := n\<rparr>) k d = meta_get db k d"
  "meta_get (db\<lparr>poll_baseline := y\<rparr>) k d = meta_get db k d"
  by (simp_all add: meta_get_def)

lemma seq_counter_frame [simp]:
  "seq_counter (db\<lparr>connections := x\<rparr>) = seq_counter db"
  "seq_counter (db\<lparr>conn_seq := n\<rparr>) = seq_counter db"
  "seq_counter (db\<lparr>poll_baseline := y\<rparr>) = seq_counter db"
  by (simp_all add: seq_counter_def)

section \<open>The row writers, case by case\<close>

lemma refresh_row_keys [simp]:
  "c_event_id (refresh_row ev uid up dn cl now r) = c_event_id r"
  "c_connection_id (refresh_row ev uid up dn cl now r) = c_connection_id r"
  "c_generation (refresh_row ev uid up dn cl now r) = c_generation r"
  "c_closed_at (refresh_row ev uid up dn cl now r) = cl"
  "c_export_seq (refresh_row ev uid up dn cl now r) = c_export_seq r"
  "c_upload_bytes (refresh_row ev uid up dn cl now r) = up"
  "c_download_bytes (refresh_row ev uid up dn cl now r) = dn"
  by (simp_all add: refresh_row_def)

lemma new_row_keys [simp]:
  "c_event_id (new_row env ev eid gen uid up dn cl now) = eid"
  "c_connection_id (new_row env ev eid gen uid up dn cl now) = ev_connection_id ev"
  "c_generation (new_row env ev eid gen uid up dn cl now) = gen"
  "c_closed_at (new_row env ev eid gen uid up dn cl now) = cl"
  "c_export_seq (new_row env ev eid gen uid up dn cl now) = None"
  "c_upload_bytes (new_row env ev eid gen uid up dn cl now) = up"
  "c_download_bytes (new_row env ev eid gen uid up dn cl now) = dn"
  by (simp_all add: new_row_def)

definition touch_rows :: "string \<Rightarrow> int \<Rightarrow> (conn_row \<Rightarrow> conn_row) \<Rightarrow> acct_db \<Rightarrow> acct_db" where
  "touch_rows cid gen f db = db\<lparr>connections :=
     map (\<lambda>r. if row_at cid gen r \<and> open_row r then f r else r) (connections db)\<rparr>"

definition put_baseline :: "string \<Rightarrow> baseline \<Rightarrow> acct_db \<Rightarrow> acct_db" where
  "put_baseline cid b db = db\<lparr>poll_baseline := AList.update cid b (poll_baseline db)\<rparr>"

definition add_row :: "conn_row \<Rightarrow> acct_db \<Rightarrow> acct_db" where
  "add_row r db = db\<lparr>connections := connections db @ [r], conn_seq := c_event_id r\<rparr>"

lemma upsert_poll_baseline_Inr:
  "upsert_poll_baseline db cid b = Inr db' \<Longrightarrow> db' = put_baseline cid b db"
  by (auto simp: upsert_poll_baseline_def put_baseline_def res_simps)

text \<open>What a call with \<open>close=False\<close> and explicit counters returns, when it returns.\<close>

lemma upsert_connection_open:
  assumes "upsert_connection env clock db ev False (Some up) (Some dn) (Some gen) = Inr (db', landed)"
  defines "cid \<equiv> ev_connection_id ev"
  defines "now \<equiv> (if ev_ts ev = [] then clock else ev_ts ev)"
  shows "\<exists>uid.
    (if list_ex (\<lambda>r. row_at cid gen r \<and> open_row r) (connections db)
     then landed \<and> db' = touch_rows cid gen (refresh_row ev uid up dn None now) db
     else if list_ex (row_at cid gen) (connections db) then \<not> landed \<and> db' = db
     else landed \<and> db' = add_row (new_row env ev (conn_seq db + 1) gen uid up dn None now) db)"
proof -
  obtain uid where "user_id_of_event env ev = Inr uid"
    using assms(1) by (auto simp: upsert_connection_def counter_arg_def Let_def res_simps)
  with assms(1) show ?thesis
    unfolding cid_def now_def
    by (intro exI [of _ uid])
       (auto simp: upsert_connection_def counter_arg_def touch_rows_def add_row_def
         insert_connection_def res_simps Let_def list_ex_iff split: if_splits)
qed

lemma write_open_state_hit:
  assumes w: "write_open_state env clock db ev cid gen ru rd au ad now = Inr (db', e)"
    and cid: "ev_connection_id ev = cid" and now: "now \<noteq> []"
    and hit: "list_ex (\<lambda>r. row_at cid gen r \<and> open_row r) (connections db)"
  shows "\<exists>uid. db' = put_baseline cid \<lparr>b_generation = gen, b_raw_up = ru, b_raw_dn = rd,
             b_acc_up = au, b_acc_dn = ad, b_last_seen_at = now\<rparr>
           (touch_rows cid gen
             (refresh_row (ev\<lparr>ev_generation := gen, ev_ts := now\<rparr>) uid au ad None now) db)
         \<and> e = make_cache_entry (ev\<lparr>ev_generation := gen, ev_ts := now\<rparr>) ru rd au ad gen"
proof -
  let ?ev = "ev\<lparr>ev_generation := gen, ev_ts := now\<rparr>"
  from w obtain db1 landed where
    u: "upsert_connection env clock db ?ev False (Some au) (Some ad) (Some gen) = Inr (db1, landed)"
    by (auto simp: write_open_state_def Let_def res_simps)
  from upsert_connection_open [OF u] hit now cid obtain uid where
    "landed" and db1: "db1 = touch_rows cid gen (refresh_row ?ev uid au ad None now) db"
    by (auto split: if_splits)
  with w u have "upsert_poll_baseline db1 cid \<lparr>b_generation = gen, b_raw_up = ru, b_raw_dn = rd,
      b_acc_up = au, b_acc_dn = ad, b_last_seen_at = now\<rparr> = Inr db'
    \<and> e = make_cache_entry ?ev ru rd au ad gen"
    by (auto simp: write_open_state_def Let_def res_simps)
  with db1 upsert_poll_baseline_Inr show ?thesis by blast
qed

lemma write_open_state_new:
  assumes w: "write_open_state env clock db ev cid gen ru rd au ad now = Inr (db', e)"
    and cid: "ev_connection_id ev = cid" and now: "now \<noteq> []"
    and fresh: "\<not> list_ex (row_at cid gen) (connections db)"
  shows "\<exists>uid. db' = put_baseline cid \<lparr>b_generation = gen, b_raw_up = ru, b_raw_dn = rd,
             b_acc_up = au, b_acc_dn = ad, b_last_seen_at = now\<rparr>
           (add_row (new_row env (ev\<lparr>ev_generation := gen, ev_ts := now\<rparr>)
             (conn_seq db + 1) gen uid au ad None now) db)
         \<and> e = make_cache_entry (ev\<lparr>ev_generation := gen, ev_ts := now\<rparr>) ru rd au ad gen"
proof -
  let ?ev = "ev\<lparr>ev_generation := gen, ev_ts := now\<rparr>"
  from w obtain db1 landed where
    u: "upsert_connection env clock db ?ev False (Some au) (Some ad) (Some gen) = Inr (db1, landed)"
    by (auto simp: write_open_state_def Let_def res_simps)
  have "\<not> list_ex (\<lambda>r. row_at cid gen r \<and> open_row r) (connections db)"
    using fresh by (auto simp: list_ex_iff)
  with upsert_connection_open [OF u] fresh now cid obtain uid where
    "landed" and db1: "db1 = add_row (new_row env ?ev (conn_seq db + 1) gen uid au ad None now) db"
    by (auto split: if_splits)
  with w u have "upsert_poll_baseline db1 cid \<lparr>b_generation = gen, b_raw_up = ru, b_raw_dn = rd,
      b_acc_up = au, b_acc_dn = ad, b_last_seen_at = now\<rparr> = Inr db'
    \<and> e = make_cache_entry ?ev ru rd au ad gen"
    by (auto simp: write_open_state_def Let_def res_simps)
  with db1 upsert_poll_baseline_Inr show ?thesis by blast
qed

section \<open>Simple consequences of the invariant\<close>

lemma acct_inv_row_eq:
  assumes "acct_inv db" "r \<in> set (connections db)" "r' \<in> set (connections db)"
    and "c_connection_id r = c_connection_id r'" "c_generation r = c_generation r'"
  shows "r = r'"
proof -
  have "inj_on (\<lambda>r. (c_connection_id r, c_generation r)) (set (connections db))"
    using assms(1) by (simp add: acct_inv_def keys_inv_def distinct_map)
  with assms(2-5) show ?thesis by (auto dest: inj_onD)
qed

lemma acct_inv_eid_eq:
  assumes "acct_inv db" "r \<in> set (connections db)" "r' \<in> set (connections db)"
    and "c_event_id r = c_event_id r'"
  shows "r = r'"
proof -
  have "inj_on c_event_id (set (connections db))"
    using assms(1) by (simp add: acct_inv_def keys_inv_def distinct_map)
  with assms(2-4) show ?thesis by (auto dest: inj_onD)
qed

lemma acct_inv_open_unique:
  assumes "acct_inv db" "r \<in> set (connections db)" "r' \<in> set (connections db)"
    and "open_row r" "open_row r'" "c_connection_id r = c_connection_id r'"
  shows "r = r'"
proof -
  have "c_generation r = c_generation r'"
    using assms by (auto simp: acct_inv_def gen_inv_def intro!: antisym)
  with assms show ?thesis by (intro acct_inv_row_eq [of db]) auto
qed

lemma find_row_at_Some:
  assumes "acct_inv db" "r \<in> set (connections db)" "row_at cid g r"
  shows "find (row_at cid g) (connections db) = Some r"
  using assms
  by (intro find_unique [where key = "\<lambda>r. (c_connection_id r, c_generation r)" and k = "(cid, g)"])
     (auto simp: acct_inv_def keys_inv_def row_at_def)

section \<open>Invariant and guarantee of the elementary changes\<close>

lemma rows_of_touch_other [simp]:
  "c \<noteq> cid \<Longrightarrow> (\<And>r. c_connection_id (f r) = c_connection_id r)
    \<Longrightarrow> rows_of c (touch_rows cid g f db) = rows_of c db"
  unfolding rows_of_def touch_rows_def
  by (simp, rule filter_map_same) (auto simp: row_at_def)

lemma rows_of_add_other [simp]:
  "c \<noteq> c_connection_id r \<Longrightarrow> rows_of c (add_row r db) = rows_of c db"
  by (simp add: rows_of_def add_row_def)

lemma put_baseline_simps [simp]:
  "connections (put_baseline cid b db) = connections db"
  "conn_seq (put_baseline cid b db) = conn_seq db"
  "rows_of c (put_baseline cid b db) = rows_of c db"
  "load_poll_baseline (put_baseline cid b db) c = (if c = cid then Some b else load_poll_baseline db c)"
  "meta (put_baseline cid b db) = meta db"
  by (simp_all add: put_baseline_def rows_of_def load_poll_baseline_def)

lemma touch_rows_simps [simp]:
  "conn_seq (touch_rows cid g f db) = conn_seq db"
  "poll_baseline (touch_rows cid g f db) = poll_baseline db"
  "load_poll_baseline (touch_rows cid g f db) c = load_poll_baseline db c"
  "meta (touch_rows cid g f db) = meta db"
  by (simp_all add: touch_rows_def load_poll_baseline_def)

lemma add_row_simps [simp]:
  "connections (add_row r db) = connections db @ [r]"
  "conn_seq (add_row r db) = c_event_id r"
  "poll_baseline (add_row r db) = poll_baseline db"
  "load_poll_baseline (add_row r db) c = load_poll_baseline db c"
  "meta (add_row r db) = meta db"
  by (simp_all add: add_row_def load_poll_baseline_def)

lemma meta_determines:
  "meta db' = meta db \<Longrightarrow> meta_int db' k = meta_int db k"
  "meta db' = meta db \<Longrightarrow> meta_get db' k d = meta_get db k d"
  "meta db' = meta db \<Longrightarrow> seq_counter db' = seq_counter db"
  by (simp_all add: meta_int_def meta_get_def seq_counter_def)

text \<open>Refreshing the open row of a generation together with its baseline.\<close>

lemma touch_put_set:
  "set (connections (put_baseline cid b (touch_rows cid g f db)))
    = (\<lambda>r. if row_at cid g r \<and> open_row r then f r else r) ` set (connections db)"
  by (simp add: touch_rows_def)

lemma touch_put_inv:
  assumes inv: "acct_inv db"
    and f: "\<And>r. c_event_id (f r) = c_event_id r \<and> c_connection_id (f r) = c_connection_id r
      \<and> c_generation (f r) = c_generation r \<and> c_export_seq (f r) = c_export_seq r
      \<and> open_row (f r) \<and> c_upload_bytes (f r) = b_acc_up b \<and> c_download_bytes (f r) = b_acc_dn b"
    and b: "b_generation b = g" "0 \<le> b_raw_up b" "0 \<le> b_raw_dn b"
  shows "acct_inv (put_baseline cid b (touch_rows cid g f db))" (is "acct_inv ?db")
proof -
  define h where "h = (\<lambda>r. if row_at cid g r \<and> open_row r then f r else r)"
  have h: "c_event_id (h r) = c_event_id r" "c_connection_id (h r) = c_connection_id r"
    "c_generation (h r) = c_generation r" "c_export_seq (h r) = c_export_seq r"
    "open_row (h r) = open_row r" for r
    using f by (auto simp: h_def)
  have conns: "connections ?db = map h (connections db)" by (simp add: touch_rows_def h_def)
  have "keys_inv ?db"
    unfolding keys_inv_def conns
    using inv h by (simp add: acct_inv_def keys_inv_def comp_def)
  moreover have "seq_inv ?db"
  proof -
    have "meta ?db = meta db" by simp
    note md = meta_determines [OF this]
    have s: "seq_inv db" using inv by (simp add: acct_inv_def)
    have "h r = h r'" if "r \<in> set (connections db)" "r' \<in> set (connections db)"
      "c_export_seq (h r) = Some s" "c_export_seq (h r') = Some s" for r r' s
    proof -
      have "r = r'" using s that by (simp only: h seq_inv_def)
      then show ?thesis by simp
    qed
    with s show ?thesis
      unfolding seq_inv_def conns md list.set_map ball_simps by (simp only: h) blast
  qed
  moreover have "gen_inv ?db"
    using inv unfolding acct_inv_def gen_inv_def conns list.set_map ball_simps
    by (simp only: h) blast
  moreover have "base_inv ?db"
    unfolding base_inv_def conns
  proof (intro conjI ballI, goal_cases)
    case 1
    then show ?case
      using inv by (simp add: acct_inv_def base_inv_def put_baseline_def distinct_keys_update)
  next
    case (2 p)
    obtain c q where p: "p = (c, q)" by (cases p)
    from 2 p have "(c = cid \<and> q = b) \<or> (c \<noteq> cid \<and> (c, q) \<in> set (poll_baseline db))"
      using inv in_set_update_distinct [of "poll_baseline db" c q cid b]
      by (simp add: put_baseline_def acct_inv_def base_inv_def)
    then show ?case
    proof
      assume "c = cid \<and> q = b"
      with p b f show ?thesis by (auto simp: h_def)
    next
      assume c: "c \<noteq> cid \<and> (c, q) \<in> set (poll_baseline db)"
      with inv have "0 \<le> b_raw_up q \<and> 0 \<le> b_raw_dn q \<and> (\<forall>r \<in> set (connections db).
          row_at c (b_generation q) r \<longrightarrow> open_row r \<longrightarrow>
          c_upload_bytes r = b_acc_up q \<and> c_download_bytes r = b_acc_dn q)"
        by (auto simp: acct_inv_def base_inv_def)
      with c p f show ?thesis by (auto simp: h_def row_at_def)
    qed
  qed
  ultimately show ?thesis by (simp add: acct_inv_def)
qed

lemma touch_put_evolves:
  assumes inv: "acct_inv db"
    and f: "\<And>r. c_event_id (f r) = c_event_id r \<and> c_connection_id (f r) = c_connection_id r
      \<and> c_generation (f r) = c_generation r \<and> c_export_seq (f r) = c_export_seq r \<and> open_row (f r)"
    and grow: "\<And>r. r \<in> set (connections db) \<Longrightarrow> row_at cid g r \<Longrightarrow> open_row r \<Longrightarrow>
      c_upload_bytes r \<le> c_upload_bytes (f r) \<and> c_download_bytes r \<le> c_download_bytes (f r)"
  shows "evolves db (put_baseline cid b (touch_rows cid g f db))"
proof -
  define h where "h = (\<lambda>r. if row_at cid g r \<and> open_row r then f r else r)"
  have "row_grows db r (h r)" if "r \<in> set (connections db)" for r
    using f [of r] grow [OF that] by (simp add: row_grows_def h_def)
  moreover have "c_event_id (h r) = c_event_id r" for r using f by (simp add: h_def)
  moreover have "h r \<in> set (connections db)"
    if "r \<in> set (connections db)" "c_export_seq (h r) = Some s" for r s
  proof -
    have "open_row r \<Longrightarrow> c_export_seq r = None" using inv that(1) by (simp add: acct_inv_def seq_inv_def)
    then show ?thesis using that f [of r] by (auto simp: h_def split: if_splits)
  qed
  moreover have "set (connections (put_baseline cid b (touch_rows cid g f db))) = h ` set (connections db)"
    by (simp only: touch_put_set h_def)
  moreover have "meta (put_baseline cid b (touch_rows cid g f db)) = meta db" by simp
  note md = meta_determines [OF this]
  ultimately show ?thesis
    unfolding evolves_def md by auto
qed

text \<open>Adding the open row of a new, latest generation together with its baseline.\<close>

lemma base_inv_put:
  assumes inv: "acct_inv db"
    and rows: "\<And>r c q. r \<in> set (connections db') \<Longrightarrow> c \<noteq> cid \<Longrightarrow> (c, q) \<in> set (poll_baseline db) \<Longrightarrow>
      row_at c (b_generation q) r \<Longrightarrow> open_row r \<Longrightarrow> r \<in> set (connections db)"
    and own: "\<And>r. r \<in> set (connections db') \<Longrightarrow> row_at cid (b_generation b) r \<Longrightarrow> open_row r \<Longrightarrow>
      c_upload_bytes r = b_acc_up b \<and> c_download_bytes r = b_acc_dn b"
    and b: "0 \<le> b_raw_up b" "0 \<le> b_raw_dn b"
    and base: "poll_baseline db' = AList.update cid b (poll_baseline db)"
  shows "base_inv db'"
  unfolding base_inv_def base
proof (intro conjI ballI, goal_cases)
  case 1
  then show ?case using inv by (simp add: acct_inv_def base_inv_def distinct_keys_update)
next
  case (2 p)
  obtain c q where p: "p = (c, q)" by (cases p)
  from 2 p have "(c = cid \<and> q = b) \<or> (c \<noteq> cid \<and> (c, q) \<in> set (poll_baseline db))"
    using inv in_set_update_distinct [of "poll_baseline db" c q cid b]
    by (simp add: acct_inv_def base_inv_def)
  then show ?case
  proof
    assume "c = cid \<and> q = b"
    with p b own show ?thesis by auto
  next
    assume c: "c \<noteq> cid \<and> (c, q) \<in> set (poll_baseline db)"
    with inv have "0 \<le> b_raw_up q \<and> 0 \<le> b_raw_dn q \<and> (\<forall>r \<in> set (connections db).
        row_at c (b_generation q) r \<longrightarrow> open_row r \<longrightarrow>
        c_upload_bytes r = b_acc_up q \<and> c_download_bytes r = b_acc_dn q)"
      by (auto simp: acct_inv_def base_inv_def)
    with c p rows show ?thesis by auto
  qed
qed

lemma add_put_inv:
  assumes inv: "acct_inv db"
    and row: "c_event_id r = conn_seq db + 1" "row_at cid g r" "open_row r" "c_export_seq r = None"
    and latest: "\<And>r'. r' \<in> set (connections db) \<Longrightarrow> c_connection_id r' = cid \<Longrightarrow>
      c_generation r' < g \<and> \<not> open_row r'"
    and b: "0 \<le> b_raw_up b" "0 \<le> b_raw_dn b" "c_upload_bytes r = b_acc_up b" "c_download_bytes r = b_acc_dn b"
  shows "acct_inv (put_baseline cid b (add_row r db))" (is "acct_inv ?db")
proof -
  have new: "x \<noteq> r" "c_event_id x \<noteq> c_event_id r" if "x \<in> set (connections db)" for x
    using inv that row by (auto simp: acct_inv_def keys_inv_def)
  have "keys_inv ?db"
    using inv row new latest by (force simp: acct_inv_def keys_inv_def row_at_def)
  moreover have "meta ?db = meta db" by simp
  note md = meta_determines [OF this]
  have "seq_inv ?db"
    using inv row unfolding acct_inv_def seq_inv_def md by auto
  moreover have "gen_inv ?db"
    using inv row latest by (force simp: acct_inv_def gen_inv_def row_at_def)
  moreover have "base_inv ?db"
    by (rule base_inv_put [OF inv, where b = b and cid = cid])
       (use row b latest in \<open>fastforce simp: row_at_def put_baseline_def\<close>)+
  ultimately show ?thesis by (simp add: acct_inv_def)
qed

lemma add_put_evolves:
  assumes "c_event_id r = conn_seq db + 1" "c_export_seq r = None"
  shows "evolves db (put_baseline cid b (add_row r db))"
proof -
  have "meta (put_baseline cid b (add_row r db)) = meta db" by simp
  note md = meta_determines [OF this]
  show ?thesis
    unfolding evolves_def md using assms by (auto intro: row_grows_refl)
qed

section \<open>Closing a generation\<close>

text \<open>
  Closing an open row: the row is refreshed with its close time and gets the next export
  sequence; the meta counter moves to that value.
\<close>

definition close_with :: "string \<Rightarrow> int \<Rightarrow> (conn_row \<Rightarrow> conn_row) \<Rightarrow> acct_db \<Rightarrow> acct_db" where
  "close_with cid g f db = (let s = seq_counter db + 1 in
     meta_set (db\<lparr>connections := map (\<lambda>r. if row_at cid g r \<and> open_row r
        then (f r)\<lparr>c_export_seq := Some s\<rparr> else r) (connections db)\<rparr>)
       META_AUDIT_EXPORT_SEQ (int_text s))"

lemma assign_after_touch:
  assumes inv: "acct_inv db" and r: "r \<in> set (connections db)" "row_at cid g r" "open_row r"
    and f: "c_event_id (f r) = c_event_id r" "c_connection_id (f r) = c_connection_id r"
      "c_generation (f r) = c_generation r" "c_export_seq (f r) = None" "\<not> open_row (f r)"
    and a: "assign_export_seq_if_needed (touch_rows cid g f db) cid g = Inr (db', so)"
  shows "db' = close_with cid g f db \<and> so = Some (seq_counter db + 1)"
proof -
  define h where "h = (\<lambda>x. if row_at cid g x \<and> open_row x then f x else x)"
  define n where "n = seq_counter db + 1"
  have only: "x = r" if "x \<in> set (connections db)" "row_at cid g x" for x
    using that r inv by (auto simp: row_at_def intro: acct_inv_row_eq)
  have hr: "h r = f r" using r by (simp add: h_def)
  have hx: "h x = x" if "x \<in> set (connections db)" "x \<noteq> r" for x
    using only [OF that(1)] that(2) by (auto simp: h_def)
  have eid: "c_event_id (h x) = c_event_id x" if "x \<in> set (connections db)" for x
    using hx [OF that] hr f(1) by (cases "x = r") auto
  have same: "c_event_id (h x) = c_event_id r \<longleftrightarrow> x = r" if "x \<in> set (connections db)" for x
    using eid [OF that] acct_inv_eid_eq [OF inv that r(1)] by auto
  have conns: "connections (touch_rows cid g f db) = map h (connections db)"
    by (simp add: touch_rows_def h_def)
  have fnd: "find (row_at cid g) (map h (connections db)) = Some (f r)"
  proof (rule find_unique [where key = c_event_id and k = "c_event_id r"])
    have "map c_event_id (map h (connections db)) = map c_event_id (connections db)"
      using eid by simp
    then show "distinct (map c_event_id (map h (connections db)))"
      using inv by (simp only: acct_inv_def keys_inv_def)
    show "f r \<in> set (map h (connections db))" using r(1) hr by force
    show "row_at cid g (f r)" "c_event_id (f r) = c_event_id r" using r f by (auto simp: row_at_def)
    show "\<forall>y\<in>set (map h (connections db)). row_at cid g y \<longrightarrow> c_event_id y = c_event_id r"
    proof (intro ballI impI)
      fix y assume "y \<in> set (map h (connections db))" "row_at cid g y"
      then obtain x where x: "x \<in> set (connections db)" "y = h x" by auto
      have "x = r"
        using hx [OF x(1)] only [OF x(1)] \<open>row_at cid g y\<close> x(2) by (cases "x = r") auto
      with x hr f(1) show "c_event_id y = c_event_id r" by simp
    qed
  qed
  have mi: "meta_int (touch_rows cid g f db) META_AUDIT_EXPORT_SEQ = Inr (seq_counter db)"
    using inv meta_determines(1) [of "touch_rows cid g f db" db]
    by (simp add: acct_inv_def seq_inv_def)
  have next_seq: "next_export_seq (touch_rows cid g f db)
      = Inr (meta_set (touch_rows cid g f db) META_AUDIT_EXPORT_SEQ (int_text n), n)"
    by (simp add: next_export_seq_def mi n_def Let_def)
  obtain t where t: "c_closed_at (f r) = Some t" using f(5) by auto
  have "db' = (meta_set (touch_rows cid g f db) META_AUDIT_EXPORT_SEQ (int_text n))
        \<lparr>connections := map (\<lambda>x. if c_event_id x = c_event_id r \<and> c_export_seq x = None
             then x\<lparr>c_export_seq := Some n\<rparr> else x) (map h (connections db))\<rparr> \<and> so = Some n"
    using a unfolding assign_export_seq_if_needed_def conns fnd
    by (simp add: f(1,4) t next_seq conns rbind_def split: sum.splits if_splits)
  moreover have "map (\<lambda>x. if c_event_id x = c_event_id r \<and> c_export_seq x = None
        then x\<lparr>c_export_seq := Some n\<rparr> else x) (map h (connections db))
      = map (\<lambda>x. if row_at cid g x \<and> open_row x
          then (f x)\<lparr>c_export_seq := Some n\<rparr> else x) (connections db)"
  proof (unfold map_map, rule map_cong [OF refl])
    fix x assume x: "x \<in> set (connections db)"
    show "((\<lambda>x. if c_event_id x = c_event_id r \<and> c_export_seq x = None
        then x\<lparr>c_export_seq := Some n\<rparr> else x) \<circ> h) x
      = (if row_at cid g x \<and> open_row x then (f x)\<lparr>c_export_seq := Some n\<rparr> else x)"
    proof (cases "x = r")
      case True
      then show ?thesis using r f(1,4) hr by simp
    next
      case False
      then show ?thesis using same [OF x] only [OF x] hx [OF x] by auto
    qed
  qed
  ultimately show ?thesis
    by (simp add: close_with_def Let_def touch_rows_def meta_set_def n_def)
qed

lemma close_with_fields [simp]:
  "connections (close_with cid g f db) = map (\<lambda>r. if row_at cid g r \<and> open_row r
     then (f r)\<lparr>c_export_seq := Some (seq_counter db + 1)\<rparr> else r) (connections db)"
  "conn_seq (close_with cid g f db) = conn_seq db"
  "poll_baseline (close_with cid g f db) = poll_baseline db"
  "load_poll_baseline (close_with cid g f db) c = load_poll_baseline db c"
  "seq_counter (close_with cid g f db) = seq_counter db + 1"
  "meta_int (close_with cid g f db) META_AUDIT_EXPORT_SEQ = Inr (seq_counter db + 1)"
  "meta_get (close_with cid g f db) META_AUDIT_PRUNED_MAX_EXPORT_SEQ d
     = meta_get db META_AUDIT_PRUNED_MAX_EXPORT_SEQ d"
  by (simp_all add: close_with_def Let_def load_poll_baseline_def meta_get_set)

lemma rows_of_close_other [simp]:
  "c \<noteq> cid \<Longrightarrow> (\<And>r. c_connection_id (f r) = c_connection_id r)
    \<Longrightarrow> rows_of c (close_with cid g f db) = rows_of c db"
  by (simp add: rows_of_def, rule filter_map_same) (auto simp: row_at_def)

text \<open>The shape of a function that closes a row: keys kept, a close time set.\<close>

definition closes :: "(conn_row \<Rightarrow> conn_row) \<Rightarrow> bool" where
  "closes f \<longleftrightarrow> (\<forall>r. c_event_id (f r) = c_event_id r \<and> c_connection_id (f r) = c_connection_id r
     \<and> c_generation (f r) = c_generation r \<and> c_export_seq (f r) = c_export_seq r \<and> \<not> open_row (f r))"

lemma close_with_inv:
  assumes inv: "acct_inv db" and f: "closes f"
  shows "acct_inv (close_with cid g f db)" (is "acct_inv ?db")
proof -
  let ?n = "seq_counter db + 1"
  define h where "h = (\<lambda>r. if row_at cid g r \<and> open_row r
     then (f r)\<lparr>c_export_seq := Some ?n\<rparr> else r)"
  have h: "c_event_id (h r) = c_event_id r" "c_connection_id (h r) = c_connection_id r"
    "c_generation (h r) = c_generation r" "open_row (h r) = (open_row r \<and> \<not> row_at cid g r)"
    "c_export_seq (h r) = (if row_at cid g r \<and> open_row r then Some ?n else c_export_seq r)" for r
    using f by (auto simp: h_def closes_def)
  have conns: "connections ?db = map h (connections db)" by (simp add: h_def)
  have same_row: "row_at cid g r \<Longrightarrow> row_at cid g r' \<Longrightarrow> r \<in> set (connections db) \<Longrightarrow>
      r' \<in> set (connections db) \<Longrightarrow> r = r'" for r r'
    using inv by (auto simp: row_at_def intro: acct_inv_row_eq)
  have s: "seq_inv db" using inv by (simp add: acct_inv_def)
  have bound: "1 \<le> k \<and> k \<le> seq_counter db" if "r \<in> set (connections db)" "c_export_seq r = Some k"
    for r k using s that unfolding seq_inv_def by blast
  have below: "c_export_seq q \<noteq> Some ?n" if "q \<in> set (connections db)" for q
    using bound [OF that, of ?n] by auto
  have "keys_inv ?db"
    unfolding keys_inv_def conns using inv h by (simp add: acct_inv_def keys_inv_def comp_def)
  moreover have "seq_inv ?db"
    unfolding seq_inv_def conns
  proof (intro conjI ballI allI impI, goal_cases)
    case 1
    then show ?case by simp
  next
    case 2
    then show ?case using s by (simp add: seq_inv_def)
  next
    case (3 x)
    then obtain r where r: "r \<in> set (connections db)" "x = h r" by auto
    then have "open_row r = (c_export_seq r = None)" using s by (simp add: seq_inv_def)
    then show ?case unfolding r(2) h(4,5) by auto
  next
    case (4 x k)
    then obtain r where r: "r \<in> set (connections db)" "c_export_seq (h r) = Some k" by auto
    then show ?case using bound [OF r(1)] s unfolding h(5) seq_inv_def by (auto split: if_splits)
  next
    case (5 x k)
    then obtain r where r: "r \<in> set (connections db)" "c_export_seq (h r) = Some k" by auto
    then show ?case using bound [OF r(1)] s unfolding h(5) by (auto split: if_splits)
  next
    case (6 x x' k)
    then obtain r r' where r: "r \<in> set (connections db)" "x = h r"
      "r' \<in> set (connections db)" "x' = h r'" by auto
    have k: "c_export_seq (h r) = Some k" "c_export_seq (h r') = Some k" using 6 r by simp_all
    have "r = r'"
    proof (cases "row_at cid g r \<and> open_row r")
      case True
      then have "k = ?n" using k(1) by (simp add: h(5))
      then have "row_at cid g r'" using k(2) below [OF r(3)] by (simp add: h(5) split: if_splits)
      with True same_row r(1,3) show ?thesis by blast
    next
      case False
      then have kr: "c_export_seq r = Some k" using k(1) by (simp add: h(5) split: if_splits)
      then have "k \<noteq> ?n" using below [OF r(1)] by auto
      then have "c_export_seq r' = Some k" using k(2) by (simp add: h(5) split: if_splits)
      with kr s r(1,3) show ?thesis unfolding seq_inv_def by blast
    qed
    with r show ?case by simp
  qed
  moreover have "gen_inv ?db"
    using inv unfolding acct_inv_def gen_inv_def conns by (auto simp: h(2,3,4))
  moreover have "base_inv ?db"
  proof -
    have "h r = r" if "open_row (h r)" for r using that h(4) [of r] by (simp add: h_def)
    then have "r \<in> set (connections db)" if "r \<in> set (connections ?db)" "open_row r" for r
      using that unfolding conns by (metis imageE list.set_map)
    then show ?thesis
      using inv unfolding acct_inv_def base_inv_def close_with_fields(3) by blast
  qed
  ultimately show ?thesis by (simp add: acct_inv_def)
qed

lemma close_with_evolves:
  assumes inv: "acct_inv db" and hit: "q \<in> set (connections db)" "row_at cid g q" "open_row q"
    and f: "closes f"
    and grow: "\<And>r. r \<in> set (connections db) \<Longrightarrow> row_at cid g r \<Longrightarrow> open_row r \<Longrightarrow>
      c_upload_bytes r \<le> c_upload_bytes (f r) \<and> c_download_bytes r \<le> c_download_bytes (f r)"
  shows "evolves db (close_with cid g f db)"
proof -
  let ?n = "seq_counter db + 1"
  define h where "h = (\<lambda>r. if row_at cid g r \<and> open_row r
     then (f r)\<lparr>c_export_seq := Some ?n\<rparr> else r)"
  have "row_grows db r (h r)" if "r \<in> set (connections db)" for r
  proof -
    have "open_row r \<Longrightarrow> c_export_seq r = None" using inv that by (simp add: acct_inv_def seq_inv_def)
    then show ?thesis using f grow [OF that] by (auto simp: row_grows_def h_def closes_def)
  qed
  moreover have "c_export_seq (h q) = Some ?n" using hit by (simp add: h_def)
  moreover have "c_event_id (h r) = c_event_id r" for r using f by (simp add: h_def closes_def)
  moreover have "connections (close_with cid g f db) = map h (connections db)" by (simp add: h_def)
  moreover have "\<exists>r \<in> set (connections db). c_export_seq (h r) = Some s"
    if "seq_counter db < s" "s \<le> ?n" for s
  proof -
    have "s = ?n" using that by simp
    with hit(1) \<open>c_export_seq (h q) = Some ?n\<close> show ?thesis by blast
  qed
  moreover have "h r \<in> set (connections db)"
    if "r \<in> set (connections db)" "c_export_seq (h r) = Some s" "s \<le> seq_counter db" for r s
    using that by (auto simp: h_def split: if_splits)
  ultimately show ?thesis
    unfolding evolves_def by auto
qed

text \<open>The other changes of a poll touch the baseline table only.\<close>

lemma drop_baselines_inv:
  assumes "acct_inv db" and "set bs \<subseteq> set (poll_baseline db)" and "distinct (map fst bs)"
  shows "acct_inv (db\<lparr>poll_baseline := bs\<rparr>)"
proof -
  have "keys_inv (db\<lparr>poll_baseline := bs\<rparr>)" "gen_inv (db\<lparr>poll_baseline := bs\<rparr>)"
    "seq_inv (db\<lparr>poll_baseline := bs\<rparr>)"
    using assms(1) by (simp_all add: acct_inv_def keys_inv_def gen_inv_def seq_inv_def)
  moreover have "base_inv (db\<lparr>poll_baseline := bs\<rparr>)"
    unfolding base_inv_def
  proof (intro conjI ballI, goal_cases)
    case 1
    then show ?case using assms(3) by simp
  next
    case (2 p)
    then have "p \<in> set (poll_baseline db)" using assms(2) by auto
    then show ?case using assms(1) by (auto simp: acct_inv_def base_inv_def)
  qed
  ultimately show ?thesis by (simp add: acct_inv_def)
qed

lemma drop_baselines_evolves: "evolves db (db\<lparr>poll_baseline := bs\<rparr>)"
  by (auto simp: evolves_def intro: row_grows_refl)

lemma delete_poll_baseline_inv: "acct_inv db \<Longrightarrow> acct_inv (delete_poll_baseline db cid)"
  unfolding delete_poll_baseline_def
  by (rule drop_baselines_inv)
     (auto simp: acct_inv_def base_inv_def distinct_keys_delete dest: in_set_delete_cases)

lemma prune_inv: "acct_inv db \<Longrightarrow> acct_inv (prune_closed_poll_baselines db)"
  unfolding prune_closed_poll_baselines_def
  by (rule drop_baselines_inv) (auto simp: acct_inv_def base_inv_def distinct_keys_filter)

lemma delete_poll_baseline_simps [simp]:
  "connections (delete_poll_baseline db cid) = connections db"
  "conn_seq (delete_poll_baseline db cid) = conn_seq db"
  "meta (delete_poll_baseline db cid) = meta db"
  "rows_of c (delete_poll_baseline db cid) = rows_of c db"
  "load_poll_baseline (delete_poll_baseline db cid) c
     = (if c = cid then None else load_poll_baseline db c)"
  by (simp_all add: delete_poll_baseline_def rows_of_def load_poll_baseline_def)

lemma prune_simps [simp]:
  "connections (prune_closed_poll_baselines db) = connections db"
  "conn_seq (prune_closed_poll_baselines db) = conn_seq db"
  "meta (prune_closed_poll_baselines db) = meta db"
  "rows_of c (prune_closed_poll_baselines db) = rows_of c db"
  by (simp_all add: prune_closed_poll_baselines_def rows_of_def)

lemma close_generation_hit:
  assumes inv: "acct_inv db" and r: "r \<in> set (connections db)" "row_at cid g r" "open_row r"
    and st: "k_generation st = g" "ev_connection_id (k_ev st) = cid"
    and c: "close_generation env clock db st now = Inr db'"
  shows "\<exists>f. closes f \<and> (\<forall>x. c_upload_bytes (f x) = k_acc_up st \<and> c_download_bytes (f x) = k_acc_dn st)
    \<and> db' = delete_poll_baseline (close_with cid g f db) cid"
proof -
  let ?ev = "(k_ev st)\<lparr>ev_ts := now, ev_generation := g\<rparr>"
  let ?t = "if now = [] then clock else now"
  from c st obtain db1 b where
    u: "upsert_connection env clock db ?ev True (Some (k_acc_up st)) (Some (k_acc_dn st)) (Some g)
      = Inr (db1, b)" and db': "db' = delete_poll_baseline db1 cid"
    by (auto simp: close_generation_def Let_def res_simps)
  have hit: "list_ex (\<lambda>r. row_at cid g r \<and> open_row r) (connections db)"
    using r by (auto simp: list_ex_iff)
  from u st hit obtain uid so where
    "assign_export_seq_if_needed (touch_rows cid g
       (refresh_row ?ev uid (k_acc_up st) (k_acc_dn st) (Some ?t) ?t) db) cid g = Inr (db1, so)"
    by (cases "now = []")
       (auto simp: upsert_connection_def counter_arg_def touch_rows_def Let_def res_simps)
  moreover have "c_export_seq r = None"
    using inv r(1,3) by (simp add: acct_inv_def seq_inv_def)
  ultimately have "db1 = close_with cid g
       (refresh_row ?ev uid (k_acc_up st) (k_acc_dn st) (Some ?t) ?t) db"
    using assign_after_touch [OF inv r] by simp
  with db' show ?thesis
    by (intro exI [of _ "refresh_row ?ev uid (k_acc_up st) (k_acc_dn st) (Some ?t) ?t"])
       (simp add: closes_def)
qed

text \<open>What a durable previous state says about the database.\<close>

lemma entry_of_simps [simp]:
  "k_generation (entry_of cid b r) = b_generation b" "k_raw_up (entry_of cid b r) = b_raw_up b"
  "k_raw_dn (entry_of cid b r) = b_raw_dn b" "k_acc_up (entry_of cid b r) = b_acc_up b"
  "k_acc_dn (entry_of cid b r) = b_acc_dn b" "ev_connection_id (k_ev (entry_of cid b r)) = cid"
  by (simp_all add: entry_of_def make_cache_entry_def)

lemma durable_prev_state_Some:
  assumes "acct_inv db" and "durable_prev_state db cid = Some st"
  obtains b r where "load_poll_baseline db cid = Some b" "r \<in> set (connections db)"
    "row_at cid (b_generation b) r" "open_row r" "st = entry_of cid b r"
    "c_upload_bytes r = b_acc_up b" "c_download_bytes r = b_acc_dn b" "0 \<le> b_raw_up b" "0 \<le> b_raw_dn b"
proof -
  from assms(2) obtain b r where br: "load_poll_baseline db cid = Some b"
    "find (row_at cid (b_generation b)) (connections db) = Some r" "open_row r" "st = entry_of cid b r"
    by (auto simp: durable_prev_state_def split: option.splits if_splits)
  then have r: "r \<in> set (connections db)" "row_at cid (b_generation b) r"
    by (auto dest: find_SomeD)
  have "(cid, b) \<in> set (poll_baseline db)"
    using br(1) by (simp add: load_poll_baseline_def map_of_SomeD)
  with assms(1) r br(3) have "0 \<le> b_raw_up b" "0 \<le> b_raw_dn b"
    "c_upload_bytes r = b_acc_up b" "c_download_bytes r = b_acc_dn b"
    by (auto simp: acct_inv_def base_inv_def)
  with br r show thesis by (intro that)
qed

lemma durable_prev_state_cong:
  "same_for cid db db' \<Longrightarrow> durable_prev_state db' cid = durable_prev_state db cid"
  by (cases "load_poll_baseline db cid") (simp_all add: durable_prev_state_def same_for_def find_row_at)

end
