(* ===== verification/PyTime.thy ===== *)
theory PyTime
  imports PyValue
begin

text \<open>
  UTC instants as the code prints them.  An instant is a number of seconds since the epoch;
  \<open>iso_utc\<close> is \<open>datetime.fromtimestamp(n, timezone.utc).strftime("%Y-%m-%dT%H:%M:%SZ")\<close> and
  \<open>date_utc\<close> its date part, by the usual civil-from-days computation.
\<close>

definition civil_from_days :: "int \<Rightarrow> int \<times> int \<times> int" where
  "civil_from_days days =
     (let z = days + 719468; era = z div 146097; doe = z mod 146097;
          yoe = (doe - doe div 1460 + doe div 36524 - doe div 146096) div 365;
          doy = doe - (365 * yoe + yoe div 4 - yoe div 100);
          mp = (5 * doy + 2) div 153;
          d = doy - (153 * mp + 2) div 5 + 1;
          m = (if mp < 10 then mp + 3 else mp - 9);
          y = yoe + era * 400 + (if m \<le> 2 then 1 else 0)
      in (y, m, d))"

definition zero_fill :: "nat \<Rightarrow> int \<Rightarrow> string" where
  "zero_fill w n = (let t = int_text n in replicate (w - length t) CHR ''0'' @ t)"

definition date_utc :: "int \<Rightarrow> string" where
  "date_utc n = (let (y, m, d) = civil_from_days (n div 86400) in
     zero_fill 4 y @ ''-'' @ zero_fill 2 m @ ''-'' @ zero_fill 2 d)"

definition iso_utc :: "int \<Rightarrow> string" where
  "iso_utc n = (let s = n mod 86400 in
     date_utc n @ ''T'' @ zero_fill 2 (s div 3600) @ '':'' @ zero_fill 2 (s mod 3600 div 60)
       @ '':'' @ zero_fill 2 (s mod 60) @ ''Z'')"

text \<open>\<open>datetime.fromtimestamp\<close> on an int: years 1 to 9999 only, \<open>ValueError\<close> beyond.\<close>

definition fromtimestamp_iso :: "int \<Rightarrow> string res" where
  "fromtimestamp_iso n = (if - 62135596800 \<le> n \<and> n \<le> 253402300799 then Inr (iso_utc n)
     else Inl (ValueError ''year is out of range''))"

lemma iso_utc_nonempty [simp]: "iso_utc n \<noteq> []"
  by (simp add: iso_utc_def Let_def)

end
