(* ===== verification/AcctPoll.thy ===== *)
theory AcctPoll
  imports AcctInv PyTime
begin

text \<open>
  One poll of the collector (\<open>lib/vincula-accountd.py\<close>): a Clash \<open>/connections\<close> document is
  decoded to events (\<open>decode_clash_connections_payload\<close>, \<open>parse_clash_connection\<close>), the events
  are written as generation-aware deltas (\<open>apply_poll_delta\<close>), and open rows missing from the
  snapshot are closed (\<open>close_stale_open_connections\<close>).

  Python iterates a set in an order the language leaves open; \<open>ord\<close> is that order.
\<close>

section \<open>Decoding the snapshot\<close>

definition normalize_destination_host :: "json \<Rightarrow> string option" where
  "normalize_destination_host host = (case host of
     JStr s \<Rightarrow> (let v = rstrip_char CHR ''.'' (lower (strip s)) in if v = [] then None else Some v)
   | _ \<Rightarrow> None)"

definition user_tag_from_outbound :: "json \<Rightarrow> string option" where
  "user_tag_from_outbound tag = (case tag of
     JStr s \<Rightarrow> if starts_with ''acct/'' s
       then (let rest = drop 5 s in if rest = [] then None else Some rest) else None
   | _ \<Rightarrow> None)"

fun first_tag :: "json list \<Rightarrow> string option" where
  "first_tag [] = None"
| "first_tag (x # xs) = (case user_tag_from_outbound x of Some t \<Rightarrow> Some t | None \<Rightarrow> first_tag xs)"

definition user_tag_from_chains :: "json \<Rightarrow> string option" where
  "user_tag_from_chains v = (case v of JList xs \<Rightarrow> first_tag xs | _ \<Rightarrow> None)"

text \<open>
  A value bound to a TEXT column.  The model covers strings and absent values; sing-box sends
  nothing else here, and any other type is outside the model (\<open>Unsupported\<close>).
\<close>

definition text_field :: "json \<Rightarrow> string option res" where
  "text_field v = (if \<not> truthy v then Inr None
     else (case v of JStr s \<Rightarrow> Inr (Some s) | _ \<Rightarrow> Inl Unsupported))"

text \<open>\<open>int(port_raw) if port_raw not in (None, "") else None\<close>, None on TypeError and ValueError.\<close>

definition port_of :: "json \<Rightarrow> int option res" where
  "port_of raw = (if raw = JNull \<or> raw = JStr [] then Inr None
     else (case py_int raw of
         Inr n \<Rightarrow> Inr (Some n)
       | Inl TypeError \<Rightarrow> Inr None
       | Inl (ValueError m) \<Rightarrow> Inr None
       | Inl e \<Rightarrow> Inl e))"

definition started_of :: "string \<Rightarrow> json \<Rightarrow> string res" where
  "started_of clock v = (if \<not> truthy v then Inr clock
     else (case v of
         JStr s \<Rightarrow> Inr s
       | JInt n \<Rightarrow> fromtimestamp_iso n
       | JBool b \<Rightarrow> fromtimestamp_iso (if b then 1 else 0)
       | _ \<Rightarrow> Inl Unsupported))"

definition parse_clash_connection :: "acct_env \<Rightarrow> string \<Rightarrow> json \<Rightarrow> event option res" where
  "parse_clash_connection env clock item = (case item of
     JObj it \<Rightarrow>
       (let cid = dget ''id'' it in
        if \<not> truthy cid then Inr None
        else
        (let chs = py_or (py_or (dget ''chains'' it) (dget ''chain'' it)) (JList []);
             md = py_or (dget ''metadata'' it) (JObj [])
         in
         rbind (case user_tag_from_chains chs of
                  Some t \<Rightarrow> Inr (Some t)
                | None \<Rightarrow> (case md of JObj m \<Rightarrow> Inr (user_tag_from_outbound (dget ''outboundName'' m))
                           | _ \<Rightarrow> Inl AttributeError))
           (\<lambda>tag_opt. (case tag_opt of None \<Rightarrow> Inr None | Some user_tag \<Rightarrow>
         (case md of JObj m \<Rightarrow>
           (let host = normalize_destination_host (dget ''host'' m) in
            rbind (port_of (py_or (dget ''destinationPort'' m) (dget ''destination_port'' m)))
             (\<lambda>dest_port.
            rbind (case started_of clock (dget ''start'' it) of
                     Inl Unsupported \<Rightarrow> Inr None | Inl e \<Rightarrow> Inl e | Inr s \<Rightarrow> Inr (Some s))
             (\<lambda>started.
            (case resolve_user_id env user_tag of
               Inl _ \<Rightarrow> Inr None
             | Inr user_id \<Rightarrow>
               rbind (text_field (py_or (dget ''destinationIP'' m) (dget ''destination_ip'' m)))
                (\<lambda>dest_ip.
               rbind (text_field (py_or (dget ''network'' m) (dget ''network'' it)))
                (\<lambda>network.
               (case started of None \<Rightarrow> Inl Unsupported | Some st \<Rightarrow>
                Inr (Some \<lparr>ev_connection_id = py_str cid, ev_generation = 0,
                  ev_node_id = g_node_id env, ev_user_id = user_id, ev_user_tag = Some user_tag,
                  ev_destination_host = host, ev_destination_ip = dest_ip,
                  ev_destination_port = dest_port, ev_network = network,
                  ev_upload_bytes = (if dget ''upload'' it = JNull then JInt 0 else dget ''upload'' it),
                  ev_download_bytes = (if dget ''download'' it = JNull then JInt 0
                                       else dget ''download'' it),
                  ev_started_at = st, ev_ts = clock\<rparr>))))))))
          | _ \<Rightarrow> Inl AttributeError)))))
   | _ \<Rightarrow> Inr None)"

definition decode_clash_connections_payload :: "acct_env \<Rightarrow> string \<Rightarrow> json \<Rightarrow> event list res" where
  "decode_clash_connections_payload env clock data = (case data of
     JObj d \<Rightarrow>
       if \<not> has_key ''connections'' d
       then Inl (ClashSchemaError ''Clash API response missing 'connections' list'')
       else (case dget ''connections'' d of
           JList items \<Rightarrow>
             rfold (\<lambda>item events. (case item of
                 JObj _ \<Rightarrow> rbind (parse_clash_connection env clock item) (\<lambda>ev.
                   Inr (case ev of None \<Rightarrow> events | Some e \<Rightarrow> events @ [e]))
               | _ \<Rightarrow> Inl (ClashSchemaError ''Clash API connection entry must be an object'')))
               items []
         | _ \<Rightarrow> Inl (ClashSchemaError ''Clash API 'connections' must be a list''))
   | _ \<Rightarrow> Inl (ClashSchemaError ''Clash API response must be a JSON object''))"

section \<open>Writing the deltas\<close>

type_synonym known = "(string \<times> cache_entry) list"

definition event_now :: "string \<Rightarrow> event \<Rightarrow> string" where
  "event_now clock ev = (if ev_ts ev = [] then clock else ev_ts ev)"

definition poll_live_step ::
    "acct_env \<Rightarrow> string \<Rightarrow> known \<Rightarrow> string \<times> event \<Rightarrow> acct_db \<times> known \<Rightarrow> (acct_db \<times> known) res" where
  "poll_live_step env clock known_open p s =
     (let (cid, ev) = p; (db, new_known) = s in
      case (event_counter (ev_upload_bytes ev), event_counter (ev_download_bytes ev)) of
        (Inr raw_up, Inr raw_dn) \<Rightarrow>
          (let now = event_now clock ev;
               write = (\<lambda>db gen acc_up acc_dn.
                 rbind (write_open_state env clock db ev cid gen raw_up raw_dn acc_up acc_dn now)
                   (\<lambda>(db', e). Inr (db', AList.update cid e new_known)))
           in
           case durable_prev_state db cid of
             None \<Rightarrow>
               (case open_connection_row db cid of
                  Some r \<Rightarrow> write db (c_generation r) (c_upload_bytes r) (c_download_bytes r)
                | None \<Rightarrow>
                    write db (case max_generation db cid of None \<Rightarrow> 0 | Some g \<Rightarrow> g + 1) 0 0)
           | Some prev \<Rightarrow>
               if raw_up < k_raw_up prev \<or> raw_dn < k_raw_dn prev
               then rbind (close_generation env clock db prev now) (\<lambda>db1.
                      write db1 (k_generation prev + 1) 0 0)
               else write db (k_generation prev)
                      (k_acc_up prev + (raw_up - k_raw_up prev))
                      (k_acc_dn prev + (raw_dn - k_raw_dn prev)))
      | _ \<Rightarrow>
          (case (case durable_prev_state db cid of Some e \<Rightarrow> Some e | None \<Rightarrow> map_of known_open cid) of
             Some kept \<Rightarrow> Inr (db, AList.update cid kept new_known)
           | None \<Rightarrow> Inr (db, new_known)))"

definition poll_close_step ::
    "acct_env \<Rightarrow> string \<Rightarrow> known \<Rightarrow> string list \<Rightarrow> string \<Rightarrow> acct_db \<Rightarrow> acct_db res" where
  "poll_close_step env clock known_open live_ids cid db =
     (if cid \<in> set live_ids then Inr db
      else (case (case durable_prev_state db cid of Some e \<Rightarrow> Some e | None \<Rightarrow> map_of known_open cid) of
          None \<Rightarrow> Inr (delete_poll_baseline db cid)
        | Some state \<Rightarrow> close_generation env clock db state clock))"

definition apply_poll_delta ::
    "acct_env \<Rightarrow> string \<Rightarrow> (string list \<Rightarrow> string list) \<Rightarrow> acct_db \<Rightarrow> event list \<Rightarrow> known
      \<Rightarrow> (acct_db \<times> known) res" where
  "apply_poll_delta env clock ord db live known_open =
     (let live_map = dict_of ev_connection_id live in
      rbind (rfold (poll_live_step env clock known_open) live_map (db, [])) (\<lambda>(db1, new_known).
      rbind (rfold (poll_close_step env clock known_open (map fst live_map))
               (ord (remdups (map fst known_open @ map fst (poll_baseline db1)))) db1) (\<lambda>db2.
      Inr (prune_closed_poll_baselines db2, new_known))))"

section \<open>Closing what the snapshot no longer shows\<close>

definition close_stale_step :: "string \<Rightarrow> string \<times> int \<Rightarrow> acct_db \<times> nat \<Rightarrow> (acct_db \<times> nat) res" where
  "close_stale_step now p s = (let (cid, gen) = p; (db, closed) = s in
     if list_ex (\<lambda>r. row_at cid gen r \<and> open_row r) (connections db)
     then rbind (assign_export_seq_if_needed
            (db\<lparr>connections := map (\<lambda>r. if row_at cid gen r \<and> open_row r
               then r\<lparr>c_closed_at := Some now, c_last_seen_at := now\<rparr> else r) (connections db)\<rparr>)
            cid gen) (\<lambda>(db', _). Inr (db', closed + 1))
     else Inr (db, closed))"

definition close_stale_open_connections ::
    "acct_db \<Rightarrow> string list option \<Rightarrow> string \<Rightarrow> (acct_db \<times> nat) res" where
  "close_stale_open_connections db live_ids now =
     (let stale = (case live_ids of
          None \<Rightarrow> filter open_row (connections db)
        | Some ids \<Rightarrow>
            if ids = [] then filter open_row (connections db)
            else filter (\<lambda>r. open_row r \<and> c_connection_id r \<notin> set ids) (connections db))
      in rfold (close_stale_step now)
           (map (\<lambda>r. (c_connection_id r, c_generation r)) stale) (db, 0))"

text \<open>
  \<open>_poll_clash\<close>.  \<open>FetchFailed\<close> stands for the transport errors the method catches (URL error,
  timeout, oversized body, body that is not JSON).  The result says whether the poll
  succeeded, with the database and the next cache.
\<close>

datatype fetched = FetchFailed | Fetched json

definition poll_clash ::
    "acct_env \<Rightarrow> string \<Rightarrow> (string list \<Rightarrow> string list) \<Rightarrow> acct_db \<Rightarrow> known \<Rightarrow> fetched
      \<Rightarrow> (bool \<times> acct_db \<times> known) res" where
  "poll_clash env clock ord db known_open f = (case f of
     FetchFailed \<Rightarrow> Inr (False, db, known_open)
   | Fetched data \<Rightarrow>
       (case decode_clash_connections_payload env clock data of
          Inl (ClashSchemaError m) \<Rightarrow> Inr (False, db, known_open)
        | Inl e \<Rightarrow> Inl e
        | Inr live \<Rightarrow>
            rbind (apply_poll_delta env clock ord db live known_open) (\<lambda>(db1, new_known).
            rbind (close_stale_open_connections db1 (Some (map ev_connection_id live)) clock)
              (\<lambda>(db2, _). Inr (True, prune_closed_poll_baselines db2, new_known)))))"

end
