(* ===== verification/AcctPollInv.thy ===== *)
theory AcctPollInv
  imports AcctPoll
begin

text \<open>
  Proofs about one poll: every write keeps the invariant, only ever grows the accounting
  (\<open>evolves\<close>), leaves the other connections alone, and moves the bytes accounted to a
  connection by exactly the counter difference.
\<close>

section \<open>Bytes accounted to a connection\<close>

text \<open>All generations of a connection together.\<close>

definition total_up :: "acct_db \<Rightarrow> string \<Rightarrow> int" where
  "total_up db cid = sum_list (map c_upload_bytes (rows_of cid db))"

definition total_dn :: "acct_db \<Rightarrow> string \<Rightarrow> int" where
  "total_dn db cid = sum_list (map c_download_bytes (rows_of cid db))"

lemma distinct_connections: "acct_inv db \<Longrightarrow> distinct (connections db)"
  by (simp add: acct_inv_def keys_inv_def distinct_map)

lemma rows_of_touch:
  assumes "\<And>r. c_connection_id (f r) = c_connection_id r"
  shows "rows_of cid (touch_rows cid g f db)
    = map (\<lambda>r. if row_at cid g r \<and> open_row r then f r else r) (rows_of cid db)"
  unfolding rows_of_def touch_rows_def using assms
  by (simp, intro filter_update_map) simp

lemma rows_of_close:
  assumes "\<And>r. c_connection_id (f r) = c_connection_id r"
  shows "rows_of cid (close_with cid g f db)
    = map (\<lambda>r. if row_at cid g r \<and> open_row r
         then (f r)\<lparr>c_export_seq := Some (seq_counter db + 1)\<rparr> else r) (rows_of cid db)"
  unfolding rows_of_def using assms by (simp, intro filter_update_map) simp

lemma in_rows_of: "r \<in> set (rows_of cid db) \<longleftrightarrow> r \<in> set (connections db) \<and> c_connection_id r = cid"
  by (simp add: rows_of_def)

lemma unique_hit:
  assumes "acct_inv db" "r \<in> set (connections db)" "row_at cid g r" "open_row r"
    and "x \<in> set (rows_of cid db)"
  shows "(row_at cid g x \<and> open_row x) \<longleftrightarrow> x = r"
  using assms by (auto simp: in_rows_of row_at_def intro: acct_inv_row_eq)

section \<open>Outcome of a write\<close>

text \<open>
  A write for connection \<open>cid\<close> succeeded: the connection is now tracked, at generation \<open>gen\<close>, with
  raw counters \<open>ru\<close>, \<open>rd\<close>.
\<close>

definition wrote :: "acct_db \<Rightarrow> string \<Rightarrow> int \<Rightarrow> int \<Rightarrow> acct_db \<Rightarrow> bool" where
  "wrote db cid ru rd db' \<longleftrightarrow> acct_inv db' \<and> evolves db db' \<and> (\<forall>c. c \<noteq> cid \<longrightarrow> same_for c db db')
     \<and> (\<exists>st. durable_prev_state db' cid = Some st \<and> k_raw_up st = ru \<and> k_raw_dn st = rd)"

lemma durable_prev_stateI:
  assumes "acct_inv db" "load_poll_baseline db cid = Some b" "r \<in> set (connections db)"
    "row_at cid (b_generation b) r" "open_row r"
  shows "durable_prev_state db cid = Some (entry_of cid b r)"
  using assms by (simp add: durable_prev_state_def find_row_at_Some)

lemma write_hit:
  assumes inv: "acct_inv db" and r: "r \<in> set (connections db)" "row_at cid g r" "open_row r"
    and grow: "c_upload_bytes r \<le> au" "c_download_bytes r \<le> ad" and raw: "0 \<le> ru" "0 \<le> rd"
    and ev: "ev_connection_id ev = cid" "now \<noteq> []"
    and w: "write_open_state env clock db ev cid g ru rd au ad now = Inr (db', e)"
  shows "wrote db cid ru rd db'"
    and "total_up db' cid = total_up db cid + (au - c_upload_bytes r)"
    and "total_dn db' cid = total_dn db cid + (ad - c_download_bytes r)"
proof -
  let ?b = "\<lparr>b_generation = g, b_raw_up = ru, b_raw_dn = rd, b_acc_up = au, b_acc_dn = ad,
    b_last_seen_at = now\<rparr>"
  have "list_ex (\<lambda>r. row_at cid g r \<and> open_row r) (connections db)"
    using r by (auto simp: list_ex_iff)
  then obtain uid where db': "db' = put_baseline cid ?b (touch_rows cid g
      (refresh_row (ev\<lparr>ev_generation := g, ev_ts := now\<rparr>) uid au ad None now) db)"
    using write_open_state_hit [OF w ev] by blast
  define f where "f = refresh_row (ev\<lparr>ev_generation := g, ev_ts := now\<rparr>) uid au ad None now"
  have only: "x = r" if "x \<in> set (connections db)" "row_at cid g x" for x
    using that r inv by (auto simp: row_at_def intro: acct_inv_row_eq)
  have inv': "acct_inv db'"
    unfolding db' by (rule touch_put_inv [OF inv]) (use raw in auto)
  have "evolves db db'"
    unfolding db' by (rule touch_put_evolves [OF inv]) (use only grow in auto)
  moreover have "same_for c db db'" if "c \<noteq> cid" for c
    using that by (simp add: db' same_for_def)
  moreover have "durable_prev_state db' cid = Some (entry_of cid ?b (f r))"
  proof (rule durable_prev_stateI [OF inv'])
    show "f r \<in> set (connections db')" using r by (force simp: db' touch_rows_def f_def)
  qed (use r in \<open>simp_all add: db' row_at_def f_def\<close>)
  ultimately show "wrote db cid ru rd db'" using inv' by (simp add: wrote_def)
  have d: "distinct (rows_of cid db)" using inv by (simp add: rows_of_def distinct_connections)
  have mem: "r \<in> set (rows_of cid db)" using r by (simp add: in_rows_of row_at_def)
  have rows: "rows_of cid db' = map (\<lambda>r. if row_at cid g r \<and> open_row r then f r else r) (rows_of cid db)"
    by (simp add: db' rows_of_touch f_def)
  show "total_up db' cid = total_up db cid + (au - c_upload_bytes r)"
    unfolding total_up_def rows
    by (subst sum_list_update_one [OF d mem unique_hit [OF inv r]]) (simp_all add: f_def)
  show "total_dn db' cid = total_dn db cid + (ad - c_download_bytes r)"
    unfolding total_dn_def rows
    by (subst sum_list_update_one [OF d mem unique_hit [OF inv r]]) (simp_all add: f_def)
qed

lemma write_new:
  assumes inv: "acct_inv db"
    and latest: "\<And>r. r \<in> set (connections db) \<Longrightarrow> c_connection_id r = cid \<Longrightarrow>
      c_generation r < g \<and> \<not> open_row r"
    and raw: "0 \<le> ru" "0 \<le> rd"
    and ev: "ev_connection_id ev = cid" "now \<noteq> []"
    and w: "write_open_state env clock db ev cid g ru rd 0 0 now = Inr (db', e)"
  shows "wrote db cid ru rd db'"
    and "total_up db' cid = total_up db cid" and "total_dn db' cid = total_dn db cid"
proof -
  let ?b = "\<lparr>b_generation = g, b_raw_up = ru, b_raw_dn = rd, b_acc_up = 0, b_acc_dn = 0,
    b_last_seen_at = now\<rparr>"
  have "\<not> list_ex (row_at cid g) (connections db)"
    using latest by (fastforce simp: list_ex_iff row_at_def)
  then obtain uid where db': "db' = put_baseline cid ?b (add_row
      (new_row env (ev\<lparr>ev_generation := g, ev_ts := now\<rparr>) (conn_seq db + 1) g uid 0 0 None now) db)"
    using write_open_state_new [OF w ev] by blast
  define r where "r = new_row env (ev\<lparr>ev_generation := g, ev_ts := now\<rparr>) (conn_seq db + 1) g uid 0 0 None now"
  have r: "c_event_id r = conn_seq db + 1" "row_at cid g r" "open_row r" "c_export_seq r = None"
    "c_upload_bytes r = 0" "c_download_bytes r = 0"
    using ev by (simp_all add: r_def row_at_def)
  have inv': "acct_inv db'"
    unfolding db' r_def [symmetric] by (rule add_put_inv [OF inv r(1-4) latest]) (use raw r in auto)
  have "evolves db db'" unfolding db' by (rule add_put_evolves) simp_all
  moreover have "same_for c db db'" if "c \<noteq> cid" for c
    using that ev by (simp add: db' same_for_def)
  moreover have "durable_prev_state db' cid = Some (entry_of cid ?b r)"
    by (rule durable_prev_stateI [OF inv']) (use r in \<open>simp_all add: db' r_def\<close>)
  ultimately show "wrote db cid ru rd db'" using inv' by (simp add: wrote_def)
  have "rows_of cid db' = rows_of cid db @ [r]"
    using r(2) by (simp add: db' rows_of_def r_def [symmetric] row_at_def)
  with r show "total_up db' cid = total_up db cid" "total_dn db' cid = total_dn db cid"
    by (simp_all add: total_up_def total_dn_def)
qed

text \<open>Closing a durable generation keeps every byte and leaves no open row of the connection.\<close>

lemma close_durable:
  assumes inv: "acct_inv db" and prev: "durable_prev_state db cid = Some st"
    and c: "close_generation env clock db st now = Inr db'"
  shows "acct_inv db'" "evolves db db'" "\<And>c. c \<noteq> cid \<Longrightarrow> same_for c db db'"
    and "total_up db' cid = total_up db cid" "total_dn db' cid = total_dn db cid"
    and "\<And>r. r \<in> set (connections db') \<Longrightarrow> c_connection_id r = cid \<Longrightarrow>
      \<not> open_row r \<and> c_generation r \<le> k_generation st"
    and "load_poll_baseline db' cid = None"
proof -
  from durable_prev_state_Some [OF inv prev] obtain b r where
    r: "r \<in> set (connections db)" "row_at cid (b_generation b) r" "open_row r"
    and st: "st = entry_of cid b r" and acc: "c_upload_bytes r = b_acc_up b" "c_download_bytes r = b_acc_dn b"
    by blast
  let ?g = "b_generation b"
  from close_generation_hit [OF inv r _ _ c] st acc obtain f where f: "closes f"
    "\<And>x. c_upload_bytes (f x) = c_upload_bytes r" "\<And>x. c_download_bytes (f x) = c_download_bytes r"
    and db': "db' = delete_poll_baseline (close_with cid ?g f db) cid"
    by auto
  have cid_f: "c_connection_id (f x) = c_connection_id x" for x using f(1) by (simp add: closes_def)
  have only: "x = r" if "x \<in> set (connections db)" "row_at cid ?g x" for x
    using that r inv by (auto simp: row_at_def intro: acct_inv_row_eq)
  show inv': "acct_inv db'"
    unfolding db' by (intro delete_poll_baseline_inv close_with_inv [OF inv f(1)])
  have "evolves db (close_with cid ?g f db)"
    by (rule close_with_evolves [OF inv r f(1)]) (use only f in auto)
  moreover have "evolves (close_with cid ?g f db) db'"
    unfolding db' delete_poll_baseline_def by (rule drop_baselines_evolves)
  ultimately show "evolves db db'" by (rule evolves_trans)
  show "same_for c db db'" if "c \<noteq> cid" for c
    using that cid_f by (simp add: db' same_for_def)
  have d: "distinct (rows_of cid db)" using inv by (simp add: rows_of_def distinct_connections)
  have mem: "r \<in> set (rows_of cid db)" using r by (simp add: in_rows_of row_at_def)
  have rows: "rows_of cid db' = map (\<lambda>x. if row_at cid ?g x \<and> open_row x
      then (f x)\<lparr>c_export_seq := Some (seq_counter db + 1)\<rparr> else x) (rows_of cid db)"
    using cid_f by (simp add: db' rows_of_close)
  show "total_up db' cid = total_up db cid"
    unfolding total_up_def rows
    by (subst sum_list_update_one [OF d mem unique_hit [OF inv r]]) (simp_all add: f)
  show "total_dn db' cid = total_dn db cid"
    unfolding total_dn_def rows
    by (subst sum_list_update_one [OF d mem unique_hit [OF inv r]]) (simp_all add: f)
  show "\<not> open_row x \<and> c_generation x \<le> k_generation st"
    if x: "x \<in> set (connections db')" "c_connection_id x = cid" for x
  proof -
    have "x \<in> set (rows_of cid db')" using x by (simp add: in_rows_of)
    then obtain y where y: "y \<in> set (rows_of cid db)" "x = (if row_at cid ?g y \<and> open_row y
        then (f y)\<lparr>c_export_seq := Some (seq_counter db + 1)\<rparr> else y)"
      unfolding rows by auto
    then have yc: "y \<in> set (connections db)" "c_connection_id y = cid" by (auto simp: in_rows_of)
    have gen: "c_generation y \<le> ?g"
      using inv r yc by (auto simp: acct_inv_def gen_inv_def row_at_def)
    show ?thesis
    proof (cases "y = r")
      case True
      then show ?thesis using y(2) r f(1) st by (simp add: closes_def row_at_def)
    next
      case False
      then have "\<not> open_row y"
        using acct_inv_open_unique [OF inv yc(1) r(1)] r(2,3) yc(2) by (auto simp: row_at_def)
      with y(2) gen st show ?thesis by simp
    qed
  qed
  show "load_poll_baseline db' cid = None" by (simp add: db')
qed

section \<open>One event of the snapshot\<close>

lemma open_connection_row_Some:
  assumes "open_connection_row db cid = Some r"
  shows "r \<in> set (connections db)" "c_connection_id r = cid" "open_row r"
proof -
  from assms obtain rs where "sort_key (\<lambda>r. - c_generation r) (filter open_row (rows_of cid db)) = r # rs"
    by (auto simp: open_connection_row_def split: list.splits)
  then have "r \<in> set (sort_key (\<lambda>r. - c_generation r) (filter open_row (rows_of cid db)))"
    by (metis list.set_intros(1))
  then show "r \<in> set (connections db)" "c_connection_id r = cid" "open_row r"
    by (auto simp: rows_of_def)
qed

lemma open_connection_row_None:
  assumes "open_connection_row db cid = None" "r \<in> set (connections db)" "c_connection_id r = cid"
  shows "\<not> open_row r"
proof -
  from assms(1) have "sort_key (\<lambda>r. - c_generation r) (filter open_row (rows_of cid db)) = []"
    by (simp add: open_connection_row_def split: list.splits)
  then have "set (filter open_row (rows_of cid db)) = {}" by (metis set_sort set_empty)
  with assms(2,3) show ?thesis by (auto simp: rows_of_def filter_empty_conv)
qed

lemma fold_max_ge: "y \<in> set (x # xs) \<Longrightarrow> (y :: int) \<le> fold max xs x"
  by (metis List.finite_set Max.set_eq_fold Max_ge)

lemma max_generation_bound:
  assumes "r \<in> set (connections db)" "c_connection_id r = cid"
  shows "\<exists>g. max_generation db cid = Some g \<and> c_generation r \<le> g"
proof -
  have "c_generation r \<in> set (map c_generation (rows_of cid db))" using assms by (auto simp: rows_of_def)
  then show ?thesis
    by (cases "map c_generation (rows_of cid db)") (simp_all add: max_generation_def fold_max_ge)
qed

text \<open>The counters an event carries, when they are usable.\<close>

definition counters :: "event \<Rightarrow> (int \<times> int) option" where
  "counters ev = (case (event_counter (ev_upload_bytes ev), event_counter (ev_download_bytes ev)) of
     (Inr u, Inr d) \<Rightarrow> Some (u, d) | _ \<Rightarrow> None)"

lemma event_counter_nonneg: "event_counter v = Inr n \<Longrightarrow> 0 \<le> n"
  by (auto simp: event_counter_def require_nonneg_int_def split: json.splits if_splits)

lemma counters_nonneg: "counters ev = Some (u, d) \<Longrightarrow> 0 \<le> u \<and> 0 \<le> d"
  by (auto simp: counters_def split: sum.splits dest: event_counter_nonneg)

text \<open>
  The bytes a poll accounts to a connection: the counter differences when the connection is
  tracked and neither counter fell; nothing when it is first seen, re-adopted, or was reset.
\<close>

definition delta_of :: "cache_entry option \<Rightarrow> (int \<times> int) option \<Rightarrow> int \<times> int" where
  "delta_of prev cnt = (case (prev, cnt) of
     (Some p, Some (u, d)) \<Rightarrow>
       if u < k_raw_up p \<or> d < k_raw_dn p then (0, 0) else (u - k_raw_up p, d - k_raw_dn p)
   | _ \<Rightarrow> (0, 0))"

text \<open>What the step for connection \<open>cid\<close> does to the database.\<close>

definition stepped :: "acct_db \<Rightarrow> string \<Rightarrow> (int \<times> int) option \<Rightarrow> acct_db \<Rightarrow> bool" where
  "stepped db cid cnt db' \<longleftrightarrow> acct_inv db' \<and> evolves db db' \<and> (\<forall>c. c \<noteq> cid \<longrightarrow> same_for c db db')
     \<and> (total_up db' cid, total_dn db' cid)
        = (let (u, d) = delta_of (durable_prev_state db cid) cnt
           in (total_up db cid + u, total_dn db cid + d))
     \<and> (case cnt of None \<Rightarrow> db' = db
         | Some (u, d) \<Rightarrow>
             (\<exists>st. durable_prev_state db' cid = Some st \<and> k_raw_up st = u \<and> k_raw_dn st = d))"

lemma event_now_nonempty: "clock \<noteq> [] \<Longrightarrow> event_now clock ev \<noteq> []"
  by (simp add: event_now_def)

text \<open>The database part of the step, apart from the cache.\<close>

definition live_write ::
    "acct_env \<Rightarrow> string \<Rightarrow> string \<Rightarrow> event \<Rightarrow> int \<Rightarrow> int \<Rightarrow> acct_db \<Rightarrow> (acct_db \<times> cache_entry) res" where
  "live_write env clock cid ev ru rd db =
     (let now = event_now clock ev;
          write = (\<lambda>db g au ad. write_open_state env clock db ev cid g ru rd au ad now)
      in case durable_prev_state db cid of
           None \<Rightarrow> (case open_connection_row db cid of
               Some r \<Rightarrow> write db (c_generation r) (c_upload_bytes r) (c_download_bytes r)
             | None \<Rightarrow> write db (case max_generation db cid of None \<Rightarrow> 0 | Some g \<Rightarrow> g + 1) 0 0)
         | Some prev \<Rightarrow>
             if ru < k_raw_up prev \<or> rd < k_raw_dn prev
             then rbind (close_generation env clock db prev now) (\<lambda>db1. write db1 (k_generation prev + 1) 0 0)
             else write db (k_generation prev) (k_acc_up prev + (ru - k_raw_up prev))
                    (k_acc_dn prev + (rd - k_raw_dn prev)))"

lemma poll_live_step_alt:
  "poll_live_step env clock known (cid, ev) (db, nk) = (case counters ev of
      Some (ru, rd) \<Rightarrow> rbind (live_write env clock cid ev ru rd db)
        (\<lambda>(db', e). Inr (db', AList.update cid e nk))
    | None \<Rightarrow> (case (case durable_prev_state db cid of Some e \<Rightarrow> Some e | None \<Rightarrow> map_of known cid) of
        Some kept \<Rightarrow> Inr (db, AList.update cid kept nk) | None \<Rightarrow> Inr (db, nk)))"
proof (cases "event_counter (ev_upload_bytes ev)")
  case (Inl e)
  then show ?thesis by (simp add: poll_live_step_def counters_def)
next
  case up: (Inr u)
  show ?thesis
  proof (cases "event_counter (ev_download_bytes ev)")
    case (Inl e)
    with up show ?thesis by (simp add: poll_live_step_def counters_def)
  next
    case (Inr d)
    with up show ?thesis
      by (auto simp: poll_live_step_def counters_def live_write_def Let_def rbind_def
          split: option.splits sum.splits)
  qed
qed

lemma live_write_ok:
  assumes inv: "acct_inv db" and ev: "ev_connection_id ev = cid" and clock: "clock \<noteq> []"
    and nn: "0 \<le> ru" "0 \<le> rd" and w: "live_write env clock cid ev ru rd db = Inr (db', e)"
  shows "stepped db cid (Some (ru, rd)) db'"
proof -
  let ?now = "event_now clock ev"
  note now = event_now_nonempty [OF clock, of ev]
  show ?thesis
  proof (cases "durable_prev_state db cid")
    case (Some prev)
    from durable_prev_state_Some [OF inv Some] obtain b r where
      r: "r \<in> set (connections db)" "row_at cid (b_generation b) r" "open_row r"
      and prev: "prev = entry_of cid b r"
      and acc: "c_upload_bytes r = b_acc_up b" "c_download_bytes r = b_acc_dn b" by blast
    show ?thesis
    proof (cases "ru < k_raw_up prev \<or> rd < k_raw_dn prev")
      case True
      then obtain db1 where c: "close_generation env clock db prev ?now = Inr db1"
        and w1: "write_open_state env clock db1 ev cid (k_generation prev + 1) ru rd 0 0 ?now = Inr (db', e)"
        using w Some by (auto simp: live_write_def Let_def res_simps)
      note cd = close_durable [OF inv Some c]
      have "c_generation x < k_generation prev + 1 \<and> \<not> open_row x"
        if "x \<in> set (connections db1)" "c_connection_id x = cid" for x
        using cd(6) [OF that] by simp
      note wn = write_new [OF cd(1) this nn ev now w1]
      have "same_for c db db'" if "c \<noteq> cid" for c
        using same_for_trans [OF cd(3) [OF that]] wn(1) that by (simp add: wrote_def)
      moreover have "evolves db db'" using evolves_trans [OF cd(2)] wn(1) by (simp add: wrote_def)
      ultimately show ?thesis
        unfolding stepped_def using wn cd(4,5) True Some by (auto simp: wrote_def delta_of_def)
    next
      case False
      with w Some have w1: "write_open_state env clock db ev cid (k_generation prev) ru rd
          (k_acc_up prev + (ru - k_raw_up prev)) (k_acc_dn prev + (rd - k_raw_dn prev)) ?now = Inr (db', e)"
        by (simp add: live_write_def Let_def)
      have "row_at cid (k_generation prev) r" using r prev by simp
      note wh = write_hit [OF inv r(1) this r(3) _ _ nn ev now w1]
      show ?thesis
        unfolding stepped_def using wh False acc prev Some
        by (simp add: wrote_def delta_of_def)
    qed
  next
    case None
    show ?thesis
    proof (cases "open_connection_row db cid")
      case (Some r)
      note r = open_connection_row_Some [OF Some]
      have "write_open_state env clock db ev cid (c_generation r) ru rd
          (c_upload_bytes r) (c_download_bytes r) ?now = Inr (db', e)"
        using w None Some by (simp add: live_write_def Let_def)
      from write_hit [OF inv r(1) _ r(3) _ _ nn ev now this] r None show ?thesis
        unfolding stepped_def by (simp add: wrote_def delta_of_def row_at_def)
    next
      case no_open: None
      let ?g = "case max_generation db cid of None \<Rightarrow> 0 | Some g \<Rightarrow> g + 1"
      have w1: "write_open_state env clock db ev cid ?g ru rd 0 0 ?now = Inr (db', e)"
        using w None no_open by (simp add: live_write_def Let_def)
      have "c_generation x < ?g \<and> \<not> open_row x"
        if "x \<in> set (connections db)" "c_connection_id x = cid" for x
        using open_connection_row_None [OF no_open that] max_generation_bound [OF that] by auto
      from write_new [OF inv this nn ev now w1] None show ?thesis
        unfolding stepped_def by (simp add: wrote_def delta_of_def)
    qed
  qed
qed

lemma poll_live_step_ok:
  assumes inv: "acct_inv db" and ev: "ev_connection_id ev = cid" and clock: "clock \<noteq> []"
    and s: "poll_live_step env clock known (cid, ev) (db, nk) = Inr (db', nk')"
  shows "stepped db cid (counters ev) db'"
    and "fst ` set nk' \<subseteq> insert cid (fst ` set nk)"
    and "cid \<in> fst ` set nk' \<Longrightarrow> cid \<notin> fst ` set nk \<Longrightarrow> (map_of known cid \<noteq> None \<longrightarrow> durable_prev_state db cid \<noteq> None)
      \<Longrightarrow> durable_prev_state db' cid \<noteq> None"
proof -
  show st: "stepped db cid (counters ev) db'"
  proof (cases "counters ev")
    case None
    then have "db' = db" using s by (auto simp: poll_live_step_alt split: option.splits)
    with None inv show ?thesis by (simp add: stepped_def delta_of_def split: option.splits)
  next
    case (Some p)
    then obtain ru rd where p: "counters ev = Some (ru, rd)" by (cases p) auto
    with s obtain e where "live_write env clock cid ev ru rd db = Inr (db', e)"
      by (auto simp: poll_live_step_alt res_simps)
    with live_write_ok [OF inv ev clock] counters_nonneg [OF p] p show ?thesis by auto
  qed
  show "fst ` set nk' \<subseteq> insert cid (fst ` set nk)"
    using s by (auto simp: poll_live_step_alt res_simps keys_update split: option.splits)
       (auto dest: in_set_update_cases simp: rev_image_eqI)
  show "durable_prev_state db' cid \<noteq> None"
    if "cid \<in> fst ` set nk'" "cid \<notin> fst ` set nk"
      "map_of known cid \<noteq> None \<longrightarrow> durable_prev_state db cid \<noteq> None"
  proof (cases "counters ev")
    case None
    with s that show ?thesis by (auto simp: poll_live_step_alt split: option.splits)
  next
    case (Some p)
    with st show ?thesis by (cases p) (auto simp: stepped_def)
  qed
qed

end
