(* ===== verification/AcctPollRun.thy ===== *)
theory AcctPollRun
  imports AcctPollInv
begin

text \<open>
  The loops of a poll: the live loop over the snapshot, the close loop over the connections
  that left it, and the sweep of stale open rows, composed to \<open>apply_poll_delta\<close> and
  \<open>poll_clash\<close> as one specification \<open>poll_effect\<close>.
\<close>

section \<open>Prune and the close sweep\<close>

text \<open>
  A Python set is iterated in an order the language leaves open.  All the proofs need of it is
  that each element comes once.
\<close>

locale iteration_order =
  fixes ord :: "string list \<Rightarrow> string list"
  assumes ord_set: "set (ord xs) = set xs"
    and ord_distinct: "distinct xs \<Longrightarrow> distinct (ord xs)"
begin

lemma ord_remdups: "distinct (ord (remdups xs))" "set (ord (remdups xs)) = set xs"
  by (simp_all add: ord_set ord_distinct)

end

interpretation insertion_order: iteration_order "\<lambda>xs. xs"
  by unfold_locales simp_all

interpretation reverse_order: iteration_order rev
  by unfold_locales simp_all

text \<open>The cache only holds connections whose state is durable.\<close>

definition known_ok :: "acct_db \<Rightarrow> known \<Rightarrow> bool" where
  "known_ok db known \<longleftrightarrow> (\<forall>c \<in> fst ` set known. durable_prev_state db c \<noteq> None)"

lemma known_okD: "known_ok db known \<Longrightarrow> c \<in> fst ` set known \<Longrightarrow> durable_prev_state db c \<noteq> None"
  unfolding known_ok_def by blast

abbreviation totals :: "acct_db \<Rightarrow> string \<Rightarrow> int \<times> int" where
  "totals db c \<equiv> (total_up db c, total_dn db c)"

lemma totals_same_for: "same_for c db db' \<Longrightarrow> totals db' c = totals db c"
  by (simp add: total_up_def total_dn_def same_for_def)

lemma prune_evolves: "evolves db (prune_closed_poll_baselines db)"
  unfolding prune_closed_poll_baselines_def by (rule drop_baselines_evolves)

lemma prune_totals: "totals (prune_closed_poll_baselines db) c = totals db c"
  by (simp add: total_up_def total_dn_def)

lemma prune_durable:
  assumes "acct_inv db"
  shows "durable_prev_state (prune_closed_poll_baselines db) c = durable_prev_state db c"
proof (cases "load_poll_baseline db c")
  case None
  then have "load_poll_baseline (prune_closed_poll_baselines db) c = None"
    using assms by (simp add: load_poll_baseline_def prune_closed_poll_baselines_def
        map_of_filter_key acct_inv_def base_inv_def)
  with None show ?thesis by (simp add: durable_prev_state_def)
next
  case (Some b)
  have l: "load_poll_baseline (prune_closed_poll_baselines db) c
      = (if baseline_open db (c, b) then Some b else None)"
    using assms Some by (simp add: load_poll_baseline_def prune_closed_poll_baselines_def
        map_of_filter_key acct_inv_def base_inv_def)
  show ?thesis
  proof (cases "find (row_at c (b_generation b)) (connections db)")
    case None
    then have "\<not> baseline_open db (c, b)"
      by (auto simp: baseline_open_def find_None_iff list_ex_iff)
    with l None Some show ?thesis by (simp add: durable_prev_state_def)
  next
    case f: (Some r)
    have r: "r \<in> set (connections db)" "row_at c (b_generation b) r" using f by (auto dest: find_SomeD)
    have "baseline_open db (c, b) \<longleftrightarrow> open_row r"
    proof
      assume "baseline_open db (c, b)"
      then obtain x where "x \<in> set (connections db)" "row_at c (b_generation b) x" "open_row x"
        by (auto simp: baseline_open_def list_ex_iff)
      with r assms show "open_row r" by (metis acct_inv_row_eq row_at_def)
    next
      assume "open_row r"
      with r show "baseline_open db (c, b)" by (auto simp: baseline_open_def list_ex_iff)
    qed
    with l f Some show ?thesis by (simp add: durable_prev_state_def)
  qed
qed

lemma durable_has_open_row:
  assumes "durable_prev_state db c = Some st"
  shows "\<exists>r \<in> set (connections db). c_connection_id r = c \<and> open_row r"
  using assms
  by (auto simp: durable_prev_state_def row_at_def split: option.splits if_splits dest!: find_SomeD)

section \<open>The close loop\<close>

text \<open>Nothing but closing: no bytes move, and connections satisfying \<open>keep\<close> are untouched.\<close>

definition closing :: "(string \<Rightarrow> bool) \<Rightarrow> acct_db \<Rightarrow> acct_db \<Rightarrow> bool" where
  "closing keep db db' \<longleftrightarrow> acct_inv db' \<and> evolves db db' \<and> (\<forall>c. totals db' c = totals db c)
     \<and> (\<forall>c. keep c \<longrightarrow> same_for c db db')"

lemma closing_refl: "acct_inv db \<Longrightarrow> closing keep db db"
  by (simp add: closing_def)

lemma closing_trans:
  assumes "closing keep a b" "closing keep b c" shows "closing keep a c"
  using assms evolves_trans [of a b c] same_for_trans by (fastforce simp: closing_def)

lemma closing_mono: "closing keep a b \<Longrightarrow> (\<And>c. keep' c \<Longrightarrow> keep c) \<Longrightarrow> closing keep' a b"
  by (auto simp: closing_def)

lemma poll_close_step_closing:
  assumes inv: "acct_inv db" and s: "poll_close_step env clock known live c db = Inr db'"
    and k: "c \<in> fst ` set known \<Longrightarrow> c \<notin> set live \<Longrightarrow> durable_prev_state db c \<noteq> None"
  shows "closing (\<lambda>x. x \<noteq> c \<or> x \<in> set live) db db'"
proof (cases "c \<in> set live")
  case True
  with s inv show ?thesis by (simp add: poll_close_step_def closing_refl)
next
  case False
  show ?thesis
  proof (cases "durable_prev_state db c")
    case (Some st)
    with s False have "close_generation env clock db st clock = Inr db'"
      by (simp add: poll_close_step_def)
    note cd = close_durable [OF inv Some this]
    have "totals db' x = totals db x" for x
      using cd(4,5) totals_same_for [OF cd(3)] by (cases "x = c") auto
    with cd False show ?thesis by (auto simp: closing_def)
  next
    case None
    then have "map_of known c = None" using k False by (auto simp: map_of_eq_None_iff)
    with None s False have db': "db' = delete_poll_baseline db c"
      by (simp add: poll_close_step_def)
    have "evolves db db'" unfolding db' delete_poll_baseline_def by (rule drop_baselines_evolves)
    with inv False show ?thesis
      by (auto simp: closing_def db' delete_poll_baseline_inv same_for_def total_up_def total_dn_def)
  qed
qed

lemma poll_close_loop:
  assumes "rfold (poll_close_step env clock known live) cs db = Inr db'"
    and "acct_inv db" and "distinct cs"
    and "\<And>c. c \<in> set cs \<Longrightarrow> c \<in> fst ` set known \<Longrightarrow> c \<notin> set live \<Longrightarrow> durable_prev_state db c \<noteq> None"
  shows "closing (\<lambda>x. x \<in> set live) db db'"
  using assms
proof (induction cs arbitrary: db)
  case Nil
  then show ?case by (simp add: closing_refl)
next
  case (Cons c cs)
  from Cons.prems(1) obtain db1 where s: "poll_close_step env clock known live c db = Inr db1"
    and rest: "rfold (poll_close_step env clock known live) cs db1 = Inr db'"
    by (auto simp: res_simps)
  have 1: "closing (\<lambda>x. x \<noteq> c \<or> x \<in> set live) db db1"
    by (rule poll_close_step_closing [OF Cons.prems(2) s]) (use Cons.prems(4) in simp)
  have "closing (\<lambda>x. x \<in> set live) db1 db'"
  proof (rule Cons.IH [OF rest])
    show "acct_inv db1" using 1 by (simp add: closing_def)
    show "distinct cs" using Cons.prems(3) by simp
    show "durable_prev_state db1 x \<noteq> None"
      if x: "x \<in> set cs" "x \<in> fst ` set known" "x \<notin> set live" for x
    proof -
      have "same_for x db db1" using 1 x Cons.prems(3) by (auto simp: closing_def)
      with Cons.prems(4) [of x] x show ?thesis by (simp add: durable_prev_state_cong)
    qed
  qed
  with 1 show ?case by (blast intro: closing_trans closing_mono)
qed

section \<open>The sweep of stale open rows\<close>

lemma close_stale_step_ok:
  assumes inv: "acct_inv db" and s: "close_stale_step now (cid, g) (db, n) = Inr (db', n')"
  shows "closing (\<lambda>x. x \<noteq> cid) db db'"
    and "\<And>r. r \<in> set (connections db') \<Longrightarrow> open_row r \<Longrightarrow>
      r \<in> set (connections db) \<and> \<not> row_at cid g r"
proof -
  let ?f = "\<lambda>r. r\<lparr>c_closed_at := Some now, c_last_seen_at := now\<rparr>"
  have "closing (\<lambda>x. x \<noteq> cid) db db' \<and> (\<forall>r \<in> set (connections db'). open_row r \<longrightarrow>
      r \<in> set (connections db) \<and> \<not> row_at cid g r)"
  proof (cases "list_ex (\<lambda>r. row_at cid g r \<and> open_row r) (connections db)")
    case False
    with s have "db' = db" by (simp add: close_stale_step_def)
    with inv False show ?thesis by (auto simp: closing_refl list_ex_iff)
  next
    case True
    then obtain r where r: "r \<in> set (connections db)" "row_at cid g r" "open_row r"
      by (auto simp: list_ex_iff)
    have nos: "c_export_seq r = None" using inv r by (simp add: acct_inv_def seq_inv_def)
    from s True obtain so where a: "assign_export_seq_if_needed (touch_rows cid g ?f db) cid g = Inr (db', so)"
      by (auto simp: close_stale_step_def touch_rows_def res_simps)
    have db': "db' = close_with cid g ?f db"
      using assign_after_touch [OF inv r _ _ _ _ _ a] nos by simp
    have f: "closes ?f" by (simp add: closes_def)
    have "acct_inv db'" unfolding db' by (rule close_with_inv [OF inv f])
    moreover have "evolves db db'" unfolding db' by (rule close_with_evolves [OF inv r f]) simp
    moreover have "same_for c db db'" if "c \<noteq> cid" for c
      using that by (simp add: db' same_for_def)
    moreover have "totals db' c = totals db c" for c
    proof -
      have "rows_of c db' = map (\<lambda>r. if row_at cid g r \<and> open_row r
          then (?f r)\<lparr>c_export_seq := Some (seq_counter db + 1)\<rparr> else r) (rows_of c db)"
        unfolding rows_of_def db' by (simp, intro filter_update_map) simp
      then show ?thesis by (simp add: total_up_def total_dn_def comp_def if_distrib cong: if_cong)
    qed
    moreover have "\<forall>r \<in> set (connections db'). open_row r \<longrightarrow>
        r \<in> set (connections db) \<and> \<not> row_at cid g r"
      by (auto simp: db' split: if_splits)
    ultimately show ?thesis by (simp add: closing_def)
  qed
  then show "closing (\<lambda>x. x \<noteq> cid) db db'"
    and "\<And>r. r \<in> set (connections db') \<Longrightarrow> open_row r \<Longrightarrow>
      r \<in> set (connections db) \<and> \<not> row_at cid g r"
    by auto
qed

lemma close_stale_loop:
  assumes "rfold (close_stale_step now) ps (db, n) = Inr (db', n')" and "acct_inv db"
  shows "closing (\<lambda>x. x \<notin> fst ` set ps) db db'
    \<and> (\<forall>r \<in> set (connections db'). open_row r \<longrightarrow>
         r \<in> set (connections db) \<and> (c_connection_id r, c_generation r) \<notin> set ps)"
  using assms
proof (induction ps arbitrary: db n)
  case Nil
  then show ?case by (simp add: closing_refl)
next
  case (Cons p ps)
  obtain cid g where p: "p = (cid, g)" by (cases p)
  from Cons.prems(1) obtain db1 n1 where s: "close_stale_step now (cid, g) (db, n) = Inr (db1, n1)"
    and rest: "rfold (close_stale_step now) ps (db1, n1) = Inr (db', n')"
    by (auto simp: p res_simps)
  note 1 = close_stale_step_ok [OF Cons.prems(2) s]
  have "acct_inv db1" using 1(1) by (simp add: closing_def)
  note 2 = Cons.IH [OF rest this]
  have "closing (\<lambda>x. x \<notin> fst ` set (p # ps)) db db'"
    by (rule closing_trans [OF closing_mono [OF 1(1)] closing_mono [OF conjunct1 [OF 2]]])
       (auto simp: p)
  moreover have "r \<in> set (connections db) \<and> (c_connection_id r, c_generation r) \<notin> set (p # ps)"
    if "r \<in> set (connections db')" "open_row r" for r
  proof -
    from 2 that have r1: "r \<in> set (connections db1)" "(c_connection_id r, c_generation r) \<notin> set ps"
      by auto
    with 1(2) [OF r1(1) that(2)] show ?thesis by (auto simp: p row_at_def)
  qed
  ultimately show ?case by blast
qed

lemma close_stale_open_connections_ok:
  assumes "close_stale_open_connections db (Some ids) now = Inr (db', n)" and "acct_inv db"
  shows "closing (\<lambda>x. x \<in> set ids) db db'"
    and "\<And>r. r \<in> set (connections db') \<Longrightarrow> open_row r \<Longrightarrow> c_connection_id r \<in> set ids"
proof -
  let ?stale = "if ids = [] then filter open_row (connections db)
    else filter (\<lambda>r. open_row r \<and> c_connection_id r \<notin> set ids) (connections db)"
  have "rfold (close_stale_step now) (map (\<lambda>r. (c_connection_id r, c_generation r)) ?stale) (db, 0)
      = Inr (db', n)"
    using assms(1) by (simp add: close_stale_open_connections_def)
  note l = close_stale_loop [OF this assms(2)]
  show "closing (\<lambda>x. x \<in> set ids) db db'"
    by (rule closing_mono [OF conjunct1 [OF l]]) (auto split: if_splits)
  show "c_connection_id r \<in> set ids" if "r \<in> set (connections db')" "open_row r" for r
  proof (rule ccontr)
    assume "c_connection_id r \<notin> set ids"
    moreover from l that have "r \<in> set (connections db)" by auto
    ultimately have "(c_connection_id r, c_generation r)
        \<in> set (map (\<lambda>r. (c_connection_id r, c_generation r)) ?stale)"
      using that(2) by (auto simp: image_iff)
    with l that show False by blast
  qed
qed

section \<open>The live loop\<close>

text \<open>How one snapshot event moves the state of its connection.\<close>

definition moved :: "acct_db \<Rightarrow> string \<Rightarrow> (int \<times> int) option \<Rightarrow> acct_db \<Rightarrow> bool" where
  "moved db c cnt db' \<longleftrightarrow>
     totals db' c = (let (u, d) = delta_of (durable_prev_state db c) cnt
                     in (total_up db c + u, total_dn db c + d))
     \<and> (case cnt of None \<Rightarrow> durable_prev_state db' c = durable_prev_state db c
         | Some (u, d) \<Rightarrow>
             (\<exists>st. durable_prev_state db' c = Some st \<and> k_raw_up st = u \<and> k_raw_dn st = d))"

lemma stepped_moved: "stepped db c cnt db' \<Longrightarrow> moved db c cnt db'"
  by (auto simp: stepped_def moved_def split: option.splits)

lemma moved_after: "moved db c cnt db' \<Longrightarrow> totals db'' c = totals db' c \<Longrightarrow>
    durable_prev_state db'' c = durable_prev_state db' c \<Longrightarrow> moved db c cnt db''"
  by (cases cnt) (auto simp: moved_def)

lemma moved_before:
  assumes "same_for c db db1" and "moved db1 c cnt db'" shows "moved db c cnt db'"
  using assms(2) totals_same_for [OF assms(1)] durable_prev_state_cong [OF assms(1)]
  by (cases cnt) (auto simp: moved_def)

lemma live_loop:
  assumes "rfold (poll_live_step env clock known) ps (db, nk) = Inr (db', nk')"
    and "acct_inv db" and "clock \<noteq> []" and "distinct (map fst ps)"
    and "\<And>c e. (c, e) \<in> set ps \<Longrightarrow> ev_connection_id e = c"
    and "\<And>c. c \<in> fst ` set known \<Longrightarrow> c \<in> fst ` set ps \<Longrightarrow> durable_prev_state db c \<noteq> None"
    and "fst ` set nk \<inter> fst ` set ps = {}" and "known_ok db nk"
  shows "acct_inv db' \<and> evolves db db'
    \<and> (\<forall>c. c \<notin> fst ` set ps \<longrightarrow> same_for c db db')
    \<and> (\<forall>(c, e) \<in> set ps. moved db c (counters e) db')
    \<and> fst ` set nk' \<subseteq> fst ` set nk \<union> fst ` set ps \<and> known_ok db' nk'"
  using assms
proof (induction ps arbitrary: db nk)
  case Nil
  then show ?case by simp
next
  case (Cons p ps)
  obtain c e where p: "p = (c, e)" by (cases p)
  from Cons.prems(1) obtain db1 nk1 where
    s: "poll_live_step env clock known (c, e) (db, nk) = Inr (db1, nk1)"
    and rest: "rfold (poll_live_step env clock known) ps (db1, nk1) = Inr (db', nk')"
    by (auto simp: p res_simps)
  have ec: "ev_connection_id e = c" using Cons.prems(5) p by simp
  have cp: "c \<notin> fst ` set ps" using Cons.prems(4) p by simp
  have cnk: "c \<notin> fst ` set nk" using Cons.prems(7) p by simp
  note st = poll_live_step_ok [OF Cons.prems(2) ec Cons.prems(3) s]
  have step: "acct_inv db1" "evolves db db1" "\<And>x. x \<noteq> c \<Longrightarrow> same_for x db db1"
    using st(1) by (auto simp: stepped_def)
  have "acct_inv db' \<and> evolves db1 db'
    \<and> (\<forall>c. c \<notin> fst ` set ps \<longrightarrow> same_for c db1 db')
    \<and> (\<forall>(c, e) \<in> set ps. moved db1 c (counters e) db')
    \<and> fst ` set nk' \<subseteq> fst ` set nk1 \<union> fst ` set ps \<and> known_ok db' nk'"
  proof (rule Cons.IH [OF rest step(1) Cons.prems(3)])
    show "distinct (map fst ps)" using Cons.prems(4) by simp
    show "ev_connection_id e' = c'" if "(c', e') \<in> set ps" for c' e'
      using Cons.prems(5) that by simp
    show "durable_prev_state db1 x \<noteq> None" if "x \<in> fst ` set known" "x \<in> fst ` set ps" for x
    proof -
      have "x \<noteq> c" using that(2) cp by auto
      with Cons.prems(6) [of x] that show ?thesis
        using durable_prev_state_cong [OF step(3)] by simp
    qed
    show "fst ` set nk1 \<inter> fst ` set ps = {}"
    proof -
      have "fst ` set nk \<inter> fst ` set ps = {}" using Cons.prems(7) by (simp add: p disjoint_iff)
      with st(2) cp show ?thesis by blast
    qed
    show "known_ok db1 nk1"
      unfolding known_ok_def
    proof
      fix x assume x: "x \<in> fst ` set nk1"
      show "durable_prev_state db1 x \<noteq> None"
      proof (cases "x = c")
        case True
        have "map_of known c \<noteq> None \<longrightarrow> durable_prev_state db c \<noteq> None"
          using Cons.prems(6) [of c] p by (simp add: map_of_eq_None_iff)
        with st(3) x cnk True show ?thesis by simp
      next
        case False
        then have "x \<in> fst ` set nk" using x st(2) by auto
        from known_okD [OF Cons.prems(8) this] False show ?thesis
          using durable_prev_state_cong [OF step(3)] by simp
      qed
    qed
  qed
  then have ih: "acct_inv db'" "evolves db1 db'" "\<And>c. c \<notin> fst ` set ps \<Longrightarrow> same_for c db1 db'"
    "\<And>c e. (c, e) \<in> set ps \<Longrightarrow> moved db1 c (counters e) db'"
    "fst ` set nk' \<subseteq> fst ` set nk1 \<union> fst ` set ps" "known_ok db' nk'"
    by auto
  have mv: "moved db x (counters y) db'" if "(x, y) \<in> set (p # ps)" for x y
  proof (cases "(x, y) = (c, e)")
    case True
    have "same_for c db1 db'" by (rule ih(3) [OF cp])
    note sf = this
    have "moved db c (counters e) db'"
      by (rule moved_after [OF stepped_moved [OF st(1)] totals_same_for [OF sf]
            durable_prev_state_cong [OF sf]])
    with True show ?thesis by simp
  next
    case False
    with that have "(x, y) \<in> set ps" by (auto simp: p)
    moreover from this have "x \<noteq> c" using cp by force
    moreover from calculation(1) have "moved db1 x (counters y) db'" by (rule ih(4))
    ultimately show ?thesis using moved_before [OF step(3)] by simp
  qed
  have sf: "same_for x db db'" if "x \<notin> fst ` set (p # ps)" for x
    using that same_for_trans [OF step(3) ih(3), of x] by (simp add: p)
  have keys: "fst ` set nk' \<subseteq> fst ` set nk \<union> fst ` set (p # ps)"
  proof -
    have "fst ` set (p # ps) = insert c (fst ` set ps)" by (simp add: p)
    moreover have "A \<subseteq> B \<union> C \<Longrightarrow> B \<subseteq> insert c D \<Longrightarrow> A \<subseteq> D \<union> insert c C"
      for A B C D :: "string set" by blast
    ultimately show ?thesis using ih(5) st(2) by metis
  qed
  have ev: "evolves db db'" using evolves_trans [OF step(2) ih(2)] .
  have all: "\<forall>(c, e) \<in> set (p # ps). moved db c (counters e) db'" using mv by (simp add: Ball_def split_paired_all)
  show ?case by (intro conjI allI impI ih(1,6) ev all sf keys)
qed

section \<open>The whole poll\<close>

definition snapshot :: "event list \<Rightarrow> string \<Rightarrow> event option" where
  "snapshot live = map_of (dict_of ev_connection_id live)"

lemma snapshot_None: "snapshot live c = None \<longleftrightarrow> c \<notin> ev_connection_id ` set live"
  using dict_of_keys [of ev_connection_id live] by (auto simp: snapshot_def map_of_eq_None_iff)

text \<open>
  What a successful poll on \<open>live\<close> does: the invariant, the guarantee, the exact bytes, the
  counters now on record, and a cache of tracked live connections only.
\<close>

definition poll_effect :: "acct_db \<Rightarrow> event list \<Rightarrow> acct_db \<Rightarrow> known \<Rightarrow> bool" where
  "poll_effect db live db' nk \<longleftrightarrow> acct_inv db' \<and> evolves db db' \<and> known_ok db' nk
     \<and> fst ` set nk \<subseteq> ev_connection_id ` set live
     \<and> (\<forall>c. case snapshot live c of None \<Rightarrow> totals db' c = totals db c
          | Some e \<Rightarrow> moved db c (counters e) db')"

lemma poll_effect_closing:
  assumes p: "poll_effect db live db1 nk"
    and c: "closing (\<lambda>x. x \<in> ev_connection_id ` set live) db1 db2"
  shows "poll_effect db live db2 nk"
proof -
  have nk: "fst ` set nk \<subseteq> ev_connection_id ` set live" using p by (simp add: poll_effect_def)
  have same: "same_for x db1 db2" if "x \<in> ev_connection_id ` set live" for x
    using c that by (simp add: closing_def)
  have tot: "totals db2 x = totals db1 x" for x using c by (simp add: closing_def)
  have bytes: "case snapshot live x of None \<Rightarrow> totals db1 x = totals db x
      | Some e \<Rightarrow> moved db x (counters e) db1" for x
    using p unfolding poll_effect_def by blast
  have "known_ok db2 nk"
    unfolding known_ok_def
  proof
    fix x assume "x \<in> fst ` set nk"
    moreover from this have "x \<in> ev_connection_id ` set live" using nk by blast
    moreover have "known_ok db1 nk" using p by (simp add: poll_effect_def)
    ultimately show "durable_prev_state db2 x \<noteq> None"
      using known_okD [of db1 nk x] durable_prev_state_cong [OF same] by simp
  qed
  moreover have "case snapshot live x of None \<Rightarrow> totals db2 x = totals db x
      | Some e \<Rightarrow> moved db x (counters e) db2" for x
  proof (cases "snapshot live x")
    case None
    with bytes [of x] tot [of x] show ?thesis by simp
  next
    case (Some e)
    then have "x \<in> ev_connection_id ` set live" using snapshot_None [of live x] by auto
    note s = same [OF this]
    have "moved db x (counters e) db1" using bytes [of x] Some by simp
    from moved_after [OF this tot durable_prev_state_cong [OF s]] Some show ?thesis by simp
  qed
  moreover have "evolves db db2"
    by (rule evolves_trans [of _ db1]) (use p c in \<open>simp_all add: poll_effect_def closing_def\<close>)
  moreover have "acct_inv db2" using c by (simp add: closing_def)
  ultimately show ?thesis using nk unfolding poll_effect_def by blast
qed

lemma poll_effect_prune:
  assumes p: "poll_effect db live db1 nk"
  shows "poll_effect db live (prune_closed_poll_baselines db1) nk"
proof -
  have inv: "acct_inv db1" using p by (simp add: poll_effect_def)
  have mv: "moved db x cnt db1 \<Longrightarrow> moved db x cnt (prune_closed_poll_baselines db1)" for x cnt
    using moved_after [OF _ prune_totals prune_durable [OF inv]] .
  have t: "totals (prune_closed_poll_baselines db1) x = totals db1 x" for x by (rule prune_totals)
  have k: "known_ok (prune_closed_poll_baselines db1) nk = known_ok db1 nk"
    by (simp add: known_ok_def prune_durable [OF inv])
  have "case snapshot live x of None \<Rightarrow> totals (prune_closed_poll_baselines db1) x = totals db x
      | Some e \<Rightarrow> moved db x (counters e) (prune_closed_poll_baselines db1)" for x
  proof -
    have "case snapshot live x of None \<Rightarrow> totals db1 x = totals db x
      | Some e \<Rightarrow> moved db x (counters e) db1"
      using p unfolding poll_effect_def by blast
    then show ?thesis using mv [of x] t [of x] by (cases "snapshot live x") simp_all
  qed
  moreover have "evolves db (prune_closed_poll_baselines db1)"
    using p evolves_trans [OF _ prune_evolves] by (simp add: poll_effect_def)
  ultimately show ?thesis
    using p prune_inv [OF inv] unfolding poll_effect_def k by blast
qed

lemma apply_poll_delta_effect:
  assumes ord: "iteration_order ord" and inv: "acct_inv db" and clock: "clock \<noteq> []"
    and known: "known_ok db known"
    and a: "apply_poll_delta env clock ord db live known = Inr (db', nk)"
  shows "poll_effect db live db' nk"
proof -
  note io = iteration_order.ord_remdups [OF ord]
  let ?lm = "dict_of ev_connection_id live"
  from a obtain db1 db2 where
    l: "rfold (poll_live_step env clock known) ?lm (db, []) = Inr (db1, nk)"
    and c: "rfold (poll_close_step env clock known (map fst ?lm))
      (ord (remdups (map fst known @ map fst (poll_baseline db1)))) db1 = Inr db2"
    and db': "db' = prune_closed_poll_baselines db2"
    by (auto simp: apply_poll_delta_def Let_def res_simps)
  have ids: "fst ` set ?lm = ev_connection_id ` set live"
    using dict_of_keys [of ev_connection_id live] by simp
  have "acct_inv db1 \<and> evolves db db1
    \<and> (\<forall>c. c \<notin> fst ` set ?lm \<longrightarrow> same_for c db db1)
    \<and> (\<forall>(c, e) \<in> set ?lm. moved db c (counters e) db1)
    \<and> fst ` set nk \<subseteq> fst ` set ([] :: known) \<union> fst ` set ?lm \<and> known_ok db1 nk"
  proof (rule live_loop [OF l inv clock dict_of_distinct])
    show "ev_connection_id e = c" if "(c, e) \<in> set ?lm" for c e
      using dict_of_member [OF that] by simp
    show "durable_prev_state db c \<noteq> None" if "c \<in> fst ` set known" for c
      using known_okD [OF known that] .
  qed (simp_all add: known_ok_def)
  then have ll: "acct_inv db1" "evolves db db1" "\<And>c. c \<notin> fst ` set ?lm \<Longrightarrow> same_for c db db1"
    "\<And>c e. (c, e) \<in> set ?lm \<Longrightarrow> moved db c (counters e) db1"
    "fst ` set nk \<subseteq> fst ` set ?lm" "known_ok db1 nk"
    by auto
  have "case snapshot live c of None \<Rightarrow> totals db1 c = totals db c
      | Some e \<Rightarrow> moved db c (counters e) db1" for c
  proof (cases "snapshot live c")
    case None
    then have "c \<notin> fst ` set ?lm" using snapshot_None [of live c] ids by simp
    with None show ?thesis using totals_same_for [OF ll(3)] by simp
  next
    case (Some e)
    then have "(c, e) \<in> set ?lm" by (simp add: snapshot_def map_of_SomeD)
    with Some ll(4) show ?thesis by simp
  qed
  then have 1: "poll_effect db live db1 nk" using ll ids by (simp add: poll_effect_def)
  have "closing (\<lambda>x. x \<in> set (map fst ?lm)) db1 db2"
  proof (rule poll_close_loop [OF c ll(1)])
    show "distinct (ord (remdups (map fst known @ map fst (poll_baseline db1))))" by (rule io(1))
    show "durable_prev_state db1 x \<noteq> None"
      if "x \<in> fst ` set known" "x \<notin> set (map fst ?lm)" for x
      using that known_okD [OF known, of x] durable_prev_state_cong [OF ll(3), of x] by simp
  qed
  then have "closing (\<lambda>x. x \<in> ev_connection_id ` set live) db1 db2" by (simp add: ids)
  from poll_effect_prune [OF poll_effect_closing [OF 1 this]] show ?thesis by (simp add: db')
qed

lemma poll_clash_cases:
  assumes "poll_clash env clock ord db known f = Inr (ok, db', nk)"
  obtains (failed) "\<not> ok" "db' = db" "nk = known"
  | (polled) live db1 db2 n data where "ok" "f = Fetched data"
      "decode_clash_connections_payload env clock data = Inr live"
      "apply_poll_delta env clock ord db live known = Inr (db1, nk)"
      "close_stale_open_connections db1 (Some (map ev_connection_id live)) clock = Inr (db2, n)"
      "db' = prune_closed_poll_baselines db2"
  using assms
  by (auto simp: poll_clash_def res_simps split: fetched.splits sum.splits exc.splits)

lemma poll_clash_effect:
  assumes ord: "iteration_order ord" and inv: "acct_inv db" and clock: "clock \<noteq> []"
    and known: "known_ok db known"
    and d: "decode_clash_connections_payload env clock data = Inr live"
    and p: "poll_clash env clock ord db known (Fetched data) = Inr (ok, db', nk)"
  shows "ok" "poll_effect db live db' nk"
    and "\<And>r. r \<in> set (connections db') \<Longrightarrow> open_row r \<Longrightarrow> c_connection_id r \<in> ev_connection_id ` set live"
proof -
  from p d obtain db1 db2 n where ok: "ok"
    and a: "apply_poll_delta env clock ord db live known = Inr (db1, nk)"
    and s: "close_stale_open_connections db1 (Some (map ev_connection_id live)) clock = Inr (db2, n)"
    and db': "db' = prune_closed_poll_baselines db2"
    by (auto simp: poll_clash_def res_simps)
  note 1 = apply_poll_delta_effect [OF ord inv clock known a]
  then have "acct_inv db1" by (simp add: poll_effect_def)
  note cs = close_stale_open_connections_ok [OF s this]
  have "closing (\<lambda>x. x \<in> ev_connection_id ` set live) db1 db2" using cs(1) by simp
  from ok poll_effect_prune [OF poll_effect_closing [OF 1 this]] show "ok" "poll_effect db live db' nk"
    by (simp_all add: db')
  show "c_connection_id r \<in> ev_connection_id ` set live" if "r \<in> set (connections db')" "open_row r" for r
    using cs(2) [of r] that by (simp add: db')
qed

end
