(* ===== verification/AcctMaint.thy ===== *)
theory AcctMaint
  imports AcctPollRun "HOL-Library.List_Lexorder" "HOL-Library.Char_ord" "HOL-Library.Product_Lexorder"
begin

text \<open>
  Maintenance of the accounting database (\<open>lib/vincula-accountd.py\<close>): the daily rollup, the
  bounded retention batches, and the schema migrations 2 to 3 and 3 to 4.  TEXT values compare
  bytewise in SQLite (BINARY collation), which is the lexicographic order on \<open>string\<close>.
\<close>

section \<open>Daily rollup\<close>

definition nonempty_or :: "string option \<Rightarrow> string \<Rightarrow> string" where
  "nonempty_or v d = (case v of None \<Rightarrow> d | Some s \<Rightarrow> if s = [] then d else s)"

definition usage_date :: "conn_row \<Rightarrow> string" where
  "usage_date r = take 10 (case c_closed_at r of Some t \<Rightarrow> t | None \<Rightarrow> c_started_at r)"

definition usage_host :: "conn_row \<Rightarrow> string" where
  "usage_host r = nonempty_or (c_destination_host r) (nonempty_or (c_destination_ip r) ''(unknown)'')"

type_synonym usage_key = "string \<times> string \<times> string option \<times> string"

definition usage_key :: "conn_row \<Rightarrow> usage_key" where
  "usage_key r = (usage_date r, c_user_id r, c_user_tag r, usage_host r)"

text \<open>SQLite's \<open>SUM\<close> over integers fails when the sum leaves 64 bits.\<close>

definition sum_ints :: "int list \<Rightarrow> int res" where
  "sum_ints xs = (let s = sum_list xs in
     if - (2 ^ 63) \<le> s \<and> s \<le> INT64_MAX then Inr s else Inl OperationalError)"

definition usage_group :: "conn_row list \<Rightarrow> usage_key \<Rightarrow> daily_row res" where
  "usage_group rows k = (let g = filter (\<lambda>r. usage_key r = k) rows in
     rbind (sum_ints (map c_upload_bytes g)) (\<lambda>up.
     rbind (sum_ints (map c_download_bytes g)) (\<lambda>dn.
       (case k of (dt, uid, tag, host) \<Rightarrow>
         Inr \<lparr>d_date = dt, d_user_id = uid, d_user_tag = tag, d_destination_host = host,
              d_upload_bytes = up, d_download_bytes = dn, d_connection_count = int (length g)\<rparr>))))"

definition daily_usage_aggregate :: "conn_row list \<Rightarrow> daily_row list res" where
  "daily_usage_aggregate rows = rmap (usage_group rows) (remdups (map usage_key rows))"

definition daily_pk :: "daily_row \<Rightarrow> string \<times> string \<times> string" where
  "daily_pk d = (d_date d, d_user_id d, d_destination_host d)"

definition insert_daily :: "daily_row \<Rightarrow> daily_row list \<Rightarrow> daily_row list res" where
  "insert_daily d ds = (if list_ex (\<lambda>x. daily_pk x = daily_pk d) ds then Inl IntegrityError
     else Inr (ds @ [d]))"

text \<open>An exception rolls back to the savepoint: the caller keeps its database.\<close>

definition rollup_daily_usage :: "acct_db \<Rightarrow> acct_db res" where
  "rollup_daily_usage db =
     rbind (daily_usage_aggregate (connections db)) (\<lambda>rebuild.
     rbind (rfold insert_daily rebuild []) (\<lambda>ds. Inr (db\<lparr>daily_usage := ds\<rparr>)))"

section \<open>Retention\<close>

definition RETENTION_DELETE_BATCH :: int where
  "RETENTION_DELETE_BATCH = 2000"

definition expired_batch :: "acct_db \<Rightarrow> string \<Rightarrow> int \<Rightarrow> conn_row list" where
  "expired_batch db cutoff limit =
     limit_to limit (sort_key c_event_id
       (filter (\<lambda>r. c_last_seen_at r < cutoff \<and> \<not> open_row r) (connections db)))"

definition delete_expired_connections_batch ::
    "acct_db \<Rightarrow> string \<Rightarrow> int \<Rightarrow> (acct_db \<times> nat) res" where
  "delete_expired_connections_batch db cutoff limit =
     (let rows = expired_batch db cutoff limit in
      if rows = [] then Inr (db, 0)
      else rbind (meta_int db META_AUDIT_PRUNED_MAX_EXPORT_SEQ) (\<lambda>m.
        let max_pruned = fold (\<lambda>r m. case c_export_seq r of None \<Rightarrow> m | Some s \<Rightarrow> max m s) rows m;
            ids = map c_event_id rows
        in Inr (meta_set
             (db\<lparr>connections := filter (\<lambda>r. c_event_id r \<notin> set ids) (connections db)\<rparr>)
             META_AUDIT_PRUNED_MAX_EXPORT_SEQ (int_text max_pruned), length ids)))"

definition delete_expired_daily_usage_batch :: "acct_db \<Rightarrow> string \<Rightarrow> int \<Rightarrow> acct_db \<times> nat" where
  "delete_expired_daily_usage_batch db cutoff limit =
     (let keys = limit_to limit (sort (map daily_pk (filter (\<lambda>d. d_date d < cutoff) (daily_usage db))))
      in (db\<lparr>daily_usage := filter (\<lambda>d. daily_pk d \<notin> set keys) (daily_usage db)\<rparr>, length keys))"

text \<open>\<open>now\<close> is the wall clock in seconds; each table's batch is committed on its own.\<close>

definition apply_retention :: "int \<Rightarrow> acct_db \<Rightarrow> int \<Rightarrow> int \<Rightarrow> acct_db res" where
  "apply_retention now db raw_days daily_days =
     rbind (if raw_days > 0
            then rbind (delete_expired_connections_batch db (iso_utc (now - raw_days * 86400))
                   RETENTION_DELETE_BATCH) (\<lambda>(db', _). Inr db')
            else Inr db) (\<lambda>db1.
     let db2 = (if daily_days > 0
                then fst (delete_expired_daily_usage_batch db1 (date_utc (now - daily_days * 86400))
                       RETENTION_DELETE_BATCH)
                else db1)
     in Inr (meta_set db2 ''last_retention_at'' (iso_utc now)))"

section \<open>Schema migrations\<close>

text \<open>A row of the schema 2 table, keyed by \<open>connection_id\<close> alone.\<close>

record legacy_row =
  l_connection_id :: string
  l_user_id :: string
  l_node_id :: string
  l_user_tag :: "string option"
  l_started_at :: string
  l_last_seen_at :: string
  l_closed_at :: "string option"
  l_destination_host :: "string option"
  l_destination_ip :: "string option"
  l_destination_port :: "int option"
  l_network :: "string option"
  l_upload_bytes :: int
  l_download_bytes :: int

definition upgrade_row :: "int \<Rightarrow> legacy_row \<Rightarrow> conn_row" where
  "upgrade_row eid l =
     \<lparr>c_event_id = eid, c_connection_id = l_connection_id l, c_generation = 0,
      c_user_id = l_user_id l, c_node_id = l_node_id l, c_instance_id = None,
      c_user_tag = l_user_tag l, c_started_at = l_started_at l,
      c_last_seen_at = l_last_seen_at l, c_closed_at = l_closed_at l,
      c_destination_host = l_destination_host l, c_destination_ip = l_destination_ip l,
      c_destination_port = l_destination_port l, c_network = l_network l,
      c_upload_bytes = l_upload_bytes l, c_download_bytes = l_download_bytes l,
      c_export_seq = None\<rparr>"

definition migrate_schema_2_to_3 ::
    "legacy_row list \<Rightarrow> (string \<times> string) list \<Rightarrow> daily_row list \<Rightarrow> acct_db" where
  "migrate_schema_2_to_3 rows m daily =
     meta_set \<lparr>connections = map2 (\<lambda>i. upgrade_row (int i)) [1..<Suc (length rows)] rows,
       conn_seq = int (length rows), poll_baseline = [], meta = m, daily_usage = daily\<rparr>
       ''schema_version'' ''3''"

definition number_closed_row :: "int \<Rightarrow> conn_row list \<times> int \<Rightarrow> (conn_row list \<times> int) res" where
  "number_closed_row eid s = (let (rows, seq) = s; n = seq + 1 in
     if list_ex (\<lambda>r. c_export_seq r = Some n \<and> c_event_id r \<noteq> eid) rows
     then Inl IntegrityError
     else Inr (map (\<lambda>r. if c_event_id r = eid then r\<lparr>c_export_seq := Some n\<rparr> else r) rows, n))"

definition max_export_seq :: "conn_row list \<Rightarrow> int" where
  "max_export_seq rows = (case List.map_filter c_export_seq rows of [] \<Rightarrow> 0 | x # xs \<Rightarrow> fold max xs x)"

definition migrate_schema_3_to_4 :: "acct_db \<Rightarrow> acct_db res" where
  "migrate_schema_3_to_4 db =
     (let closed = sort (map c_event_id
            (filter (\<lambda>r. \<not> open_row r \<and> c_export_seq r = None) (connections db)))
      in rbind (rfold number_closed_row closed (connections db, 0)) (\<lambda>(rows, _).
      let db1 = meta_set (db\<lparr>connections := rows\<rparr>) META_AUDIT_EXPORT_SEQ
                  (int_text (max_export_seq rows));
          db2 = (if meta_get db1 META_AUDIT_PRUNED_MAX_EXPORT_SEQ [] = []
                 then meta_set db1 META_AUDIT_PRUNED_MAX_EXPORT_SEQ ''0'' else db1)
      in Inr (meta_set db2 ''schema_version'' ''4'')))"

end
