(* ===== verification/FleetDb.thy ===== *)
theory FleetDb
  imports AcctMaint
begin

text \<open>
  The controller's cache \<open>fleet.db\<close> (\<open>lib/vincula-fleet.py\<close>): imported audit events, sync
  cursors, the daily aggregate and the instance history, with the operations on them.

  A statement that fails leaves its transaction: the functions return the exception, and the
  caller keeps the database it had.  \<open>now_iso\<close> is an argument wherever the code reads the clock.
\<close>

section \<open>Tables\<close>

record audit_row =
  a_node_id :: string
  a_instance_id :: "string option"
  a_event_id :: int
  a_export_seq :: "int option"
  a_connection_id :: string
  a_generation :: int
  a_user_id :: string
  a_user_tag :: "string option"
  a_started_at :: string
  a_last_seen_at :: string
  a_closed_at :: "string option"
  a_destination_host :: "string option"
  a_destination_ip :: "string option"
  a_destination_port :: "int option"
  a_network :: "string option"
  a_upload_bytes :: int
  a_download_bytes :: int
  a_imported_at :: string

record cursor_row =
  cu_instance_id :: "string option"
  cu_last_event_id :: int
  cu_last_export_seq :: int
  cu_cursor_kind :: string
  cu_last_sync_at :: string
  cu_status :: string

record fleet_daily =
  y_date :: string
  y_node_id :: string
  y_instance_id :: "string option"
  y_user_id :: string
  y_user_tag :: "string option"
  y_destination_host :: string
  y_upload_bytes :: int
  y_download_bytes :: int
  y_connection_count :: int

record instance_row =
  i_node_id :: string
  i_instance_id :: string
  i_started_at :: string
  i_retired_at :: "string option"
  i_endpoint :: "string option"
  i_ssh_host :: "string option"
  i_status :: string

record node_snap =
  s_instance_id :: "string option"
  s_name :: string
  s_version :: "string option"
  s_proxy :: string
  s_accounting :: string
  s_clock :: string
  s_synced_at :: string

record user_snap =
  w_node_id :: string
  w_user_id :: string
  w_tag :: string
  w_enabled :: bool
  w_credential_id :: "string option"

record fleet_db =
  audit_events :: "audit_row list"
  sync_cursor :: "(string \<times> cursor_row) list"
  fleet_daily_usage :: "fleet_daily list"
  instance_history :: "instance_row list"
  node_snapshot :: "(string \<times> node_snap) list"
  user_snapshot :: "user_snap list"

definition die :: "string \<Rightarrow> 'a res" where
  "die msg = Inl (SystemExit msg 1)"

definition validate_node_id :: "string \<Rightarrow> unit res" where
  "validate_node_id nid = (if uuid_ok nid then Inr () else die ''invalid node_id'')"

section \<open>Audit import\<close>

definition row_node_id :: "json \<Rightarrow> string option" where
  "row_node_id row = (case row of JObj d \<Rightarrow> optional_text (dget ''node_id'' d) | _ \<Rightarrow> None)"

text \<open>\<open>except (TypeError, ValueError)\<close> around a conversion: any other exception passes.\<close>

definition numeric :: "'a res \<Rightarrow> 'a res" where
  "numeric m = (case m of
     Inl TypeError \<Rightarrow> die ''audit import row has invalid numeric field''
   | Inl (ValueError s) \<Rightarrow> die ''audit import row has invalid numeric field''
   | _ \<Rightarrow> m)"

definition absent :: "json \<Rightarrow> bool" where
  "absent v = (v = JNull \<or> v = JStr [])"

definition need_text :: "string \<Rightarrow> dict \<Rightarrow> string res" where
  "need_text k row = (case optional_text (dget k row) of
     None \<Rightarrow> die (''audit import row missing '' @ k) | Some t \<Rightarrow> Inr t)"

definition audit_insert_params :: "dict \<Rightarrow> string \<Rightarrow> string \<Rightarrow> audit_row res" where
  "audit_insert_params row nid now_iso =
     (if absent (dget ''event_id'' row) then die ''audit import row missing event_id'' else
      rbind (need_text ''connection_id'' row) (\<lambda>cid.
      rbind (need_text ''user_id'' row) (\<lambda>uid.
      rbind (need_text ''started_at'' row) (\<lambda>started.
      rbind (need_text ''last_seen_at'' row) (\<lambda>seen.
      rbind (numeric (py_int (dget ''event_id'' row))) (\<lambda>eid.
      rbind (numeric (int_or_default (dget ''generation'' row) 0)) (\<lambda>gen.
      rbind (numeric (int_or_none (dget ''destination_port'' row))) (\<lambda>port.
      rbind (numeric (int_or_default (dget ''upload_bytes'' row) 0)) (\<lambda>up.
      rbind (numeric (int_or_default (dget ''download_bytes'' row) 0)) (\<lambda>dn.
      if absent (dget ''export_seq'' row) then die ''audit import row missing export_seq'' else
      rbind (numeric (py_int (dget ''export_seq'' row))) (\<lambda>eseq.
      Inr \<lparr>a_node_id = nid, a_instance_id = optional_text (dget ''instance_id'' row),
        a_event_id = eid, a_export_seq = Some eseq, a_connection_id = cid, a_generation = gen,
        a_user_id = uid, a_user_tag = optional_text (dget ''user_tag'' row),
        a_started_at = started, a_last_seen_at = seen,
        a_closed_at = optional_text (dget ''closed_at'' row),
        a_destination_host = optional_text (dget ''destination_host'' row),
        a_destination_ip = optional_text (dget ''destination_ip'' row),
        a_destination_port = port, a_network = optional_text (dget ''network'' row),
        a_upload_bytes = up, a_download_bytes = dn, a_imported_at = now_iso\<rparr>)))))))))))"

definition event_key :: "audit_row \<Rightarrow> string \<times> int" where
  "event_key r = (a_node_id r, a_event_id r)"

text \<open>\<open>INSERT_AUDIT_EVENT_SQL\<close>: an upsert on \<open>(node_id, event_id)\<close>.\<close>

definition upsert_event :: "audit_row \<Rightarrow> audit_row list \<Rightarrow> audit_row list res" where
  "upsert_event r es =
     rbind (bind_ints ([a_event_id r] @ opt_ints (a_export_seq r) @ [a_generation r]
        @ opt_ints (a_destination_port r) @ [a_upload_bytes r, a_download_bytes r])) (\<lambda>_.
     Inr (if list_ex (\<lambda>e. event_key e = event_key r) es
          then map (\<lambda>e. if event_key e = event_key r then r else e) es
          else es @ [r]))"

section \<open>Daily aggregate\<close>

fun max_text :: "string option list \<Rightarrow> string option" where
  "max_text [] = None"
| "max_text (None # xs) = max_text xs"
| "max_text (Some s # xs) = (case max_text xs of None \<Rightarrow> Some s | Some t \<Rightarrow> Some (max s t))"

definition event_date :: "audit_row \<Rightarrow> string" where
  "event_date r = take 10 (a_started_at r)"

definition event_host :: "audit_row \<Rightarrow> string" where
  "event_host r = nonempty_or (a_destination_host r) (nonempty_or (a_destination_ip r) ''(unknown)'')"

definition event_group :: "audit_row \<Rightarrow> string \<times> string \<times> string" where
  "event_group r = (event_date r, a_user_id r, event_host r)"

definition fleet_daily_group :: "string \<Rightarrow> audit_row list \<Rightarrow> string \<times> string \<times> string \<Rightarrow> fleet_daily res" where
  "fleet_daily_group nid es k = (let g = filter (\<lambda>r. event_group r = k) es in
     rbind (sum_ints (map a_upload_bytes g)) (\<lambda>up.
     rbind (sum_ints (map a_download_bytes g)) (\<lambda>dn.
       (case k of (dt, uid, host) \<Rightarrow>
         Inr \<lparr>y_date = dt, y_node_id = nid, y_instance_id = max_text (map a_instance_id g),
           y_user_id = uid, y_user_tag = max_text (map a_user_tag g), y_destination_host = host,
           y_upload_bytes = up, y_download_bytes = dn, y_connection_count = int (length g)\<rparr>))))"

definition node_events :: "fleet_db \<Rightarrow> string \<Rightarrow> audit_row list" where
  "node_events db nid = filter (\<lambda>r. a_node_id r = nid) (audit_events db)"

definition rebuild_daily_usage_for_node :: "fleet_db \<Rightarrow> string \<Rightarrow> fleet_db res" where
  "rebuild_daily_usage_for_node db nid =
     (let es = (if nid = [] then [] else node_events db nid) in
      rbind (rmap (fleet_daily_group nid es) (remdups (map event_group es))) (\<lambda>rows.
      Inr (db\<lparr>fleet_daily_usage :=
        filter (\<lambda>y. y_node_id y \<noteq> nid) (fleet_daily_usage db) @ rows\<rparr>)))"

section \<open>Cursors\<close>

definition cursor_last_export_seq :: "fleet_db \<Rightarrow> string \<Rightarrow> int" where
  "cursor_last_export_seq db nid = (case map_of (sync_cursor db) nid of
     None \<Rightarrow> 0 | Some c \<Rightarrow> cu_last_export_seq c)"

definition cursor_last_event_id :: "fleet_db \<Rightarrow> string \<Rightarrow> int" where
  "cursor_last_event_id db nid = (case map_of (sync_cursor db) nid of
     None \<Rightarrow> 0 | Some c \<Rightarrow> cu_last_event_id c)"

definition cursor_kind :: "fleet_db \<Rightarrow> string \<Rightarrow> string option" where
  "cursor_kind db nid = (case map_of (sync_cursor db) nid of
     None \<Rightarrow> None | Some c \<Rightarrow> text_or_none (cu_cursor_kind c))"

definition put_cursor :: "fleet_db \<Rightarrow> string \<Rightarrow> cursor_row \<Rightarrow> fleet_db res" where
  "put_cursor db nid c = rbind (bind_ints [cu_last_event_id c, cu_last_export_seq c]) (\<lambda>_.
     Inr (db\<lparr>sync_cursor := AList.update nid c (sync_cursor db)\<rparr>))"

definition max_int :: "int list \<Rightarrow> int option" where
  "max_int xs = (case xs of [] \<Rightarrow> None | x # ys \<Rightarrow> Some (fold max ys x))"

record import_result =
  r_inserted :: nat
  r_updated :: nat
  r_last_event_id :: int
  r_last_export_seq :: int

definition check_label :: "string \<Rightarrow> json \<Rightarrow> dict res" where
  "check_label nid row = (case row_node_id row of
     None \<Rightarrow> die ''refusing audit import: row missing node_id''
   | Some n \<Rightarrow> if n \<noteq> nid then die ''audit import node_id mismatch''
       else (case row of JObj d \<Rightarrow> Inr d | _ \<Rightarrow> Inl AttributeError))"

definition check_instance :: "string \<Rightarrow> string option \<Rightarrow> string option res" where
  "check_instance nid iid = (case (case iid of None \<Rightarrow> None | Some t \<Rightarrow> text_or_none t) of
     None \<Rightarrow> Inr None
   | Some inst \<Rightarrow> if \<not> uuid_ok inst then die ''invalid instance_id''
       else if inst = nid then die ''refusing audit import: instance_id equals node_id''
       else Inr (Some inst))"

definition import_audit_batch ::
    "fleet_db \<Rightarrow> string \<Rightarrow> string option \<Rightarrow> json list \<Rightarrow> string \<Rightarrow> int option
      \<Rightarrow> (fleet_db \<times> import_result) res" where
  "import_audit_batch db nid iid rows now_iso next_cursor =
     rbind (validate_node_id nid) (\<lambda>_.
     rbind (check_instance nid iid) (\<lambda>inst.
     rbind (rmap (check_label nid) rows) (\<lambda>labeled.
     rbind (rmap (\<lambda>d. numeric (py_int (dget ''event_id'' d))) labeled) (\<lambda>eids.
     rbind (bind_ints eids) (\<lambda>_.
     rbind (rmap (\<lambda>d. audit_insert_params d nid now_iso) labeled) (\<lambda>params.
     if (case next_cursor of None \<Rightarrow> False | Some n \<Rightarrow> n < 0) then die ''invalid next_cursor'' else
     rbind (rfold upsert_event params (audit_events db)) (\<lambda>es.
     let db1 = db\<lparr>audit_events := es\<rparr> in
     rbind (rebuild_daily_usage_for_node db1 nid) (\<lambda>db2.
     let last_seq = (case next_cursor of Some n \<Rightarrow> n
           | None \<Rightarrow> (case max_int (List.map_filter a_export_seq (node_events db2 nid)) of
               None \<Rightarrow> cursor_last_export_seq db nid | Some n \<Rightarrow> n));
         last_eid = (case max_int (map a_event_id (node_events db2 nid)) of
               None \<Rightarrow> cursor_last_event_id db nid | Some n \<Rightarrow> n);
         existing = (\<lambda>e. list_ex (\<lambda>r. a_node_id r = nid \<and> a_event_id r = e) (audit_events db))
     in rbind (put_cursor db2 nid \<lparr>cu_instance_id = inst, cu_last_event_id = last_eid,
            cu_last_export_seq = last_seq, cu_cursor_kind = ''export_seq'',
            cu_last_sync_at = now_iso, cu_status = ''ok''\<rparr>) (\<lambda>db3.
        Inr (db3, \<lparr>r_inserted = length (filter (\<lambda>e. \<not> existing e) eids),
                   r_updated = length (filter existing eids),
                   r_last_event_id = last_eid, r_last_export_seq = last_seq\<rparr>))))))))))"

section \<open>Validation of a delivered batch\<close>

definition value_error :: "string \<Rightarrow> 'a res" where
  "value_error msg = Inl (ValueError msg)"

definition require_export_int :: "json \<Rightarrow> string \<Rightarrow> int res" where
  "require_export_int v name = (case v of JInt n \<Rightarrow> Inr n
     | _ \<Rightarrow> value_error (''export meta '' @ name @ '' is not an int''))"

text \<open>
  The row loop: the state is the list of export numbers seen so far, the last one first.
\<close>

definition validate_row :: "int \<Rightarrow> string \<Rightarrow> json \<Rightarrow> int list \<Rightarrow> int list res" where
  "validate_row expected_after expected_nid row seqs = (case row of
     JObj d \<Rightarrow>
       (case dget ''event_id'' d of
          JInt eid \<Rightarrow>
            (case dget ''export_seq'' d of
               JInt s \<Rightarrow>
                 if s \<le> expected_after then value_error ''export_seq <= after''
                 else if s \<in> set seqs then value_error ''duplicate export_seq''
                 else if (case seqs of [] \<Rightarrow> False | p # _ \<Rightarrow> s \<le> p)
                 then value_error ''export_seq not strictly increasing''
                 else (case row_node_id row of
                     None \<Rightarrow> value_error ''node_id is missing''
                   | Some n \<Rightarrow> if n \<noteq> expected_nid then value_error ''row node_id mismatch''
                       else Inr (s # seqs))
             | _ \<Rightarrow> value_error ''export_seq is not an int'')
        | _ \<Rightarrow> value_error ''event_id is not an int'')
   | _ \<Rightarrow> value_error ''row is not an object'')"

definition check_meta :: "dict \<Rightarrow> int \<Rightarrow> nat \<Rightarrow> string \<Rightarrow> string option \<Rightarrow> unit res" where
  "check_meta m expected_after delivered expected_nid expected_iid =
     (if dget ''ok'' m \<noteq> JBool True then value_error ''export meta ok is not true''
      else if truthy (dget ''error'' m) then value_error ''export meta error''
      else if \<not> py_eq_int (dget ''protocol_version'' m) 2 then value_error ''export protocol_version''
      else if optional_text (dget ''cursor_kind'' m) \<noteq> Some ''export_seq''
      then value_error ''export cursor_kind''
      else
      rbind (require_export_int (dget ''after'' m) ''after'') (\<lambda>meta_after.
      if meta_after \<noteq> expected_after then value_error ''export meta after != cursor'' else
      rbind (require_export_int (dget ''count'' m) ''count'') (\<lambda>cnt.
      if cnt \<noteq> int delivered then value_error ''export meta count != delivered'' else
      (case optional_text (dget ''node_id'' m) of
         None \<Rightarrow> value_error ''export meta node_id is missing''
       | Some n \<Rightarrow>
         if n \<noteq> expected_nid then value_error ''export meta node_id mismatch''
         else (case expected_iid of
             None \<Rightarrow> Inr ()
           | Some i \<Rightarrow>
               if i = [] then Inr ()
               else (case optional_text (dget ''instance_id'' m) of
                   None \<Rightarrow> value_error ''export meta instance_id is missing''
                 | Some mi \<Rightarrow> if mi \<noteq> i then value_error ''export meta instance_id mismatch''
                     else Inr ()))))))"

definition validate_export_batch ::
    "json \<Rightarrow> json list \<Rightarrow> int \<Rightarrow> string \<Rightarrow> string option \<Rightarrow> int res" where
  "validate_export_batch meta_v rows expected_after expected_nid expected_iid = (case meta_v of
     JObj m \<Rightarrow>
       rbind (check_meta m expected_after (length rows) expected_nid expected_iid) (\<lambda>_.
       rbind (rfold (validate_row expected_after expected_nid) rows []) (\<lambda>seqs.
       rbind (case seqs of
           [] \<Rightarrow> Inr ()
         | s # _ \<Rightarrow> if dget ''max_export_seq'' m = JNull then Inr ()
             else rbind (require_export_int (dget ''max_export_seq'' m) ''max_export_seq'') (\<lambda>mx.
               if s > mx then value_error ''row export_seq exceeds meta max_export_seq'' else Inr ())) (\<lambda>_.
       rbind (require_export_int (dget ''next_cursor'' m) ''next_cursor'') (\<lambda>next_cursor.
       case seqs of
         s # _ \<Rightarrow> if next_cursor \<noteq> s then value_error ''next_cursor != last export_seq'' else Inr next_cursor
       | [] \<Rightarrow> if next_cursor \<noteq> expected_after then value_error ''next_cursor != after'' else Inr next_cursor))))
   | _ \<Rightarrow> value_error ''missing export meta'')"

section \<open>Cursor status and reseed\<close>

definition write_sync_cursor ::
    "fleet_db \<Rightarrow> string \<Rightarrow> string option \<Rightarrow> int \<Rightarrow> string \<Rightarrow> string \<Rightarrow> int option \<Rightarrow> string option
      \<Rightarrow> fleet_db res" where
  "write_sync_cursor db nid iid last_event_id status now_iso last_export_seq kind =
     put_cursor db nid \<lparr>cu_instance_id = iid, cu_last_event_id = last_event_id,
       cu_last_export_seq = (case last_export_seq of None \<Rightarrow> 0 | Some n \<Rightarrow> n),
       cu_cursor_kind = (case kind of None \<Rightarrow> ''export_seq'' | Some k \<Rightarrow> if k = [] then ''export_seq'' else k),
       cu_last_sync_at = now_iso, cu_status = status\<rparr>"

definition mark_cursor_status ::
    "fleet_db \<Rightarrow> string \<Rightarrow> string option \<Rightarrow> string \<Rightarrow> string \<Rightarrow> (fleet_db \<times> int) res" where
  "mark_cursor_status db nid iid status now_iso =
     (let seq = cursor_last_export_seq db nid;
          eid = cursor_last_event_id db nid;
          row = map_of (sync_cursor db) nid;
          inst = (case iid of Some i \<Rightarrow> Some i
            | None \<Rightarrow> (case row of None \<Rightarrow> None | Some c \<Rightarrow> cu_instance_id c));
          kind = (case row of None \<Rightarrow> ''export_seq''
            | Some c \<Rightarrow> (case text_or_none (cu_cursor_kind c) of None \<Rightarrow> ''export_seq'' | Some k \<Rightarrow> k))
      in rbind (write_sync_cursor db nid inst eid status now_iso (Some seq) (Some kind)) (\<lambda>db'.
         Inr (db', seq)))"

definition reseed_node_local :: "fleet_db \<Rightarrow> string \<Rightarrow> string option \<Rightarrow> string \<Rightarrow> fleet_db res" where
  "reseed_node_local db nid iid now_iso =
     rbind (validate_node_id nid) (\<lambda>_.
       write_sync_cursor
         (db\<lparr>audit_events := filter (\<lambda>r. a_node_id r \<noteq> nid) (audit_events db),
             fleet_daily_usage := filter (\<lambda>y. y_node_id y \<noteq> nid) (fleet_daily_usage db)\<rparr>)
         nid iid 0 ''ok'' now_iso (Some 0) (Some ''export_seq''))"

end
