(* ===== verification/InstanceHistory.thy ===== *)
theory InstanceHistory
  imports FleetDb
begin

text \<open>
  The instance history of the controller (\<open>lib/vincula-fleet.py\<close>): which server instance ran a
  node, in the table \<open>instance_history\<close> and in the portable JSONL file.

  The connection is in autocommit mode, so an exception keeps what was written before it.  An
  action therefore returns the world it leaves together with its result.  \<open>app\<close> says whether an
  append to the portable file succeeds.
\<close>

section \<open>The controller's durable state, and actions on it\<close>

record hist_line =
  h_node_id :: string
  h_instance_id :: string
  h_started_at :: string
  h_retired_at :: "string option"
  h_endpoint :: "string option"
  h_reason :: string

record world =
  fleet :: fleet_db
  portable_history :: "hist_line list"

type_synonym 'a act = "world \<Rightarrow> world \<times> 'a res"

definition aret :: "'a \<Rightarrow> 'a act" where
  "aret a w = (w, Inr a)"

definition araise :: "exc \<Rightarrow> 'a act" where
  "araise e w = (w, Inl e)"

definition abind :: "'a act \<Rightarrow> ('a \<Rightarrow> 'b act) \<Rightarrow> 'b act" where
  "abind m f w = (case m w of (w', Inl e) \<Rightarrow> (w', Inl e) | (w', Inr a) \<Rightarrow> f a w')"

text \<open>One statement or one transaction: all of it or nothing.\<close>

definition atomically :: "(fleet_db \<Rightarrow> (fleet_db \<times> 'a) res) \<Rightarrow> 'a act" where
  "atomically f w = (case f (fleet w) of Inl e \<Rightarrow> (w, Inl e) | Inr (d, a) \<Rightarrow> (w\<lparr>fleet := d\<rparr>, Inr a))"

definition append_instance_history_line :: "(hist_line \<Rightarrow> bool) \<Rightarrow> hist_line \<Rightarrow> unit act" where
  "append_instance_history_line app l w =
     (if app l then (w\<lparr>portable_history := portable_history w @ [l]\<rparr>, Inr ())
      else (w, die ''cannot append instance history''))"

fun append_each :: "(hist_line \<Rightarrow> bool) \<Rightarrow> hist_line list \<Rightarrow> unit act" where
  "append_each app [] = aret ()"
| "append_each app (l # ls) = abind (append_instance_history_line app l) (\<lambda>_. append_each app ls)"

section \<open>Operations\<close>

definition INSTANCE_STATUSES :: "string list" where
  "INSTANCE_STATUSES = [''active'', ''retired'']"

definition is_active_of :: "string \<Rightarrow> instance_row \<Rightarrow> bool" where
  "is_active_of nid r = (i_node_id r = nid \<and> i_status r = ''active'')"

definition insert_instance ::
    "string \<Rightarrow> string \<Rightarrow> string \<Rightarrow> string option \<Rightarrow> string option \<Rightarrow> string \<Rightarrow> string option
      \<Rightarrow> fleet_db \<Rightarrow> fleet_db res" where
  "insert_instance nid iid started_at endpoint ssh_host status retired_at db =
     rbind (validate_node_id nid) (\<lambda>_.
     if \<not> uuid_ok iid then die ''invalid instance_id''
     else if iid = nid then die ''instance_id must not equal node_id''
     else if status \<notin> set INSTANCE_STATUSES then die ''invalid instance_history status''
     else if list_ex (\<lambda>r. i_node_id r = nid \<and> i_instance_id r = iid) (instance_history db)
     then Inl IntegrityError
     else Inr (db\<lparr>instance_history := instance_history db @
       [\<lparr>i_node_id = nid, i_instance_id = iid, i_started_at = started_at, i_retired_at = retired_at,
         i_endpoint = (case endpoint of None \<Rightarrow> None | Some t \<Rightarrow> text_or_none t),
         i_ssh_host = (case ssh_host of None \<Rightarrow> None | Some t \<Rightarrow> text_or_none t),
         i_status = status\<rparr>]\<rparr>))"

definition retired_line :: "string \<Rightarrow> instance_row \<Rightarrow> hist_line" where
  "retired_line ts r = \<lparr>h_node_id = i_node_id r, h_instance_id = i_instance_id r,
     h_started_at = i_started_at r, h_retired_at = Some ts, h_endpoint = i_endpoint r,
     h_reason = ''retired''\<rparr>"

definition first_sight_line :: "string \<Rightarrow> string \<Rightarrow> string \<Rightarrow> string option \<Rightarrow> string option \<Rightarrow> hist_line" where
  "first_sight_line nid iid ts endpoint ssh_host =
     \<lparr>h_node_id = nid, h_instance_id = iid, h_started_at = ts, h_retired_at = None,
      h_endpoint = (case (case endpoint of None \<Rightarrow> None | Some t \<Rightarrow> text_or_none t) of
        Some t \<Rightarrow> Some t | None \<Rightarrow> (case ssh_host of None \<Rightarrow> None | Some t \<Rightarrow> text_or_none t)),
      h_reason = ''sync-first-sight''\<rparr>"

definition retire_where :: "(instance_row \<Rightarrow> bool) \<Rightarrow> string \<Rightarrow> fleet_db \<Rightarrow> fleet_db" where
  "retire_where P ts db = db\<lparr>instance_history := map (\<lambda>r. if P r
     then r\<lparr>i_status := ''retired'', i_retired_at := Some ts\<rparr> else r) (instance_history db)\<rparr>"

definition retire_active_instance :: "(hist_line \<Rightarrow> bool) \<Rightarrow> string \<Rightarrow> string \<Rightarrow> unit act" where
  "retire_active_instance app nid ts w =
     (case validate_node_id nid of Inl e \<Rightarrow> (w, Inl e)
      | Inr _ \<Rightarrow>
         (let rows = filter (is_active_of nid) (instance_history (fleet w))
          in append_each app (map (retired_line ts) rows)
               (w\<lparr>fleet := retire_where (is_active_of nid) ts (fleet w)\<rparr>)))"

definition mark_instance_retired :: "(hist_line \<Rightarrow> bool) \<Rightarrow> string \<Rightarrow> string \<Rightarrow> string \<Rightarrow> unit act" where
  "mark_instance_retired app nid iid ts w =
     (case validate_node_id nid of Inl e \<Rightarrow> (w, Inl e)
      | Inr _ \<Rightarrow>
         (let P = (\<lambda>r. is_active_of nid r \<and> i_instance_id r = iid);
              w' = w\<lparr>fleet := retire_where P ts (fleet w)\<rparr>
          in (case find P (instance_history (fleet w)) of
                None \<Rightarrow> (w', Inr ())
              | Some r \<Rightarrow> append_instance_history_line app (retired_line ts r) w')))"

definition record_instance ::
    "(hist_line \<Rightarrow> bool) \<Rightarrow> string \<Rightarrow> string \<Rightarrow> string option \<Rightarrow> string option \<Rightarrow> string \<Rightarrow> unit act" where
  "record_instance app nid instance_id endpoint ssh_host ts w =
     (case text_or_none instance_id of
        None \<Rightarrow> (w, Inr ())
      | Some iid \<Rightarrow>
         if \<not> uuid_ok iid then (w, Inr ())
         else if iid = nid then (w, die ''instance_id must not equal node_id'')
         else if list_ex (\<lambda>r. i_node_id r = nid \<and> i_instance_id r = iid) (instance_history (fleet w))
         then (w, Inr ())
         else abind (retire_active_instance app nid ts) (\<lambda>_.
              abind (atomically (\<lambda>d. rbind (insert_instance nid iid ts endpoint ssh_host ''active'' None d)
                       (\<lambda>d'. Inr (d', ())))) (\<lambda>_.
              append_instance_history_line app (first_sight_line nid iid ts endpoint ssh_host))) w)"

text \<open>\<open>_record_instance_db_pending\<close>: the database part, inside the caller's transaction.\<close>

definition record_instance_db_pending ::
    "string \<Rightarrow> string \<Rightarrow> string option \<Rightarrow> string option \<Rightarrow> string \<Rightarrow> fleet_db
      \<Rightarrow> (fleet_db \<times> hist_line list) res" where
  "record_instance_db_pending nid instance_id endpoint ssh_host ts db =
     (case text_or_none instance_id of
        None \<Rightarrow> Inr (db, [])
      | Some iid \<Rightarrow>
         if \<not> uuid_ok iid then Inr (db, [])
         else if iid = nid then die ''instance_id must not equal node_id''
         else if list_ex (\<lambda>r. i_node_id r = nid \<and> i_instance_id r = iid) (instance_history db)
         then Inr (db, [])
         else rbind (validate_node_id nid) (\<lambda>_.
              rbind (insert_instance nid iid ts endpoint ssh_host ''active'' None
                       (retire_where (is_active_of nid) ts db)) (\<lambda>db'.
              Inr (db', map (retired_line ts) (filter (is_active_of nid) (instance_history db))
                        @ [first_sight_line nid iid ts endpoint ssh_host]))))"

definition list_instances :: "fleet_db \<Rightarrow> string \<Rightarrow> instance_row list" where
  "list_instances db nid = sort_key i_started_at (filter (\<lambda>r. i_node_id r = nid) (instance_history db))"

text \<open>\<open>backfill_instance_history\<close>: \<open>hosts\<close> gives the ssh host the registry has for a node.\<close>

definition backfill_step ::
    "(string \<times> string) list \<Rightarrow> string \<Rightarrow> string \<times> cursor_row \<Rightarrow> fleet_db \<Rightarrow> fleet_db res" where
  "backfill_step hosts now p db = (let (nid, c) = p in
     case (case cu_instance_id c of None \<Rightarrow> None | Some t \<Rightarrow> text_or_none t) of
       None \<Rightarrow> Inr db
     | Some iid \<Rightarrow>
         if \<not> uuid_ok nid \<or> \<not> uuid_ok iid then Inr db
         else if iid = nid then Inr db
         else insert_instance nid iid
                (case text_or_none (cu_last_sync_at c) of Some t \<Rightarrow> t | None \<Rightarrow> now)
                None (map_of hosts nid) ''active'' None db)"

definition backfill_instance_history :: "(string \<times> string) list \<Rightarrow> string \<Rightarrow> fleet_db \<Rightarrow> fleet_db res" where
  "backfill_instance_history hosts now db = rfold (backfill_step hosts now) (sync_cursor db) db"

section \<open>At most one active instance\<close>

definition history_inv :: "fleet_db \<Rightarrow> bool" where
  "history_inv db \<longleftrightarrow> distinct (map (\<lambda>r. (i_node_id r, i_instance_id r)) (instance_history db))
     \<and> (\<forall>r \<in> set (instance_history db). \<forall>r' \<in> set (instance_history db).
          i_status r = ''active'' \<longrightarrow> i_status r' = ''active'' \<longrightarrow> i_node_id r = i_node_id r' \<longrightarrow> r = r')
     \<and> (\<forall>r \<in> set (instance_history db). i_instance_id r \<noteq> i_node_id r)"

lemma retire_where_inv:
  assumes inv: "history_inv db" shows "history_inv (retire_where P ts db)"
proof -
  define h where "h = (\<lambda>r. if P r then r\<lparr>i_status := ''retired'', i_retired_at := Some ts\<rparr> else r)"
  have k: "i_node_id (h r) = i_node_id r" "i_instance_id (h r) = i_instance_id r"
    "i_status (h r) = ''active'' \<Longrightarrow> i_status r = ''active''" for r by (auto simp: h_def split: if_splits)
  have rows: "instance_history (retire_where P ts db) = map h (instance_history db)"
    by (simp add: retire_where_def h_def)
  show ?thesis
    unfolding history_inv_def rows
  proof (intro conjI ballI impI)
    show "distinct (map (\<lambda>r. (i_node_id r, i_instance_id r)) (map h (instance_history db)))"
      using inv by (simp add: history_inv_def comp_def k(1,2))
  next
    fix x x' assume a: "x \<in> set (map h (instance_history db))" "x' \<in> set (map h (instance_history db))"
      "i_status x = ''active''" "i_status x' = ''active''" "i_node_id x = i_node_id x'"
    then obtain r r' where r: "r \<in> set (instance_history db)" "x = h r"
      "r' \<in> set (instance_history db)" "x' = h r'" by auto
    with a k have "i_status r = ''active''" "i_status r' = ''active''" "i_node_id r = i_node_id r'" by simp_all
    with inv r(1,3) have "r = r'" unfolding history_inv_def by blast
    with r show "x = x'" by simp
  next
    fix x assume "x \<in> set (map h (instance_history db))"
    with inv show "i_instance_id x \<noteq> i_node_id x" by (auto simp: history_inv_def k)
  qed
qed

lemma insert_after_retire:
  assumes inv: "history_inv db" and none: "\<forall>r \<in> set (instance_history db). \<not> is_active_of nid r"
    and i: "insert_instance nid iid ts ep host ''active'' rt db = Inr db'"
  shows "history_inv db'"
proof -
  define row where "row = \<lparr>i_node_id = nid, i_instance_id = iid, i_started_at = ts, i_retired_at = rt,
         i_endpoint = (case ep of None \<Rightarrow> None | Some t \<Rightarrow> text_or_none t),
         i_ssh_host = (case host of None \<Rightarrow> None | Some t \<Rightarrow> text_or_none t), i_status = ''active''\<rparr>"
  have row: "i_node_id row = nid" "i_instance_id row = iid" "i_status row = ''active''"
    by (simp_all add: row_def)
  from i have db': "db' = db\<lparr>instance_history := instance_history db @ [row]\<rparr>" and ne: "iid \<noteq> nid"
    and fresh: "\<not> list_ex (\<lambda>r. i_node_id r = nid \<and> i_instance_id r = iid) (instance_history db)"
    by (auto simp: insert_instance_def die_def validate_node_id_def row_def split: if_splits)
  show ?thesis
    using inv none row ne fresh
    by (auto simp: history_inv_def db' is_active_of_def list_ex_iff)
qed

lemma retired_none_active:
  "\<forall>r \<in> set (instance_history (retire_where (is_active_of nid) ts db)). \<not> is_active_of nid r"
proof
  fix r assume "r \<in> set (instance_history (retire_where (is_active_of nid) ts db))"
  then have "r \<in> (\<lambda>q. if is_active_of nid q
      then q\<lparr>i_status := ''retired'', i_retired_at := Some ts\<rparr> else q) ` set (instance_history db)"
    by (simp add: retire_where_def)
  then obtain q where q: "r = (if is_active_of nid q
      then q\<lparr>i_status := ''retired'', i_retired_at := Some ts\<rparr> else q)"
    by (rule imageE)
  show "\<not> is_active_of nid r"
    by (cases "is_active_of nid q") (simp_all add: q is_active_of_def)
qed

lemma append_each_fleet: "fleet (fst (append_each app ls w)) = fleet w"
  by (induction ls arbitrary: w)
     (auto simp: aret_def abind_def append_instance_history_line_def die_def split: prod.split sum.split)

lemma record_instance_inv:
  assumes inv: "history_inv (fleet w)"
  shows "history_inv (fleet (fst (record_instance app nid iid0 ep host ts w)))"
proof (cases "text_or_none iid0")
  case None
  with inv show ?thesis by (simp add: record_instance_def)
next
  case (Some iid)
  define w1 where "w1 = fst (retire_active_instance app nid ts w)"
  define r1 where "r1 = snd (retire_active_instance app nid ts w)"
  have ra: "retire_active_instance app nid ts w = (w1, r1)" by (simp add: w1_def r1_def)
  have w1: "fleet w1 = fleet w \<or> fleet w1 = retire_where (is_active_of nid) ts (fleet w)"
    and ok: "r1 = Inr () \<Longrightarrow> fleet w1 = retire_where (is_active_of nid) ts (fleet w)"
    by (cases "validate_node_id nid";
        simp add: w1_def r1_def retire_active_instance_def Let_def append_each_fleet)+
  have inv1: "history_inv (fleet w1)" using w1 inv retire_where_inv by auto
  show ?thesis
  proof (cases r1)
    case (Inl e)
    then have "fst (record_instance app nid iid0 ep host ts w) \<in> {w, w1}"
      using Some ra by (auto simp: record_instance_def abind_def)
    with inv inv1 show ?thesis by auto
  next
    case (Inr u)
    then have f1: "fleet w1 = retire_where (is_active_of nid) ts (fleet w)" using ok by simp
    show ?thesis
    proof (cases "insert_instance nid iid ts ep host ''active'' None (fleet w1)")
      case e: (Inl e)
      have "fst (record_instance app nid iid0 ep host ts w) \<in> {w, w1}"
        using Some ra Inr e by (auto simp: record_instance_def abind_def atomically_def)
      with inv inv1 show ?thesis by auto
    next
      case d: (Inr d)
      have "history_inv d"
        by (rule insert_after_retire [OF inv1 _ d]) (unfold f1, rule retired_none_active)
      moreover have "fleet (fst (record_instance app nid iid0 ep host ts w)) \<in> {fleet w, d}"
        using Some ra Inr d
        by (auto simp: record_instance_def abind_def atomically_def append_instance_history_line_def)
      ultimately show ?thesis using inv by auto
    qed
  qed
qed

lemma record_pending_inv:
  assumes inv: "history_inv db"
    and r: "record_instance_db_pending nid iid0 ep host ts db = Inr (db', ls)"
  shows "history_inv db'"
proof (cases "db' = db")
  case False
  with r obtain iid where
    "insert_instance nid iid ts ep host ''active'' None (retire_where (is_active_of nid) ts db) = Inr db'"
    by (auto simp: record_instance_db_pending_def die_def res_simps split: option.splits if_splits)
  with insert_after_retire [OF retire_where_inv [OF inv] retired_none_active] show ?thesis by blast
qed (use inv in simp)

end
