(* ===== verification/FleetSync.thy ===== *)
theory FleetSync
  imports InstanceHistory
begin

text \<open>
  \<open>vcl-fleet sync\<close> (\<open>lib/vincula-fleet.py\<close>): \<open>sync_one_node\<close>, \<open>sync_full_one_node\<close>, target
  selection, the report and \<open>run_sync_payload\<close>.

  What SSH returns is input, and the result rows leave out the informational copies of meta
  fields (earliest, maximum and pruned numbers).  A process result carries its exit code, its output as the lines
  the parsers see (blank, not JSON, or a JSON value) and the text \<open>_ssh_failure_detail\<close> takes
  from it, which is never empty (it ends with \<open>exit N\<close>).
\<close>

section \<open>Remote results\<close>

datatype line = Blank | NotJson | Json json

record proc =
  p_code :: int
  p_out :: "line list"
  p_err :: "line list"
  p_stdout_json :: "json option"
  p_detail :: string

record remote =
  rm_identity :: proc
  rm_status :: proc
  rm_users :: proc
  rm_export :: "int \<Rightarrow> bool \<Rightarrow> proc"

record node =
  n_name :: string
  n_node_id :: string
  n_ssh_host :: string
  n_status :: "string option"
  n_enabled :: bool

definition node_lifecycle_status :: "node \<Rightarrow> string" where
  "node_lifecycle_status n = (case n_status n of
     Some s \<Rightarrow> if s \<in> {''active'', ''disabled'', ''retired''} then s
       else if n_enabled n then ''active'' else ''disabled''
   | None \<Rightarrow> if n_enabled n then ''active'' else ''disabled'')"

text \<open>\<open>ssh_remote_json\<close> with the defaults the sync path uses.\<close>

definition ssh_remote_json :: "proc \<Rightarrow> string \<times> dict option \<times> string" where
  "ssh_remote_json p =
     (if p_code p = 255 then (''FAIL'', None, p_detail p)
      else (case p_stdout_json p of
          Some (JObj d) \<Rightarrow> (''OK'', Some d, if p_code p \<noteq> 0 then p_detail p else [])
        | _ \<Rightarrow> (''OK'', None, if p_detail p = [] then ''remote JSON missing or invalid'' else p_detail p)))"

text \<open>\<open>parse_export_jsonl\<close> and \<open>parse_export_meta\<close> on lines.\<close>

fun parse_export_jsonl :: "line list \<Rightarrow> json list res" where
  "parse_export_jsonl [] = Inr []"
| "parse_export_jsonl (Blank # ls) = parse_export_jsonl ls"
| "parse_export_jsonl (NotJson # ls) = Inl (ValueError ''JSONL line is not JSON'')"
| "parse_export_jsonl (Json v # ls) = (case v of
     JObj d \<Rightarrow> rbind (parse_export_jsonl ls) (\<lambda>vs. Inr (v # vs))
   | _ \<Rightarrow> Inl (ValueError ''JSONL line is not an object''))"

definition is_meta :: "line \<Rightarrow> bool" where
  "is_meta l = (case l of Json (JObj d) \<Rightarrow> has_key ''after'' d \<or> has_key ''error'' d \<or> has_key ''ok'' d
     | _ \<Rightarrow> False)"

definition parse_export_meta :: "line list \<Rightarrow> dict option" where
  "parse_export_meta ls = (case find is_meta (rev ls) of Some (Json (JObj d)) \<Rightarrow> Some d | _ \<Rightarrow> None)"

section \<open>Results\<close>

record sync_row =
  sr_name :: string
  sr_node_id :: string
  sr_instance_id :: "string option"
  sr_status :: string
  sr_after :: int
  sr_last_event_id :: int
  sr_last_export_seq :: int
  sr_inserted :: nat
  sr_updated :: nat
  sr_error :: "string option"
  sr_remediation :: "string option"

definition remediation_sync_reseed :: "string \<Rightarrow> string" where
  "remediation_sync_reseed name = ''vcl-fleet sync --reseed '' @ name"

definition sync_result ::
    "node \<Rightarrow> string \<Rightarrow> int \<Rightarrow> int \<Rightarrow> int \<Rightarrow> nat \<Rightarrow> nat \<Rightarrow> string option \<Rightarrow> string option \<Rightarrow> sync_row" where
  "sync_result n status after leid lseq ins upd iid err =
     \<lparr>sr_name = n_name n, sr_node_id = n_node_id n, sr_instance_id = iid, sr_status = status,
      sr_after = after, sr_last_event_id = leid, sr_last_export_seq = lseq,
      sr_inserted = ins, sr_updated = upd, sr_error = err,
      sr_remediation =
        (if status = ''expired'' \<or> err = Some ''CURSOR_AHEAD'' \<or> err = Some ''CURSOR_PROTOCOL_MISMATCH''
         then Some (remediation_sync_reseed (n_name n))
         else if status = ''error'' \<and> (case err of None \<Rightarrow> False | Some e \<Rightarrow> e \<noteq> [] \<and>
             (contains ''node_id'' e \<or> contains ''instance_id'' e \<or> contains ''unlabeled'' e
              \<or> contains ''missing node_id'' e))
         then Some (remediation_sync_reseed (n_name n)) else None)\<rparr>"

section \<open>Incremental sync of one node\<close>

definition fail_sync ::
    "node \<Rightarrow> string \<Rightarrow> int \<Rightarrow> string option \<Rightarrow> string \<Rightarrow> string option \<Rightarrow> string \<Rightarrow> sync_row act" where
  "fail_sync n now_iso after iid status err cursor_status =
     abind (atomically (\<lambda>d. mark_cursor_status d (n_node_id n) iid cursor_status now_iso)) (\<lambda>lseq w.
       (w, Inr (sync_result n status after (cursor_last_event_id (fleet w) (n_node_id n)) lseq 0 0 iid err)))"

definition err_text :: "exc \<Rightarrow> string" where
  "err_text e = (case e of ValueError m \<Rightarrow> m | SystemExit m c \<Rightarrow> int_text c | _ \<Rightarrow> ''error'')"

text \<open>The part after the identity check: export, validate, import.\<close>

definition pull_and_import ::
    "node \<Rightarrow> remote \<Rightarrow> string \<Rightarrow> bool \<Rightarrow> int \<Rightarrow> string option \<Rightarrow> sync_row act" where
  "pull_and_import n rm now_iso stamp after iid =
     (let p = rm_export rm after stamp;
          meta_d = parse_export_meta (p_err p);
          fail = (\<lambda>status err cs. fail_sync n now_iso after iid status err cs);
          meta_error = (case meta_d of None \<Rightarrow> None | Some m \<Rightarrow>
             (case dget ''error'' m of JStr s \<Rightarrow> text_or_none s | _ \<Rightarrow> None))
      in if p_code p = 255 then fail ''error'' (Some (p_detail p)) ''error''
         else if meta_error = Some ''CURSOR_EXPIRED'' then fail ''expired'' (Some ''CURSOR_EXPIRED'') ''expired''
         else if meta_error = Some ''CURSOR_AHEAD'' then fail ''error'' (Some ''CURSOR_AHEAD'') ''error''
         else if p_code p \<noteq> 0 then fail ''error'' (Some (p_detail p)) ''error''
         else (case parse_export_jsonl (p_out p) of
             Inl e \<Rightarrow> fail ''error'' (Some (err_text e)) ''error''
           | Inr rows \<Rightarrow>
             (case validate_export_batch (case meta_d of None \<Rightarrow> JNull | Some m \<Rightarrow> JObj m)
                     rows after (n_node_id n) iid of
                Inl e \<Rightarrow> fail ''error'' (Some (err_text e)) ''error''
              | Inr next_cursor \<Rightarrow> (\<lambda>w.
                  (case import_audit_batch (fleet w) (n_node_id n) iid rows now_iso (Some next_cursor) of
                     Inl (SystemExit m c) \<Rightarrow>
                       fail ''error'' (Some (''audit import failed (exit '' @ int_text c @ '')'')) ''error'' w
                   | Inl e \<Rightarrow> (w, Inl e)
                   | Inr (d, res) \<Rightarrow> (w\<lparr>fleet := d\<rparr>, Inr (sync_result n ''ok'' after (r_last_event_id res)
                       (r_last_export_seq res) (r_inserted res) (r_updated res) iid None)))))))"

definition sync_one_node ::
    "(hist_line \<Rightarrow> bool) \<Rightarrow> node \<Rightarrow> remote \<Rightarrow> string \<Rightarrow> bool \<Rightarrow> sync_row act" where
  "sync_one_node app n rm now_iso stamp w =
     (let nid = n_node_id n;
          row = map_of (sync_cursor (fleet w)) nid;
          after = (case row of None \<Rightarrow> 0 | Some c \<Rightarrow> cu_last_export_seq c);
          prior_event = (case row of None \<Rightarrow> 0 | Some c \<Rightarrow> cu_last_event_id c);
          kind = (case row of None \<Rightarrow> ''export_seq''
            | Some c \<Rightarrow> (case text_or_none (cu_cursor_kind c) of None \<Rightarrow> ''event_id'' | Some k \<Rightarrow> k));
          life = node_lifecycle_status n
      in if kind \<noteq> ''export_seq''
         then (w, Inr (sync_result n ''error'' after prior_event after 0 0
                 (case row of None \<Rightarrow> None | Some c \<Rightarrow> cu_instance_id c) (Some ''CURSOR_PROTOCOL_MISMATCH'')))
         else if life = ''retired'' then (w, Inr (sync_result n ''RETIRED'' after prior_event after 0 0 None None))
         else if life \<noteq> ''active'' \<or> \<not> n_enabled n
         then (w, Inr (sync_result n ''DISABLED'' after prior_event after 0 0 None None))
         else (case ssh_remote_json (rm_identity rm) of
             (state, ident_opt, detail) \<Rightarrow>
               (case (if state = ''OK'' then ident_opt else None) of
                  None \<Rightarrow> fail_sync n now_iso after None ''error''
                    (Some (if detail = [] then ''identity unreachable'' else detail)) ''error'' w
                | Some ident \<Rightarrow>
                    (let iid = optional_text (dget ''instance_id'' ident) in
                     if dget ''node_id'' ident \<noteq> JStr nid
                     then fail_sync n now_iso after iid ''error'' (Some ''registry node_id mismatch'') ''error'' w
                     else abind (case iid of None \<Rightarrow> aret ()
                            | Some i \<Rightarrow> record_instance app nid i None (text_or_none (n_ssh_host n)) now_iso)
                          (\<lambda>_. pull_and_import n rm now_iso stamp after iid) w))))"

section \<open>Full sync of one node\<close>

definition classify_proxy :: "dict \<Rightarrow> string" where
  "classify_proxy d = (case dget ''proxy'' d of
     JObj p \<Rightarrow> if dget ''ok'' p = JBool True then ''OK'' else ''FAIL'' | _ \<Rightarrow> ''FAIL'')"

definition classify_accounting :: "dict \<Rightarrow> string" where
  "classify_accounting d = (case dget ''accounting'' d of
     JObj a \<Rightarrow> if dget ''heartbeat'' a = JStr ''stale'' then ''STALE''
       else if dget ''ok'' a = JBool True then ''OK'' else ''FAIL''
   | _ \<Rightarrow> ''FAIL'')"

definition ssh_error :: "int \<Rightarrow> string \<Rightarrow> string" where
  "ssh_error prefix_rc detail =
     (let t = strip (if detail = [] then ''failed'' else detail);
          text = (if t = [] then ''failed'' else t)
      in if starts_with ''ssh exit '' text then text
         else ''ssh exit '' @ int_text prefix_rc @ '': '' @ text)"

definition list_users_on_node :: "proc \<Rightarrow> string + dict list" where
  "list_users_on_node p = (case ssh_remote_json p of
     (state, payload, detail) \<Rightarrow>
       if state \<noteq> ''OK'' then Inl (ssh_error 255 detail)
       else (case payload of
          None \<Rightarrow> Inl (ssh_error 1 detail)
        | Some d \<Rightarrow> (case py_or (dget ''users'' d) (JList []) of
            JList us \<Rightarrow> Inr (List.map_filter (\<lambda>u. case u of JObj x \<Rightarrow> Some x | _ \<Rightarrow> None) us)
          | _ \<Rightarrow> Inl ''remote list JSON users is not a list'')))"

definition add_user_snap :: "string \<Rightarrow> dict \<Rightarrow> user_snap list \<Rightarrow> user_snap list res" where
  "add_user_snap nid u us =
     (let uid = (if truthy (dget ''user_id'' u) then py_str (dget ''user_id'' u) else []) in
      if uid = [] then Inr us
      else if list_ex (\<lambda>x. w_node_id x = nid \<and> w_user_id x = uid) us then Inl IntegrityError
      else Inr (us @ [\<lparr>w_node_id = nid, w_user_id = uid,
        w_tag = (if truthy (dget ''tag'' u) then py_str (dget ''tag'' u) else []),
        w_enabled = truthy (dget ''enabled'' u),
        w_credential_id = optional_text (dget ''active_credential_id'' u)\<rparr>]))"

text \<open>The per-node transaction; \<open>clock\<close> is the clock-skew verdict.\<close>

definition full_txn ::
    "node \<Rightarrow> string option \<Rightarrow> dict \<Rightarrow> dict \<Rightarrow> dict list \<Rightarrow> json list \<Rightarrow> int \<Rightarrow> string \<Rightarrow> string
      \<Rightarrow> fleet_db \<Rightarrow> (fleet_db \<times> hist_line list \<times> import_result) res" where
  "full_txn n iid ident status_doc users rows next_cursor clock now_iso db =
     (let nid = n_node_id n;
          db1 = db\<lparr>node_snapshot := AList.update nid
            \<lparr>s_instance_id = iid, s_name = n_name n,
             s_version = optional_text (dget ''vincula_version'' ident),
             s_proxy = classify_proxy status_doc, s_accounting = classify_accounting status_doc,
             s_clock = clock, s_synced_at = now_iso\<rparr> (node_snapshot db)\<rparr>
      in rbind (rfold (add_user_snap nid) users
              (filter (\<lambda>x. w_node_id x \<noteq> nid) (user_snapshot db1))) (\<lambda>us.
         rbind (case iid of None \<Rightarrow> Inr (db1\<lparr>user_snapshot := us\<rparr>, [])
              | Some i \<Rightarrow> record_instance_db_pending nid i None (text_or_none (n_ssh_host n)) now_iso
                   (db1\<lparr>user_snapshot := us\<rparr>)) (\<lambda>(db2, pending).
         rbind (import_audit_batch db2 nid iid rows now_iso (Some next_cursor)) (\<lambda>(db3, res).
           Inr (db3, pending, res)))))"

definition sync_full_one_node ::
    "(hist_line \<Rightarrow> bool) \<Rightarrow> node \<Rightarrow> remote \<Rightarrow> string \<Rightarrow> string \<Rightarrow> sync_row act" where
  "sync_full_one_node app n rm clock now_iso w =
     (let nid = n_node_id n;
          after = cursor_last_export_seq (fleet w) nid;
          leid = cursor_last_event_id (fleet w) nid;
          life = node_lifecycle_status n;
          stop = (\<lambda>status err. (w, Inr (sync_result n status after leid after 0 0 None err)))
      in if life \<noteq> ''active'' \<or> \<not> n_enabled n
         then stop (if life \<noteq> ''retired'' then ''DISABLED'' else ''RETIRED'') None
         else (case ssh_remote_json (rm_identity rm) of (st, ident_opt, detail) \<Rightarrow>
           (case (if st = ''OK'' then ident_opt else None) of
              None \<Rightarrow> stop ''error'' (Some (if detail = [] then ''identity unreachable'' else detail))
            | Some ident \<Rightarrow>
              if dget ''node_id'' ident \<noteq> JStr nid then stop ''error'' (Some ''registry node_id mismatch'')
              else (case ssh_remote_json (rm_status rm) of (st2, status_opt, sdetail) \<Rightarrow>
                (case (if st2 = ''OK'' then status_opt else None) of
                   None \<Rightarrow> stop ''error'' (Some (if sdetail = [] then ''status unreachable'' else sdetail))
                 | Some status_doc \<Rightarrow>
                   (case list_users_on_node (rm_users rm) of
                      Inl uerr \<Rightarrow> stop ''error'' (Some uerr)
                    | Inr users \<Rightarrow>
                      (let iid = optional_text (dget ''instance_id'' ident);
                           p = rm_export rm after False;
                           meta_d = parse_export_meta (p_err p);
                           merr = (case meta_d of None \<Rightarrow> JNull | Some m \<Rightarrow> dget ''error'' m)
                       in if p_code p = 255 then stop ''error'' (Some (p_detail p))
                          else if merr = JStr ''CURSOR_EXPIRED'' then stop ''expired'' (Some ''CURSOR_EXPIRED'')
                          else if merr = JStr ''CURSOR_AHEAD'' then stop ''error'' (Some ''CURSOR_AHEAD'')
                          else if p_code p \<noteq> 0 then stop ''error'' (Some (p_detail p))
                          else (case rbind (parse_export_jsonl (p_out p)) (\<lambda>rows.
                                 rbind (validate_export_batch (case meta_d of None \<Rightarrow> JNull | Some m \<Rightarrow> JObj m)
                                          rows after nid iid) (\<lambda>nc. Inr (rows, nc))) of
                              Inl e \<Rightarrow> stop ''error'' (Some (err_text e))
                            | Inr (rows, next_cursor) \<Rightarrow>
                              (case full_txn n iid ident status_doc users rows next_cursor clock now_iso (fleet w) of
                                 Inl e \<Rightarrow> stop ''error'' (Some (''full sync txn failed: '' @ err_text e))
                               | Inr (d, pending, res) \<Rightarrow>
                                 (let done = (\<lambda>status err w'. (w', Inr (sync_result n status after
                                        (r_last_event_id res) (r_last_export_seq res)
                                        (r_inserted res) (r_updated res) iid err)))
                                  in (case append_each app pending (w\<lparr>fleet := d\<rparr>) of
                                        (w', Inl e) \<Rightarrow> done ''error'' (Some ''history flush failed'') w'
                                      | (w', Inr _) \<Rightarrow> done ''ok'' None w')))))))))))"

section \<open>The command\<close>

definition find_by_name :: "node list \<Rightarrow> string \<Rightarrow> node option" where
  "find_by_name ns name = find (\<lambda>n. n_name n = name) ns"

definition require_enabled_node :: "node list \<Rightarrow> string \<Rightarrow> node res" where
  "require_enabled_node ns name = (case find_by_name ns name of
     None \<Rightarrow> die ''unknown node''
   | Some n \<Rightarrow>
       if node_lifecycle_status n = ''retired'' then die ''node is retired''
       else if node_lifecycle_status n \<noteq> ''active'' \<or> \<not> n_enabled n then die ''node is disabled''
       else Inr n)"

definition selected_nodes :: "node list \<Rightarrow> bool \<Rightarrow> node list" where
  "selected_nodes ns include_all =
     (if include_all then ns else filter (\<lambda>n. node_lifecycle_status n = ''active'') ns)"

definition sync_target_nodes ::
    "node list \<Rightarrow> string option \<Rightarrow> bool \<Rightarrow> string option \<Rightarrow> node list res" where
  "sync_target_nodes ns node_name include_all reseed_name =
     (if node_name \<noteq> None \<and> include_all then die ''--node and --all are mutually exclusive''
      else if reseed_name \<noteq> None \<and> node_name \<noteq> None \<and> reseed_name \<noteq> node_name
      then die ''--reseed must target the same node as --node''
      else (case node_name of
          Some nm \<Rightarrow> if \<not> name_ok nm then die ''invalid name''
            else rbind (require_enabled_node ns nm) (\<lambda>n. Inr [n])
        | None \<Rightarrow> (case (if include_all then None else reseed_name) of
            Some nm \<Rightarrow> if \<not> name_ok nm then die ''invalid name''
              else rbind (require_enabled_node ns nm) (\<lambda>n. Inr [n])
          | None \<Rightarrow> Inr (selected_nodes ns include_all))))"

record sync_doc =
  sd_ok :: bool
  sd_state :: string
  sd_nodes :: "sync_row list"
  sd_remediation :: "string list"

definition sync_report :: "sync_row list \<Rightarrow> sync_doc" where
  "sync_report rows =
     (let failed = filter (\<lambda>r. sr_status r = ''expired'' \<or> sr_status r = ''error'') rows;
          state = (if failed = [] then ''SUCCESS'' else ''PARTIAL'')
      in \<lparr>sd_ok = (state = ''SUCCESS''), sd_state = state, sd_nodes = rows,
          sd_remediation = List.map_filter sr_remediation rows\<rparr>)"

fun amap :: "('a \<Rightarrow> 'b act) \<Rightarrow> 'a list \<Rightarrow> 'b list act" where
  "amap f [] = aret []"
| "amap f (x # xs) = abind (f x) (\<lambda>y. abind (amap f xs) (\<lambda>ys. aret (y # ys)))"

text \<open>\<open>remotes\<close> gives the remote side of every node; exit code 2 is a partial failure.\<close>

definition run_sync_payload ::
    "(hist_line \<Rightarrow> bool) \<Rightarrow> (string \<Rightarrow> remote) \<Rightarrow> node list \<Rightarrow> string option \<Rightarrow> bool \<Rightarrow> string option \<Rightarrow> string
      \<Rightarrow> (int \<times> sync_doc) act" where
  "run_sync_payload app remotes ns node_name include_all reseed_name now_iso w =
     (if (case reseed_name of None \<Rightarrow> False | Some nm \<Rightarrow> \<not> name_ok nm) then (w, die ''invalid name'')
      else (case sync_target_nodes ns node_name include_all reseed_name of
          Inl e \<Rightarrow> (w, Inl e)
        | Inr targets \<Rightarrow>
          abind (case reseed_name of None \<Rightarrow> aret ()
                 | Some nm \<Rightarrow> (case require_enabled_node ns nm of
                     Inl e \<Rightarrow> araise e
                   | Inr n \<Rightarrow> atomically (\<lambda>d. rbind (reseed_node_local d (n_node_id n) None now_iso)
                        (\<lambda>d'. Inr (d', ()))))) (\<lambda>_.
          abind (amap (\<lambda>n. sync_one_node app n (remotes (n_node_id n)) now_iso
                   (reseed_name = Some (n_name n))) targets) (\<lambda>rows.
          (let doc = sync_report rows in
           aret (if sd_state doc = ''SUCCESS'' then 0 else 2, doc)))) w))"

definition run_sync_full_payload ::
    "(hist_line \<Rightarrow> bool) \<Rightarrow> (string \<Rightarrow> remote) \<Rightarrow> (string \<Rightarrow> string) \<Rightarrow> node list \<Rightarrow> string option \<Rightarrow> bool
      \<Rightarrow> string \<Rightarrow> (int \<times> sync_doc) act" where
  "run_sync_full_payload app remotes clocks ns node_name include_all now_iso w =
     (case sync_target_nodes ns node_name include_all None of
        Inl e \<Rightarrow> (w, Inl e)
      | Inr targets \<Rightarrow>
        abind (amap (\<lambda>n. sync_full_one_node app n (remotes (n_node_id n)) (clocks (n_node_id n)) now_iso)
                 targets) (\<lambda>rows.
          (let doc = sync_report rows in
           aret (if sd_state doc = ''SUCCESS'' then 0 else 2, doc))) w)"

end
