(* ===== verification/AcctMaintInv.thy ===== *)
theory AcctMaintInv
  imports AcctMaint
begin

text \<open>
  Proofs about maintenance: the rollup is a faithful aggregate, retention only removes what it
  may and records what it removed, and the migrations establish the invariant.
\<close>

section \<open>Rollup\<close>

lemma sum_over_groups:
  fixes f :: "'a \<Rightarrow> int"
  assumes "finite K"
  shows "(\<Sum>k\<in>K. sum_list (map f (filter (\<lambda>x. key x = k) xs)))
    = sum_list (map f (filter (\<lambda>x. key x \<in> K) xs))"
proof (induction xs)
  case (Cons x xs)
  have "(\<Sum>k\<in>K. sum_list (map f (filter (\<lambda>x. key x = k) (x # xs))))
    = (\<Sum>k\<in>K. (if key x = k then f x else 0) + sum_list (map f (filter (\<lambda>x. key x = k) xs)))"
    by (intro sum.cong) auto
  also have "\<dots> = (if key x \<in> K then f x else 0) + sum_list (map f (filter (\<lambda>x. key x \<in> K) xs))"
    using assms Cons.IH by (simp add: sum.distrib)
  finally show ?case by simp
qed simp

lemma rfold_insert_daily:
  assumes "distinct (map daily_pk acc)"
  shows "rfold insert_daily ds acc = (if distinct (map daily_pk (acc @ ds)) then Inr (acc @ ds)
    else Inl IntegrityError)"
  using assms
proof (induction ds arbitrary: acc)
  case (Cons d ds)
  show ?case
  proof (cases "daily_pk d \<in> daily_pk ` set acc")
    case True
    then show ?thesis by (auto simp: insert_daily_def list_ex_iff image_iff)
  next
    case False
    then have "insert_daily d acc = Inr (acc @ [d])"
      by (auto simp: insert_daily_def list_ex_iff image_iff)
    then show ?thesis using Cons.IH [of "acc @ [d]"] Cons.prems False by simp
  qed
qed simp

definition daily_key :: "daily_row \<Rightarrow> usage_key" where
  "daily_key d = (d_date d, d_user_id d, d_user_tag d, d_destination_host d)"

lemma usage_group_Inr:
  assumes "usage_group rows k = Inr d"
  defines "g \<equiv> filter (\<lambda>r. usage_key r = k) rows"
  shows "daily_key d = k" "d_upload_bytes d = sum_list (map c_upload_bytes g)"
    "d_download_bytes d = sum_list (map c_download_bytes g)"
    "d_connection_count d = int (length g)"
  using assms
  by (cases k; auto simp: usage_group_def daily_key_def sum_ints_def Let_def res_simps split: if_splits)+

lemma rmap_image:
  "rmap f xs = Inr ys \<Longrightarrow> (\<And>x y. x \<in> set xs \<Longrightarrow> f x = Inr y \<Longrightarrow> g y = h x) \<Longrightarrow> map g ys = map h xs"
  by (induction xs arbitrary: ys) (auto simp: res_simps)

lemma rollup_cases:
  assumes "rollup_daily_usage db = Inr db'"
  shows "daily_usage_aggregate (connections db) = Inr (daily_usage db')"
    and "distinct (map daily_pk (daily_usage db'))" and "db' = db\<lparr>daily_usage := daily_usage db'\<rparr>"
  using assms
  by (auto simp: rollup_daily_usage_def res_simps rfold_insert_daily split: if_splits)

lemma aggregate_keys:
  assumes "daily_usage_aggregate rows = Inr ds"
  shows "map daily_key ds = remdups (map usage_key rows)"
proof -
  have "map daily_key ds = map (\<lambda>k. k) (remdups (map usage_key rows))"
    using assms unfolding daily_usage_aggregate_def
    by (rule rmap_image) (rule usage_group_Inr(1))
  then show ?thesis by simp
qed

lemma aggregate_sum:
  fixes g :: "daily_row \<Rightarrow> int" and f :: "conn_row \<Rightarrow> int"
  assumes "daily_usage_aggregate rows = Inr ds"
    and g: "\<And>k d. usage_group rows k = Inr d \<Longrightarrow>
      g d = sum_list (map f (filter (\<lambda>r. usage_key r = k) rows))"
  shows "sum_list (map g (filter (\<lambda>d. P (daily_key d)) ds))
    = sum_list (map f (filter (\<lambda>r. P (usage_key r)) rows))"
proof -
  let ?ks = "remdups (map usage_key rows)"
  let ?h = "\<lambda>k. sum_list (map f (filter (\<lambda>r. usage_key r = k) rows))"
  have r: "rmap (usage_group rows) ?ks = Inr ds" using assms(1) by (simp add: daily_usage_aggregate_def)
  have "map (\<lambda>d. if P (daily_key d) then g d else 0) ds = map (\<lambda>k. if P k then ?h k else 0) ?ks"
    using g by (intro rmap_image [OF r]) (simp add: usage_group_Inr(1))
  then have "sum_list (map (\<lambda>d. if P (daily_key d) then g d else 0) ds)
    = (\<Sum>k\<in>set ?ks. if P k then ?h k else 0)"
    by (simp only: sum_list_distinct_conv_sum_set distinct_remdups)
  also have "\<dots> = (\<Sum>k\<in>{k \<in> set ?ks. P k}. ?h k)"
    by (simp add: sum.inter_filter)
  also have "\<dots> = sum_list (map f (filter (\<lambda>r. usage_key r \<in> {k \<in> set ?ks. P k}) rows))"
    by (rule sum_over_groups) simp
  also have "filter (\<lambda>r. usage_key r \<in> {k \<in> set ?ks. P k}) rows = filter (\<lambda>r. P (usage_key r)) rows"
    by (rule filter_cong) auto
  finally show ?thesis by (simp add: sum_list_map_filter')
qed

text \<open>Two rows clash when they fall on one primary key but in different groups.\<close>

definition tag_clash :: "acct_db \<Rightarrow> bool" where
  "tag_clash db \<longleftrightarrow> (\<exists>r \<in> set (connections db). \<exists>r' \<in> set (connections db).
     usage_date r = usage_date r' \<and> c_user_id r = c_user_id r' \<and> usage_host r = usage_host r'
     \<and> c_user_tag r \<noteq> c_user_tag r')"

lemma rollup_by_clash:
  assumes "daily_usage_aggregate (connections db) = Inr ds"
  shows "rollup_daily_usage db = (if tag_clash db then Inl IntegrityError
    else Inr (db\<lparr>daily_usage := ds\<rparr>))"
proof -
  let ?pk = "\<lambda>(d, u, t :: string option, h). (d :: string, u :: string, h :: string)"
  have k: "map daily_key ds = remdups (map usage_key (connections db))" by (rule aggregate_keys [OF assms])
  have "map daily_pk ds = map ?pk (map daily_key ds)"
    by (simp add: daily_pk_def daily_key_def)
  then have "distinct (map daily_pk ds) \<longleftrightarrow> inj_on ?pk (usage_key ` set (connections db))"
    by (simp only: k distinct_map distinct_remdups set_remdups list.set_map simp_thms)
  also have "\<dots> \<longleftrightarrow> \<not> tag_clash db"
    by (auto simp: inj_on_def tag_clash_def usage_key_def)
  finally show ?thesis
    using assms by (auto simp: rollup_daily_usage_def rfold_insert_daily)
qed

section \<open>Coverage of the export sequence\<close>

text \<open>
  Every number handed out is on a row, unless retention removed the row and the pruned marker
  says so: the property a fleet cursor rests on.
\<close>

definition pruned_seq :: "acct_db \<Rightarrow> int" where
  "pruned_seq db = (case meta_int db META_AUDIT_PRUNED_MAX_EXPORT_SEQ of Inr n \<Rightarrow> n | Inl _ \<Rightarrow> 0)"

definition cov_inv :: "acct_db \<Rightarrow> bool" where
  "cov_inv db \<longleftrightarrow> meta_int db META_AUDIT_PRUNED_MAX_EXPORT_SEQ = Inr (pruned_seq db)
     \<and> 0 \<le> pruned_seq db \<and> pruned_seq db \<le> seq_counter db
     \<and> (\<forall>s. pruned_seq db < s \<and> s \<le> seq_counter db \<longrightarrow>
          (\<exists>r \<in> set (connections db). c_export_seq r = Some s))"

lemma evolves_pruned: "evolves db db' \<Longrightarrow> pruned_seq db' = pruned_seq db"
  by (simp add: evolves_def pruned_seq_def meta_int_def)

lemma evolves_cov:
  assumes e: "evolves db db'" and c: "cov_inv db"
  shows "cov_inv db'"
  unfolding cov_inv_def evolves_pruned [OF e]
proof (intro conjI allI impI)
  have m: "meta_int db' META_AUDIT_PRUNED_MAX_EXPORT_SEQ = meta_int db META_AUDIT_PRUNED_MAX_EXPORT_SEQ"
    using e by (simp add: evolves_def meta_int_def)
  show "meta_int db' META_AUDIT_PRUNED_MAX_EXPORT_SEQ = Inr (pruned_seq db)" "0 \<le> pruned_seq db"
    using m c by (simp_all add: cov_inv_def)
  show "pruned_seq db \<le> seq_counter db'" using e c by (auto simp: cov_inv_def evolves_def)
next
  fix s assume s: "pruned_seq db < s \<and> s \<le> seq_counter db'"
  show "\<exists>r \<in> set (connections db'). c_export_seq r = Some s"
  proof (cases "s \<le> seq_counter db")
    case True
    then obtain r where r: "r \<in> set (connections db)" "c_export_seq r = Some s"
      using s c by (auto simp: cov_inv_def)
    with e obtain r' where "r' \<in> set (connections db')" "row_grows db r r'" by (auto simp: evolves_def)
    with r show ?thesis by (auto simp: row_grows_def)
  next
    case False
    with e s show ?thesis by (auto simp: evolves_def)
  qed
qed

section \<open>Retention\<close>

lemma acct_inv_shrink:
  assumes inv: "acct_inv db" and sub: "set (connections db') \<subseteq> set (connections db)"
    and d: "distinct (map c_event_id (connections db'))"
      "distinct (map (\<lambda>r. (c_connection_id r, c_generation r)) (connections db'))"
    and same: "conn_seq db' = conn_seq db" "poll_baseline db' = poll_baseline db"
      "meta_int db' META_AUDIT_EXPORT_SEQ = meta_int db META_AUDIT_EXPORT_SEQ"
  shows "acct_inv db'"
proof -
  have sc: "seq_counter db' = seq_counter db" using same(3) by (simp add: seq_counter_def)
  have "keys_inv db'" using inv sub d same by (auto simp: acct_inv_def keys_inv_def)
  moreover have "seq_inv db'"
    using inv sub unfolding acct_inv_def seq_inv_def sc same(3) by blast
  moreover have "gen_inv db'" using inv sub unfolding acct_inv_def gen_inv_def by blast
  moreover have "base_inv db'" using inv sub unfolding acct_inv_def base_inv_def same(2) by blast
  ultimately show ?thesis by (simp add: acct_inv_def)
qed

text \<open>What one batch of row deletions does.\<close>

definition retained :: "acct_db \<Rightarrow> acct_db \<Rightarrow> (conn_row \<Rightarrow> bool) \<Rightarrow> bool" where
  "retained db db' gone \<longleftrightarrow> connections db' = filter (\<lambda>r. \<not> gone r) (connections db)
     \<and> (\<forall>r \<in> set (connections db). gone r \<longrightarrow> \<not> open_row r \<and>
          (\<forall>s. c_export_seq r = Some s \<longrightarrow> s \<le> pruned_seq db'))
     \<and> pruned_seq db \<le> pruned_seq db' \<and> seq_counter db' = seq_counter db"

lemma retained_refl: "retained db db (\<lambda>_. False)"
  by (simp add: retained_def)

lemma fold_max_seq:
  fixes m :: int
  defines "step \<equiv> \<lambda>r m. case c_export_seq r of None \<Rightarrow> m | Some s \<Rightarrow> max m s"
  shows "m \<le> fold step rs m" "r \<in> set rs \<Longrightarrow> c_export_seq r = Some s \<Longrightarrow> s \<le> fold step rs m"
    "m \<le> B \<Longrightarrow> (\<And>r s. r \<in> set rs \<Longrightarrow> c_export_seq r = Some s \<Longrightarrow> s \<le> B) \<Longrightarrow> fold step rs m \<le> B"
proof -
  have st: "m \<le> step r m" "c_export_seq r = Some s \<Longrightarrow> s \<le> step r m" for r m s
    by (auto simp: step_def split: option.splits)
  have 1: "m \<le> fold step rs m" for rs m
    by (induction rs arbitrary: m) (auto intro: order_trans [OF st(1)])
  then show "m \<le> fold step rs m" .
  show "r \<in> set rs \<Longrightarrow> c_export_seq r = Some s \<Longrightarrow> s \<le> fold step rs m"
  proof (induction rs arbitrary: m)
    case (Cons x rs)
    show ?case
    proof (cases "r = x")
      case True
      then have "s \<le> step x m" using st(2) Cons.prems(2) by simp
      from order_trans [OF this 1] show ?thesis by simp
    next
      case False
      then show ?thesis using Cons by simp
    qed
  qed simp
  show "m \<le> B \<Longrightarrow> (\<And>r s. r \<in> set rs \<Longrightarrow> c_export_seq r = Some s \<Longrightarrow> s \<le> B) \<Longrightarrow> fold step rs m \<le> B"
  proof (induction rs arbitrary: m)
    case (Cons x rs)
    have "step x m \<le> B" using Cons.prems(1) Cons.prems(2) [of x] by (auto simp: step_def split: option.splits)
    then have "fold step rs (step x m) \<le> B" using Cons.prems(2) by (intro Cons.IH) auto
    then show ?case by simp
  qed simp
qed

lemma expired_batch_in:
  "r \<in> set (expired_batch db cutoff limit) \<Longrightarrow>
     r \<in> set (connections db) \<and> \<not> open_row r \<and> c_last_seen_at r < cutoff"
  by (auto simp: expired_batch_def limit_to_take dest: in_set_takeD)

lemma pruned_key_frame:
  "pruned_seq (meta_set db META_AUDIT_PRUNED_MAX_EXPORT_SEQ (int_text n)) = n"
  "meta_int (meta_set db META_AUDIT_PRUNED_MAX_EXPORT_SEQ v) META_AUDIT_EXPORT_SEQ
     = meta_int db META_AUDIT_EXPORT_SEQ"
  by (simp_all add: pruned_seq_def meta_int_def meta_get_set)

lemma delete_batch_ok:
  assumes inv: "acct_inv db" and cov: "cov_inv db"
    and d: "delete_expired_connections_batch db cutoff limit = Inr (db', n)"
  shows "acct_inv db'" "cov_inv db'" "n \<le> nat limit"
    and "retained db db' (\<lambda>r. r \<in> set (expired_batch db cutoff limit))"
    and "poll_baseline db' = poll_baseline db" "conn_seq db' = conn_seq db"
proof -
  let ?rows = "expired_batch db cutoff limit"
  let ?step = "\<lambda>r m. case c_export_seq r of None \<Rightarrow> m | Some s \<Rightarrow> max m s"
  have "acct_inv db' \<and> cov_inv db' \<and> n \<le> nat limit \<and> retained db db' (\<lambda>r. r \<in> set ?rows)
    \<and> poll_baseline db' = poll_baseline db \<and> conn_seq db' = conn_seq db"
  proof (cases "?rows = []")
    case True
    with d have "db' = db" "n = 0" by (simp_all add: delete_expired_connections_batch_def)
    with inv cov True show ?thesis by (simp add: retained_def)
  next
    case False
    define p where "p = fold ?step ?rows (pruned_seq db)"
    let ?kept = "filter (\<lambda>r. c_event_id r \<notin> set (map c_event_id ?rows)) (connections db)"
    have db': "db' = meta_set (db\<lparr>connections := ?kept\<rparr>)
        META_AUDIT_PRUNED_MAX_EXPORT_SEQ (int_text p)" and n: "n = length ?rows"
      using d False cov
      by (auto simp: delete_expired_connections_batch_def Let_def cov_inv_def p_def)
    have kept: "?kept = filter (\<lambda>r. r \<notin> set ?rows) (connections db)"
    proof (rule filter_cong [OF refl])
      fix r assume r: "r \<in> set (connections db)"
      have "r \<in> set ?rows" if "q \<in> set ?rows" "c_event_id q = c_event_id r" for q
        using acct_inv_eid_eq [OF inv _ r] expired_batch_in [OF that(1)] that by auto
      then show "(c_event_id r \<notin> set (map c_event_id ?rows)) = (r \<notin> set ?rows)"
        by (metis (no_types, lifting) image_iff list.set_map)
    qed
    have conns: "connections db' = filter (\<lambda>r. r \<notin> set ?rows) (connections db)"
      unfolding db' kept by simp
    have rest: "poll_baseline db' = poll_baseline db" "conn_seq db' = conn_seq db" by (simp_all add: db')
    have mi: "meta_int db' META_AUDIT_EXPORT_SEQ = meta_int db META_AUDIT_EXPORT_SEQ"
      by (simp add: db' pruned_key_frame)
    have pr: "pruned_seq db' = p" by (simp add: db' pruned_key_frame)
    have sc: "seq_counter db' = seq_counter db" using mi by (simp add: seq_counter_def)
    have "acct_inv db'"
      by (rule acct_inv_shrink [OF inv _ _ _ rest(2,1) mi])
         (use inv in \<open>auto simp: conns acct_inv_def keys_inv_def distinct_map_filter\<close>)
    moreover have le: "pruned_seq db \<le> p" unfolding p_def by (rule fold_max_seq)
    moreover have ge: "s \<le> p" if "r \<in> set ?rows" "c_export_seq r = Some s" for r s
      unfolding p_def using that by (rule fold_max_seq)
    moreover have "cov_inv db'"
      unfolding cov_inv_def pr sc
    proof (intro conjI allI impI)
      show "meta_int db' META_AUDIT_PRUNED_MAX_EXPORT_SEQ = Inr p" by (simp add: db')
      show "0 \<le> p" using le cov by (simp add: cov_inv_def)
      show "p \<le> seq_counter db"
        unfolding p_def
      proof (rule fold_max_seq(3))
        show "pruned_seq db \<le> seq_counter db" using cov by (simp add: cov_inv_def)
        show "s \<le> seq_counter db" if "r \<in> set ?rows" "c_export_seq r = Some s" for r s
          using inv expired_batch_in [OF that(1)] that(2) by (auto simp: acct_inv_def seq_inv_def)
      qed
      show "\<exists>r \<in> set (connections db'). c_export_seq r = Some s"
        if s: "p < s \<and> s \<le> seq_counter db" for s
      proof -
        obtain r where r: "r \<in> set (connections db)" "c_export_seq r = Some s"
          using s le cov by (force simp: cov_inv_def)
        then have "r \<notin> set ?rows" using ge s by fastforce
        with r show ?thesis by (auto simp: conns)
      qed
    qed
    moreover have "n \<le> nat limit" by (simp add: n expired_batch_def limit_to_take)
    moreover have "retained db db' (\<lambda>r. r \<in> set ?rows)"
      using conns le ge sc expired_batch_in by (auto simp: retained_def pr)
    ultimately show ?thesis using rest by simp
  qed
  then show "acct_inv db'" "cov_inv db'" "n \<le> nat limit" "retained db db' (\<lambda>r. r \<in> set ?rows)"
    "poll_baseline db' = poll_baseline db" "conn_seq db' = conn_seq db" by auto
qed

lemma acct_inv_frame:
  assumes "connections db' = connections db" "conn_seq db' = conn_seq db"
    "poll_baseline db' = poll_baseline db"
    "meta_int db' META_AUDIT_EXPORT_SEQ = meta_int db META_AUDIT_EXPORT_SEQ"
  shows "acct_inv db' = acct_inv db"
proof -
  have "seq_counter db' = seq_counter db" using assms(4) by (simp add: seq_counter_def)
  with assms show ?thesis
    by (simp add: acct_inv_def keys_inv_def seq_inv_def gen_inv_def base_inv_def)
qed

lemma meta_int_other: "k \<noteq> k' \<Longrightarrow> meta_int (meta_set db k v) k' = meta_int db k'"
  by (simp add: meta_int_def meta_get_set)

lemma meta_set_other_inv:
  assumes "k \<noteq> META_AUDIT_EXPORT_SEQ"
  shows "acct_inv (meta_set db k v) = acct_inv db"
    "k \<noteq> META_AUDIT_PRUNED_MAX_EXPORT_SEQ \<Longrightarrow> cov_inv (meta_set db k v) = cov_inv db"
    "seq_counter (meta_set db k v) = seq_counter db"
    "k \<noteq> META_AUDIT_PRUNED_MAX_EXPORT_SEQ \<Longrightarrow> pruned_seq (meta_set db k v) = pruned_seq db"
proof -
  show "acct_inv (meta_set db k v) = acct_inv db"
    by (rule acct_inv_frame) (use assms in \<open>simp_all add: meta_int_other\<close>)
  show 1: "seq_counter (meta_set db k v) = seq_counter db"
    using assms by (simp add: seq_counter_def meta_int_other)
  show 2: "pruned_seq (meta_set db k v) = pruned_seq db" if "k \<noteq> META_AUDIT_PRUNED_MAX_EXPORT_SEQ"
    using that by (simp add: pruned_seq_def meta_int_other)
  show "cov_inv (meta_set db k v) = cov_inv db" if "k \<noteq> META_AUDIT_PRUNED_MAX_EXPORT_SEQ"
    using that by (simp add: cov_inv_def 1 2 meta_int_other)
qed

lemma daily_usage_frame:
  "acct_inv (db\<lparr>daily_usage := ds\<rparr>) = acct_inv db" "cov_inv (db\<lparr>daily_usage := ds\<rparr>) = cov_inv db"
  "seq_counter (db\<lparr>daily_usage := ds\<rparr>) = seq_counter db"
  "pruned_seq (db\<lparr>daily_usage := ds\<rparr>) = pruned_seq db"
proof -
  have m: "meta_int (db\<lparr>daily_usage := ds\<rparr>) k = meta_int db k" for k
    by (rule meta_determines) simp
  show 1: "seq_counter (db\<lparr>daily_usage := ds\<rparr>) = seq_counter db" by (simp add: seq_counter_def m)
  show 2: "pruned_seq (db\<lparr>daily_usage := ds\<rparr>) = pruned_seq db" by (simp add: pruned_seq_def m)
  show "acct_inv (db\<lparr>daily_usage := ds\<rparr>) = acct_inv db" by (rule acct_inv_frame) (simp_all add: m)
  show "cov_inv (db\<lparr>daily_usage := ds\<rparr>) = cov_inv db" by (simp add: cov_inv_def 1 2 m)
qed

text \<open>The rows a call of \<open>apply_retention\<close> removes.\<close>

definition retention_gone :: "int \<Rightarrow> acct_db \<Rightarrow> int \<Rightarrow> conn_row \<Rightarrow> bool" where
  "retention_gone now db raw_days r \<longleftrightarrow> raw_days > 0
     \<and> r \<in> set (expired_batch db (iso_utc (now - raw_days * 86400)) RETENTION_DELETE_BATCH)"

lemma apply_retention_ok:
  assumes inv: "acct_inv db" and cov: "cov_inv db"
    and a: "apply_retention now db raw_days daily_days = Inr db'"
  shows "acct_inv db'" "cov_inv db'" "retained db db' (retention_gone now db raw_days)"
    "poll_baseline db' = poll_baseline db" "conn_seq db' = conn_seq db"
proof -
  define cut where "cut = iso_utc (now - raw_days * 86400)"
  define db1 where "db1 = (if raw_days > 0 then (case delete_expired_connections_batch db cut
      RETENTION_DELETE_BATCH of Inr p \<Rightarrow> fst p | Inl _ \<Rightarrow> db) else db)"
  have 1: "acct_inv db1" "cov_inv db1" "retained db db1 (retention_gone now db raw_days)"
    "poll_baseline db1 = poll_baseline db" "conn_seq db1 = conn_seq db"
  proof -
    have "acct_inv db1 \<and> cov_inv db1 \<and> retained db db1 (retention_gone now db raw_days)
      \<and> poll_baseline db1 = poll_baseline db \<and> conn_seq db1 = conn_seq db"
    proof (cases "raw_days > 0")
      case True
      with a obtain n where d: "delete_expired_connections_batch db cut RETENTION_DELETE_BATCH
          = Inr (db1, n)"
        by (auto simp: apply_retention_def res_simps db1_def cut_def)
      have "retention_gone now db raw_days = (\<lambda>r. r \<in> set (expired_batch db cut RETENTION_DELETE_BATCH))"
        using True by (auto simp: retention_gone_def cut_def)
      with delete_batch_ok [OF inv cov d] show ?thesis by simp
    next
      case False
      then have "retention_gone now db raw_days = (\<lambda>_. False)" by (auto simp: retention_gone_def)
      with False inv cov show ?thesis by (simp add: db1_def retained_refl)
    qed
    then show "acct_inv db1" "cov_inv db1" "retained db db1 (retention_gone now db raw_days)"
      "poll_baseline db1 = poll_baseline db" "conn_seq db1 = conn_seq db" by auto
  qed
  obtain ds where db': "db' = meta_set (db1\<lparr>daily_usage := ds\<rparr>) ''last_retention_at'' (iso_utc now)"
  proof -
    have "db1\<lparr>daily_usage := daily_usage db1\<rparr> = db1" by simp
    with a that [of "daily_usage db1"] that show thesis
      by (auto simp: apply_retention_def res_simps db1_def cut_def Let_def
          delete_expired_daily_usage_batch_def split: if_splits)
  qed
  show "acct_inv db'" "cov_inv db'"
    using 1(1,2) by (simp_all add: db' meta_set_other_inv daily_usage_frame)
  show "retained db db' (retention_gone now db raw_days)"
    using 1(3) by (simp add: db' retained_def meta_set_other_inv daily_usage_frame)
  show "poll_baseline db' = poll_baseline db" "conn_seq db' = conn_seq db"
    using 1(4,5) by (simp_all add: db')
qed

lemma apply_retention_total:
  assumes "cov_inv db" shows "\<exists>db'. apply_retention now db raw_days daily_days = Inr db'"
  using assms
  by (auto simp: apply_retention_def delete_expired_connections_batch_def Let_def cov_inv_def)

section \<open>Migrations\<close>

fun pos_of :: "int \<Rightarrow> int list \<Rightarrow> int \<Rightarrow> int option" where
  "pos_of n [] e = None"
| "pos_of n (x # xs) e = (if x = e then Some (n + 1) else pos_of (n + 1) xs e)"

lemma pos_of_range: "pos_of n es e = Some s \<Longrightarrow> n < s \<and> s \<le> n + int (length es) \<and> e \<in> set es"
  by (induction es arbitrary: n) (fastforce split: if_splits)+

lemma pos_of_None: "pos_of n es e = None \<longleftrightarrow> e \<notin> set es"
  by (induction es arbitrary: n) auto

lemma pos_of_inj: "pos_of n es e = Some s \<Longrightarrow> pos_of n es e' = Some s \<Longrightarrow> e = e'"
  by (induction es arbitrary: n) (auto split: if_splits dest: pos_of_range)

lemma pos_of_onto:
  "distinct es \<Longrightarrow> n < s \<Longrightarrow> s \<le> n + int (length es) \<Longrightarrow> \<exists>e \<in> set es. pos_of n es e = Some s"
proof (induction es arbitrary: n)
  case (Cons x xs)
  show ?case
  proof (cases "s = n + 1")
    case False
    with Cons.prems obtain e where "e \<in> set xs" "pos_of (n + 1) xs e = Some s"
      using Cons.IH [of "n + 1"] by auto
    with Cons.prems(1) show ?thesis by auto
  qed simp
qed simp

lemma pos_of_mono:
  "sorted_wrt (<) es \<Longrightarrow> pos_of n es e = Some s \<Longrightarrow> pos_of n es e' = Some s' \<Longrightarrow> e < e' \<Longrightarrow> s < s'"
proof (induction es arbitrary: n)
  case (Cons x xs)
  have "e \<notin> set xs" if "x = e'" using that Cons.prems(1,4) by auto
  with Cons show ?case by (auto split: if_splits dest: pos_of_range)
qed simp

definition numbered :: "int \<Rightarrow> int list \<Rightarrow> conn_row \<Rightarrow> conn_row" where
  "numbered n es r = (case pos_of n es (c_event_id r) of Some s \<Rightarrow> r\<lparr>c_export_seq := Some s\<rparr> | None \<Rightarrow> r)"

lemma number_loop:
  assumes "distinct es" and "\<forall>r \<in> set rows. \<forall>s. c_export_seq r = Some s \<longrightarrow> s \<le> n"
  shows "rfold number_closed_row es (rows, n) = Inr (map (numbered n es) rows, n + int (length es))"
  using assms
proof (induction es arbitrary: rows n)
  case Nil
  then show ?case by (simp add: numbered_def)
next
  case (Cons e es)
  define rows' where "rows' = map (\<lambda>r. if c_event_id r = e then r\<lparr>c_export_seq := Some (n + 1)\<rparr> else r) rows"
  have "\<not> list_ex (\<lambda>r. c_export_seq r = Some (n + 1) \<and> c_event_id r \<noteq> e) rows"
    using Cons.prems(2) by (fastforce simp: list_ex_iff)
  then have "number_closed_row e (rows, n) = Inr (rows', n + 1)"
    by (simp add: number_closed_row_def rows'_def Let_def)
  moreover have "\<forall>r \<in> set rows'. \<forall>s. c_export_seq r = Some s \<longrightarrow> s \<le> n + 1"
    using Cons.prems(2) by (fastforce simp: rows'_def)
  moreover have "map (numbered (n + 1) es) rows' = map (numbered n (e # es)) rows"
    using Cons.prems(1) by (auto simp: rows'_def numbered_def pos_of_None [THEN iffD2])
  ultimately show ?case using Cons.IH [of rows' "n + 1"] Cons.prems(1) by simp
qed

lemma max_export_seq_eq:
  assumes "\<And>r s. r \<in> set rows \<Longrightarrow> c_export_seq r = Some s \<Longrightarrow> s \<le> N"
    and "N > 0 \<Longrightarrow> \<exists>r \<in> set rows. c_export_seq r = Some N"
    and "N \<le> 0 \<Longrightarrow> N = 0 \<and> (\<forall>r \<in> set rows. c_export_seq r = None)"
  shows "max_export_seq rows = N"
proof -
  have S: "set (List.map_filter c_export_seq rows) = {s. \<exists>r \<in> set rows. c_export_seq r = Some s}"
    by (force simp: map_filter_def)
  show ?thesis
  proof (cases "N > 0")
    case True
    with assms(2) have N: "N \<in> set (List.map_filter c_export_seq rows)" unfolding S by auto
    then obtain x xs where mf: "List.map_filter c_export_seq rows = x # xs"
      by (cases "List.map_filter c_export_seq rows") auto
    then have "max_export_seq rows = Max (set (List.map_filter c_export_seq rows))"
      unfolding max_export_seq_def mf by (simp only: list.case Max.set_eq_fold)
    also have "\<dots> = N"
      by (rule Max_eqI [OF List.finite_set]) (use N assms(1) in \<open>auto simp: S\<close>)
    finally show ?thesis .
  next
    case False
    with assms(3) have "N = 0" "set (List.map_filter c_export_seq rows) = {}" unfolding S by auto
    then show ?thesis by (simp add: max_export_seq_def)
  qed
qed

lemma migrate_3_to_4_ok:
  assumes k: "keys_inv db" and g: "gen_inv db" and b: "base_inv db"
    and s: "\<forall>r \<in> set (connections db). c_export_seq r = None"
    and p: "map_of (meta db) META_AUDIT_PRUNED_MAX_EXPORT_SEQ = None"
  defines "es \<equiv> sort (map c_event_id (filter (\<lambda>r. \<not> open_row r) (connections db)))"
  shows "\<exists>db'. migrate_schema_3_to_4 db = Inr db' \<and> acct_inv db' \<and> cov_inv db' \<and> pruned_seq db' = 0
    \<and> connections db' = map (numbered 0 es) (connections db)"
proof -
  let ?N = "int (length es)"
  let ?rows = "map (numbered 0 es) (connections db)"
  have es_set: "set es = c_event_id ` {r \<in> set (connections db). \<not> open_row r}" by (simp add: es_def)
  have es_dist: "distinct es"
    using k by (simp add: es_def keys_inv_def distinct_map_filter)
  have keep: "c_event_id (numbered n xs r) = c_event_id r" "c_connection_id (numbered n xs r) = c_connection_id r"
    "c_generation (numbered n xs r) = c_generation r" "c_closed_at (numbered n xs r) = c_closed_at r"
    "c_upload_bytes (numbered n xs r) = c_upload_bytes r" "c_download_bytes (numbered n xs r) = c_download_bytes r"
    for n xs r by (simp_all add: numbered_def split: option.split)
  have sq: "c_export_seq (numbered 0 es r) = pos_of 0 es (c_event_id r)" if "r \<in> set (connections db)" for r
    using s that by (simp add: numbered_def split: option.split)
  have eid: "r = q" if "r \<in> set (connections db)" "q \<in> set (connections db)" "c_event_id r = c_event_id q" for r q
    using k that unfolding keys_inv_def distinct_map by (meson inj_onD)
  have closed_iff: "c_event_id r \<in> set es \<longleftrightarrow> \<not> open_row r" if "r \<in> set (connections db)" for r
    using eid [OF that] that unfolding es_set by (auto simp: image_iff)
  have closed: "filter (\<lambda>r. \<not> open_row r \<and> c_export_seq r = None) (connections db)
      = filter (\<lambda>r. \<not> open_row r) (connections db)"
    using s by (intro filter_cong) auto
  have loop: "rfold number_closed_row es (connections db, 0) = Inr (?rows, ?N)"
    using number_loop [OF es_dist, of "connections db" 0] s by simp
  have rng: "1 \<le> x \<and> x \<le> ?N" if "pos_of 0 es e = Some x" for e x
    using pos_of_range [OF that] by simp
  have mx: "max_export_seq ?rows = ?N"
  proof (rule max_export_seq_eq)
    show "x \<le> ?N" if "r \<in> set ?rows" "c_export_seq r = Some x" for r x
      using that sq pos_of_range [of 0 es] by fastforce
    show "\<exists>r \<in> set ?rows. c_export_seq r = Some ?N" if pos: "?N > 0"
    proof -
      obtain e where "e \<in> set es" "pos_of 0 es e = Some ?N" using pos_of_onto [OF es_dist, of 0 ?N] pos by auto
      then show ?thesis unfolding es_set using sq by force
    qed
    show "?N = 0 \<and> (\<forall>r \<in> set ?rows. c_export_seq r = None)" if "?N \<le> 0"
      using that sq by auto
  qed
  define db' where "db' = meta_set (meta_set (meta_set (db\<lparr>connections := ?rows\<rparr>)
      META_AUDIT_EXPORT_SEQ (int_text ?N)) META_AUDIT_PRUNED_MAX_EXPORT_SEQ ''0'') ''schema_version'' ''4''"
  have run: "migrate_schema_3_to_4 db = Inr db'"
    using p unfolding migrate_schema_3_to_4_def closed es_def [symmetric]
    by (simp add: loop mx db'_def meta_get_set Let_def) (simp add: meta_get_def)
  have mi: "meta_int db' META_AUDIT_EXPORT_SEQ = Inr ?N"
    by (simp add: db'_def meta_int_other)
  have zero: "''0'' = int_text 0" by code_simp
  have mp: "meta_int db' META_AUDIT_PRUNED_MAX_EXPORT_SEQ = Inr 0"
    by (simp add: db'_def meta_int_other zero)
  have sc: "seq_counter db' = ?N" and pr: "pruned_seq db' = 0"
    using mi mp by (simp_all add: seq_counter_def pruned_seq_def)
  have flds: "connections db' = ?rows" "conn_seq db' = conn_seq db" "poll_baseline db' = poll_baseline db"
    by (simp_all add: db'_def)
  have "keys_inv db'" using k by (simp add: keys_inv_def flds keep comp_def)
  moreover have "gen_inv db'" using g by (simp add: gen_inv_def flds keep)
  moreover have "base_inv db'" using b by (simp add: base_inv_def flds keep row_at_def)
  moreover have "seq_inv db'"
    unfolding seq_inv_def sc flds(1)
  proof (intro conjI ballI allI impI, goal_cases)
    case (3 x)
    then obtain r where r: "r \<in> set (connections db)" "x = numbered 0 es r" by auto
    then show ?case using closed_iff [OF r(1)] sq [OF r(1)] by (simp add: keep pos_of_None)
  next
    case (6 x x' i)
    then obtain r r' where r: "r \<in> set (connections db)" "x = numbered 0 es r"
      "r' \<in> set (connections db)" "x' = numbered 0 es r'" by auto
    with 6 sq have "pos_of 0 es (c_event_id r) = Some i" "pos_of 0 es (c_event_id r') = Some i" by auto
    then have "c_event_id r = c_event_id r'" by (rule pos_of_inj)
    with r eid show ?case by blast
  qed (use mi sq in \<open>auto dest: rng\<close>)
  moreover have "cov_inv db'"
    unfolding cov_inv_def pr sc flds(1)
  proof (intro conjI allI impI)
    show "\<exists>r \<in> set ?rows. c_export_seq r = Some i" if i: "0 < i \<and> i \<le> ?N" for i
    proof -
      obtain e where "e \<in> set es" "pos_of 0 es e = Some i" using pos_of_onto [OF es_dist, of 0 i] i by auto
      then show ?thesis unfolding es_set using sq by force
    qed
  qed (simp_all add: mp)
  ultimately show ?thesis using run pr flds(1) by (auto simp: acct_inv_def)
qed

lemma migrate_2_to_3_ok:
  fixes m :: "(string \<times> string) list" and daily :: "daily_row list"
  assumes "distinct (map l_connection_id rows)"
  defines "db \<equiv> migrate_schema_2_to_3 rows m daily"
  shows "keys_inv db" "gen_inv db" "base_inv db" "\<forall>r \<in> set (connections db). c_export_seq r = None"
    and "map c_connection_id (connections db) = map l_connection_id rows"
    and "map c_upload_bytes (connections db) = map l_upload_bytes rows"
    and "map c_download_bytes (connections db) = map l_download_bytes rows"
proof -
  define up where "up = (\<lambda>i. upgrade_row (int i))"
  have c: "connections db = map2 up [1..<Suc (length rows)] rows"
    by (simp only: db_def migrate_schema_2_to_3_def meta_set_fields acct_db.select_convs up_def)
  have proj: "map f (connections db) = map g rows" if "\<And>i l. f (up i l) = g l" for f :: "conn_row \<Rightarrow> 'x" and g
    unfolding c by (rule nth_equalityI) (auto simp: that simp del: upt_Suc)
  have ids: "map c_event_id (connections db) = map int [1..<Suc (length rows)]"
    unfolding c by (rule nth_equalityI) (auto simp: up_def upgrade_row_def simp del: upt_Suc)
  show conn: "map c_connection_id (connections db) = map l_connection_id rows"
    and "map c_upload_bytes (connections db) = map l_upload_bytes rows"
    and "map c_download_bytes (connections db) = map l_download_bytes rows"
    by (rule proj, simp add: up_def upgrade_row_def)+
  show "\<forall>r \<in> set (connections db). c_export_seq r = None"
    unfolding c by (auto simp: up_def upgrade_row_def)
  have gen0: "c_generation r = 0" if "r \<in> set (connections db)" for r
    using that unfolding c by (auto simp: up_def upgrade_row_def)
  then show "gen_inv db" by (simp add: gen_inv_def)
  show "base_inv db" by (simp add: base_inv_def db_def migrate_schema_2_to_3_def)
  have eid_range: "1 \<le> c_event_id r \<and> c_event_id r \<le> int (length rows)" if "r \<in> set (connections db)" for r
  proof -
    have "c_event_id r \<in> set (map c_event_id (connections db))" using that by simp
    then show ?thesis unfolding ids by auto
  qed
  have "distinct (map c_connection_id (connections db))" using assms(1) conn by simp
  then have "distinct (map (\<lambda>r. (c_connection_id r, c_generation r)) (connections db))"
    by (simp add: distinct_map inj_on_def)
  moreover have "distinct (map c_event_id (connections db))"
    unfolding ids by (simp add: distinct_map)
  moreover have "conn_seq db = int (length rows)" by (simp add: db_def migrate_schema_2_to_3_def)
  ultimately show "keys_inv db" using eid_range by (simp add: keys_inv_def)
qed

end
