(* ===== verification/AcctDaemon.thy ===== *)
theory AcctDaemon
  imports AcctMaintInv
begin

text \<open>
  The collector process (\<open>lib/vincula-accountd.py\<close>): its settings and identity files, the tag
  map, and \<open>AccountDaemon._tick\<close> with its commit points.

  A tick works on an open transaction over the committed database.  \<open>ti_commit_ok\<close> says
  whether the COMMIT of the collected data succeeds; the COMMITs of maintenance are taken to
  succeed.  An exception ends the tick, and \<open>run\<close> rolls back to what was committed.
\<close>

section \<open>Settings and identity\<close>

definition toml_line :: "string \<Rightarrow> (string \<times> string) list \<Rightarrow> (string \<times> string) list" where
  "toml_line raw out =
     (let line = strip raw in
      if line = [] \<or> starts_with ''#'' line \<or> \<not> list_ex (\<lambda>c. c = CHR ''='') line then out
      else let key = strip (takeWhile (\<lambda>c. c \<noteq> CHR ''='') line);
               value = strip (tl (dropWhile (\<lambda>c. c \<noteq> CHR ''='') line));
               value = (if starts_with [char_of (34 :: nat)] value \<and> ends_with [char_of (34 :: nat)] value
                        then butlast (tl value) else value)
           in AList.update key value out)"

text \<open>A missing file has no lines.\<close>

definition parse_toml_simple :: "string list \<Rightarrow> (string \<times> string) list" where
  "parse_toml_simple lines = fold toml_line lines []"

definition settings_int :: "(string \<times> string) list \<Rightarrow> string \<Rightarrow> int \<Rightarrow> int" where
  "settings_int settings key dflt = (case map_of settings key of
     None \<Rightarrow> dflt
   | Some raw \<Rightarrow> if raw = [] then dflt
       else (case int_of_text raw of Some n \<Rightarrow> n | None \<Rightarrow> dflt))"

definition clash_url_from_settings :: "(string \<times> string) list \<Rightarrow> string" where
  "clash_url_from_settings settings =
     ''http://127.0.0.1:'' @ int_text (settings_int settings ''clash_api_port'' 9090) @ ''/connections''"

datatype json_file = FileMissing | FileUnreadable | FileData json

definition load_instance_id :: "json_file \<Rightarrow> string option" where
  "load_instance_id f = (case f of
     FileData (JObj d) \<Rightarrow> (case dget ''node'' d of
         JObj node \<Rightarrow> (case dget ''instance_id'' node of
             JStr raw \<Rightarrow> if \<not> uuid_ok raw then None
               else if py_eq_str (dget ''node_id'' node) raw then None else Some raw
           | _ \<Rightarrow> None)
       | _ \<Rightarrow> None)
   | _ \<Rightarrow> None)"

definition tag_entry :: "json \<Rightarrow> (string \<times> string) list \<Rightarrow> (string \<times> string) list res" where
  "tag_entry user mapping = (case user of
     JObj u \<Rightarrow> (let tag = dget ''tag'' u; uid = dget ''user_id'' u in
       Inr (if truthy tag \<and> truthy uid then AList.update (py_str tag) (py_str uid) mapping
            else mapping))
   | _ \<Rightarrow> Inl AttributeError)"

definition load_tag_to_user_id :: "json_file \<Rightarrow> (string \<times> string) list res" where
  "load_tag_to_user_id f = (case f of
     FileMissing \<Rightarrow> Inr []
   | FileUnreadable \<Rightarrow> Inl (SystemExit ''cannot load users.json for accounting'' 1)
   | FileData (JObj d) \<Rightarrow> (case dget_or ''users'' (JList []) d of
         JList users \<Rightarrow> rfold tag_entry users []
       | JObj kvs \<Rightarrow> if kvs = [] then Inr [] else Inl AttributeError
       | JStr s \<Rightarrow> if s = [] then Inr [] else Inl AttributeError
       | _ \<Rightarrow> Inl TypeError)
   | FileData _ \<Rightarrow> Inl AttributeError)"

section \<open>The daemon\<close>

record daemon =
  dm_known :: known
  dm_cycles :: nat
  dm_tags :: "(string \<times> string) list"
  dm_users_mtime :: "int option"
  dm_last_live_ids :: "string list option"

record daemon_config =
  cf_node_id :: string
  cf_instance_id :: "string option"
  cf_raw_days :: int
  cf_daily_days :: int

record tick_input =
  ti_now :: int
  ti_users_mtime :: "int option"
  ti_users :: json_file
  ti_fetched :: fetched
  ti_commit_ok :: bool

definition env_of :: "daemon_config \<Rightarrow> daemon \<Rightarrow> acct_env" where
  "env_of cf dm = \<lparr>g_node_id = cf_node_id cf, g_instance_id = cf_instance_id cf,
     g_tag_to_user_id = dm_tags dm\<rparr>"

definition reload_tag_map_if_changed :: "tick_input \<Rightarrow> daemon \<Rightarrow> daemon res" where
  "reload_tag_map_if_changed ti dm = (case ti_users_mtime ti of
     None \<Rightarrow> Inr dm
   | Some mtime \<Rightarrow>
       if dm_users_mtime dm = Some mtime then Inr dm
       else (case load_tag_to_user_id (ti_users ti) of
           Inl (SystemExit m c) \<Rightarrow> Inr (dm\<lparr>dm_users_mtime := Some mtime\<rparr>)
         | Inl e \<Rightarrow> Inl e
         | Inr new_map \<Rightarrow> Inr (dm\<lparr>dm_tags := new_map, dm_users_mtime := Some mtime\<rparr>)))"

text \<open>The snapshot ids a poll remembers, also when the writes that follow raise.\<close>

definition note_live_ids :: "acct_env \<Rightarrow> string \<Rightarrow> fetched \<Rightarrow> daemon \<Rightarrow> daemon" where
  "note_live_ids env clock f dm = (case f of
     FetchFailed \<Rightarrow> dm
   | Fetched data \<Rightarrow> (case decode_clash_connections_payload env clock data of
       Inl _ \<Rightarrow> dm
     | Inr live \<Rightarrow> dm\<lparr>dm_last_live_ids := Some (map ev_connection_id live)\<rparr>))"

text \<open>
  \<open>commit_accounting\<close>: the committed database and the cache after the call, and whether it
  raised.
\<close>

definition commit_accounting ::
    "bool \<Rightarrow> acct_db \<Rightarrow> acct_db \<Rightarrow> known \<Rightarrow> acct_db \<times> known \<times> exc option" where
  "commit_accounting ok committed working new_known =
     (if ok then (working, new_known, None)
      else (committed, reload_known_open_from_db committed, Some OperationalError))"

text \<open>The committed database and the daemon after maintenance.\<close>

definition maintain ::
    "daemon_config \<Rightarrow> int \<Rightarrow> acct_db \<Rightarrow> daemon \<Rightarrow> acct_db \<times> daemon \<times> exc option" where
  "maintain cf now db dm =
     (if dm_cycles dm = 1 \<or> dm_cycles dm mod 720 = 0 then
        (case rollup_daily_usage db of
           Inl e \<Rightarrow> (db, dm, Some e)
         | Inr db1 \<Rightarrow> (case apply_retention now db1 (cf_raw_days cf) (cf_daily_days cf) of
               Inl e \<Rightarrow> (db1, dm, Some e)
             | Inr db2 \<Rightarrow> (db2, dm, None)))
      else (db, dm, None))"

definition tick ::
    "daemon_config \<Rightarrow> (string list \<Rightarrow> string list) \<Rightarrow> tick_input \<Rightarrow> acct_db \<times> daemon
      \<Rightarrow> acct_db \<times> daemon \<times> exc option" where
  "tick cf ord ti s = (let (db, dm0) = s; clock = iso_utc (ti_now ti);
       dm1 = dm0\<lparr>dm_cycles := dm_cycles dm0 + 1\<rparr> in
     case reload_tag_map_if_changed ti dm1 of
       Inl e \<Rightarrow> (db, dm1, Some e)
     | Inr dm2 \<Rightarrow>
        (let env = env_of cf dm2; dm3 = note_live_ids env clock (ti_fetched ti) dm2 in
         case poll_clash env clock ord db (dm_known dm3) (ti_fetched ti) of
           Inl e \<Rightarrow> (db, dm3, Some e)
         | Inr (success, working, new_known) \<Rightarrow>
             if success then
               (case commit_accounting (ti_commit_ok ti) db
                     (meta_set working ''last_success_at'' clock) new_known of
                  (db', known', Some e) \<Rightarrow> (db', dm3\<lparr>dm_known := known'\<rparr>, Some e)
                | (db', known', None) \<Rightarrow> maintain cf (ti_now ti) db' (dm3\<lparr>dm_known := known'\<rparr>))
             else maintain cf (ti_now ti) db dm3))"

text \<open>\<open>run\<close> opens the database, fills the cache from it, and ticks until it is stopped.\<close>

definition start_daemon :: "acct_db \<Rightarrow> (string \<times> string) list \<Rightarrow> daemon" where
  "start_daemon db tags = \<lparr>dm_known = reload_known_open_from_db db, dm_cycles = 0, dm_tags = tags,
     dm_users_mtime = None, dm_last_live_ids = None\<rparr>"

inductive daemon_run ::
    "daemon_config \<Rightarrow> (string list \<Rightarrow> string list) \<Rightarrow> acct_db \<times> daemon \<Rightarrow> acct_db \<times> daemon \<Rightarrow> bool"
  for cf ord where
  run_refl: "daemon_run cf ord s s"
| run_tick: "daemon_run cf ord s (db, dm) \<Longrightarrow> tick cf ord ti (db, dm) = (db', dm', e)
    \<Longrightarrow> daemon_run cf ord s (db', dm')"
| run_restart: "daemon_run cf ord s (db, dm) \<Longrightarrow> daemon_run cf ord s (db, start_daemon db tags)"

inductive_cases daemon_runE: "daemon_run cf ord s s'"

end
