(* ===== verification/AuditExport.thy ===== *)
theory AuditExport
  imports AcctDaemon
begin

text \<open>
  \<open>lib/vincula-audit.py\<close>: interval queries and the Export Protocol v2 over the accounting
  database, opened read-only.  Rows and meta objects are the JSON the program prints.
\<close>

section \<open>Timestamps\<close>

definition days_from_civil :: "int \<Rightarrow> int \<Rightarrow> int \<Rightarrow> int" where
  "days_from_civil y m d =
     (let y' = (if m \<le> 2 then y - 1 else y); era = y' div 400; yoe = y' mod 400;
          doy = (153 * (if m > 2 then m - 3 else m + 9) + 2) div 5 + d - 1;
          doe = yoe * 365 + yoe div 4 - yoe div 100 + doy
      in era * 146097 + doe - 719468)"

definition days_in_month :: "int \<Rightarrow> int \<Rightarrow> int" where
  "days_in_month y m =
     (if m = 2 then (if y mod 4 = 0 \<and> (y mod 100 \<noteq> 0 \<or> y mod 400 = 0) then 29 else 28)
      else if m \<in> {4, 6, 9, 11} then 30 else 31)"

text \<open>The \<open>n\<close> characters of \<open>s\<close> from position \<open>i\<close>, read as digits.\<close>

definition field :: "nat \<Rightarrow> nat \<Rightarrow> string \<Rightarrow> int option" where
  "field i n s = (let t = take n (drop i s) in
     if length t = n \<and> list_all is_digit t then int_of_text t else None)"

text \<open>
  \<open>datetime.fromisoformat\<close> for \<open>YYYY-MM-DDTHH:MM:SS+HH:MM\<close> (25 characters), as seconds since
  the epoch; \<open>None\<close> is its \<open>ValueError\<close>.  The other shapes it accepts are outside the model.
\<close>

definition fromisoformat :: "string \<Rightarrow> int option res" where
  "fromisoformat s =
     (if length s \<noteq> 25 then Inl Unsupported
      else if \<not> (s ! 4 = CHR ''-'' \<and> s ! 7 = CHR ''-'' \<and> s ! 13 = CHR '':'' \<and> s ! 16 = CHR '':''
               \<and> s ! 22 = CHR '':'' \<and> s ! 19 \<in> {CHR ''+'', CHR ''-''}) then Inl Unsupported
      else (case (field 0 4 s, field 5 2 s, field 8 2 s, field 11 2 s, field 14 2 s, field 17 2 s,
                  field 20 2 s, field 23 2 s) of
          (Some y, Some mo, Some d, Some h, Some mi, Some sec, Some oh, Some om) \<Rightarrow>
            if 1 \<le> y \<and> 1 \<le> mo \<and> mo \<le> 12 \<and> 1 \<le> d \<and> d \<le> days_in_month y mo \<and> h \<le> 23 \<and> mi \<le> 59
               \<and> sec \<le> 59 \<and> oh * 3600 + om * 60 < 86400
            then Inr (Some (days_from_civil y mo d * 86400 + h * 3600 + mi * 60 + sec
                   - (if s ! 19 = CHR ''-'' then -1 else 1) * (oh * 3600 + om * 60)))
            else Inr None
        | _ \<Rightarrow> Inr None))"

definition parse_rfc3339 :: "string \<Rightarrow> string res" where
  "parse_rfc3339 s =
     (if strip s = [] then Inl (SystemExit ''invalid RFC3339 timestamp'' 1)
      else let raw = strip s in
       if \<not> list_ex (\<lambda>c. c = CHR ''T'' \<or> c = CHR ''t'') raw
       then Inl (SystemExit ''invalid RFC3339 timestamp'' 1)
       else let candidate = concat (map (\<lambda>c. if c = CHR ''Z'' \<or> c = CHR ''z'' then ''+00:00'' else [c]) raw) in
        rbind (fromisoformat candidate) (\<lambda>w. case w of
            None \<Rightarrow> Inl (SystemExit ''invalid RFC3339 timestamp'' 1)
          | Some n \<Rightarrow> if - 62135596800 \<le> n \<and> n \<le> 253402300799 then Inr (iso_utc n)
              else Inl OverflowError))"

section \<open>Interval queries\<close>

text \<open>A row as \<open>_row_dict\<close> returns it, keys in the order of \<open>ROW_KEYS\<close>.\<close>

definition row_dict :: "conn_row \<Rightarrow> dict" where
  "row_dict r =
     [(''event_id'', JInt (c_event_id r)), (''export_seq'', of_int_opt (c_export_seq r)),
      (''connection_id'', JStr (c_connection_id r)), (''generation'', JInt (c_generation r)),
      (''user_id'', JStr (c_user_id r)), (''user_tag'', of_text (c_user_tag r)),
      (''node_id'', JStr (c_node_id r)), (''instance_id'', of_text (c_instance_id r)),
      (''destination_host'', of_text (c_destination_host r)),
      (''destination_ip'', of_text (c_destination_ip r)),
      (''destination_port'', of_int_opt (c_destination_port r)),
      (''network'', of_text (c_network r)), (''upload_bytes'', JInt (c_upload_bytes r)),
      (''download_bytes'', JInt (c_download_bytes r)), (''started_at'', JStr (c_started_at r)),
      (''last_seen_at'', JStr (c_last_seen_at r)), (''closed_at'', of_text (c_closed_at r))]"

definition require_schema_4 :: "acct_db \<Rightarrow> unit res" where
  "require_schema_4 db = (if map_of (meta db) ''schema_version'' = Some ''4'' then Inr ()
     else Inl (SystemExit ''accounting database schema_version is not 4'' 1))"

text \<open>\<open>interval_overlap_sql\<close>: the connection interval meets \<open>[q_from, q_to)\<close>.\<close>

definition interval_overlap :: "string \<Rightarrow> string \<Rightarrow> conn_row \<Rightarrow> bool" where
  "interval_overlap q_from q_to r = (c_started_at r < q_to
     \<and> q_from \<le> (case c_closed_at r of Some t \<Rightarrow> t | None \<Rightarrow> c_last_seen_at r))"

record audit_filter =
  f_user_id :: "string option"
  f_user_tag :: "string option"
  f_dest_host :: "string option"
  f_dest_ip :: "string option"
  f_node_id :: "string option"

definition opt_text :: "string option \<Rightarrow> string option" where
  "opt_text v = (case v of None \<Rightarrow> None | Some s \<Rightarrow> text_or_none s)"

definition resolve_filter_user ::
    "audit_filter \<Rightarrow> (string \<times> string) list option \<Rightarrow> string option res" where
  "resolve_filter_user f users = (case opt_text (f_user_tag f) of
     None \<Rightarrow> Inr (opt_text (f_user_id f))
   | Some tag \<Rightarrow> (case users of
       None \<Rightarrow> Inl (SystemExit ''--users is required to resolve --user'' 1)
     | Some mapping \<Rightarrow> (case map_of mapping tag of
         None \<Rightarrow> Inl (SystemExit ''unknown user tag'' 1)
       | Some resolved \<Rightarrow>
           if resolved = [] then Inl (SystemExit ''unknown user tag'' 1)
           else (case opt_text (f_user_id f) of
               Some uid \<Rightarrow> if uid \<noteq> resolved
                 then Inl (SystemExit ''--user and --user-id refer to different users'' 1)
                 else Inr (Some resolved)
             | None \<Rightarrow> Inr (Some resolved)))))"

definition match_opt :: "string option \<Rightarrow> string option \<Rightarrow> bool" where
  "match_opt want have_v = (case want of None \<Rightarrow> True | Some w \<Rightarrow> have_v = Some w)"

definition filter_host :: "audit_filter \<Rightarrow> string option" where
  "filter_host f = (case opt_text (f_dest_host f) of None \<Rightarrow> None
     | Some h \<Rightarrow> normalize_destination_host (JStr h))"

definition query_audit ::
    "acct_db \<Rightarrow> string \<Rightarrow> string \<Rightarrow> audit_filter \<Rightarrow> (string \<times> string) list option \<Rightarrow> dict list res" where
  "query_audit db query_from query_to f users =
     rbind (parse_rfc3339 query_from) (\<lambda>q_from.
     rbind (parse_rfc3339 query_to) (\<lambda>q_to.
     if q_from > q_to then Inl (SystemExit ''--from must not be after --to'' 1)
     else rbind (require_schema_4 db) (\<lambda>_.
     rbind (resolve_filter_user f users) (\<lambda>uid.
       let rows = filter (\<lambda>r. interval_overlap q_from q_to r \<and> match_opt uid (Some (c_user_id r))
              \<and> match_opt (filter_host f) (c_destination_host r)
              \<and> match_opt (opt_text (f_dest_ip f)) (c_destination_ip r)
              \<and> match_opt (opt_text (f_node_id f)) (Some (c_node_id r))) (connections db)
       in Inr (map row_dict (sort_key (\<lambda>r. (c_started_at r, c_event_id r)) rows))))))"

section \<open>Cursor export\<close>

datatype export_status = ExportOk | CursorExpired | CursorAhead

text \<open>\<open>_meta_int\<close>: an absent or unreadable value is the default.\<close>

definition audit_meta_int :: "acct_db \<Rightarrow> string \<Rightarrow> int" where
  "audit_meta_int db key = (case map_of (meta db) key of None \<Rightarrow> 0
     | Some raw \<Rightarrow> (case int_of_text raw of Some n \<Rightarrow> n | None \<Rightarrow> 0))"

definition export_meta :: "bool \<Rightarrow> string option \<Rightarrow> int \<Rightarrow> int \<Rightarrow> int \<Rightarrow> int \<Rightarrow> int \<Rightarrow> dict" where
  "export_meta ok error after mx pruned cnt next_cursor =
     [(''ok'', JBool ok), (''protocol_version'', JInt 2), (''cursor_kind'', JStr ''export_seq'')]
     @ (case error of None \<Rightarrow> [] | Some e \<Rightarrow> [(''error'', JStr e)])
     @ [(''after'', JInt after), (''max_export_seq'', JInt mx), (''pruned_max_export_seq'', JInt pruned),
        (''count'', JInt cnt), (''node_id'', JNull), (''instance_id'', JNull),
        (''next_cursor'', JInt next_cursor)]"

text \<open>\<open>WHERE export_seq > after AND closed_at IS NOT NULL ORDER BY export_seq LIMIT limit\<close>.\<close>

definition export_rows :: "acct_db \<Rightarrow> int \<Rightarrow> int option \<Rightarrow> conn_row list" where
  "export_rows db after limit =
     (let rows = sort_key (\<lambda>r. the (c_export_seq r))
            (filter (\<lambda>r. (case c_export_seq r of None \<Rightarrow> False | Some s \<Rightarrow> s > after) \<and> \<not> open_row r)
              (connections db))
      in case limit of None \<Rightarrow> rows | Some n \<Rightarrow> limit_to n rows)"

definition export_after ::
    "acct_db \<Rightarrow> int \<Rightarrow> int option \<Rightarrow> (export_status \<times> dict list \<times> dict) res" where
  "export_after db after limit =
     (if after < 0 then Inl (SystemExit ''--after must be an integer >= 0'' 1)
      else if (case limit of None \<Rightarrow> False | Some n \<Rightarrow> n < 1)
      then Inl (SystemExit ''--limit must be an integer >= 1'' 1)
      else rbind (require_schema_4 db) (\<lambda>_.
        let mx = audit_meta_int db META_AUDIT_EXPORT_SEQ;
            pruned = audit_meta_int db META_AUDIT_PRUNED_MAX_EXPORT_SEQ
        in if after > 0 \<and> after < pruned
           then Inr (CursorExpired, [], export_meta False (Some ''CURSOR_EXPIRED'') after mx pruned 0 after)
           else if after > 0 \<and> after > mx
           then Inr (CursorAhead, [], export_meta False (Some ''CURSOR_AHEAD'') after mx pruned 0 after)
           else rbind (bind_ints (after # opt_ints limit)) (\<lambda>_.
             let rows = export_rows db after limit;
                 next_cursor = (if rows = [] then after else the (c_export_seq (last rows)))
             in Inr (ExportOk, map row_dict rows,
                  export_meta True None after mx pruned (int (length rows)) next_cursor))))"

text \<open>\<open>_apply_export_identity\<close> and \<open>stamp_export_rows\<close>.\<close>

definition set_opt :: "string \<Rightarrow> string option \<Rightarrow> dict \<Rightarrow> dict" where
  "set_opt k v d = (case v of None \<Rightarrow> d | Some s \<Rightarrow> AList.update k (JStr s) d)"

definition apply_export_identity :: "string option \<Rightarrow> string option \<Rightarrow> dict \<Rightarrow> dict" where
  "apply_export_identity nid iid m =
     set_opt ''instance_id'' (opt_text iid) (set_opt ''node_id'' (opt_text nid) m)"

definition stamp_field :: "string \<Rightarrow> string \<Rightarrow> dict \<Rightarrow> dict res" where
  "stamp_field k v row = (case optional_text (dget k row) of
     None \<Rightarrow> Inr (AList.update k (JStr v) row)
   | Some cur \<Rightarrow> if cur \<noteq> v then Inl (SystemExit (''JSONL row '' @ k @ '' mismatch'') 1) else Inr row)"

definition stamp_export_rows :: "string option \<Rightarrow> string option \<Rightarrow> dict list \<Rightarrow> dict list res" where
  "stamp_export_rows nid iid rows = (case nid of
     None \<Rightarrow> Inl (SystemExit ''--stamp-identity requires --node-id'' 1)
   | Some n \<Rightarrow> rmap (\<lambda>row. rbind (stamp_field ''node_id'' n row) (\<lambda>row.
       (case iid of None \<Rightarrow> Inr row | Some i \<Rightarrow> stamp_field ''instance_id'' i row))) rows)"

text \<open>The export command line; the values are the option texts, \<open>[]\<close> when not given.\<close>

record export_args =
  x_jsonl :: bool
  x_after :: "string option"
  x_limit :: "string option"
  x_interval_flags :: "string list"
  x_json_flag :: bool
  x_node_id :: string
  x_instance_id :: string
  x_stamp :: bool

text \<open>Exit code, JSONL rows on stdout and the meta object on stderr.\<close>

definition main_export :: "acct_db \<Rightarrow> export_args \<Rightarrow> (int \<times> dict list \<times> dict option) res" where
  "main_export db a =
     (if \<not> x_jsonl a \<or> x_after a = None then Inr (1, [], None)
      else if list_ex (\<lambda>s. s \<noteq> []) (x_interval_flags a) \<or> x_json_flag a then Inr (1, [], None)
      else (case int_of_text (the (x_after a)) of
          None \<Rightarrow> Inr (1, [], None)
        | Some after \<Rightarrow>
          (let lim = (case x_limit a of None \<Rightarrow> Some None
               | Some t \<Rightarrow> if strip t = [] then Some None
                   else (case int_of_text t of None \<Rightarrow> None | Some n \<Rightarrow> Some (Some n)))
           in case lim of
              None \<Rightarrow> Inr (1, [], None)
            | Some limit \<Rightarrow>
              rbind (export_after db after limit) (\<lambda>(status, rows, m).
              let m' = apply_export_identity (Some (x_node_id a)) (Some (x_instance_id a)) m in
              rbind (if x_stamp a
                     then stamp_export_rows (text_or_none (x_node_id a)) (text_or_none (x_instance_id a)) rows
                     else Inr rows) (\<lambda>rows'.
                if status = ExportOk then Inr (0, rows', Some m') else Inr (3, [], Some m'))))))"

end
