(* ===== verification/AcctDaemonInv.thy ===== *)
theory AcctDaemonInv
  imports AcctDaemon
begin

text \<open>
  Proofs about the collector process: its invariant over every run, with failed polls, failed
  commits, exceptions and restarts, and the append-only export log that the fleet reads.
\<close>

section \<open>The export log\<close>

text \<open>
  \<open>db'\<close> extends the log of \<open>db\<close>: a closed row stays as it is until retention removes it under
  the pruned marker, and no row appears later under a number already handed out.
\<close>

definition log_extends :: "acct_db \<Rightarrow> acct_db \<Rightarrow> bool" where
  "log_extends db db' \<longleftrightarrow> seq_counter db \<le> seq_counter db' \<and> pruned_seq db \<le> pruned_seq db'
     \<and> (\<forall>r \<in> set (connections db). \<not> open_row r \<longrightarrow> r \<in> set (connections db') \<or>
          (\<forall>s. c_export_seq r = Some s \<longrightarrow> s \<le> pruned_seq db'))
     \<and> (\<forall>r \<in> set (connections db'). \<forall>s. c_export_seq r = Some s \<longrightarrow> s \<le> seq_counter db \<longrightarrow>
          r \<in> set (connections db))"

lemma log_extends_refl: "log_extends db db"
  by (simp add: log_extends_def)

lemma log_extends_trans:
  assumes 1: "log_extends a b" and 2: "log_extends b c"
  shows "log_extends a c"
  unfolding log_extends_def
proof (intro conjI ballI allI impI)
  show "seq_counter a \<le> seq_counter c" "pruned_seq a \<le> pruned_seq c"
    using 1 2 by (auto simp: log_extends_def)
next
  fix r assume r: "r \<in> set (connections a)" "\<not> open_row r"
  show "r \<in> set (connections c) \<or> (\<forall>s. c_export_seq r = Some s \<longrightarrow> s \<le> pruned_seq c)"
  proof (cases "r \<in> set (connections b)")
    case True
    with 2 r show ?thesis by (simp add: log_extends_def)
  next
    case False
    with 1 r have "\<forall>s. c_export_seq r = Some s \<longrightarrow> s \<le> pruned_seq b" by (auto simp: log_extends_def)
    moreover have "pruned_seq b \<le> pruned_seq c" using 2 by (simp add: log_extends_def)
    ultimately show ?thesis by auto
  qed
next
  fix r s assume r: "r \<in> set (connections c)" "c_export_seq r = Some s" "s \<le> seq_counter a"
  moreover from r(3) have "s \<le> seq_counter b" using 1 by (simp add: log_extends_def)
  ultimately show "r \<in> set (connections a)" using 1 2 unfolding log_extends_def by blast
qed

lemma evolves_log: "evolves db db' \<Longrightarrow> log_extends db db'"
  using evolves_pruned [of db db'] by (fastforce simp: log_extends_def evolves_def row_grows_def)

lemma retained_log: "retained db db' gone \<Longrightarrow> log_extends db db'"
  by (auto simp: log_extends_def retained_def)

lemma log_same:
  "connections db' = connections db \<Longrightarrow> seq_counter db' = seq_counter db \<Longrightarrow> pruned_seq db' = pruned_seq db
    \<Longrightarrow> log_extends db db'"
  by (simp add: log_extends_def)

section \<open>Durable state across maintenance\<close>

lemma durable_kept:
  assumes inv: "acct_inv db" and keep: "\<And>r. r \<in> set (connections db) \<Longrightarrow> open_row r \<Longrightarrow> r \<in> set (connections db')"
    and sub: "set (connections db') \<subseteq> set (connections db)"
    and base: "poll_baseline db' = poll_baseline db" and inv': "acct_inv db'"
    and d: "durable_prev_state db c = Some st"
  shows "durable_prev_state db' c = Some st"
proof -
  from durable_prev_state_Some [OF inv d] obtain b r where
    "load_poll_baseline db c = Some b" and r: "r \<in> set (connections db)" "row_at c (b_generation b) r" "open_row r"
    and st: "st = entry_of c b r" by blast
  then have l: "load_poll_baseline db' c = Some b" by (simp add: load_poll_baseline_def base)
  have "r \<in> set (connections db')" by (rule keep [OF r(1,3)])
  from durable_prev_stateI [OF inv' l this r(2,3)] st show ?thesis by simp
qed

lemma known_ok_kept:
  assumes "acct_inv db" "\<And>r. r \<in> set (connections db) \<Longrightarrow> open_row r \<Longrightarrow> r \<in> set (connections db')"
    and "set (connections db') \<subseteq> set (connections db)"
    and "poll_baseline db' = poll_baseline db" "acct_inv db'" and k: "known_ok db known"
  shows "known_ok db' known"
  unfolding known_ok_def
proof
  fix c assume "c \<in> fst ` set known"
  with known_okD [OF k] obtain st where "durable_prev_state db c = Some st" by blast
  from durable_kept [OF assms(1-5) this] show "durable_prev_state db' c \<noteq> None" by simp
qed

lemma fold_update_keys: "fst ` set (fold (\<lambda>(k, v). AList.update k v) ps al) = fst ` set al \<union> fst ` set ps"
proof (induction ps arbitrary: al)
  case (Cons p ps)
  obtain k v where p: "p = (k, v)" by (cases p)
  have "fst ` set (fold (\<lambda>(k, v). AList.update k v) (p # ps) al)
      = fst ` set (AList.update k v al) \<union> fst ` set ps" by (simp add: p Cons.IH)
  also have "\<dots> = insert k (fst ` set al) \<union> fst ` set ps" by (simp only: keys_update)
  finally show ?case by (auto simp: p)
qed simp

text \<open>A cache loaded from the database holds exactly the durable states.\<close>

lemma reload_known_ok:
  assumes inv: "acct_inv db" shows "known_ok db (reload_known_open_from_db db)"
  unfolding known_ok_def
proof
  fix c assume "c \<in> fst ` set (reload_known_open_from_db db)"
  then obtain b r where b: "(c, b) \<in> set (poll_baseline db)"
    and r: "r \<in> set (connections db)" "row_at c (b_generation b) r" "open_row r"
    unfolding reload_known_open_from_db_def fold_update_keys by auto
  have "load_poll_baseline db c = Some b"
    using inv b by (simp add: load_poll_baseline_def acct_inv_def base_inv_def)
  from durable_prev_stateI [OF inv this r] show "durable_prev_state db c \<noteq> None" by simp
qed

section \<open>The daemon's invariant\<close>

definition daemon_inv :: "acct_db \<times> daemon \<Rightarrow> bool" where
  "daemon_inv s \<longleftrightarrow> acct_inv (fst s) \<and> cov_inv (fst s) \<and> known_ok (fst s) (dm_known (snd s))"

lemma maintain_ok:
  assumes inv: "acct_inv db" and cov: "cov_inv db" and known: "known_ok db (dm_known dm)"
    and m: "maintain cf now db dm = (db', dm', e)"
  shows "daemon_inv (db', dm')" "log_extends db db'" "poll_baseline db' = poll_baseline db" "dm' = dm"
proof -
  have "daemon_inv (db', dm') \<and> log_extends db db' \<and> poll_baseline db' = poll_baseline db \<and> dm' = dm"
  proof (cases "(dm_cycles dm = 1 \<or> dm_cycles dm mod 720 = 0) \<and> (\<exists>db1. rollup_daily_usage db = Inr db1)")
    case False
    with m have "db' = db" "dm' = dm" by (auto simp: maintain_def split: sum.splits if_splits)
    with inv cov known show ?thesis by (simp add: daemon_inv_def log_extends_refl)
  next
    case True
    then obtain db1 where ro: "rollup_daily_usage db = Inr db1" by blast
    obtain ds where db1: "db1 = db\<lparr>daily_usage := ds\<rparr>" using rollup_cases(3) [OF ro] by blast
    have inv1: "acct_inv db1" "cov_inv db1" using inv cov by (simp_all add: db1 daily_usage_frame)
    obtain db2 where re: "apply_retention now db1 (cf_raw_days cf) (cf_daily_days cf) = Inr db2"
      using apply_retention_total [OF inv1(2)] by blast
    with m True ro have db': "db' = db2" "dm' = dm" by (auto simp: maintain_def)
    note rt = apply_retention_ok [OF inv1 re]
    have keep: "r \<in> set (connections db2)" if "r \<in> set (connections db)" "open_row r" for r
      using rt(3) that by (auto simp: retained_def db1)
    have sub: "set (connections db2) \<subseteq> set (connections db)"
      using rt(3) by (auto simp: retained_def db1)
    have base: "poll_baseline db2 = poll_baseline db" using rt(4) by (simp add: db1)
    have "known_ok db2 (dm_known dm)" by (rule known_ok_kept [OF inv keep sub base rt(1) known])
    moreover have "log_extends db db1" by (rule log_same) (simp_all add: db1 daily_usage_frame)
    then have "log_extends db db2" by (rule log_extends_trans) (rule retained_log [OF rt(3)])
    ultimately show ?thesis using rt(1,2) base by (simp add: db' daemon_inv_def)
  qed
  then show "daemon_inv (db', dm')" "log_extends db db'" "poll_baseline db' = poll_baseline db" "dm' = dm"
    by auto
qed

lemma reload_tags_known: "reload_tag_map_if_changed ti dm = Inr dm' \<Longrightarrow>
    dm_known dm' = dm_known dm \<and> dm_cycles dm' = dm_cycles dm"
  by (auto simp: reload_tag_map_if_changed_def split: option.splits if_splits sum.splits exc.splits)

lemma note_live_ids_known: "dm_known (note_live_ids env clock f dm) = dm_known dm"
  by (simp add: note_live_ids_def split: fetched.split sum.split)

lemma poll_clash_inv:
  assumes ord: "iteration_order ord" and inv: "acct_inv db" and clock: "clock \<noteq> []"
    and known: "known_ok db known" and p: "poll_clash env clock ord db known f = Inr (ok, db', nk)"
  shows "acct_inv db'" "evolves db db'" "known_ok db' nk" "\<not> ok \<Longrightarrow> db' = db \<and> nk = known"
proof -
  have "acct_inv db' \<and> evolves db db' \<and> known_ok db' nk \<and> (\<not> ok \<longrightarrow> db' = db \<and> nk = known)"
    using p
  proof (cases rule: poll_clash_cases)
    case failed
    with inv known show ?thesis by simp
  next
    case (polled live db1 db2 n data)
    from poll_clash_effect [OF ord inv clock known polled(3) p [unfolded polled(2)]]
    show ?thesis using polled(1) by (simp add: poll_effect_def)
  qed
  then show "acct_inv db'" "evolves db db'" "known_ok db' nk" "\<not> ok \<Longrightarrow> db' = db \<and> nk = known" by auto
qed

lemma tick_ok:
  assumes ord: "iteration_order ord" and d: "daemon_inv (db, dm)"
    and t: "tick cf ord ti (db, dm) = (db', dm', e)"
  shows "daemon_inv (db', dm')" "log_extends db db'"
proof -
  let ?dm1 = "dm\<lparr>dm_cycles := dm_cycles dm + 1\<rparr>"
  let ?clock = "iso_utc (ti_now ti)"
  from d have inv: "acct_inv db" and cov: "cov_inv db" and known: "known_ok db (dm_known dm)"
    by (simp_all add: daemon_inv_def)
  have same: "daemon_inv (db, x)" if "dm_known x = dm_known dm" for x
    using inv cov known that by (simp add: daemon_inv_def)
  have "daemon_inv (db', dm') \<and> log_extends db db'"
  proof (cases "reload_tag_map_if_changed ti ?dm1")
    case (Inl err)
    with t have "db' = db" "dm' = ?dm1" by (simp_all add: tick_def Let_def)
    with same [of ?dm1] show ?thesis by (simp add: log_extends_refl)
  next
    case (Inr dm2)
    define env where "env = env_of cf dm2"
    define dm3 where "dm3 = note_live_ids env ?clock (ti_fetched ti) dm2"
    have k3: "dm_known dm3 = dm_known dm"
      using reload_tags_known [OF Inr] by (simp add: dm3_def note_live_ids_known)
    show ?thesis
    proof (cases "poll_clash env ?clock ord db (dm_known dm3) (ti_fetched ti)")
      case err: (Inl e2)
      with t Inr have "db' = db" "dm' = dm3" by (simp_all add: tick_def Let_def env_def dm3_def)
      with same [OF k3] show ?thesis by (simp add: log_extends_refl)
    next
      case res: (Inr p)
      obtain ok working nk where p: "p = (ok, working, nk)" by (cases p)
      have known3: "known_ok db (dm_known dm3)" using known k3 by simp
      note pc = poll_clash_inv [OF ord inv iso_utc_nonempty known3 res [unfolded p]]
      show ?thesis
      proof (cases ok)
        case False
        with t Inr res p have m: "maintain cf (ti_now ti) db dm3 = (db', dm', e)"
          by (simp add: tick_def Let_def env_def dm3_def)
        from maintain_ok(1,2) [OF inv cov known3 m] show ?thesis by simp
      next
        case True
        define w where "w = meta_set working ''last_success_at'' ?clock"
        have w: "acct_inv w" "cov_inv w" "connections w = connections working"
          using pc(1) evolves_cov [OF pc(2) cov] by (simp_all add: w_def meta_set_other_inv)
        have "same_for c working w" for c
          by (simp add: same_for_def rows_of_def w_def load_poll_baseline_def)
        note durable_prev_state_cong [OF this]
        then have kw: "known_ok w nk" using pc(3) by (simp add: known_ok_def)
        have "log_extends db working" by (rule evolves_log [OF pc(2)])
        moreover have "log_extends working w" by (rule log_same) (simp_all add: w_def meta_set_other_inv)
        ultimately have lw: "log_extends db w" by (rule log_extends_trans)
        show ?thesis
        proof (cases "ti_commit_ok ti")
          case False
          with t Inr res p True have "db' = db" "dm' = dm3\<lparr>dm_known := reload_known_open_from_db db\<rparr>"
            by (auto simp: tick_def Let_def env_def dm3_def commit_accounting_def)
          with inv cov show ?thesis by (simp add: daemon_inv_def reload_known_ok log_extends_refl)
        next
          case commit: True
          with t Inr res p True have m: "maintain cf (ti_now ti) w (dm3\<lparr>dm_known := nk\<rparr>) = (db', dm', e)"
            by (simp add: tick_def Let_def env_def dm3_def commit_accounting_def w_def)
          have "known_ok w (dm_known (dm3\<lparr>dm_known := nk\<rparr>))" using kw by simp
          note mo = maintain_ok(1,2) [OF w(1,2) this m]
          from mo(1) log_extends_trans [OF lw mo(2)] show ?thesis by simp
        qed
      qed
    qed
  qed
  then show "daemon_inv (db', dm')" "log_extends db db'" by auto
qed

lemma daemon_run_ok:
  assumes "daemon_run cf ord s s'" and "iteration_order ord" and "daemon_inv s"
  shows "daemon_inv s' \<and> log_extends (fst s) (fst s')"
  using assms(1,3)
proof induction
  case (run_refl s)
  then show ?case by (simp add: log_extends_refl)
next
  case (run_tick s db dm ti db' dm' e)
  then have "daemon_inv (db, dm)" "log_extends (fst s) db" by auto
  with tick_ok [OF assms(2) _ run_tick(2)] show ?case by (auto intro: log_extends_trans)
next
  case (run_restart s db dm tags)
  then show ?case by (simp add: daemon_inv_def start_daemon_def reload_known_ok)
qed

end
