(* ===== verification/AcctProps.thy ===== *)
theory AcctProps
  imports AcctDaemonInv
begin

text \<open>
  The properties of the collector, each with a run on a concrete database where its hypotheses
  hold: one closed connection with export number 1, and one open connection tracked at 100
  bytes up and 10 down.
\<close>

section \<open>A concrete database and snapshot\<close>

definition ex_config :: daemon_config where
  "ex_config = \<lparr>cf_node_id = ''n1'', cf_instance_id = None, cf_raw_days = 30, cf_daily_days = 90\<rparr>"

definition ex_env :: acct_env where
  "ex_env = \<lparr>g_node_id = ''n1'', g_instance_id = None, g_tag_to_user_id = [(''u'', ''user'')]\<rparr>"

definition ex_row :: "int \<Rightarrow> string \<Rightarrow> string option \<Rightarrow> int \<Rightarrow> int \<Rightarrow> int option \<Rightarrow> conn_row" where
  "ex_row eid cid closed up dn sq =
     \<lparr>c_event_id = eid, c_connection_id = cid, c_generation = 0, c_user_id = ''user'',
      c_node_id = ''n1'', c_instance_id = None, c_user_tag = Some ''u'',
      c_started_at = ''2024-01-01T00:00:00Z'', c_last_seen_at = ''2024-01-01T00:00:10Z'',
      c_closed_at = closed, c_destination_host = Some ''h'', c_destination_ip = None,
      c_destination_port = Some 443, c_network = None, c_upload_bytes = up, c_download_bytes = dn,
      c_export_seq = sq\<rparr>"

definition ex_db :: acct_db where
  "ex_db = \<lparr>connections = [ex_row 1 ''a'' (Some ''2024-01-01T00:00:10Z'') 7 8 (Some 1),
       ex_row 2 ''b'' None 100 10 None],
     conn_seq = 2,
     poll_baseline = [(''b'', \<lparr>b_generation = 0, b_raw_up = 100, b_raw_dn = 10, b_acc_up = 100,
       b_acc_dn = 10, b_last_seen_at = ''2024-01-01T00:00:10Z''\<rparr>)],
     meta = [(META_AUDIT_EXPORT_SEQ, ''1''), (META_AUDIT_PRUNED_MAX_EXPORT_SEQ, ''0'')],
     daily_usage = []\<rparr>"

definition ex_conn :: "string \<Rightarrow> int \<Rightarrow> int \<Rightarrow> json" where
  "ex_conn cid up dn = JObj [(''id'', JStr cid), (''chains'', JList [JStr ''acct/u'']),
     (''upload'', JInt up), (''download'', JInt dn)]"

definition ex_data :: "json list \<Rightarrow> json" where
  "ex_data cs = JObj [(''connections'', JList cs)]"

lemma ex_meta [simp]: "meta_int ex_db META_AUDIT_EXPORT_SEQ = Inr 1"
  "meta_int ex_db META_AUDIT_PRUNED_MAX_EXPORT_SEQ = Inr 0"
  by code_simp+

lemma ex_inv: "acct_inv ex_db"
proof -
  have sc: "seq_counter ex_db = 1" by (simp add: seq_counter_def)
  have "keys_inv ex_db" "gen_inv ex_db" "base_inv ex_db"
    by (simp_all add: keys_inv_def gen_inv_def base_inv_def ex_db_def ex_row_def row_at_def)
  moreover have "seq_inv ex_db"
    unfolding seq_inv_def sc by (simp, simp add: ex_db_def ex_row_def)
  ultimately show ?thesis by (simp add: acct_inv_def)
qed

lemma ex_cov: "cov_inv ex_db"
proof -
  have "seq_counter ex_db = 1" "pruned_seq ex_db = 0" by (simp_all add: seq_counter_def pruned_seq_def)
  then show ?thesis by (simp add: cov_inv_def) (simp add: ex_db_def ex_row_def)
qed

lemma ex_known: "known_ok ex_db (reload_known_open_from_db ex_db)"
  by (rule reload_known_ok [OF ex_inv])

lemma ex_order: "iteration_order (\<lambda>xs. xs)"
  by (rule insertion_order.iteration_order_axioms)

section \<open>Properties of a poll\<close>

text \<open>The bytes one poll adds to a connection, from its durable counters and the snapshot.\<close>

definition accounted :: "acct_db \<Rightarrow> event list \<Rightarrow> string \<Rightarrow> int \<times> int" where
  "accounted db live cid = (case snapshot live cid of None \<Rightarrow> (0, 0)
     | Some ev \<Rightarrow> delta_of (durable_prev_state db cid) (counters ev))"

text \<open>
  C1: a successful poll adds to every connection exactly the growth of its Clash counters since
  the counters last written to the database, nothing for a connection seen for the first time,
  adopted again or reset, and nothing for a connection that left the snapshot.
\<close>

theorem poll_accounts_exactly:
  assumes "iteration_order ord" "acct_inv db" "known_ok db known" "clock \<noteq> []"
    and "decode_clash_connections_payload env clock data = Inr live"
    and "poll_clash env clock ord db known (Fetched data) = Inr (ok, db', nk)"
  shows "total_up db' cid = total_up db cid + fst (accounted db live cid)
    \<and> total_dn db' cid = total_dn db cid + snd (accounted db live cid)"
proof -
  from poll_clash_effect(2) [OF assms(1,2,4,3,5,6)]
  have "case snapshot live cid of None \<Rightarrow> totals db' cid = totals db cid
      | Some e \<Rightarrow> moved db cid (counters e) db'"
    unfolding poll_effect_def by blast
  then show ?thesis
    by (cases "snapshot live cid") (auto simp: accounted_def moved_def split_beta)
qed

definition ex_poll :: "(bool \<times> acct_db \<times> known) res" where
  "ex_poll = poll_clash ex_env ''t'' (\<lambda>xs. xs) ex_db (reload_known_open_from_db ex_db)
     (Fetched (ex_data [ex_conn ''b'' 150 30, ex_conn ''c'' 5 5]))"

lemma ex_poll_ok: obtains db' nk where "ex_poll = Inr (True, db', nk)"
proof -
  have "case ex_poll of Inr (ok, _, _) \<Rightarrow> ok | Inl _ \<Rightarrow> False" by code_simp
  then show thesis using that by (auto split: sum.splits)
qed

definition ex_live :: "event list" where
  "ex_live = (case decode_clash_connections_payload ex_env ''t''
       (ex_data [ex_conn ''b'' 150 30, ex_conn ''c'' 5 5]) of Inr l \<Rightarrow> l | Inl _ \<Rightarrow> [])"

lemma ex_live: "decode_clash_connections_payload ex_env ''t''
    (ex_data [ex_conn ''b'' 150 30, ex_conn ''c'' 5 5]) = Inr ex_live"
  by code_simp

theorem poll_accounts_exactly_witness:
  "case ex_poll of Inr (ok, db', nk) \<Rightarrow>
     total_up db' ''b'' = 150 \<and> total_dn db' ''b'' = 30 | Inl _ \<Rightarrow> False"
proof (rule ex_poll_ok)
  fix db' nk assume r: "ex_poll = Inr (True, db', nk)"
  have "accounted ex_db ex_live ''b'' = (50, 20)" "total_up ex_db ''b'' = 100" "total_dn ex_db ''b'' = 10"
    by code_simp+
  with poll_accounts_exactly [OF ex_order ex_inv ex_known _ ex_live r [unfolded ex_poll_def], of "''b''"]
  show ?thesis by (simp add: r)
qed

text \<open>
  After a successful poll every open row belongs to a connection of the snapshot, and the
  cache holds only connections of the snapshot whose state is in the database.
\<close>

theorem poll_closes_absent:
  assumes "iteration_order ord" "acct_inv db" "known_ok db known" "clock \<noteq> []"
    and "decode_clash_connections_payload env clock data = Inr live"
    and "poll_clash env clock ord db known (Fetched data) = Inr (ok, db', nk)"
  shows "(\<forall>r \<in> set (connections db'). open_row r \<longrightarrow> c_connection_id r \<in> ev_connection_id ` set live)
    \<and> fst ` set nk \<subseteq> ev_connection_id ` set live \<and> known_ok db' nk"
  using poll_clash_effect [OF assms(1,2,4,3,5,6)] by (auto simp: poll_effect_def)

theorem poll_closes_absent_witness:
  "case poll_clash ex_env ''t'' (\<lambda>xs. xs) ex_db (reload_known_open_from_db ex_db) (Fetched (ex_data []))
   of Inr (ok, db', nk) \<Rightarrow> list_all (\<lambda>r. \<not> open_row r) (connections db') \<and> nk = [] | Inl _ \<Rightarrow> False"
proof -
  have "case poll_clash ex_env ''t'' (\<lambda>xs. xs) ex_db (reload_known_open_from_db ex_db)
      (Fetched (ex_data [])) of Inr (ok, _, _) \<Rightarrow> ok | Inl _ \<Rightarrow> False" by code_simp
  then obtain db' nk where r: "poll_clash ex_env ''t'' (\<lambda>xs. xs) ex_db (reload_known_open_from_db ex_db)
      (Fetched (ex_data [])) = Inr (True, db', nk)"
    by (auto split: sum.splits)
  have "decode_clash_connections_payload ex_env ''t'' (ex_data []) = Inr []" by code_simp
  from poll_closes_absent [OF ex_order ex_inv ex_known _ this r] show ?thesis
    by (auto simp: r list_all_iff)
qed

section \<open>Many polls of one connection\<close>

definition poll_again ::
    "acct_env \<Rightarrow> (string list \<Rightarrow> string list) \<Rightarrow> string \<times> json \<Rightarrow> acct_db \<times> known \<Rightarrow> (acct_db \<times> known) res" where
  "poll_again env ord p s = rbind (poll_clash env (fst p) ord (fst s) (snd s) (Fetched (snd p)))
     (\<lambda>(_, db', nk). Inr (db', nk))"

text \<open>The poll \<open>p\<close> shows connection \<open>cid\<close> at the counters \<open>c\<close>.\<close>

definition shows_at :: "acct_env \<Rightarrow> string \<Rightarrow> string \<times> json \<Rightarrow> int \<times> int \<Rightarrow> bool" where
  "shows_at env cid p c = (fst p \<noteq> [] \<and> (case decode_clash_connections_payload env (fst p) (snd p) of
     Inr live \<Rightarrow> (case snapshot live cid of Some ev \<Rightarrow> counters ev = Some c | None \<Rightarrow> False)
   | Inl _ \<Rightarrow> False))"

fun counters_rise :: "int \<times> int \<Rightarrow> (int \<times> int) list \<Rightarrow> bool" where
  "counters_rise c [] = True"
| "counters_rise c (c' # cs) = (fst c \<le> fst c' \<and> snd c \<le> snd c' \<and> counters_rise c' cs)"

lemma poll_again_cases:
  assumes "iteration_order ord" "acct_inv db" "known_ok db known" "shows_at env cid p c"
    and "poll_again env ord p (db, known) = Inr (db', nk)"
  shows "acct_inv db'" "known_ok db' nk" "moved db cid (Some c) db'"
proof -
  obtain live ev where l: "decode_clash_connections_payload env (fst p) (snd p) = Inr live"
    "snapshot live cid = Some ev" "counters ev = Some c" "fst p \<noteq> []"
    using assms(4) by (auto simp: shows_at_def split: sum.splits option.splits)
  obtain ok where "poll_clash env (fst p) ord db known (Fetched (snd p)) = Inr (ok, db', nk)"
    using assms(5) by (auto simp: poll_again_def res_simps)
  from poll_clash_effect(2) [OF assms(1,2) l(4) assms(3) l(1) this] have
    e: "poll_effect db live db' nk" .
  then show "acct_inv db'" "known_ok db' nk" by (simp_all add: poll_effect_def)
  have "case snapshot live cid of None \<Rightarrow> totals db' cid = totals db cid
      | Some e \<Rightarrow> moved db cid (counters e) db'"
    using e unfolding poll_effect_def by blast
  then show "moved db cid (Some c) db'" using l by simp
qed

text \<open>
  Over any number of polls that all show a tracked connection with counters that never
  fall, the bytes accounted to it grow by the last counter minus the first: no poll counts a
  byte twice and none is lost, whatever else the polls contain.
\<close>

theorem polls_telescope:
  assumes "iteration_order ord" "acct_inv db" "known_ok db known"
    and "durable_prev_state db cid = Some st" "list_all2 (shows_at env cid) ps cs"
    and "counters_rise (k_raw_up st, k_raw_dn st) cs"
    and "rfold (poll_again env ord) ps (db, known) = Inr (db', nk)"
  shows "total_up db' cid = total_up db cid + (fst (last ((k_raw_up st, k_raw_dn st) # cs)) - k_raw_up st)
    \<and> total_dn db' cid = total_dn db cid + (snd (last ((k_raw_up st, k_raw_dn st) # cs)) - k_raw_dn st)"
  using assms(2-)
proof (induction ps arbitrary: db known st cs)
  case Nil
  then show ?case by simp
next
  case (Cons p ps)
  from Cons.prems(4) obtain c cs' where cs: "cs = c # cs'" "shows_at env cid p c"
    "list_all2 (shows_at env cid) ps cs'" by (auto simp: list_all2_Cons1)
  obtain u d where c: "c = (u, d)" by (cases c)
  from Cons.prems(6) obtain db1 k1 where s: "poll_again env ord p (db, known) = Inr (db1, k1)"
    and rest: "rfold (poll_again env ord) ps (db1, k1) = Inr (db', nk)" by (auto simp: res_simps)
  note 1 = poll_again_cases [OF assms(1) Cons.prems(1,2) cs(2) s]
  obtain st1 where st1: "durable_prev_state db1 cid = Some st1" "k_raw_up st1 = u" "k_raw_dn st1 = d"
    using 1(3) by (auto simp: moved_def c)
  have le: "k_raw_up st \<le> u" "k_raw_dn st \<le> d" "counters_rise (u, d) cs'"
    using Cons.prems(5) by (simp_all add: cs(1) c)
  have t: "total_up db1 cid = total_up db cid + (u - k_raw_up st)"
    "total_dn db1 cid = total_dn db cid + (d - k_raw_dn st)"
    using 1(3) Cons.prems(3) le by (simp_all add: moved_def c delta_of_def)
  from Cons.IH [OF 1(1,2) st1(1) cs(3) _ rest] st1(2,3) le(3) t show ?case
    by (simp add: cs(1) c)
qed

theorem polls_telescope_witness:
  "case rfold (poll_again ex_env (\<lambda>xs. xs)) [(''t'', ex_data [ex_conn ''b'' 150 30]),
       (''u'', ex_data [ex_conn ''b'' 150 40, ex_conn ''x'' 1 1])] (ex_db, reload_known_open_from_db ex_db) of
     Inr (db', _) \<Rightarrow> total_up db' ''b'' = 150 \<and> total_dn db' ''b'' = 40 | Inl _ \<Rightarrow> False"
proof -
  let ?ps = "[(''t'', ex_data [ex_conn ''b'' 150 30]), (''u'', ex_data [ex_conn ''b'' 150 40, ex_conn ''x'' 1 1])]"
  let ?run = "rfold (poll_again ex_env (\<lambda>xs. xs)) ?ps (ex_db, reload_known_open_from_db ex_db)"
  have "case ?run of Inr _ \<Rightarrow> True | Inl _ \<Rightarrow> False" by code_simp
  then obtain db' nk where r: "?run = Inr (db', nk)" by (auto split: sum.splits)
  obtain st where st: "durable_prev_state ex_db ''b'' = Some st" "k_raw_up st = 100" "k_raw_dn st = 10"
  proof -
    have "case durable_prev_state ex_db ''b'' of Some st \<Rightarrow> k_raw_up st = 100 \<and> k_raw_dn st = 10
      | None \<Rightarrow> False" by code_simp
    then show thesis using that by (auto split: option.splits)
  qed
  have "list_all2 (shows_at ex_env ''b'') ?ps [(150, 30), (150, 40)]" by code_simp
  moreover have "total_up ex_db ''b'' = 100" "total_dn ex_db ''b'' = 10" by code_simp+
  ultimately have "total_up db' ''b'' = 150 \<and> total_dn db' ''b'' = 40"
    using polls_telescope [OF ex_order ex_inv ex_known st(1) _ _ r, of "[(150, 30), (150, 40)]"] st(2,3)
    by simp
  then show ?thesis by (simp only: r sum.case prod.case)
qed

section \<open>Properties of the running collector\<close>

text \<open>
  C2: every run of the collector keeps the database invariant: keys unique, exactly the closed
  rows numbered and no number twice, an open row only in the latest generation of its
  connection, baselines agreeing with their open rows, every number handed out on a row or
  below the pruned marker, and a cache of durable states only.  A run is any sequence of
  ticks, with failed polls, failed commits and exceptions, and of restarts.
\<close>

theorem daemon_safe:
  assumes "iteration_order ord" "acct_inv db" "cov_inv db"
    and "daemon_run cf ord (db, start_daemon db tags) (db', dm')"
  shows "acct_inv db' \<and> cov_inv db' \<and> known_ok db' (dm_known dm')"
proof -
  have "daemon_inv (db, start_daemon db tags)"
    using assms(2,3) by (simp add: daemon_inv_def start_daemon_def reload_known_ok)
  from daemon_run_ok [OF assms(4,1) this] show ?thesis by (simp add: daemon_inv_def)
qed

definition ex_tick :: "json list \<Rightarrow> tick_input" where
  "ex_tick cs = \<lparr>ti_now = 1704067260, ti_users_mtime = None, ti_users = FileMissing,
     ti_fetched = Fetched (ex_data cs), ti_commit_ok = True\<rparr>"

definition ex_run :: "json list \<Rightarrow> acct_db \<times> daemon \<times> exc option" where
  "ex_run cs = tick ex_config (\<lambda>xs. xs) (ex_tick cs) (ex_db, start_daemon ex_db [(''u'', ''user'')])"

lemma ex_run: "ex_run cs = (db', dm', e) \<Longrightarrow>
    daemon_run ex_config (\<lambda>xs. xs) (ex_db, start_daemon ex_db [(''u'', ''user'')]) (db', dm')"
  unfolding ex_run_def by (rule run_tick [OF run_refl])

theorem daemon_safe_witness:
  "case ex_run [ex_conn ''b'' 150 30] of (db', dm', e) \<Rightarrow> e = None \<and> acct_inv db'
     \<and> map fst (dm_known dm') = [''b''] \<and> length (daily_usage db') = 1"
proof -
  obtain db' dm' e where r: "ex_run [ex_conn ''b'' 150 30] = (db', dm', e)" by (rule prod_cases3)
  have "case ex_run [ex_conn ''b'' 150 30] of (db', dm', e) \<Rightarrow> e = None
     \<and> map fst (dm_known dm') = [''b''] \<and> length (daily_usage db') = 1" by code_simp
  with daemon_safe [OF ex_order ex_inv ex_cov ex_run [OF r]] r show ?thesis by simp
qed

text \<open>
  C3: the export log is append-only over every run: a closed row stays byte for byte until
  retention removes it under the pruned marker, both counters only rise, and no row ever
  appears later under a number already handed out.
\<close>

theorem export_log_append_only:
  assumes "iteration_order ord" "daemon_inv (db, dm)" "daemon_run cf ord (db, dm) (db', dm')"
  shows "seq_counter db \<le> seq_counter db' \<and> pruned_seq db \<le> pruned_seq db'
    \<and> (\<forall>r \<in> set (connections db). \<not> open_row r \<longrightarrow> r \<in> set (connections db')
         \<or> (\<exists>s. c_export_seq r = Some s \<and> s \<le> pruned_seq db'))
    \<and> (\<forall>r \<in> set (connections db'). \<forall>s. c_export_seq r = Some s \<longrightarrow> s \<le> seq_counter db \<longrightarrow>
         r \<in> set (connections db))"
proof -
  have l: "log_extends db db'" using daemon_run_ok [OF assms(3,1,2)] by simp
  have "\<exists>s. c_export_seq r = Some s" if "r \<in> set (connections db)" "\<not> open_row r" for r
    using assms(2) that by (auto simp: daemon_inv_def acct_inv_def seq_inv_def)
  with l show ?thesis unfolding log_extends_def by blast
qed

theorem export_log_append_only_witness:
  "case ex_run [] of (db', dm', e) \<Rightarrow> seq_counter db' = 2
     \<and> ex_row 1 ''a'' (Some ''2024-01-01T00:00:10Z'') 7 8 (Some 1) \<in> set (connections db')"
proof -
  obtain db' dm' e where r: "ex_run [] = (db', dm', e)" by (rule prod_cases3)
  have i: "daemon_inv (ex_db, start_daemon ex_db [(''u'', ''user'')])"
    by (simp add: daemon_inv_def ex_inv ex_cov start_daemon_def ex_known)
  have c: "case ex_run [] of (db', dm', e) \<Rightarrow> seq_counter db' = 2 \<and> pruned_seq db' = 0" by code_simp
  let ?r = "ex_row 1 ''a'' (Some ''2024-01-01T00:00:10Z'') 7 8 (Some 1)"
  have "?r \<in> set (connections ex_db)" by (simp add: ex_db_def)
  moreover have "\<not> open_row ?r" "c_export_seq ?r = Some 1" by (simp_all add: ex_row_def)
  ultimately show ?thesis
    using export_log_append_only [OF ex_order i ex_run [OF r]] c by (auto simp: r)
qed

section \<open>Properties of maintenance\<close>

text \<open>
  C4: a rollup that succeeds is a faithful aggregate: for every selection of (date, user, tag,
  destination), the daily rows hold together exactly the bytes and the number of the
  connection rows of that selection, with one daily row per primary key.
\<close>

theorem rollup_conserves:
  assumes "rollup_daily_usage db = Inr db'"
  shows "sum_list (map d_upload_bytes (filter (\<lambda>d. P (daily_key d)) (daily_usage db')))
        = sum_list (map c_upload_bytes (filter (\<lambda>r. P (usage_key r)) (connections db)))
    \<and> sum_list (map d_download_bytes (filter (\<lambda>d. P (daily_key d)) (daily_usage db')))
        = sum_list (map c_download_bytes (filter (\<lambda>r. P (usage_key r)) (connections db)))
    \<and> sum_list (map d_connection_count (filter (\<lambda>d. P (daily_key d)) (daily_usage db')))
        = int (length (filter (\<lambda>r. P (usage_key r)) (connections db)))
    \<and> distinct (map daily_pk (daily_usage db'))
    \<and> connections db' = connections db \<and> rollup_daily_usage db' = Inr db'"
proof -
  note rc = rollup_cases [OF assms]
  have c: "connections db' = connections db" by (subst rc(3)) simp
  have d: "db'\<lparr>daily_usage := daily_usage db'\<rparr> = db'" by simp
  have "rollup_daily_usage db' = Inr (db'\<lparr>daily_usage := daily_usage db'\<rparr>)"
    using rc(1,2) by (simp add: rollup_daily_usage_def c rfold_insert_daily)
  moreover have "sum_list (map d_connection_count (filter (\<lambda>d. P (daily_key d)) (daily_usage db')))
      = sum_list (map (\<lambda>_. 1) (filter (\<lambda>r. P (usage_key r)) (connections db)))"
    by (rule aggregate_sum [OF rc(1)]) (simp add: usage_group_Inr(4) sum_list_triv)
  moreover have "sum_list (map d_upload_bytes (filter (\<lambda>d. P (daily_key d)) (daily_usage db')))
      = sum_list (map c_upload_bytes (filter (\<lambda>r. P (usage_key r)) (connections db)))"
    by (rule aggregate_sum [OF rc(1)]) (rule usage_group_Inr(2))
  moreover have "sum_list (map d_download_bytes (filter (\<lambda>d. P (daily_key d)) (daily_usage db')))
      = sum_list (map c_download_bytes (filter (\<lambda>r. P (usage_key r)) (connections db)))"
    by (rule aggregate_sum [OF rc(1)]) (rule usage_group_Inr(3))
  ultimately show ?thesis using rc(2) c d by (simp add: sum_list_triv)
qed

theorem rollup_conserves_witness:
  "case rollup_daily_usage ex_db of
     Inr db' \<Rightarrow> sum_list (map d_upload_bytes (daily_usage db')) = 107 | Inl _ \<Rightarrow> False"
proof -
  have "case rollup_daily_usage ex_db of Inr _ \<Rightarrow> True | Inl _ \<Rightarrow> False" by code_simp
  then obtain db' where r: "rollup_daily_usage ex_db = Inr db'" by (auto split: sum.splits)
  have "sum_list (map c_upload_bytes (connections ex_db)) = 107" by code_simp
  with rollup_conserves [OF r, of "\<lambda>_. True"] show ?thesis by (simp add: r)
qed


definition ex_clash_db :: acct_db where
  "ex_clash_db = ex_db\<lparr>connections := connections ex_db @
     [(ex_row 3 ''d'' (Some ''2024-01-01T00:00:10Z'') 1 1 (Some 2))\<lparr>c_user_tag := Some ''v''\<rparr>]\<rparr>"


text \<open>
  C6: one retention call removes at most 2000 connection rows, only closed ones last seen before
  the cutoff; every other row stays as it is, the numbers of the removed rows are at or below
  the new pruned marker, and the invariants hold afterwards.
\<close>

theorem retention_only_expired:
  assumes "acct_inv db" "cov_inv db" "apply_retention now db raw_days daily_days = Inr db'"
  shows "acct_inv db' \<and> cov_inv db'
    \<and> (\<exists>gone. connections db' = filter (\<lambda>r. r \<notin> set gone) (connections db) \<and> length gone \<le> 2000
        \<and> (\<forall>r \<in> set gone. r \<in> set (connections db) \<and> \<not> open_row r \<and> raw_days > 0
             \<and> c_last_seen_at r < iso_utc (now - raw_days * 86400)
             \<and> (\<forall>s. c_export_seq r = Some s \<longrightarrow> s \<le> pruned_seq db')))"
proof -
  note ar = apply_retention_ok [OF assms]
  define gone where "gone = (if raw_days > 0
    then expired_batch db (iso_utc (now - raw_days * 86400)) RETENTION_DELETE_BATCH else [])"
  have g: "retention_gone now db raw_days r \<longleftrightarrow> r \<in> set gone" for r
    by (simp add: retention_gone_def gone_def)
  have "connections db' = filter (\<lambda>r. r \<notin> set gone) (connections db)"
    using ar(3) by (simp add: retained_def g)
  moreover have "length gone \<le> 2000" by (simp add: gone_def expired_batch_def limit_to_take RETENTION_DELETE_BATCH_def)
  moreover have "r \<in> set (connections db) \<and> \<not> open_row r \<and> raw_days > 0
       \<and> c_last_seen_at r < iso_utc (now - raw_days * 86400)
       \<and> (\<forall>s. c_export_seq r = Some s \<longrightarrow> s \<le> pruned_seq db')" if "r \<in> set gone" for r
  proof -
    have "raw_days > 0" "r \<in> set (expired_batch db (iso_utc (now - raw_days * 86400)) RETENTION_DELETE_BATCH)"
      using that by (auto simp: gone_def split: if_splits)
    with expired_batch_in [OF this(2)] ar(3) that show ?thesis by (auto simp: retained_def g)
  qed
  ultimately show ?thesis using ar(1,2) by blast
qed

theorem retention_only_expired_witness:
  "case apply_retention 1735689600 ex_db 30 90 of
     Inr db' \<Rightarrow> map c_event_id (connections db') = [2] \<and> pruned_seq db' = 1 \<and> cov_inv db' | Inl _ \<Rightarrow> False"
proof -
  have r0: "case apply_retention 1735689600 ex_db 30 90 of
      Inr db' \<Rightarrow> map c_event_id (connections db') = [2] \<and> pruned_seq db' = 1 | Inl _ \<Rightarrow> False" by code_simp
  then obtain db' where r: "apply_retention 1735689600 ex_db 30 90 = Inr db'" by (auto split: sum.splits)
  then have "cov_inv db'" using retention_only_expired [OF ex_inv ex_cov] by blast
  with r0 show ?thesis by (simp add: r)
qed

text \<open>
  C7: the migrations 2 to 3 to 4 succeed on every schema 2 database, keep every row in place with
  its bytes, number the closed rows \<open>1, 2, \<dots>\<close> in the order of their event ids, leave the open
  ones unnumbered, and establish the invariants the collector relies on.
\<close>

theorem migration_establishes_invariant:
  assumes "distinct (map l_connection_id rows)" "map_of m META_AUDIT_PRUNED_MAX_EXPORT_SEQ = None"
  shows "\<exists>db. migrate_schema_3_to_4 (migrate_schema_2_to_3 rows m daily) = Inr db
    \<and> acct_inv db \<and> cov_inv db \<and> pruned_seq db = 0
    \<and> map c_connection_id (connections db) = map l_connection_id rows
    \<and> map c_upload_bytes (connections db) = map l_upload_bytes rows
    \<and> map c_download_bytes (connections db) = map l_download_bytes rows
    \<and> (\<forall>r \<in> set (connections db). \<forall>r' \<in> set (connections db). \<forall>s s'.
         c_export_seq r = Some s \<longrightarrow> c_export_seq r' = Some s' \<longrightarrow>
         c_event_id r < c_event_id r' \<longrightarrow> s < s')"
proof -
  define db3 where "db3 = migrate_schema_2_to_3 rows m daily"
  note m3 = migrate_2_to_3_ok [OF assms(1), of m daily, folded db3_def]
  have "map_of (meta db3) META_AUDIT_PRUNED_MAX_EXPORT_SEQ = None"
    using assms(2) by (simp add: db3_def migrate_schema_2_to_3_def meta_set_def)
  from migrate_3_to_4_ok [OF m3(1-4) this] obtain db es where
    run: "migrate_schema_3_to_4 db3 = Inr db" and inv: "acct_inv db" "cov_inv db" "pruned_seq db = 0"
    and conns: "connections db = map (numbered 0 es) (connections db3)"
    and es: "es = sort (map c_event_id (filter (\<lambda>r. \<not> open_row r) (connections db3)))" by blast
  have keep: "c_event_id (numbered 0 es r) = c_event_id r"
    "c_connection_id (numbered 0 es r) = c_connection_id r"
    "c_upload_bytes (numbered 0 es r) = c_upload_bytes r"
    "c_download_bytes (numbered 0 es r) = c_download_bytes r" for r
    by (simp_all add: numbered_def split: option.split)
  have "distinct es" using m3(1) by (simp add: es keys_inv_def distinct_map_filter)
  then have sorted: "sorted_wrt (<) es" by (simp add: strict_sorted_iff es)
  have sq: "c_export_seq (numbered 0 es r) = Some s \<Longrightarrow> pos_of 0 es (c_event_id r) = Some s"
    if "r \<in> set (connections db3)" for r s
    using m3(4) that by (auto simp: numbered_def split: option.splits)
  have "s < s'" if "r \<in> set (connections db)" "r' \<in> set (connections db)"
    "c_export_seq r = Some s" "c_export_seq r' = Some s'" "c_event_id r < c_event_id r'" for r r' s s'
  proof -
    from that(1,2) obtain q q' where q: "q \<in> set (connections db3)" "r = numbered 0 es q"
      "q' \<in> set (connections db3)" "r' = numbered 0 es q'" by (auto simp: conns)
    with that(3,4) sq have "pos_of 0 es (c_event_id q) = Some s" "pos_of 0 es (c_event_id q') = Some s'" by auto
    from pos_of_mono [OF sorted this] that(5) show ?thesis by (simp add: q(2,4) keep)
  qed
  then have mono: "\<forall>r \<in> set (connections db). \<forall>r' \<in> set (connections db). \<forall>s s'.
      c_export_seq r = Some s \<longrightarrow> c_export_seq r' = Some s' \<longrightarrow> c_event_id r < c_event_id r' \<longrightarrow> s < s'"
    by blast
  have cols: "map c_connection_id (connections db) = map l_connection_id rows"
    "map c_upload_bytes (connections db) = map l_upload_bytes rows"
    "map c_download_bytes (connections db) = map l_download_bytes rows"
    using m3(5-7) by (simp_all add: conns keep comp_def)
  show ?thesis
    unfolding db3_def [symmetric] by (intro exI [of _ db] conjI run inv cols mono)
qed

definition ex_legacy :: "string \<Rightarrow> string option \<Rightarrow> legacy_row" where
  "ex_legacy cid closed = \<lparr>l_connection_id = cid, l_user_id = ''user'', l_node_id = ''n1'',
     l_user_tag = None, l_started_at = ''s'', l_last_seen_at = ''s'', l_closed_at = closed,
     l_destination_host = None, l_destination_ip = None, l_destination_port = None,
     l_network = None, l_upload_bytes = 5, l_download_bytes = 6\<rparr>"

theorem migration_establishes_invariant_witness:
  "case migrate_schema_3_to_4 (migrate_schema_2_to_3
       [ex_legacy ''a'' (Some ''t''), ex_legacy ''b'' None, ex_legacy ''c'' (Some ''t'')] [] []) of
     Inr db \<Rightarrow> acct_inv db \<and> map c_export_seq (connections db) = [Some 1, None, Some 2] | Inl _ \<Rightarrow> False"
proof -
  let ?rows = "[ex_legacy ''a'' (Some ''t''), ex_legacy ''b'' None, ex_legacy ''c'' (Some ''t'')]"
  let ?run = "migrate_schema_3_to_4 (migrate_schema_2_to_3 ?rows [] [])"
  have "distinct (map l_connection_id ?rows)" by (simp add: ex_legacy_def)
  from migration_establishes_invariant [OF this, of "[]" "[]"]
  obtain db where r: "?run = Inr db" "acct_inv db" by auto
  have "case ?run of Inr db \<Rightarrow> map c_export_seq (connections db) = [Some 1, None, Some 2] | Inl _ \<Rightarrow> False"
    by code_simp
  with r show ?thesis by simp
qed

end
