(* ===== verification/AuditExportInv.thy ===== *)
theory AuditExportInv
  imports AuditExport AcctProps "HOL-Library.Multiset"
begin

text \<open>
  Proofs about the export: it delivers exactly the numbers after the cursor, in order and
  without a gap, and exports taken at different times of a run fit together.
\<close>

section \<open>Counters as the exporter reads them\<close>

lemma audit_meta_int_eq: "meta_int db k = Inr n \<Longrightarrow> audit_meta_int db k = n"
proof -
  assume a: "meta_int db k = Inr n"
  have z: "int_of_text ''0'' = Some 0" by code_simp
  have e: "int_of_text [] = None" by code_simp
  show ?thesis
  proof (cases "map_of (meta db) k")
    case None
    with a z show ?thesis by (simp add: meta_int_def meta_get_def audit_meta_int_def)
  next
    case (Some t)
    with a z e show ?thesis
      by (cases "t = []")
         (auto simp: meta_int_def meta_get_def audit_meta_int_def split: option.splits)
  qed
qed

lemma audit_counters:
  assumes "acct_inv db" "cov_inv db"
  shows "audit_meta_int db META_AUDIT_EXPORT_SEQ = seq_counter db"
    and "audit_meta_int db META_AUDIT_PRUNED_MAX_EXPORT_SEQ = pruned_seq db"
  using assms audit_meta_int_eq by (auto simp: acct_inv_def seq_inv_def cov_inv_def)

section \<open>The rows of an export\<close>

definition seq_of :: "conn_row \<Rightarrow> int" where
  "seq_of r = the (c_export_seq r)"

definition after_rows :: "acct_db \<Rightarrow> int \<Rightarrow> conn_row list" where
  "after_rows db after = export_rows db after None"

lemma after_rows_alt:
  "after_rows db after = sort_key seq_of (filter (\<lambda>r. (case c_export_seq r of None \<Rightarrow> False | Some s \<Rightarrow> s > after)
     \<and> \<not> open_row r) (connections db))"
  by (simp add: after_rows_def export_rows_def Let_def seq_of_def [abs_def])

lemma export_rows_limit: "export_rows db after limit
    = (case limit of None \<Rightarrow> after_rows db after | Some n \<Rightarrow> take (nat n) (after_rows db after))"
  by (simp add: after_rows_def export_rows_def Let_def limit_to_take split: option.split)

lemma after_rows_set:
  assumes "acct_inv db"
  shows "r \<in> set (after_rows db after) \<longleftrightarrow>
    r \<in> set (connections db) \<and> (\<exists>s. c_export_seq r = Some s \<and> after < s)"
proof -
  have "\<not> open_row r" if "r \<in> set (connections db)" "c_export_seq r = Some s" for s
    using assms that by (auto simp: acct_inv_def seq_inv_def)
  then show ?thesis by (auto simp: after_rows_alt split: option.splits)
qed

lemma connections_distinct: "acct_inv db \<Longrightarrow> distinct (connections db)"
  by (rule distinct_connections)

lemma seq_inj:
  assumes "acct_inv db"
  shows "inj_on seq_of {r \<in> set (connections db). c_export_seq r \<noteq> None}"
proof (rule inj_onI)
  fix r r' assume a: "r \<in> {r \<in> set (connections db). c_export_seq r \<noteq> None}"
    "r' \<in> {r \<in> set (connections db). c_export_seq r \<noteq> None}" "seq_of r = seq_of r'"
  then obtain s where "c_export_seq r = Some s" "c_export_seq r' = Some s" by (auto simp: seq_of_def)
  with a assms show "r = r'" by (auto simp: acct_inv_def seq_inv_def)
qed

lemma after_rows_seqs:
  assumes inv: "acct_inv db" and cov: "cov_inv db" and after: "pruned_seq db \<le> after"
  shows "map seq_of (after_rows db after) = [after + 1 .. seq_counter db]"
proof (rule sorted_distinct_set_unique)
  show "sorted (map seq_of (after_rows db after))" by (simp add: after_rows_alt)
  have "distinct (after_rows db after)"
    using connections_distinct [OF inv] by (simp add: after_rows_alt)
  moreover have "set (after_rows db after) \<subseteq> {r \<in> set (connections db). c_export_seq r \<noteq> None}"
    using after_rows_set [OF inv] by auto
  then have "inj_on seq_of (set (after_rows db after))" by (rule inj_on_subset [OF seq_inj [OF inv]])
  ultimately show "distinct (map seq_of (after_rows db after))" by (simp add: distinct_map)
  have "s \<in> seq_of ` set (after_rows db after) \<longleftrightarrow> after < s \<and> s \<le> seq_counter db" for s
  proof
    assume "s \<in> seq_of ` set (after_rows db after)"
    then obtain r where r: "r \<in> set (after_rows db after)" "s = seq_of r" by auto
    then obtain t where "r \<in> set (connections db)" "c_export_seq r = Some t" "after < t"
      using after_rows_set [OF inv] by auto
    with inv r show "after < s \<and> s \<le> seq_counter db" by (auto simp: acct_inv_def seq_inv_def seq_of_def)
  next
    assume s: "after < s \<and> s \<le> seq_counter db"
    with after cov obtain r where "r \<in> set (connections db)" "c_export_seq r = Some s"
      unfolding cov_inv_def by (meson le_less_trans)
    with s show "s \<in> seq_of ` set (after_rows db after)"
      using after_rows_set [OF inv] by (auto simp: image_iff seq_of_def intro!: bexI [of _ r])
  qed
  note mem = this
  show "set (map seq_of (after_rows db after)) = set [after + 1 .. seq_counter db]"
    unfolding list.set_map set_upto
    by (rule set_eqI) (simp only: mem atLeastAtMost_iff, arith)
qed (simp_all add: sorted_upto)

text \<open>Later exports of one run continue the earlier ones.\<close>

lemma after_rows_append:
  assumes inv: "acct_inv db" "cov_inv db" and inv': "acct_inv db'" "cov_inv db'"
    and log: "log_extends db db'" and a: "pruned_seq db' \<le> after" "after \<le> seq_counter db"
  shows "after_rows db' after = after_rows db after @ after_rows db' (seq_counter db)"
proof -
  have le: "seq_counter db \<le> seq_counter db'" "pruned_seq db \<le> pruned_seq db'"
    using log by (auto simp: log_extends_def)
  let ?S = "{r \<in> set (connections db'). c_export_seq r \<noteq> None}"
  have new: "set (after_rows db' x) \<subseteq> ?S" for x using after_rows_set [OF inv'(1)] by auto
  have old: "set (after_rows db after) \<subseteq> ?S"
  proof
    fix r assume "r \<in> set (after_rows db after)"
    then obtain s where r: "r \<in> set (connections db)" "c_export_seq r = Some s" "after < s"
      using after_rows_set [OF inv(1)] by auto
    then have "\<not> open_row r" using inv(1) by (auto simp: acct_inv_def seq_inv_def)
    with r log a(1) have "r \<in> set (connections db')" by (force simp: log_extends_def)
    with r(2) show "r \<in> ?S" by simp
  qed
  have "map seq_of (after_rows db' after) = [after + 1 .. seq_counter db']"
    by (rule after_rows_seqs [OF inv' a(1)])
  also have "\<dots> = [after + 1 .. seq_counter db] @ [seq_counter db + 1 .. seq_counter db']"
    using a(2) le(1) upto_split2 [of "after + 1" "seq_counter db" "seq_counter db'"]
    by (cases "after = seq_counter db") simp_all
  also have "\<dots> = map seq_of (after_rows db after @ after_rows db' (seq_counter db))"
    using after_rows_seqs [OF inv, of after] after_rows_seqs [OF inv', of "seq_counter db"] a le by simp
  finally have m: "map seq_of (after_rows db' after)
    = map seq_of (after_rows db after @ after_rows db' (seq_counter db))" .
  show ?thesis
    by (rule inj_on_map_eq_map [THEN iffD1, OF _ m])
       (rule inj_on_subset [OF seq_inj [OF inv'(1)]], use new old in auto)
qed

lemma limit_to_upto:
  "take n [a .. b] = [a .. min b (a + int n - 1)]"
proof (induction n arbitrary: a)
  case (Suc n)
  show ?case
  proof (cases "a \<le> b")
    case True
    then have "[a..b] = a # [a + 1..b]" by (simp add: upto_rec1)
    moreover have "[a..min b (a + int (Suc n) - 1)] = a # [a + 1..min b (a + int (Suc n) - 1)]"
      using True by (intro upto_rec1) simp
    moreover have "a + 1 + int n - 1 = a + int (Suc n) - 1" by simp
    ultimately show ?thesis using Suc.IH [of "a + 1"] by (simp only: take_Suc_Cons)
  qed simp
qed simp

section \<open>Properties of the export\<close>

text \<open>
  C8: an export with a cursor inside the log delivers exactly the numbers after the cursor, in
  order and without a gap: all of them, or the first \<open>limit\<close>; its \<open>next_cursor\<close> is the last
  one delivered, and the meta object counts the rows.
\<close>

theorem export_gap_free:
  assumes "acct_inv db" "cov_inv db" "require_schema_4 db = Inr ()"
    and "pruned_seq db \<le> after" "after \<le> seq_counter db" "seq_counter db \<le> INT64_MAX"
    and "1 \<le> n" "n \<le> INT64_MAX"
  shows "\<exists>rows m. export_after db after (Some n) = Inr (ExportOk, map row_dict rows, m)
    \<and> map c_export_seq rows = map Some [after + 1 .. min (seq_counter db) (after + n)]
    \<and> set rows \<subseteq> set (connections db)
    \<and> dget ''next_cursor'' m = JInt (min (seq_counter db) (after + n))
    \<and> dget ''count'' m = JInt (int (length rows))"
proof -
  let ?rows = "export_rows db after (Some n)"
  let ?last = "min (seq_counter db) (after + n)"
  have pos: "0 \<le> pruned_seq db" using assms(2) by (simp add: cov_inv_def)
  have set: "set ?rows \<subseteq> set (after_rows db after)"
    by (auto simp: export_rows_limit dest: in_set_takeD)
  have "map seq_of ?rows = take (nat n) (map seq_of (after_rows db after))"
    by (simp add: export_rows_limit take_map)
  also have "\<dots> = [after + 1 .. ?last]"
    using assms(7) by (simp add: after_rows_seqs [OF assms(1,2,4)] limit_to_upto)
  finally have seqs: "map seq_of ?rows = [after + 1 .. ?last]" .
  have some: "c_export_seq r = Some (seq_of r)" if "r \<in> set ?rows" for r
    using set that after_rows_set [OF assms(1)] by (force simp: seq_of_def)
  then have "map c_export_seq ?rows = map (\<lambda>r. Some (seq_of r)) ?rows" by simp
  also have "\<dots> = map Some (map seq_of ?rows)" by simp
  finally have opts: "map c_export_seq ?rows = map Some [after + 1 .. ?last]" by (simp only: seqs)
  have last: "(if ?rows = [] then after else the (c_export_seq (last ?rows))) = ?last"
  proof (cases "?rows = []")
    case True
    then have "[after + 1 .. ?last] = []" using seqs by simp
    then have "?last \<le> after" by (cases "?last < after + 1") (auto simp: upto_rec1)
    moreover have "after \<le> ?last" using assms(5,7) by simp
    ultimately show ?thesis using True by simp
  next
    case False
    then have "last [after + 1 .. ?last] = seq_of (last ?rows)" using seqs by (metis last_map)
    moreover have "after + 1 \<le> ?last" using False seqs by (cases "?last < after + 1") auto
    then have "last [after + 1 .. ?last] = ?last" by (simp add: upto_rec2)
    ultimately show ?thesis using False by (simp add: seq_of_def)
  qed
  have "bind_ints [after, n] = Inr ()"
    using assms(4-8) pos by (simp add: bind_ints_def bind_int_def)
  then have "export_after db after (Some n) = Inr (ExportOk, map row_dict ?rows,
      export_meta True None after (seq_counter db) (pruned_seq db) (int (length ?rows)) ?last)"
    using assms(3-5,7) pos last
    by (simp add: export_after_def audit_counters [OF assms(1,2)] opt_ints_def Let_def)
  moreover have "set ?rows \<subseteq> set (connections db)"
    using set after_rows_set [OF assms(1)] by auto
  ultimately show ?thesis using opts by (intro exI conjI) (auto simp: export_meta_def)
qed

definition ex_log :: acct_db where
  "ex_log = \<lparr>connections = [ex_row 1 ''a'' (Some ''t'') 7 8 (Some 2), ex_row 2 ''b'' None 1 1 None,
       ex_row 3 ''c'' (Some ''t'') 9 9 (Some 1), ex_row 4 ''d'' (Some ''t'') 3 3 (Some 3)],
     conn_seq = 4, poll_baseline = [],
     meta = [(''schema_version'', ''4''), (META_AUDIT_EXPORT_SEQ, ''3''),
       (META_AUDIT_PRUNED_MAX_EXPORT_SEQ, ''0'')], daily_usage = []\<rparr>"

lemma ex_log_inv: "acct_inv ex_log" "cov_inv ex_log" "seq_counter ex_log = 3" "pruned_seq ex_log = 0"
proof -
  have m: "meta_int ex_log META_AUDIT_EXPORT_SEQ = Inr 3"
    "meta_int ex_log META_AUDIT_PRUNED_MAX_EXPORT_SEQ = Inr 0" by code_simp+
  then show sc: "seq_counter ex_log = 3" "pruned_seq ex_log = 0"
    by (simp_all add: seq_counter_def pruned_seq_def)
  have "keys_inv ex_log" "gen_inv ex_log" "base_inv ex_log"
    by (simp_all add: keys_inv_def gen_inv_def base_inv_def ex_log_def ex_row_def)
  moreover have "seq_inv ex_log"
    unfolding seq_inv_def sc m by (simp, simp add: ex_log_def ex_row_def)
  ultimately show "acct_inv ex_log" by (simp add: acct_inv_def)
  have "s = 1 \<or> s = 2 \<or> s = 3" if "0 < s \<and> s \<le> 3" for s :: int using that by auto
  then show "cov_inv ex_log"
    unfolding cov_inv_def sc m by (auto simp: ex_log_def ex_row_def)
qed

theorem export_gap_free_witness:
  "case export_after ex_log 1 (Some 5) of Inr (st, rows, m) \<Rightarrow> st = ExportOk
     \<and> map (dget ''export_seq'') rows = [JInt 2, JInt 3] \<and> dget ''next_cursor'' m = JInt 3 | Inl _ \<Rightarrow> False"
proof -
  have sch: "require_schema_4 ex_log = Inr ()" by code_simp
  have h: "pruned_seq ex_log \<le> 1" "1 \<le> seq_counter ex_log" "seq_counter ex_log \<le> INT64_MAX"
    "1 \<le> (5 :: int)" "5 \<le> INT64_MAX"
    by (simp_all add: ex_log_inv INT64_MAX_def)
  from export_gap_free [OF ex_log_inv(1,2) sch h] obtain rows m where
    "export_after ex_log 1 (Some 5) = Inr (ExportOk, map row_dict rows, m)"
    "map c_export_seq rows = map Some [1 + 1 .. min (seq_counter ex_log) (1 + 5)]"
    "dget ''next_cursor'' m = JInt (min (seq_counter ex_log) (1 + 5))" by blast
  then have r: "export_after ex_log 1 (Some 5) = Inr (ExportOk, map row_dict rows, m)"
    "map c_export_seq rows = map Some [2 .. 3]" "dget ''next_cursor'' m = JInt 3"
    by (simp_all add: ex_log_inv)
  have "map (dget ''export_seq'') (map row_dict rows) = map of_int_opt (map c_export_seq rows)"
    by (simp add: row_dict_def)
  also have "\<dots> = [JInt 2, JInt 3]" unfolding r(2) by code_simp
  finally show ?thesis using r by simp
qed

text \<open>
  Exports fit together over a run of the collector: what an export after \<open>n\<close> delivers
  later is what it delivered before, row for row and byte for byte, followed by the rows of
  the numbers handed out since, as long as retention has not passed the cursor.
\<close>

theorem export_incremental:
  assumes "iteration_order ord" "daemon_inv (db, dm)" "daemon_run cf ord (db, dm) (db', dm')"
    and "pruned_seq db' \<le> after" "after \<le> seq_counter db"
  shows "export_rows db' after None = export_rows db after None @ export_rows db' (seq_counter db) None"
proof -
  have "daemon_inv (db', dm')" "log_extends db db'" using daemon_run_ok [OF assms(3,1,2)] by simp_all
  with assms(2) show ?thesis
    using after_rows_append [of db db', OF _ _ _ _ _ assms(4,5)]
    by (simp add: daemon_inv_def after_rows_def)
qed

theorem export_incremental_witness:
  "case ex_run [] of (db', dm', e) \<Rightarrow>
     export_rows db' 0 None = [ex_row 1 ''a'' (Some ''2024-01-01T00:00:10Z'') 7 8 (Some 1)]
       @ export_rows db' 1 None"
proof -
  obtain db' dm' e where r: "ex_run [] = (db', dm', e)" by (rule prod_cases3)
  have i: "daemon_inv (ex_db, start_daemon ex_db [(''u'', ''user'')])"
    by (simp add: daemon_inv_def ex_inv ex_cov start_daemon_def ex_known)
  have "case ex_run [] of (db', dm', e) \<Rightarrow> pruned_seq db' = 0" by code_simp
  then have "pruned_seq db' \<le> 0" by (simp add: r)
  moreover have sc: "seq_counter ex_db = 1" by (simp add: seq_counter_def)
  ultimately have "export_rows db' 0 None = export_rows ex_db 0 None @ export_rows db' 1 None"
    using export_incremental [OF ex_order i ex_run [OF r], of 0] by simp
  moreover have "export_rows ex_db 0 None = [ex_row 1 ''a'' (Some ''2024-01-01T00:00:10Z'') 7 8 (Some 1)]"
    by code_simp
  ultimately show ?thesis by (simp add: r)
qed

text \<open>
  An interval query returns exactly the rows that overlap the window and match every given
  filter, oldest first.
\<close>

theorem query_audit_exact:
  assumes "query_audit db qf qt f users = Inr ds"
  shows "\<exists>q_from q_to uid rows. parse_rfc3339 qf = Inr q_from \<and> parse_rfc3339 qt = Inr q_to
    \<and> resolve_filter_user f users = Inr uid \<and> ds = map row_dict rows
    \<and> sorted (map (\<lambda>r. (c_started_at r, c_event_id r)) rows)
    \<and> mset rows = {# r \<in># mset (connections db). c_started_at r < q_to
        \<and> q_from \<le> (case c_closed_at r of Some t \<Rightarrow> t | None \<Rightarrow> c_last_seen_at r)
        \<and> match_opt uid (Some (c_user_id r)) \<and> match_opt (filter_host f) (c_destination_host r)
        \<and> match_opt (opt_text (f_dest_ip f)) (c_destination_ip r)
        \<and> match_opt (opt_text (f_node_id f)) (Some (c_node_id r)) #}"
proof -
  from assms obtain q_from q_to uid where q: "parse_rfc3339 qf = Inr q_from" "parse_rfc3339 qt = Inr q_to"
    "resolve_filter_user f users = Inr uid"
    by (auto simp: query_audit_def res_simps split: if_splits)
  let ?P = "\<lambda>r. interval_overlap q_from q_to r \<and> match_opt uid (Some (c_user_id r))
        \<and> match_opt (filter_host f) (c_destination_host r)
        \<and> match_opt (opt_text (f_dest_ip f)) (c_destination_ip r)
        \<and> match_opt (opt_text (f_node_id f)) (Some (c_node_id r))"
  let ?rows = "sort_key (\<lambda>r. (c_started_at r, c_event_id r)) (filter ?P (connections db))"
  have "ds = map row_dict ?rows"
    using assms q by (auto simp: query_audit_def res_simps Let_def split: if_splits)
  moreover have "sorted (map (\<lambda>r. (c_started_at r, c_event_id r)) ?rows)" by (rule sorted_sort_key)
  moreover have "mset ?rows = filter_mset ?P (mset (connections db))" by (simp add: mset_filter)
  ultimately show ?thesis using q by (auto simp: interval_overlap_def)
qed

theorem query_audit_exact_witness:
  "case query_audit (ex_log\<lparr>connections := connections ex_db\<rparr>) ''2023-12-31T23:00:00Z'' ''2024-01-01T02:00:05+02:00''
      \<lparr>f_user_id = None, f_user_tag = Some ''u'', f_dest_host = None, f_dest_ip = None, f_node_id = None\<rparr>
      (Some [(''u'', ''user'')]) of Inr ds \<Rightarrow> length ds = 2 | Inl _ \<Rightarrow> False"
proof -
  let ?f = "\<lparr>f_user_id = None, f_user_tag = Some ''u'', f_dest_host = None, f_dest_ip = None, f_node_id = None\<rparr>"
  let ?q = "query_audit (ex_log\<lparr>connections := connections ex_db\<rparr>) ''2023-12-31T23:00:00Z''
     ''2024-01-01T02:00:05+02:00'' ?f (Some [(''u'', ''user'')])"
  have c: "case ?q of Inr ds \<Rightarrow> length ds = 2 | Inl _ \<Rightarrow> False" by code_simp
  then obtain ds where "?q = Inr ds" by (auto split: sum.splits)
  from query_audit_exact [OF this] c show ?thesis by blast
qed

end
