(* ===== verification/FleetDbInv.thy ===== *)
theory FleetDbInv
  imports FleetDb AuditExportInv
begin

text \<open>
  Proofs about the controller's cache: the import is an upsert keyed by node and event, it
  touches no other node, its daily aggregate conserves the bytes, and validation accepts
  exactly strictly increasing batches that continue the cursor.
\<close>

section \<open>Keyed tables\<close>

text \<open>
  The contract of a table with a primary key that is written by upserts: what a reader finds
  after a write, and that keys stay unique.
\<close>

locale keyed_table =
  fixes get :: "'t \<Rightarrow> 'k \<Rightarrow> 'v option"
    and put :: "'v \<Rightarrow> 't \<Rightarrow> 't"
    and key :: "'v \<Rightarrow> 'k"
    and unique :: "'t \<Rightarrow> bool"
  assumes get_put: "get (put v t) k = (if k = key v then Some v else get t k)"
    and unique_put: "unique t \<Longrightarrow> unique (put v t)"
begin

lemma unique_puts: "unique t \<Longrightarrow> unique (fold put vs t)"
  by (induction vs arbitrary: t) (simp_all add: unique_put)

lemma get_puts: "get (fold put vs t) k
    = (case find (\<lambda>v. key v = k) (rev vs) of Some v \<Rightarrow> Some v | None \<Rightarrow> get t k)"
proof (induction vs rule: rev_induct)
  case (snoc v vs)
  then show ?case by (simp add: get_put)
qed simp

lemma get_puts_other: "k \<notin> key ` set vs \<Longrightarrow> get (fold put vs t) k = get t k"
proof -
  assume "k \<notin> key ` set vs"
  then have "find (\<lambda>v. key v = k) (rev vs) = None" by (auto simp: find_None_iff)
  then show ?thesis by (simp add: get_puts)
qed

lemma get_puts_in:
  assumes "distinct (map key vs)" "v \<in> set vs" shows "get (fold put vs t) (key v) = Some v"
proof -
  have "find (\<lambda>w. key w = key v) (rev vs) = Some v"
    by (rule find_unique [where key = key and k = "key v"])
       (use assms in \<open>auto simp: rev_map [symmetric]\<close>)
  then show ?thesis by (simp add: get_puts)
qed

text \<open>Writing the same rows again changes nothing a reader can see.\<close>

lemma puts_again: "get (fold put vs (fold put vs t)) k = get (fold put vs t) k"
  by (simp add: get_puts split: option.split)

end

definition event_get :: "audit_row list \<Rightarrow> string \<times> int \<Rightarrow> audit_row option" where
  "event_get es k = find (\<lambda>e. event_key e = k) es"

definition event_put :: "audit_row \<Rightarrow> audit_row list \<Rightarrow> audit_row list" where
  "event_put r es = (if list_ex (\<lambda>e. event_key e = event_key r) es
     then map (\<lambda>e. if event_key e = event_key r then r else e) es else es @ [r])"

lemma find_replace:
  "find (\<lambda>e. event_key e = k) (map (\<lambda>e. if event_key e = event_key r then r else e) es)
    = (if k = event_key r \<and> list_ex (\<lambda>e. event_key e = event_key r) es then Some r
       else find (\<lambda>e. event_key e = k) es)"
  by (induction es) auto

lemma find_append: "find P (xs @ ys) = (case find P xs of None \<Rightarrow> find P ys | Some x \<Rightarrow> Some x)"
  by (induction xs) auto

interpretation events: keyed_table event_get event_put event_key "\<lambda>es. distinct (map event_key es)"
proof
  show "event_get (event_put r es) k = (if k = event_key r then Some r else event_get es k)" for r es k
  proof (cases "list_ex (\<lambda>e. event_key e = event_key r) es")
    case True
    then show ?thesis by (simp add: event_get_def event_put_def find_replace)
  next
    case False
    then have "find (\<lambda>e. event_key e = event_key r) es = None" by (simp add: find_None_iff_list_ex)
    with False show ?thesis
      by (auto simp: event_get_def event_put_def find_append split: option.split)
  qed
  show "distinct (map event_key (event_put r es))" if "distinct (map event_key es)" for es r
  proof (cases "list_ex (\<lambda>e. event_key e = event_key r) es")
    case True
    have "map event_key (map (\<lambda>e. if event_key e = event_key r then r else e) es) = map event_key es"
      by (rule distinct_map_map_if) simp
    with True that show ?thesis by (simp only: event_put_def if_True)
  next
    case False
    with that show ?thesis by (auto simp: event_put_def list_ex_iff)
  qed
qed

definition alist_get :: "('k \<times> 'v) list \<Rightarrow> 'k \<Rightarrow> ('k \<times> 'v) option" where
  "alist_get t k = map_option (Pair k) (map_of t k)"

definition alist_put :: "'k \<times> 'v \<Rightarrow> ('k \<times> 'v) list \<Rightarrow> ('k \<times> 'v) list" where
  "alist_put p t = AList.update (fst p) (snd p) t"

interpretation cursors: keyed_table alist_get alist_put fst "\<lambda>t. distinct (map fst t)"
  by unfold_locales (auto simp: alist_get_def alist_put_def distinct_keys_update)

section \<open>The import\<close>

lemma upsert_event_Inr: "upsert_event r es = Inr es' \<Longrightarrow> es' = event_put r es"
  by (auto simp: upsert_event_def event_put_def res_simps)

lemma upserts_Inr: "rfold upsert_event rs es = Inr es' \<Longrightarrow> es' = fold event_put rs es"
  by (induction rs arbitrary: es) (auto simp: res_simps dest!: upsert_event_Inr)

lemma audit_insert_params_key:
  assumes "audit_insert_params d nid now = Inr r"
  shows "a_node_id r = nid" "py_int (dget ''event_id'' d) = Inr (a_event_id r)"
    "\<exists>s. a_export_seq r = Some s \<and> py_int (dget ''export_seq'' d) = Inr s" "a_imported_at r = now"
proof -
  have n: "m = Inr x" if "numeric m = Inr x" for m :: "'a res" and x
    using that by (auto simp: numeric_def die_def split: sum.splits exc.splits)
  show "a_node_id r = nid" "py_int (dget ''event_id'' d) = Inr (a_event_id r)"
    "\<exists>s. a_export_seq r = Some s \<and> py_int (dget ''export_seq'' d) = Inr s" "a_imported_at r = now"
    using assms by (auto simp: audit_insert_params_def die_def res_simps dest!: n split: if_splits)
qed

lemma rebuild_Inr:
  assumes "rebuild_daily_usage_for_node db nid = Inr db'"
  shows "db' = db\<lparr>fleet_daily_usage := fleet_daily_usage db'\<rparr>"
    and "filter (\<lambda>y. y_node_id y \<noteq> nid) (fleet_daily_usage db')
      = filter (\<lambda>y. y_node_id y \<noteq> nid) (fleet_daily_usage db)"
proof -
  let ?es = "if nid = [] then [] else node_events db nid"
  from assms obtain rows where rows: "rmap (fleet_daily_group nid ?es) (remdups (map event_group ?es)) = Inr rows"
    and db': "db' = db\<lparr>fleet_daily_usage := filter (\<lambda>y. y_node_id y \<noteq> nid) (fleet_daily_usage db) @ rows\<rparr>"
    by (auto simp: rebuild_daily_usage_for_node_def Let_def res_simps)
  show "db' = db\<lparr>fleet_daily_usage := fleet_daily_usage db'\<rparr>" by (simp add: db')
  have "y_node_id y = nid" if y: "y \<in> set rows" for y
  proof -
    obtain k where "fleet_daily_group nid ?es k = Inr y" using rmap_Inr_set [OF rows y] by blast
    then show ?thesis by (cases k) (auto simp: fleet_daily_group_def Let_def res_simps)
  qed
  then have "filter (\<lambda>y. y_node_id y \<noteq> nid) rows = []" by (auto simp: filter_empty_conv)
  then show "filter (\<lambda>y. y_node_id y \<noteq> nid) (fleet_daily_usage db')
      = filter (\<lambda>y. y_node_id y \<noteq> nid) (fleet_daily_usage db)" by (simp add: db')
qed

text \<open>What a successful import did.\<close>

lemma import_Inr:
  assumes "import_audit_batch db nid iid rows now nc = Inr (db', res)"
  obtains ds params last_eid inst where
    "rmap (check_label nid) rows = Inr ds"
    "rmap (\<lambda>d. audit_insert_params d nid now) ds = Inr params"
    "audit_events db' = fold event_put params (audit_events db)"
    "rebuild_daily_usage_for_node (db\<lparr>audit_events := audit_events db'\<rparr>) nid
       = Inr (db'\<lparr>sync_cursor := sync_cursor db\<rparr>)"
    "sync_cursor db' = AList.update nid \<lparr>cu_instance_id = inst, cu_last_event_id = last_eid,
       cu_last_export_seq = r_last_export_seq res, cu_cursor_kind = ''export_seq'',
       cu_last_sync_at = now, cu_status = ''ok''\<rparr> (sync_cursor db)"
    "check_instance nid iid = Inr inst" "uuid_ok nid"
    "\<And>n. nc = Some n \<Longrightarrow> r_last_export_seq res = n \<and> 0 \<le> n"
    "last_eid = r_last_event_id res"
proof -
  from assms obtain inst ds eids params es db2 where
    v: "uuid_ok nid" "check_instance nid iid = Inr inst" and ds: "rmap (check_label nid) rows = Inr ds"
    and ps: "rmap (\<lambda>d. audit_insert_params d nid now) ds = Inr params"
    and nn: "\<not> (case nc of None \<Rightarrow> False | Some n \<Rightarrow> n < 0)"
    and es: "rfold upsert_event params (audit_events db) = Inr es"
    and rb: "rebuild_daily_usage_for_node (db\<lparr>audit_events := es\<rparr>) nid = Inr db2"
    and rest: "rbind (put_cursor db2 nid \<lparr>cu_instance_id = inst,
        cu_last_event_id = (case max_int (map a_event_id (node_events db2 nid)) of
               None \<Rightarrow> cursor_last_event_id db nid | Some n \<Rightarrow> n),
        cu_last_export_seq = (case nc of Some n \<Rightarrow> n
           | None \<Rightarrow> (case max_int (List.map_filter a_export_seq (node_events db2 nid)) of
               None \<Rightarrow> cursor_last_export_seq db nid | Some n \<Rightarrow> n)),
        cu_cursor_kind = ''export_seq'', cu_last_sync_at = now, cu_status = ''ok''\<rparr>) (\<lambda>db3.
        Inr (db3, \<lparr>r_inserted = length (filter (\<lambda>e. \<not> list_ex (\<lambda>r. a_node_id r = nid \<and> a_event_id r = e)
               (audit_events db)) eids),
             r_updated = length (filter (\<lambda>e. list_ex (\<lambda>r. a_node_id r = nid \<and> a_event_id r = e)
               (audit_events db)) eids),
             r_last_event_id = (case max_int (map a_event_id (node_events db2 nid)) of
               None \<Rightarrow> cursor_last_event_id db nid | Some n \<Rightarrow> n),
             r_last_export_seq = (case nc of Some n \<Rightarrow> n
               | None \<Rightarrow> (case max_int (List.map_filter a_export_seq (node_events db2 nid)) of
               None \<Rightarrow> cursor_last_export_seq db nid | Some n \<Rightarrow> n))\<rparr>)) = Inr (db', res)"
    unfolding import_audit_batch_def validate_node_id_def die_def
    by (auto simp: rbind_eq_Inr Let_def split: if_split_asm)
  note r1 = rebuild_Inr(1) [OF rb]
  have a2: "audit_events db2 = es" "sync_cursor db2 = sync_cursor db" by (subst r1, simp)+
  from rest obtain c where c: "db' = db2\<lparr>sync_cursor := AList.update nid c (sync_cursor db2)\<rparr>"
    and cf: "c = \<lparr>cu_instance_id = inst, cu_last_event_id = r_last_event_id res,
       cu_last_export_seq = r_last_export_seq res, cu_cursor_kind = ''export_seq'',
       cu_last_sync_at = now, cu_status = ''ok''\<rparr>"
    and rs: "r_last_export_seq res = (case nc of Some n \<Rightarrow> n
               | None \<Rightarrow> (case max_int (List.map_filter a_export_seq (node_events db2 nid)) of
               None \<Rightarrow> cursor_last_export_seq db nid | Some n \<Rightarrow> n))"
    by (auto simp: put_cursor_def rbind_eq_Inr)
  have "db'\<lparr>sync_cursor := sync_cursor db\<rparr> = db2" by (simp add: c a2(2) [symmetric])
  with rb have rb': "rebuild_daily_usage_for_node (db\<lparr>audit_events := audit_events db'\<rparr>) nid
      = Inr (db'\<lparr>sync_cursor := sync_cursor db\<rparr>)" by (simp add: c a2(1))
  show thesis
  proof (rule that [OF ds ps _ rb' _ v(2,1)])
    show "audit_events db' = fold event_put params (audit_events db)"
      using upserts_Inr [OF es] by (simp add: c a2(1))
    show "sync_cursor db' = AList.update nid \<lparr>cu_instance_id = inst, cu_last_event_id = r_last_event_id res,
       cu_last_export_seq = r_last_export_seq res, cu_cursor_kind = ''export_seq'',
       cu_last_sync_at = now, cu_status = ''ok''\<rparr> (sync_cursor db)"
      by (simp add: c a2(2) cf)
    show "r_last_export_seq res = n \<and> 0 \<le> n" if "nc = Some n" for n
      using nn that by (simp add: rs)
  qed simp
qed

section \<open>The daily aggregate\<close>

lemma fleet_daily_group_Inr:
  assumes "fleet_daily_group nid es k = Inr y"
  shows "(y_date y, y_user_id y, y_destination_host y) = k" "y_node_id y = nid"
    "y_upload_bytes y = sum_list (map a_upload_bytes (filter (\<lambda>r. event_group r = k) es))"
    "y_download_bytes y = sum_list (map a_download_bytes (filter (\<lambda>r. event_group r = k) es))"
    "y_connection_count y = int (length (filter (\<lambda>r. event_group r = k) es))"
  using assms
  by (cases k; auto simp: fleet_daily_group_def sum_ints_def Let_def res_simps split: if_splits)+

lemma rebuild_sum:
  fixes g :: "fleet_daily \<Rightarrow> int" and f :: "audit_row \<Rightarrow> int"
  assumes rb: "rebuild_daily_usage_for_node db nid = Inr db'" and ne: "nid \<noteq> []"
    and g: "\<And>k y. fleet_daily_group nid (node_events db nid) k = Inr y \<Longrightarrow>
      g y = sum_list (map f (filter (\<lambda>r. event_group r = k) (node_events db nid)))"
  shows "sum_list (map g (filter (\<lambda>y. y_node_id y = nid \<and> P (y_date y, y_user_id y, y_destination_host y))
      (fleet_daily_usage db')))
    = sum_list (map f (filter (\<lambda>r. P (event_group r)) (node_events db nid)))"
proof -
  let ?es = "node_events db nid"
  let ?ks = "remdups (map event_group ?es)"
  let ?h = "\<lambda>k. sum_list (map f (filter (\<lambda>r. event_group r = k) ?es))"
  let ?key = "\<lambda>y. (y_date y, y_user_id y, y_destination_host y)"
  from rb ne obtain rows where rows: "rmap (fleet_daily_group nid ?es) ?ks = Inr rows"
    and db': "db' = db\<lparr>fleet_daily_usage := filter (\<lambda>y. y_node_id y \<noteq> nid) (fleet_daily_usage db) @ rows\<rparr>"
    by (auto simp: rebuild_daily_usage_for_node_def Let_def res_simps)
  have nid: "y_node_id y = nid" if y: "y \<in> set rows" for y
    using rmap_Inr_set [OF rows y] fleet_daily_group_Inr(2) by blast
  have sel: "filter (\<lambda>y. y_node_id y = nid \<and> P (?key y)) (fleet_daily_usage db') = filter (\<lambda>y. P (?key y)) rows"
    using nid by (auto simp: db' filter_empty_conv intro!: filter_cong)
  have "map (\<lambda>y. if P (?key y) then g y else 0) rows = map (\<lambda>k. if P k then ?h k else 0) ?ks"
    using g by (intro rmap_image [OF rows]) (simp add: fleet_daily_group_Inr(1))
  then have "sum_list (map (\<lambda>y. if P (?key y) then g y else 0) rows)
    = (\<Sum>k\<in>set ?ks. if P k then ?h k else 0)"
    by (simp only: sum_list_distinct_conv_sum_set distinct_remdups)
  also have "\<dots> = (\<Sum>k\<in>{k \<in> set ?ks. P k}. ?h k)" by (simp add: sum.inter_filter)
  also have "\<dots> = sum_list (map f (filter (\<lambda>r. event_group r \<in> {k \<in> set ?ks. P k}) ?es))"
    by (rule sum_over_groups) simp
  also have "filter (\<lambda>r. event_group r \<in> {k \<in> set ?ks. P k}) ?es = filter (\<lambda>r. P (event_group r)) ?es"
    by (rule filter_cong) auto
  finally show ?thesis using sel by (simp add: sum_list_map_filter')
qed

section \<open>Validation\<close>

definition row_seq :: "json \<Rightarrow> json" where
  "row_seq row = (case row of JObj d \<Rightarrow> dget ''export_seq'' d | _ \<Rightarrow> JNull)"

lemma validate_row_Inr:
  assumes "validate_row after nid row seqs = Inr seqs'"
  shows "\<exists>s. row_seq row = JInt s \<and> seqs' = s # seqs \<and> after < s \<and> (seqs \<noteq> [] \<longrightarrow> hd seqs < s)
    \<and> row_node_id row = Some nid"
proof -
  obtain d where row: "row = JObj d"
    using assms by (cases row) (auto simp: validate_row_def value_error_def)
  obtain eid where eid: "dget ''event_id'' d = JInt eid"
    using assms by (cases "dget ''event_id'' d") (auto simp: validate_row_def value_error_def row)
  obtain s where s: "dget ''export_seq'' d = JInt s"
    using assms by (cases "dget ''export_seq'' d") (auto simp: validate_row_def value_error_def row eid)
  show ?thesis
    using assms
    by (auto simp: validate_row_def value_error_def row eid s row_seq_def
        split: if_splits option.splits list.splits)
qed

lemma validate_rows_Inr:
  assumes "rfold (validate_row after nid) rows acc = Inr seqs" and "sorted_wrt (>) acc"
    and "\<forall>s \<in> set acc. after < s"
  shows "\<exists>ss. map row_seq rows = map JInt ss \<and> seqs = rev ss @ acc \<and> sorted_wrt (>) seqs
    \<and> (\<forall>s \<in> set seqs. after < s) \<and> (\<forall>row \<in> set rows. row_node_id row = Some nid)"
  using assms
proof (induction rows arbitrary: acc)
  case Nil
  then show ?case by simp
next
  case (Cons row rows)
  from Cons.prems(1) obtain acc1 where v: "validate_row after nid row acc = Inr acc1"
    and rest: "rfold (validate_row after nid) rows acc1 = Inr seqs" by (auto simp: res_simps)
  from validate_row_Inr [OF v] obtain s where s: "row_seq row = JInt s" "acc1 = s # acc" "after < s"
    "acc \<noteq> [] \<longrightarrow> hd acc < s" "row_node_id row = Some nid" by blast
  have "sorted_wrt (>) acc1"
    using Cons.prems(2) s(2,4) by (cases acc) auto
  moreover have "\<forall>x \<in> set acc1. after < x" using Cons.prems(3) s(2,3) by simp
  ultimately obtain ss where "map row_seq rows = map JInt ss" "seqs = rev ss @ acc1" "sorted_wrt (>) seqs"
    "\<forall>s \<in> set seqs. after < s" "\<forall>row \<in> set rows. row_node_id row = Some nid"
    using Cons.IH [OF rest] by blast
  with s show ?case by (intro exI [of _ "s # ss"]) simp
qed

lemma validate_rows_accept:
  assumes "map row_seq rows = map JInt ss" and "sorted_wrt (>) (rev ss @ acc)" and "\<forall>s \<in> set ss. after < s"
    and "\<And>row. row \<in> set rows \<Longrightarrow> row_node_id row = Some nid \<and> (\<exists>d e. row = JObj d \<and> dget ''event_id'' d = JInt e)"
  shows "rfold (validate_row after nid) rows acc = Inr (rev ss @ acc)"
  using assms
proof (induction rows arbitrary: ss acc)
  case Nil
  then show ?case by simp
next
  case (Cons row rows)
  from Cons.prems(1) obtain s ss' where ss: "ss = s # ss'" "row_seq row = JInt s" "map row_seq rows = map JInt ss'"
    by (cases ss) auto
  from Cons.prems(4) [of row] obtain d e where d: "row = JObj d" "dget ''event_id'' d = JInt e"
    "row_node_id row = Some nid" by auto
  have gt: "x < s" if "x \<in> set acc" for x using Cons.prems(2) that by (auto simp: ss sorted_wrt_append)
  have "s \<notin> set acc" "\<not> (case acc of [] \<Rightarrow> False | p # _ \<Rightarrow> s \<le> p)"
    using gt by (fastforce split: list.splits)+
  then have "validate_row after nid row acc = Inr (s # acc)"
    using d ss(2) Cons.prems(3) by (simp add: validate_row_def row_seq_def ss(1))
  moreover have "rfold (validate_row after nid) rows (s # acc) = Inr (rev ss' @ s # acc)"
    using Cons.prems by (intro Cons.IH) (auto simp: ss)
  ultimately show ?case by (simp add: ss)
qed

text \<open>The meta object a node prints for a delivered batch passes the meta checks.\<close>

lemma identity_meta:
  fixes mx pruned cnt nx after :: int
  assumes "uuid_ok nid" "opt_text iid = eiid"
  defines "m \<equiv> apply_export_identity (Some nid) iid (export_meta True None after mx pruned cnt nx)"
  shows "check_meta m after n nid eiid = (if cnt = int n then Inr () else value_error ''export meta count != delivered'')"
    and "dget ''next_cursor'' m = JInt nx" "dget ''max_export_seq'' m = JInt mx"
    and "dget ''error'' m = JNull"
proof -
  have o: "opt_text (Some nid) = Some nid" using assms(1) by (simp add: opt_text_def)
  have g: "dget k m = (case eiid of Some i \<Rightarrow> if k = ''instance_id'' then JStr i
        else if k = ''node_id'' then JStr nid else dget k (export_meta True None after mx pruned cnt nx)
      | None \<Rightarrow> if k = ''node_id'' then JStr nid else dget k (export_meta True None after mx pruned cnt nx))" for k
    using assms(2) by (auto simp: m_def apply_export_identity_def set_opt_def o split: option.split)
  have t: "text_or_none i = Some i" if "eiid = Some i" for i
    using that assms(2) by (auto simp: opt_text_def split: option.splits dest: text_or_none_idem)
  have ks: "text_or_none ''export_seq'' = Some ''export_seq''" by code_simp
  show "dget ''next_cursor'' m = JInt nx" "dget ''max_export_seq'' m = JInt mx" "dget ''error'' m = JNull"
    unfolding g by (simp_all add: export_meta_def split: option.split)
  show "check_meta m after n nid eiid = (if cnt = int n then Inr () else value_error ''export meta count != delivered'')"
    using t assms(1)
    by (cases eiid) (simp_all add: check_meta_def g export_meta_def ks require_export_int_def uuid_ok_nonempty)
qed

end
