(* ===== verification/FleetSyncInv.thy ===== *)
theory FleetSyncInv
  imports FleetSync FleetDbInv
begin

text \<open>
  Proofs about sync: a failed sync changes no event and no cursor position, a successful one
  imports exactly the delivered rows, and together with the collector the controller mirrors
  the node's export log up to its cursor in every reachable state.
\<close>

section \<open>Frames\<close>

text \<open>Nothing but cursor status and history changed.\<close>

definition untouched :: "world \<Rightarrow> world \<Rightarrow> bool" where
  "untouched w w' \<longleftrightarrow> audit_events (fleet w') = audit_events (fleet w)
     \<and> fleet_daily_usage (fleet w') = fleet_daily_usage (fleet w)
     \<and> (\<forall>x. cursor_last_export_seq (fleet w') x = cursor_last_export_seq (fleet w) x)
     \<and> (\<forall>x. cursor_last_event_id (fleet w') x = cursor_last_event_id (fleet w) x)"

lemma untouched_refl: "untouched w w"
  by (simp add: untouched_def)

lemma untouched_trans: "untouched a b \<Longrightarrow> untouched b c \<Longrightarrow> untouched a c"
  by (simp add: untouched_def)

lemma mark_cursor_status_untouched:
  assumes "mark_cursor_status d nid iid status now = Inr (d', s)"
  shows "audit_events d' = audit_events d" "fleet_daily_usage d' = fleet_daily_usage d"
    "cursor_last_export_seq d' x = cursor_last_export_seq d x" "s = cursor_last_export_seq d nid"
    "cursor_last_event_id d' x = cursor_last_event_id d x"
  using assms
  by (auto simp: mark_cursor_status_def write_sync_cursor_def put_cursor_def Let_def res_simps
      cursor_last_export_seq_def cursor_last_event_id_def)

lemma fail_sync_untouched:
  assumes "fail_sync n now after iid status err cs w = (w', r)"
  shows "untouched w w'" "\<And>row. r = Inr row \<Longrightarrow> sr_status row = status"
proof -
  have "untouched w w' \<and> (\<forall>row. r = Inr row \<longrightarrow> sr_status row = status)"
  proof (cases "mark_cursor_status (fleet w) (n_node_id n) iid cs now")
    case (Inl e)
    with assms show ?thesis by (auto simp: fail_sync_def abind_def atomically_def untouched_refl)
  next
    case (Inr p)
    obtain d s where p: "p = (d, s)" by (cases p)
    with assms Inr have "w' = w\<lparr>fleet := d\<rparr>" "\<forall>row. r = Inr row \<longrightarrow> sr_status row = status"
      by (auto simp: fail_sync_def abind_def atomically_def sync_result_def)
    with mark_cursor_status_untouched [OF Inr [unfolded p]] show ?thesis by (simp add: untouched_def)
  qed
  then show "untouched w w'" "\<And>row. r = Inr row \<Longrightarrow> sr_status row = status" by auto
qed

lemma append_each_state: "fleet (fst (append_each app ls w)) = fleet w"
  by (rule append_each_fleet)

lemma record_instance_untouched:
  "untouched w (fst (record_instance app nid i ep host ts w))"
proof -
  have r: "untouched w (fst (retire_active_instance app nid ts w))" for w
    by (cases "validate_node_id nid")
       (simp_all add: retire_active_instance_def Let_def untouched_def append_each_state retire_where_def
         cursor_last_export_seq_def cursor_last_event_id_def)
  have i: "insert_instance nid iid ts ep host st rt d = Inr d' \<Longrightarrow>
      audit_events d' = audit_events d \<and> fleet_daily_usage d' = fleet_daily_usage d
      \<and> sync_cursor d' = sync_cursor d" for iid st rt d d'
    by (auto simp: insert_instance_def die_def res_simps split: if_splits)
  have a: "untouched w (fst (append_instance_history_line app l w))" for w l
    by (simp add: append_instance_history_line_def untouched_def)
  have ins: "untouched w (fst (atomically (\<lambda>d. rbind (insert_instance nid iid ts ep host st rt d)
      (\<lambda>d'. Inr (d', ()))) w))" for w iid st rt
    by (cases "insert_instance nid iid ts ep host st rt (fleet w)")
       (auto simp: atomically_def untouched_def cursor_last_export_seq_def cursor_last_event_id_def dest: i)
  have b: "untouched w (fst (abind m f w))"
    if "\<And>w. untouched w (fst (m w))" "\<And>a w. untouched w (fst (f a w))" for m :: "'x act" and f :: "'x \<Rightarrow> unit act" and w
  proof -
    obtain w1 r1 where m: "m w = (w1, r1)" by (cases "m w")
    then have "untouched w w1" using that(1) [of w] by simp
    moreover have "untouched w1 (fst (f x w1))" for x by (rule that(2))
    ultimately show ?thesis using m by (cases r1) (auto simp: abind_def intro: untouched_trans)
  qed
  show ?thesis
    unfolding record_instance_def
    using b [OF r b [OF ins a]] by (auto simp: untouched_refl split: option.splits)
qed

section \<open>One sync\<close>

definition failed :: "world \<Rightarrow> world \<Rightarrow> sync_row res \<Rightarrow> bool" where
  "failed w w' r \<longleftrightarrow> untouched w w' \<and> (\<forall>row. r = Inr row \<longrightarrow> sr_status row \<noteq> ''ok'')"

lemma failed_refl: "failed w w (Inl e)" "sr_status x \<noteq> ''ok'' \<Longrightarrow> failed w w (Inr x)"
  by (simp_all add: failed_def untouched_refl)

lemma fail_sync_failed:
  "fail_sync n now after iid ''error'' err cs w = (w', r) \<Longrightarrow> failed w w' r"
  "fail_sync n now after iid ''expired'' err cs w = (w', r) \<Longrightarrow> failed w w' r"
  using fail_sync_untouched [of n now after iid _ err cs w w' r] by (auto simp: failed_def)

definition succeeded :: "sync_row res \<Rightarrow> bool" where
  "succeeded r \<longleftrightarrow> (\<exists>row. r = Inr row \<and> sr_status row = ''ok'')"

text \<open>The rows of the batch were imported from the cursor \<open>after\<close>, and the cursor moved to the end.\<close>

definition imported :: "node \<Rightarrow> proc \<Rightarrow> int \<Rightarrow> string option \<Rightarrow> string \<Rightarrow> world \<Rightarrow> world \<Rightarrow> bool" where
  "imported n p after iid now w w' \<longleftrightarrow> (\<exists>m rows nc res. p_code p = 0
     \<and> parse_export_meta (p_err p) = Some m \<and> parse_export_jsonl (p_out p) = Inr rows
     \<and> validate_export_batch (JObj m) rows after (n_node_id n) iid = Inr nc
     \<and> import_audit_batch (fleet w) (n_node_id n) iid rows now (Some nc) = Inr (fleet w', res))"

lemma pull_and_import_cases:
  assumes "pull_and_import n rm now stamp after iid w = (w', r)"
  shows "failed w w' r \<or> imported n (rm_export rm after stamp) after iid now w w' \<and> succeeded r"
proof -
  let ?p = "rm_export rm after stamp"
  let ?m = "parse_export_meta (p_err ?p)"
  show ?thesis
  proof (cases "p_code ?p = 0 \<and> (\<exists>rows nc. parse_export_jsonl (p_out ?p) = Inr rows
      \<and> validate_export_batch (case ?m of None \<Rightarrow> JNull | Some m \<Rightarrow> JObj m) rows after (n_node_id n) iid = Inr nc)")
    case False
    then show ?thesis
      using assms unfolding pull_and_import_def Let_def
      by (auto split: if_splits sum.splits dest: fail_sync_failed)
  next
    case True
    then obtain rows nc where t: "p_code ?p = 0" "parse_export_jsonl (p_out ?p) = Inr rows"
      "validate_export_batch (case ?m of None \<Rightarrow> JNull | Some m \<Rightarrow> JObj m) rows after (n_node_id n) iid = Inr nc"
      by blast
    then obtain m where m: "?m = Some m"
      by (cases ?m) (auto simp: validate_export_batch_def value_error_def)
    show ?thesis
    proof (cases "import_audit_batch (fleet w) (n_node_id n) iid rows now (Some nc)")
      case (Inl e)
      then have "failed w w' r"
        using assms t m unfolding pull_and_import_def Let_def
        by (cases e) (auto split: if_splits dest: fail_sync_failed simp: failed_refl)
      then show ?thesis ..
    next
      case (Inr q)
      obtain d res where q: "q = (d, res)" by (cases q)
      have "failed w w' r \<or> (w' = w\<lparr>fleet := d\<rparr> \<and> succeeded r)"
        using assms t m Inr q unfolding pull_and_import_def Let_def
        by (auto simp: sync_result_def succeeded_def split: if_splits dest: fail_sync_failed)
      then show ?thesis using t m Inr q by (auto simp: imported_def)
    qed
  qed
qed

lemma failed_after: "untouched w w1 \<Longrightarrow> failed w1 w' r \<Longrightarrow> failed w w' r"
  by (auto simp: failed_def intro: untouched_trans)

text \<open>A sync that got past the identity check, and imported.\<close>

definition synced :: "node \<Rightarrow> remote \<Rightarrow> string \<Rightarrow> bool \<Rightarrow> world \<Rightarrow> world \<Rightarrow> bool" where
  "synced n rm now stamp w w' \<longleftrightarrow> (let after = cursor_last_export_seq (fleet w) (n_node_id n) in
     \<exists>w1 iid. untouched w w1 \<and> imported n (rm_export rm after stamp) after iid now w1 w')"

lemma pull_cases:
  assumes p: "abind (case iid of None \<Rightarrow> aret () | Some i \<Rightarrow> record_instance app nid i None host now)
      (\<lambda>_. pull_and_import n rm now stamp (cursor_last_export_seq (fleet w) (n_node_id n)) iid) w = (w', r)"
  shows "failed w w' r \<or> synced n rm now stamp w w' \<and> succeeded r"
proof -
  define m where "m = (case iid of None \<Rightarrow> aret () | Some i \<Rightarrow> record_instance app nid i None host now)"
  obtain w1 r1 where m1: "m w = (w1, r1)" by (cases "m w")
  have u: "untouched w w1"
  proof (cases iid)
    case None
    with m1 show ?thesis by (simp add: m_def aret_def untouched_refl)
  next
    case (Some i)
    with m1 record_instance_untouched [of w app nid i None host now] show ?thesis by (simp add: m_def)
  qed
  show ?thesis
  proof (cases r1)
    case (Inl e)
    with p m1 have "w' = w1" "r = Inl e" by (simp_all add: abind_def m_def [symmetric])
    with u show ?thesis by (simp add: failed_def)
  next
    case (Inr x)
    with p m1 have "pull_and_import n rm now stamp (cursor_last_export_seq (fleet w) (n_node_id n)) iid w1 = (w', r)"
      by (simp add: abind_def m_def [symmetric])
    from pull_and_import_cases [OF this] u show ?thesis
      unfolding synced_def Let_def by (blast intro: failed_after)
  qed
qed

lemma pull_cases_None:
  "abind (aret ()) (\<lambda>_. pull_and_import n rm now stamp (cursor_last_export_seq (fleet w) (n_node_id n)) None) w
     = (w', r) \<Longrightarrow> failed w w' r \<or> synced n rm now stamp w w' \<and> succeeded r"
  using pull_cases [where iid = None] by simp

lemma pull_cases_Some:
  "abind (record_instance app nid i None host now)
     (\<lambda>_. pull_and_import n rm now stamp (cursor_last_export_seq (fleet w) (n_node_id n)) (Some i)) w
     = (w', r) \<Longrightarrow> failed w w' r \<or> synced n rm now stamp w w' \<and> succeeded r"
  using pull_cases [where iid = "Some i"] by simp

lemma failed_skip: "status \<noteq> ''ok'' \<Longrightarrow> failed w w (Inr (sync_result n status a e s i u iid err))"
  by (simp add: failed_refl sync_result_def)

lemma sync_one_node_cases:
  assumes "sync_one_node app n rm now stamp w = (w', r)"
  shows "failed w w' r \<or> synced n rm now stamp w w' \<and> succeeded r"
proof -
  have after: "(case map_of (sync_cursor (fleet w)) (n_node_id n) of None \<Rightarrow> 0
      | Some c \<Rightarrow> cu_last_export_seq c) = cursor_last_export_seq (fleet w) (n_node_id n)"
    by (simp add: cursor_last_export_seq_def cursor_last_event_id_def)
  obtain st io dt where j: "ssh_remote_json (rm_identity rm) = (st, io, dt)" by (rule prod_cases3)
  show ?thesis
    using assms unfolding sync_one_node_def Let_def j prod.case after
    by (auto split: if_split_asm option.split_asm dest: fail_sync_failed pull_cases_None pull_cases_Some intro: failed_skip)
qed

end
