(* ===== verification/FleetMirror.thy ===== *)
theory FleetMirror
  imports FleetSyncInv
begin

text \<open>
  The node's collector and the controller together.  The controller mirrors the node's export
  log: up to its cursor it holds the image of every row of the log, and nothing the log does
  not hold or has not pruned.  The mirror is an invariant of every interleaving of collector
  runs, syncs of this and of other nodes, and reseeds.
\<close>

lemma list_all2_mem:
  assumes "list_all2 P xs ys"
  shows "x \<in> set xs \<Longrightarrow> \<exists>y \<in> set ys. P x y" "y \<in> set ys \<Longrightarrow> \<exists>x \<in> set xs. P x y"
  using assms by (induction rule: list_all2_induct) auto

section \<open>Images of rows\<close>

definition opt_strip :: "string option \<Rightarrow> string option" where
  "opt_strip v = (case v of None \<Rightarrow> None | Some s \<Rightarrow> text_or_none s)"

text \<open>What the import keeps of a connection row, apart from the instance label and the clock.\<close>

definition image_row :: "string \<Rightarrow> conn_row \<Rightarrow> audit_row" where
  "image_row nid r =
     \<lparr>a_node_id = nid, a_instance_id = None, a_event_id = c_event_id r, a_export_seq = c_export_seq r,
      a_connection_id = strip (c_connection_id r), a_generation = c_generation r,
      a_user_id = strip (c_user_id r), a_user_tag = opt_strip (c_user_tag r),
      a_started_at = strip (c_started_at r), a_last_seen_at = strip (c_last_seen_at r),
      a_closed_at = opt_strip (c_closed_at r), a_destination_host = opt_strip (c_destination_host r),
      a_destination_ip = opt_strip (c_destination_ip r), a_destination_port = c_destination_port r,
      a_network = opt_strip (c_network r), a_upload_bytes = c_upload_bytes r,
      a_download_bytes = c_download_bytes r, a_imported_at = []\<rparr>"

definition content :: "audit_row \<Rightarrow> audit_row" where
  "content e = e\<lparr>a_instance_id := None, a_imported_at := []\<rparr>"

lemma content_keys [simp]:
  "a_node_id (content e) = a_node_id e" "a_event_id (content e) = a_event_id e"
  "a_export_seq (content e) = a_export_seq e"
  by (simp_all add: content_def)

lemma image_keys [simp]:
  "a_node_id (image_row nid r) = nid" "a_event_id (image_row nid r) = c_event_id r"
  "a_export_seq (image_row nid r) = c_export_seq r"
  by (simp_all add: image_row_def)

lemma content_imageD:
  assumes "content e = image_row nid r"
  shows "a_node_id e = nid" "a_event_id e = c_event_id r" "a_export_seq e = c_export_seq r"
  using arg_cong [OF assms, of a_node_id] arg_cong [OF assms, of a_event_id]
    arg_cong [OF assms, of a_export_seq] by simp_all

text \<open>A delivered row: as exported, up to the labels that stamping fills in.\<close>

definition delivers :: "conn_row \<Rightarrow> dict \<Rightarrow> bool" where
  "delivers r d \<longleftrightarrow> (\<forall>k. k \<noteq> ''node_id'' \<longrightarrow> k \<noteq> ''instance_id'' \<longrightarrow> dget k d = dget k (row_dict r))"

lemma numeric_Inr: "numeric m = Inr x \<longleftrightarrow> m = Inr x"
  by (auto simp: numeric_def die_def split: sum.splits exc.splits)

lemma params_image:
  assumes "audit_insert_params d nid now = Inr e" "delivers r d"
  shows "content e = image_row nid r"
proof -
  have g: "dget k d = dget k (row_dict r)" if "k \<noteq> ''node_id''" "k \<noteq> ''instance_id''" for k
    using assms(2) that by (simp add: delivers_def)
  have n: "need_text k d = Inr t \<Longrightarrow> dget k d = JStr s \<Longrightarrow> t = strip s" for k t s
    by (auto simp: need_text_def die_def dest: text_or_none_Some split: option.splits)
  have i: "int_or_none (of_int_opt v) = Inr v" for v
    by (simp add: int_or_none_def of_int_opt_def split: option.split)
  have o: "py_int (of_int_opt v) = Inr s \<longleftrightarrow> v = Some s" for v s
    by (simp add: of_int_opt_def split: option.split)
  from assms(1) obtain cid uid st se s lbl where p: "need_text ''connection_id'' d = Inr cid"
    "need_text ''user_id'' d = Inr uid" "need_text ''started_at'' d = Inr st"
    "need_text ''last_seen_at'' d = Inr se" "c_export_seq r = Some s"
    and e: "e = \<lparr>a_node_id = nid, a_instance_id = lbl,
        a_event_id = c_event_id r, a_export_seq = Some s, a_connection_id = cid, a_generation = c_generation r,
        a_user_id = uid, a_user_tag = optional_text (of_text (c_user_tag r)),
        a_started_at = st, a_last_seen_at = se,
        a_closed_at = optional_text (of_text (c_closed_at r)),
        a_destination_host = optional_text (of_text (c_destination_host r)),
        a_destination_ip = optional_text (of_text (c_destination_ip r)),
        a_destination_port = c_destination_port r, a_network = optional_text (of_text (c_network r)),
        a_upload_bytes = c_upload_bytes r, a_download_bytes = c_download_bytes r, a_imported_at = now\<rparr>"
    by (auto simp: audit_insert_params_def g row_dict_def rbind_eq_Inr numeric_Inr i o die_def split: if_split_asm)
  have "cid = strip (c_connection_id r)" "uid = strip (c_user_id r)" "st = strip (c_started_at r)"
    "se = strip (c_last_seen_at r)"
    using p(1-4) by (auto dest!: n simp: g row_dict_def)
  with p(5) show ?thesis
    by (simp add: e content_def image_row_def optional_text_of_text opt_strip_def)
qed

section \<open>What a working node delivers\<close>

text \<open>
  The remote side runs \<open>vcl audit export --after N --jsonl\<close> on the database \<open>D\<close>: whenever the
  process exits with 0, its output is that of \<open>main_export\<close>.  Any other exit, for a lost
  connection, a refused cursor or a crash, may come with any output.
\<close>

definition export_argv :: "int \<Rightarrow> bool \<Rightarrow> string \<Rightarrow> string \<Rightarrow> export_args" where
  "export_argv after stamp nid iid =
     \<lparr>x_jsonl = True, x_after = Some (int_text after), x_limit = None, x_interval_flags = [],
      x_json_flag = False, x_node_id = nid, x_instance_id = iid, x_stamp = stamp\<rparr>"

definition serves :: "acct_db \<Rightarrow> remote \<Rightarrow> bool" where
  "serves D rm \<longleftrightarrow> (\<forall>after stamp. p_code (rm_export rm after stamp) = 0 \<longrightarrow>
     (\<exists>nid iid ds m. main_export D (export_argv after stamp nid iid) = Inr (0, ds, m)
        \<and> p_out (rm_export rm after stamp) = map (\<lambda>d. Json (JObj d)) ds))"

lemma stamp_field_delivers:
  assumes "stamp_field k v d = Inr d'" "k = ''node_id'' \<or> k = ''instance_id''" "delivers r d"
  shows "delivers r d'"
proof -
  have "d' = d \<or> d' = AList.update k (JStr v) d"
    using assms(1) unfolding stamp_field_def by (cases "optional_text (dget k d)") (auto split: if_splits)
  moreover have "dget k' (AList.update k (JStr v) d) = dget k' d" if "k' \<noteq> ''node_id''" "k' \<noteq> ''instance_id''" for k'
    using that assms(2) by (metis dget_update)
  ultimately show ?thesis using assms(3) unfolding delivers_def by metis
qed

definition stamp_row :: "string \<Rightarrow> string option \<Rightarrow> dict \<Rightarrow> dict res" where
  "stamp_row n iid d = rbind (stamp_field ''node_id'' n d) (\<lambda>d.
      case iid of None \<Rightarrow> Inr d | Some i \<Rightarrow> stamp_field ''instance_id'' i d)"

lemma stamp_export_rows_Some: "stamp_export_rows (Some n) iid ds = rmap (stamp_row n iid) ds"
  by (simp only: stamp_export_rows_def option.case stamp_row_def [abs_def])

lemma stamp_row_delivers: "stamp_row n iid d = Inr d' \<Longrightarrow> delivers r d \<Longrightarrow> delivers r d'"
  unfolding stamp_row_def rbind_eq_Inr
  by (cases iid) (auto dest: stamp_field_delivers [OF _ disjI1 [OF refl]] stamp_field_delivers [OF _ disjI2 [OF refl]])

lemma stamp_delivers:
  assumes "stamp_export_rows nid iid ds = Inr ds'" "list_all2 delivers rs ds"
  shows "list_all2 delivers rs ds'"
proof (cases nid)
  case None
  with assms(1) show ?thesis by (simp add: stamp_export_rows_def)
next
  case (Some n)
  with assms(1) have "rmap (stamp_row n iid) ds = Inr ds'" by (simp only: stamp_export_rows_Some)
  with assms(2) show ?thesis
    by (induction arbitrary: ds' rule: list_all2_induct) (auto simp: res_simps intro: stamp_row_delivers)
qed

lemma serves_rows:
  assumes "serves D rm" "p_code (rm_export rm after stamp) = 0"
    "parse_export_jsonl (p_out (rm_export rm after stamp)) = Inr rows"
  shows "\<exists>ds. rows = map JObj ds \<and> list_all2 delivers (after_rows D after) ds"
proof -
  from assms(1,2) obtain nid iid ds m where x: "main_export D (export_argv after stamp nid iid) = Inr (0, ds, m)"
    and out: "p_out (rm_export rm after stamp) = map (\<lambda>d. Json (JObj d)) ds"
    unfolding serves_def by blast
  have "parse_export_jsonl (map (\<lambda>d. Json (JObj d)) ds) = Inr (map JObj ds)"
    by (induction ds) simp_all
  with assms(3) out have rows: "rows = map JObj ds" by simp
  obtain st rs m' where e: "export_after D after None = Inr (st, rs, m')"
    and st: "st = ExportOk" and ds: "(if stamp then stamp_export_rows (text_or_none nid) (text_or_none iid) rs
       else Inr rs) = Inr ds"
    using x by (auto simp: main_export_def export_argv_def rbind_eq_Inr Let_def split: if_split_asm)
  have "rs = map row_dict (after_rows D after)"
    using e st by (auto simp: export_after_def rbind_eq_Inr Let_def after_rows_def split: if_split_asm)
  then have "list_all2 delivers (after_rows D after) rs"
    by (simp add: list_all2_conv_all_nth delivers_def)
  then have "list_all2 delivers (after_rows D after) ds"
    using ds by (cases stamp) (auto dest: stamp_delivers)
  with rows show ?thesis by blast
qed

section \<open>Validation and import\<close>

lemma validate_Inr:
  assumes "validate_export_batch m rows after nid iid = Inr nc"
  shows "\<exists>ss. map row_seq rows = map JInt ss \<and> sorted_wrt (<) ss \<and> (\<forall>s \<in> set ss. after < s)
    \<and> nc = (if ss = [] then after else last ss) \<and> (\<forall>row \<in> set rows. row_node_id row = Some nid)"
proof -
  obtain d where m: "m = JObj d"
    using assms by (cases m) (auto simp: validate_export_batch_def value_error_def)
  from assms obtain seqs where v: "rfold (validate_row after nid) rows [] = Inr seqs"
    unfolding validate_export_batch_def m by (auto simp only: json.case rbind_eq_Inr)
  have nc: "nc = (case seqs of s # _ \<Rightarrow> s | [] \<Rightarrow> after)"
    using assms by (cases seqs) (auto simp: validate_export_batch_def m v value_error_def rbind_eq_Inr
      split: if_split_asm)
  from validate_rows_Inr [OF v] obtain ss where ss: "map row_seq rows = map JInt ss" "seqs = rev ss"
    "sorted_wrt (>) seqs" "\<forall>s \<in> set seqs. after < s" "\<forall>row \<in> set rows. row_node_id row = Some nid" by auto
  have "nc = (if ss = [] then after else last ss)"
    using nc ss(2) by (cases ss rule: rev_cases) auto
  with ss show ?thesis by (intro exI [of _ ss]) (simp add: sorted_wrt_rev)
qed

lemma event_put_set: "set (event_put r es) \<subseteq> insert r (set es)"
  by (auto simp: event_put_def)

lemma event_puts_set: "set (fold event_put rs es) \<subseteq> set rs \<union> set es"
proof (induction rs arbitrary: es)
  case (Cons r rs)
  have "set (fold event_put (r # rs) es) \<subseteq> set rs \<union> set (event_put r es)"
    using Cons.IH by simp
  with event_put_set [of r es] show ?case by auto
qed simp

lemma event_puts_keep:
  "e \<in> set es \<Longrightarrow> event_key e \<notin> event_key ` set rs \<Longrightarrow> e \<in> set (fold event_put rs es)"
proof (induction rs arbitrary: es)
  case (Cons r rs)
  from Cons.prems have "e \<in> set (event_put r es)" by (auto simp: event_put_def image_iff)
  with Cons show ?case by simp
qed simp

text \<open>The view of one node in the controller's database.\<close>

definition node_view :: "string \<Rightarrow> fleet_db \<Rightarrow> (int \<Rightarrow> audit_row option) \<times> audit_row set \<times> int" where
  "node_view nid d = ((\<lambda>k. event_get (audit_events d) (nid, k)),
     {e \<in> set (audit_events d). a_node_id e = nid}, cursor_last_export_seq d nid)"

lemma import_other:
  assumes "import_audit_batch d nid' iid rows now nc = Inr (d', res)" "nid \<noteq> nid'"
  shows "node_view nid d' = node_view nid d"
proof -
  from assms(1) obtain ds ps last_eid inst where
    ps: "rmap (\<lambda>d. audit_insert_params d nid' now) ds = Inr ps"
    and ev: "audit_events d' = fold event_put ps (audit_events d)"
    and cu: "sync_cursor d' = AList.update nid' \<lparr>cu_instance_id = inst, cu_last_event_id = last_eid,
       cu_last_export_seq = r_last_export_seq res, cu_cursor_kind = ''export_seq'',
       cu_last_sync_at = now, cu_status = ''ok''\<rparr> (sync_cursor d)"
    by (rule import_Inr)
  have n: "a_node_id r = nid'" if r: "r \<in> set ps" for r
    using rmap_Inr_set [OF ps r] audit_insert_params_key(1) by blast
  have "event_get (audit_events d') (nid, k) = event_get (audit_events d) (nid, k)" for k
    unfolding ev using n assms(2) by (intro events.get_puts_other) (auto simp: event_key_def)
  moreover have "{e \<in> set (audit_events d'). a_node_id e = nid} = {e \<in> set (audit_events d). a_node_id e = nid}"
  proof (intro set_eqI iffI)
    fix e assume "e \<in> {e \<in> set (audit_events d'). a_node_id e = nid}"
    then have e: "e \<in> set (audit_events d')" "a_node_id e = nid" by auto
    then have "e \<in> set ps \<union> set (audit_events d)" unfolding ev using event_puts_set by blast
    moreover have "e \<notin> set ps" using n e(2) assms(2) by auto
    ultimately show "e \<in> {e \<in> set (audit_events d). a_node_id e = nid}" using e(2) by simp
  next
    fix e assume "e \<in> {e \<in> set (audit_events d). a_node_id e = nid}"
    then have e: "e \<in> set (audit_events d)" "a_node_id e = nid" by auto
    then have "event_key e \<notin> event_key ` set ps" using n assms(2) by (auto simp: event_key_def)
    from event_puts_keep [OF e(1) this] e(2) show "e \<in> {e \<in> set (audit_events d'). a_node_id e = nid}"
      unfolding ev by simp
  qed
  ultimately show ?thesis
    using assms(2) by (simp add: node_view_def cursor_last_export_seq_def cu)
qed

section \<open>The mirror\<close>

definition mirror :: "string \<Rightarrow> acct_db \<Rightarrow> fleet_db \<Rightarrow> bool" where
  "mirror nid D d \<longleftrightarrow> (let c = cursor_last_export_seq d nid in 0 \<le> c \<and> c \<le> seq_counter D
     \<and> (\<forall>r \<in> set (connections D). \<forall>s. c_export_seq r = Some s \<longrightarrow> s \<le> c \<longrightarrow>
          (\<exists>e. event_get (audit_events d) (nid, c_event_id r) = Some e \<and> content e = image_row nid r))
     \<and> (\<forall>e \<in> set (audit_events d). a_node_id e = nid \<longrightarrow>
          (\<exists>s. a_export_seq e = Some s \<and> s \<le> c \<and>
             ((\<exists>r \<in> set (connections D). content e = image_row nid r) \<or> s \<le> pruned_seq D))))"

lemma mirrorD:
  assumes "mirror nid D d"
  shows "0 \<le> cursor_last_export_seq d nid" "cursor_last_export_seq d nid \<le> seq_counter D"
    "r \<in> set (connections D) \<Longrightarrow> c_export_seq r = Some s \<Longrightarrow> s \<le> cursor_last_export_seq d nid \<Longrightarrow>
       \<exists>e. event_get (audit_events d) (nid, c_event_id r) = Some e \<and> content e = image_row nid r"
    "e \<in> set (audit_events d) \<Longrightarrow> a_node_id e = nid \<Longrightarrow>
       \<exists>s. a_export_seq e = Some s \<and> s \<le> cursor_last_export_seq d nid \<and>
         ((\<exists>r \<in> set (connections D). content e = image_row nid r) \<or> s \<le> pruned_seq D)"
  using assms unfolding mirror_def Let_def by blast+

lemma mirrorI:
  assumes "0 \<le> cursor_last_export_seq d nid" "cursor_last_export_seq d nid \<le> seq_counter D"
    "\<And>r s. r \<in> set (connections D) \<Longrightarrow> c_export_seq r = Some s \<Longrightarrow> s \<le> cursor_last_export_seq d nid \<Longrightarrow>
       \<exists>e. event_get (audit_events d) (nid, c_event_id r) = Some e \<and> content e = image_row nid r"
    "\<And>e. e \<in> set (audit_events d) \<Longrightarrow> a_node_id e = nid \<Longrightarrow>
       \<exists>s. a_export_seq e = Some s \<and> s \<le> cursor_last_export_seq d nid \<and>
         ((\<exists>r \<in> set (connections D). content e = image_row nid r) \<or> s \<le> pruned_seq D)"
  shows "mirror nid D d"
  using assms unfolding mirror_def Let_def by blast

lemma mirror_view:
  assumes "node_view nid d' = node_view nid d" "mirror nid D d"
  shows "mirror nid D d'"
proof -
  from assms(1) have g: "\<And>k. event_get (audit_events d') (nid, k) = event_get (audit_events d) (nid, k)"
    and e: "{e \<in> set (audit_events d'). a_node_id e = nid} = {e \<in> set (audit_events d). a_node_id e = nid}"
    and c: "cursor_last_export_seq d' nid = cursor_last_export_seq d nid"
    by (auto simp: node_view_def dest: fun_cong)
  from e have m: "e \<in> set (audit_events d') \<Longrightarrow> a_node_id e = nid \<Longrightarrow> e \<in> set (audit_events d)" for e by blast
  show ?thesis
    by (rule mirrorI; unfold c g) (use mirrorD [OF assms(2)] m in blast)+
qed

lemma untouched_view: "untouched w w' \<Longrightarrow> node_view nid (fleet w') = node_view nid (fleet w)"
  by (simp add: untouched_def node_view_def)

text \<open>A step of the node keeps the mirror: the log only grows, and loses only pruned rows.\<close>

lemma mirror_node:
  assumes "mirror nid D d" "log_extends D D'" "acct_inv D"
  shows "mirror nid D' d"
proof (rule mirrorI)
  show "0 \<le> cursor_last_export_seq d nid" by (rule mirrorD [OF assms(1)])
  show "cursor_last_export_seq d nid \<le> seq_counter D'"
    using mirrorD(2) [OF assms(1)] assms(2) by (simp add: log_extends_def)
next
  fix r s assume r: "r \<in> set (connections D')" "c_export_seq r = Some s" "s \<le> cursor_last_export_seq d nid"
  then have "r \<in> set (connections D)"
    using assms(2) mirrorD(2) [OF assms(1)] by (auto simp: log_extends_def)
  from mirrorD(3) [OF assms(1) this r(2,3)]
  show "\<exists>e. event_get (audit_events d) (nid, c_event_id r) = Some e \<and> content e = image_row nid r" .
next
  fix e assume e: "e \<in> set (audit_events d)" "a_node_id e = nid"
  from mirrorD(4) [OF assms(1) e] obtain s where s: "a_export_seq e = Some s" "s \<le> cursor_last_export_seq d nid"
    "(\<exists>r \<in> set (connections D). content e = image_row nid r) \<or> s \<le> pruned_seq D" by blast
  have le: "pruned_seq D \<le> pruned_seq D'" using assms(2) by (simp add: log_extends_def)
  have "(\<exists>r \<in> set (connections D'). content e = image_row nid r) \<or> s \<le> pruned_seq D'"
    if r: "r \<in> set (connections D)" "content e = image_row nid r" for r
  proof -
    have x: "c_export_seq r = Some s" using content_imageD(3) [OF r(2)] s(1) by simp
    then have "\<not> open_row r" using assms(3) r(1) by (auto simp: acct_inv_def seq_inv_def)
    then have "r \<in> set (connections D') \<or> s \<le> pruned_seq D'"
      using assms(2) r(1) x unfolding log_extends_def by blast
    with r(2) show ?thesis by blast
  qed
  with s le show "\<exists>s. a_export_seq e = Some s \<and> s \<le> cursor_last_export_seq d nid \<and>
      ((\<exists>r \<in> set (connections D'). content e = image_row nid r) \<or> s \<le> pruned_seq D')"
    by (intro exI [of _ s]) force
qed

text \<open>A batch that is the log after the cursor: the numbers it may move the cursor to.\<close>

lemma log_batch:
  assumes inv: "acct_inv D" and dl: "list_all2 delivers (after_rows D after) ds"
    and v: "validate_export_batch mt (map JObj ds) after nid iid = Inr nc" and le: "after \<le> seq_counter D"
  shows "after \<le> nc" "nc \<le> seq_counter D"
    "r \<in> set (after_rows D after) \<Longrightarrow> c_export_seq r = Some s \<Longrightarrow> s \<le> nc"
proof -
  obtain ss where ss: "map row_seq (map JObj ds) = map JInt ss" "sorted_wrt (<) ss" "\<forall>s \<in> set ss. after < s"
    "nc = (if ss = [] then after else last ss)" using validate_Inr [OF v] by blast
  have "map row_seq (map JObj ds) = map (\<lambda>r. of_int_opt (c_export_seq r)) (after_rows D after)"
    using dl by (auto simp: list_eq_iff_nth_eq list_all2_conv_all_nth row_seq_def delivers_def row_dict_def)
  with ss(1) have ssr: "map JInt ss = map (\<lambda>r. of_int_opt (c_export_seq r)) (after_rows D after)" by simp
  show "after \<le> nc" using ss(3,4) by (auto simp: less_imp_le)
  show "nc \<le> seq_counter D"
  proof (cases "ss = []")
    case True with ss(4) le show ?thesis by simp
  next
    case False
    then have "JInt (last ss) \<in> set (map JInt ss)" by simp
    then obtain r where "r \<in> set (after_rows D after)" "c_export_seq r = Some (last ss)"
      unfolding ssr by (auto simp: of_int_opt_def split: option.splits)
    with inv False ss(4) show ?thesis
      using after_rows_set [OF inv, of r after] by (auto simp: acct_inv_def seq_inv_def)
  qed
  assume "r \<in> set (after_rows D after)" "c_export_seq r = Some s"
  then have "JInt s \<in> set (map (\<lambda>r. of_int_opt (c_export_seq r)) (after_rows D after))"
    by (force simp: of_int_opt_def)
  then have "s \<in> set ss" by (auto simp flip: ssr)
  with strict_sorted_last_max [OF ss(2), of s] ss(4) show "s \<le> nc" by auto
qed

text \<open>What its import writes: the images of exactly those rows, under distinct keys.\<close>

lemma log_import:
  assumes inv: "acct_inv D" and dl: "list_all2 delivers (after_rows D after) ds"
    and im: "import_audit_batch d nid iid (map JObj ds) now (Some nc) = Inr (d', res)"
  obtains ps where "audit_events d' = fold event_put ps (audit_events d)"
    "list_all2 (\<lambda>r e. content e = image_row nid r) (after_rows D after) ps"
    "distinct (map event_key ps)" "\<forall>e \<in> set ps. a_node_id e = nid"
    "cursor_last_export_seq d' nid = nc" "0 \<le> nc"
proof -
  from im obtain ds' ps last_eid inst where
    lb: "rmap (check_label nid) (map JObj ds) = Inr ds'"
    and ps: "rmap (\<lambda>d. audit_insert_params d nid now) ds' = Inr ps"
    and ev: "audit_events d' = fold event_put ps (audit_events d)"
    and cu: "sync_cursor d' = AList.update nid \<lparr>cu_instance_id = inst, cu_last_event_id = last_eid,
       cu_last_export_seq = r_last_export_seq res, cu_cursor_kind = ''export_seq'',
       cu_last_sync_at = now, cu_status = ''ok''\<rparr> (sync_cursor d)"
    and nc: "r_last_export_seq res = nc" "0 \<le> nc"
    by (rule import_Inr) blast
  have "check_label nid (JObj x) = Inr y \<Longrightarrow> y = x" for x y
    by (auto simp: check_label_def die_def split: option.splits if_splits)
  then have "rmap (check_label nid) (map JObj xs) = Inr ys \<Longrightarrow> ys = xs" for xs ys
    by (induction xs arbitrary: ys) (auto simp: res_simps)
  with lb have ds': "ds' = ds" by simp
  have img: "list_all2 (\<lambda>r e. content e = image_row nid r) (after_rows D after) ps"
    using dl ps unfolding ds' rmap_Inr_list_all2
    by (simp add: list_all2_conv_all_nth) (metis params_image)
  have keys: "map a_event_id ps = map c_event_id (after_rows D after)"
    using img by (auto simp: list_eq_iff_nth_eq list_all2_conv_all_nth dest: content_imageD)
  have pn: "a_node_id e = nid" if e: "e \<in> set ps" for e
    using rmap_Inr_set [OF ps e] audit_insert_params_key(1) by blast
  have "inj_on c_event_id (set (connections D))" "distinct (after_rows D after)"
    "set (after_rows D after) \<subseteq> set (connections D)"
    using inv connections_distinct [OF inv] after_rows_set [OF inv]
    by (auto simp: acct_inv_def keys_inv_def distinct_map after_rows_alt)
  then have "distinct (map a_event_id ps)" unfolding keys by (auto simp: distinct_map intro: inj_on_subset)
  then have "distinct (map event_key ps)"
    using pn by (auto simp: distinct_map inj_on_def event_key_def)
  with ev img pn nc cu show thesis by (intro that [of ps]) (simp_all add: cursor_last_export_seq_def)
qed

text \<open>An import of what the node serves keeps it, and moves the cursor to the end of the log.\<close>

lemma mirror_import:
  assumes m: "mirror nid D d" and inv: "acct_inv D" and sv: "serves D rm"
    and code: "p_code (rm_export rm after stamp) = 0" and after: "after = cursor_last_export_seq d nid"
    and pj: "parse_export_jsonl (p_out (rm_export rm after stamp)) = Inr rows"
    and v: "validate_export_batch mt rows after nid iid = Inr nc"
    and im: "import_audit_batch d nid iid rows now (Some nc) = Inr (d', res)"
  shows "mirror nid D d'"
proof -
  from serves_rows [OF sv code pj] obtain ds where rows: "rows = map JObj ds"
    and dl: "list_all2 delivers (after_rows D after) ds" by blast
  have le: "after \<le> seq_counter D" using mirrorD(2) [OF m] after by simp
  note lb = log_batch [OF inv dl v [unfolded rows] le]
  obtain ps where ev: "audit_events d' = fold event_put ps (audit_events d)"
    and img: "list_all2 (\<lambda>r e. content e = image_row nid r) (after_rows D after) ps"
    and dk: "distinct (map event_key ps)" and cu: "cursor_last_export_seq d' nid = nc" "0 \<le> nc"
    by (rule log_import [OF inv dl im [unfolded rows]])
  show ?thesis
  proof (rule mirrorI; unfold cu(1))
    show "0 \<le> nc" "nc \<le> seq_counter D" by (rule cu lb)+
  next
    fix r s assume r: "r \<in> set (connections D)" "c_export_seq r = Some s" "s \<le> nc"
    show "\<exists>e. event_get (audit_events d') (nid, c_event_id r) = Some e \<and> content e = image_row nid r"
    proof (cases "s \<le> after")
      case True
      then have old: "r \<notin> set (after_rows D after)" using r(2) after_rows_set [OF inv] by auto
      have "c_event_id r \<noteq> c_event_id r'" if "r' \<in> set (after_rows D after)" for r'
        using that old r(1) inv after_rows_set [OF inv, of r' after]
        by (auto simp: acct_inv_def keys_inv_def distinct_map dest: inj_onD)
      then have "(nid, c_event_id r) \<notin> event_key ` set ps"
        using list_all2_mem(2) [OF img] by (force simp: event_key_def dest: content_imageD)
      with mirrorD(3) [OF m r(1,2)] True after show ?thesis
        unfolding ev by (simp add: events.get_puts_other)
    next
      case False
      then have "r \<in> set (after_rows D after)" using r after_rows_set [OF inv] by auto
      then obtain e where e: "e \<in> set ps" "content e = image_row nid r"
        using list_all2_mem(1) [OF img] by blast
      have "event_key e = (nid, c_event_id r)" using content_imageD [OF e(2)] by (simp add: event_key_def)
      with events.get_puts_in [OF dk e(1), of "audit_events d"] e(2) show ?thesis unfolding ev by auto
    qed
  next
    fix e assume e: "e \<in> set (audit_events d')" "a_node_id e = nid"
    from e(1) consider "e \<in> set ps" | "e \<in> set (audit_events d)"
      unfolding ev using event_puts_set by blast
    then show "\<exists>s. a_export_seq e = Some s \<and> s \<le> nc \<and>
        ((\<exists>r \<in> set (connections D). content e = image_row nid r) \<or> s \<le> pruned_seq D)"
    proof cases
      case 1
      then obtain r where r: "r \<in> set (after_rows D after)" "content e = image_row nid r"
        using list_all2_mem(2) [OF img] by blast
      then obtain s where s: "r \<in> set (connections D)" "c_export_seq r = Some s"
        using after_rows_set [OF inv] by blast
      with r lb(3) content_imageD(3) [OF r(2)] show ?thesis by (intro exI [of _ s]) auto
    next
      case 2
      from mirrorD(4) [OF m 2 e(2)] after lb(1) show ?thesis by fastforce
    qed
  qed
qed

section \<open>Syncs and reseeds\<close>

lemma imported_mirror:
  assumes "imported n (rm_export rm (cursor_last_export_seq (fleet w) (n_node_id n)) stamp)
      (cursor_last_export_seq (fleet w) (n_node_id n)) iid now w w'"
    and "mirror (n_node_id n) D (fleet w)" "acct_inv D" "serves D rm"
  shows "mirror (n_node_id n) D (fleet w')"
  using assms unfolding imported_def by (blast intro: mirror_import)

lemma synced_mirror:
  assumes "synced n rm now stamp w w'" "mirror (n_node_id n) D (fleet w)" "acct_inv D" "serves D rm"
  shows "mirror (n_node_id n) D (fleet w')"
proof -
  from assms(1) obtain w1 iid where u: "untouched w w1"
    and i: "imported n (rm_export rm (cursor_last_export_seq (fleet w) (n_node_id n)) stamp)
      (cursor_last_export_seq (fleet w) (n_node_id n)) iid now w1 w'" by (auto simp: synced_def Let_def)
  have "cursor_last_export_seq (fleet w1) (n_node_id n) = cursor_last_export_seq (fleet w) (n_node_id n)"
    using u by (simp add: untouched_def)
  with i imported_mirror [of n rm w1 stamp iid now w' D] mirror_view [OF untouched_view [OF u] assms(2)] assms(3,4)
  show ?thesis by simp
qed

lemma synced_other: "synced n rm now stamp w w' \<Longrightarrow> nid \<noteq> n_node_id n
    \<Longrightarrow> node_view nid (fleet w') = node_view nid (fleet w)"
  by (auto simp: synced_def Let_def imported_def dest!: untouched_view [of _ _ nid] import_other)

lemma sync_one_mirror:
  assumes "sync_one_node app n rm now stamp w = (w', r)" "mirror nid D (fleet w)" "acct_inv D"
    and "n_node_id n = nid \<Longrightarrow> serves D rm"
  shows "mirror nid D (fleet w')"
proof -
  from sync_one_node_cases [OF assms(1)] consider "untouched w w'" | "synced n rm now stamp w w'"
    by (auto simp: failed_def)
  then show ?thesis
  proof cases
    case 1 with untouched_view mirror_view assms(2) show ?thesis by blast
  next
    case 2
    show ?thesis
    proof (cases "n_node_id n = nid")
      case True with synced_mirror [OF 2] assms show ?thesis by simp
    next
      case False
      then show ?thesis using synced_other [OF 2, of nid] mirror_view assms(2) by metis
    qed
  qed
qed

lemma record_pending_untouched:
  assumes "record_instance_db_pending nid i ep host now d = Inr (d', ls)"
  shows "audit_events d' = audit_events d" "fleet_daily_usage d' = fleet_daily_usage d"
    "sync_cursor d' = sync_cursor d"
proof -
  have "audit_events d' = audit_events d \<and> fleet_daily_usage d' = fleet_daily_usage d
      \<and> sync_cursor d' = sync_cursor d"
    using assms
    by (auto simp: record_instance_db_pending_def insert_instance_def retire_where_def die_def res_simps Let_def
        split: option.splits if_splits)
  then show "audit_events d' = audit_events d" "fleet_daily_usage d' = fleet_daily_usage d"
    "sync_cursor d' = sync_cursor d" by auto
qed

text \<open>The transaction of a full sync imports into a database with the same events and cursors.\<close>

lemma full_txn_Inr:
  assumes "full_txn n iid ident st users rows nc clock now d = Inr (d', pending, res)"
  obtains d2 where "audit_events d2 = audit_events d" "fleet_daily_usage d2 = fleet_daily_usage d"
    "sync_cursor d2 = sync_cursor d" "import_audit_batch d2 (n_node_id n) iid rows now (Some nc) = Inr (d', res)"
proof -
  have "\<exists>d2. import_audit_batch d2 (n_node_id n) iid rows now (Some nc) = Inr (d', res)
      \<and> audit_events d2 = audit_events d \<and> fleet_daily_usage d2 = fleet_daily_usage d
      \<and> sync_cursor d2 = sync_cursor d"
  proof (cases iid)
    case None
    from assms None show ?thesis
      by (auto simp: full_txn_def Let_def rbind_eq_Inr)
  next
    case (Some i)
    from assms Some show ?thesis
      by (auto simp: full_txn_def Let_def rbind_eq_Inr)
         (intro exI conjI, assumption, auto dest: record_pending_untouched)
  qed
  with that show thesis by blast
qed

lemma sync_full_cases:
  assumes "sync_full_one_node app n rm clock now w = (w', r)"
  shows "w' = w \<and> \<not> succeeded r \<or> synced n rm now False w w'"
proof -
  let ?after = "cursor_last_export_seq (fleet w) (n_node_id n)"
  let ?p = "rm_export rm ?after False"
  have skip: "\<not> succeeded (Inr (sync_result n status a e s i u iid err))" if "status \<noteq> ''ok''"
    for status a e s i u iid err
    using that by (simp add: succeeded_def sync_result_def)
  have txn: "synced n rm now False w w''"
    if t: "full_txn n iid ident st users rows nc clock now (fleet w) = Inr (d, pending, res)"
      and p: "p_code ?p = 0" "parse_export_jsonl (p_out ?p) = Inr rows"
        "validate_export_batch (case parse_export_meta (p_err ?p) of None \<Rightarrow> JNull | Some m \<Rightarrow> JObj m)
           rows ?after (n_node_id n) iid = Inr nc"
      and f: "fleet w'' = d" for iid ident st users rows nc d pending res w''
  proof -
    obtain d2 where d2: "audit_events d2 = audit_events (fleet w)" "fleet_daily_usage d2 = fleet_daily_usage (fleet w)"
      "sync_cursor d2 = sync_cursor (fleet w)"
      "import_audit_batch d2 (n_node_id n) iid rows now (Some nc) = Inr (d, res)"
      by (rule full_txn_Inr [OF t])
    from p(3) obtain m where m: "parse_export_meta (p_err ?p) = Some m"
      by (cases "parse_export_meta (p_err ?p)") (auto simp: validate_export_batch_def value_error_def)
    have "untouched w (w\<lparr>fleet := d2\<rparr>)" using d2(1-3) by (simp add: untouched_def cursor_last_export_seq_def cursor_last_event_id_def)
    moreover have "imported n ?p ?after iid now (w\<lparr>fleet := d2\<rparr>) w''"
      using p d2(4) m f by (auto simp: imported_def)
    ultimately show ?thesis unfolding synced_def Let_def by blast
  qed
  obtain st io dt where j: "ssh_remote_json (rm_identity rm) = (st, io, dt)" by (rule prod_cases3)
  obtain st2 io2 dt2 where j2: "ssh_remote_json (rm_status rm) = (st2, io2, dt2)" by (rule prod_cases3)
  define mres where "mres iid = rbind (parse_export_jsonl (p_out ?p)) (\<lambda>rows.
      rbind (validate_export_batch (case parse_export_meta (p_err ?p) of None \<Rightarrow> JNull | Some m \<Rightarrow> JObj m)
        rows ?after (n_node_id n) iid) (\<lambda>nc. Inr (rows, nc)))" for iid
  have mres: "parse_export_jsonl (p_out ?p) = Inr rows \<and> validate_export_batch
      (case parse_export_meta (p_err ?p) of None \<Rightarrow> JNull | Some m \<Rightarrow> JObj m) rows ?after (n_node_id n) iid = Inr nc"
    if "mres iid = Inr (rows, nc)" for iid rows nc
    using that by (auto simp: mres_def rbind_eq_Inr)
  have flush: "fleet w'' = d" if "append_each app pending (w\<lparr>fleet := d\<rparr>) = (w'', x)" for pending d w'' x
    using append_each_state [of app pending "w\<lparr>fleet := d\<rparr>"] that by simp
  show ?thesis
    using assms unfolding sync_full_one_node_def Let_def j j2 prod.case mres_def [symmetric]
    by (auto split: if_split_asm option.split_asm sum.split_asm prod.split_asm
        intro: txn dest!: mres flush simp: skip)
qed

lemma sync_full_mirror:
  assumes "sync_full_one_node app n rm clock now w = (w', r)" "mirror nid D (fleet w)" "acct_inv D"
    and "n_node_id n = nid \<Longrightarrow> serves D rm"
  shows "mirror nid D (fleet w')"
proof -
  from sync_full_cases [OF assms(1)] consider "w' = w" | "synced n rm now False w w'" by blast
  then show ?thesis
  proof cases
    case 1 with assms(2) show ?thesis by simp
  next
    case 2
    show ?thesis
    proof (cases "n_node_id n = nid")
      case True with synced_mirror [OF 2] assms show ?thesis by simp
    next
      case False
      then show ?thesis using synced_other [OF 2, of nid] mirror_view assms(2) by metis
    qed
  qed
qed

lemma reseed_Inr:
  assumes "reseed_node_local d nid' iid now = Inr d'"
  shows "audit_events d' = filter (\<lambda>r. a_node_id r \<noteq> nid') (audit_events d)"
    "fleet_daily_usage d' = filter (\<lambda>y. y_node_id y \<noteq> nid') (fleet_daily_usage d)"
    "cursor_last_export_seq d' nid = (if nid = nid' then 0 else cursor_last_export_seq d nid)"
  using assms
  by (auto simp: reseed_node_local_def write_sync_cursor_def put_cursor_def res_simps cursor_last_export_seq_def)

lemma reseed_mirror:
  assumes r: "reseed_node_local d nid' iid now = Inr d'" and m: "mirror nid D d" and inv: "acct_inv D"
  shows "mirror nid D d'"
proof (cases "nid = nid'")
  case True
  have "0 \<le> seq_counter D" "\<And>r s. r \<in> set (connections D) \<Longrightarrow> c_export_seq r = Some s \<Longrightarrow> 1 \<le> s"
    using inv by (auto simp: acct_inv_def seq_inv_def)
  then show ?thesis
    using reseed_Inr [OF r] True by (intro mirrorI) fastforce+
next
  case False
  have "event_get (audit_events d') (nid, k) = event_get (audit_events d) (nid, k)" for k
    unfolding event_get_def reseed_Inr(1) [OF r]
    by (rule find_filter) (use False in \<open>auto simp: event_key_def\<close>)
  with False have "node_view nid d' = node_view nid d"
    by (auto simp: node_view_def reseed_Inr [OF r])
  with m show ?thesis by (rule mirror_view [rotated])
qed

section \<open>The system\<close>

text \<open>
  A node with its collector and database, and a controller that syncs it and other nodes.  The
  steps interleave freely: the collector may run any number of ticks, fail and restart between
  two syncs; a sync may meet a dead connection, a refused cursor or a failing file.
\<close>

inductive system_run ::
    "daemon_config \<Rightarrow> (string list \<Rightarrow> string list) \<Rightarrow> string \<Rightarrow> acct_db \<times> daemon \<times> world
      \<Rightarrow> acct_db \<times> daemon \<times> world \<Rightarrow> bool"
  for cf ord nid where
  sys_refl: "system_run cf ord nid s s"
| sys_node: "system_run cf ord nid s (D, dm, w) \<Longrightarrow> daemon_run cf ord (D, dm) (D', dm')
    \<Longrightarrow> system_run cf ord nid s (D', dm', w)"
| sys_sync: "system_run cf ord nid s (D, dm, w) \<Longrightarrow> (n_node_id n = nid \<Longrightarrow> serves D rm)
    \<Longrightarrow> sync_one_node app n rm now stamp w = (w', r) \<Longrightarrow> system_run cf ord nid s (D, dm, w')"
| sys_full: "system_run cf ord nid s (D, dm, w) \<Longrightarrow> (n_node_id n = nid \<Longrightarrow> serves D rm)
    \<Longrightarrow> sync_full_one_node app n rm clock now w = (w', r) \<Longrightarrow> system_run cf ord nid s (D, dm, w')"
| sys_reseed: "system_run cf ord nid s (D, dm, w)
    \<Longrightarrow> atomically (\<lambda>d. rbind (reseed_node_local d nid' iid now) (\<lambda>d'. Inr (d', ()))) w = (w', r)
    \<Longrightarrow> system_run cf ord nid s (D, dm, w')"

definition system_inv :: "string \<Rightarrow> acct_db \<times> daemon \<times> world \<Rightarrow> bool" where
  "system_inv nid s = (case s of (D, dm, w) \<Rightarrow> daemon_inv (D, dm) \<and> mirror nid D (fleet w))"

lemma system_inv_run:
  assumes "system_run cf ord nid s s'" "iteration_order ord" "system_inv nid s"
  shows "system_inv nid s'"
  using assms(1,3)
proof induction
  case (sys_refl s)
  then show ?case .
next
  case (sys_node s D dm w D' dm')
  then have i: "daemon_inv (D, dm)" "mirror nid D (fleet w)" by (auto simp: system_inv_def)
  from daemon_run_ok [OF sys_node.hyps(2) assms(2) i(1)] have "daemon_inv (D', dm')" "log_extends D D'" by auto
  with mirror_node [OF i(2)] i(1) show ?case by (auto simp: system_inv_def daemon_inv_def)
next
  case (sys_sync s D dm w n rm app now stamp w' r)
  then show ?case using sync_one_mirror [OF sys_sync.hyps(3)] by (auto simp: system_inv_def daemon_inv_def)
next
  case (sys_full s D dm w n rm app clock now w' r)
  then show ?case using sync_full_mirror [OF sys_full.hyps(3)] by (auto simp: system_inv_def daemon_inv_def)
next
  case (sys_reseed s D dm w nid' iid now w' r)
  show ?case
  proof (cases "reseed_node_local (fleet w) nid' iid now")
    case (Inl e)
    with sys_reseed show ?thesis by (auto simp: atomically_def)
  next
    case (Inr d')
    with sys_reseed have "w' = w\<lparr>fleet := d'\<rparr>" by (simp add: atomically_def)
    with sys_reseed reseed_mirror [OF Inr] show ?thesis by (auto simp: system_inv_def daemon_inv_def)
  qed
qed

text \<open>A loop over nodes whose every step is a run of the system is one.\<close>

lemma amap_run:
  assumes step: "\<And>x w w' r. f x w = (w', r) \<Longrightarrow> system_run cf ord nid s (D, dm, w)
      \<Longrightarrow> system_run cf ord nid s (D, dm, w')"
  shows "amap f xs w = (w', r) \<Longrightarrow> system_run cf ord nid s (D, dm, w) \<Longrightarrow> system_run cf ord nid s (D, dm, w')"
proof (induction xs arbitrary: w w' r)
  case (Cons x xs)
  obtain w1 r1 where f: "f x w = (w1, r1)" by (cases "f x w")
  then have run: "system_run cf ord nid s (D, dm, w1)" using step Cons.prems(2) by blast
  show ?case
  proof (cases r1)
    case (Inl e)
    with f Cons.prems(1) run show ?thesis by (simp add: abind_def)
  next
    case (Inr y)
    obtain w2 r2 where a: "amap f xs w1 = (w2, r2)" by (cases "amap f xs w1")
    with Cons.IH run have "system_run cf ord nid s (D, dm, w2)" by blast
    moreover have "w' = w2" using f Inr a Cons.prems(1) by (cases r2) (auto simp: abind_def aret_def)
    ultimately show ?thesis by simp
  qed
qed (simp add: aret_def)

lemma sync_payload_run:
  assumes p: "run_sync_payload app remotes ns node_name include_all reseed now w = (w', r)"
    and sv: "serves D (remotes nid)" and run: "system_run cf ord nid s (D, dm, w)"
  shows "system_run cf ord nid s (D, dm, w')"
proof -
  let ?f = "\<lambda>n. sync_one_node app n (remotes (n_node_id n)) now (reseed = Some (n_name n))"
  let ?seed = "case reseed of None \<Rightarrow> aret () | Some nm \<Rightarrow> (case require_enabled_node ns nm of
      Inl e \<Rightarrow> araise e
    | Inr n \<Rightarrow> atomically (\<lambda>d. rbind (reseed_node_local d (n_node_id n) None now) (\<lambda>d'. Inr (d', ()))))"
  have step: "system_run cf ord nid s (D, dm, v')"
    if "?f n v = (v', q)" "system_run cf ord nid s (D, dm, v)" for n v v' q
    by (rule sys_sync [OF that(2) _ that(1)]) (use sv in auto)
  show ?thesis
  proof (cases "(case reseed of None \<Rightarrow> False | Some nm \<Rightarrow> \<not> name_ok nm)
      \<or> (\<exists>e. sync_target_nodes ns node_name include_all reseed = Inl e)")
    case True
    then have "w' = w"
    proof
      assume "case reseed of None \<Rightarrow> False | Some nm \<Rightarrow> \<not> name_ok nm"
      with p show ?thesis by (simp add: run_sync_payload_def)
    next
      assume "\<exists>e. sync_target_nodes ns node_name include_all reseed = Inl e"
      then obtain e where "sync_target_nodes ns node_name include_all reseed = Inl e" by blast
      with p show ?thesis by (simp add: run_sync_payload_def split: if_split_asm)
    qed
    with run show ?thesis by simp
  next
    case False
    then obtain ts where ts: "sync_target_nodes ns node_name include_all reseed = Inr ts"
      by (cases "sync_target_nodes ns node_name include_all reseed") auto
    obtain w1 r1 where s1: "?seed w = (w1, r1)" by (cases "?seed w")
    have run1: "system_run cf ord nid s (D, dm, w1)"
      using s1 run by (auto simp: aret_def araise_def split: option.splits sum.splits intro: sys_reseed)
    obtain w2 r2 where s2: "amap ?f ts w1 = (w2, r2)" by (cases "amap ?f ts w1")
    have run2: "system_run cf ord nid s (D, dm, w2)" by (rule amap_run [OF step s2 run1])
    have "w' = (case r1 of Inl e \<Rightarrow> w1 | Inr _ \<Rightarrow> w2)"
      using p ts False s1 s2
      by (cases r1; cases r2) (auto simp: run_sync_payload_def abind_def aret_def Let_def)
    with run1 run2 show ?thesis by (cases r1) simp_all
  qed
qed

end
