(* ===== verification/FleetLive.thy ===== *)
theory FleetLive
  imports FleetImportInv
begin

text \<open>
  Liveness of the sync: what a healthy node exports is accepted and imported, so that one sync
  brings the controller's cursor to the end of the node's log.
\<close>

section \<open>A healthy export is accepted\<close>

lemma export_accepted:
  assumes inv: "acct_inv D" "cov_inv D" and sch: "require_schema_4 D = Inr ()"
    and after: "pruned_seq D \<le> after" "after \<le> seq_counter D" "seq_counter D \<le> INT64_MAX"
    and nid: "uuid_ok nid" and lbl: "\<forall>r \<in> set (after_rows D after). c_node_id r = nid"
  obtains m where "main_export D (export_argv after False nid iid)
      = Inr (0, map row_dict (after_rows D after), Some m)"
    "validate_export_batch (JObj m) (map (\<lambda>r. JObj (row_dict r)) (after_rows D after)) after nid
      (text_or_none iid) = Inr (seq_counter D)" "dget ''error'' m = JNull" "has_key ''ok'' m"
proof -
  let ?rows = "after_rows D after"
  have pr: "0 \<le> pruned_seq D" using inv(2) by (simp add: cov_inv_def)
  then have a0: "0 \<le> after" using after by simp
  note seqs = after_rows_seqs [OF inv after(1)]
  have ne: "seq_of r = s \<Longrightarrow> r \<in> set ?rows \<Longrightarrow> c_export_seq r = Some s" for r s
    using after_rows_set [OF inv(1), of r after] by (auto simp: seq_of_def)
  have nx: "(if ?rows = [] then after else the (c_export_seq (last ?rows))) = seq_counter D"
  proof (cases "?rows = []")
    case True
    then have "[after + 1 .. seq_counter D] = []" using seqs by (simp only: list.map)
    with True after(2) show ?thesis by (simp add: upto_Nil)
  next
    case False
    then have "seq_of (last ?rows) = last [after + 1 .. seq_counter D]"
      using seqs by (metis last_map)
    moreover have "after + 1 \<le> seq_counter D" using False seqs by (metis list.map_disc_iff upto_empty not_less)
    ultimately have "seq_of (last ?rows) = seq_counter D"
      by (metis last_snoc upto_rec2)
    with False show ?thesis by (simp add: seq_of_def)
  qed
  let ?m0 = "export_meta True None after (seq_counter D) (pruned_seq D) (int (length ?rows)) (seq_counter D)"
  define m where "m = apply_export_identity (Some nid) (Some iid) ?m0"
  have e: "export_after D after None = Inr (ExportOk, map row_dict ?rows, ?m0)"
    using sch a0 after pr nx
    by (simp add: export_after_def audit_counters [OF inv] Let_def after_rows_def [symmetric] bind_ints_def
        bind_int_def opt_ints_def INT64_MAX_def)
  have x: "main_export D (export_argv after False nid iid) = Inr (0, map row_dict ?rows, Some m)"
    by (simp add: main_export_def export_argv_def e m_def)
  have ot: "opt_text (Some iid) = text_or_none iid" by (simp add: opt_text_def)
  note im = identity_meta [OF nid ot, of after "seq_counter D" "pruned_seq D" "int (length ?rows)" "seq_counter D",
      folded m_def]
  let ?js = "map (\<lambda>r. JObj (row_dict r)) ?rows"
  have v: "rfold (validate_row after nid) ?js [] = Inr (rev [after + 1 .. seq_counter D] @ [])"
  proof (rule validate_rows_accept)
    have "map row_seq ?js = map (\<lambda>r. of_int_opt (c_export_seq r)) ?rows"
      by (simp add: row_seq_def row_dict_def)
    also have "\<dots> = map (\<lambda>r. JInt (seq_of r)) ?rows"
      using after_rows_set [OF inv(1)] by (auto simp: seq_of_def of_int_opt_def)
    finally show "map row_seq ?js = map JInt [after + 1 .. seq_counter D]" unfolding seqs [symmetric] by simp
    show "sorted_wrt (>) (rev [after + 1..seq_counter D] @ [])"
      using strict_sorted_iff [of "[after + 1..seq_counter D]"] by (simp add: sorted_wrt_rev sorted_upto)
  next
    fix row assume "row \<in> set ?js"
    then obtain r where "r \<in> set ?rows" "row = JObj (row_dict r)" by auto
    with lbl nid show "row_node_id row = Some nid \<and> (\<exists>d e. row = JObj d \<and> dget ''event_id'' d = JInt e)"
      by (simp add: row_node_id_def row_dict_def)
  qed auto
  have len: "length ?rows = length [after + 1 .. seq_counter D]" using seqs by (metis length_map)
  have cm: "check_meta m after (length ?js) nid (text_or_none iid) = Inr ()" using im(1) by simp
  have val: "validate_export_batch (JObj m) ?js after nid (text_or_none iid) = Inr (seq_counter D)"
  proof (cases "after = seq_counter D")
    case True
    show ?thesis
      by (simp add: validate_export_batch_def cm [simplified] v im(2,3) require_export_int_def True [symmetric])
  next
    case False
    then have "[after + 1 .. seq_counter D] = [after + 1 .. seq_counter D - 1] @ [seq_counter D]"
      using after(2) by (intro upto_rec2) simp
    then have "rev [after + 1 .. seq_counter D] = seq_counter D # rev [after + 1 .. seq_counter D - 1]" by simp
    then show ?thesis by (simp add: validate_export_batch_def cm [simplified] v im(2,3) require_export_int_def)
  qed
  have "has_key ''ok'' m"
    by (auto simp: m_def apply_export_identity_def set_opt_def export_meta_def has_key_def split: option.split)
  with that x val im(4) show thesis by blast
qed

section \<open>Well-formed rows are imported\<close>

definition in_64 :: "int \<Rightarrow> bool" where
  "in_64 n \<longleftrightarrow> - (2 ^ 63) \<le> n \<and> n \<le> INT64_MAX"

lemma bind_ints_ok: "bind_ints ns = Inr () \<longleftrightarrow> list_all in_64 ns"
  unfolding bind_ints_def
  by (induction ns) (auto simp: bind_int_def in_64_def rbind_def)

text \<open>A row the controller can store: the mandatory texts are not blank, the integers fit.\<close>

definition importable :: "string \<Rightarrow> conn_row \<Rightarrow> bool" where
  "importable nid r \<longleftrightarrow> c_node_id r = nid \<and> strip (c_connection_id r) \<noteq> [] \<and> strip (c_user_id r) \<noteq> []
     \<and> strip (c_started_at r) \<noteq> [] \<and> strip (c_last_seen_at r) \<noteq> []
     \<and> list_all in_64 ([c_event_id r, c_generation r] @ opt_ints (c_export_seq r)
          @ opt_ints (c_destination_port r))
     \<and> 0 \<le> c_upload_bytes r \<and> c_upload_bytes r \<le> INT64_MAX
     \<and> 0 \<le> c_download_bytes r \<and> c_download_bytes r \<le> INT64_MAX"

lemma params_total:
  assumes "importable nid r" "c_export_seq r = Some s"
  shows "\<exists>e. audit_insert_params (row_dict r) nid now = Inr e"
proof -
  have "need_text k (row_dict r) = Inr (strip t)" if "dget k (row_dict r) = JStr t" "strip t \<noteq> []" for k t
    using that by (simp add: need_text_def text_or_none_def)
  then have n: "need_text ''connection_id'' (row_dict r) = Inr (strip (c_connection_id r))"
    "need_text ''user_id'' (row_dict r) = Inr (strip (c_user_id r))"
    "need_text ''started_at'' (row_dict r) = Inr (strip (c_started_at r))"
    "need_text ''last_seen_at'' (row_dict r) = Inr (strip (c_last_seen_at r))"
    using assms(1) by (simp_all add: importable_def row_dict_def)
  have p: "int_or_none (of_int_opt v) = Inr v" for v
    by (simp add: int_or_none_def of_int_opt_def split: option.split)
  have nu: "numeric (Inr x) = Inr x" for x :: 'b by (simp add: numeric_def)
  show ?thesis
    unfolding audit_insert_params_def n rbind_Inr
    by (simp add: row_dict_def absent_def assms(2) of_int_opt_def nu p [unfolded of_int_opt_def])
qed

lemma rmap_total: "(\<And>x. x \<in> set xs \<Longrightarrow> \<exists>y. f x = Inr y) \<Longrightarrow> \<exists>ys. rmap f xs = Inr ys"
proof (induction xs)
  case (Cons x xs)
  then obtain y ys where "f x = Inr y" "rmap f xs = Inr ys" by (metis list.set_intros)
  then show ?case by simp
qed simp

lemma rfold_puts:
  assumes "\<And>p. p \<in> set ps \<Longrightarrow> bind_ints ([a_event_id p] @ opt_ints (a_export_seq p)
     @ [a_generation p] @ opt_ints (a_destination_port p) @ [a_upload_bytes p, a_download_bytes p]) = Inr ()"
  shows "rfold upsert_event ps es = Inr (fold event_put ps es)"
  using assms by (induction ps arbitrary: es) (simp_all add: upsert_event_alt)

lemma sum_put:
  fixes f :: "audit_row \<Rightarrow> int"
  assumes "distinct (map event_key es)" "0 \<le> f r" "\<forall>e \<in> set es. 0 \<le> f e"
  shows "sum_list (map f (event_put r es)) \<le> sum_list (map f es) + f r"
proof (cases "list_ex (\<lambda>e. event_key e = event_key r) es")
  case False
  then show ?thesis by (simp add: event_put_def)
next
  case True
  have "sum_list (map f (map (\<lambda>e. if event_key e = event_key r then r else e) es)) \<le> sum_list (map f es) + f r"
    using assms
  proof (induction es)
    case (Cons e es)
    show ?case
    proof (cases "event_key e = event_key r")
      case True
      then have "map (\<lambda>e. if event_key e = event_key r then r else e) es = es"
        using Cons.prems(1) by (intro map_idI) (auto simp: image_iff)
      with True Cons.prems show ?thesis by simp
    next
      case False
      with Cons show ?thesis by simp
    qed
  qed simp
  with True show ?thesis by (simp add: event_put_def)
qed

lemma sum_puts:
  fixes f :: "audit_row \<Rightarrow> int"
  assumes "distinct (map event_key es)" "\<forall>e \<in> set ps. 0 \<le> f e" "\<forall>e \<in> set es. 0 \<le> f e"
  shows "sum_list (map f (fold event_put ps es)) \<le> sum_list (map f es) + sum_list (map f ps)
    \<and> (\<forall>e \<in> set (fold event_put ps es). 0 \<le> f e)"
  using assms
proof (induction ps arbitrary: es)
  case (Cons p ps)
  have "\<forall>e \<in> set (event_put p es). 0 \<le> f e" using Cons.prems event_put_set [of p es] by auto
  with Cons.IH [OF events.unique_put [OF Cons.prems(1)]] Cons.prems
  have "sum_list (map f (fold event_put ps (event_put p es))) \<le> sum_list (map f (event_put p es)) + sum_list (map f ps)
    \<and> (\<forall>e \<in> set (fold event_put ps (event_put p es)). 0 \<le> f e)" by simp
  moreover have "sum_list (map f (event_put p es)) \<le> sum_list (map f es) + f p"
    using Cons.prems by (intro sum_put) auto
  ultimately show ?case by simp
qed simp

lemma sum_filter_le:
  fixes f :: "'a \<Rightarrow> int"
  assumes "\<forall>x \<in> set xs. 0 \<le> f x"
  shows "0 \<le> sum_list (map f (filter P xs)) \<and> sum_list (map f (filter P xs)) \<le> sum_list (map f xs)"
  using assms by (induction xs) auto

lemma rebuild_total:
  assumes "\<forall>e \<in> set (audit_events d). 0 \<le> a_upload_bytes e \<and> 0 \<le> a_download_bytes e"
    "sum_list (map a_upload_bytes (audit_events d)) \<le> INT64_MAX"
    "sum_list (map a_download_bytes (audit_events d)) \<le> INT64_MAX"
  shows "\<exists>d'. rebuild_daily_usage_for_node d nid = Inr d'"
proof -
  have s: "sum_ints (map f (filter Q (filter P (audit_events d)))) = Inr (sum_list (map f (filter Q (filter P (audit_events d)))))"
    if "\<forall>e \<in> set (audit_events d). 0 \<le> f e" "sum_list (map f (audit_events d)) \<le> INT64_MAX" for f P Q
    using sum_filter_le [of "audit_events d" f "\<lambda>x. P x \<and> Q x"] that
    by (simp add: sum_ints_def Let_def conj_commute)
  have "\<exists>y. fleet_daily_group nid (if nid = [] then [] else node_events d nid) k = Inr y" for k
    using s [of a_upload_bytes] s [of a_download_bytes] assms
    by (cases k; cases "nid = []") (auto simp: fleet_daily_group_def Let_def node_events_def sum_ints_def INT64_MAX_def)
  then obtain ys where "rmap (fleet_daily_group nid (if nid = [] then [] else node_events d nid))
      (remdups (map event_group (if nid = [] then [] else node_events d nid))) = Inr ys"
    using rmap_total by metis
  then show ?thesis by (simp add: rebuild_daily_usage_for_node_def Let_def)
qed

text \<open>The controller's database before the sync: keys unique, integers within 64 bits.\<close>

definition fleet_ok :: "string \<Rightarrow> fleet_db \<Rightarrow> bool" where
  "fleet_ok nid d \<longleftrightarrow> distinct (map event_key (audit_events d)) \<and> in_64 (cursor_last_event_id d nid)
     \<and> (\<forall>e \<in> set (audit_events d). 0 \<le> a_upload_bytes e \<and> 0 \<le> a_download_bytes e \<and> in_64 (a_event_id e))"

definition fits :: "fleet_db \<Rightarrow> conn_row list \<Rightarrow> bool" where
  "fits d rs \<longleftrightarrow> sum_list (map a_upload_bytes (audit_events d)) + sum_list (map c_upload_bytes rs) \<le> INT64_MAX
     \<and> sum_list (map a_download_bytes (audit_events d)) + sum_list (map c_download_bytes rs) \<le> INT64_MAX"

lemma max_int_in: "max_int xs = Some n \<Longrightarrow> n \<in> set xs"
proof -
  have "fold max ys y \<in> set (y # ys)" for y :: int and ys
    by (induction ys arbitrary: y) (auto simp: max_def)
  then show "max_int xs = Some n \<Longrightarrow> n \<in> set xs" by (auto simp: max_int_def split: list.splits)
qed

lemma import_total:
  assumes nid: "uuid_ok nid" and inst: "check_instance nid iid = Inr inst" and nc: "0 \<le> nc" "nc \<le> INT64_MAX"
    and rs: "\<And>r. r \<in> set rs \<Longrightarrow> importable nid r \<and> c_export_seq r \<noteq> None"
    and ok: "fleet_ok nid d" and fit: "fits d rs"
  shows "\<exists>d' res. import_audit_batch d nid iid (map (\<lambda>r. JObj (row_dict r)) rs) now (Some nc) = Inr (d', res)"
proof -
  have "check_label nid (JObj (row_dict r)) = Inr (row_dict r)" if "r \<in> set rs" for r
    using rs [OF that] nid by (simp add: check_label_def row_node_id_def row_dict_def importable_def)
  then have lb: "rmap (check_label nid) (map (\<lambda>r. JObj (row_dict r)) rs) = Inr (map row_dict rs)"
    by (induction rs) simp_all
  have ei: "rmap (\<lambda>d. numeric (py_int (dget ''event_id'' d))) (map row_dict rs) = Inr (map c_event_id rs)"
    by (induction rs) (simp_all add: row_dict_def numeric_def)
  have b: "bind_ints (map c_event_id rs) = Inr ()"
    using rs by (auto simp: bind_ints_ok list_all_iff importable_def)
  have "\<exists>ps. rmap (\<lambda>d. audit_insert_params d nid now) (map row_dict rs) = Inr ps"
    using rs params_total by (intro rmap_total) fastforce
  then obtain ps where ps: "rmap (\<lambda>d. audit_insert_params d nid now) (map row_dict rs) = Inr ps" by blast
  have img: "list_all2 (\<lambda>r e. content e = image_row nid r) rs ps"
    using ps unfolding rmap_Inr_list_all2
    by (auto simp: list_all2_conv_all_nth delivers_def intro!: params_image)
  have pr: "\<exists>r \<in> set rs. content e = image_row nid r" if "e \<in> set ps" for e
    using list_all2_mem(2) [OF img that] .
  have fe: "a_event_id e = c_event_id r" "a_export_seq e = c_export_seq r" "a_upload_bytes e = c_upload_bytes r"
    "a_download_bytes e = c_download_bytes r" "a_generation e = c_generation r"
    "a_destination_port e = c_destination_port r" if "content e = image_row nid r" for e r
    using arg_cong [OF that, of a_event_id] arg_cong [OF that, of a_export_seq]
      arg_cong [OF that, of a_upload_bytes] arg_cong [OF that, of a_download_bytes]
      arg_cong [OF that, of a_generation] arg_cong [OF that, of a_destination_port]
    by (simp_all add: content_def image_row_def)
  have up: "rfold upsert_event ps (audit_events d) = Inr (fold event_put ps (audit_events d))"
  proof (rule rfold_puts)
    fix p assume "p \<in> set ps"
    then obtain r where r: "r \<in> set rs" "content p = image_row nid r" using pr by blast
    then show "bind_ints ([a_event_id p] @ opt_ints (a_export_seq p)
       @ [a_generation p] @ opt_ints (a_destination_port p) @ [a_upload_bytes p, a_download_bytes p]) = Inr ()"
      using rs [OF r(1)] by (simp add: fe [OF r(2)] bind_ints_ok importable_def in_64_def)
  qed
  define es where "es = fold event_put ps (audit_events d)"
  have sums: "map a_upload_bytes ps = map c_upload_bytes rs" "map a_download_bytes ps = map c_download_bytes rs"
    using img by (auto simp: list_eq_iff_nth_eq list_all2_conv_all_nth dest: fe)
  have nn: "\<forall>e \<in> set ps. 0 \<le> a_upload_bytes e" "\<forall>e \<in> set ps. 0 \<le> a_download_bytes e"
    using pr rs fe(3,4) unfolding importable_def by metis+
  have dk: "distinct (map event_key (audit_events d))" using ok by (simp add: fleet_ok_def)
  have u: "sum_list (map a_upload_bytes es) \<le> INT64_MAX \<and> (\<forall>e \<in> set es. 0 \<le> a_upload_bytes e)"
    using sum_puts [OF dk nn(1)] ok fit by (fastforce simp: es_def fleet_ok_def fits_def sums)
  have dn: "sum_list (map a_download_bytes es) \<le> INT64_MAX \<and> (\<forall>e \<in> set es. 0 \<le> a_download_bytes e)"
    using sum_puts [OF dk nn(2)] ok fit by (fastforce simp: es_def fleet_ok_def fits_def sums)
  from rebuild_total [of "d\<lparr>audit_events := es\<rparr>" nid] u dn
  obtain d2 where rb: "rebuild_daily_usage_for_node (d\<lparr>audit_events := es\<rparr>) nid = Inr d2" by auto
  have ev2: "audit_events d2 = es"
    by (subst rebuild_Inr(1) [OF rb]) simp
  have "in_64 (a_event_id e)" if "e \<in> set es" for e
  proof -
    have "e \<in> set ps \<or> e \<in> set (audit_events d)" using that event_puts_set unfolding es_def by blast
    moreover have "in_64 (a_event_id e)" if "e \<in> set ps"
      using pr [OF that] rs fe(1) by (auto simp: importable_def)
    ultimately show ?thesis using ok by (auto simp: fleet_ok_def)
  qed
  then have "in_64 (case max_int (map a_event_id (node_events d2 nid)) of
      None \<Rightarrow> cursor_last_event_id d nid | Some n \<Rightarrow> n)"
    using ok by (auto simp: fleet_ok_def node_events_def ev2 split: option.split dest!: max_int_in)
  then have "bind_ints [case max_int (map a_event_id (node_events d2 nid)) of
      None \<Rightarrow> cursor_last_event_id d nid | Some n \<Rightarrow> n, nc] = Inr ()"
    using nc by (simp add: bind_ints_ok in_64_def)
  then show ?thesis
    using nid inst lb ei b ps nc(1) up rb
    by (simp add: import_audit_batch_def validate_node_id_def Let_def put_cursor_def es_def)
qed

section \<open>One sync of a healthy node\<close>

lemma append_each_ok: "\<forall>l. app l \<Longrightarrow> \<exists>w'. append_each app ls w = (w', Inr ())"
proof (induction ls arbitrary: w)
  case (Cons l ls)
  then show ?case by (simp add: abind_def append_instance_history_line_def)
qed (simp add: aret_def)

lemma record_instance_ok:
  assumes app: "\<forall>l. app l" and ids: "uuid_ok nid" "uuid_ok i" "i \<noteq> nid"
  shows "\<exists>w'. record_instance app nid i ep host ts w = (w', Inr ())"
proof (cases "list_ex (\<lambda>r. i_node_id r = nid \<and> i_instance_id r = i) (instance_history (fleet w))")
  case True
  then show ?thesis using ids by (simp add: record_instance_def)
next
  case False
  let ?w1 = "w\<lparr>fleet := retire_where (is_active_of nid) ts (fleet w)\<rparr>"
  obtain w1 where a: "append_each app (map (retired_line ts) (filter (is_active_of nid)
      (instance_history (fleet w)))) ?w1 = (w1, Inr ())" using append_each_ok [OF app] by blast
  have f: "fleet w1 = retire_where (is_active_of nid) ts (fleet w)"
    using append_each_state [of app "map (retired_line ts) (filter (is_active_of nid)
      (instance_history (fleet w)))" ?w1] by (simp add: a)
  have ra: "retire_active_instance app nid ts w = (w1, Inr ())"
    using ids(1) a by (simp add: retire_active_instance_def validate_node_id_def Let_def)
  have keys: "list_ex (\<lambda>r. i_node_id r = nid \<and> i_instance_id r = i) (instance_history (fleet w1))
      = list_ex (\<lambda>r. i_node_id r = nid \<and> i_instance_id r = i) (instance_history (fleet w))"
  proof -
    define h where "h = (\<lambda>r. if is_active_of nid r then r\<lparr>i_status := ''retired'', i_retired_at := Some ts\<rparr> else r)"
    have "i_node_id (h r) = i_node_id r" "i_instance_id (h r) = i_instance_id r" for r
      by (simp_all add: h_def)
    moreover have "instance_history (fleet w1) = map h (instance_history (fleet w))"
      by (simp add: f retire_where_def h_def)
    ultimately show ?thesis by (simp add: list_ex_iff)
  qed
  obtain d where d: "insert_instance nid i ts ep host ''active'' None (fleet w1) = Inr d"
    using ids False keys by (simp add: insert_instance_def validate_node_id_def INSTANCE_STATUSES_def)
  show ?thesis
    using ids False ra d app
    by (simp add: record_instance_def abind_def atomically_def append_instance_history_line_def)
qed

text \<open>The export process of a healthy node: the output and the meta line of \<open>main_export\<close>.\<close>

definition healthy :: "acct_db \<Rightarrow> string \<Rightarrow> string \<Rightarrow> remote \<Rightarrow> bool" where
  "healthy D nid iid rm \<longleftrightarrow>
     (\<exists>d ident. ssh_remote_json (rm_identity rm) = (''OK'', Some ident, d)
        \<and> dget ''node_id'' ident = JStr nid \<and> dget ''instance_id'' ident = JStr iid)
     \<and> (\<forall>after ds m. main_export D (export_argv after False nid iid) = Inr (0, ds, Some m) \<longrightarrow>
          p_code (rm_export rm after False) = 0
          \<and> p_out (rm_export rm after False) = map (\<lambda>d. Json (JObj d)) ds
          \<and> p_err (rm_export rm after False) = [Json (JObj m)])"

lemma parse_own_meta: "has_key ''ok'' m \<Longrightarrow> parse_export_meta [Json (JObj m)] = Some m"
  by (simp add: parse_export_meta_def is_meta_def)

lemma parse_own_rows: "parse_export_jsonl (map (\<lambda>d. Json (JObj d)) ds) = Inr (map JObj ds)"
  by (induction ds) simp_all

lemma catch_up:
  assumes inv: "acct_inv D" "cov_inv D" and sch: "require_schema_4 D = Inr ()"
    and c: "c = cursor_last_export_seq (fleet w) nid" "pruned_seq D \<le> c" "c \<le> seq_counter D"
      "seq_counter D \<le> INT64_MAX"
    and kind: "case map_of (sync_cursor (fleet w)) nid of None \<Rightarrow> True | Some cu \<Rightarrow> cu_cursor_kind cu = ''export_seq''"
    and node: "n_node_id n = nid" "node_lifecycle_status n = ''active''" "n_enabled n"
    and ids: "uuid_ok nid" "uuid_ok iid" "iid \<noteq> nid" and rm: "healthy D nid iid rm" and app: "\<forall>l. app l"
    and rows: "\<forall>r \<in> set (after_rows D c). importable nid r"
    and ok: "fleet_ok nid (fleet w)" and fit: "fits (fleet w) (after_rows D c)"
  shows "\<exists>w' row. sync_one_node app n rm now False w = (w', Inr row) \<and> sr_status row = ''ok''
    \<and> cursor_last_export_seq (fleet w') nid = seq_counter D"
proof -
  from rm obtain dt ident where id: "ssh_remote_json (rm_identity rm) = (''OK'', Some ident, dt)"
    "dget ''node_id'' ident = JStr nid" "dget ''instance_id'' ident = JStr iid"
    and hx: "\<And>ds m. main_export D (export_argv c False nid iid) = Inr (0, ds, Some m) \<Longrightarrow>
          p_code (rm_export rm c False) = 0
          \<and> p_out (rm_export rm c False) = map (\<lambda>d. Json (JObj d)) ds
          \<and> p_err (rm_export rm c False) = [Json (JObj m)]"
    unfolding healthy_def by blast
  have lbl: "\<forall>r \<in> set (after_rows D c). c_node_id r = nid" using rows by (simp add: importable_def)
  obtain m where x: "main_export D (export_argv c False nid iid)
      = Inr (0, map row_dict (after_rows D c), Some m)"
    and v: "validate_export_batch (JObj m) (map (\<lambda>r. JObj (row_dict r)) (after_rows D c)) c nid
      (text_or_none iid) = Inr (seq_counter D)" and me: "dget ''error'' m = JNull" "has_key ''ok'' m"
    by (rule export_accepted [OF inv sch c(2-4) ids(1) lbl])
  note p = hx [OF x]
  have tiid: "text_or_none iid = Some iid" using ids(2) by simp
  let ?rec = "record_instance app nid iid None (text_or_none (n_ssh_host n)) now"
  obtain w1 where w1: "?rec w = (w1, Inr ())" using record_instance_ok [OF app ids] by blast
  with record_instance_untouched [of w app nid iid None "text_or_none (n_ssh_host n)" now]
  have u: "untouched w w1" by simp
  then have ok1: "fleet_ok nid (fleet w1)" "fits (fleet w1) (after_rows D c)"
    using ok fit by (simp_all add: fleet_ok_def fits_def untouched_def)
  have ci: "check_instance nid (Some iid) = Inr (Some iid)" using ids by (simp add: check_instance_def)
  have s0: "0 \<le> seq_counter D" using inv(1) by (simp add: acct_inv_def seq_inv_def)
  have imp: "importable nid r \<and> c_export_seq r \<noteq> None" if "r \<in> set (after_rows D c)" for r
    using rows that after_rows_set [OF inv(1), of r c] by auto
  from import_total [OF ids(1) ci s0 c(4) imp ok1, of now] obtain d res where
    im: "import_audit_batch (fleet w1) nid (Some iid) (map (\<lambda>r. JObj (row_dict r)) (after_rows D c)) now
      (Some (seq_counter D)) = Inr (d, res)" by auto
  have cur: "cursor_last_export_seq d nid = seq_counter D"
    using im by (rule import_Inr) (auto simp: cursor_last_export_seq_def)
  have pj: "parse_export_jsonl (p_out (rm_export rm c False)) = Inr (map (\<lambda>r. JObj (row_dict r)) (after_rows D c))"
    using p parse_own_rows [of "map row_dict (after_rows D c)"] by (simp add: comp_def)
  have pm: "parse_export_meta (p_err (rm_export rm c False)) = Some m" using p me(2) by (simp add: parse_own_meta)
  let ?row = "sync_result n ''ok'' c (r_last_event_id res) (r_last_export_seq res) (r_inserted res) (r_updated res)
      (Some iid) None"
  have pull: "pull_and_import n rm now False c (Some iid) w1 = (w1\<lparr>fleet := d\<rparr>, Inr ?row)"
    unfolding pull_and_import_def Let_def pj pm node(1) sum.case option.case me(1) v [unfolded tiid] im
    using p by (simp add: im)
  have after: "(case map_of (sync_cursor (fleet w)) nid of None \<Rightarrow> 0 | Some cu \<Rightarrow> cu_last_export_seq cu) = c"
    by (simp add: c(1) cursor_last_export_seq_def)
  have k: "(case map_of (sync_cursor (fleet w)) nid of None \<Rightarrow> ''export_seq''
      | Some cu \<Rightarrow> (case text_or_none (cu_cursor_kind cu) of None \<Rightarrow> ''event_id'' | Some k \<Rightarrow> k)) = ''export_seq''"
  proof -
    have "text_or_none ''export_seq'' = Some ''export_seq''" by code_simp
    with kind show ?thesis by (auto split: option.splits)
  qed
  have "sync_one_node app n rm now False w = (w1\<lparr>fleet := d\<rparr>, Inr ?row)"
    unfolding sync_one_node_def Let_def node(1) after k
    by (simp add: node id tiid abind_def w1 pull)
  with cur show ?thesis by (simp add: sync_result_def)
qed

end
