(* ===== verification/FleetProps.thy ===== *)
theory FleetProps
  imports FleetLive
begin

text \<open>
  The properties of the controller, each with a run on a concrete node and controller where its
  hypotheses hold: a node whose log has the numbers 1 to 3, served over a working connection.
\<close>

section \<open>A concrete node and controller\<close>

definition ex_nid :: string where
  "ex_nid = ''22222222-2222-4222-8222-222222222222''"

definition ex_iid :: string where
  "ex_iid = ''33333333-3333-4333-8333-333333333333''"

definition ex_node_log :: acct_db where
  "ex_node_log = ex_log\<lparr>connections := map (\<lambda>r. r\<lparr>c_node_id := ex_nid\<rparr>) (connections ex_log)\<rparr>"

definition ok_json :: "dict \<Rightarrow> proc" where
  "ok_json d = \<lparr>p_code = 0, p_out = [Json (JObj d)], p_err = [], p_stdout_json = Some (JObj d),
     p_detail = ''exit 0''\<rparr>"

definition ex_export :: "acct_db \<Rightarrow> int \<Rightarrow> bool \<Rightarrow> proc" where
  "ex_export D after stamp = (case main_export D (export_argv after stamp ex_nid ex_iid) of
     Inl e \<Rightarrow> \<lparr>p_code = 1, p_out = [], p_err = [], p_stdout_json = None, p_detail = ''exit 1''\<rparr>
   | Inr (rc, ds, m) \<Rightarrow> \<lparr>p_code = rc, p_out = map (\<lambda>d. Json (JObj d)) ds,
       p_err = (case m of None \<Rightarrow> [] | Some d \<Rightarrow> [Json (JObj d)]), p_stdout_json = None,
       p_detail = ''exit''\<rparr>)"

definition ex_remote :: "acct_db \<Rightarrow> remote" where
  "ex_remote D = \<lparr>rm_identity = ok_json [(''node_id'', JStr ex_nid), (''instance_id'', JStr ex_iid)],
     rm_status = ok_json [(''proxy'', JObj [(''ok'', JBool True)])],
     rm_users = ok_json [(''users'', JList [])], rm_export = ex_export D\<rparr>"

definition ex_node :: node where
  "ex_node = \<lparr>n_name = ''tokyo'', n_node_id = ex_nid, n_ssh_host = ''h'', n_status = Some ''active'',
     n_enabled = True\<rparr>"

definition ex_fleet :: fleet_db where
  "ex_fleet = \<lparr>audit_events = [], sync_cursor = [], fleet_daily_usage = [], instance_history = [],
     node_snapshot = [], user_snapshot = []\<rparr>"

definition ex_world :: world where
  "ex_world = \<lparr>fleet = ex_fleet, portable_history = []\<rparr>"

definition ex_sync :: "world \<Rightarrow> world \<times> sync_row res" where
  "ex_sync = sync_one_node (\<lambda>_. True) ex_node (ex_remote ex_node_log) ''2024-01-02T00:00:00Z'' False"

lemma ex_serves: "serves D (ex_remote D)"
  unfolding serves_def
proof (intro allI impI)
  fix after stamp
  assume "p_code (rm_export (ex_remote D) after stamp) = 0"
  then have c: "p_code (ex_export D after stamp) = 0" by (simp add: ex_remote_def)
  have r: "rm_export (ex_remote D) = ex_export D" by (simp add: ex_remote_def)
  show "\<exists>nid iid ds m. main_export D (export_argv after stamp nid iid) = Inr (0, ds, m)
      \<and> p_out (rm_export (ex_remote D) after stamp) = map (\<lambda>d. Json (JObj d)) ds"
    unfolding r
    using c by (intro exI [of _ ex_nid] exI [of _ ex_iid])
      (auto simp: ex_export_def split: sum.splits prod.splits)
qed

lemma ex_node_log_inv: "acct_inv ex_node_log" "cov_inv ex_node_log" "seq_counter ex_node_log = 3"
  "pruned_seq ex_node_log = 0"
proof -
  have m: "meta ex_node_log = meta ex_log" by (simp add: ex_node_log_def)
  show sc: "seq_counter ex_node_log = 3" "pruned_seq ex_node_log = 0"
    using ex_log_inv(3,4) by (simp_all add: seq_counter_def pruned_seq_def meta_int_def meta_get_def m)
  have rows: "connections ex_node_log = map (\<lambda>r. r\<lparr>c_node_id := ex_nid\<rparr>) (connections ex_log)"
    by (simp add: ex_node_log_def)
  have mi: "meta_int ex_node_log k = meta_int ex_log k" for k by (simp add: meta_int_def meta_get_def m)
  have "keys_inv ex_node_log" "gen_inv ex_node_log" "base_inv ex_node_log"
    by (simp_all add: keys_inv_def gen_inv_def base_inv_def ex_node_log_def ex_log_def ex_row_def)
  moreover have "seq_inv ex_node_log"
    using ex_log_inv(1) unfolding acct_inv_def seq_inv_def sc mi ex_log_inv(3)
    by (simp add: rows) (simp add: ex_log_def ex_row_def)
  ultimately show "acct_inv ex_node_log" by (simp add: acct_inv_def)
  show "cov_inv ex_node_log"
    using ex_log_inv(2) unfolding cov_inv_def sc mi ex_log_inv(3,4) by (simp add: rows)
qed

section \<open>Mirroring\<close>

lemma mirror_fresh:
  assumes "acct_inv D" "\<forall>e \<in> set (audit_events d). a_node_id e \<noteq> nid" "cursor_last_export_seq d nid = 0"
  shows "mirror nid D d"
proof -
  have "0 \<le> seq_counter D" "\<And>r s. r \<in> set (connections D) \<Longrightarrow> c_export_seq r = Some s \<Longrightarrow> 1 \<le> s"
    using assms(1) by (auto simp: acct_inv_def seq_inv_def)
  with assms(2,3) show ?thesis by (intro mirrorI) fastforce+
qed

text \<open>
  C9: the controller mirrors the node.  In every interleaving of collector ticks, failures and
  restarts with incremental and full syncs of this and other nodes and with reseeds, the
  controller holds the image of every row of the export log up to its cursor, holds nothing
  that was never in the log, and its cursor never passes the log.
\<close>

theorem controller_mirrors_log:
  assumes "iteration_order ord" "daemon_inv (D, dm)" "mirror nid D (fleet w)"
    and "system_run cf ord nid (D, dm, w) (D', dm', w')"
  shows "daemon_inv (D', dm') \<and> mirror nid D' (fleet w')"
  using system_inv_run [OF assms(4,1)] assms(2,3) by (simp add: system_inv_def)

lemma ex_sync_ok: obtains w1 row where "ex_sync ex_world = (w1, Inr row)" "sr_status row = ''ok''"
  "cursor_last_export_seq (fleet w1) ex_nid = 3"
proof -
  have "case ex_sync ex_world of (w1, Inr row) \<Rightarrow> sr_status row = ''ok''
      \<and> cursor_last_export_seq (fleet w1) ex_nid = 3 | (w1, Inl e) \<Rightarrow> False" by code_simp
  then show thesis using that by (auto split: prod.splits sum.splits)
qed

theorem controller_mirrors_log_witness:
  "cursor_last_export_seq (fleet (fst (ex_sync ex_world))) ex_nid = 3
   \<and> mirror ex_nid ex_node_log (fleet (fst (ex_sync ex_world)))"
proof -
  obtain w1 row where s: "ex_sync ex_world = (w1, Inr row)" "cursor_last_export_seq (fleet w1) ex_nid = 3"
    by (rule ex_sync_ok)
  let ?dm = "start_daemon ex_node_log []"
  have d: "daemon_inv (ex_node_log, ?dm)"
    by (simp add: daemon_inv_def ex_node_log_inv start_daemon_def reload_known_ok)
  have m: "mirror ex_nid ex_node_log (fleet ex_world)"
    by (rule mirror_fresh [OF ex_node_log_inv(1)]) (simp_all add: ex_world_def ex_fleet_def cursor_last_export_seq_def)
  have "system_run ex_config (\<lambda>xs. xs) ex_nid (ex_node_log, ?dm, ex_world) (ex_node_log, ?dm, w1)"
    by (rule sys_sync [OF sys_refl _ s(1) [unfolded ex_sync_def]]) (rule ex_serves)
  from controller_mirrors_log [OF ex_order d m this] s show ?thesis by simp
qed




lemma ex_healthy: "healthy D ex_nid ex_iid (ex_remote D)"
  unfolding healthy_def
  by (simp add: ex_remote_def ex_export_def ssh_remote_json_def ok_json_def)




text \<open>
  A full sync is all or nothing.  Either the controller is exactly as before and the row is
  not \<open>ok\<close>, or one transaction imported the whole validated batch, also when writing the
  portable history failed afterwards.
\<close>

theorem sync_full_atomic:
  assumes "sync_full_one_node app n rm clock now w = (w', r)"
  shows "w' = w \<and> (case r of Inr row \<Rightarrow> sr_status row \<noteq> ''ok'' | Inl _ \<Rightarrow> True)
    \<or> (\<exists>m rows iid nc d after res. after = cursor_last_export_seq (fleet w) (n_node_id n)
      \<and> p_code (rm_export rm after False) = 0
      \<and> parse_export_jsonl (p_out (rm_export rm after False)) = Inr rows
      \<and> validate_export_batch m rows after (n_node_id n) iid = Inr nc
      \<and> audit_events d = audit_events (fleet w) \<and> fleet_daily_usage d = fleet_daily_usage (fleet w)
      \<and> import_audit_batch d (n_node_id n) iid rows now (Some nc) = Inr (fleet w', res))"
proof -
  from sync_full_cases [OF assms] show ?thesis
  proof
    assume "w' = w \<and> \<not> succeeded r"
    then show ?thesis by (cases r) (auto simp: succeeded_def)
  next
    assume s: "synced n rm now False w w'"
    then obtain w1 :: world and iid m rows nc res where i: "untouched w w1"
      "p_code (rm_export rm (cursor_last_export_seq (fleet w) (n_node_id n)) False) = 0"
      "parse_export_jsonl (p_out (rm_export rm (cursor_last_export_seq (fleet w) (n_node_id n)) False)) = Inr rows"
      "validate_export_batch (JObj m) rows (cursor_last_export_seq (fleet w) (n_node_id n)) (n_node_id n) iid = Inr nc"
      "import_audit_batch (fleet w1) (n_node_id n) iid rows now (Some nc) = Inr (fleet w', res)"
      unfolding synced_def imported_def Let_def by blast
    then show ?thesis unfolding untouched_def by blast
  qed
qed

theorem sync_full_atomic_witness:
  "case sync_full_one_node (\<lambda>_. False) ex_node (ex_remote ex_node_log) ''OK'' ''t'' ex_world of
     (w', Inr row) \<Rightarrow> sr_status row = ''error'' \<and> w' \<noteq> ex_world \<and> (\<exists>d iid rows nc res.
         import_audit_batch d ex_nid iid rows ''t'' (Some nc) = Inr (fleet w', res)) | _ \<Rightarrow> False"
proof -
  let ?s = "sync_full_one_node (\<lambda>_. False) ex_node (ex_remote ex_node_log) ''OK'' ''t'' ex_world"
  have "case ?s of (w', Inr row) \<Rightarrow> sr_status row = ''error'' \<and> length (audit_events (fleet w')) = 3
     | _ \<Rightarrow> False" by code_simp
  then obtain w' row where s: "?s = (w', Inr row)" "sr_status row = ''error''" "length (audit_events (fleet w')) = 3"
    by (auto split: prod.splits sum.splits)
  have ne: "w' \<noteq> ex_world" using s(3) by (auto simp: ex_world_def ex_fleet_def)
  have "n_node_id ex_node = ex_nid" by (simp add: ex_node_def)
  with sync_full_atomic [OF s(1)] ne have "\<exists>d iid rows nc res.
      import_audit_batch d ex_nid iid rows ''t'' (Some nc) = Inr (fleet w', res)" by metis
  with s(2) ne show ?thesis unfolding s(1) prod.case sum.case by blast
qed

section \<open>The delivered batch\<close>

text \<open>
  Validation accepts only batches that continue the cursor: all rows labelled with the
  node, export numbers strictly increasing and above the cursor, as many rows as announced,
  and a next cursor that is the last number, or the old cursor for an empty batch.
\<close>

theorem batch_validation_sound:
  assumes "validate_export_batch m rows after nid iid = Inr nc"
  shows "\<exists>ss d. m = JObj d \<and> map row_seq rows = map JInt ss \<and> sorted_wrt (<) ss \<and> (\<forall>s \<in> set ss. after < s)
    \<and> nc = (if ss = [] then after else last ss) \<and> (\<forall>row \<in> set rows. row_node_id row = Some nid)
    \<and> dget ''ok'' d = JBool True \<and> dget ''after'' d = JInt after \<and> dget ''count'' d = JInt (int (length rows))
    \<and> optional_text (dget ''node_id'' d) = Some nid
    \<and> (\<forall>i. iid = Some i \<longrightarrow> i \<noteq> [] \<longrightarrow> optional_text (dget ''instance_id'' d) = Some i)"
proof -
  obtain ss where ss: "map row_seq rows = map JInt ss" "sorted_wrt (<) ss" "\<forall>s \<in> set ss. after < s"
    "nc = (if ss = [] then after else last ss)" "\<forall>row \<in> set rows. row_node_id row = Some nid"
    using validate_Inr [OF assms] by blast
  obtain d where m: "m = JObj d"
    using assms by (cases m) (auto simp: validate_export_batch_def value_error_def)
  from assms obtain u where "check_meta d after (length rows) nid iid = Inr u"
    unfolding validate_export_batch_def m by (auto simp only: json.case rbind_eq_Inr)
  then have "dget ''ok'' d = JBool True \<and> dget ''after'' d = JInt after \<and> dget ''count'' d = JInt (int (length rows))
    \<and> optional_text (dget ''node_id'' d) = Some nid
    \<and> (\<forall>i. iid = Some i \<longrightarrow> i \<noteq> [] \<longrightarrow> optional_text (dget ''instance_id'' d) = Some i)"
    by (auto simp: check_meta_def value_error_def rbind_eq_Inr require_export_int_def
        split: if_split_asm option.split_asm json.split_asm)
  with ss m show ?thesis by blast
qed

theorem batch_validation_sound_witness:
  "validate_export_batch (JObj (apply_export_identity (Some ex_nid) None (export_meta True None 4 9 0 1 7)))
     [JObj [(''node_id'', JStr ex_nid), (''event_id'', JInt 3), (''export_seq'', JInt 7)]] 4 ex_nid None = Inr 7
   \<and> (4 :: int) < 7"
proof -
  let ?v = "validate_export_batch (JObj (apply_export_identity (Some ex_nid) None (export_meta True None 4 9 0 1 7)))
     [JObj [(''node_id'', JStr ex_nid), (''event_id'', JInt 3), (''export_seq'', JInt 7)]] 4 ex_nid None"
  have v: "?v = Inr 7" by code_simp
  from batch_validation_sound [OF v] have "(4 :: int) < 7" by auto
  with v show ?thesis by blast
qed

text \<open>
  The protocol round trip.  What a node exports from a cursor inside its log, with the rows
  labelled by its own id, is parsed and accepted by the controller, whose next cursor is then
  the end of the log.
\<close>

theorem export_round_trip:
  assumes "acct_inv D" "cov_inv D" "require_schema_4 D = Inr ()"
    and "pruned_seq D \<le> after" "after \<le> seq_counter D" "seq_counter D \<le> INT64_MAX"
    and "uuid_ok nid" "\<forall>r \<in> set (after_rows D after). c_node_id r = nid"
  shows "\<exists>ds m. main_export D (export_argv after False nid iid) = Inr (0, ds, Some m)
    \<and> length ds = nat (seq_counter D - after)
    \<and> rbind (parse_export_jsonl (map (\<lambda>d. Json (JObj d)) ds)) (\<lambda>rows.
        validate_export_batch (case parse_export_meta [Blank, Json (JObj m)] of None \<Rightarrow> JNull | Some d \<Rightarrow> JObj d)
          rows after nid (text_or_none iid)) = Inr (seq_counter D)"
proof -
  obtain m where x: "main_export D (export_argv after False nid iid)
      = Inr (0, map row_dict (after_rows D after), Some m)"
    and v: "validate_export_batch (JObj m) (map (\<lambda>r. JObj (row_dict r)) (after_rows D after)) after nid
      (text_or_none iid) = Inr (seq_counter D)" and k: "has_key ''ok'' m"
    by (rule export_accepted [OF assms])
  have pm: "parse_export_meta [Blank, Json (JObj m)] = Some m" using k by (simp add: parse_export_meta_def is_meta_def)
  have "length (map row_dict (after_rows D after)) = nat (seq_counter D - after)"
    using arg_cong [OF after_rows_seqs [OF assms(1,2,4)], of length] by simp
  moreover have "parse_export_jsonl (map (\<lambda>d. Json (JObj d)) (map row_dict (after_rows D after)))
      = Inr (map (\<lambda>r. JObj (row_dict r)) (after_rows D after))"
    using parse_own_rows [of "map row_dict (after_rows D after)"] by (simp add: comp_def)
  ultimately show ?thesis
    using x v by (intro exI [of _ "map row_dict (after_rows D after)"] exI [of _ m]) (simp only: pm option.case rbind_Inr simp_thms)
qed

theorem export_round_trip_witness:
  "\<exists>ds m. main_export ex_node_log (export_argv 1 False ex_nid ex_iid) = Inr (0, ds, Some m) \<and> length ds = 2"
proof -
  have sch: "require_schema_4 ex_node_log = Inr ()" by code_simp
  have u: "uuid_ok ex_nid" by code_simp
  have h: "pruned_seq ex_node_log \<le> 1" "1 \<le> seq_counter ex_node_log" "seq_counter ex_node_log \<le> INT64_MAX"
    by (simp_all add: ex_node_log_inv INT64_MAX_def)
  have l: "\<forall>r \<in> set (after_rows ex_node_log 1). c_node_id r = ex_nid"
  proof
    fix r assume "r \<in> set (after_rows ex_node_log 1)"
    then have "r \<in> set (connections ex_node_log)" using after_rows_set [OF ex_node_log_inv(1)] by blast
    then show "c_node_id r = ex_nid" by (auto simp: ex_node_log_def)
  qed
  from export_round_trip [OF ex_node_log_inv(1,2) sch h u l, of ex_iid] show ?thesis
    by (auto simp: ex_node_log_inv)
qed

section \<open>The import\<close>

text \<open>
  An import is an upsert keyed by node and event.  It writes one event per row, under the
  node's own id; a reader then finds the last written event of a key, or what was there
  before; the cursor is the validated one; keys stay unique; no event, daily row or cursor of
  another node changes.
\<close>

theorem import_is_keyed_upsert:
  assumes "import_audit_batch d nid iid rows now (Some nc) = Inr (d', res)"
  shows "\<exists>ps. list_all2 (\<lambda>row e. \<exists>x. row = JObj x \<and> audit_insert_params x nid now = Inr e) rows ps
    \<and> (\<forall>k. event_get (audit_events d') k = (case find (\<lambda>e. event_key e = k) (rev ps) of
          Some e \<Rightarrow> Some e | None \<Rightarrow> event_get (audit_events d) k))
    \<and> (distinct (map event_key (audit_events d)) \<longrightarrow> distinct (map event_key (audit_events d')))
    \<and> cursor_last_export_seq d' nid = nc
    \<and> (\<forall>x. x \<noteq> nid \<longrightarrow> node_view x d' = node_view x d \<and> map_of (sync_cursor d') x = map_of (sync_cursor d) x
         \<and> filter (\<lambda>y. y_node_id y = x) (fleet_daily_usage d') = filter (\<lambda>y. y_node_id y = x) (fleet_daily_usage d))"
proof -
  from assms obtain ds ps last_eid inst where
    lb: "rmap (check_label nid) rows = Inr ds" and ps: "rmap (\<lambda>d. audit_insert_params d nid now) ds = Inr ps"
    and ev: "audit_events d' = fold event_put ps (audit_events d)"
    and rb: "rebuild_daily_usage_for_node (d\<lparr>audit_events := audit_events d'\<rparr>) nid
       = Inr (d'\<lparr>sync_cursor := sync_cursor d\<rparr>)"
    and cu: "sync_cursor d' = AList.update nid \<lparr>cu_instance_id = inst, cu_last_event_id = last_eid,
       cu_last_export_seq = r_last_export_seq res, cu_cursor_kind = ''export_seq'',
       cu_last_sync_at = now, cu_status = ''ok''\<rparr> (sync_cursor d)"
    and nc: "r_last_export_seq res = nc"
    by (rule import_Inr) blast
  have "\<exists>x. row = JObj x \<and> x = y" if "check_label nid row = Inr y" for row y
    using that by (auto simp: check_label_def die_def split: option.splits json.splits if_splits)
  with lb ps have rows: "list_all2 (\<lambda>row e. \<exists>x. row = JObj x \<and> audit_insert_params x nid now = Inr e) rows ps"
    unfolding rmap_Inr_list_all2 by (simp add: list_all2_conv_all_nth) metis
  have daily: "filter (\<lambda>y. y_node_id y = x) (fleet_daily_usage d') = filter (\<lambda>y. y_node_id y = x) (fleet_daily_usage d)"
    if "x \<noteq> nid" for x
  proof -
    have f: "filter (\<lambda>y. y_node_id y = x) (filter (\<lambda>y. y_node_id y \<noteq> nid) l) = filter (\<lambda>y. y_node_id y = x) l" for l
      using that by (induction l) auto
    show ?thesis
      using arg_cong [OF rebuild_Inr(2) [OF rb], of "filter (\<lambda>y. y_node_id y = x)"] by (simp only: f) simp
  qed
  have "node_view x d' = node_view x d" if "x \<noteq> nid" for x by (rule import_other [OF assms that])
  with rows daily events.unique_puts [of "audit_events d" ps] show ?thesis
    by (intro exI [of _ ps]) (simp add: ev events.get_puts cu nc cursor_last_export_seq_def)
qed

definition ex_batch :: "json list" where
  "ex_batch = map (\<lambda>r. JObj (row_dict r)) (after_rows ex_node_log 0)"

definition ex_import :: "fleet_db \<Rightarrow> (fleet_db \<times> import_result) res" where
  "ex_import d = import_audit_batch d ex_nid (Some ex_iid) ex_batch ''t'' (Some 3)"

lemma ex_imported: obtains d r where "ex_import ex_fleet = Inr (d, r)" "length (audit_events d) = 3"
proof -
  have "case ex_import ex_fleet of Inr (d, r) \<Rightarrow> length (audit_events d) = 3 | Inl _ \<Rightarrow> False" by code_simp
  then show thesis using that by (auto split: sum.splits)
qed

theorem import_is_keyed_upsert_witness:
  "case ex_import ex_fleet of Inr (d, r) \<Rightarrow> cursor_last_export_seq d ex_nid = 3 \<and> length (audit_events d) = 3
     | Inl _ \<Rightarrow> False"
proof -
  obtain d r where i: "ex_import ex_fleet = Inr (d, r)" "length (audit_events d) = 3" by (rule ex_imported)
  from import_is_keyed_upsert [OF i(1) [unfolded ex_import_def]] have "cursor_last_export_seq d ex_nid = 3" by blast
  with i show ?thesis by simp
qed



text \<open>
  The controller's daily table is a faithful aggregate of its events: after an import the
  rows of the node hold, for every selection of (date, user, destination), exactly the bytes
  and the number of the node's events of that selection.
\<close>

theorem fleet_daily_conserves:
  assumes "import_audit_batch d nid iid rows now nc = Inr (d', res)"
  shows "sum_list (map y_upload_bytes (filter (\<lambda>y. y_node_id y = nid \<and> P (y_date y, y_user_id y, y_destination_host y))
        (fleet_daily_usage d'))) = sum_list (map a_upload_bytes (filter (\<lambda>r. P (event_group r)) (node_events d' nid)))
    \<and> sum_list (map y_download_bytes (filter (\<lambda>y. y_node_id y = nid \<and> P (y_date y, y_user_id y, y_destination_host y))
        (fleet_daily_usage d'))) = sum_list (map a_download_bytes (filter (\<lambda>r. P (event_group r)) (node_events d' nid)))
    \<and> sum_list (map y_connection_count (filter (\<lambda>y. y_node_id y = nid \<and> P (y_date y, y_user_id y, y_destination_host y))
        (fleet_daily_usage d'))) = int (length (filter (\<lambda>r. P (event_group r)) (node_events d' nid)))"
proof -
  from assms have rb: "rebuild_daily_usage_for_node (d\<lparr>audit_events := audit_events d'\<rparr>) nid
       = Inr (d'\<lparr>sync_cursor := sync_cursor d\<rparr>)" and u: "uuid_ok nid"
    by (rule import_Inr, blast)+
  have ne: "nid \<noteq> []" using u by (rule uuid_ok_nonempty)
  have nv: "node_events (d\<lparr>audit_events := audit_events d'\<rparr>) nid = node_events d' nid"
    by (simp add: node_events_def)
  note s = rebuild_sum [OF rb ne, unfolded nv, where P = P]
  have cnt: "int (length xs) = sum_list (map (\<lambda>_. 1) xs)" for xs :: "audit_row list" by (induction xs) auto
  show ?thesis
    using s [of y_upload_bytes a_upload_bytes, OF fleet_daily_group_Inr(3)]
      s [of y_download_bytes a_download_bytes, OF fleet_daily_group_Inr(4)]
      s [of y_connection_count "\<lambda>_. 1", OF fleet_daily_group_Inr(5) [unfolded cnt]]
    unfolding cnt by simp
qed

theorem fleet_daily_conserves_witness:
  "case ex_import ex_fleet of Inr (d, r) \<Rightarrow>
     sum_list (map y_upload_bytes (filter (\<lambda>y. y_node_id y = ex_nid \<and> True) (fleet_daily_usage d)))
       = sum_list (map a_upload_bytes (filter (\<lambda>r. True) (node_events d ex_nid))) | Inl _ \<Rightarrow> False"
proof -
  obtain d r where i: "ex_import ex_fleet = Inr (d, r)" by (rule ex_imported)
  from fleet_daily_conserves [OF i [unfolded ex_import_def], of "\<lambda>_. True"] show ?thesis
    unfolding i sum.case prod.case by blast
qed

section \<open>The instance history\<close>

lemma append_each_done:
  "append_each app ls w = (w', Inr u) \<Longrightarrow> w' = w\<lparr>portable_history := portable_history w @ ls\<rparr>"
proof (induction ls arbitrary: w)
  case (Cons l ls)
  then have "append_each app ls (w\<lparr>portable_history := portable_history w @ [l]\<rparr>) = (w', Inr u)"
    by (auto simp: abind_def append_instance_history_line_def die_def split: if_split_asm)
  from Cons.IH [OF this] show ?case by simp
qed (simp add: aret_def)

lemma mark_retired_inv:
  "history_inv (fleet w) \<Longrightarrow> history_inv (fleet (fst (mark_instance_retired app nid iid ts w)))"
  by (cases "validate_node_id nid")
     (auto simp: mark_instance_retired_def Let_def append_instance_history_line_def retire_where_inv split: option.split)

text \<open>
  C14: a node has at most one active instance.  Recording, retiring and the database part of a
  full sync keep the keys of the history unique, at most one active row per node, and no
  instance id equal to its node id, whether or not the writes of the portable file succeed.
\<close>

theorem one_active_instance:
  assumes "history_inv (fleet w)"
  shows "history_inv (fleet (fst (record_instance app nid iid ep host ts w)))
    \<and> history_inv (fleet (fst (mark_instance_retired app nid iid ts w)))
    \<and> (\<forall>d' ls. record_instance_db_pending nid iid ep host ts (fleet w) = Inr (d', ls) \<longrightarrow> history_inv d')"
  using record_instance_inv [OF assms] mark_retired_inv [OF assms] record_pending_inv [OF assms] by blast

theorem one_active_instance_witness:
  "history_inv (fleet (fst (record_instance (\<lambda>_. False) ex_nid ex_iid None None ''t'' ex_world)))
   \<and> instance_history (fleet (fst (record_instance (\<lambda>_. False) ex_nid ex_iid None None ''t'' ex_world))) \<noteq> []"
proof -
  have "history_inv (fleet ex_world)" by (simp add: history_inv_def ex_world_def ex_fleet_def)
  note h = one_active_instance [OF this, of "\<lambda>_. False" ex_nid ex_iid None None "''t''"]
  have "instance_history (fleet (fst (record_instance (\<lambda>_. False) ex_nid ex_iid None None ''t'' ex_world))) \<noteq> []"
    by code_simp
  with h show ?thesis by blast
qed

text \<open>
  An instance seen for the first time takes over.  If recording it succeeds it is the only
  active instance of the node, every instance that was active is retired at that time, and
  the portable file has gained exactly one line for each of them and one for the new one.
\<close>

theorem new_instance_takes_over:
  assumes "record_instance app nid iid ep host ts w = (w', Inr u)" "uuid_ok iid"
    and "\<forall>r \<in> set (instance_history (fleet w)). i_node_id r = nid \<longrightarrow> i_instance_id r \<noteq> iid"
  shows "(\<exists>row. filter (is_active_of nid) (instance_history (fleet w')) = [row] \<and> i_instance_id row = iid
        \<and> i_started_at row = ts)
    \<and> (\<forall>r \<in> set (instance_history (fleet w)). is_active_of nid r \<longrightarrow>
         r\<lparr>i_status := ''retired'', i_retired_at := Some ts\<rparr> \<in> set (instance_history (fleet w')))
    \<and> portable_history w' = portable_history w
        @ map (retired_line ts) (filter (is_active_of nid) (instance_history (fleet w)))
        @ [first_sight_line nid iid ts ep host]"
proof -
  have t: "text_or_none iid = Some iid" using assms(2) by simp
  have fresh: "\<not> list_ex (\<lambda>r. i_node_id r = nid \<and> i_instance_id r = iid) (instance_history (fleet w))"
    using assms(3) by (auto simp: list_ex_iff)
  have ne: "iid \<noteq> nid" using assms(1) by (auto simp: record_instance_def t assms(2) die_def)
  obtain w1 r1 where ra: "retire_active_instance app nid ts w = (w1, r1)"
    by (cases "retire_active_instance app nid ts w")
  obtain u1 where r1: "r1 = Inr u1"
    using assms(1) ra fresh ne by (cases r1) (auto simp: record_instance_def t assms(2) abind_def)
  have w1: "w1 = w\<lparr>fleet := retire_where (is_active_of nid) ts (fleet w),
      portable_history := portable_history w @ map (retired_line ts) (filter (is_active_of nid) (instance_history (fleet w)))\<rparr>"
    using ra r1 by (auto simp: retire_active_instance_def Let_def split: sum.splits dest!: append_each_done)
  obtain d where d: "insert_instance nid iid ts ep host ''active'' None (fleet w1) = Inr d"
    using assms(1) ra r1 fresh ne
    by (cases "insert_instance nid iid ts ep host ''active'' None (fleet w1)")
       (auto simp: record_instance_def t assms(2) abind_def atomically_def)
  have w': "w' = w1\<lparr>fleet := d, portable_history := portable_history w1 @ [first_sight_line nid iid ts ep host]\<rparr>"
    using assms(1) ra r1 fresh ne d
    by (auto simp: record_instance_def t assms(2) abind_def atomically_def append_instance_history_line_def die_def
        split: if_split_asm)
  define h where "h = (\<lambda>r. if is_active_of nid r then r\<lparr>i_status := ''retired'', i_retired_at := Some ts\<rparr> else r)"
  obtain row where row: "i_node_id row = nid" "i_instance_id row = iid" "i_started_at row = ts"
    "i_status row = ''active''" and hist: "instance_history (fleet w') = map h (instance_history (fleet w)) @ [row]"
  proof
    let ?row = "\<lparr>i_node_id = nid, i_instance_id = iid, i_started_at = ts, i_retired_at = None,
         i_endpoint = (case ep of None \<Rightarrow> None | Some t \<Rightarrow> text_or_none t),
         i_ssh_host = (case host of None \<Rightarrow> None | Some t \<Rightarrow> text_or_none t), i_status = ''active''\<rparr>"
    show "instance_history (fleet w') = map h (instance_history (fleet w)) @ [?row]"
      using d by (auto simp: insert_instance_def w' w1 retire_where_def h_def die_def res_simps split: if_split_asm)
  qed simp_all
  have none: "filter (is_active_of nid) (map h xs) = []" for xs
    by (induction xs) (auto simp: h_def is_active_of_def)
  have "is_active_of nid row" by (simp add: is_active_of_def row)
  then have "filter (is_active_of nid) (instance_history (fleet w')) = [row]"
    by (simp add: hist none del: filter_map)
  moreover have "r\<lparr>i_status := ''retired'', i_retired_at := Some ts\<rparr> \<in> set (instance_history (fleet w'))"
    if "r \<in> set (instance_history (fleet w))" "is_active_of nid r" for r
  proof -
    have "h r = r\<lparr>i_status := ''retired'', i_retired_at := Some ts\<rparr>" using that(2) by (simp add: h_def)
    with that(1) show ?thesis unfolding hist by (metis Un_iff image_eqI list.set_map set_append)
  qed
  moreover have "portable_history w' = portable_history w
        @ map (retired_line ts) (filter (is_active_of nid) (instance_history (fleet w)))
        @ [first_sight_line nid iid ts ep host]" by (simp add: w' w1)
  ultimately show ?thesis using row by blast
qed

theorem new_instance_takes_over_witness:
  "length (portable_history (fst (record_instance (\<lambda>_. True) ex_nid ex_iid None None ''t'' ex_world))) = 1"
proof -
  let ?r = "record_instance (\<lambda>_. True) ex_nid ex_iid None None ''t'' ex_world"
  have "case ?r of (w', Inr u) \<Rightarrow> True | _ \<Rightarrow> False" by code_simp
  then obtain w' u where r: "?r = (w', Inr u)" by (auto split: prod.splits sum.splits)
  have u: "uuid_ok ex_iid" by code_simp
  have n: "\<forall>r \<in> set (instance_history (fleet ex_world)). i_node_id r = ex_nid \<longrightarrow> i_instance_id r \<noteq> ex_iid"
    by (simp add: ex_world_def ex_fleet_def)
  from new_instance_takes_over [OF r u n] have "length (portable_history w') = 1"
    by (simp add: ex_world_def ex_fleet_def)
  then show ?thesis by (simp only: r fst_conv)
qed

end
