(* ===== verification/Access.thy ===== *)
theory Access
  imports FleetDb
begin

text \<open>
  The access seam of \<open>lib/access.py\<close>: validation of the SSH user and host, the OpenSSH argument
  vectors, the capped capture of a remote's output, and the credential bindings file.

  The environment (programs, known-hosts file of the active workspace, file system) is a record
  of inputs; a string is one character per code point, so \<open>utf8_len\<close> counts two bytes from 128 on.
\<close>

section \<open>User and host\<close>

definition SSH_USER_MAX :: nat where
  "SSH_USER_MAX = 32"

definition SSH_HOST_MAX :: nat where
  "SSH_HOST_MAX = 253"

definition SSH_REMOTE_CMD_MAX_BYTES :: nat where
  "SSH_REMOTE_CMD_MAX_BYTES = 8192"

definition user_re :: "string \<Rightarrow> bool" where
  "user_re s = (case s of [] \<Rightarrow> False
     | c # r \<Rightarrow> (is_lower c \<or> c = CHR ''_'') \<and> length r \<le> 31
         \<and> list_all (\<lambda>c. is_lower c \<or> is_digit c \<or> c = CHR ''_'' \<or> c = CHR ''-'') r)"

definition validate_ssh_user :: "string \<Rightarrow> string res" where
  "validate_ssh_user user =
     (if user = [] then die ''invalid ssh_user: empty''
      else if has_ascii_control user \<or> list_ex is_space user
      then die ''invalid ssh_user: whitespace or control characters''
      else if length user > SSH_USER_MAX \<or> \<not> user_re user then die (''invalid ssh_user: '' @ user)
      else Inr user)"

definition alnum :: "char \<Rightarrow> bool" where
  "alnum c = (is_lower c \<or> is_upper c \<or> is_digit c)"

text \<open>\<open>_HOSTNAME_LABEL_RE\<close>: 1 to 63 letters, digits and hyphens, no hyphen at either end.\<close>

definition label_re :: "string \<Rightarrow> bool" where
  "label_re s = (s \<noteq> [] \<and> length s \<le> 63 \<and> alnum (hd s) \<and> alnum (last s)
     \<and> list_all (\<lambda>c. alnum c \<or> c = CHR ''-'') s)"

definition is_dns_hostname :: "string \<Rightarrow> bool" where
  "is_dns_hostname host =
     (let name = (if ends_with ''.'' host then butlast host else host) in
      name \<noteq> [] \<and> length host \<le> SSH_HOST_MAX \<and> list_all label_re (split_on CHR ''.'' name))"

text \<open>
  \<open>ipaddress.ip_address\<close> of the standard library as a recogniser: four decimal octets without
  leading zeros, or eight groups of hex digits with at most one \<open>::\<close>, an embedded IPv4 tail and
  an optional scope (any non-empty text after \<open>%\<close> that holds no further \<open>%\<close>).
\<close>

definition ipv4_octet :: "string \<Rightarrow> bool" where
  "ipv4_octet s = (s \<noteq> [] \<and> length s \<le> 3 \<and> list_all is_digit s
     \<and> (s = ''0'' \<or> hd s \<noteq> CHR ''0'')
     \<and> (case digits_value 0 False s of None \<Rightarrow> False | Some n \<Rightarrow> n \<le> 255))"

definition is_ipv4 :: "string \<Rightarrow> bool" where
  "is_ipv4 s = (let ps = split_on CHR ''.'' s in length ps = 4 \<and> list_all ipv4_octet ps)"

definition is_hex :: "char \<Rightarrow> bool" where
  "is_hex c = (is_digit c \<or> (97 \<le> code c \<and> code c \<le> 102) \<or> (65 \<le> code c \<and> code c \<le> 70))"

definition hextet :: "string \<Rightarrow> bool" where
  "hextet s = (s \<noteq> [] \<and> length s \<le> 4 \<and> list_all is_hex s)"

text \<open>The groups of an address, the indices of the empty inner ones, and the two shapes.\<close>

definition ipv6_groups :: "string list \<Rightarrow> bool" where
  "ipv6_groups ps =
     (let n = length ps; gaps = filter (\<lambda>i. ps ! i = []) [1..<n - 1] in
      3 \<le> n \<and> n \<le> 9 \<and>
      (case gaps of
         [] \<Rightarrow> n = 8 \<and> list_all hextet ps
       | [k] \<Rightarrow>
           (let hi = (if ps ! 0 = [] then k - 1 else k);
                lo = (if ps ! (n - 1) = [] then n - k - 2 else n - k - 1)
            in (ps ! 0 \<noteq> [] \<or> hi = 0) \<and> (ps ! (n - 1) \<noteq> [] \<or> lo = 0) \<and> hi + lo < 8
               \<and> list_all hextet (take hi ps) \<and> list_all hextet (drop (n - lo) ps))
       | _ \<Rightarrow> False))"

definition is_ipv6_plain :: "string \<Rightarrow> bool" where
  "is_ipv6_plain s =
     (let ps = split_on CHR '':'' s in
      s \<noteq> [] \<and> 3 \<le> length ps \<and>
      (if CHR ''.'' \<in> set (last ps)
       then is_ipv4 (last ps) \<and> ipv6_groups (butlast ps @ [''0'', ''0''])
       else ipv6_groups ps))"

definition is_ipv6 :: "string \<Rightarrow> bool" where
  "is_ipv6 s = (CHR ''/'' \<notin> set s \<and>
     (let addr = takeWhile (\<lambda>c. c \<noteq> CHR ''%'') s; rest = dropWhile (\<lambda>c. c \<noteq> CHR ''%'') s in
      is_ipv6_plain addr \<and> (rest = [] \<or> (tl rest \<noteq> [] \<and> CHR ''%'' \<notin> set (tl rest)))))"

definition is_ip_address :: "string \<Rightarrow> bool" where
  "is_ip_address s = (is_ipv4 s \<or> is_ipv6 s)"

definition validate_ssh_host :: "string \<Rightarrow> string res" where
  "validate_ssh_host host =
     (if host = [] then die ''invalid ssh_host: empty''
      else if has_ascii_control host \<or> list_ex is_space host
      then die ''invalid ssh_host: whitespace or control characters''
      else if length host > SSH_HOST_MAX then die ''invalid ssh_host: too long''
      else if is_ip_address host then Inr host
      else if \<not> is_dns_hostname host then die (''invalid ssh_host: '' @ host)
      else Inr host)"

section \<open>Environment\<close>

text \<open>
  \<open>se_known_hosts\<close> is the workspace's known-hosts path, \<open>None\<close> when no workspace is active.
  \<open>se_expand\<close> is \<open>Path(p).expanduser()\<close> as text, \<open>se_resolve\<close> is \<open>resolve()\<close> with
  \<open>None\<close> for an \<open>OSError\<close>, \<open>se_is_file\<close> is \<open>is_file()\<close>.
\<close>

record ssh_env =
  se_ssh_bin :: string
  se_scp_bin :: string
  se_known_hosts :: "string option"
  se_expand :: "string \<Rightarrow> string"
  se_resolve :: "string \<Rightarrow> string option"
  se_is_file :: "string \<Rightarrow> bool"

definition bad_path_text :: "string \<Rightarrow> bool" where
  "bad_path_text s = (s = [] \<or> list_ex (\<lambda>c. code c = 0 \<or> code c = 10 \<or> code c = 13) s)"

definition validate_identity_file :: "ssh_env \<Rightarrow> string \<Rightarrow> bool \<Rightarrow> string res" where
  "validate_identity_file se path must_exist =
     (let raw = strip path in
      if bad_path_text raw then die ''invalid --identity-file''
      else (let candidate = se_expand se raw in
        if must_exist then
          (case se_resolve se candidate of
             None \<Rightarrow> die ''invalid --identity-file''
           | Some resolved \<Rightarrow>
               if se_is_file se resolved then Inr resolved
               else die (''identity file not found: '' @ resolved))
        else if se_is_file se candidate
        then Inr (case se_resolve se candidate of Some r \<Rightarrow> r | None \<Rightarrow> candidate)
        else Inr candidate))"

definition ssh_identity_args :: "ssh_env \<Rightarrow> string option \<Rightarrow> string list res" where
  "ssh_identity_args se identity_file =
     (case (case identity_file of None \<Rightarrow> None | Some t \<Rightarrow> text_or_none t) of
        None \<Rightarrow> Inr []
      | Some path \<Rightarrow> rbind (validate_identity_file se path True) (\<lambda>p.
          Inr [''-i'', p, ''-o'', ''IdentitiesOnly=yes'']))"

definition host_key_ssh_extra :: "ssh_env \<Rightarrow> string list" where
  "host_key_ssh_extra se = (case se_known_hosts se of
     None \<Rightarrow> []
   | Some p \<Rightarrow> [''-o'', ''UserKnownHostsFile='' @ p, ''-o'', ''StrictHostKeyChecking=yes''])"

definition ssh_option_text :: "string \<Rightarrow> string" where
  "ssh_option_text arg =
     (if starts_with ''-o'' arg \<and> 2 < length arg \<and> \<not> starts_with ''-o '' arg then drop 2 arg else arg)"

definition STRICT_NO :: string where
  "STRICT_NO = ''StrictHostKeyChecking=no''"

definition KNOWN_NULL :: string where
  "KNOWN_NULL = ''UserKnownHostsFile=/dev/null''"

definition reject_forbidden_ssh_options :: "ssh_env \<Rightarrow> string list \<Rightarrow> unit res" where
  "reject_forbidden_ssh_options se argv =
     (let joined = join '' '' argv in
      if STRICT_NO \<in> set argv \<or> contains STRICT_NO joined
      then Inl (SystemExit (''refusing forbidden SSH option '' @ STRICT_NO) 2)
      else if KNOWN_NULL \<in> set argv \<or> contains KNOWN_NULL joined
      then Inl (SystemExit (''refusing forbidden SSH option '' @ KNOWN_NULL) 2)
      else if list_ex (\<lambda>arg. let option = ssh_option_text arg in
             starts_with ''UserKnownHostsFile='' option
             \<and> Some option \<noteq> map_option (\<lambda>p. ''UserKnownHostsFile='' @ p) (se_known_hosts se)) argv
      then Inl (SystemExit ''refusing forbidden SSH option UserKnownHostsFile='' 2)
      else Inr ())"

section \<open>Argument vectors\<close>

text \<open>\<open>shlex.quote\<close> and \<open>shlex.join\<close> of the standard library.\<close>

definition shell_safe :: "char \<Rightarrow> bool" where
  "shell_safe c = (alnum c \<or> c \<in> set ''_@%+=:,./-'')"

definition SQ :: char where
  "SQ = char_of (39 :: nat)"

definition DQ :: char where
  "DQ = char_of (34 :: nat)"

definition quote_char :: "char \<Rightarrow> string" where
  "quote_char c = (if c = SQ then [SQ, DQ, SQ, DQ, SQ] else [c])"

definition shlex_quote :: "string \<Rightarrow> string" where
  "shlex_quote s = (if s = [] then [SQ, SQ]
     else if list_all shell_safe s then s
     else [SQ] @ concat (map quote_char s) @ [SQ])"

definition shlex_join :: "string list \<Rightarrow> string" where
  "shlex_join parts = join '' '' (map shlex_quote parts)"

definition utf8_len :: "string \<Rightarrow> nat" where
  "utf8_len s = sum_list (map (\<lambda>c. if code c < 128 then 1 else 2) s)"

definition ssh_argv ::
    "ssh_env \<Rightarrow> string \<Rightarrow> string \<Rightarrow> int \<Rightarrow> string list \<Rightarrow> bool \<Rightarrow> string list \<Rightarrow> string option
      \<Rightarrow> string list res" where
  "ssh_argv se host user port remote_cmd batch extra identity_file =
     rbind (validate_ssh_user user) (\<lambda>_.
     rbind (validate_ssh_host host) (\<lambda>_.
     if remote_cmd = [] then die ''remote command must be a non-empty argv list''
     else if list_ex (\<lambda>p. char_of (0 :: nat) \<in> set p) remote_cmd
     then die ''remote command argv must not contain NUL''
     else (let remote = shlex_join remote_cmd in
       if utf8_len remote > SSH_REMOTE_CMD_MAX_BYTES then die ''remote command exceeds 8192 bytes''
       else rbind (ssh_identity_args se identity_file) (\<lambda>ident.
         let argv = [se_ssh_bin se] @ host_key_ssh_extra se @ [''-p'', int_text port] @ extra
               @ (if batch then [''-o'', ''BatchMode=yes''] else []) @ ident
               @ [user @ ''@'' @ host, ''--'', remote]
         in rbind (reject_forbidden_ssh_options se argv) (\<lambda>_. Inr argv)))))"

definition scp_argv ::
    "ssh_env \<Rightarrow> int \<Rightarrow> string \<Rightarrow> string \<Rightarrow> bool \<Rightarrow> string list \<Rightarrow> string option \<Rightarrow> string list res" where
  "scp_argv se port src dest batch extra identity_file =
     rbind (ssh_identity_args se identity_file) (\<lambda>ident.
       let argv = [se_scp_bin se] @ host_key_ssh_extra se @ [''-P'', int_text port] @ extra
             @ (if batch then [''-o'', ''BatchMode=yes''] else []) @ ident @ [src, dest]
       in rbind (reject_forbidden_ssh_options se argv) (\<lambda>_. Inr argv))"

definition scp_remote_spec :: "string \<Rightarrow> string \<Rightarrow> string \<Rightarrow> string" where
  "scp_remote_spec user host remote_path = user @ ''@'' @ host @ '':'' @ remote_path"

section \<open>Capped capture of the remote's output\<close>

text \<open>
  \<open>_ssh_run_bounded_stdout\<close>: two threads append to the two captures under one lock, so a run is
  a list of chunks, each tagged with its stream (\<open>True\<close> for stdout), in the order in which the
  lock was taken.  Bytes are characters; \<open>decode\<close> is \<open>bytes.decode("utf-8", "replace")\<close>.
\<close>

definition SSH_BOUNDED_STDERR_MAX :: nat where
  "SSH_BOUNDED_STDERR_MAX = 1048576"

definition drain_take :: "nat \<Rightarrow> string \<Rightarrow> string \<Rightarrow> string" where
  "drain_take limit chunks chunk =
     (if length chunks < limit then chunks @ take (min (length chunk) (limit - length chunks)) chunk
      else chunks)"

definition drain_step :: "nat \<Rightarrow> bool \<times> string \<Rightarrow> string \<times> string \<Rightarrow> string \<times> string" where
  "drain_step max_stdout_bytes c s = (case (c, s) of ((is_out, chunk), (out, err)) \<Rightarrow>
     if is_out then (drain_take (max_stdout_bytes + 1) out chunk, err)
     else (out, drain_take SSH_BOUNDED_STDERR_MAX err chunk))"

record captured =
  cap_code :: int
  cap_stdout :: string
  cap_stderr :: string

definition bounded_result ::
    "(string \<Rightarrow> string) \<Rightarrow> nat \<Rightarrow> (bool \<times> string) list \<Rightarrow> int \<Rightarrow> captured" where
  "bounded_result decode max_stdout_bytes chunks returncode =
     (let (stdout_b, stderr_b) = fold (drain_step max_stdout_bytes) chunks ([], []);
          overflow = max_stdout_bytes < length stdout_b;
          stdout = decode (if overflow then take max_stdout_bytes stdout_b else stdout_b);
          stderr = decode stderr_b
      in if overflow then
           (let marker = ''stdout exceeds '' @ nat_text max_stdout_bytes @ '' bytes'' in
            \<lparr>cap_code = (if returncode \<noteq> 0 then returncode else 1), cap_stdout = stdout,
             cap_stderr = (if strip stderr = [] then marker
               else strip (stderr @ [char_of (10 :: nat)] @ marker))\<rparr>)
         else \<lparr>cap_code = returncode, cap_stdout = stdout, cap_stderr = stderr\<rparr>)"

section \<open>Credential bindings\<close>

text \<open>
  The bindings file as \<open>load_bindings\<close> finds it, and the dict it holds.  \<open>save_bindings\<close>
  replaces the file atomically, so a failing write leaves it as it was.
\<close>

datatype json_doc = NoFile | BadJson | Doc json

definition BINDINGS_SCHEMA_VERSION :: int where
  "BINDINGS_SCHEMA_VERSION = 1"

definition bindings_doc :: "dict \<Rightarrow> json" where
  "bindings_doc bs =
     JObj [(''schema_version'', JInt BINDINGS_SCHEMA_VERSION), (''bindings'', JObj bs)]"

definition validate_bindings :: "json \<Rightarrow> dict res" where
  "validate_bindings data = (case data of
     JObj d \<Rightarrow>
       if \<not> py_eq_int (dget ''schema_version'' d) BINDINGS_SCHEMA_VERSION
       then die ''unsupported credential-bindings schema''
       else (case dget ''bindings'' d of JObj bs \<Rightarrow> Inr bs
         | _ \<Rightarrow> die ''invalid credential-bindings.json: bindings must be an object'')
   | _ \<Rightarrow> die ''invalid credential-bindings.json: expected object'')"

definition load_bindings :: "json_doc \<Rightarrow> dict res" where
  "load_bindings f = (case f of
     NoFile \<Rightarrow> Inr [] | BadJson \<Rightarrow> die ''invalid credential-bindings.json'' | Doc v \<Rightarrow> validate_bindings v)"

definition save_bindings :: "bool \<Rightarrow> dict \<Rightarrow> json_doc \<Rightarrow> json_doc \<times> unit res" where
  "save_bindings write_ok bs f =
     (if write_ok then (Doc (bindings_doc bs), Inr ()) else (f, Inl (RuntimeError ''OSError'')))"

definition validate_credential_ref :: "string \<Rightarrow> string res" where
  "validate_credential_ref ref =
     (let raw = strip ref in if bad_path_text raw then die ''invalid credential ref'' else Inr raw)"

definition put_binding ::
    "bool \<Rightarrow> string \<Rightarrow> json \<Rightarrow> json_doc \<Rightarrow> json_doc \<times> json res" where
  "put_binding write_ok key b f = (case load_bindings f of
     Inl e \<Rightarrow> (f, Inl e)
   | Inr bs \<Rightarrow> (case save_bindings write_ok (AList.update key b bs) f of
       (f', r) \<Rightarrow> (f', rbind r (\<lambda>_. Inr b))))"

definition bind_identity_file ::
    "ssh_env \<Rightarrow> bool \<Rightarrow> string \<Rightarrow> string \<Rightarrow> json_doc \<Rightarrow> json_doc \<times> json res" where
  "bind_identity_file se write_ok ref path f =
     (case rbind (validate_credential_ref ref) (\<lambda>key.
             rbind (validate_identity_file se path True) (\<lambda>p. Inr (key, p))) of
        Inl e \<Rightarrow> (f, Inl e)
      | Inr (key, p) \<Rightarrow>
          put_binding write_ok key (JObj [(''type'', JStr ''identity_file''), (''path'', JStr p)]) f)"

definition bind_openssh_default ::
    "bool \<Rightarrow> string \<Rightarrow> json_doc \<Rightarrow> json_doc \<times> json res" where
  "bind_openssh_default write_ok ref f =
     (case validate_credential_ref ref of
        Inl e \<Rightarrow> (f, Inl e)
      | Inr key \<Rightarrow> put_binding write_ok key (JObj [(''type'', JStr ''openssh-default'')]) f)"

definition resolve_binding :: "json_doc \<Rightarrow> string \<Rightarrow> dict res" where
  "resolve_binding f ref =
     rbind (validate_credential_ref ref) (\<lambda>key.
     rbind (load_bindings f) (\<lambda>bs.
     (case dget key bs of
        JNull \<Rightarrow> die (''unbound credential ref: '' @ key)
      | JObj b \<Rightarrow> Inr b
      | _ \<Rightarrow> die (''invalid binding for '' @ key))))"

definition identity_from_ref :: "json_doc \<Rightarrow> string \<Rightarrow> string option res" where
  "identity_from_ref f ref =
     rbind (resolve_binding f ref) (\<lambda>b.
       if dget ''type'' b = JStr ''openssh-default'' then Inr None
       else if dget ''type'' b = JStr ''identity_file''
       then (case dget ''path'' b of JStr p \<Rightarrow> Inr (Some p)
         | _ \<Rightarrow> if has_key ''path'' b then Inl Unsupported else Inl (KeyError ''path''))
       else die (''invalid binding type for '' @ ref))"

datatype credential_class = Observe | Admin

definition node_identity_file_for_class ::
    "json_doc \<Rightarrow> dict \<Rightarrow> credential_class \<Rightarrow> string option res" where
  "node_identity_file_for_class f n cls =
     (let admin_ref = optional_text (dget ''admin_credential_ref'' n);
          observe_ref = optional_text (dget ''observe_credential_ref'' n);
          legacy = optional_text (dget ''identity_file'' n)
      in case cls of
           Admin \<Rightarrow> (case admin_ref of Some r \<Rightarrow> identity_from_ref f r | None \<Rightarrow> Inr legacy)
         | Observe \<Rightarrow> (case observe_ref of Some r \<Rightarrow> identity_from_ref f r
             | None \<Rightarrow> (case admin_ref of None \<Rightarrow> Inr legacy
                 | Some _ \<Rightarrow> die ''observe credential not configured for node'')))"

text \<open>\<open>verify_bindings\<close>: the problems of the bindings in the order of their refs.\<close>

definition binding_problem :: "ssh_env \<Rightarrow> string \<times> json \<Rightarrow> string option" where
  "binding_problem se rb = (case rb of (ref, v) \<Rightarrow> (case v of
     JObj b \<Rightarrow>
       if dget ''type'' b = JStr ''openssh-default'' then None
       else if dget ''type'' b = JStr ''identity_file''
       then (let p = dget ''path'' b in
         if \<not> truthy p \<or> \<not> se_is_file se (py_str p)
         then Some (''missing identity file for '' @ ref @ '': '' @ py_str p) else None)
       else Some (''invalid binding type for '' @ ref)
   | _ \<Rightarrow> Some (''invalid binding for '' @ ref)))"

definition verify_bindings :: "ssh_env \<Rightarrow> json_doc \<Rightarrow> string list res" where
  "verify_bindings se f = rbind (load_bindings f) (\<lambda>bs.
     Inr (List.map_filter (binding_problem se) (sort_key fst bs)))"

end
