(* ===== verification/AccessInv.thy ===== *)
theory AccessInv
  imports Access
begin

text \<open>
  What the access seam guarantees: the remote POSIX shell splits the operand \<open>ssh_argv\<close> builds
  into exactly the requested argument list; accepted users and hosts cannot be read as options;
  the captured output is a prefix of the remote's, however its chunks are interleaved; bindings
  are read back as they were written and an admin credential is never used to observe.
\<close>

section \<open>The remote shell's view\<close>

text \<open>
  A reference reader of POSIX shell words, used as the specification: inside single quotes
  everything is literal, inside double quotes \<open>$\<close>, backquote and backslash are refused, outside
  quotes only the characters that never have a meaning of their own are allowed.  \<open>None\<close> means
  that the shell would interpret something.
\<close>

datatype sh_mode = Between | InWord | InSingle | InDouble

fun sh_words :: "sh_mode \<Rightarrow> string \<Rightarrow> string \<Rightarrow> string list option" where
  "sh_words Between acc [] = Some []"
| "sh_words InWord acc [] = Some [rev acc]"
| "sh_words InSingle acc [] = None"
| "sh_words InDouble acc [] = None"
| "sh_words Between acc (c # s) =
     (if c = CHR '' '' then sh_words Between [] s
      else if c = SQ then sh_words InSingle [] s
      else if c = DQ then sh_words InDouble [] s
      else if shell_safe c then sh_words InWord [c] s else None)"
| "sh_words InWord acc (c # s) =
     (if c = CHR '' '' then map_option (\<lambda>ws. rev acc # ws) (sh_words Between [] s)
      else if c = SQ then sh_words InSingle acc s
      else if c = DQ then sh_words InDouble acc s
      else if shell_safe c then sh_words InWord (c # acc) s else None)"
| "sh_words InSingle acc (c # s) =
     (if c = SQ then sh_words InWord acc s else sh_words InSingle (c # acc) s)"
| "sh_words InDouble acc (c # s) =
     (if c = DQ then sh_words InWord acc s
      else if c \<in> set ''$`'' \<or> code c = 92 then None else sh_words InDouble (c # acc) s)"

lemma SQ_neq [simp]: "SQ \<noteq> DQ" "DQ \<noteq> SQ" "SQ \<noteq> CHR '' ''" "DQ \<noteq> CHR '' ''"
  by code_simp+

lemma shell_safe_not_special:
  assumes "shell_safe c"
  shows "c \<noteq> CHR '' ''" "c \<noteq> SQ" "c \<noteq> DQ"
proof -
  have "\<not> shell_safe (CHR '' '')" "\<not> shell_safe SQ" "\<not> shell_safe DQ" by code_simp+
  with assms show "c \<noteq> CHR '' ''" "c \<noteq> SQ" "c \<noteq> DQ" by auto
qed

lemma SQ_plain: "\<not> (SQ \<in> set ''$`'' \<or> code SQ = 92)"
  by code_simp

lemma sh_words_safe:
  "list_all shell_safe s \<Longrightarrow> sh_words InWord acc (s @ r) = sh_words InWord (rev s @ acc) r"
proof (induction s arbitrary: acc)
  case (Cons c s)
  then have "shell_safe c" by simp
  with shell_safe_not_special [OF this] Cons show ?case by simp
qed simp

lemma sh_words_single:
  "sh_words InSingle acc (concat (map quote_char s) @ r) = sh_words InSingle (rev s @ acc) r"
proof (induction s arbitrary: acc)
  case (Cons c s)
  show ?case
  proof (cases "c = SQ")
    case True
    then show ?thesis using Cons.IH SQ_plain by (simp add: quote_char_def)
  next
    case False
    then show ?thesis using Cons.IH by (simp add: quote_char_def)
  qed
qed simp

lemma sh_words_quote:
  "sh_words Between [] (shlex_quote s @ r) = sh_words InWord (rev s) r"
proof -
  consider "s = []" | c t where "s = c # t" "list_all shell_safe s" | "s \<noteq> []" "\<not> list_all shell_safe s"
    by (cases s) auto
  then show ?thesis
  proof cases
    case 1
    then show ?thesis by (simp add: shlex_quote_def)
  next
    case 2
    with shell_safe_not_special [of c] show ?thesis
      by (simp add: shlex_quote_def sh_words_safe)
  next
    case 3
    then show ?thesis by (simp add: shlex_quote_def sh_words_single)
  qed
qed

lemma sh_words_join: "sh_words Between [] (shlex_join parts) = Some parts"
proof (induction parts rule: induct_list012)
  case 1
  then show ?case by (simp add: shlex_join_def)
next
  case (2 s)
  then show ?case using sh_words_quote [of s "[]"] by (simp add: shlex_join_def)
next
  case (3 s t ps)
  have "sh_words Between [] (shlex_join (s # t # ps))
      = sh_words InWord (rev s) (CHR '' '' # shlex_join (t # ps))"
    by (simp add: shlex_join_def sh_words_quote)
  with 3 show ?case by simp
qed

section \<open>Users and hosts\<close>

lemma validate_ssh_user_Inr:
  "validate_ssh_user u = Inr v \<Longrightarrow> v = u \<and> user_re u \<and> \<not> list_ex is_space u \<and> \<not> has_ascii_control u"
  by (auto simp: validate_ssh_user_def die_def split: if_splits)

lemma user_re_hd: "user_re u \<Longrightarrow> u \<noteq> [] \<and> (is_lower (hd u) \<or> hd u = CHR ''_'')"
  by (auto simp: user_re_def split: list.splits)

lemma validate_ssh_host_Inr:
  assumes "validate_ssh_host h = Inr v"
  shows "v = h \<and> h \<noteq> [] \<and> length h \<le> SSH_HOST_MAX \<and> (is_ip_address h \<or> is_dns_hostname h)
    \<and> \<not> list_ex is_space h \<and> \<not> has_ascii_control h"
  using assms by (auto simp: validate_ssh_host_def die_def split: if_splits)

lemma split_on_nonempty [simp]: "split_on d s \<noteq> []"
  by (induction s) (auto split: list.splits)

lemma split_on_chars:
  assumes "c \<in> set s"
  shows "c = d \<or> (\<exists>p \<in> set (split_on d s). c \<in> set p)"
  using assms by (induction s) (auto split: list.splits)

definition host_char :: "char \<Rightarrow> bool" where
  "host_char c = (alnum c \<or> c = CHR ''.'' \<or> c = CHR ''-'' \<or> c = CHR '':'')"

lemma split_all_host_chars:
  assumes "\<And>p. p \<in> set (split_on d s) \<Longrightarrow> list_all host_char p" and "host_char d"
  shows "list_all host_char s"
  using split_on_chars [of _ s d] assms by (auto simp: list_all_iff)

lemma is_ipv4_chars: "is_ipv4 s \<Longrightarrow> list_all host_char s"
  by (rule split_all_host_chars [of "CHR ''.''"])
     (auto simp: is_ipv4_def Let_def list_all_iff ipv4_octet_def host_char_def alnum_def)

lemma hextet_chars: "hextet p \<Longrightarrow> list_all host_char p"
  by (auto simp: hextet_def list_all_iff host_char_def alnum_def is_hex_def is_lower_def is_upper_def)

text \<open>In an accepted group list every group is empty or a run of hex digits.\<close>

lemma gap_only:
  assumes "filter (\<lambda>i. ps ! i = []) [1..<n - 1] = [k]" and "n = length ps" and "3 \<le> n"
  shows "1 \<le> k \<and> k < n - 1 \<and> ps ! k = []"
proof -
  have "k \<in> set (filter (\<lambda>i. ps ! i = []) [1..<n - 1])" using assms(1) by simp
  then show ?thesis by auto
qed

lemma ipv6_groups_hextets:
  assumes "ipv6_groups ps" and "i < length ps"
  shows "ps ! i = [] \<or> hextet (ps ! i)"
proof -
  define n where "n = length ps"
  have n: "3 \<le> n" "n \<le> 9" using assms(1) by (auto simp: ipv6_groups_def Let_def n_def)
  show ?thesis
  proof (cases "filter (\<lambda>i. ps ! i = []) [1..<n - 1]")
    case Nil
    then have "list_all hextet ps" using assms(1) by (simp add: ipv6_groups_def Let_def n_def)
    with assms(2) show ?thesis by (simp add: list_all_length)
  next
    case (Cons k ks)
    then have ks: "filter (\<lambda>i. ps ! i = []) [1..<n - 1] = [k]"
      using assms(1) by (simp add: ipv6_groups_def Let_def n_def split: list.splits)
    define hi where "hi = (if ps ! 0 = [] then k - 1 else k)"
    define lo where "lo = (if ps ! (n - 1) = [] then n - k - 2 else n - k - 1)"
    have k: "1 \<le> k" "k < n - 1" "ps ! k = []" using gap_only [OF ks n_def n(1)] by auto
    have g: "ps ! 0 \<noteq> [] \<or> hi = 0" "ps ! (n - 1) \<noteq> [] \<or> lo = 0"
        "list_all hextet (take hi ps)" "list_all hextet (drop (n - lo) ps)"
      using assms(1) ks by (simp_all add: ipv6_groups_def Let_def hi_def lo_def flip: n_def)
    consider "i = k" | "i < hi" | "hi \<le> i" "i < k" | "k < i" "n - lo \<le> i" | "k < i" "i < n - lo"
      by linarith
    then show ?thesis
    proof cases
      case 2
      then have "hextet (take hi ps ! i)" using g(3) assms(2) by (simp add: list_all_length)
      with 2 show ?thesis by simp
    next
      case 3
      then have "ps ! 0 = []" "i = 0" using g(1) by (auto simp: hi_def split: if_splits)
      then show ?thesis by simp
    next
      case 4
      have "drop (n - lo) ps ! (i - (n - lo)) \<in> set (drop (n - lo) ps)"
        by (rule nth_mem) (use 4 assms(2) in \<open>simp add: n_def\<close>)
      moreover have "drop (n - lo) ps ! (i - (n - lo)) = ps ! i"
        using 4 assms(2) by (subst nth_drop) (auto simp: n_def)
      moreover have "\<forall>x \<in> set (drop (n - lo) ps). hextet x" using g(4) by (simp add: list_all_iff)
      ultimately show ?thesis by simp
    next
      case 5
      then have "ps ! (n - 1) = []" "i = n - 1"
        using g(2) k assms(2) by (auto simp: lo_def n_def split: if_splits)
      then show ?thesis by simp
    qed (use k in simp)
  qed
qed

lemma ipv6_groups_chars: "ipv6_groups ps \<Longrightarrow> p \<in> set ps \<Longrightarrow> list_all host_char p"
  by (auto simp: in_set_conv_nth dest!: ipv6_groups_hextets hextet_chars)

lemma is_ipv6_plain_chars:
  assumes "is_ipv6_plain s"
  shows "list_all host_char s"
proof (rule split_all_host_chars [of "CHR '':''"])
  let ?ps = "split_on CHR '':'' s"
  fix p assume p: "p \<in> set ?ps"
  show "list_all host_char p"
  proof (cases "CHR ''.'' \<in> set (last ?ps)")
    case True
    then have "is_ipv4 (last ?ps)" "ipv6_groups (butlast ?ps @ [''0'', ''0''])"
      using assms by (auto simp: is_ipv6_plain_def Let_def)
    moreover from p have "p \<in> set (butlast ?ps) \<or> p = last ?ps"
      by (metis append_butlast_last_id in_set_conv_decomp list.distinct(1) rotate1.simps(2) set_ConsD
          set_rotate1 split_on_nonempty)
    ultimately show ?thesis using is_ipv4_chars ipv6_groups_chars by fastforce
  next
    case False
    then have "ipv6_groups ?ps" using assms by (auto simp: is_ipv6_plain_def Let_def)
    with p show ?thesis using ipv6_groups_chars by blast
  qed
qed (simp add: host_char_def)

lemma label_chars: "label_re p \<Longrightarrow> list_all host_char p"
  by (auto simp: label_re_def list_all_iff host_char_def)

lemma dns_chars:
  assumes "is_dns_hostname h"
  shows "list_all host_char h"
proof -
  define n where "n = (if ends_with ''.'' h then butlast h else h)"
  have labels: "list_all label_re (split_on CHR ''.'' n)"
    using assms by (simp add: is_dns_hostname_def Let_def n_def)
  have n: "list_all host_char n"
  proof (rule split_all_host_chars [of "CHR ''.''"])
    fix p assume "p \<in> set (split_on CHR ''.'' n)"
    with labels show "list_all host_char p" by (auto simp only: list_all_iff [of label_re] intro: label_chars)
  qed (simp add: host_char_def)
  show ?thesis
  proof (cases "ends_with ''.'' h")
    case True
    then have "h = n @ ''.''"
      by (cases h rule: rev_cases) (auto simp: ends_with_def n_def)
    then show ?thesis using n by (simp add: host_char_def)
  qed (use n in \<open>simp add: n_def\<close>)
qed

text \<open>Outside an IPv6 scope an accepted host is made of letters, digits, dots, hyphens and colons.\<close>

lemma host_chars:
  assumes "validate_ssh_host h = Inr v"
  shows "list_all host_char (takeWhile (\<lambda>c. c \<noteq> CHR ''%'') h)"
proof -
  have sub: "list_all host_char (takeWhile P s)" if "list_all host_char s" for P s
    using that by (auto simp: list_all_iff dest: set_takeWhileD)
  from validate_ssh_host_Inr [OF assms] consider "is_ipv4 h" | "is_ipv6 h" | "is_dns_hostname h"
    by (auto simp: is_ip_address_def)
  then show ?thesis
  proof cases
    case 2
    then show ?thesis by (auto simp: is_ipv6_def Let_def is_ipv6_plain_chars)
  qed (auto intro: sub is_ipv4_chars dns_chars)
qed

section \<open>Capped capture\<close>

lemma drain_take_take:
  "drain_take limit (take limit xs) chunk = take limit (xs @ chunk)"
  by (auto simp: drain_take_def min_def)

definition stream_of :: "bool \<Rightarrow> (bool \<times> string) list \<Rightarrow> string" where
  "stream_of b chunks = concat (map snd (filter (\<lambda>c. fst c = b) chunks))"

lemma drain_fold:
  "fold (drain_step m) chunks (take (m + 1) xs, take SSH_BOUNDED_STDERR_MAX ys)
    = (take (m + 1) (xs @ stream_of True chunks), take SSH_BOUNDED_STDERR_MAX (ys @ stream_of False chunks))"
proof (induction chunks arbitrary: xs ys)
  case (Cons c chunks)
  obtain b t where c: "c = (b, t)" by fastforce
  show ?case
  proof (cases b)
    case True
    have "drain_step m c (take (m + 1) xs, take SSH_BOUNDED_STDERR_MAX ys)
        = (take (m + 1) (xs @ t), take SSH_BOUNDED_STDERR_MAX ys)"
      using c True drain_take_take [of "m + 1" xs t] by (simp add: drain_step_def)
    with Cons.IH [of "xs @ t" ys] c True show ?thesis by (simp add: stream_of_def)
  next
    case False
    have "drain_step m c (take (m + 1) xs, take SSH_BOUNDED_STDERR_MAX ys)
        = (take (m + 1) xs, take SSH_BOUNDED_STDERR_MAX (ys @ t))"
      using c False drain_take_take [of SSH_BOUNDED_STDERR_MAX ys t] by (simp add: drain_step_def)
    with Cons.IH [of xs "ys @ t"] c False show ?thesis by (simp add: stream_of_def)
  qed
qed (simp add: stream_of_def)

lemma drain_all:
  "fold (drain_step m) chunks ([], []) =
     (take (m + 1) (stream_of True chunks), take SSH_BOUNDED_STDERR_MAX (stream_of False chunks))"
  using drain_fold [of m chunks "[]" "[]"] by simp

section \<open>Bindings\<close>

lemma load_bindings_saved: "load_bindings (Doc (bindings_doc bs)) = Inr bs"
  by (simp add: load_bindings_def bindings_doc_def validate_bindings_def)

lemma put_binding_Inr:
  assumes "put_binding ok key b f = (f', Inr r)"
  obtains bs where "load_bindings f = Inr bs" "r = b"
    "load_bindings f' = Inr (AList.update key b bs)"
  using assms
  by (auto simp: put_binding_def save_bindings_def load_bindings_saved split: sum.splits if_splits)

lemma put_binding_Inl: "put_binding ok key b f = (f', Inl e) \<Longrightarrow> f' = f"
  by (auto simp: put_binding_def save_bindings_def split: sum.splits if_splits)

lemma validate_credential_ref_idem:
  "validate_credential_ref ref = Inr key \<Longrightarrow> validate_credential_ref key = Inr key"
  by (auto simp: validate_credential_ref_def die_def Let_def split: if_splits)

section \<open>Properties\<close>

lemma ssh_argv_Inr:
  assumes "ssh_argv se host user port cmd batch extra idf = Inr argv"
  shows "\<exists>mid. argv = [se_ssh_bin se] @ host_key_ssh_extra se @ mid
      @ [user @ ''@'' @ host, ''--'', shlex_join cmd]
    \<and> validate_ssh_user user = Inr user \<and> validate_ssh_host host = Inr host
    \<and> utf8_len (shlex_join cmd) \<le> SSH_REMOTE_CMD_MAX_BYTES
    \<and> reject_forbidden_ssh_options se argv = Inr ()"
proof -
  from assms have u: "validate_ssh_user user = Inr user" and h: "validate_ssh_host host = Inr host"
    by (auto simp: ssh_argv_def rbind_eq_Inr dest: validate_ssh_user_Inr validate_ssh_host_Inr)
  with assms show ?thesis
    by (auto simp: ssh_argv_def rbind_eq_Inr Let_def die_def split: if_splits)
qed

text \<open>
  C15: An argument vector that \<open>ssh_argv\<close> returns ends in the destination, \<open>--\<close> and one operand
  which the remote shell splits into exactly the requested command, nothing interpreted; the
  operand has at most 8192 bytes, the destination cannot be read as an option, and the host-key
  options of the workspace come before everything else (OpenSSH takes the first value).
\<close>

theorem ssh_argv_preserves_command:
  assumes "ssh_argv se host user port cmd batch extra idf = Inr argv"
  shows "\<exists>mid dest remote. argv = [se_ssh_bin se] @ host_key_ssh_extra se @ mid @ [dest, ''--'', remote]
    \<and> sh_words Between [] remote = Some cmd \<and> utf8_len remote \<le> 8192
    \<and> dest = user @ ''@'' @ host \<and> hd dest \<noteq> CHR ''-'' \<and> \<not> list_ex is_space dest"
proof -
  from ssh_argv_Inr [OF assms] obtain mid where
    a: "argv = [se_ssh_bin se] @ host_key_ssh_extra se @ mid @ [user @ ''@'' @ host, ''--'', shlex_join cmd]"
    and u: "validate_ssh_user user = Inr user" and h: "validate_ssh_host host = Inr host"
    and n: "utf8_len (shlex_join cmd) \<le> SSH_REMOTE_CMD_MAX_BYTES"
    by blast
  have nd: "\<not> is_lower CHR ''-''" "\<not> is_space CHR ''@''" by code_simp+
  have "hd (user @ ''@'' @ host) \<noteq> CHR ''-''"
    using user_re_hd [of user] validate_ssh_user_Inr [OF u] nd(1) by (cases user) auto
  moreover have "\<not> list_ex is_space (user @ ''@'' @ host)"
    using validate_ssh_user_Inr [OF u] validate_ssh_host_Inr [OF h] nd(2) by simp
  ultimately show ?thesis
    using a n sh_words_join [of cmd] unfolding SSH_REMOTE_CMD_MAX_BYTES_def by blast
qed

definition ex_ssh_env :: ssh_env where
  "ex_ssh_env = \<lparr>se_ssh_bin = ''ssh'', se_scp_bin = ''scp'', se_known_hosts = Some ''/kh'',
     se_expand = (\<lambda>p. p), se_resolve = (\<lambda>p. Some p), se_is_file = (\<lambda>p. True)\<rparr>"

definition ex_argv :: "string list res" where
  "ex_argv = ssh_argv ex_ssh_env ''2001:db8::1'' ''root'' 22 [''vcl'', ''user'', ''it'' @ [SQ] @ ''s $x;''] True []
     (Some ''/k'')"

theorem ssh_argv_preserves_command_witness:
  "case ex_argv of Inl _ \<Rightarrow> False
   | Inr argv \<Rightarrow> length argv = 16
       \<and> sh_words Between [] (last argv) = Some [''vcl'', ''user'', ''it'' @ [SQ] @ ''s $x;'']"
proof -
  have "case ex_argv of Inl _ \<Rightarrow> False | Inr argv \<Rightarrow> length argv = 16" by code_simp
  then obtain argv where a: "ex_argv = Inr argv" "length argv = 16" by (auto split: sum.splits)
  from ssh_argv_preserves_command [OF a(1) [unfolded ex_argv_def]] obtain mid dest remote where
    r: "argv = [se_ssh_bin ex_ssh_env] @ host_key_ssh_extra ex_ssh_env @ mid @ [dest, ''--'', remote]"
      "sh_words Between [] remote = Some [''vcl'', ''user'', ''it'' @ [SQ] @ ''s $x;'']"
    by blast
  then have "last argv = remote" by simp
  then show ?thesis unfolding a(1) sum.case using a(2) r(2) by blast
qed

text \<open>
  An accepted host is returned unchanged, is not empty, has at most 253 characters, none of
  them a space or control character, and up to a \<open>%\<close> it consists of letters, digits, dots,
  hyphens and colons.
\<close>

theorem ssh_host_accepted:
  assumes "validate_ssh_host h = Inr v"
  shows "v = h \<and> h \<noteq> [] \<and> length h \<le> 253 \<and> \<not> list_ex is_space h \<and> \<not> has_ascii_control h
    \<and> list_all host_char (takeWhile (\<lambda>c. c \<noteq> CHR ''%'') h)"
  using validate_ssh_host_Inr [OF assms] host_chars [OF assms] by (simp add: SSH_HOST_MAX_def)

theorem ssh_host_accepted_witness:
  "list_all host_char (takeWhile (\<lambda>c. c \<noteq> CHR ''%'') ''fe80::1%eth0'')"
proof -
  have "validate_ssh_host ''fe80::1%eth0'' = Inr ''fe80::1%eth0''" by code_simp
  from ssh_host_accepted [OF this] show ?thesis by simp
qed

text \<open>
  The scope of an IPv6 address is not restricted, so shell metacharacters pass the check that the
  docstring of \<open>validate_ssh_host\<close> says refuses them.
\<close>

lemma scope_id_unchecked:
  "validate_ssh_host ''fe80::1%$(reboot)'' = Inr ''fe80::1%$(reboot)''"
  by code_simp

text \<open>
  However the two streams are cut into chunks and interleaved, the captured stdout decodes
  the first \<open>m\<close> bytes the remote wrote, and the exit code is zero exactly when the remote's was
  and it wrote at most \<open>m\<close> bytes.
\<close>

theorem capture_bounded:
  "cap_stdout (bounded_result decode m chunks rc) = decode (take m (stream_of True chunks))
   \<and> (cap_code (bounded_result decode m chunks rc) = 0)
     = (rc = 0 \<and> length (stream_of True chunks) \<le> m)"
  by (auto simp: bounded_result_def drain_all Let_def min_def)

text \<open>
  A binding that was written is read back under its ref, resolves to the file's path, and
  leaves what every other ref resolves to as it was; a failed bind leaves the file as it was.
\<close>

theorem bind_then_resolve:
  assumes "bind_identity_file se ok ref path f = (f', r)"
  shows "case r of
      Inl _ \<Rightarrow> f' = f
    | Inr b \<Rightarrow> (\<exists>p. validate_identity_file se path True = Inr p
        \<and> identity_from_ref f' ref = Inr (Some p)
        \<and> (\<forall>ref'. strip ref' = strip ref \<or> resolve_binding f' ref' = resolve_binding f ref'))"
proof (cases r)
  case (Inl e)
  with assms show ?thesis
    by (auto simp: bind_identity_file_def split: sum.splits dest: put_binding_Inl)
next
  case (Inr b)
  from assms obtain key p where key: "validate_credential_ref ref = Inr key"
    and p: "validate_identity_file se path True = Inr p"
    and put: "put_binding ok key (JObj [(''type'', JStr ''identity_file''), (''path'', JStr p)]) f = (f', Inr b)"
    unfolding Inr by (auto simp: bind_identity_file_def rbind_eq_Inr rbind_eq_Inl split: sum.splits)
  from put obtain bs where bs: "load_bindings f = Inr bs"
    "load_bindings f' = Inr (AList.update key (JObj [(''type'', JStr ''identity_file''), (''path'', JStr p)]) bs)"
    by (rule put_binding_Inr)
  have k: "key = strip ref" using key by (auto simp: validate_credential_ref_def Let_def die_def split: if_splits)
  have "identity_from_ref f' ref = Inr (Some p)"
    by (simp add: identity_from_ref_def resolve_binding_def key bs(2))
  moreover have "resolve_binding f' ref' = resolve_binding f ref'" if "strip ref' \<noteq> strip ref" for ref'
    using that k
    by (auto simp: resolve_binding_def validate_credential_ref_def Let_def bs die_def)
  ultimately show ?thesis using p Inr by auto
qed

theorem bind_then_resolve_witness:
  "case bind_identity_file ex_ssh_env True '' admin '' ''/keys/id'' NoFile of
     (f, _) \<Rightarrow> identity_from_ref f ''admin'' = Inr (Some ''/keys/id'')"
proof -
  obtain f r where b: "bind_identity_file ex_ssh_env True '' admin '' ''/keys/id'' NoFile = (f, r)" by fastforce
  have "case bind_identity_file ex_ssh_env True '' admin '' ''/keys/id'' NoFile of
     (f, r) \<Rightarrow> (case r of Inl _ \<Rightarrow> False | Inr _ \<Rightarrow> True)
       \<and> identity_from_ref f ''admin'' = identity_from_ref f '' admin ''" by code_simp
  moreover have "validate_identity_file ex_ssh_env ''/keys/id'' True = Inr ''/keys/id''" by code_simp
  ultimately show ?thesis using bind_then_resolve [OF b] b by (auto split: sum.splits)
qed

end
