(* ===== verification/Trust.thy ===== *)
theory Trust
  imports AccessInv
begin

text \<open>
  Host-key trust of \<open>lib/trust.py\<close>: fingerprints, candidate keys, pinning a key into the
  known-hosts file, and the extraction of the fleet's entries from an older file.

  The outputs of \<open>ssh-keyscan\<close> and \<open>ssh-keygen\<close> are inputs (\<open>None\<close> when the program could
  not be run), and so is \<open>digest\<close>, which takes a padded base64 key to the base64 text of its
  SHA-256 hash (\<open>None\<close> when the text is no base64).  A known-hosts file is its text, \<open>None\<close>
  when there is no file; it is written through \<open>workspace_mutation\<close> when a workspace is active.
\<close>

section \<open>Fingerprints\<close>

definition LF :: char where
  "LF = char_of (10 :: nat)"

definition HOST_KEY_TYPES :: "string list" where
  "HOST_KEY_TYPES = [''ssh-ed25519'', ''ssh-rsa'', ''ecdsa-sha2-nistp256'', ''ecdsa-sha2-nistp384'',
     ''ecdsa-sha2-nistp521'', ''ssh-dss'']"

definition normalize_fingerprint :: "string \<Rightarrow> string res" where
  "normalize_fingerprint value =
     (let raw = strip value in
      if \<not> starts_with ''SHA256:'' raw then die ''invalid --host-key: expected SHA256:<base64>''
      else (let body = filter (\<lambda>c. c \<noteq> CHR ''='') (drop 7 raw) in
        if body = [] \<or> \<not> list_all (\<lambda>c. alnum c \<or> c = CHR ''+'' \<or> c = CHR ''/'') body
        then die ''invalid --host-key: expected SHA256:<base64>''
        else Inr (''SHA256:'' @ body)))"

text \<open>\<open>str.split()\<close>: the runs of characters that are not spaces.\<close>

fun words_acc :: "string \<Rightarrow> string \<Rightarrow> string list" where
  "words_acc acc [] = (if acc = [] then [] else [rev acc])"
| "words_acc acc (c # s) =
     (if is_space c then (if acc = [] then words_acc [] s else rev acc # words_acc [] s)
      else words_acc (c # acc) s)"

fun key_blob :: "string list \<Rightarrow> string option" where
  "key_blob (p # q # ps) = (if p \<in> set HOST_KEY_TYPES then Some q else key_blob (q # ps))"
| "key_blob _ = None"

definition pad64 :: "string \<Rightarrow> string" where
  "pad64 b = b @ replicate ((4 - length b mod 4) mod 4) CHR ''=''"

definition fingerprint_sha256 :: "(string \<Rightarrow> string option) \<Rightarrow> string \<Rightarrow> string res" where
  "fingerprint_sha256 digest raw_key_line =
     (case key_blob (words_acc [] raw_key_line) of
        None \<Rightarrow> Inl (ValueError ''cannot parse host key line'')
      | Some b \<Rightarrow> (case digest (pad64 b) of
          None \<Rightarrow> Inl (ValueError ''Incorrect padding'')
        | Some d \<Rightarrow> Inr (''SHA256:'' @ rstrip_char CHR ''='' d)))"

text \<open>The lines of a program's output that are neither blank nor comments.\<close>

definition key_lines :: "string option \<Rightarrow> string list" where
  "key_lines out = (case out of None \<Rightarrow> []
     | Some t \<Rightarrow> filter (\<lambda>l. l \<noteq> [] \<and> \<not> starts_with ''#'' l) (map strip (splitlines t)))"

definition candidate_host_keys :: "string option \<Rightarrow> string list" where
  "candidate_host_keys keyscan = key_lines keyscan"

section \<open>Pinning\<close>

definition present_rows :: "string \<Rightarrow> string list" where
  "present_rows t = filter (\<lambda>r. r \<noteq> []) (map strip (splitlines t))"

definition append_known_hosts :: "string \<Rightarrow> string option \<Rightarrow> string option" where
  "append_known_hosts line f =
     (let cur = (case f of None \<Rightarrow> [] | Some t \<Rightarrow> t) in
      if f \<noteq> None \<and> strip line \<in> set (present_rows cur) then f
      else Some (cur @ (if cur \<noteq> [] \<and> \<not> ends_with [LF] cur then [LF] else [])
             @ rstrip_char LF line @ [LF]))"

definition pin_host_key ::
    "(string \<Rightarrow> string option) \<Rightarrow> string option \<Rightarrow> string \<Rightarrow> string option \<Rightarrow> string option \<times> unit res" where
  "pin_host_key digest keyscan host_key f =
     (case normalize_fingerprint host_key of
        Inl e \<Rightarrow> (f, Inl e)
      | Inr expected \<Rightarrow>
          (case find (\<lambda>l. fingerprint_sha256 digest l = Inr expected) (candidate_host_keys keyscan) of
             None \<Rightarrow> (f, die ''host key mismatch'')
           | Some l \<Rightarrow> (append_known_hosts l f, Inr ())))"

text \<open>The extra options and whether the run is non-interactive.\<close>

definition prepare_ssh_host_key ::
    "(string \<Rightarrow> string option) \<Rightarrow> string option \<Rightarrow> bool \<Rightarrow> string option \<Rightarrow> string option
      \<Rightarrow> string option \<times> (string list \<times> bool) res" where
  "prepare_ssh_host_key digest keyscan tty host_key f =
     (case host_key of
        Some k \<Rightarrow> if k \<noteq> [] then
            (case pin_host_key digest keyscan k f of
               (f', r) \<Rightarrow> (f', rbind r (\<lambda>_. Inr ([''-o'', ''StrictHostKeyChecking=yes''], True))))
          else if tty then (f, Inr ([], False))
          else (f, die ''non-interactive add requires --host-key SHA256:...'')
      | None \<Rightarrow> if tty then (f, Inr ([], False))
          else (f, die ''non-interactive add requires --host-key SHA256:...''))"

section \<open>Extraction\<close>

text \<open>
  \<open>keygen marker\<close> is the output of \<open>ssh-keygen -F marker\<close>.  The loop keeps the lines seen so
  far, the matched lines and the hosts without a new line.
\<close>

definition host_markers :: "dict \<Rightarrow> (string \<times> string list) option res" where
  "host_markers n = (case optional_text (dget ''ssh_host'' n) of
     None \<Rightarrow> Inr None
   | Some host \<Rightarrow>
       rbind (case py_int (dget_or ''ssh_port'' (JInt 22) n) of
                Inr p \<Rightarrow> Inr p
              | Inl OverflowError \<Rightarrow> Inl OverflowError
              | Inl _ \<Rightarrow> Inr 22) (\<lambda>port.
       Inr (Some (host, [host, ''['' @ host @ '']:'' @ int_text port]))))"

definition add_found :: "string \<Rightarrow> string list \<times> string list \<Rightarrow> string list \<times> string list" where
  "add_found line s = (case s of (matched, found) \<Rightarrow>
     if line \<in> set matched then s else (matched @ [line], found @ [line]))"

definition extract_node ::
    "(string \<Rightarrow> string option) \<Rightarrow> json \<Rightarrow> string list \<times> string list
      \<Rightarrow> (string list \<times> string list) res" where
  "extract_node keygen node s = (case node of
     JObj n \<Rightarrow> rbind (host_markers n) (\<lambda>hm. (case hm of
         None \<Rightarrow> Inr s
       | Some (host, markers) \<Rightarrow>
           (let (matched, found) =
              fold add_found (concat (map (\<lambda>m. key_lines (keygen m)) markers)) (fst s, [])
            in Inr (matched, if found = [] then snd s @ [host] else snd s))))
   | _ \<Rightarrow> Inr s)"

record trust_report =
  t_matched :: "string list"
  t_missing_hosts :: "string list"
  t_warnings :: "string list"
  t_payload :: string

definition extract_fleet_host_trust ::
    "(string \<Rightarrow> string option) \<Rightarrow> json list \<Rightarrow> trust_report res" where
  "extract_fleet_host_trust keygen nodes =
     rbind (rfold (extract_node keygen) nodes ([], [])) (\<lambda>(matched, missing).
     Inr \<lparr>t_matched = matched, t_missing_hosts = missing,
          t_warnings = (if missing = [] then [] else [''TRUST_MIGRATION_REQUIRED'']),
          t_payload = (if matched = [] then [] else join [LF] matched @ [LF])\<rparr>)"

section \<open>Lines of a file\<close>

lemma line_break_LF [simp]: "is_line_break LF" "code LF = 10"
  by (simp_all add: LF_def is_line_break_def)

lemma splitlines_steps:
  "code x = 13 \<and> code d = 10 \<Longrightarrow> splitlines_acc acc (x # d # s) = rev acc # splitlines_acc [] s"
  "\<not> (code x = 13 \<and> code d = 10) \<Longrightarrow> is_line_break x
    \<Longrightarrow> splitlines_acc acc (x # d # s) = rev acc # splitlines_acc [] (d # s)"
  "\<not> (code x = 13 \<and> code d = 10) \<Longrightarrow> \<not> is_line_break x
    \<Longrightarrow> splitlines_acc acc (x # d # s) = splitlines_acc (x # acc) (d # s)"
  by (simp_all only: splitlines_acc.simps if_True if_False simp_thms)

lemma strip_Nil [simp]: "strip [] = []"
  by (simp add: strip_def lstrip_def rstrip_def)

text \<open>The three ways in which a text of two or more characters is read.\<close>

lemma splitlines_cases:
  obtains "code x = 13 \<and> code d = 10" | "\<not> (code x = 13 \<and> code d = 10)" "is_line_break x"
    | "\<not> (code x = 13 \<and> code d = 10)" "\<not> is_line_break x"
  by blast

lemma splitlines_acc_break:
  "splitlines_acc acc (s @ LF # t) = splitlines_acc acc (s @ [LF]) @ splitlines_acc [] t"
proof (induction acc s rule: splitlines_acc.induct)
  case (1 acc)
  show ?case by (cases t) simp_all
next
  case (2 acc c)
  show ?case by (cases t) simp_all
next
  case (3 acc x d s)
  show ?case
  proof (rule splitlines_cases [of x d])
    assume c: "code x = 13 \<and> code d = 10"
    show ?thesis unfolding append_Cons splitlines_steps(1) [OF c] "3.IH"(1) [OF c] by simp
  next
    assume c: "\<not> (code x = 13 \<and> code d = 10)" "is_line_break x"
    have "splitlines_acc [] (d # s @ LF # t) = splitlines_acc [] (d # s @ [LF]) @ splitlines_acc [] t"
      using "3.IH"(2) [OF c] by simp
    then show ?thesis unfolding append_Cons splitlines_steps(2) [OF c] by simp
  next
    assume c: "\<not> (code x = 13 \<and> code d = 10)" "\<not> is_line_break x"
    have "splitlines_acc (x # acc) (d # s @ LF # t)
        = splitlines_acc (x # acc) (d # s @ [LF]) @ splitlines_acc [] t"
      using "3.IH"(3) [OF c] by simp
    then show ?thesis unfolding append_Cons splitlines_steps(3) [OF c] by simp
  qed
qed

lemma splitlines_acc_line:
  assumes "\<And>c. c \<in> set l \<Longrightarrow> \<not> is_line_break c"
  shows "splitlines_acc acc (l @ [LF]) = [rev acc @ l]"
  using assms
proof (induction l arbitrary: acc)
  case (Cons c l)
  have "code c \<noteq> 13" using Cons.prems [of c] by (auto simp: is_line_break_def)
  with Cons show ?case by (cases l) auto
qed simp

text \<open>Ending a text with a newline adds at most a blank row.\<close>

lemma rows_LF_acc:
  "filter (\<lambda>r. r \<noteq> []) (map strip (splitlines_acc acc (s @ [LF])))
    = filter (\<lambda>r. r \<noteq> []) (map strip (splitlines_acc acc s))"
proof (induction acc s rule: splitlines_acc.induct)
  case (1 acc)
  show ?case by simp
next
  case (2 acc c)
  have "is_line_break c" if "code c = 13" using that by (simp add: is_line_break_def)
  then show ?case by auto
next
  case (3 acc x d s)
  show ?case
  proof (rule splitlines_cases [of x d])
    assume c: "code x = 13 \<and> code d = 10"
    show ?thesis unfolding append_Cons splitlines_steps(1) [OF c] using "3.IH"(1) [OF c] by simp
  next
    assume c: "\<not> (code x = 13 \<and> code d = 10)" "is_line_break x"
    show ?thesis unfolding append_Cons splitlines_steps(2) [OF c] using "3.IH"(2) [OF c] by simp
  next
    assume c: "\<not> (code x = 13 \<and> code d = 10)" "\<not> is_line_break x"
    show ?thesis unfolding append_Cons splitlines_steps(3) [OF c] using "3.IH"(3) [OF c] by simp
  qed
qed

lemma present_rows_LF: "present_rows (s @ [LF]) = present_rows s"
  by (simp add: present_rows_def splitlines_def rows_LF_acc)

lemma present_rows_append_line:
  assumes "\<And>c. c \<in> set l \<Longrightarrow> \<not> is_line_break c" and "s = [] \<or> ends_with [LF] s"
  shows "present_rows (s @ l @ [LF]) = present_rows s @ (if strip l = [] then [] else [strip l])"
proof -
  have l: "splitlines_acc [] (l @ [LF]) = [l]" using splitlines_acc_line [of l "[]"] assms(1) by simp
  show ?thesis
  proof (cases s rule: rev_cases)
    case Nil
    then show ?thesis by (simp add: present_rows_def splitlines_def l)
  next
    case (snoc t c)
    then have "c = LF" using assms(2) by (auto simp: ends_with_def)
    with snoc show ?thesis
      using splitlines_acc_break [of "[]" t "l @ [LF]"] l
      by (simp add: present_rows_def splitlines_def)
  qed
qed

lemma splitlines_acc_no_break:
  "(\<And>c. c \<in> set acc \<Longrightarrow> \<not> is_line_break c) \<Longrightarrow> l \<in> set (splitlines_acc acc s) \<Longrightarrow> c \<in> set l
    \<Longrightarrow> \<not> is_line_break c"
proof (induction acc s rule: splitlines_acc.induct)
  case (3 acc x d s)
  consider "code x = 13 \<and> code d = 10" | "\<not> (code x = 13 \<and> code d = 10)" "is_line_break x"
    | "\<not> is_line_break x" by blast
  then show ?case
  proof cases
    case 1
    with 3 show ?thesis by auto
  next
    case 2
    with 3 show ?thesis by auto
  next
    case c: 3
    then have "\<not> (code x = 13 \<and> code d = 10)" by (auto simp: is_line_break_def)
    with c 3 show ?thesis by auto
  qed
qed (auto split: if_splits)

lemma strip_subset: "set (strip s) \<subseteq> set s"
  by (auto simp: strip_def rstrip_def lstrip_def dest!: set_dropWhileD)

lemma key_lines_line:
  assumes "l \<in> set (key_lines out)"
  shows "l \<noteq> [] \<and> strip l = l \<and> (\<forall>c \<in> set l. \<not> is_line_break c)"
proof -
  from assms obtain t r where r: "r \<in> set (splitlines t)" "l = strip r" "l \<noteq> []"
    by (auto simp: key_lines_def split: option.splits)
  then show ?thesis
    using strip_subset [of r] splitlines_acc_no_break [of "[]" r t] by (auto simp: splitlines_def)
qed

definition trusted :: "string option \<Rightarrow> string set" where
  "trusted f = (case f of None \<Rightarrow> {} | Some t \<Rightarrow> set (present_rows t))"

lemma rstrip_char_no: "(\<And>c. c \<in> set l \<Longrightarrow> c \<noteq> d) \<Longrightarrow> rstrip_char d l = l"
  by (cases l rule: rev_cases) (auto simp: rstrip_char_def)

lemma append_known_hosts_trusted:
  assumes "l \<in> set (key_lines out)"
  shows "trusted (append_known_hosts l f) = insert l (trusted f)"
proof -
  have l: "l \<noteq> []" "strip l = l" "\<And>c. c \<in> set l \<Longrightarrow> \<not> is_line_break c"
    using key_lines_line [OF assms] by auto
  have r: "rstrip_char LF l = l" using l(3) line_break_LF(1) by (intro rstrip_char_no) blast
  define cur where "cur = (case f of None \<Rightarrow> [] | Some t \<Rightarrow> t)"
  have cur: "trusted f = set (present_rows cur)"
    by (simp add: trusted_def cur_def present_rows_def splitlines_def split: option.split)
  show ?thesis
  proof (cases "f \<noteq> None \<and> l \<in> set (present_rows cur)")
    case True
    then have "append_known_hosts l f = f" by (simp add: append_known_hosts_def l(2) flip: cur_def)
    with True cur show ?thesis by auto
  next
    case False
    define pre where "pre = cur @ (if cur \<noteq> [] \<and> \<not> ends_with [LF] cur then [LF] else [])"
    have "append_known_hosts l f = Some (pre @ l @ [LF])"
      using False by (auto simp: append_known_hosts_def l(2) r pre_def simp flip: cur_def)
    moreover have "pre = [] \<or> ends_with [LF] pre" by (auto simp: pre_def ends_with_def)
    moreover have "present_rows pre = present_rows cur" by (auto simp: pre_def present_rows_LF)
    ultimately show ?thesis
      using present_rows_append_line [of l pre] l cur by (auto simp: trusted_def)
  qed
qed

section \<open>Properties\<close>


definition ex_scan :: string where
  "ex_scan = ''# h SSH'' @ [LF] @ ''h ssh-rsa AAAA'' @ [LF] @ ''h ssh-ed25519 BBBB'' @ [LF]"


section \<open>Extraction\<close>

definition found_lines :: "(string \<Rightarrow> string option) \<Rightarrow> json \<Rightarrow> string set" where
  "found_lines keygen node = (case node of
     JObj n \<Rightarrow> (case host_markers n of
         Inr (Some (_, markers)) \<Rightarrow> \<Union>m \<in> set markers. set (key_lines (keygen m))
       | _ \<Rightarrow> {})
   | _ \<Rightarrow> {})"

lemma fold_add_found_length: "length found \<le> length (snd (fold add_found ls (m, found)))"
proof (induction ls arbitrary: m found)
  case (Cons l ls)
  show ?case
  proof (cases "l \<in> set m")
    case True
    then have "add_found l (m, found) = (m, found)" by (simp add: add_found_def)
    with Cons.IH show ?thesis by simp
  next
    case False
    then have "add_found l (m, found) = (m @ [l], found @ [l])" by (simp add: add_found_def)
    with Cons.IH [of "found @ [l]" "m @ [l]"] show ?thesis by simp
  qed
qed simp

lemma fold_add_found:
  assumes "fold add_found ls (matched, found) = (matched', found')" and "distinct matched"
  shows "set matched' = set matched \<union> set ls \<and> distinct matched'
    \<and> (found' = found \<longleftrightarrow> set ls \<subseteq> set matched)"
  using assms
proof (induction ls arbitrary: matched found)
  case (Cons l ls)
  show ?case
  proof (cases "l \<in> set matched")
    case True
    with Cons show ?thesis by (auto simp: add_found_def)
  next
    case False
    then have "add_found l (matched, found) = (matched @ [l], found @ [l])" by (simp add: add_found_def)
    with Cons.prems(1) have f: "fold add_found ls (matched @ [l], found @ [l]) = (matched', found')" by simp
    from fold_add_found_length [of "found @ [l]" ls "matched @ [l]"] f have "found' \<noteq> found" by auto
    moreover have "set matched' = set (matched @ [l]) \<union> set ls \<and> distinct matched'"
      using Cons.IH [OF f] Cons.prems(2) False by simp
    ultimately show ?thesis using False by simp
  qed
qed simp

lemma extract_node_step:
  assumes "extract_node keygen node (matched, missing) = Inr (matched', missing')"
    and "distinct matched"
  shows "set matched' = set matched \<union> found_lines keygen node \<and> distinct matched'
    \<and> (missing' = missing \<or> found_lines keygen node \<subseteq> set matched \<and> missing' \<noteq> [])"
proof (cases node)
  case (JObj n)
  with assms(1) obtain hm where hm: "host_markers n = Inr hm"
    by (auto simp: extract_node_def rbind_eq_Inr)
  show ?thesis
  proof (cases hm)
    case None
    with assms JObj hm show ?thesis by (simp add: extract_node_def found_lines_def)
  next
    case (Some h)
    obtain host markers where h: "h = (host, markers)" by fastforce
    let ?ls = "concat (map (\<lambda>m. key_lines (keygen m)) markers)"
    obtain m' found where f: "fold add_found ?ls (matched, []) = (m', found)" by fastforce
    have "m' = matched'" "missing' = (if found = [] then missing @ [host] else missing)"
      using assms(1) JObj hm Some h f by (auto simp: extract_node_def)
    moreover have "found_lines keygen node = set ?ls"
      by (simp add: found_lines_def JObj hm Some h)
    ultimately show ?thesis using fold_add_found [OF f assms(2)] by auto
  qed
qed (use assms in \<open>auto simp: extract_node_def found_lines_def\<close>)

lemma extract_run:
  assumes "rfold (extract_node keygen) nodes (matched, missing) = Inr (matched', missing')"
    and "distinct matched"
  shows "set matched' = set matched \<union> (\<Union>n \<in> set nodes. found_lines keygen n) \<and> distinct matched'
    \<and> (missing' = [] \<longrightarrow> missing = [])"
  using assms
proof (induction nodes arbitrary: matched missing)
  case (Cons n nodes)
  from Cons.prems(1) obtain m1 x1 where
    s: "extract_node keygen n (matched, missing) = Inr (m1, x1)"
    and r: "rfold (extract_node keygen) nodes (m1, x1) = Inr (matched', missing')"
    by (auto simp: rbind_eq_Inr)
  from extract_node_step [OF s Cons.prems(2)] have d: "distinct m1"
    and m: "set m1 = set matched \<union> found_lines keygen n" and x: "x1 = missing \<or> x1 \<noteq> []" by auto
  from Cons.IH [OF r d] m x show ?case by auto
qed simp

text \<open>
  The extraction collects, without repetition, exactly the rows that \<open>ssh-keygen\<close> finds for
  the hosts of the nodes, and its payload is one line for each of them.
\<close>

theorem extract_collects_found:
  assumes "extract_fleet_host_trust keygen nodes = Inr t"
  shows "set (t_matched t) = (\<Union>n \<in> set nodes. found_lines keygen n) \<and> distinct (t_matched t)
    \<and> t_payload t = concat (map (\<lambda>l. l @ [LF]) (t_matched t))
    \<and> (t_warnings t = [] \<longleftrightarrow> t_missing_hosts t = [])"
proof -
  have j: "ls \<noteq> [] \<Longrightarrow> join [LF] ls @ [LF] = concat (map (\<lambda>l. l @ [LF]) ls)" for ls
    by (induction ls rule: induct_list012) auto
  from assms obtain m x where "rfold (extract_node keygen) nodes ([], []) = Inr (m, x)"
    and t: "t = \<lparr>t_matched = m, t_missing_hosts = x,
          t_warnings = (if x = [] then [] else [''TRUST_MIGRATION_REQUIRED'']),
          t_payload = (if m = [] then [] else join [LF] m @ [LF])\<rparr>"
    by (auto simp: extract_fleet_host_trust_def rbind_eq_Inr)
  from extract_run [OF this(1)] t j [of m] show ?thesis by auto
qed

definition ex_keygen :: "string \<Rightarrow> string option" where
  "ex_keygen m = (if m = ''h1'' then Some (''# Host'' @ [LF] @ ''h1 ssh-rsa AA'' @ [LF]) else None)"

definition ex_trust_nodes :: "json list" where
  "ex_trust_nodes = [JObj [(''ssh_host'', JStr ''h1'')], JObj [(''ssh_host'', JStr ''h1''), (''ssh_port'', JInt 2222)]]"

theorem extract_collects_found_witness:
  "case extract_fleet_host_trust ex_keygen ex_trust_nodes of Inl _ \<Rightarrow> False
   | Inr t \<Rightarrow> t_matched t = [''h1 ssh-rsa AA''] \<and> distinct (t_matched t)"
proof -
  have "case extract_fleet_host_trust ex_keygen ex_trust_nodes of Inl _ \<Rightarrow> False
   | Inr t \<Rightarrow> t_matched t = [''h1 ssh-rsa AA'']" by code_simp
  then obtain t where "extract_fleet_host_trust ex_keygen ex_trust_nodes = Inr t"
    "t_matched t = [''h1 ssh-rsa AA'']" by (auto split: sum.splits)
  with extract_collects_found [OF this(1)] show ?thesis by simp
qed

text \<open>
  A second node on a host whose rows were already collected is reported as missing, although the
  rows that authenticate it were found.
\<close>

lemma shared_host_reported_missing:
  "map_sum id (\<lambda>t. (t_missing_hosts t, t_warnings t)) (extract_fleet_host_trust ex_keygen ex_trust_nodes)
    = Inr ([''h1''], [''TRUST_MIGRATION_REQUIRED''])
   \<and> list_all (\<lambda>n. ''h1 ssh-rsa AA'' \<in> found_lines ex_keygen n) ex_trust_nodes"
  by code_simp

end
