(* ===== verification/Observation.thy ===== *)
theory Observation
  imports Trust AuditExport
begin

text \<open>
  Observation of a node over SSH: the JSON transport of \<open>lib/ssh_transport.py\<close>, the document
  checks of \<open>lib/observation/schema_validate.py\<close>, and the two fetch protocols of
  \<open>lib/observation/capabilities.py\<close> and \<open>lib/observation/telemetry.py\<close>.

  The runs of remote commands are inputs; \<open>loads\<close> is \<open>json.loads\<close> refusing non-finite numbers.
\<close>

section \<open>Transport\<close>

datatype tstate = OK | ERROR | AUTH_FAILED | UNSUPPORTED

definition ssh_failure_detail :: "captured \<Rightarrow> string" where
  "ssh_failure_detail p =
     (if strip (cap_stderr p) \<noteq> [] then strip (cap_stderr p)
      else if strip (cap_stdout p) \<noteq> [] then strip (cap_stdout p)
      else ''exit '' @ int_text (cap_code p))"

definition AUTH_MARKERS :: "string list" where
  "AUTH_MARKERS = [''permission denied'', ''authentication failed'', ''publickey'',
     ''no mutual signature'', ''sign_and_send_pubkey'']"

definition is_auth_failure :: "string \<Rightarrow> bool" where
  "is_auth_failure detail = list_ex (\<lambda>m. contains m (lower detail)) AUTH_MARKERS"

definition is_unsupported_remote :: "string \<Rightarrow> int \<Rightarrow> bool" where
  "is_unsupported_remote detail returncode =
     (returncode = 127 \<or> contains ''unknown vcl command'' (lower detail)
      \<or> contains ''unknown command:'' (lower detail) \<or> contains ''command not found'' (lower detail))"

definition parse_stdout_json ::
    "(string \<Rightarrow> json option) \<Rightarrow> string \<Rightarrow> nat option \<Rightarrow> dict option \<times> string" where
  "parse_stdout_json loads raw max_stdout_bytes =
     (if (case max_stdout_bytes of None \<Rightarrow> False | Some m \<Rightarrow> m < utf8_len raw)
      then (None, ''response exceeds '' @ nat_text (the max_stdout_bytes) @ '' bytes (raw ''
              @ nat_text (utf8_len raw) @ '')'')
      else if strip raw = [] then (None, ''remote JSON missing or invalid'')
      else (case loads (strip raw) of
          Some (JObj d) \<Rightarrow> (Some d, [])
        | _ \<Rightarrow> (None, ''remote JSON missing or invalid'')))"

definition first_text :: "string list \<Rightarrow> string" where
  "first_text ts = (case find (\<lambda>t. t \<noteq> []) ts of Some t \<Rightarrow> t | None \<Rightarrow> last ts)"

text \<open>The result of \<open>ssh_remote_json_for_class\<close>; the flags are its keyword arguments.\<close>

definition ssh_remote_json_for_class ::
    "(string \<Rightarrow> json option) \<Rightarrow> bool \<Rightarrow> bool \<Rightarrow> nat option \<Rightarrow> captured
      \<Rightarrow> tstate \<times> dict option \<times> string" where
  "ssh_remote_json_for_class loads require_exit_0 unsupported_on_missing max_stdout_bytes p =
     (let detail = ssh_failure_detail p; rc = cap_code p;
          unsupported = (unsupported_on_missing \<and> is_unsupported_remote detail rc)
      in if max_stdout_bytes \<noteq> None \<and> contains ''stdout exceeds'' (lower detail)
         then (ERROR, None, ''response exceeds '' @ nat_text (the max_stdout_bytes) @ '' bytes'')
         else if rc = 255
         then (if is_auth_failure detail then (AUTH_FAILED, None, detail) else (ERROR, None, detail))
         else if unsupported \<and> rc \<noteq> 0 then (UNSUPPORTED, None, detail)
         else (case parse_stdout_json loads (cap_stdout p) max_stdout_bytes of
             (None, parse_detail) \<Rightarrow>
               if unsupported \<and> rc \<noteq> 0 then (UNSUPPORTED, None, detail)
               else (ERROR, None, first_text [parse_detail, detail, ''remote JSON missing or invalid''])
           | (Some d, _) \<Rightarrow>
               if require_exit_0 \<and> rc \<noteq> 0
               then (if unsupported then (UNSUPPORTED, None, detail)
                     else (ERROR, Some d, first_text [detail, ''remote exit '' @ int_text rc]))
               else if rc \<noteq> 0 then (ERROR, Some d, first_text [detail, ''remote exit '' @ int_text rc])
               else (OK, Some d, detail)))"

section \<open>Lexical forms\<close>

text \<open>\<open>UUID_RE\<close> of the validator ignores case.\<close>

definition uuid_any_case :: "json \<Rightarrow> bool" where
  "uuid_any_case v = (case v of
     JStr s \<Rightarrow> list_all2 (\<lambda>t c. if t = CHR ''x'' then is_hex c else c = CHR ''-'')
       ''xxxxxxxx-xxxx-xxxx-xxxx-xxxxxxxxxxxx'' s
   | _ \<Rightarrow> False)"

definition digits_ok :: "string \<Rightarrow> bool" where
  "digits_ok s = (s \<noteq> [] \<and> list_all is_digit s)"

definition version_re :: "string \<Rightarrow> bool" where
  "version_re s =
     (let core = takeWhile (\<lambda>c. c \<noteq> CHR ''-'') s; rest = dropWhile (\<lambda>c. c \<noteq> CHR ''-'') s;
          ps = split_on CHR ''.'' core
      in length ps = 3 \<and> list_all digits_ok ps
         \<and> (rest = [] \<or> (tl rest \<noteq> [] \<and> list_all (\<lambda>c. alnum c \<or> c = CHR ''.'' \<or> c = CHR ''-'') (tl rest))))"

definition capability_re :: "string \<Rightarrow> bool" where
  "capability_re s = (case split_on CHR ''/'' s of
     [a, v] \<Rightarrow> a \<noteq> [] \<and> is_lower (hd a)
       \<and> list_all (\<lambda>c. is_lower c \<or> is_digit c \<or> c = CHR ''_'' \<or> c = CHR ''-'') a
       \<and> v \<noteq> [] \<and> hd v = CHR ''v'' \<and> digits_ok (tl v)
   | _ \<Rightarrow> False)"

text \<open>
  \<open>RFC3339_RE\<close> and \<open>datetime.fromisoformat\<close>: the fraction has 1 to 9 digits, the zone is \<open>Z\<close> or
  an offset, and the fields name an instant.
\<close>

definition zone_ok :: "string \<Rightarrow> bool" where
  "zone_ok z = (z = ''Z'' \<or> (length z = 6 \<and> (z ! 0 = CHR ''+'' \<or> z ! 0 = CHR ''-'') \<and> z ! 3 = CHR '':''
     \<and> (case (field 1 2 z, field 4 2 z) of
          (Some oh, Some om) \<Rightarrow> oh * 3600 + om * 60 < 86400 | _ \<Rightarrow> False)))"

definition date_time_ok :: "string \<Rightarrow> bool" where
  "date_time_ok s = (19 \<le> length s \<and> s ! 4 = CHR ''-'' \<and> s ! 7 = CHR ''-'' \<and> s ! 10 = CHR ''T''
     \<and> s ! 13 = CHR '':'' \<and> s ! 16 = CHR '':''
     \<and> (case (field 0 4 s, field 5 2 s, field 8 2 s, field 11 2 s, field 14 2 s, field 17 2 s) of
          (Some y, Some mo, Some d, Some h, Some mi, Some sec) \<Rightarrow>
            1 \<le> y \<and> 1 \<le> mo \<and> mo \<le> 12 \<and> 1 \<le> d \<and> d \<le> days_in_month y mo \<and> h \<le> 23 \<and> mi \<le> 59 \<and> sec \<le> 59
        | _ \<Rightarrow> False))"

definition is_rfc3339 :: "json \<Rightarrow> bool" where
  "is_rfc3339 v = (case v of
     JStr s \<Rightarrow> date_time_ok s \<and>
       (case drop 19 s of
          c # r \<Rightarrow>
            if c = CHR ''.'' then
              (let ds = takeWhile is_digit r in
               ds \<noteq> [] \<and> length ds \<le> 9 \<and> zone_ok (dropWhile is_digit r))
            else zone_ok (c # r)
        | [] \<Rightarrow> False)
   | _ \<Rightarrow> False)"

definition is_int_nonneg :: "json \<Rightarrow> bool" where
  "is_int_nonneg v = (case v of JInt n \<Rightarrow> 0 \<le> n | _ \<Rightarrow> False)"

definition is_number_nonneg :: "json \<Rightarrow> bool" where
  "is_number_nonneg v = (case v of
     JInt n \<Rightarrow> 0 \<le> n | JFloat (PyFloat n k t) \<Rightarrow> 0 \<le> n | _ \<Rightarrow> False)"

section \<open>Document checks\<close>

definition extra_keys :: "dict \<Rightarrow> string list \<Rightarrow> string list" where
  "extra_keys d allowed = sort (remdups (filter (\<lambda>k. k \<notin> set allowed) (map fst d)))"

definition unless :: "bool \<Rightarrow> string \<Rightarrow> string list" where
  "unless b msg = (if b then [] else [msg])"

definition reject_extra :: "dict \<Rightarrow> string list \<Rightarrow> string \<Rightarrow> string list" where
  "reject_extra d allowed msg =
     (let extra = extra_keys d allowed in
      unless (extra = []) (msg @ '': '' @ py_repr (JList (map JStr extra))))"

definition opt_int_nonneg :: "json \<Rightarrow> string \<Rightarrow> string list" where
  "opt_int_nonneg v path = unless (v = JNull \<or> is_int_nonneg v) (''invalid '' @ path)"

definition opt_rfc3339 :: "json \<Rightarrow> string \<Rightarrow> string list" where
  "opt_rfc3339 v path = unless (v = JNull \<or> is_rfc3339 v) (''invalid '' @ path)"

text \<open>The loop over the capabilities; \<open>seen\<close> holds the items accepted so far.\<close>

fun check_caps :: "string list \<Rightarrow> json list \<Rightarrow> string list" where
  "check_caps seen [] = []"
| "check_caps seen (v # vs) = (case v of
     JStr s \<Rightarrow>
       if \<not> capability_re s then (''invalid capability: '' @ repr_str s) # check_caps seen vs
       else if s \<in> set seen then (''duplicate capability: '' @ repr_str s) # check_caps seen vs
       else check_caps (s # seen) vs
   | _ \<Rightarrow> (''invalid capability: '' @ py_repr v) # check_caps seen vs)"

definition validate_capabilities_v1 :: "json \<Rightarrow> string list" where
  "validate_capabilities_v1 doc = (case doc of
     JObj d \<Rightarrow>
       unless (dget ''schema'' d = JStr ''capabilities/v1'') ''schema must be capabilities/v1''
       @ unless (case dget ''node_version'' d of JStr s \<Rightarrow> version_re s | _ \<Rightarrow> False) ''invalid node_version''
       @ (case dget ''capabilities'' d of
            JList caps \<Rightarrow> if 64 < length caps then [''capabilities exceeds max items'']
              else check_caps [] caps
          | _ \<Rightarrow> [''capabilities must be an array''])
       @ reject_extra d [''schema'', ''node_version'', ''capabilities''] ''unexpected fields''
   | _ \<Rightarrow> [''expected object''])"

definition check_numbers :: "(json \<Rightarrow> bool) \<Rightarrow> string \<Rightarrow> string list \<Rightarrow> dict \<Rightarrow> string list" where
  "check_numbers P name keys d =
     concat (map (\<lambda>k. unless (P (dget k d)) (''invalid '' @ name @ ''.'' @ k)) keys)"

definition section_of :: "string \<Rightarrow> string list \<Rightarrow> (dict \<Rightarrow> string list) \<Rightarrow> dict \<Rightarrow> string list" where
  "section_of name allowed chk d = (case dget name d of
     JObj o' \<Rightarrow> reject_extra o' allowed (''unexpected fields in '' @ name) @ chk o'
   | _ \<Rightarrow> [''invalid '' @ name])"

definition check_mount :: "dict \<Rightarrow> string list" where
  "check_mount d = unless (case dget ''mount'' d of JStr s \<Rightarrow> 1 \<le> length s \<and> length s \<le> 256 | _ \<Rightarrow> False)
     ''invalid filesystem.mount''"

definition check_sing_box :: "dict \<Rightarrow> string list" where
  "check_sing_box d = unless (is_bool (dget ''active'' d)) ''invalid sing_box.active''
     @ opt_int_nonneg (dget ''connection_count'' d) ''sing_box.connection_count''
     @ opt_int_nonneg (dget ''restart_count'' d) ''sing_box.restart_count''
     @ opt_rfc3339 (dget ''last_restart_at'' d) ''sing_box.last_restart_at''"

definition check_accountd :: "dict \<Rightarrow> string list" where
  "check_accountd d = unless (is_bool (dget ''active'' d)) ''invalid accountd.active''
     @ opt_int_nonneg (dget ''last_poll_age_seconds'' d) ''accountd.last_poll_age_seconds''
     @ opt_int_nonneg (dget ''export_seq'' d) ''accountd.export_seq''
     @ opt_int_nonneg (dget ''last_event_age_seconds'' d) ''accountd.last_event_age_seconds''"

definition TELEMETRY_KEYS :: "string list" where
  "TELEMETRY_KEYS = [''schema'', ''node_id'', ''instance_id'', ''observed_at'', ''uptime_seconds'',
     ''load'', ''memory'', ''filesystem'', ''network'', ''sing_box'', ''accountd'']"

definition validate_telemetry_v1 :: "json \<Rightarrow> string list" where
  "validate_telemetry_v1 doc = (case doc of
     JObj d \<Rightarrow>
       unless (dget ''schema'' d = JStr ''telemetry/v1'') ''schema must be telemetry/v1''
       @ unless (uuid_any_case (dget ''node_id'' d)) ''invalid node_id''
       @ unless (uuid_any_case (dget ''instance_id'' d)) ''invalid instance_id''
       @ unless (is_rfc3339 (dget ''observed_at'' d)) ''invalid observed_at''
       @ unless (is_int_nonneg (dget ''uptime_seconds'' d)) ''invalid uptime_seconds''
       @ section_of ''load'' [''load1'', ''load5'', ''load15'']
           (check_numbers is_number_nonneg ''load'' [''load1'', ''load5'', ''load15'']) d
       @ section_of ''memory'' [''total_bytes'', ''used_bytes'']
           (check_numbers is_int_nonneg ''memory'' [''total_bytes'', ''used_bytes'']) d
       @ section_of ''filesystem'' [''mount'', ''total_bytes'', ''used_bytes'']
           (\<lambda>o'. check_mount o'
              @ check_numbers is_int_nonneg ''filesystem'' [''total_bytes'', ''used_bytes''] o') d
       @ section_of ''network'' [''rx_bytes'', ''tx_bytes'']
           (check_numbers is_int_nonneg ''network'' [''rx_bytes'', ''tx_bytes'']) d
       @ section_of ''sing_box'' [''active'', ''connection_count'', ''restart_count'', ''last_restart_at'']
           check_sing_box d
       @ section_of ''accountd''
           [''active'', ''last_poll_age_seconds'', ''export_seq'', ''last_event_age_seconds'']
           check_accountd d
       @ reject_extra d TELEMETRY_KEYS ''unexpected fields''
   | _ \<Rightarrow> [''expected object''])"

section \<open>Fetch protocols\<close>

text \<open>\<open>json.dumps(payload, separators=(",", ":"), ensure_ascii=False)\<close>.\<close>

definition json_char :: "char \<Rightarrow> string" where
  "json_char c =
     (let bs = char_of (92 :: nat) in
      if code c = 34 \<or> code c = 92 then [bs, c]
      else if code c = 10 then [bs, CHR ''n''] else if code c = 13 then [bs, CHR ''r'']
      else if code c = 9 then [bs, CHR ''t''] else if code c = 12 then [bs, CHR ''f'']
      else if code c = 8 then [bs, CHR ''b'']
      else if code c < 32 then [bs] @ ''u00'' @ [hex_digit (code c div 16), hex_digit (code c mod 16)]
      else [c])"

definition json_string :: "string \<Rightarrow> string" where
  "json_string s = [DQ] @ concat (map json_char s) @ [DQ]"

fun json_compact :: "json \<Rightarrow> string" where
  "json_compact JNull = ''null''"
| "json_compact (JBool b) = (if b then ''true'' else ''false'')"
| "json_compact (JInt n) = int_text n"
| "json_compact (JFloat f) = (case f of PyFloat n k t \<Rightarrow> t
     | PyInf neg \<Rightarrow> if neg then ''-Infinity'' else ''Infinity'' | PyNaN \<Rightarrow> ''NaN'')"
| "json_compact (JStr s) = json_string s"
| "json_compact (JList xs) = ''['' @ join '','' (map json_compact xs) @ '']''"
| "json_compact (JObj kvs) =
     ''{'' @ join '','' (map (\<lambda>p. json_string (fst p) @ '':'' @ json_compact (snd p)) kvs) @ ''}''"

record obs =
  ob_state :: tstate
  ob_detail :: string
  ob_version :: json
  ob_capabilities :: "json list"
  ob_payload :: "dict option"

definition obs_fail :: "tstate \<Rightarrow> string \<Rightarrow> obs" where
  "obs_fail st detail = \<lparr>ob_state = st, ob_detail = detail, ob_version = JNull, ob_capabilities = [],
     ob_payload = None\<rparr>"

definition CAPABILITIES_MAX_BYTES :: nat where
  "CAPABILITIES_MAX_BYTES = 4096"

definition TELEMETRY_MAX_BYTES :: nat where
  "TELEMETRY_MAX_BYTES = 65536"

definition IDENTITY_MAX_BYTES :: nat where
  "IDENTITY_MAX_BYTES = 4096"

definition fetch_capabilities :: "tstate \<times> dict option \<times> string \<Rightarrow> obs" where
  "fetch_capabilities r = (case r of
     (UNSUPPORTED, _, detail) \<Rightarrow>
       obs_fail UNSUPPORTED (first_text [detail, ''capabilities not available on node''])
   | (AUTH_FAILED, _, detail) \<Rightarrow> obs_fail AUTH_FAILED detail
   | (ERROR, _, detail) \<Rightarrow> obs_fail ERROR (first_text [detail, ''capabilities fetch failed''])
   | (OK, None, detail) \<Rightarrow> obs_fail ERROR (first_text [detail, ''capabilities fetch failed''])
   | (OK, Some d, detail) \<Rightarrow>
       if utf8_len (json_compact (JObj d)) > CAPABILITIES_MAX_BYTES
       then obs_fail ERROR ''capabilities response exceeds size limit''
       else (let errors = validate_capabilities_v1 (JObj d) in
         if errors \<noteq> [] then obs_fail ERROR (join ''; '' errors)
         else \<lparr>ob_state = OK, ob_detail = [], ob_version = dget ''node_version'' d,
                ob_capabilities = (case dget ''capabilities'' d of JList l \<Rightarrow> l | _ \<Rightarrow> []),
                ob_payload = Some d\<rparr>))"

definition node_declares_capability :: "obs \<Rightarrow> string \<Rightarrow> bool" where
  "node_declares_capability r capability = (ob_state r = OK \<and> JStr capability \<in> set (ob_capabilities r))"

definition fetch_telemetry ::
    "json \<Rightarrow> obs \<Rightarrow> tstate \<times> dict option \<times> string \<Rightarrow> tstate \<times> dict option \<times> string \<Rightarrow> obs" where
  "fetch_telemetry registry_node_id caps snap_run id_run =
     (case ob_state caps of
        UNSUPPORTED \<Rightarrow> obs_fail UNSUPPORTED (first_text [ob_detail caps, ''capabilities not available''])
      | AUTH_FAILED \<Rightarrow> obs_fail AUTH_FAILED (first_text [ob_detail caps, ''observe auth failed''])
      | ERROR \<Rightarrow> obs_fail ERROR (first_text [ob_detail caps, ''capability negotiation failed''])
      | OK \<Rightarrow>
        if JStr ''telemetry/v1'' \<notin> set (ob_capabilities caps)
        then obs_fail UNSUPPORTED ''node does not declare telemetry/v1''
        else (case snap_run of
          (UNSUPPORTED, _, detail) \<Rightarrow>
            obs_fail UNSUPPORTED (first_text [detail, ''telemetry not available on node''])
        | (AUTH_FAILED, _, detail) \<Rightarrow> obs_fail AUTH_FAILED detail
        | (ERROR, _, detail) \<Rightarrow> obs_fail ERROR (first_text [detail, ''telemetry fetch failed''])
        | (OK, None, detail) \<Rightarrow> obs_fail ERROR (first_text [detail, ''telemetry fetch failed''])
        | (OK, Some d, detail) \<Rightarrow>
            if utf8_len (json_compact (JObj d)) > TELEMETRY_MAX_BYTES
            then obs_fail ERROR ''telemetry response exceeds size limit''
            else if validate_telemetry_v1 (JObj d) \<noteq> []
            then obs_fail ERROR (join ''; '' (validate_telemetry_v1 (JObj d)))
            else (case id_run of
              (AUTH_FAILED, _, idd) \<Rightarrow> obs_fail AUTH_FAILED (first_text [idd, ''observe auth failed''])
            | (OK, Some ident, idd) \<Rightarrow>
                if dget ''node_id'' ident \<noteq> registry_node_id
                then obs_fail ERROR ''remote identity node_id does not match registry''
                else if dget ''node_id'' d \<noteq> dget ''node_id'' ident
                then obs_fail ERROR ''telemetry node_id does not match remote identity''
                else if dget ''instance_id'' d \<noteq> dget ''instance_id'' ident
                then obs_fail ERROR ''telemetry instance_id does not match remote identity''
                else \<lparr>ob_state = OK, ob_detail = [], ob_version = JNull, ob_capabilities = [],
                       ob_payload = Some d\<rparr>
            | (_, _, idd) \<Rightarrow> obs_fail ERROR (first_text [idd, ''identity fetch failed'']))))"

text \<open>The whole observation of a node, from the three remote runs to the snapshot.\<close>

definition observe_node ::
    "(string \<Rightarrow> json option) \<Rightarrow> json \<Rightarrow> captured \<Rightarrow> captured \<Rightarrow> captured \<Rightarrow> obs" where
  "observe_node loads registry_node_id caps_p snap_p id_p =
     fetch_telemetry registry_node_id
       (fetch_capabilities (ssh_remote_json_for_class loads False True (Some CAPABILITIES_MAX_BYTES) caps_p))
       (ssh_remote_json_for_class loads False True (Some TELEMETRY_MAX_BYTES) snap_p)
       (ssh_remote_json_for_class loads True False (Some IDENTITY_MAX_BYTES) id_p)"

end
