(* ===== verification/ObservationInv.thy ===== *)
theory ObservationInv
  imports Observation
begin

text \<open>
  The telemetry check against the published JSON schema, and what an accepted observation says
  about the node.  \<open>conforms\<close> interprets the fragment of JSON Schema that
  \<open>schemas/telemetry/v1.schema.json\<close> uses, formats asserted; an integer is a JSON number
  without fraction part or exponent.
\<close>

section \<open>The schema\<close>

datatype sch =
    SInt0 | SNum0 | SBool | SConst string | SText nat nat | SUuid | SDateTime
  | SNullable sch
  | SObj "(string \<times> bool \<times> sch) list"

fun conforms :: "sch \<Rightarrow> json \<Rightarrow> bool" where
  "conforms SInt0 v = is_int_nonneg v"
| "conforms SNum0 v = is_number_nonneg v"
| "conforms SBool v = is_bool v"
| "conforms (SConst s) v = (v = JStr s)"
| "conforms (SText lo hi) v = (case v of JStr s \<Rightarrow> lo \<le> length s \<and> length s \<le> hi | _ \<Rightarrow> False)"
| "conforms SUuid v = uuid_any_case v"
| "conforms SDateTime v = is_rfc3339 v"
| "conforms (SNullable s) v = (v = JNull \<or> conforms s v)"
| "conforms (SObj fs) v = (case v of
     JObj d \<Rightarrow> list_all (\<lambda>k. k \<in> set (map fst fs)) (map fst d)
       \<and> list_all (\<lambda>f. if has_key (fst f) d then conforms (snd (snd f)) (dget (fst f) d)
           else \<not> fst (snd f)) fs
   | _ \<Rightarrow> False)"

definition telemetry_v1_fields :: "(string \<times> bool \<times> sch) list" where
  "telemetry_v1_fields =
     [(''schema'', True, SConst ''telemetry/v1''), (''node_id'', True, SUuid),
      (''instance_id'', True, SUuid), (''observed_at'', True, SDateTime),
      (''uptime_seconds'', True, SInt0),
      (''load'', True, SObj [(''load1'', True, SNum0), (''load5'', True, SNum0), (''load15'', True, SNum0)]),
      (''memory'', True, SObj [(''total_bytes'', True, SInt0), (''used_bytes'', True, SInt0)]),
      (''filesystem'', True, SObj [(''mount'', True, SText 1 256), (''total_bytes'', True, SInt0),
         (''used_bytes'', True, SInt0)]),
      (''network'', True, SObj [(''rx_bytes'', True, SInt0), (''tx_bytes'', True, SInt0)]),
      (''sing_box'', True, SObj [(''active'', True, SBool), (''connection_count'', False, SNullable SInt0),
         (''restart_count'', False, SNullable SInt0), (''last_restart_at'', False, SNullable SDateTime)]),
      (''accountd'', True, SObj [(''active'', True, SBool),
         (''last_poll_age_seconds'', False, SNullable SInt0), (''export_seq'', False, SNullable SInt0),
         (''last_event_age_seconds'', False, SNullable SInt0)])]"

definition telemetry_v1_schema :: sch where
  "telemetry_v1_schema = SObj telemetry_v1_fields"

section \<open>The checks as predicates\<close>

lemma unless_Nil [simp]: "unless b m = [] \<longleftrightarrow> b"
  by (simp add: unless_def)

lemma reject_extra_Nil [simp]:
  "reject_extra d allowed m = [] \<longleftrightarrow> list_all (\<lambda>k. k \<in> set allowed) (map fst d)"
proof -
  have "extra_keys d allowed = [] \<longleftrightarrow> filter (\<lambda>k. k \<notin> set allowed) (map fst d) = []"
    unfolding extra_keys_def by (metis remdups_eq_nil_iff set_empty set_sort)
  then show ?thesis by (simp add: reject_extra_def Let_def filter_empty_conv list_all_iff)
qed

lemma opt_int_Nil [simp]: "opt_int_nonneg v p = [] \<longleftrightarrow> v = JNull \<or> is_int_nonneg v"
  by (simp add: opt_int_nonneg_def)

lemma opt_rfc_Nil [simp]: "opt_rfc3339 v p = [] \<longleftrightarrow> v = JNull \<or> is_rfc3339 v"
  by (simp add: opt_rfc3339_def)

lemma section_of_Nil:
  "section_of name allowed chk d = [] \<longleftrightarrow>
     (case dget name d of JObj s \<Rightarrow> list_all (\<lambda>k. k \<in> set allowed) (map fst s) \<and> chk s = [] | _ \<Rightarrow> False)"
  by (simp add: section_of_def split: json.split)

lemma check_numbers_Nil:
  "check_numbers P name keys d = [] \<longleftrightarrow> list_all (\<lambda>k. P (dget k d)) keys"
  by (induction keys) (simp_all add: check_numbers_def)

lemma dget_no_key: "\<not> has_key k d \<Longrightarrow> dget k d = JNull"
  by (simp add: dget_def has_key_def)

lemma JNull_fails [simp]:
  "\<not> is_int_nonneg JNull" "\<not> is_number_nonneg JNull" "\<not> is_bool JNull" "\<not> uuid_any_case JNull"
  "\<not> is_rfc3339 JNull"
  by (simp_all add: is_int_nonneg_def is_number_nonneg_def uuid_any_case_def is_rfc3339_def)

text \<open>A required property, and an optional one that may be null, by the value \<open>get\<close> returns.\<close>

lemma required_prop:
  assumes "\<not> conforms s JNull"
  shows "(if has_key k d then conforms s (dget k d) else \<not> True) \<longleftrightarrow> conforms s (dget k d)"
  using assms dget_no_key [of k d] by auto

lemma nullable_prop:
  "(if has_key k d then conforms (SNullable s) (dget k d) else \<not> False)
     \<longleftrightarrow> dget k d = JNull \<or> conforms s (dget k d)"
  using dget_no_key [of k d] by auto

lemma SObj_required:
  "list_all (\<lambda>f. fst (snd f) \<and> \<not> conforms (snd (snd f)) JNull) fs \<Longrightarrow>
   list_all (\<lambda>f. if has_key (fst f) d then conforms (snd (snd f)) (dget (fst f) d) else \<not> fst (snd f)) fs
     \<longleftrightarrow> list_all (\<lambda>f. conforms (snd (snd f)) (dget (fst f) d)) fs"
  by (induction fs) (auto simp: dget_no_key)

lemma conforms_required:
  assumes "list_all (\<lambda>f. fst (snd f) \<and> \<not> conforms (snd (snd f)) JNull) fs"
  shows "conforms (SObj fs) v \<longleftrightarrow> (case v of
     JObj d \<Rightarrow> list_all (\<lambda>k. k \<in> set (map fst fs)) (map fst d)
       \<and> list_all (\<lambda>f. conforms (snd (snd f)) (dget (fst f) d)) fs | _ \<Rightarrow> False)"
  unfolding conforms.simps SObj_required [OF assms] ..

lemma section_load:
  "section_of ''load'' [''load1'', ''load5'', ''load15'']
     (check_numbers is_number_nonneg ''load'' [''load1'', ''load5'', ''load15'']) d = []
   \<longleftrightarrow> conforms (SObj [(''load1'', True, SNum0), (''load5'', True, SNum0), (''load15'', True, SNum0)])
     (dget ''load'' d)"
  by (subst conforms_required) (auto simp: section_of_Nil check_numbers_Nil split: json.split)

lemma section_two_ints:
  "section_of name [a, b] (check_numbers is_int_nonneg name [a, b]) d = []
   \<longleftrightarrow> conforms (SObj [(a, True, SInt0), (b, True, SInt0)]) (dget name d)"
  by (subst conforms_required) (auto simp: section_of_Nil check_numbers_Nil split: json.split)

lemma section_filesystem:
  "section_of ''filesystem'' [''mount'', ''total_bytes'', ''used_bytes'']
     (\<lambda>s. check_mount s @ check_numbers is_int_nonneg ''filesystem'' [''total_bytes'', ''used_bytes''] s) d = []
   \<longleftrightarrow> conforms (SObj [(''mount'', True, SText 1 256), (''total_bytes'', True, SInt0),
         (''used_bytes'', True, SInt0)]) (dget ''filesystem'' d)"
  by (subst conforms_required) (auto simp: section_of_Nil check_numbers_Nil check_mount_def split: json.split)

lemma SObj_active:
  "conforms (SObj [(a, True, SBool), (k1, False, SNullable s1), (k2, False, SNullable s2),
       (k3, False, SNullable s3)]) v
   \<longleftrightarrow> (case v of
     JObj d \<Rightarrow> list_all (\<lambda>k. k \<in> set [a, k1, k2, k3]) (map fst d) \<and> is_bool (dget a d)
       \<and> (dget k1 d = JNull \<or> conforms s1 (dget k1 d)) \<and> (dget k2 d = JNull \<or> conforms s2 (dget k2 d))
       \<and> (dget k3 d = JNull \<or> conforms s3 (dget k3 d))
   | _ \<Rightarrow> False)"
proof (cases v)
  case (JObj d)
  have a: "(if has_key a d then is_bool (dget a d) else False) \<longleftrightarrow> is_bool (dget a d)"
    using dget_no_key [of a d] by auto
  show ?thesis unfolding JObj using dget_no_key [of k1 d] dget_no_key [of k2 d] dget_no_key [of k3 d] a
    by auto
qed simp_all

lemma section_sing_box:
  "section_of ''sing_box'' [''active'', ''connection_count'', ''restart_count'', ''last_restart_at'']
     check_sing_box d = []
   \<longleftrightarrow> conforms (SObj [(''active'', True, SBool), (''connection_count'', False, SNullable SInt0),
         (''restart_count'', False, SNullable SInt0), (''last_restart_at'', False, SNullable SDateTime)])
       (dget ''sing_box'' d)"
  unfolding SObj_active by (cases "dget ''sing_box'' d") (simp_all add: section_of_Nil check_sing_box_def)

lemma section_accountd:
  "section_of ''accountd'' [''active'', ''last_poll_age_seconds'', ''export_seq'', ''last_event_age_seconds'']
     check_accountd d = []
   \<longleftrightarrow> conforms (SObj [(''active'', True, SBool), (''last_poll_age_seconds'', False, SNullable SInt0),
         (''export_seq'', False, SNullable SInt0), (''last_event_age_seconds'', False, SNullable SInt0)])
       (dget ''accountd'' d)"
  unfolding SObj_active by (cases "dget ''accountd'' d") (simp_all add: section_of_Nil check_accountd_def)

lemma SObj_JNull [simp]: "\<not> conforms (SObj fs) JNull"
  by simp

lemma telemetry_validator_iff:
  "(validate_telemetry_v1 doc = []) = conforms telemetry_v1_schema doc"
proof (cases doc)
  case (JObj d)
  have req: "list_all (\<lambda>f. fst (snd f) \<and> \<not> conforms (snd (snd f)) JNull) telemetry_v1_fields"
    by (simp add: telemetry_v1_fields_def)
  have keys: "map fst telemetry_v1_fields = TELEMETRY_KEYS"
    by (simp add: telemetry_v1_fields_def TELEMETRY_KEYS_def)
  show ?thesis
    unfolding JObj telemetry_v1_schema_def conforms_required [OF req] json.case keys
    unfolding validate_telemetry_v1_def json.case append_is_Nil_conv unless_Nil
      section_load section_two_ints section_filesystem section_sing_box section_accountd reject_extra_Nil
      telemetry_v1_fields_def fst_conv snd_conv
    by (simp only: conforms.simps(1,4,6,7) conj_assoc conj_commute conj_left_commute list.pred_inject
        fst_conv snd_conv simp_thms)
qed (simp_all add: validate_telemetry_v1_def telemetry_v1_schema_def)


section \<open>Accepted observations\<close>

lemma first_text_fail [simp]: "ob_state (obs_fail st t) = st" "ob_payload (obs_fail st t) = None"
  by (simp_all add: obs_fail_def)

lemma fetch_telemetry_OK:
  assumes "ob_state (fetch_telemetry nid caps snap_run id_run) = OK"
  shows "\<exists>d t ident t'. snap_run = (OK, Some d, t) \<and> id_run = (OK, Some ident, t')
    \<and> ob_payload (fetch_telemetry nid caps snap_run id_run) = Some d
    \<and> node_declares_capability caps ''telemetry/v1'' \<and> validate_telemetry_v1 (JObj d) = []
    \<and> utf8_len (json_compact (JObj d)) \<le> TELEMETRY_MAX_BYTES
    \<and> dget ''node_id'' ident = nid \<and> dget ''node_id'' d = nid
    \<and> dget ''instance_id'' d = dget ''instance_id'' ident"
  using assms
  by (auto simp: fetch_telemetry_def node_declares_capability_def split: tstate.splits prod.splits
      option.splits if_splits)

lemma transport_OK:
  assumes "ssh_remote_json_for_class loads ex0 um (Some m) p = (OK, Some d, t)"
  shows "cap_code p = 0 \<and> loads (strip (cap_stdout p)) = Some (JObj d) \<and> utf8_len (cap_stdout p) \<le> m"
  using assms
  by (auto simp: ssh_remote_json_for_class_def Let_def parse_stdout_json_def
      split: if_splits option.splits json.splits)

lemma fetch_capabilities_declares:
  assumes "node_declares_capability (fetch_capabilities r) c"
  shows "\<exists>d t caps. r = (OK, Some d, t) \<and> validate_capabilities_v1 (JObj d) = []
    \<and> dget ''capabilities'' d = JList caps \<and> JStr c \<in> set caps"
  using assms
  by (auto simp: fetch_capabilities_def node_declares_capability_def Let_def
      split: tstate.splits prod.splits option.splits if_splits json.splits) metis

text \<open>
  A snapshot is accepted only when all three remote commands exited with zero within their
  byte limits, the node declared \<open>telemetry/v1\<close>, the snapshot conforms to the schema, and its
  node is the registered one and its instance the one the node identifies as.
\<close>

theorem observation_trustworthy:
  assumes "ob_state (observe_node loads nid caps_p snap_p id_p) = OK"
  shows "\<exists>d ident caps cl. ob_payload (observe_node loads nid caps_p snap_p id_p) = Some d
    \<and> loads (strip (cap_stdout snap_p)) = Some (JObj d) \<and> cap_code snap_p = 0
    \<and> utf8_len (cap_stdout snap_p) \<le> 65536 \<and> conforms telemetry_v1_schema (JObj d)
    \<and> loads (strip (cap_stdout caps_p)) = Some (JObj caps) \<and> cap_code caps_p = 0
    \<and> dget ''capabilities'' caps = JList cl \<and> JStr ''telemetry/v1'' \<in> set cl
    \<and> loads (strip (cap_stdout id_p)) = Some (JObj ident) \<and> cap_code id_p = 0
    \<and> dget ''node_id'' d = nid \<and> dget ''node_id'' ident = nid
    \<and> dget ''instance_id'' d = dget ''instance_id'' ident"
proof -
  let ?c = "ssh_remote_json_for_class loads False True (Some CAPABILITIES_MAX_BYTES) caps_p"
  let ?s = "ssh_remote_json_for_class loads False True (Some TELEMETRY_MAX_BYTES) snap_p"
  let ?i = "ssh_remote_json_for_class loads True False (Some IDENTITY_MAX_BYTES) id_p"
  from fetch_telemetry_OK [OF assms [unfolded observe_node_def]] obtain d t ident t' where
    s: "?s = (OK, Some d, t)" and i: "?i = (OK, Some ident, t')"
    and pay: "ob_payload (observe_node loads nid caps_p snap_p id_p) = Some d"
    and decl: "node_declares_capability (fetch_capabilities ?c) ''telemetry/v1''"
    and v: "validate_telemetry_v1 (JObj d) = []"
    and ids: "dget ''node_id'' ident = nid" "dget ''node_id'' d = nid"
      "dget ''instance_id'' d = dget ''instance_id'' ident"
    unfolding observe_node_def [symmetric] by blast
  from fetch_capabilities_declares [OF decl] obtain caps t'' cl where
    c: "?c = (OK, Some caps, t'')" "dget ''capabilities'' caps = JList cl" "JStr ''telemetry/v1'' \<in> set cl"
    by blast
  show ?thesis
    using transport_OK [OF s] transport_OK [OF i] transport_OK [OF c(1)] pay ids c(2,3)
      v [unfolded telemetry_validator_iff]
    unfolding TELEMETRY_MAX_BYTES_def by blast
qed

definition ex_obs_nid :: string where
  "ex_obs_nid = ''11111111-1111-4111-8111-111111111111''"

definition ex_obs_ident :: dict where
  "ex_obs_ident = [(''node_id'', JStr ex_obs_nid),
     (''instance_id'', JStr ''22222222-2222-4222-8222-222222222222'')]"

definition ex_obs_caps :: dict where
  "ex_obs_caps = [(''schema'', JStr ''capabilities/v1''), (''node_version'', JStr ''0.5.0-rc.1''),
     (''capabilities'', JList [JStr ''audit-export/v2'', JStr ''telemetry/v1''])]"

definition ex_obs_snap :: dict where
  "ex_obs_snap = [(''schema'', JStr ''telemetry/v1''), (''node_id'', JStr ex_obs_nid),
     (''instance_id'', JStr ''22222222-2222-4222-8222-222222222222''),
     (''observed_at'', JStr ''2024-02-29T23:59:59.5+02:00''), (''uptime_seconds'', JInt 7),
     (''load'', JObj [(''load1'', JFloat (PyFloat 1 1 ''0.5'')), (''load5'', JInt 0), (''load15'', JInt 1)]),
     (''memory'', JObj [(''total_bytes'', JInt 9), (''used_bytes'', JInt 4)]),
     (''filesystem'', JObj [(''mount'', JStr ''/''), (''total_bytes'', JInt 9), (''used_bytes'', JInt 1)]),
     (''network'', JObj [(''rx_bytes'', JInt 5), (''tx_bytes'', JInt 6)]),
     (''sing_box'', JObj [(''active'', JBool True), (''connection_count'', JNull)]),
     (''accountd'', JObj [(''active'', JBool True), (''export_seq'', JInt 3)])]"

definition ex_loads :: "string \<Rightarrow> json option" where
  "ex_loads t = map_of [(''caps'', JObj ex_obs_caps), (''snap'', JObj ex_obs_snap), (''ident'', JObj ex_obs_ident)] t"

definition ex_reply :: "string \<Rightarrow> captured" where
  "ex_reply t = \<lparr>cap_code = 0, cap_stdout = t @ [LF], cap_stderr = []\<rparr>"

lemma transport_OK_intro:
  assumes "cap_code p = 0" and "loads (strip (cap_stdout p)) = Some (JObj d)"
    and "strip (cap_stdout p) \<noteq> []" and "utf8_len (cap_stdout p) \<le> m"
    and "\<not> contains ''stdout exceeds'' (lower (ssh_failure_detail p))"
  shows "ssh_remote_json_for_class loads ex0 um (Some m) p = (OK, Some d, ssh_failure_detail p)"
  using assms by (simp add: ssh_remote_json_for_class_def Let_def parse_stdout_json_def)

lemma ex_transport:
  assumes "100 \<le> m"
  shows "ssh_remote_json_for_class ex_loads ex0 um (Some m) (ex_reply ''caps'') = (OK, Some ex_obs_caps, ''caps'')"
    and "ssh_remote_json_for_class ex_loads ex0 um (Some m) (ex_reply ''snap'') = (OK, Some ex_obs_snap, ''snap'')"
    and "ssh_remote_json_for_class ex_loads ex0 um (Some m) (ex_reply ''ident'') = (OK, Some ex_obs_ident, ''ident'')"
proof -
  have d: "ssh_failure_detail (ex_reply ''caps'') = ''caps''" "ssh_failure_detail (ex_reply ''snap'') = ''snap''"
    "ssh_failure_detail (ex_reply ''ident'') = ''ident''" by code_simp+
  have n: "\<not> contains ''stdout exceeds'' (lower ''caps'')" "\<not> contains ''stdout exceeds'' (lower ''snap'')"
    "\<not> contains ''stdout exceeds'' (lower ''ident'')" by code_simp+
  have l: "ex_loads (strip (cap_stdout (ex_reply ''caps''))) = Some (JObj ex_obs_caps)"
    "ex_loads (strip (cap_stdout (ex_reply ''snap''))) = Some (JObj ex_obs_snap)"
    "ex_loads (strip (cap_stdout (ex_reply ''ident''))) = Some (JObj ex_obs_ident)" by code_simp+
  have s: "strip (cap_stdout (ex_reply ''caps'')) \<noteq> []" "strip (cap_stdout (ex_reply ''snap'')) \<noteq> []"
    "strip (cap_stdout (ex_reply ''ident'')) \<noteq> []" by code_simp+
  have u: "utf8_len (cap_stdout (ex_reply ''caps'')) \<le> 100" "utf8_len (cap_stdout (ex_reply ''snap'')) \<le> 100"
    "utf8_len (cap_stdout (ex_reply ''ident'')) \<le> 100" by code_simp+
  have c: "cap_code (ex_reply t) = 0" for t by (simp add: ex_reply_def)
  have i: "ssh_remote_json_for_class ex_loads ex0 um (Some m) (ex_reply t) = (OK, Some d, t)"
    if "ex_loads (strip (cap_stdout (ex_reply t))) = Some (JObj d)" "strip (cap_stdout (ex_reply t)) \<noteq> []"
      "utf8_len (cap_stdout (ex_reply t)) \<le> 100" "ssh_failure_detail (ex_reply t) = t"
      "\<not> contains ''stdout exceeds'' (lower t)" for t d
    using transport_OK_intro [of "ex_reply t" ex_loads d m ex0 um] c [of t] that assms by simp
  show "ssh_remote_json_for_class ex_loads ex0 um (Some m) (ex_reply ''caps'') = (OK, Some ex_obs_caps, ''caps'')"
    by (rule i [OF l(1) s(1) u(1) d(1) n(1)])
  show "ssh_remote_json_for_class ex_loads ex0 um (Some m) (ex_reply ''snap'') = (OK, Some ex_obs_snap, ''snap'')"
    by (rule i [OF l(2) s(2) u(2) d(2) n(2)])
  show "ssh_remote_json_for_class ex_loads ex0 um (Some m) (ex_reply ''ident'') = (OK, Some ex_obs_ident, ''ident'')"
    by (rule i [OF l(3) s(3) u(3) d(3) n(3)])
qed

text \<open>A bound on the compact text that is cheap to evaluate.\<close>

fun json_bound :: "json \<Rightarrow> nat" where
  "json_bound JNull = 4"
| "json_bound (JBool b) = 5"
| "json_bound (JInt n) = length (int_text n)"
| "json_bound (JFloat f) = (case f of PyFloat n k t \<Rightarrow> length t | _ \<Rightarrow> 9)"
| "json_bound (JStr s) = 6 * length s + 2"
| "json_bound (JList xs) = 2 + sum_list (map (\<lambda>x. json_bound x + 1) xs)"
| "json_bound (JObj kvs) = 2 + sum_list (map (\<lambda>p. 6 * length (fst p) + 4 + json_bound (snd p)) kvs)"

lemma json_string_bound: "length (json_string s) \<le> 6 * length s + 2"
proof -
  have "length (json_char c) \<le> 6" for c by (simp add: json_char_def Let_def)
  then have "length (concat (map json_char s)) \<le> 6 * length s"
    by (induction s) (auto intro: order_trans [OF add_mono])
  then show ?thesis by (simp add: json_string_def)
qed

lemma length_join:
  assumes "\<And>x. x \<in> set xs \<Longrightarrow> length (g x) + 1 \<le> b x"
  shows "length (join [c] (map g xs)) \<le> sum_list (map b xs)"
  using assms
proof (induction xs rule: induct_list012)
  case (3 x y xs)
  then have "length (join [c] (map g (y # xs))) \<le> sum_list (map b (y # xs))" "length (g x) + 1 \<le> b x"
    by auto
  then show ?case by simp
next
  case (2 x)
  then show ?case by (auto dest: Suc_leD)
qed simp

lemma json_compact_bound: "length (json_compact v) \<le> json_bound v"
proof (induction v)
  case (JFloat f)
  then show ?case by (cases f) simp_all
next
  case (JStr s)
  then show ?case using json_string_bound [of s] by simp
next
  case (JList xs)
  then have "length (join '','' (map json_compact xs)) \<le> sum_list (map (\<lambda>x. json_bound x + 1) xs)"
    by (intro length_join) auto
  then show ?case by simp
next
  case (JObj kvs)
  have "length (join '','' (map (\<lambda>p. json_string (fst p) @ '':'' @ json_compact (snd p)) kvs))
      \<le> sum_list (map (\<lambda>p. 6 * length (fst p) + 4 + json_bound (snd p)) kvs)"
  proof (rule length_join)
    fix p assume "p \<in> set kvs"
    then have "length (json_compact (snd p)) \<le> json_bound (snd p)" using JObj [of p "snd p"] snds.intros [of p] by simp
    then show "length (json_string (fst p) @ '':'' @ json_compact (snd p)) + 1
        \<le> 6 * length (fst p) + 4 + json_bound (snd p)"
      using json_string_bound [of "fst p"] by simp
  qed
  then show ?case by simp
qed simp_all

lemma utf8_len_bound: "utf8_len (json_compact v) \<le> 2 * json_bound v"
proof -
  have "utf8_len s \<le> 2 * length s" for s by (induction s) (auto simp: utf8_len_def)
  from this [of "json_compact v"] json_compact_bound [of v] show ?thesis by linarith
qed

lemma ex_observed: "ob_state (observe_node ex_loads (JStr ex_obs_nid) (ex_reply ''caps'') (ex_reply ''snap'')
     (ex_reply ''ident'')) = OK"
proof -
  have "2 * json_bound (JObj ex_obs_caps) \<le> CAPABILITIES_MAX_BYTES"
    "2 * json_bound (JObj ex_obs_snap) \<le> TELEMETRY_MAX_BYTES"
    by (simp_all add: ex_obs_snap_def ex_obs_nid_def ex_obs_caps_def TELEMETRY_MAX_BYTES_def
        CAPABILITIES_MAX_BYTES_def int_text_def nat_text.simps)
  then have len: "utf8_len (json_compact (JObj ex_obs_caps)) \<le> CAPABILITIES_MAX_BYTES"
    "utf8_len (json_compact (JObj ex_obs_snap)) \<le> TELEMETRY_MAX_BYTES"
    using utf8_len_bound order_trans by blast+
  have v: "validate_capabilities_v1 (JObj ex_obs_caps) = []" "validate_telemetry_v1 (JObj ex_obs_snap) = []"
    by code_simp+
  have ids: "dget ''node_id'' ex_obs_ident = JStr ex_obs_nid" "dget ''node_id'' ex_obs_snap = JStr ex_obs_nid"
    "dget ''instance_id'' ex_obs_ident = dget ''instance_id'' ex_obs_snap"
    "dget ''capabilities'' ex_obs_caps = JList [JStr ''audit-export/v2'', JStr ''telemetry/v1'']"
    by (simp_all add: ex_obs_ident_def ex_obs_snap_def ex_obs_caps_def)
  have m: "100 \<le> CAPABILITIES_MAX_BYTES" "100 \<le> TELEMETRY_MAX_BYTES" "100 \<le> IDENTITY_MAX_BYTES"
    by (simp_all add: CAPABILITIES_MAX_BYTES_def TELEMETRY_MAX_BYTES_def IDENTITY_MAX_BYTES_def)
  have c: "fetch_capabilities (OK, Some ex_obs_caps, ''caps'') = \<lparr>ob_state = OK, ob_detail = [],
      ob_version = dget ''node_version'' ex_obs_caps,
      ob_capabilities = [JStr ''audit-export/v2'', JStr ''telemetry/v1''], ob_payload = Some ex_obs_caps\<rparr>"
    using len(1) v(1) ids(4) by (simp add: fetch_capabilities_def del: json_compact.simps)
  show ?thesis
    unfolding observe_node_def ex_transport(1) [OF m(1)] ex_transport(2) [OF m(2)] ex_transport(3) [OF m(3)] c
    using len(2) v(2) ids by (simp add: fetch_telemetry_def del: json_compact.simps)
qed

theorem observation_trustworthy_witness:
  "case ob_payload (observe_node ex_loads (JStr ex_obs_nid) (ex_reply ''caps'') (ex_reply ''snap'')
     (ex_reply ''ident'')) of None \<Rightarrow> False | Some d \<Rightarrow> conforms telemetry_v1_schema (JObj d)"
proof -
  from observation_trustworthy [OF ex_observed] obtain d where
    "ob_payload (observe_node ex_loads (JStr ex_obs_nid) (ex_reply ''caps'') (ex_reply ''snap'')
     (ex_reply ''ident'')) = Some d" "conforms telemetry_v1_schema (JObj d)" by blast
  then show ?thesis by simp
qed

end
