(* ===== verification/Snapshot.thy ===== *)
theory Snapshot
  imports ObservationInv
begin

text \<open>
  The node's side of the observation: \<open>lib/telemetry_snapshot.py\<close>, which prints the
  \<open>telemetry/v1\<close> document that the controller checks.

  The files, the program outputs and the HTTP reply it reads are inputs, \<open>None\<close> where reading
  raised one of the exceptions the code catches.  \<open>float_of\<close> is Python's \<open>float(text)\<close>, \<open>None\<close>
  for its \<open>ValueError\<close>; \<open>parse_iso\<close> is \<open>datetime.fromisoformat\<close> as seconds since the epoch, a
  naive time read as UTC.
\<close>

section \<open>Files under \<open>/proc\<close>\<close>

definition words :: "string \<Rightarrow> string list" where
  "words s = words_acc [] s"

definition partition_colon :: "string \<Rightarrow> string \<times> string" where
  "partition_colon s = (takeWhile (\<lambda>c. c \<noteq> CHR '':'') s, drop 1 (dropWhile (\<lambda>c. c \<noteq> CHR '':'') s))"

definition read_uptime_seconds :: "(string \<Rightarrow> pyfloat option) \<Rightarrow> string option \<Rightarrow> json res" where
  "read_uptime_seconds float_of uptime = (case uptime of
     None \<Rightarrow> Inr (JInt 0)
   | Some t \<Rightarrow> (case words t of
       [] \<Rightarrow> Inr (JInt 0)
     | w # _ \<Rightarrow> (case float_of w of
         None \<Rightarrow> Inr (JInt 0)
       | Some f \<Rightarrow> (case py_int (JFloat f) of
           Inr n \<Rightarrow> Inr (JInt n)
         | Inl (ValueError _) \<Rightarrow> Inr (JInt 0)
         | Inl e \<Rightarrow> Inl e))))"

definition no_load :: dict where
  "no_load = (let z = JFloat (PyFloat 0 0 ''0.0'') in [(''load1'', z), (''load5'', z), (''load15'', z)])"

definition read_load :: "(string \<Rightarrow> pyfloat option) \<Rightarrow> string option \<Rightarrow> dict" where
  "read_load float_of loadavg = (case loadavg of
     None \<Rightarrow> no_load
   | Some t \<Rightarrow> (case words t of
       a # b # c # _ \<Rightarrow> (case (float_of a, float_of b, float_of c) of
           (Some x, Some y, Some z) \<Rightarrow>
             [(''load1'', JFloat x), (''load5'', JFloat y), (''load15'', JFloat z)]
         | _ \<Rightarrow> no_load)
     | _ \<Rightarrow> no_load))"

text \<open>
  \<open>_read_memory\<close>: an \<open>IndexError\<close> of a line without a value is not caught, a \<open>ValueError\<close> leaves
  both numbers at zero.
\<close>

definition meminfo_line :: "string \<Rightarrow> (string \<times> int) list \<Rightarrow> (string \<times> int) list res" where
  "meminfo_line line info =
     (let (key, val) = partition_colon line in
      if key = ''MemTotal'' \<or> key = ''MemAvailable'' then
        (case words val of
           [] \<Rightarrow> Inl (RuntimeError ''IndexError'')
         | w # _ \<Rightarrow> (case int_of_text w of
             None \<Rightarrow> Inl (ValueError ''invalid literal for int()'')
           | Some n \<Rightarrow> Inr (AList.update key (n * 1024) info)))
      else Inr info)"

definition mem_dict :: "int \<Rightarrow> int \<Rightarrow> dict" where
  "mem_dict tot used = [(''total_bytes'', JInt tot), (''used_bytes'', JInt used)]"

definition read_memory :: "string option \<Rightarrow> dict res" where
  "read_memory meminfo = (case meminfo of
     None \<Rightarrow> Inr (mem_dict 0 0)
   | Some t \<Rightarrow> (case rfold meminfo_line (splitlines t) [] of
       Inr info \<Rightarrow>
         (let tot = (case map_of info ''MemTotal'' of Some n \<Rightarrow> n | None \<Rightarrow> 0);
              avail = (case map_of info ''MemAvailable'' of Some n \<Rightarrow> n | None \<Rightarrow> 0)
          in Inr (mem_dict tot (if tot \<noteq> 0 then max (tot - avail) 0 else 0)))
     | Inl (ValueError _) \<Rightarrow> Inr (mem_dict 0 0)
     | Inl e \<Rightarrow> Inl e))"

definition fs_dict :: "string \<Rightarrow> int \<Rightarrow> int \<Rightarrow> dict" where
  "fs_dict mount tot used =
     [(''mount'', JStr mount), (''total_bytes'', JInt tot), (''used_bytes'', JInt used)]"

definition read_filesystem :: "string \<Rightarrow> string option \<Rightarrow> dict" where
  "read_filesystem mount df_out = (case df_out of
     None \<Rightarrow> fs_dict mount 0 0
   | Some t \<Rightarrow> (case filter (\<lambda>l. strip l \<noteq> []) (splitlines (strip t)) of
       _ # l # _ \<Rightarrow> (case words l of
           _ # a # b # _ \<Rightarrow> (case (int_of_text a, int_of_text b) of
               (Some tot, Some used) \<Rightarrow> fs_dict mount tot used
             | _ \<Rightarrow> fs_dict mount 0 0)
         | _ \<Rightarrow> fs_dict mount 0 0)
     | _ \<Rightarrow> fs_dict mount 0 0))"

text \<open>
  \<open>_read_network_totals\<close>: the state keeps the sums; a \<open>ValueError\<close> ends the loop and the sums
  so far are reported (the receive sum of the failing line included when its second number is bad).
\<close>

fun sum_interfaces :: "string list \<Rightarrow> int \<Rightarrow> int \<Rightarrow> int \<times> int" where
  "sum_interfaces [] rx tx = (rx, tx)"
| "sum_interfaces (l # ls) rx tx =
     (if CHR '':'' \<notin> set l then sum_interfaces ls rx tx
      else (let (iface, rest) = partition_colon l; cols = words rest in
        if strip iface = [] \<or> strip iface = ''lo'' \<or> length cols < 9 then sum_interfaces ls rx tx
        else (case int_of_text (cols ! 0) of
            None \<Rightarrow> (rx, tx)
          | Some r \<Rightarrow> (case int_of_text (cols ! 8) of
              None \<Rightarrow> (rx + r, tx)
            | Some t \<Rightarrow> sum_interfaces ls (rx + r) (tx + t)))))"

definition read_network_totals :: "string option \<Rightarrow> dict" where
  "read_network_totals net_dev =
     (let (rx, tx) = (case net_dev of None \<Rightarrow> (0, 0)
          | Some t \<Rightarrow> sum_interfaces (drop 2 (splitlines t)) 0 0)
      in [(''rx_bytes'', JInt rx), (''tx_bytes'', JInt tx)])"

section \<open>Services and settings\<close>

text \<open>\<open>systemctl show\<close>: \<open>strptime t\<close> is the printed UTC time, \<open>None\<close> for a \<open>ValueError\<close>.\<close>

definition systemd_restart_info ::
    "(string \<Rightarrow> string option) \<Rightarrow> string option \<Rightarrow> json \<times> json" where
  "systemd_restart_info strptime out = (case out of
     None \<Rightarrow> (JNull, JNull)
   | Some t \<Rightarrow> (case filter (\<lambda>l. l \<noteq> []) (map strip (splitlines t)) of
       [] \<Rightarrow> (JNull, JNull)
     | a # ls \<Rightarrow> (case int_of_text a of
         None \<Rightarrow> (JNull, JNull)
       | Some n \<Rightarrow> (JInt n, (case ls of
             [] \<Rightarrow> JNull
           | b # _ \<Rightarrow> if b = ''n/a'' then JNull else of_text (strptime b))))))"

text \<open>\<open>_clash_connection_count\<close> reads at most 65536 bytes of the reply.\<close>

definition clash_connection_count :: "(string \<Rightarrow> json option) \<Rightarrow> string option \<Rightarrow> json" where
  "clash_connection_count loads body = (case body of
     None \<Rightarrow> JNull
   | Some b \<Rightarrow> (case loads (take 65536 b) of
       Some (JObj d) \<Rightarrow> (case dget ''connections'' d of JList l \<Rightarrow> JInt (int (length l)) | _ \<Rightarrow> JNull)
     | _ \<Rightarrow> JNull))"

definition read_toml :: "string option \<Rightarrow> string \<Rightarrow> string" where
  "read_toml f key = (case f of
     None \<Rightarrow> []
   | Some t \<Rightarrow> (case find (starts_with (key @ '' = '')) (splitlines t) of
       None \<Rightarrow> []
     | Some line \<Rightarrow>
         (let val = strip (drop 1 (dropWhile (\<lambda>c. c \<noteq> CHR ''='') line)) in
          if starts_with [DQ] val \<and> ends_with [DQ] val then butlast (tl val) else val)))"

definition json_field :: "json option \<Rightarrow> string \<Rightarrow> string" where
  "json_field doc f = (case doc of
     Some (JObj d) \<Rightarrow>
       (let val = (if dget f d = JNull then (case dget ''node'' d of JObj n \<Rightarrow> dget f n | _ \<Rightarrow> JNull)
                   else dget f d)
        in if val = JNull then [] else py_str val)
   | _ \<Rightarrow> [])"

section \<open>Accounting metrics\<close>

text \<open>\<open>int(total_seconds())\<close> of whole seconds.\<close>

definition parse_iso_age_seconds :: "(string \<Rightarrow> int option) \<Rightarrow> string \<Rightarrow> int \<Rightarrow> int option" where
  "parse_iso_age_seconds parse_iso raw now =
     (let ts = strip raw in
      if ts = [] then None
      else map_option (\<lambda>w. now - w)
        (parse_iso (if ends_with ''Z'' ts then butlast ts @ ''+00:00'' else ts)))"

definition max_last_seen :: "conn_row list \<Rightarrow> string option" where
  "max_last_seen rs = (case rs of [] \<Rightarrow> None
     | _ \<Rightarrow> Some (fold max (map c_last_seen_at rs) (c_last_seen_at (hd rs))))"

definition age_of :: "(string \<Rightarrow> int option) \<Rightarrow> int \<Rightarrow> string option \<Rightarrow> int option" where
  "age_of parse_iso now v = (case v of None \<Rightarrow> None
     | Some t \<Rightarrow> if t = [] then None else parse_iso_age_seconds parse_iso t now)"

text \<open>
  \<open>_accounting_metrics\<close> on the accounting database (\<open>None\<close>: no file); a malformed export counter
  ends the reading early.
\<close>

definition accounting_metrics ::
    "(string \<Rightarrow> int option) \<Rightarrow> bool \<Rightarrow> int \<Rightarrow> acct_db option \<Rightarrow> dict" where
  "accounting_metrics parse_iso active now dbo =
     (let doc = (\<lambda>poll seq ev. [(''active'', JBool active), (''last_poll_age_seconds'', of_int_opt poll),
              (''export_seq'', of_int_opt seq), (''last_event_age_seconds'', of_int_opt ev)])
      in case dbo of
           None \<Rightarrow> doc None None None
         | Some db \<Rightarrow>
             (let poll = age_of parse_iso now (map_of (meta db) ''last_success_at'');
                  ev = age_of parse_iso now (max_last_seen (connections db))
              in case map_of (meta db) META_AUDIT_EXPORT_SEQ of
                   None \<Rightarrow> doc poll None ev
                 | Some v \<Rightarrow> if strip v = [] then doc poll None ev
                     else (case int_of_text v of
                         None \<Rightarrow> doc poll None None
                       | Some n \<Rightarrow> doc poll (Some n) ev)))"

section \<open>The snapshot\<close>

record node_inputs =
  ni_config :: "string option"
  ni_state :: "json option"
  ni_now :: int
  ni_uptime :: "string option"
  ni_loadavg :: "string option"
  ni_meminfo :: "string option"
  ni_df :: "string option"
  ni_net_dev :: "string option"
  ni_sing_active :: bool
  ni_acct_active :: bool
  ni_restarts :: "string option"
  ni_clash_body :: "string option"
  ni_db :: "acct_db option"

record node_libs =
  nl_float_of :: "string \<Rightarrow> pyfloat option"
  nl_strptime :: "string \<Rightarrow> string option"
  nl_loads :: "string \<Rightarrow> json option"
  nl_parse_iso :: "string \<Rightarrow> int option"

definition build_snapshot :: "node_libs \<Rightarrow> node_inputs \<Rightarrow> dict res" where
  "build_snapshot nl ni =
     rbind (let p = read_toml (ni_config ni) ''clash_api_port'' in py_int (JStr (if p = [] then ''9090'' else p))) (\<lambda>_.
     rbind (read_uptime_seconds (nl_float_of nl) (ni_uptime ni)) (\<lambda>uptime.
     rbind (read_memory (ni_meminfo ni)) (\<lambda>memory.
       let (restarts, last_restart) = systemd_restart_info (nl_strptime nl) (ni_restarts ni);
           conn_count = (if ni_sing_active ni then clash_connection_count (nl_loads nl) (ni_clash_body ni)
             else JNull)
       in Inr
        [(''schema'', JStr ''telemetry/v1''), (''node_id'', JStr (read_toml (ni_config ni) ''node_id'')),
         (''instance_id'', JStr (json_field (ni_state ni) ''instance_id'')),
         (''observed_at'', JStr (iso_utc (ni_now ni))), (''uptime_seconds'', uptime),
         (''load'', JObj (read_load (nl_float_of nl) (ni_loadavg ni))), (''memory'', JObj memory),
         (''filesystem'', JObj (read_filesystem ''/'' (ni_df ni))),
         (''network'', JObj (read_network_totals (ni_net_dev ni))),
         (''sing_box'', JObj [(''active'', JBool (ni_sing_active ni)), (''connection_count'', conn_count),
            (''restart_count'', restarts), (''last_restart_at'', last_restart)]),
         (''accountd'', JObj (accounting_metrics (nl_parse_iso nl) (ni_acct_active ni) (ni_now ni) (ni_db ni)))])))"

section \<open>Acceptance by the controller\<close>

definition nonneg_opt :: "json \<Rightarrow> bool" where
  "nonneg_opt v = (v = JNull \<or> is_int_nonneg v)"

text \<open>
  What the installation and the kernel provide: identities, a clock in the printable range, and
  counters that are not negative.
\<close>

definition host_sane :: "node_libs \<Rightarrow> node_inputs \<Rightarrow> bool" where
  "host_sane nl ni =
     (uuid_ok (read_toml (ni_config ni) ''node_id'') \<and> uuid_ok (json_field (ni_state ni) ''instance_id'')
      \<and> is_rfc3339 (JStr (iso_utc (ni_now ni)))
      \<and> (case read_uptime_seconds (nl_float_of nl) (ni_uptime ni) of Inl _ \<Rightarrow> True | Inr v \<Rightarrow> is_int_nonneg v)
      \<and> list_all (\<lambda>kv. is_number_nonneg (snd kv)) (read_load (nl_float_of nl) (ni_loadavg ni))
      \<and> (case read_memory (ni_meminfo ni) of Inl _ \<Rightarrow> True
          | Inr m \<Rightarrow> list_all (\<lambda>kv. is_int_nonneg (snd kv)) m)
      \<and> list_all (\<lambda>kv. is_int_nonneg (snd kv)) (tl (read_filesystem ''/'' (ni_df ni)))
      \<and> list_all (\<lambda>kv. is_int_nonneg (snd kv)) (read_network_totals (ni_net_dev ni))
      \<and> nonneg_opt (fst (systemd_restart_info (nl_strptime nl) (ni_restarts ni)))
      \<and> (snd (systemd_restart_info (nl_strptime nl) (ni_restarts ni)) = JNull
          \<or> is_rfc3339 (snd (systemd_restart_info (nl_strptime nl) (ni_restarts ni)))))"

lemma uuid_ok_any_case:
  assumes "uuid_ok s" shows "uuid_any_case (JStr s)"
  unfolding uuid_any_case_def json.case
proof (rule list_all2_mono [OF assms [unfolded uuid_ok_def]])
  fix t c assume "if t = CHR ''x'' then is_hex_lower c else c = CHR ''-''"
  then show "if t = CHR ''x'' then is_hex c else c = CHR ''-''"
    by (auto simp: is_hex_lower_def is_hex_def split: if_splits)
qed

lemma conforms_load:
  assumes "list_all (\<lambda>kv. is_number_nonneg (snd kv)) (read_load fl l)"
  shows "conforms (SObj [(''load1'', True, SNum0), (''load5'', True, SNum0), (''load15'', True, SNum0)])
    (JObj (read_load fl l))"
proof -
  have "\<exists>x y z. read_load fl l = [(''load1'', x), (''load5'', y), (''load15'', z)]"
    by (auto simp: read_load_def no_load_def Let_def split: option.split list.split)
  then obtain x y z where "read_load fl l = [(''load1'', x), (''load5'', y), (''load15'', z)]" by blast
  with assms show ?thesis by simp
qed

lemma conforms_memory:
  assumes "read_memory f = Inr m" and "list_all (\<lambda>kv. is_int_nonneg (snd kv)) m"
  shows "conforms (SObj [(''total_bytes'', True, SInt0), (''used_bytes'', True, SInt0)]) (JObj m)"
proof -
  have "\<exists>a b. m = mem_dict a b"
    using assms(1) by (auto simp: read_memory_def Let_def split: option.splits sum.splits exc.splits)
  with assms(2) show ?thesis by (auto simp: mem_dict_def)
qed

lemma conforms_filesystem:
  assumes "list_all (\<lambda>kv. is_int_nonneg (snd kv)) (tl (read_filesystem ''/'' f))"
  shows "conforms (SObj [(''mount'', True, SText 1 256), (''total_bytes'', True, SInt0),
    (''used_bytes'', True, SInt0)]) (JObj (read_filesystem ''/'' f))"
proof -
  have "\<exists>a b. read_filesystem ''/'' f = fs_dict ''/'' a b"
    by (auto simp: read_filesystem_def split: option.split list.split)
  then obtain a b where "read_filesystem ''/'' f = fs_dict ''/'' a b" by blast
  with assms show ?thesis by (simp add: fs_dict_def)
qed

lemma conforms_network:
  assumes "list_all (\<lambda>kv. is_int_nonneg (snd kv)) (read_network_totals f)"
  shows "conforms (SObj [(''rx_bytes'', True, SInt0), (''tx_bytes'', True, SInt0)])
    (JObj (read_network_totals f))"
proof -
  have "\<exists>a b. read_network_totals f = [(''rx_bytes'', JInt a), (''tx_bytes'', JInt b)]"
    unfolding read_network_totals_def Let_def by (simp split: prod.split)
  then obtain a b where "read_network_totals f = [(''rx_bytes'', JInt a), (''tx_bytes'', JInt b)]" by blast
  with assms show ?thesis by simp
qed

lemma clash_count_nonneg: "clash_connection_count loads b = JNull \<or> is_int_nonneg (clash_connection_count loads b)"
  by (auto simp: clash_connection_count_def is_int_nonneg_def split: option.split json.split)

lemma seq_inv_export_seq:
  assumes "seq_inv db" and "map_of (meta db) META_AUDIT_EXPORT_SEQ = Some v" and "int_of_text v = Some n"
  shows "0 \<le> n"
proof -
  have "v \<noteq> []" using assms(3) by (auto simp: int_of_text_def strip_def lstrip_def rstrip_def)
  with assms have "meta_int db META_AUDIT_EXPORT_SEQ = Inr n"
    by (simp add: meta_int_def meta_get_def)
  with assms(1) show ?thesis by (simp add: seq_inv_def seq_counter_def)
qed

definition event_ages :: "node_libs \<Rightarrow> node_inputs \<Rightarrow> json list" where
  "event_ages nl ni = (let m = accounting_metrics (nl_parse_iso nl) (ni_acct_active ni) (ni_now ni) (ni_db ni)
     in [dget ''last_poll_age_seconds'' m, dget ''last_event_age_seconds'' m])"

lemma conforms_accountd:
  assumes "\<And>db. ni_db ni = Some db \<Longrightarrow> seq_inv db"
  shows "conforms (SObj [(''active'', True, SBool), (''last_poll_age_seconds'', False, SNullable SInt0),
      (''export_seq'', False, SNullable SInt0), (''last_event_age_seconds'', False, SNullable SInt0)])
    (JObj (accounting_metrics (nl_parse_iso nl) (ni_acct_active ni) (ni_now ni) (ni_db ni)))
   \<longleftrightarrow> list_all nonneg_opt (event_ages nl ni)"
proof -
  define m where "m = accounting_metrics (nl_parse_iso nl) (ni_acct_active ni) (ni_now ni) (ni_db ni)"
  have "\<exists>p e q. m = [(''active'', JBool (ni_acct_active ni)), (''last_poll_age_seconds'', of_int_opt p),
       (''export_seq'', of_int_opt q), (''last_event_age_seconds'', of_int_opt e)]
     \<and> (\<forall>n. q = Some n \<longrightarrow> 0 \<le> n)"
  proof (cases "ni_db ni")
    case None
    then show ?thesis unfolding m_def accounting_metrics_def Let_def by auto
  next
    case (Some db)
    show ?thesis
    proof (cases "map_of (meta db) META_AUDIT_EXPORT_SEQ")
      case None
      then show ?thesis unfolding m_def accounting_metrics_def Let_def Some None option.case
        by (intro exI) (rule conjI, rule refl, simp)
    next
      case v: (Some v)
      show ?thesis
        using seq_inv_export_seq [OF assms [OF Some] v]
        unfolding m_def accounting_metrics_def Let_def Some option.case v
        by (cases "strip v = []"; cases "int_of_text v") auto
    qed
  qed
  then obtain p e q where m: "m = [(''active'', JBool (ni_acct_active ni)), (''last_poll_age_seconds'', of_int_opt p),
       (''export_seq'', of_int_opt q), (''last_event_age_seconds'', of_int_opt e)]"
    and q: "\<forall>n. q = Some n \<longrightarrow> 0 \<le> n" by blast
  have qn: "of_int_opt q = JNull \<or> is_int_nonneg (of_int_opt q)"
    using q by (auto simp: of_int_opt_def is_int_nonneg_def split: option.split)
  show ?thesis
    unfolding event_ages_def Let_def m_def [symmetric] SObj_active
    unfolding m json.case using qn by (simp add: nonneg_opt_def)
qed

lemma build_snapshot_Inr:
  assumes "build_snapshot nl ni = Inr d"
  shows "\<exists>up mem cc. read_uptime_seconds (nl_float_of nl) (ni_uptime ni) = Inr up
    \<and> read_memory (ni_meminfo ni) = Inr mem \<and> (cc = JNull \<or> is_int_nonneg cc)
    \<and> d = [(''schema'', JStr ''telemetry/v1''), (''node_id'', JStr (read_toml (ni_config ni) ''node_id'')),
         (''instance_id'', JStr (json_field (ni_state ni) ''instance_id'')),
         (''observed_at'', JStr (iso_utc (ni_now ni))), (''uptime_seconds'', up),
         (''load'', JObj (read_load (nl_float_of nl) (ni_loadavg ni))), (''memory'', JObj mem),
         (''filesystem'', JObj (read_filesystem ''/'' (ni_df ni))),
         (''network'', JObj (read_network_totals (ni_net_dev ni))),
         (''sing_box'', JObj [(''active'', JBool (ni_sing_active ni)), (''connection_count'', cc),
            (''restart_count'', fst (systemd_restart_info (nl_strptime nl) (ni_restarts ni))),
            (''last_restart_at'', snd (systemd_restart_info (nl_strptime nl) (ni_restarts ni)))]),
         (''accountd'', JObj (accounting_metrics (nl_parse_iso nl) (ni_acct_active ni) (ni_now ni) (ni_db ni)))]"
proof -
  from assms obtain up where up: "read_uptime_seconds (nl_float_of nl) (ni_uptime ni) = Inr up"
    unfolding build_snapshot_def Let_def by (auto simp only: rbind_eq_Inr)
  from assms obtain mem where mem: "read_memory (ni_meminfo ni) = Inr mem"
    unfolding build_snapshot_def Let_def by (auto simp only: rbind_eq_Inr)
  define cc where "cc = (if ni_sing_active ni then clash_connection_count (nl_loads nl) (ni_clash_body ni) else JNull)"
  have cc: "cc = JNull \<or> is_int_nonneg cc" unfolding cc_def using clash_count_nonneg by simp
  have "rbind x (\<lambda>_. Inr y) = Inr d \<Longrightarrow> d = y" for x :: "int res" and y
    by (auto simp: rbind_eq_Inr)
  from this [OF assms [unfolded build_snapshot_def up mem rbind_Inr Let_def cc_def [symmetric] case_prod_beta]]
  show ?thesis using up mem cc by blast
qed


definition ex_nl :: node_libs where
  "ex_nl = \<lparr>nl_float_of = (\<lambda>t. if t = ''0.5'' then Some (PyFloat 1 1 t) else if t = ''77.0'' then Some (PyFloat 77 0 t) else None),
     nl_strptime = (\<lambda>t. None), nl_loads = (\<lambda>t. None),
     nl_parse_iso = (\<lambda>t. if t = ''2024-01-01T00:00:10+00:00'' then Some 1704067210 else None)\<rparr>"

definition ex_metrics_db :: acct_db where
  "ex_metrics_db = \<lparr>connections = [], conn_seq = 0, poll_baseline = [], meta = [(META_AUDIT_EXPORT_SEQ, ''3''), (META_AUDIT_PRUNED_MAX_EXPORT_SEQ, ''0''),
     (''last_success_at'', ''2024-01-01T00:00:10Z'')], daily_usage = []\<rparr>"

definition ex_ni :: "int \<Rightarrow> node_inputs" where
  "ex_ni now = \<lparr>ni_config = Some (''node_id = '' @ [DQ] @ ex_obs_nid @ [DQ, LF]),
     ni_state = Some (JObj [(''instance_id'', JStr ''22222222-2222-4222-8222-222222222222'')]), ni_now = now,
     ni_uptime = Some ''77.0 12.1'', ni_loadavg = Some ''0.5 0.5 0.5 1/200 77'',
     ni_meminfo = Some (''MemTotal: 8 kB'' @ [LF] @ ''MemAvailable: 3 kB'' @ [LF]), ni_df = None,
     ni_net_dev = None, ni_sing_active = True, ni_acct_active = True, ni_restarts = Some ''2'',
     ni_clash_body = None, ni_db = Some ex_metrics_db\<rparr>"


end
