(* ===== verification/Registry.thy ===== *)
theory Registry
  imports FleetSync AccessInv
begin

text \<open>
  The node registry: validation of \<open>fleet.json\<close> (\<open>normalize_node\<close> of \<open>lib/vincula-fleet.py\<close>,
  \<open>validate_registry\<close> of \<open>lib/workspace.py\<close>), the operations on it and the commands that load,
  change and save it.

  A registry in memory is always the result of \<open>validate_registry\<close> or of an operation on one, so
  its nodes are records, the node record of the sync extended by the SSH settings.  Where the
  registry is kept is an interface: the two functions of \<open>store\<close>.
\<close>

section \<open>Values\<close>

definition NODE_STATUSES :: "string list" where
  "NODE_STATUSES = [''active'', ''disabled'', ''retired'']"

definition FORBIDDEN_NODE_KEYS :: "string list" where
  "FORBIDDEN_NODE_KEYS = [''password'', ''passwd'', ''ssh_password'']"

definition USER_METADATA_MAX :: nat where
  "USER_METADATA_MAX = 128"

definition is_forbidden_key :: "string \<Rightarrow> bool" where
  "is_forbidden_key key = (lower key \<in> set FORBIDDEN_NODE_KEYS \<or> ends_with ''password'' (lower key))"

definition user_metadata_error :: "json \<Rightarrow> string \<Rightarrow> string option" where
  "user_metadata_error v field_name = (case v of
     JStr s \<Rightarrow>
       if has_ascii_control s
       then Some (''invalid '' @ field_name @ '': control characters are not allowed'')
       else if USER_METADATA_MAX < length s then Some (''invalid '' @ field_name @ '': exceeds 128 characters'')
       else None
   | _ \<Rightarrow> Some (''invalid '' @ field_name @ '': must be a string''))"

definition validate_display_name :: "json \<Rightarrow> json res" where
  "validate_display_name v = (if v = JNull then Inr JNull
     else (case user_metadata_error v ''display_name'' of Some e \<Rightarrow> die e | None \<Rightarrow> Inr v))"

definition validate_department :: "json \<Rightarrow> json res" where
  "validate_department v = (if v = JNull then Inr JNull
     else (case user_metadata_error v ''department'' of Some e \<Rightarrow> die e | None \<Rightarrow> Inr v))"

definition validate_name :: "string \<Rightarrow> unit res" where
  "validate_name nm = (if name_ok nm then Inr () else die (''invalid name: '' @ nm))"

definition port_ok :: "int \<Rightarrow> bool" where
  "port_ok p = (1 \<le> p \<and> p \<le> 65535)"

definition parse_ssh_target ::
    "string \<Rightarrow> string option \<Rightarrow> int option \<Rightarrow> (string \<times> string \<times> int) res" where
  "parse_ssh_target host user port =
     (let raw0 = strip host in
      if raw0 = [] then die ''ssh_host must be non-empty''
      else
        let user0 = (let u = strip (case user of None \<Rightarrow> [] | Some u \<Rightarrow> u) in if u = [] then ''root'' else u);
            has_at = (CHR ''@'' \<in> set raw0);
            maybe_user = fst (rsplit1 CHR ''@'' raw0);
            ssh_user = (if has_at \<and> maybe_user \<noteq> [] \<and> user = None then maybe_user else user0);
            raw1 = (if has_at then strip (snd (rsplit1 CHR ''@'' raw0)) else raw0);
            raw = (if starts_with ''['' raw1 \<and> ends_with '']'' raw1 \<and> 2 < length raw1
                   then butlast (tl raw1) else raw1);
            ssh_port = (case port of None \<Rightarrow> 22 | Some p \<Rightarrow> p)
        in if raw = [] then die ''ssh_host must be non-empty''
           else if \<not> port_ok ssh_port then die ''invalid ssh_port''
           else rbind (validate_ssh_user ssh_user) (\<lambda>_.
                rbind (validate_ssh_host raw) (\<lambda>_. Inr (raw, ssh_user, ssh_port))))"

section \<open>Nodes\<close>

record reg_node = node +
  r_ssh_user :: string
  r_ssh_port :: int
  r_identity_file :: "string option"
  r_admin_ref :: "string option"
  r_observe_ref :: "string option"

definition life :: "reg_node \<Rightarrow> string" where
  "life n = node_lifecycle_status (node.truncate n)"

definition node_is_active :: "reg_node \<Rightarrow> bool" where
  "node_is_active n = (life n = ''active'')"

definition credential_ref :: "json \<Rightarrow> string \<Rightarrow> string option res" where
  "credential_ref v field_name = (case v of
     JNull \<Rightarrow> Inr None
   | JStr s \<Rightarrow> if s = [] then Inr None
       else if strip s = [] then die (''invalid '' @ field_name) else Inr (Some (strip s))
   | _ \<Rightarrow> die (''invalid '' @ field_name))"

definition normalize_node :: "ssh_env \<Rightarrow> json \<Rightarrow> reg_node res" where
  "normalize_node se raw = (case raw of
     JObj d \<Rightarrow>
       if list_ex (\<lambda>kv. is_forbidden_key (fst kv)) d then die ''must not store SSH passwords''
       else (case (dget ''node_id'' d, dget ''name'' d, dget ''ssh_host'' d,
                   dget_or ''ssh_user'' (JStr ''root'') d) of
         (JStr nid, JStr nm, JStr host, JStr user) \<Rightarrow>
           if \<not> uuid_ok nid then die ''invalid node_id''
           else if \<not> name_ok nm then die ''invalid name''
           else if strip host = [] then die ''invalid ssh_host''
           else if strip user = [] then die ''invalid ssh_user''
           else
           rbind (validate_ssh_host (strip host)) (\<lambda>host.
           rbind (validate_ssh_user (strip user)) (\<lambda>user.
           (case (dget_or ''ssh_port'' (JInt 22) d, dget_or ''enabled'' (JBool True) d) of
              (JInt port, JBool enabled) \<Rightarrow>
                if \<not> port_ok port then die ''invalid ssh_port''
                else
                rbind (case dget ''status'' d of
                    JNull \<Rightarrow> Inr (if enabled then ''active'' else ''disabled'')
                  | JStr s \<Rightarrow> if s \<in> set NODE_STATUSES then Inr s else die ''invalid status''
                  | _ \<Rightarrow> die ''invalid status'') (\<lambda>status.
                rbind (case dget ''identity_file'' d of
                    JNull \<Rightarrow> Inr None
                  | JStr s \<Rightarrow> if s = [] then Inr None
                      else rbind (validate_identity_file se s False) (\<lambda>p. Inr (if p = [] then None else Some p))
                  | _ \<Rightarrow> die ''invalid identity_file'') (\<lambda>identity_file.
                rbind (credential_ref (dget ''admin_credential_ref'' d) ''admin_credential_ref'') (\<lambda>ar.
                rbind (credential_ref (dget ''observe_credential_ref'' d) ''observe_credential_ref'') (\<lambda>obr.
                Inr \<lparr>n_name = nm, n_node_id = nid, n_ssh_host = host, n_status = Some status,
                     n_enabled = (status = ''active''), r_ssh_user = user, r_ssh_port = port,
                     r_identity_file = identity_file, r_admin_ref = ar, r_observe_ref = obr\<rparr>))))
            | (JInt _, _) \<Rightarrow> die ''invalid enabled''
            | _ \<Rightarrow> die ''invalid ssh_port'')))
       | (JStr _, JStr _, JStr _, _) \<Rightarrow> die ''invalid ssh_user''
       | (JStr _, JStr _, _, _) \<Rightarrow> die ''invalid ssh_host''
       | (JStr _, _, _, _) \<Rightarrow> die ''invalid name''
       | _ \<Rightarrow> die ''invalid node_id'')
   | _ \<Rightarrow> die ''node must be an object'')"

definition opt_field :: "string \<Rightarrow> string option \<Rightarrow> dict" where
  "opt_field k v = (case v of None \<Rightarrow> [] | Some s \<Rightarrow> [(k, JStr s)])"

text \<open>The dict of a node, keys in the order in which \<open>normalize_node\<close> builds it.\<close>

definition node_dict :: "reg_node \<Rightarrow> dict" where
  "node_dict n =
     [(''node_id'', JStr (n_node_id n)), (''name'', JStr (n_name n)), (''ssh_host'', JStr (n_ssh_host n)),
      (''ssh_user'', JStr (r_ssh_user n)), (''ssh_port'', JInt (r_ssh_port n)),
      (''enabled'', JBool (n_enabled n)), (''status'', of_text (n_status n))]
     @ opt_field ''identity_file'' (r_identity_file n)
     @ opt_field ''admin_credential_ref'' (r_admin_ref n)
     @ opt_field ''observe_credential_ref'' (r_observe_ref n)"

section \<open>Registries\<close>

record registry =
  g_nodes :: "reg_node list"
  g_fleet_id :: "string option"

definition FLEET_SCHEMA_VERSION :: int where
  "FLEET_SCHEMA_VERSION = 2"

definition empty_registry :: registry where
  "empty_registry = \<lparr>g_nodes = [], g_fleet_id = None\<rparr>"

definition add_checked :: "ssh_env \<Rightarrow> json \<Rightarrow> reg_node list \<Rightarrow> reg_node list res" where
  "add_checked se raw ns =
     rbind (normalize_node se raw) (\<lambda>n.
     if n_node_id n \<in> set (map n_node_id ns) then die ''duplicate node_id''
     else if n_name n \<in> set (map n_name ns) then die ''duplicate name''
     else Inr (ns @ [n]))"

definition validate_registry :: "ssh_env \<Rightarrow> json \<Rightarrow> registry res" where
  "validate_registry se data = (case data of
     JObj d \<Rightarrow>
       if list_ex (\<lambda>kv. is_forbidden_key (fst kv)) d then die ''fleet.json must not store SSH passwords''
       else if \<not> (py_eq_int (dget ''schema_version'' d) 1 \<or> py_eq_int (dget ''schema_version'' d) 2)
       then die ''unsupported fleet-registry schema''
       else (case dget_or ''nodes'' (JList []) d of
           JList raws \<Rightarrow>
             rbind (rfold (add_checked se) raws []) (\<lambda>ns.
             (case dget ''fleet_id'' d of
                JNull \<Rightarrow> Inr \<lparr>g_nodes = ns, g_fleet_id = None\<rparr>
              | JStr s \<Rightarrow> if s = [] then Inr \<lparr>g_nodes = ns, g_fleet_id = None\<rparr>
                  else if uuid_ok s then Inr \<lparr>g_nodes = ns, g_fleet_id = Some s\<rparr>
                  else die ''invalid fleet_id''
              | _ \<Rightarrow> die ''invalid fleet_id''))
         | _ \<Rightarrow> die ''fleet.json nodes must be a list'')
   | _ \<Rightarrow> die ''fleet.json must be a JSON object'')"

definition registry_doc :: "registry \<Rightarrow> dict" where
  "registry_doc g =
     [(''schema_version'', JInt FLEET_SCHEMA_VERSION), (''nodes'', JList (map (\<lambda>n. JObj (node_dict n)) (g_nodes g)))]
     @ opt_field ''fleet_id'' (g_fleet_id g)"

definition reg_by_name :: "registry \<Rightarrow> string \<Rightarrow> reg_node option" where
  "reg_by_name g nm = find (\<lambda>n. n_name n = nm) (g_nodes g)"

definition find_by_node_id :: "registry \<Rightarrow> string \<Rightarrow> reg_node option" where
  "find_by_node_id g nid = find (\<lambda>n. n_node_id n = nid) (g_nodes g)"

definition require_node :: "registry \<Rightarrow> string \<Rightarrow> reg_node res" where
  "require_node g nm = (case reg_by_name g nm of None \<Rightarrow> die (''unknown node: '' @ nm) | Some n \<Rightarrow> Inr n)"

text \<open>The operations change the node object that \<open>require_node\<close> found, the first of that name.\<close>

fun update_first :: "('a \<Rightarrow> bool) \<Rightarrow> ('a \<Rightarrow> 'a) \<Rightarrow> 'a list \<Rightarrow> 'a list" where
  "update_first P f [] = []"
| "update_first P f (x # xs) = (if P x then f x # xs else x # update_first P f xs)"

definition set_node :: "string \<Rightarrow> (reg_node \<Rightarrow> reg_node) \<Rightarrow> registry \<Rightarrow> registry" where
  "set_node nm f g = g\<lparr>g_nodes := update_first (\<lambda>n. n_name n = nm) f (g_nodes g)\<rparr>"

definition add_node ::
    "ssh_env \<Rightarrow> string \<Rightarrow> string \<Rightarrow> string \<Rightarrow> string \<Rightarrow> int \<Rightarrow> string option \<Rightarrow> string option \<Rightarrow> registry
      \<Rightarrow> registry res" where
  "add_node se nid nm ssh_host ssh_user ssh_port identity_file admin_ref g =
     rbind (validate_node_id nid) (\<lambda>_.
     rbind (validate_name nm) (\<lambda>_.
     if find_by_node_id g nid \<noteq> None then die ''duplicate node_id''
     else if reg_by_name g nm \<noteq> None then die ''duplicate name''
     else if (case identity_file of None \<Rightarrow> False | Some p \<Rightarrow> p \<noteq> []) \<and> se_known_hosts se \<noteq> None
     then die ''workspace active: identity_file must not be stored in fleet.json''
     else
       let nonempty = (\<lambda>v. case v of Some [] \<Rightarrow> None | _ \<Rightarrow> v);
           payload = [(''node_id'', JStr nid), (''name'', JStr nm), (''ssh_host'', JStr ssh_host),
             (''ssh_user'', JStr ssh_user), (''ssh_port'', JInt ssh_port), (''enabled'', JBool True)]
             @ opt_field ''identity_file'' (nonempty identity_file)
             @ opt_field ''admin_credential_ref'' (nonempty admin_ref)
       in rbind (normalize_node se (JObj payload)) (\<lambda>r. Inr (g\<lparr>g_nodes := g_nodes g @ [r]\<rparr>))))"

definition set_host ::
    "string \<Rightarrow> string \<Rightarrow> string option \<Rightarrow> int option \<Rightarrow> registry \<Rightarrow> registry res" where
  "set_host nm host user port g =
     rbind (require_node g nm) (\<lambda>n.
     rbind (parse_ssh_target host user (Some (case port of Some p \<Rightarrow> p | None \<Rightarrow> r_ssh_port n))) (\<lambda>(h, u, p).
     Inr (set_node nm (\<lambda>n. n\<lparr>n_ssh_host := h,
            r_ssh_user := (if user \<noteq> None \<or> CHR ''@'' \<in> set host then u else r_ssh_user n),
            r_ssh_port := (if port \<noteq> None then p else r_ssh_port n)\<rparr>) g)))"

definition set_enabled :: "string \<Rightarrow> bool \<Rightarrow> registry \<Rightarrow> registry res" where
  "set_enabled nm enabled g =
     rbind (require_node g nm) (\<lambda>n.
     if life n = ''retired''
     then die (if enabled then ''retired node cannot be enabled; replacement is 0.3.0''
               else ''node is retired: '' @ nm)
     else Inr (set_node nm (\<lambda>n. if enabled then n\<lparr>n_status := Some ''active'', n_enabled := True\<rparr>
            else n\<lparr>n_status := Some ''disabled'', n_enabled := False\<rparr>) g))"

section \<open>Commands\<close>

text \<open>
  Where the registry is kept: \<open>load\<close> is \<open>load_registry()\<close> and \<open>save\<close> is
  \<open>save_registry(None, registry)\<close>, which may fail and says so.
\<close>

record 's store =
  st_load :: "'s \<Rightarrow> registry res"
  st_save :: "registry \<Rightarrow> 's \<Rightarrow> 's \<times> unit res"

text \<open>The state of a command: the store and the machine's credential bindings.\<close>

type_synonym 's cmd = "'s \<times> json_doc \<Rightarrow> ('s \<times> json_doc) \<times> unit res"

definition save_with :: "'s store \<Rightarrow> registry \<Rightarrow> 's cmd" where
  "save_with st g s = (case st_save st g (fst s) of (s', r) \<Rightarrow> ((s', snd s), r))"

definition cmd_init :: "'s store \<Rightarrow> 's \<Rightarrow> bool \<Rightarrow> 's \<times> unit res" where
  "cmd_init st s file_exists =
     (if file_exists then
        (case st_load st s of
           Inl e \<Rightarrow> (s, Inl e)
         | Inr g \<Rightarrow> if g_nodes g \<noteq> [] then (s, die ''fleet registry already exists with nodes'')
             else st_save st empty_registry s)
      else st_save st empty_registry s)"

definition DEFAULT_ADMIN_CREDENTIAL_REF :: string where
  "DEFAULT_ADMIN_CREDENTIAL_REF = ''admin-default''"

definition bind_identity_for_workspace ::
    "ssh_env \<Rightarrow> string \<Rightarrow> string option \<Rightarrow> json_doc \<Rightarrow> json_doc \<times> string res" where
  "bind_identity_for_workspace se path ref b =
     (let key = (case (case ref of None \<Rightarrow> None | Some r \<Rightarrow> text_or_none r) of
            Some k \<Rightarrow> k | None \<Rightarrow> DEFAULT_ADMIN_CREDENTIAL_REF)
      in case bind_identity_file se True key path b of (b', r) \<Rightarrow> (b', rbind r (\<lambda>_. Inr key)))"

text \<open>\<open>_node_identity_binding\<close>: the SSH identity, the one for the registry, the admin ref.\<close>

definition node_identity_binding ::
    "ssh_env \<Rightarrow> string option \<Rightarrow> json_doc
      \<Rightarrow> json_doc \<times> (string option \<times> string option \<times> string option) res" where
  "node_identity_binding se identity_file b =
     (case (case identity_file of None \<Rightarrow> None | Some t \<Rightarrow> text_or_none t) of
        None \<Rightarrow> (b, Inr (None, None, None))
      | Some raw \<Rightarrow> (case validate_identity_file se raw True of
          Inl e \<Rightarrow> (b, Inl e)
        | Inr p \<Rightarrow>
            if se_known_hosts se = None then (b, Inr (Some p, Some p, None))
            else (case bind_identity_for_workspace se p None b of
                (b', r) \<Rightarrow> (b', rbind r (\<lambda>k. Inr (Some p, None, Some k))))))"

definition save_added ::
    "ssh_env \<Rightarrow> 's store \<Rightarrow> string \<Rightarrow> string \<Rightarrow> string \<times> string \<times> int \<Rightarrow> string option \<Rightarrow> string option
      \<Rightarrow> 's cmd" where
  "save_added se st nid nm target reg_identity admin_ref s = (case target of (h, u, p) \<Rightarrow>
     (case rbind (st_load st (fst s)) (add_node se nid nm h u p reg_identity admin_ref) of
        Inl e \<Rightarrow> (s, Inl e)
      | Inr g \<Rightarrow> save_with st g s))"

definition cmd_node_register ::
    "ssh_env \<Rightarrow> 's store \<Rightarrow> string \<Rightarrow> string \<Rightarrow> string option \<Rightarrow> int option \<Rightarrow> string option \<Rightarrow> string option
      \<Rightarrow> 's cmd" where
  "cmd_node_register se st nm host user port identity_file node_id s =
     (case parse_ssh_target host user port of
        Inl e \<Rightarrow> (s, Inl e)
      | Inr target \<Rightarrow> (case node_identity_binding se identity_file (snd s) of
          (b, Inl e) \<Rightarrow> ((fst s, b), Inl e)
        | (b, Inr (_, reg_identity, admin_ref)) \<Rightarrow>
            (case node_id of
               None \<Rightarrow> ((fst s, b), Inl (SystemExit ''register requires --node-id UUID'' 2))
             | Some nid \<Rightarrow>
                 if nid = [] then ((fst s, b), Inl (SystemExit ''register requires --node-id UUID'' 2))
                 else save_added se st nid nm target reg_identity admin_ref (fst s, b))))"

text \<open>
  \<open>cmd_node_adopt\<close>: \<open>hk\<close> is the outcome of \<open>prepare_ssh_host_key\<close>, \<open>ident\<close> the identity the
  node reported over SSH or the error that ended the run.
\<close>

definition cmd_node_adopt ::
    "ssh_env \<Rightarrow> 's store \<Rightarrow> string \<Rightarrow> string \<Rightarrow> string option \<Rightarrow> int option \<Rightarrow> string option \<Rightarrow> string option
      \<Rightarrow> unit res \<Rightarrow> string res \<Rightarrow> 's cmd" where
  "cmd_node_adopt se st nm host user port identity_file want_id hk ident s =
     (case parse_ssh_target host user port of
        Inl e \<Rightarrow> (s, Inl e)
      | Inr target \<Rightarrow> (case node_identity_binding se identity_file (snd s) of
          (b, Inl e) \<Rightarrow> ((fst s, b), Inl e)
        | (b, Inr (_, reg_identity, admin_ref)) \<Rightarrow>
            (case rbind hk (\<lambda>_. ident) of
               Inl e \<Rightarrow> ((fst s, b), Inl e)
             | Inr nid \<Rightarrow>
                 if (case want_id of None \<Rightarrow> False | Some w \<Rightarrow> w \<noteq> [] \<and> w \<noteq> nid)
                 then ((fst s, b), die ''remote node_id does not match --node-id'')
                 else save_added se st nid nm target reg_identity admin_ref (fst s, b))))"

record node_set_args =
  ns_host :: "string option"
  ns_user :: "string option"
  ns_port :: "int option"
  ns_identity_file :: "string option"
  ns_clear_identity :: bool
  ns_observe_ref :: "string option"
  ns_observe_identity :: "string option"
  ns_clear_observe :: bool

definition given :: "string option \<Rightarrow> string option" where
  "given v = (case v of None \<Rightarrow> None | Some t \<Rightarrow> text_or_none t)"

text \<open>The admin and the observe part of \<open>cmd_node_set\<close>, each on the registry and the bindings.\<close>

definition set_admin_identity ::
    "ssh_env \<Rightarrow> string \<Rightarrow> node_set_args \<Rightarrow> reg_node \<Rightarrow> registry \<times> json_doc \<Rightarrow> json_doc \<times> registry res" where
  "set_admin_identity se nm a n gb = (case gb of (g, b) \<Rightarrow>
     if ns_clear_identity a then (b, Inr (set_node nm (\<lambda>n. n\<lparr>r_identity_file := None\<rparr>) g))
     else (case given (ns_identity_file a) of
         None \<Rightarrow> (b, Inr g)
       | Some raw \<Rightarrow> (case validate_identity_file se raw True of
           Inl e \<Rightarrow> (b, Inl e)
         | Inr p \<Rightarrow>
             if se_known_hosts se = None then (b, Inr (set_node nm (\<lambda>n. n\<lparr>r_identity_file := Some p\<rparr>) g))
             else (case bind_identity_for_workspace se p (r_admin_ref n) b of
                 (b', r) \<Rightarrow> (b', rbind r (\<lambda>k.
                    Inr (set_node nm (\<lambda>n. n\<lparr>r_admin_ref := Some k, r_identity_file := None\<rparr>) g)))))))"

definition set_observe_identity ::
    "ssh_env \<Rightarrow> string \<Rightarrow> node_set_args \<Rightarrow> reg_node \<Rightarrow> registry \<times> json_doc \<Rightarrow> json_doc \<times> registry res" where
  "set_observe_identity se nm a n gb = (case gb of (g, b) \<Rightarrow>
     if ns_clear_observe a then (b, Inr (set_node nm (\<lambda>n. n\<lparr>r_observe_ref := None\<rparr>) g))
     else (case given (ns_observe_identity a) of
         Some raw \<Rightarrow> (case validate_identity_file se raw True of
             Inl e \<Rightarrow> (b, Inl e)
           | Inr p \<Rightarrow>
               if se_known_hosts se = None
               then (b, die ''--observe-identity-file requires an active workspace'')
               else (case bind_identity_for_workspace se p (r_observe_ref n) b of
                   (b', r) \<Rightarrow> (b', rbind r (\<lambda>k.
                      Inr (set_node nm (\<lambda>n. n\<lparr>r_observe_ref := Some k\<rparr>) g)))))
       | None \<Rightarrow> (case given (ns_observe_ref a) of
             Some k \<Rightarrow> (b, Inr (set_node nm (\<lambda>n. n\<lparr>r_observe_ref := Some k\<rparr>) g))
           | None \<Rightarrow> (b, Inr g))))"

definition cmd_node_set :: "ssh_env \<Rightarrow> 's store \<Rightarrow> string \<Rightarrow> node_set_args \<Rightarrow> 's cmd" where
  "cmd_node_set se st nm a s =
     (let ident = given (ns_identity_file a); obref = given (ns_observe_ref a);
          obident = given (ns_observe_identity a); host = given (ns_host a)
      in if ident \<noteq> None \<and> ns_clear_identity a
         then (s, die ''use either --identity-file or --clear-identity-file'')
         else if obref \<noteq> None \<and> obident \<noteq> None
         then (s, die ''use either --observe-credential-ref or --observe-identity-file'')
         else if (obref \<noteq> None \<or> obident \<noteq> None) \<and> ns_clear_observe a
         then (s, die ''cannot clear observe credential while setting it'')
         else if host = None \<and> ident = None \<and> \<not> ns_clear_identity a \<and> obref = None \<and> obident = None
               \<and> \<not> ns_clear_observe a
         then (s, die ''node set requires an option'')
         else (case rbind (st_load st (fst s)) (\<lambda>g.
                  rbind (case host of None \<Rightarrow> Inr g | Some h \<Rightarrow> set_host nm h (ns_user a) (ns_port a) g) (\<lambda>g.
                  rbind (require_node g nm) (\<lambda>n. Inr (g, n)))) of
            Inl e \<Rightarrow> (s, Inl e)
          | Inr (g, n) \<Rightarrow>
              (case set_admin_identity se nm a n (g, snd s) of
                 (b, Inl e) \<Rightarrow> ((fst s, b), Inl e)
               | (b, Inr g) \<Rightarrow> (case set_observe_identity se nm a n (g, b) of
                   (b, Inl e) \<Rightarrow> ((fst s, b), Inl e)
                 | (b, Inr g) \<Rightarrow> save_with st g (fst s, b)))))"

definition cmd_node_enable :: "'s store \<Rightarrow> string \<Rightarrow> bool \<Rightarrow> 's cmd" where
  "cmd_node_enable st nm enabled s =
     (case rbind (st_load st (fst s)) (set_enabled nm enabled) of
        Inl e \<Rightarrow> (s, Inl e)
      | Inr g \<Rightarrow> save_with st g s)"

definition retire_in :: "string \<Rightarrow> registry \<Rightarrow> registry res" where
  "retire_in nm g = rbind (require_node g nm) (\<lambda>_.
     Inr (set_node nm (\<lambda>n. n\<lparr>n_status := Some ''retired'', n_enabled := False\<rparr>) g))"

end
