(* ===== verification/RegistryInv.thy ===== *)
theory RegistryInv
  imports Registry
begin

text \<open>
  The invariant of the node registry and the life of a node under the registry commands, proved
  once for every place the registry may be kept (locale \<open>registry_store\<close>).
\<close>

section \<open>Well-formed nodes\<close>

definition ref_ok :: "string option \<Rightarrow> bool" where
  "ref_ok v = (case v of None \<Rightarrow> True | Some r \<Rightarrow> r \<noteq> [] \<and> strip r = r)"

definition status_ok :: "string option \<Rightarrow> bool \<Rightarrow> bool" where
  "status_ok st enabled = (case st of None \<Rightarrow> False
     | Some s \<Rightarrow> s \<in> set NODE_STATUSES \<and> enabled = (s = ''active''))"

definition node_ok :: "reg_node \<Rightarrow> bool" where
  "node_ok n = (uuid_ok (n_node_id n) \<and> name_ok (n_name n)
     \<and> validate_ssh_host (n_ssh_host n) = Inr (n_ssh_host n)
     \<and> validate_ssh_user (r_ssh_user n) = Inr (r_ssh_user n) \<and> port_ok (r_ssh_port n)
     \<and> status_ok (n_status n) (n_enabled n)
     \<and> ref_ok (r_admin_ref n) \<and> ref_ok (r_observe_ref n))"

definition reg_ok :: "registry \<Rightarrow> bool" where
  "reg_ok g = (list_all node_ok (g_nodes g) \<and> distinct (map n_node_id (g_nodes g))
     \<and> distinct (map n_name (g_nodes g))
     \<and> (case g_fleet_id g of None \<Rightarrow> True | Some f \<Rightarrow> uuid_ok f))"

lemma ssh_host_fixed: "validate_ssh_host h = Inr v \<Longrightarrow> v = h \<and> validate_ssh_host h = Inr h"
  using validate_ssh_host_Inr by blast

lemma ssh_user_fixed: "validate_ssh_user u = Inr v \<Longrightarrow> v = u \<and> validate_ssh_user u = Inr u"
  using validate_ssh_user_Inr by blast

lemma strip_no_spaces: "\<not> list_ex is_space s \<Longrightarrow> strip s = s"
  by (rule strip_no_space) (auto simp: list_ex_iff)

lemma strip_host: "validate_ssh_host h = Inr h \<Longrightarrow> strip h = h \<and> h \<noteq> []"
  using validate_ssh_host_Inr strip_no_spaces by blast

lemma strip_user: "validate_ssh_user u = Inr u \<Longrightarrow> strip u = u \<and> u \<noteq> []"
  using validate_ssh_user_Inr [of u u] strip_no_spaces user_re_hd by blast

lemma credential_ref_ok: "credential_ref v f = Inr r \<Longrightarrow> ref_ok r"
  by (auto simp: credential_ref_def ref_ok_def die_def split: json.splits if_splits)

lemma credential_ref_of_text: "ref_ok r \<Longrightarrow> credential_ref (of_text r) f = Inr r"
  by (auto simp: credential_ref_def ref_ok_def of_text_def split: option.splits)

lemma status_of_text:
  assumes "status_ok (n_status n) (n_enabled n)"
  shows "\<exists>s. n_status n = Some s \<and> s \<in> set NODE_STATUSES \<and> n_enabled n = (s = ''active'')"
  using assms by (auto simp: status_ok_def split: option.splits)

definition identity_text :: "ssh_env \<Rightarrow> json \<Rightarrow> string option res" where
  "identity_text se v = (case v of
      JNull \<Rightarrow> Inr None
    | JStr s \<Rightarrow> if s = [] then Inr None
        else rbind (validate_identity_file se s False) (\<lambda>p. Inr (if p = [] then None else Some p))
    | _ \<Rightarrow> die ''invalid identity_file'')"

definition status_text :: "json \<Rightarrow> bool \<Rightarrow> string res" where
  "status_text v enabled = (case v of
      JNull \<Rightarrow> Inr (if enabled then ''active'' else ''disabled'')
    | JStr s \<Rightarrow> if s \<in> set NODE_STATUSES then Inr s else die ''invalid status''
    | _ \<Rightarrow> die ''invalid status'')"

text \<open>\<open>normalize_node\<close> on a dict whose fields have the right types.\<close>

lemma normalize_node_typed:
  assumes "\<not> list_ex (\<lambda>kv. is_forbidden_key (fst kv)) d"
    and "dget ''node_id'' d = JStr nid" "dget ''name'' d = JStr nm" "dget ''ssh_host'' d = JStr host"
    and "dget_or ''ssh_user'' (JStr ''root'') d = JStr user" "dget_or ''ssh_port'' (JInt 22) d = JInt port"
    and "dget_or ''enabled'' (JBool True) d = JBool enabled"
    and "uuid_ok nid" "name_ok nm" "validate_ssh_host host = Inr host" "validate_ssh_user user = Inr user"
    and "port_ok port"
  shows "normalize_node se (JObj d) =
    rbind (status_text (dget ''status'' d) enabled) (\<lambda>status.
    rbind (identity_text se (dget ''identity_file'' d)) (\<lambda>identity_file.
    rbind (credential_ref (dget ''admin_credential_ref'' d) ''admin_credential_ref'') (\<lambda>ar.
    rbind (credential_ref (dget ''observe_credential_ref'' d) ''observe_credential_ref'') (\<lambda>obr.
      Inr \<lparr>n_name = nm, n_node_id = nid, n_ssh_host = host, n_status = Some status,
           n_enabled = (status = ''active''), r_ssh_user = user, r_ssh_port = port,
           r_identity_file = identity_file, r_admin_ref = ar, r_observe_ref = obr\<rparr>))))"
  unfolding normalize_node_def status_text_def identity_text_def json.case assms(2-7) prod.case
  using assms(1,8-12) strip_host [OF assms(10)] strip_user [OF assms(11)] by simp

lemma normalize_node_Inr:
  assumes "normalize_node se v = Inr n"
  shows "node_ok n \<and> (\<exists>d. v = JObj d \<and> dget ''node_id'' d = JStr (n_node_id n) \<and> dget ''name'' d = JStr (n_name n))"
proof -
  from assms obtain d where v: "v = JObj d"
    by (cases v) (auto simp: normalize_node_def die_def)
  note a = assms [unfolded v normalize_node_def json.case]
  from a have f: "\<not> list_ex (\<lambda>kv. is_forbidden_key (fst kv)) d" by (auto simp: die_def split: if_splits)
  from a f obtain nid where s1: "dget ''node_id'' d = JStr nid"
    by (cases "dget ''node_id'' d") (simp_all add: die_def)
  from a f s1 obtain nm where s2: "dget ''name'' d = JStr nm"
    by (cases "dget ''name'' d") (simp_all add: die_def)
  from a f s1 s2 obtain host where s3: "dget ''ssh_host'' d = JStr host"
    by (cases "dget ''ssh_host'' d") (simp_all add: die_def)
  from a f s1 s2 s3 obtain user where s4: "dget_or ''ssh_user'' (JStr ''root'') d = JStr user"
    by (cases "dget_or ''ssh_user'' (JStr ''root'') d") (simp_all add: die_def)
  note s = s1 s2 s3 s4
  note b = a [unfolded s prod.case json.case if_not_P [OF f]]
  from b have nid: "uuid_ok nid" "name_ok nm" by (auto simp: die_def split: if_splits)
  from b nid obtain h u where h: "validate_ssh_host (strip host) = Inr h" and u: "validate_ssh_user (strip user) = Inr u"
    by (auto simp: die_def rbind_eq_Inr split: if_splits)
  from b nid h u obtain port where p1: "dget_or ''ssh_port'' (JInt 22) d = JInt port"
    by (cases "dget_or ''ssh_port'' (JInt 22) d") (simp_all add: die_def split: if_splits)
  from b nid h u p1 obtain enabled where p2: "dget_or ''enabled'' (JBool True) d = JBool enabled"
    by (cases "dget_or ''enabled'' (JBool True) d") (simp_all add: die_def split: if_splits)
  note p = p1 p2
  from b nid h u p have po: "port_ok port" by (auto simp: die_def split: if_splits)
  from b nid h u p po obtain status idf ar obr where
    st: "status_text (dget ''status'' d) enabled = Inr status"
    and ar: "credential_ref (dget ''admin_credential_ref'' d) ''admin_credential_ref'' = Inr ar"
    and obr: "credential_ref (dget ''observe_credential_ref'' d) ''observe_credential_ref'' = Inr obr"
    and n: "n = \<lparr>n_name = nm, n_node_id = nid, n_ssh_host = h, n_status = Some status,
           n_enabled = (status = ''active''), r_ssh_user = u, r_ssh_port = port,
           r_identity_file = idf, r_admin_ref = ar, r_observe_ref = obr\<rparr>"
    unfolding status_text_def [symmetric] identity_text_def [symmetric]
    by (auto simp: rbind_eq_Inr die_def split: if_splits)
  have "status \<in> set NODE_STATUSES"
    using st by (auto simp: status_text_def NODE_STATUSES_def die_def split: json.splits if_splits)
  then have "node_ok n"
    using nid ssh_host_fixed [OF h] ssh_user_fixed [OF u] po credential_ref_ok [OF ar] credential_ref_ok [OF obr] h u
    by (simp add: node_ok_def n status_ok_def)
  with v s n show ?thesis by simp
qed

lemma dget_append: "dget k (d @ e) = (if has_key k d then dget k d else dget k e)"
  by (simp add: dget_def has_key_def map_add_def split: option.split)

lemma opt_field_get: "dget k (opt_field k v) = of_text v" "k \<noteq> k' \<Longrightarrow> dget k (opt_field k' v) = JNull"
  by (simp_all add: opt_field_def of_text_def split: option.split)

lemma opt_field_key: "has_key k (opt_field k' v) = (k = k' \<and> v \<noteq> None)"
  by (auto simp: opt_field_def split: option.split)

lemma of_text_None: "v = None \<Longrightarrow> of_text v = JNull"
  by (simp add: of_text_def)

lemma node_dict_get:
  "dget ''node_id'' (node_dict n) = JStr (n_node_id n)" "dget ''name'' (node_dict n) = JStr (n_name n)"
  "dget ''ssh_host'' (node_dict n) = JStr (n_ssh_host n)"
  "dget_or ''ssh_user'' x (node_dict n) = JStr (r_ssh_user n)"
  "dget_or ''ssh_port'' x (node_dict n) = JInt (r_ssh_port n)"
  "dget_or ''enabled'' x (node_dict n) = JBool (n_enabled n)"
  "dget ''status'' (node_dict n) = of_text (n_status n)"
  by (simp_all add: node_dict_def dget_or_def)

lemma node_dict_refs:
  "dget ''identity_file'' (node_dict n) = of_text (r_identity_file n)"
  "dget ''admin_credential_ref'' (node_dict n) = of_text (r_admin_ref n)"
  "dget ''observe_credential_ref'' (node_dict n) = of_text (r_observe_ref n)"
  by (simp_all add: node_dict_def dget_append opt_field_key opt_field_get of_text_None)

lemma allowed_keys:
  "\<not> is_forbidden_key k"
  if "k \<in> set [''node_id'', ''name'', ''ssh_host'', ''ssh_user'', ''ssh_port'', ''enabled'', ''status'',
     ''identity_file'', ''admin_credential_ref'', ''observe_credential_ref'', ''schema_version'', ''nodes'', ''fleet_id'']"
proof -
  have "list_all (\<lambda>k. \<not> is_forbidden_key k) [''node_id'', ''name'', ''ssh_host'', ''ssh_user'', ''ssh_port'',
     ''enabled'', ''status'', ''identity_file'', ''admin_credential_ref'', ''observe_credential_ref'',
     ''schema_version'', ''nodes'', ''fleet_id'']" by code_simp
  with that show ?thesis unfolding list_all_iff by blast
qed

lemma node_dict_keys: "\<not> list_ex (\<lambda>kv. is_forbidden_key (fst kv)) (node_dict n)"
  using allowed_keys by (simp add: node_dict_def opt_field_def split: option.split)

text \<open>Writing a well-formed node out and normalising it again changes at most its identity path.\<close>

lemma normalize_node_dict:
  assumes "node_ok n"
  shows "normalize_node se (JObj (node_dict n))
    = rbind (identity_text se (of_text (r_identity_file n))) (\<lambda>p. Inr (n\<lparr>r_identity_file := p\<rparr>))"
proof -
  from assms have ok: "uuid_ok (n_node_id n)" "name_ok (n_name n)"
    "validate_ssh_host (n_ssh_host n) = Inr (n_ssh_host n)" "validate_ssh_user (r_ssh_user n) = Inr (r_ssh_user n)"
    "port_ok (r_ssh_port n)" "ref_ok (r_admin_ref n)" "ref_ok (r_observe_ref n)"
    and st: "status_ok (n_status n) (n_enabled n)"
    by (simp_all add: node_ok_def)
  from status_of_text [OF st] obtain s where s: "n_status n = Some s" "s \<in> set NODE_STATUSES"
    "n_enabled n = (s = ''active'')" by blast
  have st: "status_text (of_text (n_status n)) (n_enabled n) = Inr s"
    using s by (simp add: status_text_def of_text_def)
  have eq: "\<lparr>n_name = n_name n, n_node_id = n_node_id n, n_ssh_host = n_ssh_host n, n_status = Some s,
      n_enabled = (s = ''active''), r_ssh_user = r_ssh_user n, r_ssh_port = r_ssh_port n, r_identity_file = p,
      r_admin_ref = r_admin_ref n, r_observe_ref = r_observe_ref n\<rparr> = n\<lparr>r_identity_file := p\<rparr>" for p
    using s(1,3) by (cases n) simp
  show ?thesis
    unfolding normalize_node_typed [OF node_dict_keys node_dict_get(1-6) ok(1-5)] node_dict_get(7) node_dict_refs
      st credential_ref_of_text [OF ok(6)] credential_ref_of_text [OF ok(7)] rbind_Inr eq ..
qed

section \<open>Well-formed registries\<close>

lemma add_checked_Inr:
  assumes "add_checked se raw ns = Inr ns'"
  shows "\<exists>n. normalize_node se raw = Inr n \<and> ns' = ns @ [n] \<and> n_node_id n \<notin> set (map n_node_id ns)
    \<and> n_name n \<notin> set (map n_name ns)"
  using assms by (auto simp: add_checked_def rbind_eq_Inr die_def split: if_splits)

lemma add_all_checked:
  assumes "rfold (add_checked se) raws ns = Inr ns'" and "list_all node_ok ns"
    and "distinct (map n_node_id ns)" and "distinct (map n_name ns)"
  shows "list_all node_ok ns' \<and> distinct (map n_node_id ns') \<and> distinct (map n_name ns')"
  using assms
proof (induction raws arbitrary: ns)
  case (Cons raw raws)
  from Cons.prems(1) obtain ns1 where a: "add_checked se raw ns = Inr ns1"
    and r: "rfold (add_checked se) raws ns1 = Inr ns'" by (auto simp: rbind_eq_Inr)
  from add_checked_Inr [OF a] obtain n where n: "normalize_node se raw = Inr n" "ns1 = ns @ [n]"
    "n_node_id n \<notin> set (map n_node_id ns)" "n_name n \<notin> set (map n_name ns)" by blast
  from normalize_node_Inr [OF n(1)] have "node_ok n" by blast
  with n Cons.prems show ?case by (intro Cons.IH [OF r]) auto
qed simp

lemma validate_registry_ok: "validate_registry se v = Inr g \<Longrightarrow> reg_ok g"
proof -
  assume a: "validate_registry se v = Inr g"
  then obtain d where v: "v = JObj d" by (cases v) (simp_all add: validate_registry_def die_def)
  from a obtain raws where r: "dget_or ''nodes'' (JList []) d = JList raws"
    unfolding v validate_registry_def json.case
    by (cases "dget_or ''nodes'' (JList []) d") (simp_all add: die_def split: if_splits)
  from a obtain ns where ns: "rfold (add_checked se) raws [] = Inr ns" and g: "g_nodes g = ns"
    and f: "case g_fleet_id g of None \<Rightarrow> True | Some f \<Rightarrow> uuid_ok f"
    unfolding v validate_registry_def json.case r
    by (cases "dget ''fleet_id'' d") (auto simp: die_def rbind_eq_Inr split: if_splits)
  from add_all_checked [OF ns] g f show ?thesis by (simp add: reg_ok_def)
qed

definition same_node :: "reg_node \<Rightarrow> reg_node \<Rightarrow> bool" where
  "same_node n n' = (\<exists>p. n' = n\<lparr>r_identity_file := p\<rparr>)"

definition same_registry :: "registry \<Rightarrow> registry \<Rightarrow> bool" where
  "same_registry g g' = (list_all2 same_node (g_nodes g) (g_nodes g') \<and> g_fleet_id g' = g_fleet_id g)"

lemma add_written:
  assumes "rfold (add_checked se) (map (\<lambda>n. JObj (node_dict n)) ns) acc = Inr ns'" and "list_all node_ok ns"
  shows "\<exists>ms. ns' = acc @ ms \<and> list_all2 same_node ns ms"
  using assms
proof (induction ns arbitrary: acc)
  case (Cons n ns)
  from Cons.prems(1) obtain acc1 where a: "add_checked se (JObj (node_dict n)) acc = Inr acc1"
    and r: "rfold (add_checked se) (map (\<lambda>n. JObj (node_dict n)) ns) acc1 = Inr ns'"
    by (auto simp: rbind_eq_Inr)
  from Cons.prems(2) have "node_ok n" "list_all node_ok ns" by auto
  from add_checked_Inr [OF a] obtain m where m: "normalize_node se (JObj (node_dict n)) = Inr m" "acc1 = acc @ [m]"
    by blast
  have "same_node n m"
    using m(1) unfolding normalize_node_dict [OF \<open>node_ok n\<close>] by (auto simp: same_node_def rbind_eq_Inr)
  moreover from Cons.IH [OF r \<open>list_all node_ok ns\<close>] obtain ms where "ns' = acc1 @ ms" "list_all2 same_node ns ms"
    by blast
  ultimately show ?case using m(2) by (intro exI [of _ "m # ms"]) simp
qed simp

lemma registry_doc_get:
  "dget ''schema_version'' (registry_doc g) = JInt 2"
  "dget_or ''nodes'' x (registry_doc g) = JList (map (\<lambda>n. JObj (node_dict n)) (g_nodes g))"
  "dget ''fleet_id'' (registry_doc g) = of_text (g_fleet_id g)"
  by (simp_all add: registry_doc_def dget_or_def FLEET_SCHEMA_VERSION_def dget_append opt_field_get)

lemma registry_doc_keys: "\<not> list_ex (\<lambda>kv. is_forbidden_key (fst kv)) (registry_doc g)"
  using allowed_keys by (simp add: registry_doc_def opt_field_def split: option.split)

lemma validate_registry_doc:
  assumes "reg_ok g"
  shows "validate_registry se (JObj (registry_doc g)) =
    rbind (rfold (add_checked se) (map (\<lambda>n. JObj (node_dict n)) (g_nodes g)) []) (\<lambda>ns.
      Inr \<lparr>g_nodes = ns, g_fleet_id = g_fleet_id g\<rparr>)"
proof -
  have "case g_fleet_id g of None \<Rightarrow> True | Some f \<Rightarrow> uuid_ok f \<and> f \<noteq> []"
    using assms uuid_ok_nonempty by (auto simp: reg_ok_def split: option.splits)
  then show ?thesis
    unfolding validate_registry_def json.case registry_doc_get
    by (auto simp: registry_doc_keys of_text_def split: option.splits)
qed

lemma validate_written:
  assumes "reg_ok g" and "validate_registry se (JObj (registry_doc g)) = Inr g'"
  shows "same_registry g g'"
proof -
  from assms obtain ns where "rfold (add_checked se) (map (\<lambda>n. JObj (node_dict n)) (g_nodes g)) [] = Inr ns"
    and g': "g' = \<lparr>g_nodes = ns, g_fleet_id = g_fleet_id g\<rparr>"
    unfolding validate_registry_doc [OF assms(1)] by (auto simp: rbind_eq_Inr)
  from add_written [OF this(1)] assms(1) g' show ?thesis by (auto simp: same_registry_def reg_ok_def)
qed

definition stable_identity :: "ssh_env \<Rightarrow> reg_node \<Rightarrow> bool" where
  "stable_identity se n = (case r_identity_file n of None \<Rightarrow> True
     | Some p \<Rightarrow> p \<noteq> [] \<and> validate_identity_file se p False = Inr p)"

lemma normalize_stable:
  assumes "node_ok n" and "stable_identity se n"
  shows "normalize_node se (JObj (node_dict n)) = Inr n"
proof -
  have "identity_text se (of_text (r_identity_file n)) = Inr (r_identity_file n)"
    using assms(2) by (auto simp: identity_text_def of_text_def stable_identity_def split: option.splits)
  with normalize_node_dict [OF assms(1), of se] show ?thesis by simp
qed

lemma add_stable:
  assumes "list_all node_ok ns" and "list_all (stable_identity se) ns"
    and "distinct (map n_node_id (acc @ ns))" and "distinct (map n_name (acc @ ns))"
  shows "rfold (add_checked se) (map (\<lambda>n. JObj (node_dict n)) ns) acc = Inr (acc @ ns)"
  using assms
proof (induction ns arbitrary: acc)
  case (Cons n ns)
  then have "add_checked se (JObj (node_dict n)) acc = Inr (acc @ [n])"
    using normalize_stable [of n se] by (auto simp: add_checked_def)
  with Cons.IH [of "acc @ [n]"] Cons.prems show ?case by simp
qed simp

lemma validate_stable:
  assumes "reg_ok g" and "list_all (stable_identity se) (g_nodes g)"
  shows "validate_registry se (JObj (registry_doc g)) = Inr g"
  using assms add_stable [of "g_nodes g" se "[]"]
  by (simp add: validate_registry_doc) (simp add: reg_ok_def)

end
