(* ===== verification/RegistryStore.thy ===== *)
theory RegistryStore
  imports RegistryInv
begin

text \<open>
  The registry commands over any store (locale \<open>registry_store\<close>) and the legacy store, the
  plain \<open>fleet.json\<close> of a home without workspace.
\<close>

section \<open>What an operation keeps\<close>

text \<open>Every node stays, under its id and name, and a retired one stays retired.\<close>

definition persists :: "registry \<Rightarrow> registry \<Rightarrow> bool" where
  "persists g g' = (\<forall>n \<in> set (g_nodes g). \<exists>n' \<in> set (g_nodes g').
     n_node_id n' = n_node_id n \<and> n_name n' = n_name n \<and> (life n = ''retired'' \<longrightarrow> life n' = ''retired''))"

lemma persists_refl [simp]: "persists g g"
  by (auto simp: persists_def)

lemma persists_trans: "persists g g' \<Longrightarrow> persists g' g'' \<Longrightarrow> persists g g''"
  unfolding persists_def by metis

lemma persists_require:
  assumes "persists g g'" and "require_node g nm = Inr n"
  shows "\<exists>n'. require_node g' nm = Inr n'"
proof -
  from assms(2) have "n \<in> set (g_nodes g)" "n_name n = nm"
    by (auto simp: require_node_def reg_by_name_def die_def dest: find_SomeD split: option.splits)
  with assms(1) obtain n' where "n' \<in> set (g_nodes g')" "n_name n' = nm" unfolding persists_def by blast
  then have "reg_by_name g' nm \<noteq> None" by (auto simp: reg_by_name_def find_None_iff)
  then show ?thesis by (auto simp: require_node_def)
qed

lemma same_node_fields:
  assumes "same_node n n'"
  shows "n_node_id n' = n_node_id n" "n_name n' = n_name n" "life n' = life n" "node_ok n' = node_ok n"
  using assms by (auto simp: same_node_def life_def node.truncate_def node_ok_def)

lemma same_registry_persists: "same_registry g g' \<Longrightarrow> persists g g'"
  unfolding same_registry_def persists_def
  using same_node_fields by (metis (no_types, lifting) in_set_conv_nth list_all2_conv_all_nth)

lemma same_nodes_map:
  assumes "list_all2 same_node ns ms"
  shows "map n_node_id ms = map n_node_id ns" "map n_name ms = map n_name ns" "list_all node_ok ms = list_all node_ok ns"
  using assms by (induction rule: list_all2_induct) (simp_all add: same_node_fields)

lemma same_registry_ok: "same_registry g g' \<Longrightarrow> reg_ok g' = reg_ok g"
  unfolding same_registry_def reg_ok_def using same_nodes_map by metis

lemma same_node_trans: "same_node a b \<Longrightarrow> same_node b c \<Longrightarrow> same_node a c"
  by (auto simp: same_node_def)

lemma same_registry_trans: "same_registry a b \<Longrightarrow> same_registry b c \<Longrightarrow> same_registry a c"
  unfolding same_registry_def using list_all2_trans [of same_node same_node same_node] same_node_trans by metis

lemma update_first_map:
  assumes "\<And>x. P x \<Longrightarrow> key (f x) = key x"
  shows "map key (update_first P f xs) = map key xs"
  using assms by (induction xs) auto

lemma update_first_all:
  assumes "list_all Q xs" and "\<And>x. P x \<Longrightarrow> Q x \<Longrightarrow> Q (f x)"
  shows "list_all Q (update_first P f xs)"
  using assms by (induction xs) auto

lemma update_first_member:
  "x \<in> set xs \<Longrightarrow> x \<in> set (update_first P f xs) \<or> (P x \<and> f x \<in> set (update_first P f xs) \<and> find P xs = Some x)"
  by (induction xs) auto

lemma set_node_keeps:
  assumes "reg_ok g" and "require_node g nm = Inr n0"
    and "\<And>n. node_ok n \<Longrightarrow> node_ok (f n)" and "\<And>n. n_node_id (f n) = n_node_id n" and "\<And>n. n_name (f n) = n_name n"
    and "life n0 = ''retired'' \<Longrightarrow> life (f n0) = ''retired''"
  shows "reg_ok (set_node nm f g) \<and> persists g (set_node nm f g)"
proof -
  have f0: "find (\<lambda>n. n_name n = nm) (g_nodes g) = Some n0"
    using assms(2) by (auto simp: require_node_def reg_by_name_def die_def split: option.splits)
  have "reg_ok (set_node nm f g)"
    using assms(1,3,4,5) by (simp add: reg_ok_def set_node_def update_first_map update_first_all)
  moreover have "persists g (set_node nm f g)"
    unfolding persists_def
  proof
    fix n assume n: "n \<in> set (g_nodes g)"
    from update_first_member [OF n, of "\<lambda>n. n_name n = nm" f] f0 assms(4,5,6)
    show "\<exists>n' \<in> set (g_nodes (set_node nm f g)). n_node_id n' = n_node_id n \<and> n_name n' = n_name n
        \<and> (life n = ''retired'' \<longrightarrow> life n' = ''retired'')"
      by (auto simp: set_node_def)
  qed
  ultimately show ?thesis ..
qed

lemma life_update [simp]:
  "life (n\<lparr>r_identity_file := a\<rparr>) = life n" "life (n\<lparr>r_admin_ref := a\<rparr>) = life n"
  "life (n\<lparr>r_observe_ref := a\<rparr>) = life n" "life (n\<lparr>n_ssh_host := h\<rparr>) = life n"
  "life (n\<lparr>r_ssh_user := h\<rparr>) = life n" "life (n\<lparr>r_ssh_port := p\<rparr>) = life n"
  by (simp_all add: life_def node.truncate_def node_lifecycle_status_def)

lemma parse_ssh_target_Inr:
  assumes "parse_ssh_target host user port = Inr (h, u, p)"
  shows "validate_ssh_host h = Inr h \<and> validate_ssh_user u = Inr u \<and> port_ok p"
  using assms
  by (auto simp: parse_ssh_target_def Let_def die_def rbind_eq_Inr dest: ssh_host_fixed ssh_user_fixed
      split: if_splits)

lemma set_host_keeps:
  assumes "reg_ok g" and "set_host nm host user port g = Inr g'"
  shows "reg_ok g' \<and> persists g g'"
proof -
  from assms(2) obtain n h u p where n: "require_node g nm = Inr n"
    and p: "parse_ssh_target host user (Some (case port of Some p \<Rightarrow> p | None \<Rightarrow> r_ssh_port n)) = Inr (h, u, p)"
    and g': "g' = set_node nm (\<lambda>n. n\<lparr>n_ssh_host := h,
            r_ssh_user := (if user \<noteq> None \<or> CHR ''@'' \<in> set host then u else r_ssh_user n),
            r_ssh_port := (if port \<noteq> None then p else r_ssh_port n)\<rparr>) g"
    by (auto simp: set_host_def rbind_eq_Inr)
  show ?thesis unfolding g'
    by (rule set_node_keeps [OF assms(1) n]) (use parse_ssh_target_Inr [OF p] in \<open>simp_all add: node_ok_def\<close>)
qed

lemma set_enabled_keeps:
  assumes "reg_ok g" and "set_enabled nm enabled g = Inr g'"
  shows "reg_ok g' \<and> persists g g'"
proof -
  from assms(2) obtain n where n: "require_node g nm = Inr n" and l: "life n \<noteq> ''retired''"
    and g': "g' = set_node nm (\<lambda>n. if enabled then n\<lparr>n_status := Some ''active'', n_enabled := True\<rparr>
            else n\<lparr>n_status := Some ''disabled'', n_enabled := False\<rparr>) g"
    by (auto simp: set_enabled_def rbind_eq_Inr die_def split: if_splits)
  show ?thesis unfolding g'
    by (rule set_node_keeps [OF assms(1) n]) (use l in \<open>auto simp: node_ok_def status_ok_def NODE_STATUSES_def\<close>)
qed

lemma retire_keeps:
  assumes "reg_ok g" and "retire_in nm g = Inr g'"
  shows "reg_ok g' \<and> persists g g'"
proof -
  from assms(2) obtain n where n: "require_node g nm = Inr n"
    and g': "g' = set_node nm (\<lambda>n. n\<lparr>n_status := Some ''retired'', n_enabled := False\<rparr>) g"
    by (auto simp: retire_in_def rbind_eq_Inr)
  show ?thesis unfolding g'
    by (rule set_node_keeps [OF assms(1) n])
       (auto simp: node_ok_def status_ok_def NODE_STATUSES_def life_def node.truncate_def node_lifecycle_status_def)
qed

lemma add_node_keeps:
  assumes "reg_ok g" and "add_node se nid nm h u p idf ar g = Inr g'"
  shows "reg_ok g' \<and> persists g g'"
proof -
  from assms(2) obtain r d where r: "normalize_node se (JObj d) = Inr r" and g': "g' = g\<lparr>g_nodes := g_nodes g @ [r]\<rparr>"
    and d: "dget ''node_id'' d = JStr nid" "dget ''name'' d = JStr nm"
    and fresh: "find_by_node_id g nid = None" "reg_by_name g nm = None"
    by (auto simp: add_node_def rbind_eq_Inr die_def Let_def split: if_splits)
  from normalize_node_Inr [OF r] d have "node_ok r" "n_node_id r = nid" "n_name r = nm" by auto
  with assms(1) fresh show ?thesis unfolding g'
    by (auto simp: reg_ok_def persists_def find_by_node_id_def reg_by_name_def find_None_iff)
qed

lemma text_or_none_ref_ok: "text_or_none s = Some k \<Longrightarrow> ref_ok (Some k)"
  by (auto simp: ref_ok_def text_or_none_def split: if_splits)

lemma bind_identity_for_workspace_ref:
  "bind_identity_for_workspace se p ref b = (b', Inr k) \<Longrightarrow> ref_ok (Some k)"
proof -
  have "ref_ok (Some DEFAULT_ADMIN_CREDENTIAL_REF)" by code_simp
  then show "bind_identity_for_workspace se p ref b = (b', Inr k) \<Longrightarrow> ref_ok (Some k)"
    by (auto simp: bind_identity_for_workspace_def Let_def rbind_eq_Inr
        split: option.splits prod.splits dest: text_or_none_ref_ok)
qed

lemma set_admin_identity_keeps:
  assumes "reg_ok g" and "require_node g nm = Inr n" and "set_admin_identity se nm a n (g, b) = (b', Inr g')"
  shows "reg_ok g' \<and> persists g g'"
proof -
  have ok: "reg_ok (set_node nm f g) \<and> persists g (set_node nm f g)"
    if "f = (\<lambda>n. n\<lparr>r_identity_file := i\<rparr>) \<or> (f = (\<lambda>n. n\<lparr>r_admin_ref := Some k, r_identity_file := i\<rparr>) \<and> ref_ok (Some k))"
    for f i k
    by (rule set_node_keeps [OF assms(1,2)]) (use that in \<open>auto simp: node_ok_def\<close>)
  consider "g' = g" | i where "g' = set_node nm (\<lambda>n. n\<lparr>r_identity_file := i\<rparr>) g"
    | k where "ref_ok (Some k)" "g' = set_node nm (\<lambda>n. n\<lparr>r_admin_ref := Some k, r_identity_file := None\<rparr>) g"
  proof (cases "ns_clear_identity a")
    case True
    with assms(3) have "g' = set_node nm (\<lambda>n. n\<lparr>r_identity_file := None\<rparr>) g"
      by (auto simp: set_admin_identity_def)
    with that(2) show thesis by blast
  next
    case c: False
    show thesis
    proof (cases "given (ns_identity_file a)")
      case None
      with c assms(3) that(1) show thesis by (simp add: set_admin_identity_def)
    next
      case (Some raw)
      with c assms(3) obtain p where p: "validate_identity_file se raw True = Inr p"
        by (auto simp: set_admin_identity_def split: sum.splits)
      obtain b1 r where r: "bind_identity_for_workspace se p (r_admin_ref n) b = (b1, r)" by fastforce
      show thesis
      proof (cases "se_known_hosts se = None")
        case True
        with c Some p assms(3) have "g' = set_node nm (\<lambda>n. n\<lparr>r_identity_file := Some p\<rparr>) g"
          by (auto simp: set_admin_identity_def)
        with that(2) show thesis by blast
      next
        case False
        with c Some p r assms(3) obtain k where k: "r = Inr k"
          "g' = set_node nm (\<lambda>n. n\<lparr>r_admin_ref := Some k, r_identity_file := None\<rparr>) g"
          by (auto simp: set_admin_identity_def rbind_eq_Inr)
        with bind_identity_for_workspace_ref [OF r [unfolded k(1)]] that(3) show thesis by blast
      qed
    qed
  qed
  then show ?thesis using ok assms(1) by cases auto
qed

lemma set_observe_identity_keeps:
  assumes "reg_ok g" and "require_node g nm = Inr n" and "set_observe_identity se nm a m (g, b) = (b', Inr g')"
  shows "reg_ok g' \<and> persists g g'"
proof -
  have ok: "reg_ok (set_node nm (\<lambda>n. n\<lparr>r_observe_ref := v\<rparr>) g) \<and> persists g (set_node nm (\<lambda>n. n\<lparr>r_observe_ref := v\<rparr>) g)"
    if "ref_ok v" for v
    by (rule set_node_keeps [OF assms(1,2)]) (use that in \<open>auto simp: node_ok_def\<close>)
  have "g' = g \<or> (\<exists>v. ref_ok v \<and> g' = set_node nm (\<lambda>n. n\<lparr>r_observe_ref := v\<rparr>) g)"
  proof (cases "ns_clear_observe a")
    case True
    then have "g' = set_node nm (\<lambda>n. n\<lparr>r_observe_ref := None\<rparr>) g"
      using assms(3) by (auto simp: set_observe_identity_def)
    moreover have "ref_ok None" by (simp add: ref_ok_def)
    ultimately show ?thesis by blast
  next
    case c: False
    show ?thesis
    proof (cases "given (ns_observe_identity a)")
      case None
      then show ?thesis using c assms(3) text_or_none_ref_ok
        by (cases "given (ns_observe_ref a)")
           (auto simp: set_observe_identity_def given_def split: option.splits)
    next
      case (Some raw)
      with c assms(3) obtain p where p: "validate_identity_file se raw True = Inr p"
        and w: "se_known_hosts se \<noteq> None"
        by (auto simp: set_observe_identity_def die_def split: sum.splits if_splits)
      obtain b1 r where r: "bind_identity_for_workspace se p (r_observe_ref m) b = (b1, r)" by fastforce
      with c Some p w assms(3) obtain k where k: "r = Inr k"
        "g' = set_node nm (\<lambda>n. n\<lparr>r_observe_ref := Some k\<rparr>) g"
        by (auto simp: set_observe_identity_def rbind_eq_Inr)
      with bind_identity_for_workspace_ref [OF r [unfolded k(1)]] show ?thesis by blast
    qed
  qed
  with ok assms(1) show ?thesis by auto
qed

section \<open>Sequences of commands\<close>

datatype reg_cmd =
    Register string string "string option" "int option" "string option" "string option"
  | Adopt string string "string option" "int option" "string option" "string option" "unit res" "string res"
  | Set_Node string node_set_args
  | Enable string bool

fun run_cmd :: "ssh_env \<Rightarrow> 's store \<Rightarrow> reg_cmd \<Rightarrow> 's cmd" where
  "run_cmd se st (Register nm host user port idf nid) s = cmd_node_register se st nm host user port idf nid s"
| "run_cmd se st (Adopt nm host user port idf nid hk ident) s =
     cmd_node_adopt se st nm host user port idf nid hk ident s"
| "run_cmd se st (Set_Node nm a) s = cmd_node_set se st nm a s"
| "run_cmd se st (Enable nm e) s = cmd_node_enable st nm e s"

definition run_cmds :: "ssh_env \<Rightarrow> 's store \<Rightarrow> reg_cmd list \<Rightarrow> 's \<times> json_doc \<Rightarrow> 's \<times> json_doc" where
  "run_cmds se st cs s = fold (\<lambda>c s. fst (run_cmd se st c s)) cs s"

text \<open>
  What the commands need of the place where the registry is kept: what is loaded is valid, and
  after a save the old registry is still there or the new one is, up to the spelling of local
  identity paths; a save that reports success has replaced it.
\<close>

locale registry_store =
  fixes se :: ssh_env and st :: "'s store"
  assumes load_ok: "st_load st s = Inr g \<Longrightarrow> reg_ok g"
    and save_or_keep: "reg_ok g \<Longrightarrow> st_save st g s = (s', r) \<Longrightarrow>
      st_load st s' = st_load st s \<or> (\<forall>g'. st_load st s' = Inr g' \<longrightarrow> same_registry g g')"
    and save_done: "reg_ok g \<Longrightarrow> st_save st g s = (s', Inr ()) \<Longrightarrow> st_load st s' = Inr g' \<Longrightarrow>
      same_registry g g'"
begin

definition keeps :: "'s \<times> json_doc \<Rightarrow> 's \<times> json_doc \<Rightarrow> bool" where
  "keeps s s' = (\<forall>g'. st_load st (fst s') = Inr g' \<longrightarrow>
     (\<exists>g. st_load st (fst s) = Inr g \<and> reg_ok g' \<and> persists g g'))"

lemma keeps_same: "fst s' = fst s \<Longrightarrow> keeps s s'"
  using load_ok by (auto simp: keeps_def)

lemma keeps_if: "keeps s (fst m) \<Longrightarrow> keeps s (fst (if c then (s, r) else m))"
  by (simp add: keeps_same)

lemma keeps_trans: "keeps s s' \<Longrightarrow> keeps s' s'' \<Longrightarrow> keeps s s''"
  unfolding keeps_def using persists_trans by blast

lemma save_keeps:
  assumes "st_load st (fst s) = Inr g0" and "reg_ok g" and "persists g0 g"
    and "save_with st g (fst s, b) = (s', r)"
  shows "keeps s s'"
proof -
  obtain t where t: "st_save st g (fst s) = (fst s', t)"
    using assms(4) by (auto simp: save_with_def split: prod.splits)
  show ?thesis
    unfolding keeps_def
  proof (intro allI impI)
    fix g' assume g': "st_load st (fst s') = Inr g'"
    from save_or_keep [OF assms(2) t] g' have "g' = g0 \<or> same_registry g g'" using assms(1) by auto
    then have "persists g0 g'"
    proof
      assume "same_registry g g'"
      from persists_trans [OF assms(3) same_registry_persists [OF this]] show ?thesis .
    qed simp
    with g' assms(1) load_ok show "\<exists>g. st_load st (fst s) = Inr g \<and> reg_ok g' \<and> persists g g'" by blast
  qed
qed

lemma enable_keeps: "keeps s (fst (cmd_node_enable st nm e s))"
proof (cases "rbind (st_load st (fst s)) (set_enabled nm e)")
  case (Inl x)
  then show ?thesis by (simp add: cmd_node_enable_def keeps_same)
next
  case (Inr g)
  then obtain g0 where g0: "st_load st (fst s) = Inr g0" "set_enabled nm e g0 = Inr g" by (auto simp: rbind_eq_Inr)
  from set_enabled_keeps [OF load_ok [OF g0(1)] g0(2)] have k: "reg_ok g" "persists g0 g" by auto
  obtain s' r where s': "save_with st g (fst s, snd s) = (s', r)" by fastforce
  from save_keeps [OF g0(1) k s'] Inr s' show ?thesis by (simp add: cmd_node_enable_def)
qed

lemma save_added_keeps: "keeps s (fst (save_added se st nid nm target idf ar (fst s, b)))"
proof -
  obtain h u p where t: "target = (h, u, p)" by (cases target) auto
  show ?thesis
  proof (cases "rbind (st_load st (fst s)) (add_node se nid nm h u p idf ar)")
    case (Inl x)
    then show ?thesis by (simp add: save_added_def t keeps_same)
  next
    case (Inr g)
    then obtain g0 where g0: "st_load st (fst s) = Inr g0" "add_node se nid nm h u p idf ar g0 = Inr g"
      by (auto simp: rbind_eq_Inr)
    from add_node_keeps [OF load_ok [OF g0(1)] g0(2)] have k: "reg_ok g" "persists g0 g" by auto
    obtain s' r where s': "save_with st g (fst s, b) = (s', r)" by fastforce
    from save_keeps [OF g0(1) k s'] Inr s' show ?thesis by (simp add: save_added_def t)
  qed
qed

lemma register_keeps: "keeps s (fst (cmd_node_register se st nm host user port idf nid s))"
  unfolding cmd_node_register_def
  by (auto simp: keeps_same save_added_keeps split: sum.split prod.split option.split)

lemma adopt_keeps: "keeps s (fst (cmd_node_adopt se st nm host user port idf nid hk ident s))"
  unfolding cmd_node_adopt_def
  by (auto simp: keeps_same save_added_keeps split: sum.split prod.split)

lemma set_keeps: "keeps s (fst (cmd_node_set se st nm a s))"
proof -
  define load where "load = rbind (st_load st (fst s)) (\<lambda>g.
      rbind (case given (ns_host a) of None \<Rightarrow> Inr g | Some h \<Rightarrow> set_host nm h (ns_user a) (ns_port a) g) (\<lambda>g.
      rbind (require_node g nm) (\<lambda>n. Inr (g, n))))"
  have main: "keeps s (fst (case load of Inl e \<Rightarrow> (s, Inl e)
          | Inr (g, n) \<Rightarrow>
              (case set_admin_identity se nm a n (g, snd s) of
                 (b, Inl e) \<Rightarrow> ((fst s, b), Inl e)
               | (b, Inr g) \<Rightarrow> (case set_observe_identity se nm a n (g, b) of
                   (b, Inl e) \<Rightarrow> ((fst s, b), Inl e)
                 | (b, Inr g) \<Rightarrow> save_with st g (fst s, b)))))"
  proof (cases load)
    case (Inl e)
    then show ?thesis by (simp add: keeps_same)
  next
    case (Inr gn)
    obtain g n where gn: "gn = (g, n)" by fastforce
    with Inr obtain g0 where g0: "st_load st (fst s) = Inr g0"
      and host: "(case given (ns_host a) of None \<Rightarrow> Inr g0 | Some h \<Rightarrow> set_host nm h (ns_user a) (ns_port a) g0) = Inr g"
      and n: "require_node g nm = Inr n"
      unfolding load_def rbind_eq_Inr by blast
    have k: "reg_ok g \<and> persists g0 g"
      using host set_host_keeps [OF load_ok [OF g0]] load_ok [OF g0] by (auto split: option.splits)
    obtain b1 r1 where a1: "set_admin_identity se nm a n (g, snd s) = (b1, r1)" by fastforce
    show ?thesis
    proof (cases r1)
      case (Inl e)
      then show ?thesis unfolding \<open>load = Inr gn\<close> gn sum.case prod.case a1 by (simp add: Inl keeps_same)
    next
      case r1: (Inr g1)
      from set_admin_identity_keeps [OF _ n a1 [unfolded r1]] k have k1: "reg_ok g1 \<and> persists g g1" by blast
      obtain b2 r2 where a2: "set_observe_identity se nm a n (g1, b1) = (b2, r2)" by fastforce
      show ?thesis
      proof (cases r2)
        case (Inl e)
        then show ?thesis unfolding \<open>load = Inr gn\<close> gn sum.case prod.case a1 r1 a2 by (simp add: Inl keeps_same)
      next
        case r2: (Inr g2)
        from persists_require [OF _ n] k1 obtain n1 where "require_node g1 nm = Inr n1" by blast
        from set_observe_identity_keeps [OF _ this a2 [unfolded r2]] k1 have k2: "reg_ok g2 \<and> persists g1 g2" by blast
        obtain s' r where s': "save_with st g2 (fst s, b2) = (s', r)" by fastforce
        have "persists g0 g2" using k k1 k2 persists_trans by blast
        from save_keeps [OF g0 _ this s'] k2 show ?thesis
          unfolding \<open>load = Inr gn\<close> gn sum.case prod.case a1 r1 a2 r2 s' by simp
      qed
    qed
  qed
  show ?thesis
    unfolding cmd_node_set_def Let_def load_def [symmetric] by (intro keeps_if main)
qed

lemma run_cmd_keeps: "keeps s (fst (run_cmd se st c s))"
  by (cases c) (simp_all add: register_keeps adopt_keeps set_keeps enable_keeps)

lemma run_cmds_keeps: "keeps s (run_cmds se st cs s)"
proof (induction cs arbitrary: s)
  case Nil
  show ?case by (simp add: run_cmds_def keeps_same)
next
  case (Cons c cs)
  have "run_cmds se st (c # cs) s = run_cmds se st cs (fst (run_cmd se st c s))" by (simp add: run_cmds_def)
  with keeps_trans [OF run_cmd_keeps Cons.IH] show ?case by simp
qed

end

section \<open>The legacy store\<close>

text \<open>
  \<open>fleet.json\<close> without a workspace: \<open>load_registry\<close>, and \<open>_save_registry_unlocked\<close> with
  \<open>_write_registry_file\<close>.  The second component says which of the coming writes succeed.
\<close>

definition load_registry :: "ssh_env \<Rightarrow> json_doc \<Rightarrow> registry res" where
  "load_registry se f = (case f of
     NoFile \<Rightarrow> Inr empty_registry | BadJson \<Rightarrow> die ''invalid fleet.json'' | Doc v \<Rightarrow> validate_registry se v)"

definition refuse_identity_file :: "ssh_env \<Rightarrow> registry \<Rightarrow> unit res" where
  "refuse_identity_file se g =
     (if se_known_hosts se \<noteq> None \<and> list_ex (\<lambda>n. r_identity_file n \<noteq> None) (g_nodes g)
      then die ''workspace active: refusing to write identity_file into fleet.json'' else Inr ())"

definition write_registry_file :: "ssh_env \<Rightarrow> bool \<Rightarrow> registry \<Rightarrow> json_doc \<Rightarrow> json_doc \<times> unit res" where
  "write_registry_file se ok g f = (case validate_registry se (JObj (registry_doc g)) of
     Inl e \<Rightarrow> (f, Inl e)
   | Inr p \<Rightarrow> if ok then (Doc (JObj (registry_doc p)), Inr ()) else (f, Inl (RuntimeError ''OSError'')))"

definition save_legacy :: "ssh_env \<Rightarrow> registry \<Rightarrow> json_doc \<times> bool list \<Rightarrow> (json_doc \<times> bool list) \<times> unit res" where
  "save_legacy se g s =
     (case rbind (validate_registry se (JObj (registry_doc g))) (\<lambda>p.
             rbind (refuse_identity_file se p) (\<lambda>_. Inr p)) of
        Inl e \<Rightarrow> (s, Inl e)
      | Inr p \<Rightarrow>
          if fst s = Doc (JObj (registry_doc p)) then (s, Inr ())
          else (case write_registry_file se (case snd s of [] \<Rightarrow> True | ok # _ \<Rightarrow> ok) p (fst s) of
              (f, r) \<Rightarrow> ((f, tl (snd s)), r)))"

definition legacy_store :: "ssh_env \<Rightarrow> (json_doc \<times> bool list) store" where
  "legacy_store se = \<lparr>st_load = (\<lambda>s. load_registry se (fst s)), st_save = save_legacy se\<rparr>"

lemma load_registry_ok: "load_registry se f = Inr g \<Longrightarrow> reg_ok g"
  by (auto simp: load_registry_def empty_registry_def reg_ok_def die_def split: json_doc.splits
      dest: validate_registry_ok [unfolded reg_ok_def])

lemma load_written:
  assumes "reg_ok g" and "load_registry se (Doc (JObj (registry_doc g))) = Inr g'"
  shows "same_registry g g'"
  using validate_written [OF assms(1)] assms(2) by (simp add: load_registry_def)

lemma save_legacy_effect:
  assumes "reg_ok g" and "save_legacy se g s = (s', r)"
  shows "(load_registry se (fst s') = load_registry se (fst s) \<and> (\<forall>u. r \<noteq> Inr u))
    \<or> (\<forall>g'. load_registry se (fst s') = Inr g' \<longrightarrow> same_registry g g')"
proof (cases "rbind (validate_registry se (JObj (registry_doc g))) (\<lambda>p. rbind (refuse_identity_file se p) (\<lambda>_. Inr p))")
  case (Inl e)
  with assms(2) show ?thesis by (auto simp: save_legacy_def)
next
  case (Inr p)
  then have v: "validate_registry se (JObj (registry_doc g)) = Inr p" by (auto simp: rbind_eq_Inr)
  have gp: "same_registry g p" and p: "reg_ok p"
    using validate_written [OF assms(1) v] validate_registry_ok [OF v] by auto
  show ?thesis
  proof (cases "fst s = Doc (JObj (registry_doc p))")
    case True
    with assms(2) Inr have "s' = s" by (simp add: save_legacy_def)
    then show ?thesis using load_written [OF p] same_registry_trans [OF gp] True by auto
  next
    case False
    define ok where "ok = (case snd s of [] \<Rightarrow> True | ok # _ \<Rightarrow> ok)"
    from False assms(2) Inr have w: "write_registry_file se ok p (fst s) = (fst s', r)"
      by (auto simp: save_legacy_def ok_def split: prod.splits)
    show ?thesis
    proof (cases "validate_registry se (JObj (registry_doc p))")
      case (Inl e)
      with w show ?thesis by (auto simp: write_registry_file_def)
    next
      case v2: (Inr q)
      have pq: "same_registry p q" and q: "reg_ok q"
        using validate_written [OF p v2] validate_registry_ok [OF v2] by auto
      show ?thesis
        using w v2 load_written [OF q] same_registry_trans [OF same_registry_trans [OF gp pq]]
        by (auto simp: write_registry_file_def split: if_splits)
    qed
  qed
qed

interpretation legacy: registry_store se "legacy_store se" for se
proof
  fix s g assume "st_load (legacy_store se) s = Inr g"
  then show "reg_ok g" by (auto simp: legacy_store_def dest: load_registry_ok)
next
  fix s g s' r assume "reg_ok g" "st_save (legacy_store se) g s = (s', r)"
  then show "st_load (legacy_store se) s' = st_load (legacy_store se) s
      \<or> (\<forall>g'. st_load (legacy_store se) s' = Inr g' \<longrightarrow> same_registry g g')"
    using save_legacy_effect [of g se s s' r] by (auto simp: legacy_store_def)
next
  fix s g s' g' assume "reg_ok g" "st_save (legacy_store se) g s = (s', Inr ())"
    "st_load (legacy_store se) s' = Inr g'"
  then show "same_registry g g'"
    using save_legacy_effect [of g se s s' "Inr ()"] by (auto simp: legacy_store_def)
qed

end
