(* ===== verification/Workspace.thy ===== *)
theory Workspace
  imports RegistryStore
begin

text \<open>
  The portable workspace of \<open>lib/workspace.py\<close>: its manifest \<open>workspace.json\<close>, the portable
  files under its digest, the machine-local view of the last revision seen, and the one entry
  \<open>workspace_mutation\<close> through which the portable files change.

  A JSON file is what it parses to.  \<open>dg files manifest\<close> is the hexadecimal SHA-256 of the
  portable files and the manifest.  Every file is replaced atomically, and a flag of the inputs
  says whether a replacement succeeds.  A manifest and a view are dicts, as in the code.
\<close>

section \<open>Manifest and view\<close>

definition WORKSPACE_SCHEMA_VERSION :: int where
  "WORKSPACE_SCHEMA_VERSION = 1"

definition ZERO_STATE_DIGEST :: string where
  "ZERO_STATE_DIGEST = ''sha256:'' @ replicate 64 CHR ''0''"

definition MANIFEST_REQUIRED_KEYS :: "string list" where
  "MANIFEST_REQUIRED_KEYS = [''schema_version'', ''fleet_id'', ''name'', ''revision'', ''write_id'',
     ''parent_revision'', ''parent_write_id'', ''state_digest'', ''last_writer_controller_id'',
     ''created_at'', ''updated_at'']"

definition nonneg_int :: "json \<Rightarrow> bool" where
  "nonneg_int v = (case v of JInt n \<Rightarrow> 0 \<le> n | _ \<Rightarrow> False)"

definition digest_text :: "json \<Rightarrow> bool" where
  "digest_text v = (case v of JStr s \<Rightarrow> starts_with ''sha256:'' s | _ \<Rightarrow> False)"

definition validate_workspace_manifest :: "json \<Rightarrow> dict res" where
  "validate_workspace_manifest data = (case data of
     JObj d \<Rightarrow>
       if \<not> list_all (\<lambda>k. has_key k d) MANIFEST_REQUIRED_KEYS then die ''workspace.json missing key''
       else if \<not> py_eq_int (dget ''schema_version'' d) WORKSPACE_SCHEMA_VERSION
       then die ''unsupported workspace schema''
       else if \<not> list_all (\<lambda>k. uuid_json (dget k d)) [''fleet_id'', ''write_id'', ''last_writer_controller_id'']
       then die ''workspace.json key must be a UUID''
       else if \<not> nonneg_int (dget ''revision'' d) then die ''workspace.json revision must be an int >= 0''
       else if \<not> digest_text (dget ''state_digest'' d)
       then die ''workspace.json state_digest must start with sha256:''
       else if \<not> (dget ''parent_revision'' d = JNull \<or> nonneg_int (dget ''parent_revision'' d))
       then die ''workspace.json parent_revision must be int >= 0 or null''
       else if \<not> (dget ''parent_write_id'' d = JNull \<or> uuid_json (dget ''parent_write_id'' d))
       then die ''workspace.json parent_write_id must be a UUID or null''
       else Inr d
   | _ \<Rightarrow> die ''workspace.json must be a JSON object'')"

definition load_workspace_manifest :: "json_doc \<Rightarrow> dict res" where
  "load_workspace_manifest f = (case f of
     NoFile \<Rightarrow> die ''workspace manifest not found'' | BadJson \<Rightarrow> die ''invalid workspace.json''
   | Doc v \<Rightarrow> validate_workspace_manifest v)"

definition empty_workspace_manifest :: "string \<Rightarrow> string \<Rightarrow> string \<Rightarrow> string \<Rightarrow> string \<Rightarrow> dict" where
  "empty_workspace_manifest name fid wid cid now =
     [(''schema_version'', JInt WORKSPACE_SCHEMA_VERSION), (''fleet_id'', JStr fid), (''name'', JStr name),
      (''revision'', JInt 0), (''write_id'', JStr wid), (''parent_revision'', JNull),
      (''parent_write_id'', JNull), (''state_digest'', JStr ZERO_STATE_DIGEST),
      (''last_writer_controller_id'', JStr cid), (''created_at'', JStr now), (''updated_at'', JStr now)]"

definition WORKSPACE_VIEW_SCHEMA_VERSION :: int where
  "WORKSPACE_VIEW_SCHEMA_VERSION = 1"

definition validate_workspace_view :: "json \<Rightarrow> dict res" where
  "validate_workspace_view data = (case data of
     JObj d \<Rightarrow>
       if \<not> py_eq_int (dget ''schema_version'' d) WORKSPACE_VIEW_SCHEMA_VERSION
       then die ''unsupported workspace-view schema''
       else if \<not> list_all (\<lambda>k. has_key k d)
            [''fleet_id'', ''last_seen_revision'', ''last_seen_write_id'', ''last_seen_state_digest'']
       then die ''workspace-view.json missing key''
       else if \<not> uuid_json (dget ''fleet_id'' d) then die ''workspace-view.json fleet_id must be a UUID''
       else if \<not> nonneg_int (dget ''last_seen_revision'' d)
       then die ''workspace-view.json last_seen_revision must be an int >= 0''
       else if \<not> uuid_json (dget ''last_seen_write_id'' d)
       then die ''workspace-view.json last_seen_write_id must be a UUID''
       else if \<not> digest_text (dget ''last_seen_state_digest'' d)
       then die ''workspace-view.json last_seen_state_digest must start with sha256:''
       else Inr d
   | _ \<Rightarrow> die ''workspace-view.json must be a JSON object'')"

definition load_workspace_view :: "json_doc \<Rightarrow> dict option res" where
  "load_workspace_view f = (case f of
     NoFile \<Rightarrow> Inr None | BadJson \<Rightarrow> die ''invalid workspace-view.json''
   | Doc v \<Rightarrow> rbind (validate_workspace_view v) (\<lambda>d. Inr (Some d)))"

definition view_of :: "dict \<Rightarrow> dict" where
  "view_of m =
     [(''schema_version'', JInt WORKSPACE_VIEW_SCHEMA_VERSION), (''fleet_id'', dget ''fleet_id'' m),
      (''last_seen_revision'', dget ''revision'' m), (''last_seen_write_id'', dget ''write_id'' m),
      (''last_seen_state_digest'', dget ''state_digest'' m)]"

section \<open>State and digest\<close>

record portable =
  pf_fleet :: json_doc
  pf_known_hosts :: "string option"
  pf_history :: "hist_line list"

record ws =
  ws_manifest :: json_doc
  ws_files :: portable
  ws_view :: json_doc

type_synonym digest = "portable \<Rightarrow> dict \<Rightarrow> string"

definition compute_state_digest :: "digest \<Rightarrow> portable \<Rightarrow> dict \<Rightarrow> string" where
  "compute_state_digest dg p m = ''sha256:'' @ dg p (AList.update ''state_digest'' (JStr ZERO_STATE_DIGEST) m)"

definition refresh_manifest_digest :: "digest \<Rightarrow> portable \<Rightarrow> dict \<Rightarrow> dict" where
  "refresh_manifest_digest dg p m = AList.update ''state_digest'' (JStr (compute_state_digest dg p m)) m"

definition int_of :: "json \<Rightarrow> int" where
  "int_of v = (case v of JInt n \<Rightarrow> n | _ \<Rightarrow> 0)"

definition view_conflict :: "dict \<Rightarrow> dict \<Rightarrow> string option" where
  "view_conflict m v =
     (if int_of (dget ''revision'' m) < int_of (dget ''last_seen_revision'' v) then Some ''WORKSPACE_ROLLBACK''
      else if dget ''revision'' m = dget ''last_seen_revision'' v
           \<and> dget ''write_id'' m \<noteq> dget ''last_seen_write_id'' v then Some ''WORKSPACE_DIVERGED''
      else None)"

text \<open>\<open>detect_workspace_conflict\<close>: the digest is checked before the view is read.\<close>

definition detect_workspace_conflict ::
    "digest \<Rightarrow> portable \<Rightarrow> dict \<Rightarrow> json_doc \<Rightarrow> string option res" where
  "detect_workspace_conflict dg p m view =
     (if dget ''state_digest'' m \<noteq> JStr (compute_state_digest dg p m) then Inr (Some ''WORKSPACE_INCONSISTENT'')
      else rbind (load_workspace_view view) (\<lambda>vo.
        Inr (case vo of None \<Rightarrow> None | Some v \<Rightarrow> view_conflict m v)))"

definition save_workspace_manifest :: "bool \<Rightarrow> dict \<Rightarrow> ws \<Rightarrow> ws \<times> unit res" where
  "save_workspace_manifest ok m s = (case validate_workspace_manifest (JObj m) of
     Inl e \<Rightarrow> (s, Inl e)
   | Inr d \<Rightarrow> if ok then (s\<lparr>ws_manifest := Doc (JObj d)\<rparr>, Inr ()) else (s, Inl (RuntimeError ''OSError'')))"

definition remember_workspace_view :: "bool \<Rightarrow> dict \<Rightarrow> ws \<Rightarrow> ws \<times> unit res" where
  "remember_workspace_view ok m s = (case validate_workspace_view (JObj (view_of m)) of
     Inl e \<Rightarrow> (s, Inl e)
   | Inr v \<Rightarrow> if ok then (s\<lparr>ws_view := Doc (JObj v)\<rparr>, Inr ()) else (s, Inl (RuntimeError ''OSError'')))"

section \<open>Mutation\<close>

text \<open>
  The inputs of one mutation: which writes succeed, the controller id that \<open>ensure_controller\<close>
  returns, the fresh write id, the time, and what another process does to the workspace while
  the mutator runs.
\<close>

record ws_io =
  io_view1 :: bool
  io_manifest :: bool
  io_view2 :: bool
  io_ctrl :: "string res"
  io_wid :: string
  io_now :: string
  io_other :: "ws \<Rightarrow> ws"

definition committed_manifest :: "digest \<Rightarrow> ws_io \<Rightarrow> string \<Rightarrow> portable \<Rightarrow> dict \<Rightarrow> dict" where
  "committed_manifest dg io ctrl p m =
     (let old_rev = int_of (dget ''revision'' m); old_wid = dget ''write_id'' m;
          u = AList.update ''last_writer_controller_id'' (JStr ctrl)
             (AList.update ''updated_at'' (JStr (io_now io))
             (AList.update ''write_id'' (JStr (io_wid io))
             (AList.update ''revision'' (JInt (old_rev + 1))
             (AList.update ''parent_write_id'' old_wid
             (AList.update ''parent_revision'' (JInt old_rev) m)))))
      in refresh_manifest_digest dg p u)"

definition commit_mutation :: "digest \<Rightarrow> ws_io \<Rightarrow> dict \<Rightarrow> ws \<Rightarrow> ws \<times> dict res" where
  "commit_mutation dg io m s =
     (case load_workspace_manifest (ws_manifest s) of
        Inl e \<Rightarrow> (s, Inl e)
      | Inr reread \<Rightarrow>
          if dget ''revision'' reread \<noteq> dget ''revision'' m \<or> dget ''write_id'' reread \<noteq> dget ''write_id'' m
          then (s, die ''WORKSPACE_CAS_REJECTED'')
          else (case io_ctrl io of
              Inl e \<Rightarrow> (s, Inl e)
            | Inr ctrl \<Rightarrow>
                (let u = committed_manifest dg io ctrl (ws_files s) reread in
                 case save_workspace_manifest (io_manifest io) u s of
                   (s1, Inl e) \<Rightarrow> (s1, Inl e)
                 | (s1, Inr _) \<Rightarrow> (case remember_workspace_view (io_view2 io) u s1 of
                     (s2, r) \<Rightarrow> (s2, rbind r (\<lambda>_. Inr u))))))"

definition admit_mutation :: "digest \<Rightarrow> ws \<Rightarrow> dict res" where
  "admit_mutation dg s =
     rbind (load_workspace_manifest (ws_manifest s)) (\<lambda>m.
     rbind (detect_workspace_conflict dg (ws_files s) m (ws_view s)) (\<lambda>c.
     (case c of None \<Rightarrow> Inr m | Some err \<Rightarrow> die err)))"

definition workspace_mutation ::
    "digest \<Rightarrow> ws_io \<Rightarrow> (portable \<Rightarrow> portable \<times> unit res) \<Rightarrow> ws \<Rightarrow> ws \<times> dict res" where
  "workspace_mutation dg io mutator s =
     (case admit_mutation dg s of
        Inl e \<Rightarrow> (s, Inl e)
      | Inr m \<Rightarrow> (case remember_workspace_view (io_view1 io) m s of
          (s1, Inl e) \<Rightarrow> (s1, Inl e)
        | (s1, Inr _) \<Rightarrow> (case mutator (ws_files s1) of
            (p, Inl e) \<Rightarrow> (s1\<lparr>ws_files := p\<rparr>, Inl e)
          | (p, Inr _) \<Rightarrow> commit_mutation dg io m (io_other io (s1\<lparr>ws_files := p\<rparr>)))))"

section \<open>Genesis\<close>

text \<open>\<open>create_workspace_manifest\<close>: the first tip has revision 1 and no parent.\<close>

definition create_workspace_manifest ::
    "digest \<Rightarrow> string \<Rightarrow> string \<Rightarrow> string \<Rightarrow> string \<Rightarrow> string \<Rightarrow> ws \<Rightarrow> ws \<times> dict res" where
  "create_workspace_manifest dg name fid wid cid now s =
     (if ws_manifest s \<noteq> NoFile then (s, die ''workspace manifest already exists'')
      else
        (let m = AList.update ''revision'' (JInt 1) (empty_workspace_manifest name fid wid cid now) in
         case save_workspace_manifest True m s of
           (s1, Inl e) \<Rightarrow> (s1, Inl e)
         | (s1, Inr _) \<Rightarrow>
             (let m' = refresh_manifest_digest dg (ws_files s1) m in
              case save_workspace_manifest True m' s1 of
                (s2, Inl e) \<Rightarrow> (s2, Inl e)
              | (s2, Inr _) \<Rightarrow> (case remember_workspace_view True m' s2 of
                  (s3, r) \<Rightarrow> (s3, rbind r (\<lambda>_. Inr m'))))))"

section \<open>The read-only surface\<close>

record ws_surface =
  su_active :: bool
  su_fleet_id :: "string option"
  su_revision :: "int option"
  su_conflict :: string

definition read_only_workspace_surface :: "digest \<Rightarrow> ws \<Rightarrow> ws_surface" where
  "read_only_workspace_surface dg s =
     (let bad = (\<lambda>f r. \<lparr>su_active = True, su_fleet_id = f, su_revision = r,
              su_conflict = ''WORKSPACE_INCONSISTENT''\<rparr>)
      in case ws_manifest s of
           NoFile \<Rightarrow> \<lparr>su_active = False, su_fleet_id = None, su_revision = None, su_conflict = ''absent''\<rparr>
         | BadJson \<Rightarrow> bad None None
         | Doc (JObj raw) \<Rightarrow>
             (case validate_workspace_manifest (JObj raw) of
                Inl e \<Rightarrow> bad (let f = dget ''fleet_id'' raw in
                     if truthy f \<and> py_str f \<noteq> [] then Some (py_str f) else None)
                   (case dget ''revision'' raw of JInt n \<Rightarrow> Some n | JBool b \<Rightarrow> Some (if b then 1 else 0)
                    | _ \<Rightarrow> None)
              | Inr m \<Rightarrow>
                  \<lparr>su_active = True, su_fleet_id = Some (py_str (dget ''fleet_id'' m)),
                   su_revision = Some (int_of (dget ''revision'' m)),
                   su_conflict = (case detect_workspace_conflict dg (ws_files s) m (ws_view s) of
                       Inl _ \<Rightarrow> ''WORKSPACE_INCONSISTENT''
                     | Inr None \<Rightarrow> ''ok'' | Inr (Some c) \<Rightarrow> c)\<rparr>)
         | Doc _ \<Rightarrow> bad None None)"

section \<open>Registry and history under the workspace\<close>

definition write_fleet :: "ssh_env \<Rightarrow> bool \<Rightarrow> registry \<Rightarrow> portable \<Rightarrow> portable \<times> unit res" where
  "write_fleet se ok g p = (case write_registry_file se ok g (pf_fleet p) of (f, r) \<Rightarrow> (p\<lparr>pf_fleet := f\<rparr>, r))"

definition save_registry_unlocked ::
    "ssh_env \<Rightarrow> digest \<Rightarrow> ws_io \<Rightarrow> bool \<Rightarrow> registry \<Rightarrow> ws \<Rightarrow> ws \<times> unit res" where
  "save_registry_unlocked se dg io ok g s =
     (case rbind (validate_registry se (JObj (registry_doc g))) (\<lambda>p.
             rbind (refuse_identity_file se p) (\<lambda>_. Inr p)) of
        Inl e \<Rightarrow> (s, Inl e)
      | Inr p \<Rightarrow>
          if pf_fleet (ws_files s) = Doc (JObj (registry_doc p)) then (s, Inr ())
          else if se_known_hosts se \<noteq> None
          then (case workspace_mutation dg io (write_fleet se ok p) s of (s', r) \<Rightarrow> (s', rbind r (\<lambda>_. Inr ())))
          else (case write_fleet se ok p (ws_files s) of (f, r) \<Rightarrow> (s\<lparr>ws_files := f\<rparr>, r)))"

text \<open>Lines whose appending fails leave the ones before them in the file.\<close>

fun append_raw :: "(hist_line \<Rightarrow> bool) \<Rightarrow> hist_line list \<Rightarrow> portable \<Rightarrow> portable \<times> unit res" where
  "append_raw app [] p = (p, Inr ())"
| "append_raw app (l # ls) p =
     (if app l then append_raw app ls (p\<lparr>pf_history := pf_history p @ [l]\<rparr>)
      else (p, die ''cannot append instance history''))"

definition append_instance_history_lines ::
    "digest \<Rightarrow> ws_io \<Rightarrow> bool \<Rightarrow> (hist_line \<Rightarrow> bool) \<Rightarrow> hist_line list \<Rightarrow> ws \<Rightarrow> ws \<times> unit res" where
  "append_instance_history_lines dg io active app ls s =
     (if ls = [] then (s, Inr ())
      else if active
      then (case workspace_mutation dg io (append_raw app ls) s of (s', r) \<Rightarrow> (s', rbind r (\<lambda>_. Inr ())))
      else (case append_raw app ls (ws_files s) of (p, r) \<Rightarrow> (s\<lparr>ws_files := p\<rparr>, r)))"

definition append_trusted_host ::
    "digest \<Rightarrow> ws_io \<Rightarrow> bool \<Rightarrow> (string option \<Rightarrow> string option) \<Rightarrow> ws \<Rightarrow> ws \<times> unit res" where
  "append_trusted_host dg io active add s =
     (let write = (\<lambda>p. (p\<lparr>pf_known_hosts := add (pf_known_hosts p)\<rparr>, Inr ())) in
      if active then (case workspace_mutation dg io write s of (s', r) \<Rightarrow> (s', rbind r (\<lambda>_. Inr ())))
      else (case write (ws_files s) of (p, r) \<Rightarrow> (s\<lparr>ws_files := p\<rparr>, r)))"

end
