(* ===== verification/WorkspaceInv.thy ===== *)
theory WorkspaceInv
  imports Workspace
begin

text \<open>
  Commit, failure and conflict behaviour of the workspace, and the registry commands over it.
\<close>

section \<open>Manifests and views\<close>

lemma digest_of_refreshed [simp]:
  "compute_state_digest dg p (AList.update ''state_digest'' x m) = compute_state_digest dg p m"
  by (simp add: compute_state_digest_def update_twice)

lemma refreshed_digest:
  "dget ''state_digest'' (refresh_manifest_digest dg p m)
    = JStr (compute_state_digest dg p (refresh_manifest_digest dg p m))"
  by (simp add: refresh_manifest_digest_def)

definition manifest_ok :: "dict \<Rightarrow> bool" where
  "manifest_ok m = (validate_workspace_manifest (JObj m) = Inr m)"

lemma validate_manifest_Inr:
  "validate_workspace_manifest v = Inr d \<Longrightarrow> v = JObj d \<and> manifest_ok d"
  by (auto simp: manifest_ok_def validate_workspace_manifest_def die_def split: json.splits if_splits)

lemma manifest_okD:
  assumes "manifest_ok m"
  shows "\<exists>n. dget ''revision'' m = JInt n \<and> 0 \<le> n" "uuid_json (dget ''fleet_id'' m)"
    "uuid_json (dget ''write_id'' m)" "digest_text (dget ''state_digest'' m)"
  using assms
  by (auto simp: manifest_ok_def validate_workspace_manifest_def die_def nonneg_int_def
      split: json.splits if_splits)

lemma load_manifest_Inr:
  "load_workspace_manifest f = Inr m \<Longrightarrow> f = Doc (JObj m) \<and> manifest_ok m"
  by (auto simp: load_workspace_manifest_def die_def dest: validate_manifest_Inr split: json_doc.splits)

lemma load_manifest_Doc: "manifest_ok m \<Longrightarrow> load_workspace_manifest (Doc (JObj m)) = Inr m"
  by (simp add: load_workspace_manifest_def manifest_ok_def)

lemma validate_view_of:
  assumes "manifest_ok m"
  shows "validate_workspace_view (JObj (view_of m)) = Inr (view_of m)"
  using manifest_okD [OF assms]
  by (auto simp: validate_workspace_view_def view_of_def WORKSPACE_VIEW_SCHEMA_VERSION_def nonneg_int_def)

lemma remember_view:
  assumes "manifest_ok m"
  shows "remember_workspace_view ok m s =
    (if ok then (s\<lparr>ws_view := Doc (JObj (view_of m))\<rparr>, Inr ()) else (s, Inl (RuntimeError ''OSError'')))"
  using validate_view_of [OF assms] by (simp add: remember_workspace_view_def)

lemma load_view_of:
  "manifest_ok m \<Longrightarrow> load_workspace_view (Doc (JObj (view_of m))) = Inr (Some (view_of m))"
  by (simp add: load_workspace_view_def validate_view_of)

lemma view_conflict_own [simp]: "view_conflict m (view_of m) = None"
  by (simp add: view_conflict_def view_of_def)

lemma admit_Inr:
  assumes "admit_mutation dg s = Inr m"
  shows "ws_manifest s = Doc (JObj m) \<and> manifest_ok m
    \<and> dget ''state_digest'' m = JStr (compute_state_digest dg (ws_files s) m)
    \<and> (\<exists>vo. load_workspace_view (ws_view s) = Inr vo \<and> (case vo of None \<Rightarrow> True | Some v \<Rightarrow> view_conflict m v = None))"
proof -
  from assms obtain m' c where m: "load_workspace_manifest (ws_manifest s) = Inr m'"
    and c: "detect_workspace_conflict dg (ws_files s) m' (ws_view s) = Inr c"
    and r: "(case c of None \<Rightarrow> Inr m' | Some err \<Rightarrow> die err) = Inr m"
    by (auto simp: admit_mutation_def rbind_eq_Inr)
  from r have "c = None" "m' = m" by (auto simp: die_def split: option.splits)
  with m c load_manifest_Inr [OF m] show ?thesis
    by (auto simp: detect_workspace_conflict_def rbind_eq_Inr split: if_splits option.splits)
qed

lemma committed_fields:
  "dget ''revision'' (committed_manifest dg io ctrl p m) = JInt (int_of (dget ''revision'' m) + 1)"
  "dget ''write_id'' (committed_manifest dg io ctrl p m) = JStr (io_wid io)"
  "dget ''parent_revision'' (committed_manifest dg io ctrl p m) = JInt (int_of (dget ''revision'' m))"
  "dget ''parent_write_id'' (committed_manifest dg io ctrl p m) = dget ''write_id'' m"
  "dget ''fleet_id'' (committed_manifest dg io ctrl p m) = dget ''fleet_id'' m"
  by (simp_all add: committed_manifest_def refresh_manifest_digest_def Let_def)

lemma committed_digest:
  "dget ''state_digest'' (committed_manifest dg io ctrl p m)
    = JStr (compute_state_digest dg p (committed_manifest dg io ctrl p m))"
  unfolding committed_manifest_def Let_def by (rule refreshed_digest)

section \<open>Outcomes of a mutation\<close>

text \<open>What a successful commit leaves, and what \<open>commit_mutation\<close> can do otherwise.\<close>

definition child_of :: "dict \<Rightarrow> dict \<Rightarrow> bool" where
  "child_of m u = (dget ''revision'' u = JInt (int_of (dget ''revision'' m) + 1)
     \<and> dget ''parent_revision'' u = dget ''revision'' m \<and> dget ''parent_write_id'' u = dget ''write_id'' m)"

lemma commit_cases:
  assumes "commit_mutation dg io m s = (s', r)" and "manifest_ok m"
  shows "(s' = s \<and> (\<exists>e. r = Inl e))
    \<or> (\<exists>u. child_of m u \<and> dget ''write_id'' u = JStr (io_wid io) \<and> manifest_ok u
        \<and> dget ''state_digest'' u = JStr (compute_state_digest dg (ws_files s) u)
        \<and> ((s' = s\<lparr>ws_manifest := Doc (JObj u)\<rparr> \<and> (\<exists>e. r = Inl e))
          \<or> (s' = s\<lparr>ws_manifest := Doc (JObj u), ws_view := Doc (JObj (view_of u))\<rparr> \<and> r = Inr u)))"
proof (cases "load_workspace_manifest (ws_manifest s)")
  case (Inl e)
  with assms(1) have "s' = s" "r = Inl e" by (simp_all add: commit_mutation_def)
  then show ?thesis by blast
next
  case (Inr reread)
  show ?thesis
  proof (cases "dget ''revision'' reread \<noteq> dget ''revision'' m \<or> dget ''write_id'' reread \<noteq> dget ''write_id'' m")
    case True
    with assms(1) Inr show ?thesis by (auto simp: commit_mutation_def die_def)
  next
    case same: False
    show ?thesis
    proof (cases "io_ctrl io")
      case (Inl e)
      with assms(1) Inr same have "s' = s" "r = Inl e" by (simp_all add: commit_mutation_def)
      then show ?thesis by blast
    next
      case ctrl: (Inr ctrl)
      define u where "u = committed_manifest dg io ctrl (ws_files s) reread"
      obtain n where n: "dget ''revision'' m = JInt n" using manifest_okD(1) [OF assms(2)] by blast
      have u: "child_of m u" "dget ''write_id'' u = JStr (io_wid io)"
        "dget ''state_digest'' u = JStr (compute_state_digest dg (ws_files s) u)"
        using same n by (simp_all add: child_of_def u_def committed_fields committed_digest int_of_def)
      have c: "commit_mutation dg io m s = (case save_workspace_manifest (io_manifest io) u s of
           (s1, Inl e) \<Rightarrow> (s1, Inl e)
         | (s1, Inr _) \<Rightarrow> (case remember_workspace_view (io_view2 io) u s1 of
             (s2, r) \<Rightarrow> (s2, rbind r (\<lambda>_. Inr u))))"
        unfolding u_def using Inr same ctrl by (simp add: commit_mutation_def Let_def)
      show ?thesis
      proof (cases "validate_workspace_manifest (JObj u)")
        case (Inl e)
        with c assms(1) show ?thesis by (auto simp: save_workspace_manifest_def)
      next
        case (Inr d)
        then have d: "d = u" and ok: "manifest_ok u" using validate_manifest_Inr by blast+
        then have vu: "validate_workspace_manifest (JObj u) = Inr u" using Inr by simp
        show ?thesis
        proof (cases "io_manifest io \<and> io_view2 io")
          case True
          then have "s' = s\<lparr>ws_manifest := Doc (JObj u), ws_view := Doc (JObj (view_of u))\<rparr>" "r = Inr u"
            using assms(1) unfolding c save_workspace_manifest_def vu sum.case
            by (simp_all add: remember_view [OF ok])
          with u ok show ?thesis by blast
        next
          case False
          then have "\<exists>e. r = Inl e" "s' = s \<or> s' = s\<lparr>ws_manifest := Doc (JObj u)\<rparr>"
            using assms(1) unfolding c save_workspace_manifest_def vu sum.case
            by (auto simp: remember_view [OF ok] split: if_splits)
          with u ok show ?thesis by blast
        qed
      qed
    qed
  qed
qed

lemma mutation_cases:
  assumes "workspace_mutation dg io mut s = (s', r)"
  shows "(\<exists>e. admit_mutation dg s = Inl e \<and> s' = s \<and> r = Inl e)
    \<or> (\<exists>m. admit_mutation dg s = Inr m \<and>
        ((\<exists>e. s' = s \<and> r = Inl e)
        \<or> (\<exists>p e. mut (ws_files s) = (p, Inl e) \<and> r = Inl e
             \<and> s' = s\<lparr>ws_view := Doc (JObj (view_of m)), ws_files := p\<rparr>)
        \<or> (\<exists>p. mut (ws_files s) = (p, Inr ())
             \<and> commit_mutation dg io m (io_other io (s\<lparr>ws_view := Doc (JObj (view_of m)), ws_files := p\<rparr>)) = (s', r))))"
proof (cases "admit_mutation dg s")
  case (Inl e)
  with assms have "s' = s" "r = Inl e" by (simp_all add: workspace_mutation_def)
  with Inl show ?thesis by blast
next
  case (Inr m)
  then have ok: "manifest_ok m" using admit_Inr by blast
  obtain p t where mut: "mut (ws_files s) = (p, t)" by fastforce
  show ?thesis
    using assms mut unfolding workspace_mutation_def Inr sum.case remember_view [OF ok]
    by (cases t) (auto split: if_splits)
qed

lemma mutation_files:
  assumes "workspace_mutation dg io mut s = (s', r)" and "io_other io = (\<lambda>w. w)"
  shows "ws_files s' = ws_files s \<and> (\<exists>e. r = Inl e) \<or> ws_files s' = fst (mut (ws_files s))"
  using mutation_cases [OF assms(1)]
proof (elim disjE exE conjE)
  fix m p assume m: "admit_mutation dg s = Inr m" and p: "mut (ws_files s) = (p, Inr ())"
    and c: "commit_mutation dg io m (io_other io (s\<lparr>ws_view := Doc (JObj (view_of m)), ws_files := p\<rparr>)) = (s', r)"
  from admit_Inr [OF m] have "manifest_ok m" by blast
  from commit_cases [OF c this] assms(2) p show ?thesis by auto
qed auto

text \<open>The state in which a mutation is admitted again.\<close>

lemma admit_after_commit:
  assumes "manifest_ok u" and "dget ''state_digest'' u = JStr (compute_state_digest dg p u)"
    and "load_workspace_view vw = Inr vo" and "case vo of None \<Rightarrow> True | Some v \<Rightarrow> view_conflict u v = None"
  shows "admit_mutation dg \<lparr>ws_manifest = Doc (JObj u), ws_files = p, ws_view = vw\<rparr> = Inr u"
  using assms by (auto simp: admit_mutation_def load_manifest_Doc detect_workspace_conflict_def split: option.splits)

lemma child_no_conflict:
  assumes "child_of m u" and "manifest_ok m"
  shows "view_conflict u (view_of m) = None"
proof -
  obtain n where "dget ''revision'' m = JInt n" using manifest_okD(1) [OF assms(2)] by blast
  with assms(1) show ?thesis by (simp add: view_conflict_def view_of_def child_of_def int_of_def)
qed

lemma admit_dirty:
  assumes "ws_manifest s = Doc (JObj m)" and "manifest_ok m"
    and "dget ''state_digest'' m \<noteq> JStr (compute_state_digest dg (ws_files s) m)"
  shows "workspace_mutation dg io mut s = (s, die ''WORKSPACE_INCONSISTENT'')"
  using assms by (simp add: workspace_mutation_def admit_mutation_def load_manifest_Doc detect_workspace_conflict_def die_def)

lemma mutation_outcome:
  assumes "workspace_mutation dg io mut s = (s', r)" and "io_other io = (\<lambda>w. w)"
    and "\<And>m. ws_files s' \<noteq> ws_files s \<Longrightarrow> dg (ws_files s') m \<noteq> dg (ws_files s) m"
  shows "case r of
      Inr u \<Rightarrow> (\<exists>m. ws_manifest s = Doc (JObj m) \<and> child_of m u \<and> dget ''write_id'' u = JStr (io_wid io))
        \<and> mut (ws_files s) = (ws_files s', Inr ()) \<and> admit_mutation dg s' = Inr u
    | Inl e \<Rightarrow> (ws_files s' = ws_files s \<and> ws_manifest s' = ws_manifest s)
        \<or> (\<exists>m u. ws_manifest s = Doc (JObj m) \<and> child_of m u \<and> mut (ws_files s) = (ws_files s', Inr ())
             \<and> admit_mutation dg s' = Inr u)
        \<or> (\<forall>io' mut'. workspace_mutation dg io' mut' s' = (s', die ''WORKSPACE_INCONSISTENT''))"
proof -
  have dirty: "ws_files s' = ws_files s \<or> (\<forall>io' mut'. workspace_mutation dg io' mut' s' = (s', die ''WORKSPACE_INCONSISTENT''))"
    if "admit_mutation dg s = Inr m" "ws_manifest s' = ws_manifest s" for m
  proof (cases "ws_files s' = ws_files s")
    case False
    from admit_Inr [OF that(1)] have m: "ws_manifest s' = Doc (JObj m)" "manifest_ok m"
      "dget ''state_digest'' m = JStr (compute_state_digest dg (ws_files s) m)" using that(2) by auto
    from m(3) assms(3) [OF False, THEN not_sym] have "dget ''state_digest'' m \<noteq> JStr (compute_state_digest dg (ws_files s') m)"
      by (simp add: compute_state_digest_def)
    from admit_dirty [OF m(1,2) this] show ?thesis by blast
  qed simp
  from mutation_cases [OF assms(1)] show ?thesis
  proof (elim disjE exE conjE)
    fix m p e assume m: "admit_mutation dg s = Inr m" and p: "mut (ws_files s) = (p, Inl e)" and r: "r = Inl e"
      and s': "s' = s\<lparr>ws_view := Doc (JObj (view_of m)), ws_files := p\<rparr>"
    from dirty [OF m] s' r show ?thesis by auto
  next
    fix m p assume m: "admit_mutation dg s = Inr m" and p: "mut (ws_files s) = (p, Inr ())"
      and c: "commit_mutation dg io m (io_other io (s\<lparr>ws_view := Doc (JObj (view_of m)), ws_files := p\<rparr>)) = (s', r)"
    let ?s1 = "s\<lparr>ws_view := Doc (JObj (view_of m)), ws_files := p\<rparr>"
    from admit_Inr [OF m] have mm: "ws_manifest s = Doc (JObj m)" "manifest_ok m" by auto
    from commit_cases [OF c [unfolded assms(2)] mm(2)] show ?thesis
    proof (elim disjE exE conjE)
      fix e assume "s' = ?s1" "r = Inl e"
      with dirty [OF m] show ?thesis by auto
    next
      fix u e assume u: "child_of m u" "manifest_ok u"
        "dget ''state_digest'' u = JStr (compute_state_digest dg (ws_files ?s1) u)"
        and s': "s' = ?s1\<lparr>ws_manifest := Doc (JObj u)\<rparr>" "r = Inl e"
      have "admit_mutation dg \<lparr>ws_manifest = Doc (JObj u), ws_files = p, ws_view = Doc (JObj (view_of m))\<rparr> = Inr u"
        by (rule admit_after_commit [OF u(2) _ load_view_of [OF mm(2)]])
           (use u child_no_conflict [OF u(1) mm(2)] in simp_all)
      then have "admit_mutation dg s' = Inr u" using s' by (cases s) simp
      with s' p mm(1) u(1) show ?thesis by auto
    next
      fix u assume u: "child_of m u" "dget ''write_id'' u = JStr (io_wid io)" "manifest_ok u"
        "dget ''state_digest'' u = JStr (compute_state_digest dg (ws_files ?s1) u)"
        and s': "s' = ?s1\<lparr>ws_manifest := Doc (JObj u), ws_view := Doc (JObj (view_of u))\<rparr>" "r = Inr u"
      have "admit_mutation dg \<lparr>ws_manifest = Doc (JObj u), ws_files = p, ws_view = Doc (JObj (view_of u))\<rparr> = Inr u"
        by (rule admit_after_commit [OF u(3) _ load_view_of [OF u(3)]]) (use u in simp_all)
      then have "admit_mutation dg s' = Inr u" using s' by (cases s) simp
      with s' p mm(1) u(1,2) show ?thesis by auto
    qed
  qed auto
qed

section \<open>The view never goes back\<close>

text \<open>The revision and write id this controller saw last.\<close>

definition seen :: "ws \<Rightarrow> (int \<times> json) option" where
  "seen s = (case load_workspace_view (ws_view s) of
     Inr (Some v) \<Rightarrow> Some (int_of (dget ''last_seen_revision'' v), dget ''last_seen_write_id'' v)
   | _ \<Rightarrow> None)"

definition not_back :: "(int \<times> json) option \<Rightarrow> (int \<times> json) option \<Rightarrow> bool" where
  "not_back a b = (case a of None \<Rightarrow> True
     | Some (r, w) \<Rightarrow> (case b of None \<Rightarrow> False | Some (r', w') \<Rightarrow> r < r' \<or> (r = r' \<and> w = w')))"

text \<open>
  Runs: mutations of this controller, whatever other processes do to the shared files meanwhile,
  and replacements of manifest and files by any others (a synchronised or restored folder).  Only
  this controller writes its own view.
\<close>

inductive ws_run :: "digest \<Rightarrow> ws \<Rightarrow> ws \<Rightarrow> bool" for dg where
  ws_start: "ws_run dg s s"
| ws_mutate: "ws_run dg s t \<Longrightarrow> (\<And>w. ws_view (io_other io w) = ws_view w)
    \<Longrightarrow> workspace_mutation dg io mut t = (t', r) \<Longrightarrow> ws_run dg s t'"
| ws_replaced: "ws_run dg s t \<Longrightarrow> ws_run dg s (t\<lparr>ws_manifest := m, ws_files := p\<rparr>)"

lemma not_back_refl [simp]: "not_back a a"
  by (auto simp: not_back_def split: option.splits)

lemma not_back_trans: "not_back a b \<Longrightarrow> not_back b c \<Longrightarrow> not_back a c"
  by (auto simp: not_back_def split: option.splits)

lemma seen_view_of:
  "manifest_ok m \<Longrightarrow> ws_view s = Doc (JObj (view_of m)) \<Longrightarrow>
    seen s = Some (int_of (dget ''revision'' m), dget ''write_id'' m)"
  by (simp add: seen_def load_view_of) (simp add: view_of_def)

lemma view_numbers:
  assumes "load_workspace_view f = Inr (Some v)"
  shows "\<exists>n. dget ''last_seen_revision'' v = JInt n"
  using assms
  by (auto simp: load_workspace_view_def validate_workspace_view_def rbind_eq_Inr die_def nonneg_int_def
      split: json_doc.splits json.splits if_splits)

lemma admitted_not_back:
  assumes "admit_mutation dg s = Inr m"
  shows "not_back (seen s) (Some (int_of (dget ''revision'' m), dget ''write_id'' m))"
proof -
  from admit_Inr [OF assms] obtain vo where ok: "manifest_ok m" and vo: "load_workspace_view (ws_view s) = Inr vo"
    "case vo of None \<Rightarrow> True | Some v \<Rightarrow> view_conflict m v = None" by blast
  show ?thesis
  proof (cases vo)
    case None
    with vo show ?thesis by (simp add: seen_def not_back_def)
  next
    case (Some v)
    obtain n where n: "dget ''revision'' m = JInt n" using manifest_okD(1) [OF ok] by blast
    obtain k where k: "dget ''last_seen_revision'' v = JInt k" using view_numbers vo(1) Some by blast
    from vo Some have "view_conflict m v = None" by simp
    then have "k < n \<or> (k = n \<and> dget ''last_seen_write_id'' v = dget ''write_id'' m)"
      by (auto simp: view_conflict_def n k int_of_def split: if_splits)
    with vo(1) Some n k show ?thesis by (auto simp: seen_def not_back_def int_of_def)
  qed
qed

lemma seen_same_view: "ws_view s' = ws_view s \<Longrightarrow> seen s' = seen s"
  by (simp add: seen_def)

lemma mutation_not_back:
  assumes "workspace_mutation dg io mut s = (s', r)" and "\<And>w. ws_view (io_other io w) = ws_view w"
  shows "not_back (seen s) (seen s')"
  using mutation_cases [OF assms(1)]
proof (elim disjE exE conjE)
  fix m p e assume m: "admit_mutation dg s = Inr m" and s': "s' = s\<lparr>ws_view := Doc (JObj (view_of m)), ws_files := p\<rparr>"
  from admit_Inr [OF m] have "manifest_ok m" by blast
  from seen_view_of [OF this, of s'] s' admitted_not_back [OF m] show ?thesis by simp
next
  fix m p assume m: "admit_mutation dg s = Inr m"
    and c: "commit_mutation dg io m (io_other io (s\<lparr>ws_view := Doc (JObj (view_of m)), ws_files := p\<rparr>)) = (s', r)"
  let ?s1 = "io_other io (s\<lparr>ws_view := Doc (JObj (view_of m)), ws_files := p\<rparr>)"
  from admit_Inr [OF m] have ok: "manifest_ok m" by blast
  have v1: "ws_view ?s1 = Doc (JObj (view_of m))" by (simp add: assms(2))
  obtain n where n: "dget ''revision'' m = JInt n" using manifest_okD(1) [OF ok] by blast
  from commit_cases [OF c ok] show ?thesis
  proof (elim disjE exE conjE)
    fix e assume "s' = ?s1"
    with seen_view_of [OF ok v1] admitted_not_back [OF m] show ?thesis by simp
  next
    fix u e assume "s' = ?s1\<lparr>ws_manifest := Doc (JObj u)\<rparr>"
    then have "ws_view s' = Doc (JObj (view_of m))" using v1 by simp
    from seen_view_of [OF ok this] admitted_not_back [OF m] show ?thesis by simp
  next
    fix u assume u: "child_of m u" "manifest_ok u"
      and s': "s' = ?s1\<lparr>ws_manifest := Doc (JObj u), ws_view := Doc (JObj (view_of u))\<rparr>"
    have "seen s' = Some (n + 1, dget ''write_id'' u)"
      using seen_view_of [OF u(2), of s'] s' u(1) n by (simp add: child_of_def int_of_def)
    then have "not_back (Some (int_of (dget ''revision'' m), dget ''write_id'' m)) (seen s')"
      by (simp add: not_back_def n int_of_def)
    with admitted_not_back [OF m] show ?thesis by (rule not_back_trans)
  qed
qed auto

lemma run_not_back: "ws_run dg s t \<Longrightarrow> not_back (seen s) (seen t)"
proof (induction rule: ws_run.induct)
  case (ws_mutate s t io mut t' r)
  from mutation_not_back [OF ws_mutate(3,2)] ws_mutate.IH show ?case using not_back_trans by blast
next
  case (ws_replaced s t p m)
  have "seen (t\<lparr>ws_manifest := m, ws_files := p\<rparr>) = seen t" by (rule seen_same_view) simp
  with ws_replaced.IH show ?case by simp
qed simp

lemma mutation_success:
  assumes "workspace_mutation dg io mut s = (s', Inr u)"
  shows "\<exists>m. admit_mutation dg s = Inr m \<and> child_of m u
    \<and> seen s' = Some (int_of (dget ''revision'' u), dget ''write_id'' u)"
  using mutation_cases [OF assms]
proof (elim disjE exE conjE)
  fix m p assume m: "admit_mutation dg s = Inr m"
    and c: "commit_mutation dg io m (io_other io (s\<lparr>ws_view := Doc (JObj (view_of m)), ws_files := p\<rparr>)) = (s', Inr u)"
  from admit_Inr [OF m] have "manifest_ok m" by blast
  from commit_cases [OF c this] have "child_of m u" "manifest_ok u" "ws_view s' = Doc (JObj (view_of u))" by auto
  with m seen_view_of show ?thesis by blast
qed simp_all

section \<open>The workspace as a store of the registry\<close>

definition io_alone :: "ws_io \<Rightarrow> ws_io" where
  "io_alone io = io\<lparr>io_other := (\<lambda>w. w)\<rparr>"

text \<open>The inputs of the coming saves: whether the registry file can be replaced, and the mutation's.\<close>

type_synonym ws_store_state = "ws \<times> (bool \<times> ws_io) list"

definition workspace_save ::
    "ssh_env \<Rightarrow> digest \<Rightarrow> registry \<Rightarrow> ws_store_state \<Rightarrow> ws_store_state \<times> unit res" where
  "workspace_save se dg g s = (case snd s of
     [] \<Rightarrow> (s, Inl (RuntimeError ''OSError''))
   | (ok, io) # ios \<Rightarrow> (case save_registry_unlocked se dg (io_alone io) ok g (fst s) of
       (w, r) \<Rightarrow> ((w, ios), r)))"

definition workspace_store :: "ssh_env \<Rightarrow> digest \<Rightarrow> ws_store_state store" where
  "workspace_store se dg = \<lparr>st_load = (\<lambda>s. load_registry se (pf_fleet (ws_files (fst s)))),
     st_save = workspace_save se dg\<rparr>"

lemma write_fleet_effect:
  assumes "reg_ok p" and "write_fleet se ok p q = (q', r)"
  shows "q' = q \<and> (\<forall>u. r \<noteq> Inr u) \<or> (\<forall>g'. load_registry se (pf_fleet q') = Inr g' \<longrightarrow> same_registry p g')"
proof (cases "validate_registry se (JObj (registry_doc p))")
  case (Inl e)
  with assms(2) show ?thesis by (auto simp: write_fleet_def write_registry_file_def)
next
  case (Inr v)
  from validate_written [OF assms(1) Inr] validate_registry_ok [OF Inr] have "same_registry p v" "reg_ok v" by auto
  then show ?thesis
    using assms(2) Inr load_written [of v se] same_registry_trans [of p v]
    by (auto simp: write_fleet_def write_registry_file_def split: if_splits)
qed

lemma save_registry_effect:
  assumes "reg_ok g" and "save_registry_unlocked se dg (io_alone io) ok g s = (s', r)"
  shows "(pf_fleet (ws_files s') = pf_fleet (ws_files s) \<and> (\<forall>u. r \<noteq> Inr u))
    \<or> (\<forall>g'. load_registry se (pf_fleet (ws_files s')) = Inr g' \<longrightarrow> same_registry g g')"
proof (cases "rbind (validate_registry se (JObj (registry_doc g))) (\<lambda>p. rbind (refuse_identity_file se p) (\<lambda>_. Inr p))")
  case (Inl e)
  with assms(2) show ?thesis by (auto simp: save_registry_unlocked_def)
next
  case (Inr p)
  then have v: "validate_registry se (JObj (registry_doc g)) = Inr p" by (auto simp: rbind_eq_Inr)
  have gp: "same_registry g p" and p: "reg_ok p"
    using validate_written [OF assms(1) v] validate_registry_ok [OF v] by auto
  show ?thesis
  proof (cases "pf_fleet (ws_files s) = Doc (JObj (registry_doc p))")
    case True
    with assms(2) Inr have "s' = s" by (simp add: save_registry_unlocked_def)
    then show ?thesis using load_written [OF p] same_registry_trans [OF gp] True by auto
  next
    case new: False
    show ?thesis
    proof (cases "se_known_hosts se \<noteq> None")
      case True
      obtain t where t: "workspace_mutation dg (io_alone io) (write_fleet se ok p) s = (s', t)"
        and r: "r = rbind t (\<lambda>_. Inr ())"
        using assms(2) Inr new True by (auto simp: save_registry_unlocked_def split: prod.splits)
      obtain q u where q: "write_fleet se ok p (ws_files s) = (q, u)" by fastforce
      from mutation_files [OF t] q have "ws_files s' = ws_files s \<and> (\<exists>e. t = Inl e) \<or> ws_files s' = q"
        by (simp add: io_alone_def)
      then show ?thesis
      proof
        assume "ws_files s' = q"
        moreover from write_fleet_effect [OF p q] same_registry_trans [OF gp]
        have "(q = ws_files s \<and> (\<forall>v. u \<noteq> Inr v)) \<or> (\<forall>g'. load_registry se (pf_fleet q) = Inr g' \<longrightarrow> same_registry g g')"
          by blast
        moreover have "\<forall>v. r \<noteq> Inr v" if "\<forall>v. u \<noteq> Inr v"
        proof (cases t)
          case (Inr d)
          with mutation_cases [OF t] q that show ?thesis by auto
        qed (simp add: r)
        ultimately show ?thesis by auto
      qed (use r in auto)
    next
      case False
      obtain q u where q: "write_fleet se ok p (ws_files s) = (q, u)" by fastforce
      with assms(2) Inr new False have "s' = s\<lparr>ws_files := q\<rparr>" "r = u"
        by (auto simp: save_registry_unlocked_def)
      with write_fleet_effect [OF p q] same_registry_trans [OF gp] show ?thesis by auto
    qed
  qed
qed

interpretation workspace: registry_store se "workspace_store se dg" for se dg
proof
  fix s g assume "st_load (workspace_store se dg) s = Inr g"
  then show "reg_ok g" by (auto simp: workspace_store_def dest: load_registry_ok)
next
  fix s g s' r assume g: "reg_ok g" "st_save (workspace_store se dg) g s = (s', r)"
  show "st_load (workspace_store se dg) s' = st_load (workspace_store se dg) s
      \<or> (\<forall>g'. st_load (workspace_store se dg) s' = Inr g' \<longrightarrow> same_registry g g')"
  proof (cases "snd s")
    case Nil
    with g show ?thesis by (simp add: workspace_store_def workspace_save_def)
  next
    case (Cons x ios)
    with g show ?thesis
      using save_registry_effect [OF g(1), of se dg "snd x" "fst x" "fst s" "fst s'" r]
      by (auto simp: workspace_store_def workspace_save_def split: prod.splits)
  qed
next
  fix s g s' g' assume g: "reg_ok g" "st_save (workspace_store se dg) g s = (s', Inr ())"
    "st_load (workspace_store se dg) s' = Inr g'"
  show "same_registry g g'"
  proof (cases "snd s")
    case Nil
    with g show ?thesis by (simp add: workspace_store_def workspace_save_def)
  next
    case (Cons x ios)
    with g show ?thesis
      using save_registry_effect [OF g(1), of se dg "snd x" "fst x" "fst s" "fst s'" "Inr ()"]
      by (auto simp: workspace_store_def workspace_save_def split: prod.splits)
  qed
qed

end
