(* ===== verification/WorkspaceProps.thy ===== *)
theory WorkspaceProps
  imports WorkspaceInv
begin

text \<open>
  The properties of the node registry and of the portable workspace.
\<close>

section \<open>An example workspace\<close>

text \<open>The digest of the example counts the nodes of the registry.\<close>

definition ex_dg :: digest where
  "ex_dg p m = (case pf_fleet p of
     Doc (JObj d) \<Rightarrow> (case dget ''nodes'' d of JList l \<Rightarrow> map (\<lambda>_. CHR ''n'') l | _ \<Rightarrow> ''?'')
   | _ \<Rightarrow> ''-'')"

definition ex_wse :: ssh_env where
  "ex_wse = \<lparr>se_ssh_bin = ''ssh'', se_scp_bin = ''scp'', se_known_hosts = Some ''/ws/known_hosts'',
     se_expand = (\<lambda>p. p), se_resolve = (\<lambda>p. Some p), se_is_file = (\<lambda>p. True)\<rparr>"

definition ex_uuid :: "char \<Rightarrow> string" where
  "ex_uuid c = replicate 8 c @ ''-'' @ replicate 4 c @ ''-4'' @ replicate 3 c @ ''-8'' @ replicate 3 c @ ''-'' @ replicate 12 c"

definition ex_old_node :: reg_node where
  "ex_old_node = \<lparr>n_name = ''old'', n_node_id = ex_uuid CHR ''1'', n_ssh_host = ''h1'', n_status = Some ''retired'',
     n_enabled = False, r_ssh_user = ''root'', r_ssh_port = 22, r_identity_file = None, r_admin_ref = None,
     r_observe_ref = None\<rparr>"

definition ex_registry :: registry where
  "ex_registry = \<lparr>g_nodes = [ex_old_node], g_fleet_id = Some (ex_uuid CHR ''f'')\<rparr>"

definition ex_manifest :: dict where
  "ex_manifest = AList.update ''state_digest'' (JStr ''sha256:n'') (AList.update ''revision'' (JInt 1)
     (empty_workspace_manifest ''home'' (ex_uuid CHR ''f'') (ex_uuid CHR ''a'') (ex_uuid CHR ''c'') ''2024-01-01T00:00:00Z''))"

definition ex_ws :: ws where
  "ex_ws = \<lparr>ws_manifest = Doc (JObj ex_manifest),
     ws_files = \<lparr>pf_fleet = Doc (JObj (registry_doc ex_registry)), pf_known_hosts = None, pf_history = []\<rparr>,
     ws_view = Doc (JObj (view_of ex_manifest))\<rparr>"

definition ex_io :: ws_io where
  "ex_io = \<lparr>io_view1 = True, io_manifest = True, io_view2 = True, io_ctrl = Inr (ex_uuid CHR ''c''), io_wid = ex_uuid CHR ''b'',
     io_now = ''2024-01-02T00:00:00Z'', io_other = (\<lambda>w. w)\<rparr>"

section \<open>The registry\<close>

text \<open>
  C19: Whatever sequence of register, adopt, set and enable commands runs over a workspace, with
  whatever arguments, SSH answers and failing writes, if the registry can be read at the end it was
  readable before, it is well formed (valid identifiers and SSH settings, distinct ids and names,
  status and enabled agreeing), every node of before is still there under its id and name, and a
  retired node is still retired.
\<close>

theorem registry_commands_keep_nodes:
  assumes "run_cmds se (workspace_store se dg) cs ((w, ios), b) = ((w', ios'), b')"
    and "load_registry se (pf_fleet (ws_files w')) = Inr g'"
  shows "\<exists>g. load_registry se (pf_fleet (ws_files w)) = Inr g \<and> reg_ok g'
    \<and> (\<forall>n \<in> set (g_nodes g). \<exists>n' \<in> set (g_nodes g'). n_node_id n' = n_node_id n \<and> n_name n' = n_name n
         \<and> (life n = ''retired'' \<longrightarrow> life n' = ''retired''))"
  using workspace.run_cmds_keeps [of se dg "((w, ios), b)" cs] assms
  unfolding workspace.keeps_def persists_def by (simp add: workspace_store_def)

definition ex_registry2 :: registry where
  "ex_registry2 = \<lparr>g_nodes = [ex_old_node\<lparr>n_ssh_host := ''h2''\<rparr>], g_fleet_id = Some (ex_uuid CHR ''f'')\<rparr>"

definition ex_cmds :: "reg_cmd list" where
  "ex_cmds = [Set_Node ''old'' \<lparr>ns_host = Some ''h2'', ns_user = None, ns_port = None, ns_identity_file = None,
     ns_clear_identity = False, ns_observe_ref = None, ns_observe_identity = None, ns_clear_observe = False\<rparr>]"

lemma ex_registries:
  "reg_ok ex_registry" "validate_registry ex_wse (JObj (registry_doc ex_registry)) = Inr ex_registry"
  "validate_registry ex_wse (JObj (registry_doc ex_registry2)) = Inr ex_registry2"
proof -
  have "reg_ok ex_registry" "list_all (stable_identity ex_wse) (g_nodes ex_registry)" by code_simp+
  moreover have "reg_ok ex_registry2" "list_all (stable_identity ex_wse) (g_nodes ex_registry2)" by code_simp+
  ultimately show "reg_ok ex_registry" "validate_registry ex_wse (JObj (registry_doc ex_registry)) = Inr ex_registry"
    "validate_registry ex_wse (JObj (registry_doc ex_registry2)) = Inr ex_registry2"
    by (simp_all add: validate_stable)
qed

lemma ex_set_run:
  "\<exists>w'. run_cmds ex_wse (workspace_store ex_wse ex_dg) ex_cmds ((ex_ws, [(True, ex_io)]), NoFile) = ((w', []), NoFile)
     \<and> pf_fleet (ws_files w') = Doc (JObj (registry_doc ex_registry2)) \<and> ws_manifest w' \<noteq> ws_manifest ex_ws"
proof -
  have host: "set_host ''old'' ''h2'' None None ex_registry = Inr ex_registry2"
    and n: "require_node ex_registry2 ''old'' = Inr (ex_old_node\<lparr>n_ssh_host := ''h2''\<rparr>)"
    and g: "given (Some ''h2'') = Some ''h2''" "given None = None" and c: "refuse_identity_file ex_wse ex_registry2 = Inr ()"
    and new: "registry_doc ex_registry \<noteq> registry_doc ex_registry2"
    and w: "case workspace_mutation ex_dg (io_alone ex_io)
        (\<lambda>p. (p\<lparr>pf_fleet := Doc (JObj (registry_doc ex_registry2))\<rparr>, Inr ())) ex_ws of
      (w', r) \<Rightarrow> (case r of Inr u \<Rightarrow> True | Inl _ \<Rightarrow> False) \<and> ws_manifest w' \<noteq> ws_manifest ex_ws
        \<and> pf_fleet (ws_files w') = Doc (JObj (registry_doc ex_registry2))" by code_simp+
  have files: "pf_fleet (ws_files ex_ws) = Doc (JObj (registry_doc ex_registry))" by (simp add: ex_ws_def)
  have wf: "write_fleet ex_wse True ex_registry2 = (\<lambda>p. (p\<lparr>pf_fleet := Doc (JObj (registry_doc ex_registry2))\<rparr>, Inr ()))"
    by (simp add: fun_eq_iff write_fleet_def write_registry_file_def ex_registries)
  have k: "se_known_hosts ex_wse = Some ''/ws/known_hosts''" by (simp add: ex_wse_def)
  obtain w' u where w': "workspace_mutation ex_dg (io_alone ex_io)
        (\<lambda>p. (p\<lparr>pf_fleet := Doc (JObj (registry_doc ex_registry2))\<rparr>, Inr ())) ex_ws = (w', Inr u)"
      "ws_manifest w' \<noteq> ws_manifest ex_ws" "pf_fleet (ws_files w') = Doc (JObj (registry_doc ex_registry2))"
    using w by (auto split: prod.splits sum.splits)
  have "save_registry_unlocked ex_wse ex_dg (io_alone ex_io) True ex_registry2 ex_ws = (w', Inr ())"
    unfolding save_registry_unlocked_def files using w'(1) new by (simp add: ex_registries c k wf)
  then have "run_cmds ex_wse (workspace_store ex_wse ex_dg) ex_cmds ((ex_ws, [(True, ex_io)]), NoFile) = ((w', []), NoFile)"
    by (simp add: run_cmds_def ex_cmds_def cmd_node_set_def g workspace_store_def workspace_save_def files load_registry_def
      ex_registries host n set_admin_identity_def set_observe_identity_def save_with_def)
  with w' show ?thesis by blast
qed

theorem registry_commands_keep_nodes_witness:
  "case run_cmds ex_wse (workspace_store ex_wse ex_dg) ex_cmds ((ex_ws, [(True, ex_io)]), NoFile) of
     ((w', _), _) \<Rightarrow> load_registry ex_wse (pf_fleet (ws_files w')) = Inr ex_registry2 \<and> reg_ok ex_registry2
       \<and> ws_manifest w' \<noteq> ws_manifest ex_ws"
proof -
  obtain w' where r: "run_cmds ex_wse (workspace_store ex_wse ex_dg) ex_cmds ((ex_ws, [(True, ex_io)]), NoFile) = ((w', []), NoFile)"
    and w': "pf_fleet (ws_files w') = Doc (JObj (registry_doc ex_registry2))" "ws_manifest w' \<noteq> ws_manifest ex_ws"
    using ex_set_run by blast
  have l: "load_registry ex_wse (pf_fleet (ws_files w')) = Inr ex_registry2" by (simp add: load_registry_def w' ex_registries)
  from registry_commands_keep_nodes [OF r l] have "reg_ok ex_registry2" by blast
  with r l w' show ?thesis by simp
qed

text \<open>
  Writing a well-formed registry as \<open>fleet.json\<close> and reading it back gives the registry, when
  its local identity paths are those that validation returns.
\<close>

theorem registry_round_trip:
  assumes "reg_ok g" and "list_all (stable_identity se) (g_nodes g)"
  shows "validate_registry se (JObj (registry_doc g)) = Inr g"
  by (rule validate_stable [OF assms])

theorem registry_round_trip_witness: "validate_registry ex_wse (JObj (registry_doc ex_registry)) = Inr ex_registry"
proof (rule registry_round_trip)
  show "reg_ok ex_registry" by code_simp
  show "list_all (stable_identity ex_wse) (g_nodes ex_registry)" by code_simp
qed

section \<open>The workspace\<close>

text \<open>
  C20: What one mutation of the workspace does, if nothing else writes it meanwhile and the digest
  tells the portable files before and after it apart.  Success: the mutator's files are in place,
  the new manifest is the child of the old one under the fresh write id, and it is admitted as the
  base of the next mutation.  Failure: nothing portable changed; or the commit is complete and only
  the local view was not written; or the files changed without a manifest for them, and every later
  mutation is refused as WORKSPACE_INCONSISTENT.
\<close>

theorem mutation_commits_or_refuses:
  assumes "workspace_mutation dg io mut s = (s', r)" and "io_other io = (\<lambda>w. w)"
    and "\<And>m. ws_files s' \<noteq> ws_files s \<Longrightarrow> dg (ws_files s') m \<noteq> dg (ws_files s) m"
  shows "case r of
      Inr u \<Rightarrow> (\<exists>m. ws_manifest s = Doc (JObj m) \<and> child_of m u \<and> dget ''write_id'' u = JStr (io_wid io))
        \<and> mut (ws_files s) = (ws_files s', Inr ()) \<and> admit_mutation dg s' = Inr u
    | Inl e \<Rightarrow> (ws_files s' = ws_files s \<and> ws_manifest s' = ws_manifest s)
        \<or> (\<exists>m u. ws_manifest s = Doc (JObj m) \<and> child_of m u \<and> mut (ws_files s) = (ws_files s', Inr ())
             \<and> admit_mutation dg s' = Inr u)
        \<or> (\<forall>io' mut'. workspace_mutation dg io' mut' s' = (s', die ''WORKSPACE_INCONSISTENT''))"
  by (rule mutation_outcome [OF assms])

definition ex_mut :: "bool \<Rightarrow> portable \<Rightarrow> portable \<times> unit res" where
  "ex_mut ok p = (p\<lparr>pf_fleet := Doc (JObj (registry_doc empty_registry))\<rparr>, if ok then Inr () else die ''disk full'')"

theorem mutation_commits_or_refuses_witness:
  "(case workspace_mutation ex_dg ex_io (ex_mut True) ex_ws of (s', r) \<Rightarrow>
      (case r of Inl _ \<Rightarrow> False | Inr u \<Rightarrow> admit_mutation ex_dg s' = Inr u \<and> dget ''revision'' u = JInt 2))
   \<and> (case workspace_mutation ex_dg ex_io (ex_mut False) ex_ws of (s', r) \<Rightarrow>
      workspace_mutation ex_dg ex_io (ex_mut True) s' = (s', die ''WORKSPACE_INCONSISTENT''))"
proof -
  have apart: "\<And>m. ex_dg (ws_files (fst (workspace_mutation ex_dg ex_io (ex_mut ok) ex_ws))) m \<noteq> ex_dg (ws_files ex_ws) m" for ok
  proof -
    have "pf_fleet (ws_files (fst (workspace_mutation ex_dg ex_io (ex_mut True) ex_ws))) = Doc (JObj (registry_doc empty_registry))"
      "pf_fleet (ws_files (fst (workspace_mutation ex_dg ex_io (ex_mut False) ex_ws))) = Doc (JObj (registry_doc empty_registry))"
      by code_simp+
    then show "ex_dg (ws_files (fst (workspace_mutation ex_dg ex_io (ex_mut ok) ex_ws))) m \<noteq> ex_dg (ws_files ex_ws) m" for m
      by (cases ok) (simp_all add: ex_dg_def ex_ws_def ex_registry_def registry_doc_def empty_registry_def dget_def opt_field_def)
  qed
  have io: "io_other ex_io = (\<lambda>w. w)" by (simp add: ex_io_def)
  obtain s1 r1 where r1: "workspace_mutation ex_dg ex_io (ex_mut True) ex_ws = (s1, r1)" by fastforce
  obtain s2 r2 where r2: "workspace_mutation ex_dg ex_io (ex_mut False) ex_ws = (s2, r2)" by fastforce
  have "case workspace_mutation ex_dg ex_io (ex_mut True) ex_ws of (s1, r1) \<Rightarrow>
      (case r1 of Inl _ \<Rightarrow> False | Inr u \<Rightarrow> dget ''revision'' u = JInt 2)" by code_simp
  then obtain u where u: "r1 = Inr u" "dget ''revision'' u = JInt 2" using r1 by (auto split: sum.splits)
  have "case workspace_mutation ex_dg ex_io (ex_mut False) ex_ws of (s2, r2) \<Rightarrow>
      ws_manifest s2 = ws_manifest ex_ws \<and> ws_files s2 \<noteq> ws_files ex_ws \<and> (case r2 of Inl _ \<Rightarrow> True | Inr _ \<Rightarrow> False)
      \<and> (case admit_mutation ex_dg s2 of Inl _ \<Rightarrow> True | Inr _ \<Rightarrow> False)" by code_simp
  then obtain e where "r2 = Inl e" "ws_files s2 \<noteq> ws_files ex_ws" "\<forall>u. admit_mutation ex_dg s2 \<noteq> Inr u"
    using r2 by (auto split: sum.splits)
  with mutation_commits_or_refuses [OF r2 io] apart [of False] r2
  have "workspace_mutation ex_dg ex_io (ex_mut True) s2 = (s2, die ''WORKSPACE_INCONSISTENT'')" by simp
  moreover from mutation_commits_or_refuses [OF r1 io] apart [of True] r1 u
  have "admit_mutation ex_dg s1 = Inr u" by simp
  ultimately show ?thesis using r1 r2 u by simp
qed

text \<open>
  C21: What this controller has seen of the workspace never goes back: after any run of its own
  mutations, of other writers and of restored or synchronised folders, a mutation that succeeds is
  strictly newer than every revision it saw before, and is what it has seen from then on.
\<close>

theorem rollback_never_accepted:
  assumes "ws_run dg s t" and "seen s = Some (n, wid)"
    and "\<And>w. ws_view (io_other io w) = ws_view w" and "workspace_mutation dg io mut t = (t', Inr u)"
  shows "not_back (Some (n, wid)) (seen t) \<and> n < int_of (dget ''revision'' u)
    \<and> seen t' = Some (int_of (dget ''revision'' u), dget ''write_id'' u)"
proof -
  from run_not_back [OF assms(1)] assms(2) have t: "not_back (Some (n, wid)) (seen t)" by simp
  from mutation_success [OF assms(4)] obtain m where m: "admit_mutation dg t = Inr m" "child_of m u"
    "seen t' = Some (int_of (dget ''revision'' u), dget ''write_id'' u)" by blast
  from not_back_trans [OF t admitted_not_back [OF m(1)]] m show ?thesis
    using t by (auto simp: not_back_def child_of_def int_of_def)
qed

theorem rollback_never_accepted_witness:
  "case workspace_mutation ex_dg ex_io (ex_mut True) ex_ws of (t, _) \<Rightarrow>
     (case workspace_mutation ex_dg ex_io (ex_mut True) t of
        (t', Inr u) \<Rightarrow> 2 < int_of (dget ''revision'' u) \<and> seen t = Some (2, JStr (ex_uuid CHR ''b''))
      | _ \<Rightarrow> False)"
proof -
  obtain t r where t: "workspace_mutation ex_dg ex_io (ex_mut True) ex_ws = (t, r)" by fastforce
  have "case workspace_mutation ex_dg ex_io (ex_mut True) ex_ws of (t, r) \<Rightarrow>
     seen t = Some (2, JStr (ex_uuid CHR ''b''))
     \<and> (case workspace_mutation ex_dg ex_io (ex_mut True) t of (t', r') \<Rightarrow> (case r' of Inr u \<Rightarrow> True | Inl _ \<Rightarrow> False))"
    by code_simp
  with t obtain t' u where s: "seen t = Some (2, JStr (ex_uuid CHR ''b''))"
    and u: "workspace_mutation ex_dg ex_io (ex_mut True) t = (t', Inr u)"
    by (auto split: prod.splits sum.splits)
  have io: "\<And>w. ws_view (io_other ex_io w) = ws_view w" by (simp add: ex_io_def)
  from rollback_never_accepted [OF ws_start s io u] s t u show ?thesis by simp
qed

section \<open>What is not detected\<close>

text \<open>
  A manifest with a larger revision is accepted whatever its history: a fork that made more
  mutations than this controller is not reported as diverged.
\<close>

lemma ahead_is_no_conflict:
  "int_of (dget ''last_seen_revision'' v) < int_of (dget ''revision'' m) \<Longrightarrow> view_conflict m v = None"
  by (auto simp: view_conflict_def)

text \<open>
  \<open>node set --observe-identity-file\<close> on a node without an observe reference binds the identity
  under the reference of the default admin credential, and gives the node that reference.
\<close>

lemma observe_identity_takes_admin_ref:
  assumes "\<not> ns_clear_observe a" and "given (ns_observe_identity a) = Some raw"
    and "validate_identity_file se raw True = Inr p" and "se_known_hosts se \<noteq> None" and "r_observe_ref n = None"
    and "bind_identity_file se True DEFAULT_ADMIN_CREDENTIAL_REF p b = (b', Inr u)"
  shows "set_observe_identity se nm a n (g, b)
    = (b', Inr (set_node nm (\<lambda>n. n\<lparr>r_observe_ref := Some DEFAULT_ADMIN_CREDENTIAL_REF\<rparr>) g))"
  using assms by (auto simp: set_observe_identity_def bind_identity_for_workspace_def)

end
