(* ===== verification/FleetLock.thy ===== *)
theory FleetLock
  imports Prelude
begin

text \<open>
  The fleet operation lock of \<open>lib/vincula-fleet.py\<close>: a re-entrant mutex between the threads of a
  process, then \<open>flock\<close> on one file between processes.

  The state has every process and every thread of it.  A thread takes the lock in two steps, the
  mutex and the file lock, and gives it back in two, so that other threads and processes act in
  between; a process may die at any moment, and the system then drops its file lock.  Times are
  milliseconds.
\<close>

section \<open>Polling the file lock\<close>

text \<open>
  \<open>_flock_exclusive\<close>: \<open>tries i\<close> says whether the attempt \<open>i\<close> finds the lock free, \<open>now 0\<close> is the
  clock at the start and \<open>now (Suc i)\<close> after the attempt \<open>i\<close>.
\<close>

partial_function (option) flock_poll ::
    "(nat \<Rightarrow> bool) \<Rightarrow> (nat \<Rightarrow> int) \<Rightarrow> int \<Rightarrow> nat \<Rightarrow> bool option" where
  "flock_poll tries now timeout i =
     (if tries i then Some True
      else if timeout \<le> 0 \<or> now 0 + timeout \<le> now (Suc i) then Some False
      else flock_poll tries now timeout (Suc i))"

definition flock_exclusive :: "(nat \<Rightarrow> bool) \<Rightarrow> (nat \<Rightarrow> int) \<Rightarrow> int \<Rightarrow> bool option" where
  "flock_exclusive tries now timeout = flock_poll tries now timeout 0"

definition FLEET_OP_LOCK_TIMEOUT :: int where
  "FLEET_OP_LOCK_TIMEOUT = 30000"

text \<open>\<open>_fleet_lock_timeout\<close>: \<open>float_ms\<close> is \<open>float()\<close>, in milliseconds.\<close>

definition fleet_lock_timeout :: "(string \<Rightarrow> int option) \<Rightarrow> int option \<Rightarrow> string option \<Rightarrow> int res" where
  "fleet_lock_timeout float_ms timeout env =
     (case timeout of Some t \<Rightarrow> Inr t
      | None \<Rightarrow> (case env of
          None \<Rightarrow> Inr FLEET_OP_LOCK_TIMEOUT
        | Some v \<Rightarrow>
            if v = [] then Inr FLEET_OP_LOCK_TIMEOUT
            else (case float_ms v of
                Some t \<Rightarrow> Inr t | None \<Rightarrow> Inl (SystemExit ''invalid VCL_FLEET_LOCK_TIMEOUT'' 1))))"

section \<open>Threads and processes\<close>

text \<open>
  Where a thread is between the statements: outside, or inside with its depth; holding the mutex
  and about to lock the file; or done with depth 0 and about to unlock the file.
\<close>

datatype where_at = Steady | Locking | Unlocking

record lock_proc =
  rl_owner :: "nat option"
  rl_count :: nat
  lk_depth :: "nat \<Rightarrow> nat"
  lk_at :: "nat \<Rightarrow> where_at"
  lk_fh :: bool

record lock_sys =
  ls_proc :: "nat \<Rightarrow> lock_proc"
  ls_flock :: "nat option"

definition no_locks :: lock_proc where
  "no_locks = \<lparr>rl_owner = None, rl_count = 0, lk_depth = (\<lambda>_. 0), lk_at = (\<lambda>_. Steady), lk_fh = False\<rparr>"

definition lock_start :: lock_sys where
  "lock_start = \<lparr>ls_proc = (\<lambda>_. no_locks), ls_flock = None\<rparr>"

text \<open>\<open>threading.RLock\<close>: \<open>acquire\<close> of a lock that another thread holds runs into its timeout.\<close>

definition rlock_acquire :: "nat \<Rightarrow> lock_proc \<Rightarrow> lock_proc option" where
  "rlock_acquire t p =
     (case rl_owner p of
        None \<Rightarrow> Some (p\<lparr>rl_owner := Some t, rl_count := 1\<rparr>)
      | Some u \<Rightarrow> if u = t then Some (p\<lparr>rl_count := rl_count p + 1\<rparr>) else None)"

definition rlock_release :: "lock_proc \<Rightarrow> lock_proc" where
  "rlock_release p =
     (if rl_count p \<le> 1 then p\<lparr>rl_owner := None, rl_count := 0\<rparr> else p\<lparr>rl_count := rl_count p - 1\<rparr>)"

text \<open>
  \<open>acquire_fleet_op_lock\<close> up to the opening of the lock file: busy, nested (done), or on to the
  file.  The second part has the outcome of opening and locking the file.
\<close>

datatype acquired = Busy | Nested | Needs_File

definition acquire_begin :: "nat \<Rightarrow> lock_proc \<Rightarrow> lock_proc \<times> acquired" where
  "acquire_begin t p =
     (case rlock_acquire t p of
        None \<Rightarrow> (p, Busy)
      | Some q \<Rightarrow>
          if 0 < lk_depth q t then (q\<lparr>lk_depth := (lk_depth q)(t := lk_depth q t + 1)\<rparr>, Nested)
          else (q\<lparr>lk_at := (lk_at q)(t := Locking)\<rparr>, Needs_File))"

definition acquire_done :: "nat \<Rightarrow> lock_proc \<Rightarrow> lock_proc" where
  "acquire_done t p = p\<lparr>lk_fh := True, lk_depth := (lk_depth p)(t := 1), lk_at := (lk_at p)(t := Steady)\<rparr>"

definition acquire_fail :: "nat \<Rightarrow> lock_proc \<Rightarrow> lock_proc" where
  "acquire_fail t p =
     (let q = p\<lparr>lk_at := (lk_at p)(t := Steady)\<rparr>
      in if lk_depth q t = 0 then rlock_release q else q)"

text \<open>\<open>release_fleet_op_lock\<close>, up to the unlocking of the file and from there.\<close>

definition release_begin :: "nat \<Rightarrow> lock_proc \<Rightarrow> lock_proc" where
  "release_begin t p =
     (if lk_depth p t = 0 then p
      else if 1 < lk_depth p t then rlock_release (p\<lparr>lk_depth := (lk_depth p)(t := lk_depth p t - 1)\<rparr>)
      else p\<lparr>lk_depth := (lk_depth p)(t := 0), lk_fh := False, lk_at := (lk_at p)(t := Unlocking)\<rparr>)"

definition release_end :: "nat \<Rightarrow> lock_proc \<Rightarrow> lock_proc" where
  "release_end t p = rlock_release (p\<lparr>lk_at := (lk_at p)(t := Steady)\<rparr>)"

definition put_proc :: "nat \<Rightarrow> lock_proc \<Rightarrow> lock_sys \<Rightarrow> lock_sys" where
  "put_proc i p s = s\<lparr>ls_proc := (ls_proc s)(i := p)\<rparr>"

text \<open>The steps of the threads, and the death of a process.\<close>

inductive lock_step :: "lock_sys \<Rightarrow> lock_sys \<Rightarrow> bool" where
  step_acquire: "lk_at (ls_proc s i) t = Steady \<Longrightarrow>
    lock_step s (put_proc i (fst (acquire_begin t (ls_proc s i))) s)"
| step_locked: "lk_at (ls_proc s i) t = Locking \<Longrightarrow> ls_flock s = None \<Longrightarrow>
    lock_step s (put_proc i (acquire_done t (ls_proc s i)) (s\<lparr>ls_flock := Some i\<rparr>))"
| step_failed: "lk_at (ls_proc s i) t = Locking \<Longrightarrow> lock_step s (put_proc i (acquire_fail t (ls_proc s i)) s)"
| step_release: "lk_at (ls_proc s i) t = Steady \<Longrightarrow> lock_step s (put_proc i (release_begin t (ls_proc s i)) s)"
| step_unlocked: "lk_at (ls_proc s i) t = Unlocking \<Longrightarrow>
    lock_step s (put_proc i (release_end t (ls_proc s i)) (s\<lparr>ls_flock := None\<rparr>))"
| step_dies: "lock_step s (put_proc i no_locks (s\<lparr>ls_flock := (if ls_flock s = Some i then None else ls_flock s)\<rparr>))"

inductive lock_run :: "lock_sys \<Rightarrow> lock_sys \<Rightarrow> bool" where
  run_start: "lock_run s s"
| run_step: "lock_run s t \<Longrightarrow> lock_step t u \<Longrightarrow> lock_run s u"

section \<open>The invariant\<close>

text \<open>
  Within a process: only the owner of the mutex is inside or on its way, the mutex counts its
  depth and the half-done transition.  Between processes: the file lock is held by the process
  that has a thread inside or about to unlock.
\<close>

definition holds_file :: "lock_proc \<Rightarrow> bool" where
  "holds_file p = (case rl_owner p of None \<Rightarrow> False | Some t \<Rightarrow> 0 < lk_depth p t \<or> lk_at p t = Unlocking)"

definition proc_ok :: "lock_proc \<Rightarrow> bool" where
  "proc_ok p = (case rl_owner p of
     None \<Rightarrow> rl_count p = 0 \<and> (\<forall>u. lk_depth p u = 0 \<and> lk_at p u = Steady)
   | Some t \<Rightarrow> (\<forall>u. u \<noteq> t \<longrightarrow> lk_depth p u = 0 \<and> lk_at p u = Steady)
       \<and> (if lk_at p t = Steady then 0 < lk_depth p t \<and> rl_count p = lk_depth p t
          else lk_depth p t = 0 \<and> rl_count p = 1))"

definition lock_inv :: "lock_sys \<Rightarrow> bool" where
  "lock_inv s = (\<forall>i. proc_ok (ls_proc s i) \<and> (ls_flock s = Some i) = holds_file (ls_proc s i))"

lemmas lock_defs = rlock_acquire_def rlock_release_def acquire_begin_def acquire_done_def acquire_fail_def
  release_begin_def release_end_def Let_def

lemma put_proc_simps [simp]:
  "ls_flock (put_proc i p s) = ls_flock s" "ls_proc (put_proc i p s) j = (if j = i then p else ls_proc s j)"
  by (simp_all add: put_proc_def)

lemma no_locks_ok [simp]: "proc_ok no_locks" "\<not> holds_file no_locks"
  by (simp_all add: no_locks_def proc_ok_def holds_file_def)

lemma owner_of:
  assumes "proc_ok p" and "0 < lk_depth p t \<or> lk_at p t \<noteq> Steady"
  shows "rl_owner p = Some t"
  using assms unfolding proc_ok_def by (cases "rl_owner p") (simp_all, metis less_numeral_extra(3))

lemma acquire_begin_ok:
  assumes "proc_ok p" and "lk_at p t = Steady"
  shows "proc_ok (fst (acquire_begin t p)) \<and> holds_file (fst (acquire_begin t p)) = holds_file p"
  using assms by (auto simp: proc_ok_def holds_file_def lock_defs split: option.splits if_splits)

lemma locked_ok:
  assumes "proc_ok p" and "lk_at p t = Locking"
  shows "proc_ok (acquire_done t p) \<and> holds_file (acquire_done t p)"
  using assms owner_of [OF assms(1), of t] by (auto simp: proc_ok_def holds_file_def lock_defs)

lemma failed_ok:
  assumes "proc_ok p" and "lk_at p t = Locking"
  shows "proc_ok (acquire_fail t p) \<and> \<not> holds_file (acquire_fail t p) \<and> \<not> holds_file p"
  using assms owner_of [OF assms(1), of t] by (auto simp: proc_ok_def holds_file_def lock_defs)

lemma release_begin_ok:
  assumes "proc_ok p" and "lk_at p t = Steady"
  shows "proc_ok (release_begin t p) \<and> holds_file (release_begin t p) = holds_file p"
proof (cases "lk_depth p t = 0")
  case True
  then show ?thesis using assms by (simp add: release_begin_def)
next
  case False
  then have "rl_owner p = Some t" using owner_of [OF assms(1), of t] by simp
  with False assms show ?thesis by (auto simp: proc_ok_def holds_file_def lock_defs)
qed

lemma unlocked_ok:
  assumes "proc_ok p" and "lk_at p t = Unlocking"
  shows "proc_ok (release_end t p) \<and> \<not> holds_file (release_end t p) \<and> holds_file p"
  using assms owner_of [OF assms(1), of t] by (auto simp: proc_ok_def holds_file_def lock_defs)

lemma lock_step_inv: "lock_step s s' \<Longrightarrow> lock_inv s \<Longrightarrow> lock_inv s'"
proof (induction rule: lock_step.induct)
  case (step_acquire s i t)
  then show ?case using acquire_begin_ok [of "ls_proc s i" t] by (simp add: lock_inv_def)
next
  case (step_locked s i t)
  then show ?case using locked_ok [of "ls_proc s i" t] by (auto simp: lock_inv_def)
next
  case (step_failed s i t)
  then show ?case using failed_ok [of "ls_proc s i" t] by (simp add: lock_inv_def)
next
  case (step_release s i t)
  then show ?case using release_begin_ok [of "ls_proc s i" t] by (simp add: lock_inv_def)
next
  case (step_unlocked s i t)
  from step_unlocked unlocked_ok [of "ls_proc s i" t] have "ls_flock s = Some i" by (simp add: lock_inv_def)
  with step_unlocked have "holds_file (ls_proc s j) = (i = j)" for j by (simp add: lock_inv_def)
  with step_unlocked unlocked_ok [of "ls_proc s i" t] show ?case by (simp add: lock_inv_def)
next
  case (step_dies s i)
  then have h: "holds_file (ls_proc s j) = (ls_flock s = Some j)" and ok: "proc_ok (ls_proc s j)" for j
    by (simp_all add: lock_inv_def)
  show ?case by (auto simp: lock_inv_def h ok)
qed

lemma lock_run_inv: "lock_run s t \<Longrightarrow> lock_inv s \<Longrightarrow> lock_inv t"
  by (induction rule: lock_run.induct) (auto intro: lock_step_inv)

lemma lock_start_inv: "lock_inv lock_start"
  by (simp add: lock_inv_def lock_start_def)

section \<open>Properties\<close>

text \<open>
  C22: At most one thread of one process is inside the fleet operation lock at any time, whatever
  the interleaving of acquisitions, failures, releases and process deaths; while it is inside, its
  process holds the file lock, another thread of the process is told busy, and the thread itself
  may nest without waiting.
\<close>

theorem fleet_lock_excludes:
  assumes "lock_run lock_start s" and "0 < lk_depth (ls_proc s i) t"
  shows "(\<forall>j u. 0 < lk_depth (ls_proc s j) u \<longrightarrow> j = i \<and> u = t) \<and> ls_flock s = Some i
    \<and> (\<forall>u. u \<noteq> t \<longrightarrow> acquire_begin u (ls_proc s i) = (ls_proc s i, Busy))
    \<and> lk_at (ls_proc s i) t = Steady \<and> snd (acquire_begin t (ls_proc s i)) = Nested"
proof -
  from lock_run_inv [OF assms(1) lock_start_inv] have inv: "lock_inv s" .
  have o: "rl_owner (ls_proc s j) = Some u \<and> ls_flock s = Some j" if "0 < lk_depth (ls_proc s j) u" for j u
    using owner_of [of "ls_proc s j" u] inv that by (simp add: lock_inv_def holds_file_def)
  have only: "j = i \<and> u = t" if "0 < lk_depth (ls_proc s j) u" for j u
  proof
    show "j = i" using o [OF that] o [OF assms(2)] by simp
    then show "u = t" using o [OF that] o [OF assms(2)] by simp
  qed
  have "proc_ok (ls_proc s i)" using inv by (simp add: lock_inv_def)
  then have "lk_at (ls_proc s i) t = Steady"
    using assms(2) o [OF assms(2)] by (auto simp: proc_ok_def split: if_splits)
  moreover have "acquire_begin u (ls_proc s i) = (ls_proc s i, Busy)" if "u \<noteq> t" for u
    using that o [OF assms(2)] by (simp add: acquire_begin_def rlock_acquire_def)
  moreover have "snd (acquire_begin t (ls_proc s i)) = Nested"
    using assms(2) o [OF assms(2)] by (simp add: acquire_begin_def rlock_acquire_def)
  ultimately show ?thesis using only o [OF assms(2)] by blast
qed

text \<open>Two threads of process 0 and one of process 1: the first is inside, twice.\<close>

definition ex_locked :: lock_sys where
  "ex_locked = put_proc 0 (fst (acquire_begin 7 (acquire_done 7 (fst (acquire_begin 7 no_locks)))))
     (lock_start\<lparr>ls_flock := Some 0\<rparr>)"

lemma ex_locked_run: "lock_run lock_start ex_locked"
proof -
  let ?s1 = "put_proc 0 (fst (acquire_begin 7 no_locks)) lock_start"
  let ?s2 = "put_proc 0 (acquire_done 7 (ls_proc ?s1 0)) (?s1\<lparr>ls_flock := Some 0\<rparr>)"
  have 1: "lock_step lock_start ?s1" using step_acquire [of lock_start 0 7] by (simp add: lock_start_def no_locks_def)
  have 2: "lock_step ?s1 ?s2"
    by (rule step_locked) (simp_all add: acquire_begin_def rlock_acquire_def no_locks_def lock_start_def)
  have 3: "lock_step ?s2 (put_proc 0 (fst (acquire_begin 7 (ls_proc ?s2 0))) ?s2)"
    by (rule step_acquire) (simp add: acquire_done_def)
  have 4: "put_proc 0 (fst (acquire_begin 7 (ls_proc ?s2 0))) ?s2 = ex_locked"
    by (simp add: ex_locked_def put_proc_def)
  show ?thesis by (rule run_step [OF run_step [OF run_step [OF run_start 1] 2] 3, unfolded 4])
qed

theorem fleet_lock_excludes_witness:
  "lk_depth (ls_proc ex_locked 0) 7 = 2 \<and> acquire_begin 8 (ls_proc ex_locked 0) = (ls_proc ex_locked 0, Busy)
    \<and> ls_flock ex_locked = Some 0 \<and> lk_depth (ls_proc ex_locked 1) 8 = 0"
proof -
  have d: "lk_depth (ls_proc ex_locked 0) 7 = 2" "lk_depth (ls_proc ex_locked 1) 8 = 0"
    by (simp_all add: ex_locked_def acquire_begin_def rlock_acquire_def acquire_done_def no_locks_def lock_start_def)
  then have "0 < lk_depth (ls_proc ex_locked 0) 7" by simp
  from fleet_lock_excludes [OF ex_locked_run this] d show ?thesis by simp
qed

text \<open>
  C23: The wait for the file lock ends: when the clock does not go back and every sleep of the loop
  takes at least its 50 ms, \<open>_flock_exclusive\<close> returns after at most timeout / 50 + 2 attempts.  It
  returns True exactly when the attempt it stopped at found the lock free, and False only when the
  timeout has passed.
\<close>

theorem flock_wait_ends:
  assumes "now 0 \<le> now 1" and "\<And>i. now (Suc i) + 50 \<le> now (Suc (Suc i))"
  shows "\<exists>n b. flock_exclusive tries now timeout = Some b \<and> n \<le> nat (timeout div 50) + 1 \<and> (\<forall>i < n. \<not> tries i)
    \<and> b = tries n \<and> (\<not> b \<longrightarrow> timeout \<le> 0 \<or> now 0 + timeout \<le> now (Suc n))"
proof -
  have clock: "now 0 + 50 * int i \<le> now (Suc i)" for i
  proof (induction i)
    case (Suc i)
    then show ?case using assms(2) [of i] by simp
  qed (use assms(1) in simp)
  define stop where "stop i = (tries i \<or> timeout \<le> 0 \<or> now 0 + timeout \<le> now (Suc i))" for i
  have "stop (nat (timeout div 50) + 1)"
  proof (cases "timeout \<le> 0")
    case False
    then have "0 \<le> timeout div 50" "timeout \<le> 50 * (timeout div 50) + 50" by presburger+
    then have "timeout \<le> 50 * int (nat (timeout div 50) + 1)" by simp
    with clock [of "nat (timeout div 50) + 1"] show ?thesis by (simp add: stop_def)
  qed (simp add: stop_def)
  then obtain n where n: "stop n" "n \<le> nat (timeout div 50) + 1" "\<forall>i < n. \<not> stop i"
    by (metis LeastI Least_le not_less_Least)
  have "flock_poll tries now timeout i = Some (tries n)" if "i \<le> n" for i
    using that
  proof (induction "n - i" arbitrary: i)
    case 0
    then have "i = n" by simp
    with n(1) show ?case by (subst flock_poll.simps) (auto simp: stop_def)
  next
    case (Suc k)
    then have "i < n" "flock_poll tries now timeout (Suc i) = Some (tries n)" by auto
    with n(3) show ?case by (subst flock_poll.simps) (auto simp: stop_def)
  qed
  from this [of 0] have "flock_exclusive tries now timeout = Some (tries n)" by (simp add: flock_exclusive_def)
  moreover have "\<forall>i < n. \<not> tries i" using n(3) by (simp add: stop_def)
  ultimately show ?thesis using n(1,2) unfolding stop_def by blast
qed

theorem flock_wait_ends_witness:
  "\<exists>n \<le> 3. flock_exclusive (\<lambda>i. i = 2) (\<lambda>i. 60 * int i) 100 = Some (n = 2) \<and> (\<forall>i < n. i \<noteq> (2::nat))"
  using flock_wait_ends [of "\<lambda>i. 60 * int i" "\<lambda>i. i = 2" 100] by auto

end
