(* ===== verification/FleetUsers.thy ===== *)
theory FleetUsers
  imports RegistryStore Observation
begin

text \<open>
  User management over the fleet (\<open>lib/vincula-fleet.py\<close>): the per-node add, the mutation report,
  \<open>user add\<close>, \<open>import\<close>, \<open>enable\<close>, \<open>disable\<close>, \<open>rotate\<close>, \<open>link\<close>, \<open>list\<close>, \<open>show\<close> and \<open>export\<close>.

  The nodes are a state of any type: \<open>run n argv w\<close> runs a command on node \<open>n\<close> and gives the new
  state and the captured output.  \<open>loads\<close> is \<open>json.loads\<close>.  A command returns its exit code with
  what it reports; the rendering of tables and CSV text is left out, so a CSV file is its rows.
\<close>

section \<open>Remote commands\<close>

type_synonym 'w nodes = "reg_node \<Rightarrow> string list \<Rightarrow> 'w \<Rightarrow> 'w \<times> captured"

type_synonym loads = "string \<Rightarrow> json option"

definition stdout_json :: "loads \<Rightarrow> captured \<Rightarrow> json option" where
  "stdout_json loads p = (let t = strip (cap_stdout p) in if t = [] then None else loads t)"

definition remote_json :: "loads \<Rightarrow> bool \<Rightarrow> captured \<Rightarrow> bool \<times> dict option \<times> string" where
  "remote_json loads require_exit_0 p =
     (let detail = ssh_failure_detail p;
          payload = (case stdout_json loads p of Some (JObj d) \<Rightarrow> Some d | _ \<Rightarrow> None)
      in if cap_code p = 255 then (False, None, detail)
         else if require_exit_0 \<and> cap_code p \<noteq> 0
         then (False, payload, if detail = [] then ''remote exit '' @ int_text (cap_code p) else detail)
         else if payload = None then (True, None, if detail = [] then ''remote JSON missing or invalid'' else detail)
         else (True, payload, if cap_code p \<noteq> 0 then detail else []))"

definition remote_text :: "captured \<Rightarrow> bool \<times> string \<times> string" where
  "remote_text p =
     (let detail = ssh_failure_detail p
      in if cap_code p = 255 then (False, [], detail)
         else if cap_code p \<noteq> 0 then (True, cap_stdout p, detail)
         else (True, cap_stdout p, []))"

definition first_vless_uri :: "string \<Rightarrow> string option" where
  "first_vless_uri text =
     (case find (\<lambda>l. starts_with ''vless://'' (strip l)) (splitlines text) of
        Some l \<Rightarrow> Some (strip l)
      | None \<Rightarrow> if strip text = [] then None else Some (strip text))"

text \<open>\<open>_active_credential_id\<close>: iterating a value that is not iterable raises TypeError.\<close>

definition is_active_cred :: "json \<Rightarrow> string option" where
  "is_active_cred c = (case c of
     JObj d \<Rightarrow> if dget ''status'' d = JStr ''active''
       then (case dget ''credential_id'' d of JStr s \<Rightarrow> if s = [] then None else Some s | _ \<Rightarrow> None) else None
   | _ \<Rightarrow> None)"

fun first_cred :: "json list \<Rightarrow> string option" where
  "first_cred [] = None"
| "first_cred (c # cs) = (case is_active_cred c of Some k \<Rightarrow> Some k | None \<Rightarrow> first_cred cs)"

definition active_credential_id :: "dict \<Rightarrow> string option res" where
  "active_credential_id shown =
     (let v = dget ''credentials'' shown
      in if \<not> truthy v then Inr None
         else (case v of
            JList cs \<Rightarrow> Inr (first_cred cs)
          | JObj _ \<Rightarrow> Inr None | JStr _ \<Rightarrow> Inr None
          | _ \<Rightarrow> Inl TypeError))"

section \<open>Mutation reports\<close>

record user_row =
  ur_name :: string
  ur_ok :: bool
  ur_cred :: json
  ur_uri :: json
  ur_error :: "string option"

definition row_ok :: "reg_node \<Rightarrow> json \<Rightarrow> json \<Rightarrow> user_row" where
  "row_ok n cred uri = \<lparr>ur_name = n_name n, ur_ok = True, ur_cred = cred, ur_uri = uri, ur_error = None\<rparr>"

definition row_failed :: "reg_node \<Rightarrow> string \<Rightarrow> user_row" where
  "row_failed n err = \<lparr>ur_name = n_name n, ur_ok = False, ur_cred = JNull, ur_uri = JNull, ur_error = Some err\<rparr>"

definition plan_state :: "user_row list \<Rightarrow> string" where
  "plan_state rows = (if rows = [] then ''PLANNED'' else if list_all ur_ok rows then ''SUCCESS'' else ''PARTIAL'')"

definition remediation_user_add :: "string \<Rightarrow> string \<Rightarrow> string list \<Rightarrow> string list" where
  "remediation_user_add tag uid failed =
     map (\<lambda>nm. ''vcl-fleet user add '' @ tag @ '' --nodes '' @ nm @ '' --user-id '' @ uid) failed"

record mutation_doc =
  md_operation :: string
  md_tag :: string
  md_user_id :: string
  md_state :: string
  md_nodes :: "user_row list"
  md_remediation :: "string list"

definition mutation_report :: "user_row list \<Rightarrow> string \<Rightarrow> string \<Rightarrow> string \<Rightarrow> mutation_doc" where
  "mutation_report rows tag uid operation =
     (let state = plan_state rows
      in \<lparr>md_operation = operation, md_tag = tag, md_user_id = uid, md_state = state, md_nodes = rows,
          md_remediation = (if state = ''PARTIAL''
            then remediation_user_add tag uid (map ur_name (filter (\<lambda>r. \<not> ur_ok r) rows)) else [])\<rparr>)"

definition never_report_full_success :: "mutation_doc \<Rightarrow> int" where
  "never_report_full_success doc = (if md_state doc = ''SUCCESS'' then 0 else 2)"

text \<open>The rows of the credential CSV: tag, node, credential id and link.\<close>

definition cred_entry :: "string \<Rightarrow> user_row \<Rightarrow> string \<times> string \<times> json \<times> json" where
  "cred_entry tag r = (tag, ur_name r, py_or (ur_cred r) (JStr []), py_or (ur_uri r) (JStr []))"

section \<open>Targets\<close>

fun unique_names :: "string list \<Rightarrow> string list \<Rightarrow> string + string list" where
  "unique_names seen [] = Inr []"
| "unique_names seen (n # ns) =
     (if \<not> name_ok n then Inl (''invalid node name: '' @ n)
      else if n \<in> set seen then Inl (''duplicate node in list: '' @ n)
      else (case unique_names (n # seen) ns of Inl e \<Rightarrow> Inl e | Inr r \<Rightarrow> Inr (n # r)))"

definition parse_nodes_cell :: "string \<Rightarrow> string + string list" where
  "parse_nodes_cell raw =
     (let parts = filter (\<lambda>p. p \<noteq> []) (map strip (split_on CHR '','' raw))
      in if parts = [] then Inl ''empty nodes'' else unique_names [] parts)"

definition parse_nodes_csv :: "string \<Rightarrow> string list res" where
  "parse_nodes_csv raw = (case parse_nodes_cell raw of
     Inl e \<Rightarrow> die (if e = ''empty nodes'' then ''nodes list is empty'' else e) | Inr ns \<Rightarrow> Inr ns)"

definition node_importable :: "reg_node option \<Rightarrow> string \<Rightarrow> string option" where
  "node_importable n nm = (case n of
     None \<Rightarrow> Some (''unknown node: '' @ nm)
   | Some n \<Rightarrow> if n_status n = Some ''retired'' then Some (''node is retired: '' @ nm)
       else if \<not> n_enabled n then Some (''node is disabled: '' @ nm) else None)"

definition target_names_from_add_args :: "string option \<Rightarrow> string option \<Rightarrow> string list res" where
  "target_names_from_add_args one many =
     (if nonempty one \<and> nonempty many then die ''--node and --nodes are mutually exclusive''
      else if nonempty many then parse_nodes_csv (the many)
      else if nonempty one then parse_nodes_csv (the one)
      else die ''user add requires --node or --nodes'')"

definition require_enabled_reg_node :: "registry \<Rightarrow> string \<Rightarrow> reg_node res" where
  "require_enabled_reg_node g nm =
     rbind (require_node g nm) (\<lambda>n.
       if life n = ''retired'' then die (''node is retired: '' @ nm)
       else if life n \<noteq> ''active'' \<or> \<not> n_enabled n then die (''node is disabled: '' @ nm)
       else Inr n)"

definition selected_reg_nodes :: "registry \<Rightarrow> bool \<Rightarrow> reg_node list" where
  "selected_reg_nodes g include_all = (if include_all then g_nodes g else filter node_is_active (g_nodes g))"

section \<open>Adding a user on one node\<close>

definition show_argv :: "string \<Rightarrow> string list" where
  "show_argv tag = [''vcl'', ''user'', ''show'', tag, ''--json'']"

definition link_argv :: "string \<Rightarrow> string list" where
  "link_argv tag = [''vcl'', ''user'', ''link'', tag]"

definition add_argv :: "string \<Rightarrow> string \<Rightarrow> string option \<Rightarrow> string option \<Rightarrow> string list" where
  "add_argv tag uid display dept =
     [''vcl'', ''user'', ''add'', tag, ''--user-id'', uid, ''--json'']
     @ (if nonempty display then [''--display-name'', the display] else [])
     @ (if nonempty dept then [''--department'', the dept] else [])"

definition ssh_user_link_uri :: "'w nodes \<Rightarrow> reg_node \<Rightarrow> string \<Rightarrow> 'w \<Rightarrow> 'w \<times> string option" where
  "ssh_user_link_uri run n tag w = (case run n (link_argv tag) w of (w', p) \<Rightarrow>
     (case remote_text p of (ok, out, _) \<Rightarrow> (w', if ok then first_vless_uri out else None)))"

definition validate_metadata :: "string option \<Rightarrow> string option \<Rightarrow> unit res" where
  "validate_metadata display dept =
     rbind (validate_display_name (of_text display)) (\<lambda>_.
     rbind (validate_department (of_text dept)) (\<lambda>_. Inr ()))"

definition provision_user_on_node ::
    "loads \<Rightarrow> 'w nodes \<Rightarrow> reg_node \<Rightarrow> string \<Rightarrow> string \<Rightarrow> string option \<Rightarrow> string option \<Rightarrow> 'w
      \<Rightarrow> 'w \<times> user_row res" where
  "provision_user_on_node loads run n tag uid display dept w =
     (case validate_metadata display dept of
        Inl e \<Rightarrow> (w, Inl e)
      | Inr _ \<Rightarrow> (case run n (show_argv tag) w of (w1, p) \<Rightarrow>
          (case remote_json loads False p of (ok, shown, detail) \<Rightarrow>
            if \<not> ok then (w1, Inr (row_failed n (ssh_error 255 detail)))
            else if (case shown of None \<Rightarrow> False | Some d \<Rightarrow> dget ''tag'' d = JStr tag)
            then (if py_or (dget ''user_id'' (the shown)) (JStr []) \<noteq> JStr uid
                  then (w1, Inr (row_failed n (''identity conflict: tag '' @ tag @ '' has user_id ''
                         @ py_str (py_or (dget ''user_id'' (the shown)) (JStr [])) @ '', expected '' @ uid)))
                  else (case active_credential_id (the shown) of
                      Inl e \<Rightarrow> (w1, Inl e)
                    | Inr cred \<Rightarrow> (case ssh_user_link_uri run n tag w1 of
                        (w2, uri) \<Rightarrow> (w2, Inr (row_ok n (of_text cred) (of_text uri))))))
            else (case run n (add_argv tag uid display dept) w1 of (w2, q) \<Rightarrow>
              (case remote_json loads True q of (ok, payload, detail) \<Rightarrow>
                (w2, Inr (if \<not> ok then row_failed n (ssh_error 255 detail)
                   else (case payload of
                       None \<Rightarrow> row_failed n (ssh_error 1 detail)
                     | Some d \<Rightarrow>
                         if dget ''ok'' d \<noteq> JBool True
                         then row_failed n (ssh_error 1 (py_str (py_or (dget ''error'' d)
                                (if detail = [] then JStr ''failed'' else JStr detail))))
                         else row_ok n (dget ''credential_id'' d) (dget ''vless_uri'' d))))))))) "

fun provision_all ::
    "loads \<Rightarrow> 'w nodes \<Rightarrow> string \<Rightarrow> string \<Rightarrow> string option \<Rightarrow> string option \<Rightarrow> reg_node list \<Rightarrow> 'w
      \<Rightarrow> 'w \<times> user_row list res" where
  "provision_all loads run tag uid display dept [] w = (w, Inr [])"
| "provision_all loads run tag uid display dept (n # ns) w =
     (case provision_user_on_node loads run n tag uid display dept w of
        (w1, Inl e) \<Rightarrow> (w1, Inl e)
      | (w1, Inr r) \<Rightarrow> (case provision_all loads run tag uid display dept ns w1 of
          (w2, Inl e) \<Rightarrow> (w2, Inl e)
        | (w2, Inr rs) \<Rightarrow> (w2, Inr (r # rs))))"

section \<open>user add\<close>

record user_out =
  uo_exit :: int
  uo_docs :: "mutation_doc list"
  uo_creds :: "(string \<times> string \<times> json \<times> json) list"
  uo_file :: "string option"

definition success_entries :: "mutation_doc \<Rightarrow> (string \<times> string \<times> json \<times> json) list" where
  "success_entries doc = map (cred_entry (md_tag doc)) (filter ur_ok (md_nodes doc))"

text \<open>\<open>fresh\<close> is the new UUID that is taken when no user id is given.\<close>

definition user_add_plan ::
    "registry res \<Rightarrow> string \<Rightarrow> string option \<Rightarrow> string option \<Rightarrow> string option \<Rightarrow> string \<Rightarrow> string option
      \<Rightarrow> string option \<Rightarrow> (string \<times> reg_node list) res" where
  "user_add_plan reg tag display dept user_id fresh one many =
     rbind (validate_name tag) (\<lambda>_.
     rbind (validate_metadata display dept) (\<lambda>_.
     let given_id = strip (case user_id of None \<Rightarrow> [] | Some u \<Rightarrow> u) in
     rbind (if given_id = [] then Inr fresh
            else if uuid_ok given_id then Inr given_id else die (''invalid user_id: '' @ given_id)) (\<lambda>uid.
     rbind (target_names_from_add_args one many) (\<lambda>names.
     rbind reg (\<lambda>g.
     rbind (rmap (require_enabled_reg_node g) names) (\<lambda>ns. Inr (uid, ns)))))))"

definition cmd_user_add ::
    "loads \<Rightarrow> 'w nodes \<Rightarrow> registry res \<Rightarrow> string \<Rightarrow> string option \<Rightarrow> string option \<Rightarrow> string option \<Rightarrow> string
      \<Rightarrow> string option \<Rightarrow> string option \<Rightarrow> string option \<Rightarrow> 'w \<Rightarrow> 'w \<times> user_out res" where
  "cmd_user_add loads run reg tag display dept user_id fresh one many output w =
     (case user_add_plan reg tag display dept user_id fresh one many of
        Inl e \<Rightarrow> (w, Inl e)
      | Inr (uid, ns) \<Rightarrow> (case provision_all loads run tag uid display dept ns w of
          (w', Inl e) \<Rightarrow> (w', Inl e)
        | (w', Inr rows) \<Rightarrow>
            (let doc = mutation_report rows tag uid ''user.add''; creds = success_entries doc
             in (w', Inr \<lparr>uo_exit = never_report_full_success doc, uo_docs = [doc], uo_creds = creds,
                   uo_file = (if nonempty output \<and> creds \<noteq> [] then output else None)\<rparr>))))"

section \<open>user import\<close>

text \<open>
  \<open>csv.DictReader\<close> gives the header and the records; a record longer than the header has extra
  fields, a missing field is None, and an empty record is skipped.
\<close>

record import_row =
  im_line :: nat
  im_tag :: string
  im_display :: string
  im_dept :: string
  im_nodes_raw :: string
  im_nodes :: "string list"

definition CSV_IMPORT_HEADER :: "string list" where
  "CSV_IMPORT_HEADER = [''tag'', ''display_name'', ''department'', ''nodes'']"

definition csv_fieldnames :: "string list \<Rightarrow> string list" where
  "csv_fieldnames raw = filter (\<lambda>h. h \<noteq> []) (map strip raw)"

definition csv_cell :: "string list \<Rightarrow> string list \<Rightarrow> string \<Rightarrow> string" where
  "csv_cell header rec k =
     (case find (\<lambda>hv. fst hv \<noteq> [] \<and> strip (fst hv) = k) (rev (zip header (map strip rec @ replicate (length header) []))) of
        Some (_, v) \<Rightarrow> v | None \<Rightarrow> [])"

definition read_csv_row ::
    "string list \<Rightarrow> nat \<times> string list \<Rightarrow> import_row list \<times> string list \<Rightarrow> import_row list \<times> string list" where
  "read_csv_row header ir acc = (case (ir, acc) of ((i, rec), (rows, errors)) \<Rightarrow>
     if length header < length rec
     then (rows, errors @ [''line '' @ nat_text i @ '': extra CSV fields''])
     else
       (let r = \<lparr>im_line = i, im_tag = csv_cell header rec ''tag'', im_display = csv_cell header rec ''display_name'',
                 im_dept = csv_cell header rec ''department'', im_nodes_raw = csv_cell header rec ''nodes'',
                 im_nodes = []\<rparr>
        in if im_tag r = [] \<and> im_display r = [] \<and> im_dept r = [] \<and> im_nodes_raw r = []
           then (rows, errors) else (rows @ [r], errors)))"

definition load_import_csv :: "string list \<Rightarrow> string list list \<Rightarrow> import_row list \<times> string list" where
  "load_import_csv header recs =
     (if csv_fieldnames header \<noteq> CSV_IMPORT_HEADER
      then ([], [''CSV header must be tag,display_name,department,nodes''])
      else (let full = filter (\<lambda>r. r \<noteq> []) recs
            in fold (read_csv_row header) (zip [2..<length full + 2] full) ([], [])))"

definition line_error :: "import_row \<Rightarrow> string \<Rightarrow> string" where
  "line_error r msg = ''line '' @ nat_text (im_line r) @ '': '' @ msg"

definition tag_errors :: "string list \<Rightarrow> import_row \<Rightarrow> string list" where
  "tag_errors seen r =
     (if im_tag r = [] then [''missing tag'']
      else if \<not> name_ok (im_tag r) then [''invalid tag'']
      else if im_tag r \<in> set seen then [''duplicate tag '' @ im_tag r] else [])"

definition opt_list :: "'a option \<Rightarrow> 'a list" where
  "opt_list v = (case v of None \<Rightarrow> [] | Some x \<Rightarrow> [x])"

definition check_import_row ::
    "registry \<Rightarrow> string list \<Rightarrow> import_row \<Rightarrow> import_row \<times> string list" where
  "check_import_row g seen r =
     (let errs = tag_errors seen r
            @ opt_list (user_metadata_error (JStr (im_display r)) ''display_name'')
            @ opt_list (user_metadata_error (JStr (im_dept r)) ''department'')
      in case parse_nodes_cell (im_nodes_raw r) of
           Inl e \<Rightarrow> (r, map (line_error r) (errs @ [e]))
         | Inr names \<Rightarrow> (r\<lparr>im_nodes := names\<rparr>,
             map (line_error r) (errs @ List.map_filter (\<lambda>nm. node_importable (reg_by_name g nm) nm) names)))"

fun validate_import_rows ::
    "registry \<Rightarrow> string list \<Rightarrow> import_row list \<Rightarrow> import_row list \<times> string list" where
  "validate_import_rows g seen [] = ([], [])"
| "validate_import_rows g seen (r # rs) =
     (case check_import_row g seen r of (r', es) \<Rightarrow>
      (case validate_import_rows g (if tag_errors seen r = [] then im_tag r # seen else seen) rs of
        (rs', es') \<Rightarrow> (r' # rs', es @ es')))"

text \<open>One row after the validation; \<open>uid\<close> is its fresh user id.\<close>

definition import_one ::
    "loads \<Rightarrow> 'w nodes \<Rightarrow> registry \<Rightarrow> import_row \<Rightarrow> string \<Rightarrow> 'w \<Rightarrow> 'w \<times> mutation_doc res" where
  "import_one loads run g r uid w =
     (case rmap (require_enabled_reg_node g) (im_nodes r) of
        Inl e \<Rightarrow> (w, Inl e)
      | Inr ns \<Rightarrow> (case provision_all loads run (im_tag r) uid
            (if im_display r = [] then None else Some (im_display r))
            (if im_dept r = [] then None else Some (im_dept r)) ns w of
          (w', res) \<Rightarrow> (w', rbind res (\<lambda>rows. Inr (mutation_report rows (im_tag r) uid ''user.import'')))))"

fun import_all ::
    "loads \<Rightarrow> 'w nodes \<Rightarrow> registry \<Rightarrow> (import_row \<times> string) list \<Rightarrow> 'w \<Rightarrow> 'w \<times> mutation_doc list res" where
  "import_all loads run g [] w = (w, Inr [])"
| "import_all loads run g ((r, uid) # rs) w =
     (case import_one loads run g r uid w of
        (w1, Inl e) \<Rightarrow> (w1, Inl e)
      | (w1, Inr doc) \<Rightarrow> (case import_all loads run g rs w1 of
          (w2, res) \<Rightarrow> (w2, rbind res (\<lambda>docs. Inr (doc # docs)))))"

definition import_state :: "mutation_doc list \<Rightarrow> string" where
  "import_state docs = (if list_all (\<lambda>d. md_state d = ''SUCCESS'') docs then ''SUCCESS'' else ''PARTIAL'')"

text \<open>The exit code 1 with the errors is \<open>_print_import_errors\<close>; \<open>fresh i\<close> is the UUID of row \<open>i\<close>.\<close>

datatype import_outcome = Import_Errors "string list" | Import_Plan "import_row list" | Import_Done user_out

definition cmd_user_import ::
    "loads \<Rightarrow> 'w nodes \<Rightarrow> registry res \<Rightarrow> string list \<Rightarrow> string list list \<Rightarrow> bool \<Rightarrow> (nat \<Rightarrow> string)
      \<Rightarrow> string option \<Rightarrow> 'w \<Rightarrow> 'w \<times> import_outcome res" where
  "cmd_user_import loads run reg header recs dry_run fresh output w =
     (case reg of
        Inl e \<Rightarrow> (w, Inl e)
      | Inr g \<Rightarrow> (case load_import_csv header recs of (rows, errors) \<Rightarrow>
          (case validate_import_rows g [] rows of (rows', errors') \<Rightarrow>
            if errors @ errors' \<noteq> [] then (w, Inr (Import_Errors (errors @ errors')))
            else if dry_run then (w, Inr (Import_Plan rows'))
            else (case import_all loads run g (zip rows' (map fresh [0..<length rows'])) w of
                (w', Inl e) \<Rightarrow> (w', Inl e)
              | (w', Inr docs) \<Rightarrow>
                  (let creds = concat (map success_entries docs)
                   in (w', Inr (Import_Done \<lparr>uo_exit = (if import_state docs = ''SUCCESS'' then 0 else 2),
                         uo_docs = docs, uo_creds = creds,
                         uo_file = (if nonempty output \<and> creds \<noteq> [] then output else None)\<rparr>)))))))"

end
