(* ===== verification/FleetUserOps.thy ===== *)
theory FleetUserOps
  imports FleetUsers
begin

text \<open>
  The user commands of one node (enable, disable, rotate, link) and the aggregations over the fleet
  (list, show, export) of \<open>lib/vincula-fleet.py\<close>.
\<close>

section \<open>Commands on one node\<close>

definition require_single_node_flag :: "string option \<Rightarrow> string \<Rightarrow> string res" where
  "require_single_node_flag node action = (case (case node of None \<Rightarrow> [] | Some n \<Rightarrow> n) of
     [] \<Rightarrow> die (''refusing fleet-wide '' @ action @ ''; pass --node'')
   | n \<Rightarrow> Inr n)"

definition one_node :: "registry res \<Rightarrow> string \<Rightarrow> string option \<Rightarrow> string \<Rightarrow> reg_node res" where
  "one_node reg tag node action =
     rbind (validate_name tag) (\<lambda>_.
     rbind (require_single_node_flag node action) (\<lambda>nm.
     rbind reg (\<lambda>g. require_enabled_reg_node g nm)))"

text \<open>The payload of a mutation that the node reports as done, or the message of the failure.\<close>

definition confirmed :: "loads \<Rightarrow> string \<Rightarrow> captured \<Rightarrow> dict res" where
  "confirmed loads fallback p = (case remote_json loads True p of (ok, payload, detail) \<Rightarrow>
     if \<not> ok then die (ssh_error 255 detail)
     else (case payload of
         None \<Rightarrow> die (if detail = [] then fallback else detail)
       | Some d \<Rightarrow>
           if dget ''ok'' d = JBool True then Inr d
           else (let err = (if truthy (dget ''error'' d) then py_str (dget ''error'' d) else [])
                 in die (if err \<noteq> [] then err else if detail \<noteq> [] then detail else fallback))))"

definition mutation_argv :: "string \<Rightarrow> string \<Rightarrow> string list" where
  "mutation_argv action tag = [''vcl'', ''user'', action, tag, ''--json'']"

definition cmd_user_enable_disable ::
    "loads \<Rightarrow> 'w nodes \<Rightarrow> registry res \<Rightarrow> string \<Rightarrow> string option \<Rightarrow> bool \<Rightarrow> 'w \<Rightarrow> 'w \<times> (json \<times> bool) res" where
  "cmd_user_enable_disable loads run reg tag node enabled w =
     (let action = (if enabled then ''enable'' else ''disable'')
      in case one_node reg tag node action of
           Inl e \<Rightarrow> (w, Inl e)
         | Inr n \<Rightarrow> (case run n (mutation_argv action tag) w of (w', p) \<Rightarrow>
             (w', rbind (confirmed loads (''user '' @ action @ '' failed on '' @ n_name n) p) (\<lambda>d.
                Inr (dget ''user_id'' d, truthy (dget_or ''enabled'' (JBool enabled) d))))))"

text \<open>The result is the credential entry and the file it is written to, none in the JSON form.\<close>

definition cmd_user_rotate ::
    "loads \<Rightarrow> 'w nodes \<Rightarrow> registry res \<Rightarrow> string \<Rightarrow> string option \<Rightarrow> bool \<Rightarrow> string option \<Rightarrow> 'w
      \<Rightarrow> 'w \<times> ((string \<times> string \<times> json \<times> json) \<times> string option) res" where
  "cmd_user_rotate loads run reg tag node as_json output w =
     (case one_node reg tag node ''rotate'' of
        Inl e \<Rightarrow> (w, Inl e)
      | Inr n \<Rightarrow> (case run n (mutation_argv ''rotate'' tag) w of (w', p) \<Rightarrow>
          (w', rbind (confirmed loads (''user rotate failed on '' @ n_name n) p) (\<lambda>d.
             Inr (cred_entry tag (row_ok n (dget ''credential_id'' d) (dget ''vless_uri'' d)),
                  if \<not> as_json \<and> nonempty output then output else None)))))"

definition cmd_user_link ::
    "'w nodes \<Rightarrow> registry res \<Rightarrow> string \<Rightarrow> string option \<Rightarrow> 'w \<Rightarrow> 'w \<times> string res" where
  "cmd_user_link run reg tag node w =
     (case one_node reg tag node ''link'' of
        Inl e \<Rightarrow> (w, Inl e)
      | Inr n \<Rightarrow> (case run n (link_argv tag) w of (w', p) \<Rightarrow>
          (case remote_text p of (ok, out, detail) \<Rightarrow>
            (w', if \<not> ok then die (ssh_error 255 detail)
                 else (case first_vless_uri out of
                     Some uri \<Rightarrow> if starts_with ''vless://'' uri then Inr uri
                       else die (if strip detail \<noteq> [] then strip detail else ''user has no link'')
                   | None \<Rightarrow> die (if strip detail \<noteq> [] then strip detail else ''user has no link'')))))) "

section \<open>Asking every node\<close>

text \<open>A command run on the selected nodes in order, with the outcome per node.\<close>

fun ask_nodes :: "'w nodes \<Rightarrow> string list \<Rightarrow> reg_node list \<Rightarrow> 'w \<Rightarrow> 'w \<times> (reg_node \<times> captured) list" where
  "ask_nodes run argv [] w = (w, [])"
| "ask_nodes run argv (n # ns) w =
     (case run n argv w of (w1, p) \<Rightarrow>
      (case ask_nodes run argv ns w1 of (w2, r) \<Rightarrow> (w2, (n, p) # r)))"

definition list_users :: "loads \<Rightarrow> captured \<Rightarrow> string + dict list" where
  "list_users loads p = (case remote_json loads False p of (ok, payload, detail) \<Rightarrow>
     if \<not> ok then Inl (ssh_error 255 detail)
     else (case payload of
        None \<Rightarrow> Inl (ssh_error 1 detail)
      | Some d \<Rightarrow> (case py_or (dget ''users'' d) (JList []) of
          JList us \<Rightarrow> Inr (List.map_filter (\<lambda>u. case u of JObj x \<Rightarrow> Some x | _ \<Rightarrow> None) us)
        | _ \<Rightarrow> Inl ''remote list JSON users is not a list'')))"

definition text_of :: "json \<Rightarrow> string" where
  "text_of v = (if truthy v then py_str v else [])"

section \<open>user list\<close>

record user_at =
  ua_name :: string
  ua_tag :: string
  ua_enabled :: bool
  ua_cred :: json

record user_group =
  ug_tag :: string
  ug_user_id :: string
  ug_display :: json
  ug_dept :: json
  ug_nodes :: "user_at list"

definition or_none :: "json \<Rightarrow> json" where
  "or_none v = (if truthy v then v else JNull)"

definition group_key :: "reg_node \<Rightarrow> dict \<Rightarrow> string" where
  "group_key n u = (let uid = text_of (dget ''user_id'' u)
     in if uid \<noteq> [] then uid else ''tag:'' @ text_of (dget ''tag'' u) @ ''@'' @ n_name n)"

definition merge_user :: "reg_node \<Rightarrow> dict \<Rightarrow> user_group \<Rightarrow> user_group" where
  "merge_user n u g =
     (let tag = text_of (dget ''tag'' u)
      in g\<lparr>ug_tag := (if tag \<noteq> [] \<and> ug_tag g \<noteq> [] \<and> tag \<noteq> ug_tag g then ug_tag g @ '','' @ tag
                      else if tag \<noteq> [] \<and> ug_tag g = [] then tag else ug_tag g),
           ug_display := (if \<not> truthy (ug_display g) \<and> truthy (dget ''display_name'' u)
                          then dget ''display_name'' u else ug_display g),
           ug_dept := (if \<not> truthy (ug_dept g) \<and> truthy (dget ''department'' u)
                       then dget ''department'' u else ug_dept g),
           ug_nodes := ug_nodes g @ [\<lparr>ua_name = n_name n, ua_tag = tag, ua_enabled = truthy (dget ''enabled'' u),
                         ua_cred = dget ''active_credential_id'' u\<rparr>]\<rparr>)"

definition new_group :: "dict \<Rightarrow> user_group" where
  "new_group u = \<lparr>ug_tag = text_of (dget ''tag'' u), ug_user_id = text_of (dget ''user_id'' u),
     ug_display = or_none (dget ''display_name'' u), ug_dept = or_none (dget ''department'' u), ug_nodes = []\<rparr>"

definition add_to_group ::
    "reg_node \<Rightarrow> dict \<Rightarrow> (string \<times> user_group) list \<Rightarrow> (string \<times> user_group) list" where
  "add_to_group n u gs =
     (let k = group_key n u; g = (case map_of gs k of Some g \<Rightarrow> g | None \<Rightarrow> new_group u)
      in AList.update k (merge_user n u g) gs)"

definition list_step ::
    "loads \<Rightarrow> reg_node \<times> captured \<Rightarrow> (string \<times> user_group) list \<times> (string \<times> string) list
      \<Rightarrow> (string \<times> user_group) list \<times> (string \<times> string) list" where
  "list_step loads np acc = (case (np, acc) of ((n, p), (gs, unreachable)) \<Rightarrow>
     (case list_users loads p of
        Inl e \<Rightarrow> (gs, unreachable @ [(n_name n, e)])
      | Inr us \<Rightarrow> (fold (add_to_group n) us gs, unreachable)))"

definition run_user_list ::
    "loads \<Rightarrow> (reg_node \<times> captured) list \<Rightarrow> int \<times> user_group list \<times> (string \<times> string) list" where
  "run_user_list loads answers =
     (case fold (list_step loads) answers ([], []) of
        (gs, unreachable) \<Rightarrow> (if unreachable = [] then 0 else 2, map snd gs, unreachable))"

definition run_user_list_payload ::
    "loads \<Rightarrow> 'w nodes \<Rightarrow> registry res \<Rightarrow> 'w
      \<Rightarrow> 'w \<times> (int \<times> user_group list \<times> (string \<times> string) list) res" where
  "run_user_list_payload loads run reg w = (case reg of
     Inl e \<Rightarrow> (w, Inl e)
   | Inr g \<Rightarrow> (case ask_nodes run [''vcl'', ''user'', ''list'', ''--json''] (selected_reg_nodes g False) w of
       (w', answers) \<Rightarrow> (w', Inr (run_user_list loads answers))))"

section \<open>user show\<close>

record show_row =
  sw_name :: string
  sw_status :: string
  sw_enabled :: "bool option"
  sw_user_id :: "json"
  sw_cred :: "string option"
  sw_error :: "string option"

definition show_on_node :: "loads \<Rightarrow> string \<Rightarrow> reg_node \<Rightarrow> captured \<Rightarrow> show_row res" where
  "show_on_node loads tag n p =
     (let blank = \<lparr>sw_name = n_name n, sw_status = ''MISSING'', sw_enabled = None, sw_user_id = JNull,
                   sw_cred = None, sw_error = None\<rparr>
      in case remote_json loads False p of (ok, payload, detail) \<Rightarrow>
         if \<not> ok then Inr (blank\<lparr>sw_status := ''UNREACHABLE'', sw_error := Some (ssh_error 255 detail)\<rparr>)
         else (case payload of
             None \<Rightarrow> Inr blank
           | Some d \<Rightarrow>
               if dget ''tag'' d \<noteq> JStr tag then Inr blank
               else rbind (active_credential_id d) (\<lambda>cred.
                 let enabled = truthy (dget ''enabled'' d)
                 in Inr (blank\<lparr>sw_status := (if \<not> enabled then ''disabled''
                            else if cred = None then ''none'' else ''active''),
                          sw_enabled := Some enabled, sw_user_id := or_none (dget ''user_id'' d),
                          sw_cred := cred\<rparr>))))"

fun show_nodes :: "loads \<Rightarrow> 'w nodes \<Rightarrow> string \<Rightarrow> reg_node list \<Rightarrow> 'w \<Rightarrow> 'w \<times> show_row list res" where
  "show_nodes loads run tag [] w = (w, Inr [])"
| "show_nodes loads run tag (n # ns) w =
     (case run n (show_argv tag) w of (w1, p) \<Rightarrow>
      (case show_on_node loads tag n p of
         Inl e \<Rightarrow> (w1, Inl e)
       | Inr r \<Rightarrow> (case show_nodes loads run tag ns w1 of
           (w2, res) \<Rightarrow> (w2, rbind res (\<lambda>rs. Inr (r # rs))))))"

record user_shown =
  us_ok :: bool
  us_user_id :: "string option"
  us_conflict :: bool
  us_rows :: "show_row list"
  us_exit :: int

text \<open>The exit code is that of the JSON form; the table form dies when nothing is found.\<close>

definition show_summary :: "show_row list \<Rightarrow> user_shown" where
  "show_summary rows =
     (let ids = remdups (map (\<lambda>r. py_str (sw_user_id r)) (filter (\<lambda>r. sw_user_id r \<noteq> JNull) rows));
          unreachable = list_ex (\<lambda>r. sw_status r = ''UNREACHABLE'') rows;
          conflict = (1 < length ids); found = (ids \<noteq> [])
      in \<lparr>us_ok = (\<not> conflict \<and> \<not> unreachable \<and> found),
          us_user_id = (case ids of [i] \<Rightarrow> Some i | _ \<Rightarrow> None), us_conflict = conflict, us_rows = rows,
          us_exit = (if conflict then 1 else if unreachable then 2 else if found then 0 else 1)\<rparr>)"

definition cmd_user_show ::
    "loads \<Rightarrow> 'w nodes \<Rightarrow> registry res \<Rightarrow> string \<Rightarrow> 'w \<Rightarrow> 'w \<times> user_shown res" where
  "cmd_user_show loads run reg tag w =
     (case rbind (validate_name tag) (\<lambda>_. reg) of
        Inl e \<Rightarrow> (w, Inl e)
      | Inr g \<Rightarrow> (case show_nodes loads run tag (selected_reg_nodes g False) w of
          (w', res) \<Rightarrow> (w', rbind res (\<lambda>rows. Inr (show_summary rows)))))"

section \<open>user export\<close>

record meta_row =
  mr_tag :: string
  mr_display :: json
  mr_dept :: json
  mr_user_id :: string
  mr_node :: string
  mr_enabled :: bool

record export_acc =
  ea_meta :: "meta_row list"
  ea_creds :: "(string \<times> string \<times> json \<times> json) list"
  ea_unreachable :: "(string \<times> string) list"

definition meta_row_of :: "reg_node \<Rightarrow> dict \<Rightarrow> meta_row" where
  "meta_row_of n u = \<lparr>mr_tag = text_of (dget ''tag'' u), mr_display = py_or (dget ''display_name'' u) (JStr []),
     mr_dept = py_or (dget ''department'' u) (JStr []), mr_user_id = text_of (dget ''user_id'' u),
     mr_node = n_name n, mr_enabled = truthy (dget ''enabled'' u)\<rparr>"

fun export_users ::
    "'w nodes \<Rightarrow> bool \<Rightarrow> reg_node \<Rightarrow> dict list \<Rightarrow> 'w \<times> export_acc \<Rightarrow> 'w \<times> export_acc" where
  "export_users run credentials n [] s = s"
| "export_users run credentials n (u # us) (w, acc) =
     (let tag = text_of (dget ''tag'' u); acc1 = acc\<lparr>ea_meta := ea_meta acc @ [meta_row_of n u]\<rparr>
      in if \<not> credentials \<or> tag = [] then export_users run credentials n us (w, acc1)
         else (let cred = py_or (dget ''active_credential_id'' u) (JStr [])
               in case ssh_user_link_uri run n tag w of (w', uri) \<Rightarrow>
                 export_users run credentials n us (w',
                   if cred = JStr [] \<and> uri = None then acc1
                   else acc1\<lparr>ea_creds := ea_creds acc1
                          @ [cred_entry tag (row_ok n cred (JStr (case uri of None \<Rightarrow> [] | Some t \<Rightarrow> t)))]\<rparr>)))"

fun export_nodes ::
    "loads \<Rightarrow> 'w nodes \<Rightarrow> bool \<Rightarrow> reg_node list \<Rightarrow> 'w \<times> export_acc \<Rightarrow> 'w \<times> export_acc" where
  "export_nodes loads run credentials [] s = s"
| "export_nodes loads run credentials (n # ns) (w, acc) =
     (case run n [''vcl'', ''user'', ''list'', ''--json''] w of (w1, p) \<Rightarrow>
      (case list_users loads p of
         Inl e \<Rightarrow> export_nodes loads run credentials ns (w1, acc\<lparr>ea_unreachable := ea_unreachable acc @ [(n_name n, e)]\<rparr>)
       | Inr us \<Rightarrow> export_nodes loads run credentials ns (export_users run credentials n us (w1, acc))))"

definition cmd_user_export ::
    "loads \<Rightarrow> 'w nodes \<Rightarrow> registry res \<Rightarrow> bool \<Rightarrow> string option \<Rightarrow> 'w \<Rightarrow> 'w \<times> (int \<times> export_acc) res" where
  "cmd_user_export loads run reg credentials output w =
     (if credentials \<and> \<not> nonempty output
      then (w, die ''user export --credentials requires --output FILE'')
      else (case reg of
          Inl e \<Rightarrow> (w, Inl e)
        | Inr g \<Rightarrow> (case export_nodes loads run credentials (selected_reg_nodes g False)
              (w, \<lparr>ea_meta = [], ea_creds = [], ea_unreachable = []\<rparr>) of
            (w', acc) \<Rightarrow> (w', Inr (if ea_unreachable acc = [] then 0 else 2, acc)))))"

end
