(* ===== verification/FleetUserProps.thy ===== *)
theory FleetUserProps
  imports FleetUserOps
begin

text \<open>
  What the user commands guarantee: a validated import runs to its end, and adding a user binds the
  tag on every node it reports as done and never rebinds one.
\<close>

section \<open>A validated import\<close>

lemma provision_cases:
  assumes "validate_metadata display dept = Inr ()"
  shows "snd (provision_user_on_node loads run n tag uid display dept w) = Inl TypeError
    \<or> (\<exists>r. snd (provision_user_on_node loads run n tag uid display dept w) = Inr r \<and> ur_name r = n_name n)"
  using assms unfolding provision_user_on_node_def
  by (auto simp: row_ok_def row_failed_def active_credential_id_def Let_def split: prod.split option.split json.split)

lemma provision_all_cases:
  assumes "validate_metadata display dept = Inr ()"
  shows "snd (provision_all loads run tag uid display dept ns w) = Inl TypeError
    \<or> (\<exists>rs. snd (provision_all loads run tag uid display dept ns w) = Inr rs \<and> map ur_name rs = map n_name ns)"
proof (induction ns arbitrary: w)
  case (Cons n ns)
  obtain w1 r where r: "provision_user_on_node loads run n tag uid display dept w = (w1, r)" by fastforce
  obtain w2 rs where rs: "provision_all loads run tag uid display dept ns w1 = (w2, rs)" by fastforce
  from provision_cases [OF assms, of loads run n tag uid w] Cons.IH [of w1] show ?case
    by (auto simp: r rs)
qed simp

lemma metadata_valid:
  "user_metadata_error (JStr s) f = None \<Longrightarrow> user_metadata_error (JStr t) f' = None \<Longrightarrow>
    f = ''display_name'' \<Longrightarrow> f' = ''department'' \<Longrightarrow>
    validate_metadata (if s = [] then None else Some s) (if t = [] then None else Some t) = Inr ()"
  by (simp add: validate_metadata_def validate_display_name_def validate_department_def of_text_def)

lemma importable_enabled:
  assumes "reg_ok g" and "node_importable (reg_by_name g nm) nm = None"
  shows "\<exists>n. require_enabled_reg_node g nm = Inr n \<and> n_name n = nm"
proof -
  from assms(2) obtain n where n: "reg_by_name g nm = Some n" "n_status n \<noteq> Some ''retired''" "n_enabled n"
    by (auto simp: node_importable_def split: option.splits if_splits)
  then have "n \<in> set (g_nodes g)" "n_name n = nm" by (auto simp: reg_by_name_def dest: find_SomeD)
  with assms(1) have "node_ok n" by (auto simp: reg_ok_def list_all_iff)
  then have "life n = ''active''"
    using n by (auto simp: node_ok_def status_ok_def life_def node.truncate_def node_lifecycle_status_def split: option.splits)
  with n \<open>n_name n = nm\<close> show ?thesis by (simp add: require_enabled_reg_node_def require_node_def)
qed

lemma rmap_enabled:
  assumes "reg_ok g" and "\<forall>nm \<in> set names. node_importable (reg_by_name g nm) nm = None"
  shows "\<exists>ns. rmap (require_enabled_reg_node g) names = Inr ns \<and> map n_name ns = names"
  using assms(2)
proof (induction names)
  case (Cons nm names)
  with importable_enabled [OF assms(1), of nm] show ?case by auto
qed simp

definition row_valid :: "registry \<Rightarrow> import_row \<Rightarrow> import_row \<Rightarrow> bool" where
  "row_valid g r r' = (\<exists>names. parse_nodes_cell (im_nodes_raw r) = Inr names \<and> r' = r\<lparr>im_nodes := names\<rparr>
     \<and> (\<forall>nm \<in> set names. node_importable (reg_by_name g nm) nm = None)
     \<and> user_metadata_error (JStr (im_display r)) ''display_name'' = None
     \<and> user_metadata_error (JStr (im_dept r)) ''department'' = None)"

lemma map_filter_Nil: "List.map_filter f xs = [] \<longleftrightarrow> (\<forall>x \<in> set xs. f x = None)"
  by (induction xs) (auto simp: List.map_filter_simps split: option.splits)

lemma opt_list_Nil: "opt_list v = [] \<longleftrightarrow> v = None"
  by (simp add: opt_list_def split: option.split)

lemma check_row_valid: "check_import_row g seen r = (r', []) \<Longrightarrow> row_valid g r r'"
  by (auto simp: check_import_row_def row_valid_def Let_def map_filter_Nil opt_list_Nil split: sum.splits)

lemma validate_rows_valid:
  "validate_import_rows g seen rows = (rows', []) \<Longrightarrow> list_all2 (row_valid g) rows rows'"
proof (induction rows arbitrary: seen rows')
  case (Cons r rows)
  then show ?case by (auto split: prod.splits if_splits intro: check_row_valid)
qed simp

lemma import_one_cases:
  assumes "reg_ok g" and "row_valid g r0 r"
  shows "snd (import_one loads run g r uid w) = Inl TypeError
    \<or> (\<exists>doc. snd (import_one loads run g r uid w) = Inr doc \<and> md_tag doc = im_tag r0 \<and> md_user_id doc = uid
        \<and> parse_nodes_cell (im_nodes_raw r0) = Inr (map ur_name (md_nodes doc)) \<and> md_state doc = plan_state (md_nodes doc))"
proof -
  from assms(2) obtain names where names: "parse_nodes_cell (im_nodes_raw r0) = Inr names" "r = r0\<lparr>im_nodes := names\<rparr>"
    "\<forall>nm \<in> set names. node_importable (reg_by_name g nm) nm = None"
    and m: "user_metadata_error (JStr (im_display r0)) ''display_name'' = None"
      "user_metadata_error (JStr (im_dept r0)) ''department'' = None"
    unfolding row_valid_def by blast
  obtain ns where ns: "rmap (require_enabled_reg_node g) names = Inr ns" "map n_name ns = names"
    using rmap_enabled [OF assms(1) names(3)] by blast
  obtain w' res where p: "provision_all loads run (im_tag r0) uid
      (if im_display r0 = [] then None else Some (im_display r0))
      (if im_dept r0 = [] then None else Some (im_dept r0)) ns w = (w', res)" by fastforce
  from provision_all_cases [OF metadata_valid [OF m refl refl], of loads run "im_tag r0" uid ns w] p ns names
  show ?thesis by (auto simp: import_one_def mutation_report_def Let_def)
qed

definition imported_row :: "import_row \<Rightarrow> mutation_doc \<Rightarrow> bool" where
  "imported_row r doc = (md_tag doc = im_tag r \<and> parse_nodes_cell (im_nodes_raw r) = Inr (map ur_name (md_nodes doc))
     \<and> md_state doc = plan_state (md_nodes doc))"

lemma import_all_cases:
  assumes "reg_ok g" and "list_all2 (row_valid g) rows0 rows" and "length uids = length rows"
  shows "snd (import_all loads run g (zip rows uids) w) = Inl TypeError
    \<or> (\<exists>docs. snd (import_all loads run g (zip rows uids) w) = Inr docs \<and> list_all2 imported_row rows0 docs
        \<and> map md_user_id docs = uids)"
  using assms(2,3)
proof (induction rows0 rows arbitrary: uids w rule: list_all2_induct)
  case (Cons r0 rs0 r rs)
  then obtain u us where u: "uids = u # us" "length us = length rs" by (cases uids) auto
  obtain w1 res where r: "import_one loads run g r u w = (w1, res)" by fastforce
  obtain w2 docs where rs: "import_all loads run g (zip rs us) w1 = (w2, docs)" by fastforce
  from import_one_cases [OF assms(1) Cons(1), of loads run u w] Cons.IH [OF u(2), of w1] show ?case
    by (auto simp: u r rs imported_row_def)
qed simp

lemma plan_state_SUCCESS: "plan_state rows = ''SUCCESS'' \<longleftrightarrow> rows \<noteq> [] \<and> list_all ur_ok rows"
  by (simp add: plan_state_def)

lemma nodes_cell_nonempty: "parse_nodes_cell raw = Inr names \<Longrightarrow> names \<noteq> []"
proof (unfold parse_nodes_cell_def Let_def)
  let ?parts = "filter (\<lambda>p. p \<noteq> []) (map strip (split_on CHR '','' raw))"
  assume a: "(if ?parts = [] then Inl ''empty nodes'' else unique_names [] ?parts) = Inr names"
  then obtain p ps where "?parts = p # ps" by (cases ?parts) (auto split: if_splits)
  with a show "names \<noteq> []" by (auto split: if_splits sum.splits)
qed

lemma import_state_iff:
  assumes "list_all2 imported_row rows docs"
  shows "import_state docs = ''SUCCESS'' \<longleftrightarrow> (\<forall>doc \<in> set docs. list_all ur_ok (md_nodes doc))"
proof -
  have "md_state doc = ''SUCCESS'' \<longleftrightarrow> list_all ur_ok (md_nodes doc)" if "doc \<in> set docs" for doc
  proof -
    from assms that obtain r where r: "imported_row r doc" by (auto simp: list_all2_conv_all_nth in_set_conv_nth)
    then have "map ur_name (md_nodes doc) \<noteq> []" unfolding imported_row_def using nodes_cell_nonempty by blast
    with r show ?thesis by (simp add: imported_row_def plan_state_SUCCESS)
  qed
  then show ?thesis by (auto simp: import_state_def list_all_iff)
qed

text \<open>
  A user import either reports every error of the file and runs no command on any node, or, for
  a dry run, reports the plan and runs none, or runs to its end: once the file is valid no row is
  refused half-way.  Its report then has, in the order of the file, one document per row with one
  result per node of the row's list; the exit code is 0 exactly when every node succeeded, else 2,
  and the credential list has exactly the successful results.  The only way out in between is a
  node whose answer lists credentials as a value that cannot be iterated.
\<close>

theorem import_runs_to_end:
  assumes "reg_ok g" and "cmd_user_import loads run (Inr g) header recs dry_run fresh output w = (w', r)"
  shows "(\<exists>es. r = Inr (Import_Errors es) \<and> es \<noteq> [] \<and> w' = w)
    \<or> (\<exists>rows. r = Inr (Import_Plan rows) \<and> dry_run \<and> w' = w)
    \<or> r = Inl TypeError \<and> \<not> dry_run
    \<or> (\<exists>out. r = Inr (Import_Done out) \<and> \<not> dry_run
        \<and> list_all2 (\<lambda>row doc. md_tag doc = im_tag row \<and> parse_nodes_cell (im_nodes_raw row) = Inr (map ur_name (md_nodes doc)))
            (fst (load_import_csv header recs)) (uo_docs out)
        \<and> uo_exit out = (if \<forall>doc \<in> set (uo_docs out). list_all ur_ok (md_nodes doc) then 0 else 2)
        \<and> uo_creds out = concat (map (\<lambda>doc. map (cred_entry (md_tag doc)) (filter ur_ok (md_nodes doc))) (uo_docs out)))"
proof -
  obtain rows errors where l: "load_import_csv header recs = (rows, errors)" by fastforce
  obtain rows' errors' where v: "validate_import_rows g [] rows = (rows', errors')" by fastforce
  show ?thesis
  proof (cases "errors @ errors' \<noteq> [] \<or> dry_run")
    case True
    with assms(2) show ?thesis by (auto simp: cmd_user_import_def l v split: if_splits)
  next
    case False
    let ?uids = "map fresh [0..<length rows']"
    obtain w1 res where i: "import_all loads run g (zip rows' ?uids) w = (w1, res)" by fastforce
    from v False have "list_all2 (row_valid g) rows rows'" by (intro validate_rows_valid) simp
    from import_all_cases [OF assms(1) this, of ?uids loads run w]
    consider "res = Inl TypeError" | docs where "res = Inr docs" "list_all2 imported_row rows docs" by (auto simp: i)
    then show ?thesis
    proof cases
      case 1
      with assms(2) False show ?thesis by (auto simp: cmd_user_import_def l v i)
    next
      case 2
      let ?out = "\<lparr>uo_exit = (if import_state docs = ''SUCCESS'' then 0 else 2), uo_docs = docs,
        uo_creds = concat (map success_entries docs),
        uo_file = (if nonempty output \<and> concat (map success_entries docs) \<noteq> [] then output else None)\<rparr>"
      from 2 assms(2) False have "r = Inr (Import_Done ?out)" by (auto simp: cmd_user_import_def l v i Let_def)
      moreover have "list_all2 (\<lambda>row doc. md_tag doc = im_tag row \<and> parse_nodes_cell (im_nodes_raw row) = Inr (map ur_name (md_nodes doc))) rows docs"
        using 2(2) by (rule list_all2_mono) (simp add: imported_row_def)
      ultimately show ?thesis
        using False import_state_iff [OF 2(2)] by (simp add: l success_entries_def [abs_def])
    qed
  qed
qed

section \<open>A tag is never bound to another user\<close>

text \<open>
  What the commands of a node do: \<open>show\<close> changes no binding, and what it reports of a tag is the
  user id the tag is bound to; \<open>link\<close> changes none; \<open>add\<close> binds a tag that was free, or changes
  nothing, and when it reports ok the tag is bound to the id.
\<close>

definition user_contract :: "loads \<Rightarrow> 'w nodes \<Rightarrow> ('w \<Rightarrow> string \<Rightarrow> string \<Rightarrow> string option) \<Rightarrow> bool" where
  "user_contract loads run uid_at = (\<forall>n w tag.
     (\<forall>w1 p. run n (show_argv tag) w = (w1, p) \<longrightarrow> uid_at w1 = uid_at w \<and>
        (\<forall>d e. remote_json loads False p = (True, Some d, e) \<longrightarrow> dget ''tag'' d = JStr tag \<longrightarrow>
           dget ''user_id'' d = of_text (uid_at w (n_name n) tag)))
     \<and> uid_at (fst (run n (link_argv tag) w)) = uid_at w
     \<and> (\<forall>uid display dept w1 p. run n (add_argv tag uid display dept) w = (w1, p) \<longrightarrow>
        (uid_at w1 = uid_at w \<or> uid_at w (n_name n) tag = None
           \<and> uid_at w1 = (uid_at w)(n_name n := (uid_at w (n_name n))(tag \<mapsto> uid)))
        \<and> (\<forall>d e. remote_json loads True p = (True, Some d, e) \<longrightarrow> dget ''ok'' d = JBool True \<longrightarrow>
             uid_at w1 (n_name n) tag = Some uid)))"

definition bindings_kept :: "('n \<Rightarrow> 't \<Rightarrow> 'u option) \<Rightarrow> ('n \<Rightarrow> 't \<Rightarrow> 'u option) \<Rightarrow> bool" where
  "bindings_kept f f' = (\<forall>n t u. f n t = Some u \<longrightarrow> f' n t = Some u)"

lemma bindings_kept_refl [simp]: "bindings_kept f f"
  by (simp add: bindings_kept_def)

lemma bindings_kept_trans: "bindings_kept f g \<Longrightarrow> bindings_kept g h \<Longrightarrow> bindings_kept f h"
  by (simp add: bindings_kept_def)

lemma provision_binds:
  assumes c: "user_contract loads run uid_at" and uid: "uid \<noteq> []"
    and p: "provision_user_on_node loads run n tag uid display dept w = (w', r)"
  shows "bindings_kept (uid_at w) (uid_at w') \<and> (\<forall>row. r = Inr row \<longrightarrow> ur_ok row \<longrightarrow> uid_at w' (n_name n) tag = Some uid)"
proof (cases "validate_metadata display dept")
  case (Inl e)
  with p show ?thesis by (auto simp: provision_user_on_node_def)
next
  case (Inr u)
  obtain w1 out1 where s: "run n (show_argv tag) w = (w1, out1)" by fastforce
  obtain ok shown det where j: "remote_json loads False out1 = (ok, shown, det)" by (metis prod_cases3)
  have show_kept: "uid_at w1 = uid_at w" using c s unfolding user_contract_def by blast
  note p' = p [unfolded provision_user_on_node_def Inr sum.case s prod.case j]
  consider "\<not> ok" | "ok" "\<exists>d. shown = Some d \<and> dget ''tag'' d = JStr tag"
    | "ok" "\<not> (\<exists>d. shown = Some d \<and> dget ''tag'' d = JStr tag)" by blast
  then show ?thesis
  proof cases
    case 1
    with p' show_kept show ?thesis by (auto simp: row_failed_def)
  next
    case 2
    then obtain d where d: "shown = Some d" "dget ''tag'' d = JStr tag" by blast
    have id: "dget ''user_id'' d = of_text (uid_at w (n_name n) tag)"
    proof -
      have "\<forall>d e. remote_json loads False out1 = (True, Some d, e) \<longrightarrow> dget ''tag'' d = JStr tag \<longrightarrow>
           dget ''user_id'' d = of_text (uid_at w (n_name n) tag)"
        using c s unfolding user_contract_def by blast
      with j d 2(1) show ?thesis by simp
    qed
    obtain w2 uri where l: "ssh_user_link_uri run n tag w1 = (w2, uri)" by fastforce
    have "uid_at (fst (run n (link_argv tag) w1)) = uid_at w1" using c unfolding user_contract_def by blast
    with l have link_kept: "uid_at w2 = uid_at w1" by (auto simp: ssh_user_link_uri_def split: prod.splits)
    show ?thesis
    proof (cases "py_or (dget ''user_id'' d) (JStr []) = JStr uid")
      case True
      then have "uid_at w (n_name n) tag = Some uid"
        using uid unfolding id by (auto simp: py_or_def of_text_def split: if_splits option.splits)
      with True p' d 2(1) l show_kept link_kept show ?thesis by (auto split: sum.splits)
    next
      case False
      with p' d 2(1) show_kept show ?thesis by (auto simp: row_failed_def)
    qed
  next
    case 3
    then have no: "\<not> (case shown of None \<Rightarrow> False | Some d \<Rightarrow> dget ''tag'' d = JStr tag)"
      by (auto split: option.splits)
    obtain w2 out2 where a: "run n (add_argv tag uid display dept) w1 = (w2, out2)" by fastforce
    obtain ok2 payload det2 where j2: "remote_json loads True out2 = (ok2, payload, det2)" by (metis prod_cases3)
    have added: "uid_at w2 = uid_at w1 \<or> uid_at w1 (n_name n) tag = None
           \<and> uid_at w2 = (uid_at w1)(n_name n := (uid_at w1 (n_name n))(tag \<mapsto> uid))"
      using c a unfolding user_contract_def by blast
    then have kept: "bindings_kept (uid_at w1) (uid_at w2)" by (auto simp: bindings_kept_def)
    have ok_add: "uid_at w2 (n_name n) tag = Some uid" if "ok2" "payload = Some d" "dget ''ok'' d = JBool True" for d
    proof -
      have "\<forall>d e. remote_json loads True out2 = (True, Some d, e) \<longrightarrow> dget ''ok'' d = JBool True \<longrightarrow>
             uid_at w2 (n_name n) tag = Some uid"
        using c a unfolding user_contract_def by blast
      with j2 that show ?thesis by simp
    qed
    from p' 3(1) no a j2 have "w' = w2" by auto
    moreover from p' 3(1) no a j2 have "\<exists>d. ok2 \<and> payload = Some d \<and> dget ''ok'' d = JBool True"
      if "r = Inr row" "ur_ok row" for row
      using that by (auto simp: row_failed_def split: option.splits if_splits)
    ultimately show ?thesis using kept show_kept ok_add by auto
  qed
qed

lemma provision_all_binds:
  assumes c: "user_contract loads run uid_at" and uid: "uid \<noteq> []"
    and p: "provision_all loads run tag uid display dept ns w = (w', r)"
  shows "bindings_kept (uid_at w) (uid_at w')
    \<and> (\<forall>rows. r = Inr rows \<longrightarrow> list_all2 (\<lambda>n row. ur_ok row \<longrightarrow> uid_at w' (n_name n) tag = Some uid) ns rows)"
  using p
proof (induction ns arbitrary: w r)
  case (Cons n ns)
  obtain w1 r1 where p1: "provision_user_on_node loads run n tag uid display dept w = (w1, r1)" by fastforce
  note b1 = provision_binds [OF c uid p1]
  show ?case
  proof (cases r1)
    case (Inl e)
    with Cons.prems p1 b1 show ?thesis by auto
  next
    case (Inr row)
    obtain w2 r2 where p2: "provision_all loads run tag uid display dept ns w1 = (w2, r2)" by fastforce
    from Cons.prems p1 Inr p2 have w': "w' = w2" by (auto split: sum.splits)
    note b2 = Cons.IH [OF p2 [folded w']]
    have "bindings_kept (uid_at w) (uid_at w')" using b1 b2 bindings_kept_trans by blast
    moreover have "ur_ok row \<longrightarrow> uid_at w' (n_name n) tag = Some uid"
      using b1 b2 Inr unfolding bindings_kept_def by blast
    ultimately show ?thesis using Cons.prems p1 Inr p2 b2 by (auto split: sum.splits)
  qed
qed simp

lemma user_add_plan_Inr:
  assumes "user_add_plan reg tag display dept user_id fresh one many = Inr (uid, ns)" and "fresh \<noteq> []"
  shows "uid \<noteq> []"
  using assms by (auto simp: user_add_plan_def res_simps Let_def die_def split: if_splits)

text \<open>
  C36: Over nodes that keep the user contract, \<open>user add\<close> never takes a tag away from the user it is
  bound to on any node, whatever it returns or wherever it stops; every node it reports as done has
  the tag bound to the one user id of the report, and exit code 0 means that all targets have.
\<close>

theorem user_add_binds:
  assumes "user_contract loads run uid_at" and "fresh \<noteq> []"
    and "cmd_user_add loads run reg tag display dept user_id fresh one many output w = (w', r)"
  shows "(\<forall>n t u. uid_at w n t = Some u \<longrightarrow> uid_at w' n t = Some u)
    \<and> (\<forall>out. r = Inr out \<longrightarrow> (\<exists>doc. uo_docs out = [doc]
         \<and> (\<forall>row \<in> set (md_nodes doc). ur_ok row \<longrightarrow> uid_at w' (ur_name row) tag = Some (md_user_id doc))
         \<and> (uo_exit out = 0 \<longrightarrow> md_nodes doc \<noteq> [] \<and> (\<forall>row \<in> set (md_nodes doc). uid_at w' (ur_name row) tag = Some (md_user_id doc)))))"
proof (cases "user_add_plan reg tag display dept user_id fresh one many")
  case (Inl e)
  with assms(3) show ?thesis by (auto simp: cmd_user_add_def)
next
  case (Inr un)
  obtain uid ns where un: "un = (uid, ns)" by fastforce
  obtain w1 res where p: "provision_all loads run tag uid display dept ns w = (w1, res)" by fastforce
  have w1: "w1 = w'" using assms(3) by (auto simp: cmd_user_add_def Inr un p Let_def split: sum.splits)
  from Inr un have uid: "uid \<noteq> []" using user_add_plan_Inr assms(2) by blast
  note b = provision_all_binds [OF assms(1) uid p [unfolded w1]]
  have "validate_metadata display dept = Inr ()"
    using Inr by (auto simp: user_add_plan_def res_simps)
  from provision_all_cases [OF this, of loads run tag uid ns w] p
  have names: "res = Inr rows \<Longrightarrow> map ur_name rows = map n_name ns" for rows by auto
  show ?thesis
  proof (intro conjI allI impI)
    show "uid_at w n t = Some u \<Longrightarrow> uid_at w' n t = Some u" for n t u
      using b unfolding bindings_kept_def by blast
    fix out assume out: "r = Inr out"
    then obtain rows where rows: "res = Inr rows"
      and o: "uo_docs out = [mutation_report rows tag uid ''user.add'']"
        "uo_exit out = never_report_full_success (mutation_report rows tag uid ''user.add'')"
      using assms(3) by (auto simp: cmd_user_add_def Inr un p Let_def split: sum.splits)
    have bound: "uid_at w' (ur_name row) tag = Some uid" if row: "row \<in> set rows" "ur_ok row" for row
    proof -
      from row obtain i where i: "i < length rows" "row = rows ! i" by (metis in_set_conv_nth)
      from b rows have all: "list_all2 (\<lambda>n row. ur_ok row \<longrightarrow> uid_at w' (n_name n) tag = Some uid) ns rows" by blast
      with i row(2) have "uid_at w' (n_name (ns ! i)) tag = Some uid" by (simp add: list_all2_conv_all_nth)
      moreover have "ur_name row = n_name (ns ! i)"
        using names [OF rows] i list_all2_lengthD [OF all] by (metis nth_map)
      ultimately show ?thesis by simp
    qed
    show "\<exists>doc. uo_docs out = [doc]
         \<and> (\<forall>row \<in> set (md_nodes doc). ur_ok row \<longrightarrow> uid_at w' (ur_name row) tag = Some (md_user_id doc))
         \<and> (uo_exit out = 0 \<longrightarrow> md_nodes doc \<noteq> [] \<and> (\<forall>row \<in> set (md_nodes doc). uid_at w' (ur_name row) tag = Some (md_user_id doc)))"
      using o bound
      by (auto simp: mutation_report_def Let_def never_report_full_success_def plan_state_SUCCESS list_all_iff split: if_splits)
  qed
qed

section \<open>Examples\<close>

text \<open>
  Two nodes, of which one does not answer; the state says whether the user alice is on the other.
\<close>

definition ex_uid :: string where
  "ex_uid = ''11111111-1111-4111-8111-111111111111''"

definition ex_bound :: "bool \<Rightarrow> string \<Rightarrow> string \<Rightarrow> string option" where
  "ex_bound w n t = (if w \<and> n = ''up'' \<and> t = ''alice'' then Some ex_uid else None)"

definition ex_answer :: "string \<Rightarrow> captured" where
  "ex_answer out = \<lparr>cap_code = 0, cap_stdout = out, cap_stderr = []\<rparr>"

definition ex_node_run :: "bool nodes" where
  "ex_node_run n argv w =
     (if n_name n \<noteq> ''up'' then (w, \<lparr>cap_code = 255, cap_stdout = [], cap_stderr = ''timed out''\<rparr>)
      else if argv = show_argv ''alice'' \<and> w then (w, ex_answer ''S'')
      else if argv = add_argv ''alice'' ex_uid None None \<and> \<not> w then (True, ex_answer ''A'')
      else (w, ex_answer ''vless://link''))"

definition ex_decode :: loads where
  "ex_decode t =
     (if t = ''A'' then Some (JObj [(''ok'', JBool True), (''credential_id'', JStr ''c1''), (''vless_uri'', JStr ''vless://new'')])
      else if t = ''S'' then Some (JObj [(''tag'', JStr ''alice''), (''user_id'', JStr ex_uid)])
      else None)"

lemma ex_remote:
  "remote_json ex_decode q (ex_answer ''S'') = (True, Some [(''tag'', JStr ''alice''), (''user_id'', JStr ex_uid)], [])"
  "remote_json ex_decode q (ex_answer ''A'')
    = (True, Some [(''ok'', JBool True), (''credential_id'', JStr ''c1''), (''vless_uri'', JStr ''vless://new'')], [])"
  "remote_json ex_decode q (ex_answer ''vless://link'') \<noteq> (True, Some d, e)"
  "remote_json ex_decode q \<lparr>cap_code = 255, cap_stdout = [], cap_stderr = ''timed out''\<rparr> \<noteq> (True, Some d, e)"
proof -
  have "strip ''S'' = ''S''" "strip ''A'' = ''A''" "strip ''vless://link'' = ''vless://link''" by code_simp+
  then show
    "remote_json ex_decode q (ex_answer ''S'') = (True, Some [(''tag'', JStr ''alice''), (''user_id'', JStr ex_uid)], [])"
    "remote_json ex_decode q (ex_answer ''A'')
      = (True, Some [(''ok'', JBool True), (''credential_id'', JStr ''c1''), (''vless_uri'', JStr ''vless://new'')], [])"
    "remote_json ex_decode q (ex_answer ''vless://link'') \<noteq> (True, Some d, e)"
    "remote_json ex_decode q \<lparr>cap_code = 255, cap_stdout = [], cap_stderr = ''timed out''\<rparr> \<noteq> (True, Some d, e)"
    by (simp_all add: remote_json_def stdout_json_def ex_decode_def ex_answer_def Let_def)
qed

lemma ex_contract: "user_contract ex_decode ex_node_run ex_bound"
  unfolding user_contract_def
proof (intro allI conjI)
  fix n w tag w1 p uid display dept
  show "ex_bound (fst (ex_node_run n (link_argv tag) w)) = ex_bound w"
    by (simp add: ex_node_run_def link_argv_def show_argv_def add_argv_def)
  show "ex_node_run n (show_argv tag) w = (w1, p) \<longrightarrow> ex_bound w1 = ex_bound w \<and>
        (\<forall>d e. remote_json ex_decode False p = (True, Some d, e) \<longrightarrow> dget ''tag'' d = JStr tag \<longrightarrow>
           dget ''user_id'' d = of_text (ex_bound w (n_name n) tag))"
    by (auto simp: ex_node_run_def show_argv_def add_argv_def ex_bound_def of_text_def ex_remote split: if_splits)
  show "ex_node_run n (add_argv tag uid display dept) w = (w1, p) \<longrightarrow>
        (ex_bound w1 = ex_bound w \<or> ex_bound w (n_name n) tag = None
           \<and> ex_bound w1 = (ex_bound w)(n_name n := (ex_bound w (n_name n))(tag \<mapsto> uid)))
        \<and> (\<forall>d e. remote_json ex_decode True p = (True, Some d, e) \<longrightarrow> dget ''ok'' d = JBool True \<longrightarrow>
             ex_bound w1 (n_name n) tag = Some uid)"
    by (auto simp: ex_node_run_def show_argv_def add_argv_def ex_bound_def fun_eq_iff ex_remote split: if_splits)
qed

definition ex_user_node :: "string \<Rightarrow> char \<Rightarrow> reg_node" where
  "ex_user_node nm c = \<lparr>n_name = nm, n_node_id = replicate 8 c @ ''-1111-4111-8111-111111111111'', n_ssh_host = ''h1'',
     n_status = Some ''active'', n_enabled = True, r_ssh_user = ''root'', r_ssh_port = 22, r_identity_file = None,
     r_admin_ref = None, r_observe_ref = None\<rparr>"

definition ex_user_reg :: registry where
  "ex_user_reg = \<lparr>g_nodes = [ex_user_node ''up'' CHR ''1'', ex_user_node ''down'' CHR ''2''], g_fleet_id = None\<rparr>"

text \<open>The second node is not reached: the user is on the first one and the exit code is 2.\<close>

theorem user_add_binds_witness:
  "case cmd_user_add ex_decode ex_node_run (Inr ex_user_reg) ''alice'' None None (Some ex_uid) ''f'' None (Some ''up,down'') None False of
     (w', Inr out) \<Rightarrow> uo_exit out = 2 \<and> ex_bound w' ''up'' ''alice'' = Some ex_uid \<and> ex_bound w' ''down'' ''alice'' = None
   | _ \<Rightarrow> False"
proof -
  obtain w' r where run: "cmd_user_add ex_decode ex_node_run (Inr ex_user_reg) ''alice'' None None (Some ex_uid) ''f'' None
      (Some ''up,down'') None False = (w', r)" by fastforce
  have "case cmd_user_add ex_decode ex_node_run (Inr ex_user_reg) ''alice'' None None (Some ex_uid) ''f'' None (Some ''up,down'') None False of
     (w', r) \<Rightarrow> (case r of Inl _ \<Rightarrow> False | Inr out \<Rightarrow> uo_exit out = 2 \<and> map (map ur_name \<circ> md_nodes) (uo_docs out) = [[''up'', ''down'']]
       \<and> map (map ur_ok \<circ> md_nodes) (uo_docs out) = [[True, False]] \<and> map md_user_id (uo_docs out) = [ex_uid])" by code_simp
  with run obtain out where out: "r = Inr out" "uo_exit out = 2" "map (map ur_name \<circ> md_nodes) (uo_docs out) = [[''up'', ''down'']]"
    "map (map ur_ok \<circ> md_nodes) (uo_docs out) = [[True, False]]" "map md_user_id (uo_docs out) = [ex_uid]"
    by (auto split: sum.splits)
  from user_add_binds [OF ex_contract _ run] out obtain doc where doc: "uo_docs out = [doc]"
    "\<forall>row \<in> set (md_nodes doc). ur_ok row \<longrightarrow> ex_bound w' (ur_name row) ''alice'' = Some (md_user_id doc)" by auto
  with out have "map ur_name (md_nodes doc) = [''up'', ''down'']" "map ur_ok (md_nodes doc) = [True, False]" "md_user_id doc = ex_uid"
    by simp_all
  then have "ex_bound w' ''up'' ''alice'' = Some ex_uid" using doc(2) by (auto simp: map_eq_Cons_conv)
  moreover have "ex_bound w' ''down'' ''alice'' = None" by (simp add: ex_bound_def)
  ultimately show ?thesis using run out by simp
qed

definition ex_csv :: "string list list" where
  "ex_csv = [[''alice'', ''Alice'', [], ''up''], [''bob'', [], ''ops'', ''up,down'']]"

lemma ex_user_reg_ok: "reg_ok ex_user_reg"
  by code_simp

text \<open>
  A file with a node that does not exist changes nothing; the valid file runs to its end although
  both users fail somewhere.
\<close>

theorem import_runs_to_end_witness:
  "(case cmd_user_import ex_decode ex_node_run (Inr ex_user_reg) CSV_IMPORT_HEADER (ex_csv @ [[''eve'', [], [], ''gone'']])
       False (\<lambda>_. ex_uid) None False of
      (w', Inr (Import_Errors es)) \<Rightarrow> es = [''line 4: unknown node: gone''] \<and> \<not> w' | _ \<Rightarrow> False)
   \<and> (case cmd_user_import ex_decode ex_node_run (Inr ex_user_reg) CSV_IMPORT_HEADER ex_csv False (\<lambda>_. ex_uid) None False of
      (w', Inr (Import_Done out)) \<Rightarrow> uo_exit out = 2 \<and> length (uo_docs out) = 2 | _ \<Rightarrow> False)"
proof -
  obtain w1 r1 where r1: "cmd_user_import ex_decode ex_node_run (Inr ex_user_reg) CSV_IMPORT_HEADER (ex_csv @ [[''eve'', [], [], ''gone'']])
       False (\<lambda>_. ex_uid) None False = (w1, r1)" by fastforce
  obtain w2 r2 where r2: "cmd_user_import ex_decode ex_node_run (Inr ex_user_reg) CSV_IMPORT_HEADER ex_csv False (\<lambda>_. ex_uid) None False
       = (w2, r2)" by fastforce
  have "case cmd_user_import ex_decode ex_node_run (Inr ex_user_reg) CSV_IMPORT_HEADER (ex_csv @ [[''eve'', [], [], ''gone'']])
       False (\<lambda>_. ex_uid) None False of
      (w', r) \<Rightarrow> (case r of Inl _ \<Rightarrow> False | Inr x \<Rightarrow> (case x of Import_Errors es \<Rightarrow> es = [''line 4: unknown node: gone''] | _ \<Rightarrow> False))"
    by code_simp
  with r1 import_runs_to_end [OF ex_user_reg_ok r1] have 1: "r1 = Inr (Import_Errors [''line 4: unknown node: gone'']) \<and> \<not> w1"
    by (auto split: sum.splits import_outcome.splits)
  have "case cmd_user_import ex_decode ex_node_run (Inr ex_user_reg) CSV_IMPORT_HEADER ex_csv False (\<lambda>_. ex_uid) None False of
      (w', r) \<Rightarrow> (case r of Inl _ \<Rightarrow> False | Inr x \<Rightarrow> (case x of Import_Done out \<Rightarrow> uo_exit out = 2 \<and> length (uo_docs out) = 2 | _ \<Rightarrow> False))"
    by code_simp
  with r2 obtain out where "r2 = Inr (Import_Done out)" "uo_exit out = 2" "length (uo_docs out) = 2"
    by (auto split: sum.splits import_outcome.splits)
  with 1 r1 r2 show ?thesis by simp
qed

end
