(* ===== verification/FleetSchema.thy ===== *)
theory FleetSchema
  imports InstanceHistory
begin

text \<open>
  The schema of \<open>fleet.db\<close> (\<open>lib/vincula-fleet.py\<close>): creation, the migrations 1 to 2 to 3 to 4
  and the check of every opening.

  The connection commits every statement by itself, so the opening of a database is a list of
  statements and the process may die between any two.  The state says which tables and columns
  exist; where a column does not exist the rows of \<open>fleet_db\<close> hold a value nobody reads.
\<close>

section \<open>The file\<close>

record cache_file =
  cf_meta :: "(string \<times> string) list option"
  cf_tables :: bool
  cf_history :: bool
  cf_event_seq :: bool
  cf_cursor_seq :: bool
  cf_cursor_kind :: bool
  cf_snapshots :: bool
  cf_db :: fleet_db

type_synonym stmt = "cache_file \<Rightarrow> cache_file res"

definition fleet_db_meta_get :: "cache_file \<Rightarrow> string \<Rightarrow> string option" where
  "fleet_db_meta_get f k = (case cf_meta f of None \<Rightarrow> None | Some m \<Rightarrow> map_of m k)"

definition set_meta :: "string \<Rightarrow> string \<Rightarrow> stmt" where
  "set_meta k v f = (case cf_meta f of
     None \<Rightarrow> Inl OperationalError | Some m \<Rightarrow> Inr (f\<lparr>cf_meta := Some (AList.update k v m)\<rparr>))"

text \<open>Statements run one by one; after \<open>k\<close> of them the process dies (\<open>None\<close>).\<close>

fun run_stmts :: "nat \<Rightarrow> stmt list \<Rightarrow> cache_file \<Rightarrow> cache_file \<times> unit res option" where
  "run_stmts k [] f = (f, Some (Inr ()))"
| "run_stmts 0 (s # ss) f = (f, None)"
| "run_stmts (Suc k) (s # ss) f = (case s f of Inl e \<Rightarrow> (f, Some (Inl e)) | Inr f' \<Rightarrow> run_stmts k ss f')"

section \<open>Creation and migrations\<close>

definition empty_fleet_db :: fleet_db where
  "empty_fleet_db = \<lparr>audit_events = [], sync_cursor = [], fleet_daily_usage = [], instance_history = [],
     node_snapshot = [], user_snapshot = []\<rparr>"

text \<open>\<open>FLEET_DB_DDL\<close>: the table \<open>meta\<close> comes first.\<close>

definition create_meta :: stmt where
  "create_meta f = (if cf_meta f \<noteq> None then Inl OperationalError else Inr (f\<lparr>cf_meta := Some []\<rparr>))"

definition create_tables :: stmt where
  "create_tables f = (if cf_tables f then Inl OperationalError
     else Inr (f\<lparr>cf_tables := True, cf_history := True, cf_event_seq := True, cf_cursor_seq := True,
       cf_cursor_kind := True, cf_snapshots := True, cf_db := empty_fleet_db\<rparr>))"

definition create_stmts :: "string \<Rightarrow> stmt list" where
  "create_stmts fid = [create_meta, create_tables, set_meta ''schema_version'' ''4'', set_meta ''fleet_id'' fid]"

definition create_history :: stmt where
  "create_history f = (if cf_history f then Inl OperationalError
     else Inr (f\<lparr>cf_history := True, cf_db := (cf_db f)\<lparr>instance_history := []\<rparr>\<rparr>))"

text \<open>\<open>hosts\<close> is what \<open>load_registry\<close> gives, or its error.\<close>

definition need_registry :: "(string \<times> string) list res \<Rightarrow> stmt" where
  "need_registry hosts f = rbind hosts (\<lambda>_. Inr f)"

definition backfill_one :: "(string \<times> string) list res \<Rightarrow> string \<Rightarrow> string \<times> cursor_row \<Rightarrow> stmt" where
  "backfill_one hosts now p f =
     rbind hosts (\<lambda>hs. rbind (backfill_step hs now p (cf_db f)) (\<lambda>d. Inr (f\<lparr>cf_db := d\<rparr>)))"

definition migrate_1_to_2 :: "(string \<times> string) list res \<Rightarrow> string \<Rightarrow> cache_file \<Rightarrow> stmt list" where
  "migrate_1_to_2 hosts now f =
     [create_history, need_registry hosts] @ map (backfill_one hosts now) (sync_cursor (cf_db f))
     @ [set_meta ''schema_version'' ''2'']"

definition add_event_seq :: stmt where
  "add_event_seq f = Inr (if cf_event_seq f then f
     else f\<lparr>cf_event_seq := True,
       cf_db := (cf_db f)\<lparr>audit_events := map (\<lambda>a. a\<lparr>a_export_seq := None\<rparr>) (audit_events (cf_db f))\<rparr>\<rparr>)"

definition map_cursors :: "(cursor_row \<Rightarrow> cursor_row) \<Rightarrow> fleet_db \<Rightarrow> fleet_db" where
  "map_cursors h d = d\<lparr>sync_cursor := map (\<lambda>(k, c). (k, h c)) (sync_cursor d)\<rparr>"

definition add_cursor_seq :: stmt where
  "add_cursor_seq f = Inr (if cf_cursor_seq f then f
     else f\<lparr>cf_cursor_seq := True, cf_db := map_cursors (\<lambda>c. c\<lparr>cu_last_export_seq := 0\<rparr>) (cf_db f)\<rparr>)"

definition add_cursor_kind :: stmt where
  "add_cursor_kind f = Inr (if cf_cursor_kind f then f
     else f\<lparr>cf_cursor_kind := True, cf_db := map_cursors (\<lambda>c. c\<lparr>cu_cursor_kind := ''event_id''\<rparr>) (cf_db f)\<rparr>)"

definition migrate_2_to_3 :: "stmt list" where
  "migrate_2_to_3 = [add_event_seq, add_cursor_seq, add_cursor_kind, set_meta ''schema_version'' ''3'']"

definition create_snapshots :: stmt where
  "create_snapshots f = Inr (if cf_snapshots f then f
     else f\<lparr>cf_snapshots := True, cf_db := (cf_db f)\<lparr>node_snapshot := [], user_snapshot := []\<rparr>\<rparr>)"

definition stamp_fleet_id :: "string \<Rightarrow> stmt" where
  "stamp_fleet_id fid f = (if fleet_db_meta_get f ''fleet_id'' = None then set_meta ''fleet_id'' fid f else Inr f)"

definition migrate_3_to_4 :: "string \<Rightarrow> stmt list" where
  "migrate_3_to_4 fid = [create_snapshots, stamp_fleet_id fid, set_meta ''schema_version'' ''4'']"

text \<open>The statements of an opening, from the version found; \<open>None\<close> where it is not supported.\<close>

definition open_stmts ::
    "string \<Rightarrow> (string \<times> string) list res \<Rightarrow> string \<Rightarrow> cache_file \<Rightarrow> stmt list option" where
  "open_stmts fid hosts now f =
     (if cf_meta f = None then Some (create_stmts fid)
      else (let v = fleet_db_meta_get f ''schema_version''
            in if v = Some ''1'' then Some (migrate_1_to_2 hosts now f @ migrate_2_to_3 @ migrate_3_to_4 fid)
               else if v = Some ''2'' then Some (migrate_2_to_3 @ migrate_3_to_4 fid)
               else if v = Some ''3'' then Some (migrate_3_to_4 fid)
               else if v = Some ''4'' then Some [] else None))"

definition open_cache_check :: "string \<Rightarrow> cache_file \<Rightarrow> unit res" where
  "open_cache_check expected f =
     (let cached = (case fleet_db_meta_get f ''fleet_id'' of None \<Rightarrow> [] | Some c \<Rightarrow> c)
      in if fleet_db_meta_get f ''schema_version'' \<noteq> Some ''4'' then die ''unsupported fleet-cache schema''
         else if expected \<noteq> [] \<and> cached \<noteq> [] \<and> cached \<noteq> expected
         then die ''CACHE_FLEET_MISMATCH: cache fleet_id mismatch'' else Inr ())"

text \<open>
  \<open>open_fleet_db\<close>, dying after \<open>k\<close> statements: an SQLite error of a statement becomes the exit
  \<open>cannot initialize fleet.db\<close>.
\<close>

definition open_dying ::
    "nat \<Rightarrow> string \<Rightarrow> (string \<times> string) list res \<Rightarrow> string \<Rightarrow> cache_file \<Rightarrow> cache_file \<times> unit res option" where
  "open_dying k fid hosts now f = (case open_stmts fid hosts now f of
     None \<Rightarrow> (f, Some (die ''unsupported fleet-cache schema''))
   | Some ss \<Rightarrow> (case run_stmts k ss f of
       (f', None) \<Rightarrow> (f', None)
     | (f', Some (Inl e)) \<Rightarrow> (f', Some (case e of
           SystemExit m c \<Rightarrow> Inl e | _ \<Rightarrow> die ''cannot initialize fleet.db''))
     | (f', Some (Inr _)) \<Rightarrow> (f', Some (open_cache_check fid f'))))"

definition open_fleet_db ::
    "string \<Rightarrow> (string \<times> string) list res \<Rightarrow> string \<Rightarrow> cache_file \<Rightarrow> cache_file \<times> unit res" where
  "open_fleet_db fid hosts now f = (case open_dying (length (case open_stmts fid hosts now f of None \<Rightarrow> [] | Some ss \<Rightarrow> ss))
      fid hosts now f of (f', r) \<Rightarrow> (f', the r))"

section \<open>Dying between the statements\<close>

lemmas stmt_defs = set_meta_def add_event_seq_def add_cursor_seq_def add_cursor_kind_def create_snapshots_def
  stamp_fleet_id_def migrate_2_to_3_def migrate_3_to_4_def fleet_db_meta_get_def

definition version_of :: "cache_file \<Rightarrow> string option" where
  "version_of f = fleet_db_meta_get f ''schema_version''"

text \<open>
  From version 2 on, an opening that died anywhere is completed by the next one: the file ends as
  if nothing had happened.
\<close>

lemma run_done: "length ss \<le> k \<Longrightarrow> run_stmts k ss f = run_stmts (length ss) ss f"
proof (induction ss arbitrary: k f)
  case (Cons s ss)
  then obtain k' where k: "k = Suc k'" "length ss \<le> k'" by (cases k) auto
  show ?case by (simp add: k(1) Cons.IH [OF k(2)] split: sum.split)
qed simp

lemma update_comm_other:
  "k \<noteq> k' \<Longrightarrow> map_of m k \<noteq> None \<Longrightarrow> AList.update k v (AList.update k' w m) = AList.update k' w (AList.update k v m)"
  by (induction m) auto

lemma update_same_entry: "map_of m k = Some v \<Longrightarrow> AList.update k v m = m"
  by (induction m) auto

text \<open>The statements of the later migrations as functions: each is done at most once.\<close>

definition right_of :: "'e + 'a \<Rightarrow> 'a" where
  "right_of r = (case r of Inr a \<Rightarrow> a)"

definition with_event_seq :: "cache_file \<Rightarrow> cache_file" where "with_event_seq f = right_of (add_event_seq f)"
definition with_cursor_seq :: "cache_file \<Rightarrow> cache_file" where "with_cursor_seq f = right_of (add_cursor_seq f)"
definition with_cursor_kind :: "cache_file \<Rightarrow> cache_file" where "with_cursor_kind f = right_of (add_cursor_kind f)"
definition with_snapshots :: "cache_file \<Rightarrow> cache_file" where "with_snapshots f = right_of (create_snapshots f)"
definition with_meta :: "string \<Rightarrow> string \<Rightarrow> cache_file \<Rightarrow> cache_file" where "with_meta k v f = right_of (set_meta k v f)"
definition with_fleet_id :: "string \<Rightarrow> cache_file \<Rightarrow> cache_file" where "with_fleet_id fid f = right_of (stamp_fleet_id fid f)"

lemmas with_defs = with_event_seq_def with_cursor_seq_def with_cursor_kind_def with_snapshots_def with_meta_def
  with_fleet_id_def right_of_def stmt_defs

definition has_meta :: "cache_file \<Rightarrow> bool" where
  "has_meta f = (cf_meta f \<noteq> None)"

lemma stmt_is:
  "add_event_seq f = Inr (with_event_seq f)" "add_cursor_seq f = Inr (with_cursor_seq f)"
  "add_cursor_kind f = Inr (with_cursor_kind f)" "create_snapshots f = Inr (with_snapshots f)"
  "has_meta f \<Longrightarrow> set_meta k v f = Inr (with_meta k v f)"
  "has_meta f \<Longrightarrow> stamp_fleet_id fid f = Inr (with_fleet_id fid f)"
  by (auto simp: with_defs has_meta_def split: option.split)

lemma keeps_meta:
  "has_meta (with_event_seq f) = has_meta f" "has_meta (with_cursor_seq f) = has_meta f"
  "has_meta (with_cursor_kind f) = has_meta f" "has_meta (with_snapshots f) = has_meta f"
  "has_meta f \<Longrightarrow> has_meta (with_meta k v f)" "has_meta f \<Longrightarrow> has_meta (with_fleet_id fid f)"
  by (auto simp: with_defs has_meta_def split: option.split)

lemma keeps_version:
  "version_of (with_event_seq f) = version_of f" "version_of (with_cursor_seq f) = version_of f"
  "version_of (with_cursor_kind f) = version_of f" "version_of (with_snapshots f) = version_of f"
  "has_meta f \<Longrightarrow> version_of (with_meta ''schema_version'' v f) = Some v"
  "has_meta f \<Longrightarrow> version_of (with_fleet_id fid f) = version_of f"
  by (auto simp: version_of_def with_defs has_meta_def split: option.split)

definition all_added :: "cache_file \<Rightarrow> cache_file" where
  "all_added f = with_cursor_kind (with_cursor_seq (with_event_seq f))"

lemma added_once:
  "with_event_seq (with_event_seq f) = with_event_seq f"
  "with_event_seq (with_cursor_seq (with_event_seq f)) = with_cursor_seq (with_event_seq f)"
  "with_cursor_seq (with_cursor_seq f) = with_cursor_seq f"
  "with_event_seq (with_cursor_kind (with_cursor_seq (with_event_seq f))) = with_cursor_kind (with_cursor_seq (with_event_seq f))"
  "with_cursor_seq (with_cursor_kind (with_cursor_seq f)) = with_cursor_kind (with_cursor_seq f)"
  "with_cursor_kind (with_cursor_kind f) = with_cursor_kind f"
  "with_snapshots (with_snapshots f) = with_snapshots f"
  "has_meta f \<Longrightarrow> with_snapshots (with_fleet_id fid (with_snapshots f)) = with_fleet_id fid (with_snapshots f)"
  "has_meta f \<Longrightarrow> with_fleet_id fid (with_fleet_id fid f) = with_fleet_id fid f"
  by (auto simp: with_defs has_meta_def split: option.splits if_splits)

lemma open_stmts_version:
  "has_meta f \<Longrightarrow> open_stmts fid hosts now f =
     (if version_of f = Some ''1'' then Some (migrate_1_to_2 hosts now f @ migrate_2_to_3 @ migrate_3_to_4 fid)
      else if version_of f = Some ''2'' then Some (migrate_2_to_3 @ migrate_3_to_4 fid)
      else if version_of f = Some ''3'' then Some (migrate_3_to_4 fid)
      else if version_of f = Some ''4'' then Some [] else None)"
  by (auto simp: open_stmts_def has_meta_def version_of_def Let_def)

definition to_4 :: "string \<Rightarrow> cache_file \<Rightarrow> cache_file" where
  "to_4 fid f = with_meta ''schema_version'' ''4'' (with_fleet_id fid (with_snapshots f))"

definition to_3 :: "cache_file \<Rightarrow> cache_file" where
  "to_3 f = with_meta ''schema_version'' ''3'' (with_cursor_kind (with_cursor_seq (with_event_seq f)))"

lemma open_from:
  assumes "has_meta f"
  shows "version_of f = Some ''3'' \<Longrightarrow> open_fleet_db fid hosts now f = (to_4 fid f, open_cache_check fid (to_4 fid f))"
    and "version_of f = Some ''2'' \<Longrightarrow>
      open_fleet_db fid hosts now f = (to_4 fid (to_3 f), open_cache_check fid (to_4 fid (to_3 f)))"
  using assms
  by (simp_all add: open_fleet_db_def open_dying_def open_stmts_version migrate_2_to_3_def migrate_3_to_4_def
      stmt_is keeps_meta to_4_def to_3_def)

lemma from_3:
  assumes "has_meta f" and "version_of f = Some ''3''" and "run_stmts k (migrate_3_to_4 fid) f = (f1, None)"
  shows "open_fleet_db fid hosts now f1 = open_fleet_db fid hosts' now' f"
proof -
  have "k < 3" using assms(3) run_done [of "migrate_3_to_4 fid" k f] assms(1)
    by (cases "k < 3") (auto simp: migrate_3_to_4_def stmt_is keeps_meta)
  then consider "k = 0" | "k = 1" | "k = 2" by linarith
  then show ?thesis
  proof cases
    case 1
    with assms show ?thesis by (simp add: migrate_3_to_4_def open_from)
  next
    case 2
    with assms have "f1 = with_snapshots f" by (simp add: migrate_3_to_4_def stmt_is)
    with assms(1,2) show ?thesis by (simp add: open_from keeps_meta keeps_version to_4_def added_once)
  next
    case 3
    with assms have "f1 = with_fleet_id fid (with_snapshots f)"
      by (simp add: migrate_3_to_4_def stmt_is keeps_meta eval_nat_numeral)
    with assms(1,2) show ?thesis by (simp add: open_from keeps_meta keeps_version to_4_def added_once)
  qed
qed

lemma run_append:
  "run_stmts k (ss @ ts) f = (case run_stmts k ss f of
     (f', Some (Inr _)) \<Rightarrow> run_stmts (k - length ss) ts f' | r \<Rightarrow> r)"
  by (induction k ss f rule: run_stmts.induct) (auto split: sum.split)

lemma from_2:
  assumes "has_meta f" and "version_of f = Some ''2''"
    and "run_stmts k (migrate_2_to_3 @ migrate_3_to_4 fid) f = (f1, None)"
  shows "open_fleet_db fid hosts now f1 = open_fleet_db fid hosts' now' f"
proof (cases "k < 4")
  case False
  then have "run_stmts k migrate_2_to_3 f = (to_3 f, Some (Inr ()))"
    using run_done [of migrate_2_to_3 k f] assms(1) by (simp add: migrate_2_to_3_def stmt_is keeps_meta to_3_def)
  moreover have "length migrate_2_to_3 = 4" by (simp add: migrate_2_to_3_def)
  ultimately have "run_stmts (k - 4) (migrate_3_to_4 fid) (to_3 f) = (f1, None)"
    using assms(3) run_append [of k migrate_2_to_3 "migrate_3_to_4 fid" f] by simp
  from from_3 [OF _ _ this, of hosts now hosts' now'] assms(1,2) show ?thesis
    by (simp add: to_3_def keeps_meta keeps_version open_from)
next
  case True
  then consider "k = 0" | "k = 1" | "k = 2" | "k = 3" by linarith
  then show ?thesis
  proof cases
    case 1
    with assms show ?thesis by (simp add: migrate_2_to_3_def open_from)
  next
    case 2
    with assms have "f1 = with_event_seq f" by (simp add: migrate_2_to_3_def stmt_is)
    with assms(1,2) show ?thesis by (simp add: open_from keeps_meta keeps_version to_3_def added_once)
  next
    case 3
    with assms have "f1 = with_cursor_seq (with_event_seq f)"
      by (simp add: migrate_2_to_3_def stmt_is keeps_meta eval_nat_numeral)
    with assms(1,2) show ?thesis by (simp add: open_from keeps_meta keeps_version to_3_def added_once)
  next
    case 4
    with assms have "f1 = with_cursor_kind (with_cursor_seq (with_event_seq f))"
      by (simp add: migrate_2_to_3_def stmt_is keeps_meta eval_nat_numeral)
    with assms(1,2) show ?thesis by (simp add: open_from keeps_meta keeps_version to_3_def added_once)
  qed
qed

lemma died_where:
  assumes "open_dying k fid hosts now f = (f1, None)"
  shows "\<exists>ss. open_stmts fid hosts now f = Some ss \<and> run_stmts k ss f = (f1, None)"
  using assms by (auto simp: open_dying_def split: option.splits prod.splits sum.splits)

lemma open_2_or_3:
  assumes "has_meta f" and "version_of f = Some ''2'' \<or> version_of f = Some ''3''"
  shows "\<exists>g. (g = to_3 f \<or> g = f) \<and> (version_of f = Some ''2'' \<longrightarrow> g = to_3 f)
    \<and> open_fleet_db fid hosts now f = (to_4 fid g, open_cache_check fid (to_4 fid g)) \<and> has_meta g"
  using assms open_from [OF assms(1)] by (auto simp: to_3_def keeps_meta)

lemma with_data:
  "has_meta f \<Longrightarrow> cf_db (with_meta k v f) = cf_db f" "has_meta f \<Longrightarrow> cf_db (with_fleet_id fid f) = cf_db f"
  "cf_db (with_event_seq f) = (if cf_event_seq f then cf_db f
     else (cf_db f)\<lparr>audit_events := map (\<lambda>a. a\<lparr>a_export_seq := None\<rparr>) (audit_events (cf_db f))\<rparr>)"
  "cf_db (with_cursor_seq f) = (if cf_cursor_seq f then cf_db f
     else map_cursors (\<lambda>c. c\<lparr>cu_last_export_seq := 0\<rparr>) (cf_db f))"
  "cf_db (with_cursor_kind f) = (if cf_cursor_kind f then cf_db f
     else map_cursors (\<lambda>c. c\<lparr>cu_cursor_kind := ''event_id''\<rparr>) (cf_db f))"
  "cf_db (with_snapshots f) = (if cf_snapshots f then cf_db f else (cf_db f)\<lparr>node_snapshot := [], user_snapshot := []\<rparr>)"
  "cf_cursor_kind (with_event_seq f) = cf_cursor_kind f" "cf_cursor_kind (with_cursor_seq f) = cf_cursor_kind f"
  by (auto simp: with_defs has_meta_def split: option.split)

lemma map_cursors_fields:
  "audit_events (map_cursors h d) = audit_events d" "map fst (sync_cursor (map_cursors h d)) = map fst (sync_cursor d)"
  "instance_history (map_cursors h d) = instance_history d" "fleet_daily_usage (map_cursors h d) = fleet_daily_usage d"
  by (auto simp: map_cursors_def comp_def case_prod_unfold)

lemma to_3_data:
  assumes "has_meta f"
  shows "audit_events (cf_db (to_3 f)) = (if cf_event_seq f then audit_events (cf_db f)
     else map (\<lambda>a. a\<lparr>a_export_seq := None\<rparr>) (audit_events (cf_db f)))"
    and "\<not> cf_cursor_kind f \<Longrightarrow> c \<in> snd ` set (sync_cursor (cf_db (to_3 f))) \<Longrightarrow> cu_cursor_kind c = ''event_id''"
    and "map fst (sync_cursor (cf_db (to_3 f))) = map fst (sync_cursor (cf_db f))"
    and "instance_history (cf_db (to_3 f)) = instance_history (cf_db f)"
    and "fleet_daily_usage (cf_db (to_3 f)) = fleet_daily_usage (cf_db f)"
  using assms by (simp_all add: to_3_def keeps_meta with_data map_cursors_fields) (auto simp: map_cursors_def)

lemma to_4_data:
  assumes "has_meta f"
  shows "version_of (to_4 fid f) = Some ''4''"
    and "audit_events (cf_db (to_4 fid f)) = audit_events (cf_db f)"
    and "sync_cursor (cf_db (to_4 fid f)) = sync_cursor (cf_db f)"
    and "instance_history (cf_db (to_4 fid f)) = instance_history (cf_db f)"
    and "fleet_daily_usage (cf_db (to_4 fid f)) = fleet_daily_usage (cf_db f)"
  using assms by (simp_all add: to_4_def keeps_meta keeps_version with_data)

section \<open>Properties\<close>


definition ex_cache :: cache_file where
  "ex_cache = \<lparr>cf_meta = Some [(''schema_version'', ''2'')], cf_tables = True, cf_history = True, cf_event_seq = False,
     cf_cursor_seq = False, cf_cursor_kind = False, cf_snapshots = False,
     cf_db = empty_fleet_db\<lparr>sync_cursor := [(''n1'', \<lparr>cu_instance_id = None, cu_last_event_id = 7, cu_last_export_seq = 0,
       cu_cursor_kind = [], cu_last_sync_at = ''t'', cu_status = ''ok''\<rparr>)]\<rparr>\<rparr>"


text \<open>
  The upgrade from version 1 is not restartable: once the history table is created, and until the
  new version is written, an exit (the process dies, or the registry cannot be read) leaves a
  database that no later opening accepts, whatever the registry then is.
\<close>

theorem v1_upgrade_not_restartable:
  assumes "cf_meta f \<noteq> None" and "version_of f = Some ''1''" and "\<not> cf_history f"
    and "k = 1 \<or> hosts = Inl e \<and> 2 \<le> k" and "open_dying k fid hosts now f = (f1, r)"
  shows "\<exists>msg. open_fleet_db fid hosts' now' f1 = (f1, die msg)"
proof -
  have m: "has_meta f" using assms(1) by (simp add: has_meta_def)
  have c: "create_history f = Inr (f\<lparr>cf_history := True, cf_db := (cf_db f)\<lparr>instance_history := []\<rparr>\<rparr>)"
    using assms(3) by (simp add: create_history_def)
  obtain rest where o: "open_stmts fid hosts now f = Some (create_history # need_registry hosts # rest)"
    using m assms(2) by (simp add: open_stmts_version migrate_1_to_2_def)
  have f1: "f1 = f\<lparr>cf_history := True, cf_db := (cf_db f)\<lparr>instance_history := []\<rparr>\<rparr>"
  proof (cases "k = 1")
    case True
    with assms(5) show ?thesis by (simp add: open_dying_def o c)
  next
    case False
    with assms(4) have h: "hosts = Inl e" "2 \<le> k" by simp_all
    from le_Suc_ex [OF h(2)] obtain j where j: "k = Suc (Suc j)" by auto
    have "run_stmts k (create_history # need_registry hosts # rest) f
      = (f\<lparr>cf_history := True, cf_db := (cf_db f)\<lparr>instance_history := []\<rparr>\<rparr>, Some (Inl e))"
      by (simp add: j c need_registry_def h)
    with assms(5) show ?thesis by (simp add: open_dying_def o)
  qed
  have v: "has_meta f1" "version_of f1 = Some ''1''"
    using m assms(2) by (simp_all add: f1 has_meta_def version_of_def fleet_db_meta_get_def)
  obtain rest' where o': "open_stmts fid hosts' now' f1 = Some (create_history # rest')"
    using v by (simp add: open_stmts_version migrate_1_to_2_def)
  have "create_history f1 = Inl OperationalError" by (simp add: create_history_def f1)
  then show ?thesis by (simp add: open_fleet_db_def open_dying_def o' die_def)
qed

theorem v1_upgrade_not_restartable_witness:
  "case open_dying 9 ''f'' (Inl (SystemExit ''invalid fleet.json'' 1)) ''now''
     (ex_cache\<lparr>cf_meta := Some [(''schema_version'', ''1'')], cf_history := False\<rparr>) of (f1, _) \<Rightarrow>
   \<exists>msg. open_fleet_db ''f'' (Inr []) ''later'' f1 = (f1, die msg)"
proof -
  let ?f = "ex_cache\<lparr>cf_meta := Some [(''schema_version'', ''1'')], cf_history := False\<rparr>"
  obtain f1 r where d: "open_dying 9 ''f'' (Inl (SystemExit ''invalid fleet.json'' 1)) ''now'' ?f = (f1, r)" by fastforce
  have "cf_meta ?f \<noteq> None" "version_of ?f = Some ''1''" "\<not> cf_history ?f" by code_simp+
  from v1_upgrade_not_restartable [OF this _ d, of "SystemExit ''invalid fleet.json'' 1" "Inr []" "''later''"] d
  show ?thesis by simp
qed

end
