(* ===== verification/FleetQuery.thy ===== *)
theory FleetQuery
  imports FleetUsers AuditExport
begin

text \<open>
  The local read plane of the controller (\<open>lib/vincula-fleet.py\<close>): users, audit events and daily
  usage are answered from \<open>fleet.db\<close> without SSH.

  A query is a filter and a sort of the rows of a table.  SQLite's \<open>lower\<close> and \<open>LIKE\<close> fold
  ASCII letters only.  Sums are 64-bit: where one leaves the range SQLite raises an error.
\<close>

section \<open>Users\<close>

definition local_user_ids_for_tag :: "fleet_db \<Rightarrow> string \<Rightarrow> string list" where
  "local_user_ids_for_tag db tag =
     (let snap = remdups (filter (\<lambda>u. u \<noteq> []) (map w_user_id (filter (\<lambda>s. w_tag s = tag) (user_snapshot db))))
      in if snap \<noteq> [] then snap
         else remdups (filter (\<lambda>u. u \<noteq> [])
           (map a_user_id (filter (\<lambda>a. a_user_tag a = Some tag) (audit_events db))
            @ map y_user_id (filter (\<lambda>y. y_user_tag y = Some tag) (fleet_daily_usage db)))))"

definition resolve_local_user_id :: "fleet_db \<Rightarrow> string \<Rightarrow> string res" where
  "resolve_local_user_id db tag =
     rbind (validate_name tag) (\<lambda>_. (case local_user_ids_for_tag db tag of
       [] \<Rightarrow> die (''unknown local user: '' @ tag)
     | [u] \<Rightarrow> Inr u
     | _ \<Rightarrow> die (''LOCAL_USER_ID_CONFLICT: tag '' @ tag)))"

text \<open>The cache is \<open>None\<close> where there is no database to open.\<close>

definition resolve_fleet_user_id :: "fleet_db option \<Rightarrow> string \<Rightarrow> string option \<Rightarrow> string res" where
  "resolve_fleet_user_id cache tag user_id =
     (if nonempty user_id
      then (let uid = strip (the user_id) in if uuid_ok uid then Inr uid else die ''invalid --user-id (expect UUID)'')
      else rbind (validate_name tag) (\<lambda>_. (case cache of
          None \<Rightarrow> die (''unknown local user: '' @ tag)
        | Some db \<Rightarrow> resolve_local_user_id db tag)))"

section \<open>Audit events\<close>

definition ascii_lower :: "string \<Rightarrow> string" where
  "ascii_lower s = map (\<lambda>c. if is_upper c then char_of (code c + 32) else c) s"

definition nonblank :: "string option \<Rightarrow> string option" where
  "nonblank v = (case v of None \<Rightarrow> None | Some s \<Rightarrow> if s = [] then None else Some s)"

definition audit_destination :: "audit_row \<Rightarrow> string" where
  "audit_destination a = ascii_lower (case nonblank (a_destination_host a) of
     Some h \<Rightarrow> h
   | None \<Rightarrow> (case nonblank (a_destination_ip a) of Some i \<Rightarrow> i | None \<Rightarrow> ''-''))"

definition event_overlap :: "string \<Rightarrow> string \<Rightarrow> audit_row \<Rightarrow> bool" where
  "event_overlap q_from q_to a = (a_started_at a < q_to
     \<and> q_from \<le> (case a_closed_at a of Some t \<Rightarrow> t | None \<Rightarrow> a_last_seen_at a))"

record fleet_filter =
  ff_user_id :: string
  ff_from :: string
  ff_to :: string
  ff_node_id :: "string option"
  ff_dest :: "string option"
  ff_dest_ip :: "string option"
  ff_dest_port :: "int option"
  ff_network :: "string option"

definition strip_lower :: "string option \<Rightarrow> string" where
  "strip_lower v = lower (strip (case v of None \<Rightarrow> [] | Some s \<Rightarrow> s))"

definition fleet_match :: "fleet_filter \<Rightarrow> audit_row \<Rightarrow> bool" where
  "fleet_match f a = (event_overlap (ff_from f) (ff_to f) a \<and> a_user_id a = ff_user_id f \<and> a_node_id a \<noteq> []
     \<and> (nonempty (ff_node_id f) \<longrightarrow> ff_node_id f = Some (a_node_id a))
     \<and> (let d = strip_lower (ff_dest f) in d \<noteq> [] \<longrightarrow> contains (ascii_lower d) (audit_destination a))
     \<and> (let ip = strip (case ff_dest_ip f of None \<Rightarrow> [] | Some s \<Rightarrow> s) in ip \<noteq> [] \<longrightarrow> a_destination_ip a = Some ip)
     \<and> (ff_dest_port f \<noteq> None \<longrightarrow> a_destination_port a = ff_dest_port f)
     \<and> (let n = strip_lower (ff_network f) in n \<noteq> []
          \<longrightarrow> ascii_lower (case a_network a of None \<Rightarrow> [] | Some s \<Rightarrow> s) = n))"

type_synonym keyset_pos = "string \<times> int \<times> string"

definition audit_pos :: "audit_row \<Rightarrow> keyset_pos" where
  "audit_pos a = (a_started_at a, a_event_id a, a_node_id a)"

text \<open>The keyset condition of the SQL, spelled out.\<close>

definition after_pos :: "keyset_pos \<Rightarrow> audit_row \<Rightarrow> bool" where
  "after_pos p a = (case p of (t, e, n) \<Rightarrow>
     t < a_started_at a \<or> (a_started_at a = t \<and> e < a_event_id a)
     \<or> (a_started_at a = t \<and> a_event_id a = e \<and> n < a_node_id a))"

text \<open>
  The cursor arguments: a start time, and the event and node with it; the limit is an integer of at
  least 1 when given.
\<close>

definition query_fleet_audit ::
    "fleet_db \<Rightarrow> fleet_filter \<Rightarrow> int option \<Rightarrow> string option \<Rightarrow> int option \<Rightarrow> string option \<Rightarrow> audit_row list res" where
  "query_fleet_audit db f limit after_t after_e after_n =
     (if after_t \<noteq> None \<and> (after_e = None \<or> \<not> nonempty after_n)
      then die ''audit cursor requires after_started_at, after_event_id, after_node_id''
      else
        (let rows = filter (fleet_match f) (audit_events db);
             rest = (case after_t of None \<Rightarrow> rows | Some t \<Rightarrow> filter (after_pos (t, the after_e, the after_n)) rows);
             sorted = sort_key audit_pos rest
         in if (case limit of None \<Rightarrow> False | Some l \<Rightarrow> l < 1) then die ''audit limit must be an integer >= 1''
            else rbind (bind_ints (opt_ints (ff_dest_port f) @ (if after_t = None then [] else opt_ints after_e)
                                   @ opt_ints limit)) (\<lambda>_.
              Inr (case limit of None \<Rightarrow> sorted | Some l \<Rightarrow> take (nat l) sorted))))"

definition node_display_name :: "registry \<Rightarrow> string \<Rightarrow> string" where
  "node_display_name g nid =
     (if nid = [] then ''-'' else (case find_by_node_id g nid of Some n \<Rightarrow> n_name n | None \<Rightarrow> nid))"

definition instance_display :: "string option \<Rightarrow> string" where
  "instance_display v = (case (case v of None \<Rightarrow> None | Some t \<Rightarrow> text_or_none t) of None \<Rightarrow> ''-'' | Some t \<Rightarrow> t)"

definition opt_strip_text :: "string option \<Rightarrow> string option" where
  "opt_strip_text v = (case v of None \<Rightarrow> None | Some t \<Rightarrow> text_or_none t)"

definition destination_display :: "string option \<Rightarrow> string option \<Rightarrow> string" where
  "destination_display host ip = (case opt_strip_text host of
     Some h \<Rightarrow> h | None \<Rightarrow> (case opt_strip_text ip of Some i \<Rightarrow> i | None \<Rightarrow> ''-''))"

record audit_line =
  al_time :: string
  al_node :: string
  al_instance :: string
  al_destination :: string
  al_traffic :: int
  al_event :: audit_row

definition audit_line_of :: "registry \<Rightarrow> audit_row \<Rightarrow> audit_line" where
  "audit_line_of g a = \<lparr>al_time = a_started_at a, al_node = node_display_name g (a_node_id a),
     al_instance = instance_display (a_instance_id a),
     al_destination = destination_display (a_destination_host a) (a_destination_ip a),
     al_traffic = a_upload_bytes a + a_download_bytes a, al_event = a\<rparr>"

definition blank_none :: "string option \<Rightarrow> string option" where
  "blank_none v = (case v of None \<Rightarrow> None | Some s \<Rightarrow> if strip s = [] then None else Some (strip s))"

definition cmd_audit_user ::
    "registry res \<Rightarrow> fleet_db option \<Rightarrow> string \<Rightarrow> string \<Rightarrow> string
      \<Rightarrow> string option \<Rightarrow> string option \<Rightarrow> audit_line list res" where
  "cmd_audit_user reg cache tag q_from q_to user_id node =
     rbind (validate_name tag) (\<lambda>_.
     rbind reg (\<lambda>g.
     rbind (parse_rfc3339 q_from) (\<lambda>f.
     rbind (parse_rfc3339 q_to) (\<lambda>t.
     if t < f then die ''--from must not be after --to''
     else rbind (resolve_fleet_user_id cache tag (blank_none user_id)) (\<lambda>uid.
     rbind (case blank_none node of None \<Rightarrow> Inr None
          | Some nm \<Rightarrow> rbind (validate_name nm) (\<lambda>_. rbind (require_node g nm) (\<lambda>n. Inr (Some (n_node_id n))))) (\<lambda>nid.
     (case cache of
        None \<Rightarrow> Inr []
      | Some db \<Rightarrow> rbind (query_fleet_audit db
            \<lparr>ff_user_id = uid, ff_from = f, ff_to = t, ff_node_id = nid, ff_dest = None, ff_dest_ip = None,
             ff_dest_port = None, ff_network = None\<rparr> None None None None) (\<lambda>rows.
          Inr (map (audit_line_of g) rows)))))))))"

section \<open>Daily usage\<close>

record stats_row =
  st_keys :: "string list"
  st_node_id :: string
  st_user_tag :: "string option"
  st_instance_id :: "string option"
  st_up :: int
  st_down :: int
  st_count :: int

definition in_window :: "string \<Rightarrow> string \<Rightarrow> (fleet_daily \<Rightarrow> bool) \<Rightarrow> fleet_daily \<Rightarrow> bool" where
  "in_window start end extra y = (y_node_id y \<noteq> [] \<and> start \<le> y_date y \<and> y_date y \<le> end \<and> extra y)"

definition stats_group :: "(fleet_daily \<Rightarrow> string list) \<Rightarrow> fleet_daily list \<Rightarrow> string list \<Rightarrow> stats_row res" where
  "stats_group keys ys k =
     (let g = filter (\<lambda>y. keys y = k) ys in
      rbind (sum_ints (map y_upload_bytes g)) (\<lambda>up.
      rbind (sum_ints (map y_download_bytes g)) (\<lambda>dn.
      rbind (sum_ints (map y_connection_count g)) (\<lambda>n.
      rbind (sum_ints (map (\<lambda>y. y_upload_bytes y + y_download_bytes y) g)) (\<lambda>_.
        Inr \<lparr>st_keys = k, st_node_id = y_node_id (hd g), st_user_tag = max_text (map y_user_tag g),
             st_instance_id = max_text (map y_instance_id g), st_up = up, st_down = dn, st_count = n\<rparr>)))))"

text \<open>
  \<open>query_daily_grouped\<close>: \<open>keys\<close> gives the columns of the grouping.  \<open>st_node_id\<close> is the node of
  the group, read only where the node is one of these columns.
\<close>

definition query_daily_grouped ::
    "fleet_db \<Rightarrow> string \<Rightarrow> string \<Rightarrow> (fleet_daily \<Rightarrow> string list) \<Rightarrow> (fleet_daily \<Rightarrow> bool) \<Rightarrow> stats_row list res" where
  "query_daily_grouped db start end keys extra =
     (let ys = filter (in_window start end extra) (fleet_daily_usage db) in
      rbind (rmap (stats_group keys ys) (remdups (map keys ys))) (\<lambda>rows.
      Inr (sort_key (\<lambda>r. (- (st_up r + st_down r), st_keys r)) rows)))"

record node_total =
  nt_up :: int
  nt_down :: int
  nt_count :: int

record usage_totals =
  tot_up :: int
  tot_down :: int
  tot_count :: int
  tot_by_node :: "(string \<times> node_total) list"

definition add_node_total :: "stats_row \<Rightarrow> (string \<times> node_total) list \<Rightarrow> (string \<times> node_total) list" where
  "add_node_total r al =
     (let t = (case map_of al (st_node_id r) of Some t \<Rightarrow> t | None \<Rightarrow> \<lparr>nt_up = 0, nt_down = 0, nt_count = 0\<rparr>)
      in AList.update (st_node_id r) \<lparr>nt_up = nt_up t + st_up r, nt_down = nt_down t + st_down r,
           nt_count = nt_count t + st_count r\<rparr> al)"

definition stats_totals :: "stats_row list \<Rightarrow> usage_totals" where
  "stats_totals rows = \<lparr>tot_up = sum_list (map st_up rows), tot_down = sum_list (map st_down rows),
     tot_count = sum_list (map st_count rows), tot_by_node = fold add_node_total rows []\<rparr>"

text \<open>
  \<open>today\<close> is the number of the UTC day since the epoch; \<open>timedelta\<close> and \<open>date\<close> raise
  \<open>OverflowError\<close> below the first day of year 1.
\<close>

definition stats_date_window :: "int \<Rightarrow> int \<Rightarrow> (string \<times> string) res" where
  "stats_date_window today days =
     (if days < 1 then die ''--days must be an integer >= 1''
      else if today - (days - 1) < - 719162 then Inl OverflowError
      else Inr (date_utc ((today - (days - 1)) * 86400), date_utc (today * 86400)))"

datatype stats_mode = Stats_User string "string option" | Stats_Top_Users | Stats_Top_Hosts | Stats_Node string

definition stats_query :: "fleet_db option \<Rightarrow> string \<Rightarrow> string \<Rightarrow> (fleet_daily \<Rightarrow> string list)
    \<Rightarrow> (fleet_daily \<Rightarrow> bool) \<Rightarrow> stats_row list res" where
  "stats_query cache start end keys extra = (case cache of
     None \<Rightarrow> Inr [] | Some db \<Rightarrow> query_daily_grouped db start end keys extra)"

text \<open>The four reports, each its rows and their totals (\<open>_emit_stats\<close>).\<close>

type_synonym report = "(stats_row list \<times> usage_totals) res"

definition emit_stats :: "stats_row list \<Rightarrow> report" where
  "emit_stats rows = Inr (rows, stats_totals rows)"

definition cmd_stats_user :: "int \<Rightarrow> registry res \<Rightarrow> fleet_db option \<Rightarrow> int \<Rightarrow> string \<Rightarrow> string option \<Rightarrow> report" where
  "cmd_stats_user today reg cache days tag user_id =
     rbind (validate_name tag) (\<lambda>_. rbind (stats_date_window today days) (\<lambda>(s, e). rbind reg (\<lambda>g.
     rbind (resolve_fleet_user_id cache tag (blank_none user_id)) (\<lambda>uid.
     rbind (stats_query cache s e (\<lambda>y. [y_node_id y, y_user_id y]) (\<lambda>y. y_user_id y = uid)) (\<lambda>rows.
     emit_stats (sort_key (\<lambda>r. (node_display_name g (st_node_id r), st_node_id r)) rows))))))"

definition cmd_stats_top_users :: "int \<Rightarrow> registry res \<Rightarrow> fleet_db option \<Rightarrow> int \<Rightarrow> report" where
  "cmd_stats_top_users today reg cache days =
     rbind (stats_date_window today days) (\<lambda>(s, e). rbind reg (\<lambda>g.
     rbind (stats_query cache s e (\<lambda>y. [y_user_id y, y_node_id y]) (\<lambda>y. True)) emit_stats))"

definition cmd_stats_top_hosts :: "int \<Rightarrow> registry res \<Rightarrow> fleet_db option \<Rightarrow> int \<Rightarrow> report" where
  "cmd_stats_top_hosts today reg cache days =
     rbind (stats_date_window today days) (\<lambda>(s, e). rbind reg (\<lambda>g.
     rbind (stats_query cache s e (\<lambda>y. [y_destination_host y, y_node_id y]) (\<lambda>y. True)) emit_stats))"

definition cmd_stats_node :: "int \<Rightarrow> registry res \<Rightarrow> fleet_db option \<Rightarrow> int \<Rightarrow> string \<Rightarrow> report" where
  "cmd_stats_node today reg cache days nm =
     rbind (validate_name nm) (\<lambda>_. rbind (stats_date_window today days) (\<lambda>(s, e). rbind reg (\<lambda>g.
     rbind (require_node g nm) (\<lambda>n.
     rbind (stats_query cache s e (\<lambda>y. [y_user_id y, y_node_id y, y_destination_host y])
       (\<lambda>y. y_node_id y = n_node_id n)) emit_stats))))"

definition cmd_stats :: "int \<Rightarrow> registry res \<Rightarrow> fleet_db option \<Rightarrow> int \<Rightarrow> stats_mode \<Rightarrow> report" where
  "cmd_stats today reg cache days mode = (case mode of
     Stats_User tag user_id \<Rightarrow> cmd_stats_user today reg cache days tag user_id
   | Stats_Top_Users \<Rightarrow> cmd_stats_top_users today reg cache days
   | Stats_Top_Hosts \<Rightarrow> cmd_stats_top_hosts today reg cache days
   | Stats_Node nm \<Rightarrow> cmd_stats_node today reg cache days nm)"

end
