(* ===== verification/UiQuery.thy ===== *)
theory UiQuery
  imports FleetQuery
begin

text \<open>
  The read queries of the local audit UI (\<open>lib/vincula-ui/server.py\<close>) over \<open>fleet.db\<close>: the audit
  listing with its cursor, the ranked usage and its trend.

  A request is its decoded parameters; a missing one reads as the empty text.  \<open>KeyError\<close> becomes
  status 404, \<open>ValueError\<close> and a command's exit 400, any other exception 500 (theory UiGuard).
\<close>

section \<open>Audit listing\<close>

type_synonym params = "string \<Rightarrow> string option"

definition AUDIT_DEFAULT_LIMIT :: int where "AUDIT_DEFAULT_LIMIT = 500"
definition AUDIT_MAX_LIMIT :: int where "AUDIT_MAX_LIMIT = 1000"
definition AUDIT_MAX_WINDOW_DAYS :: int where "AUDIT_MAX_WINDOW_DAYS = 31"

definition ui_text :: "params \<Rightarrow> string \<Rightarrow> string" where
  "ui_text ps k = strip (case ps k of None \<Rightarrow> [] | Some s \<Rightarrow> s)"

definition ui_opt :: "string \<Rightarrow> string option" where
  "ui_opt s = (if s = [] then None else Some s)"

definition resolve_user_id_for_ui :: "fleet_db \<Rightarrow> string \<Rightarrow> string option res" where
  "resolve_user_id_for_ui db tag_or_id =
     (let t = strip tag_or_id in
      if t = [] then Inr None
      else if uuid_ok t then Inr (Some t)
      else rbind (validate_name t) (\<lambda>_. (case local_user_ids_for_tag db t of
          [] \<Rightarrow> Inr None
        | [u] \<Rightarrow> Inr (Some u)
        | _ \<Rightarrow> Inl (ValueError (''LOCAL_USER_ID_CONFLICT: tag '' @ t)))))"

text \<open>Seconds of a parsed instant, read back from its text.\<close>

definition utc_seconds :: "string \<Rightarrow> int res" where
  "utc_seconds q = rbind (fromisoformat (concat (map (\<lambda>c. if c = CHR ''Z'' then ''+00:00'' else [c]) q)))
     (\<lambda>w. case w of None \<Rightarrow> Inl (ValueError ''invalid isoformat'') | Some n \<Rightarrow> Inr n)"

definition audit_window :: "params \<Rightarrow> (string \<times> string) res" where
  "audit_window ps =
     (if ui_text ps ''from'' = [] \<or> ui_text ps ''to'' = [] then Inl (ValueError ''--from and --to are required'')
      else rbind (parse_rfc3339 (ui_text ps ''from'')) (\<lambda>f.
      rbind (parse_rfc3339 (ui_text ps ''to'')) (\<lambda>t.
      if t < f then Inl (ValueError ''--from must not be after --to'')
      else rbind (utc_seconds f) (\<lambda>fs. rbind (utc_seconds t) (\<lambda>ts.
        if AUDIT_MAX_WINDOW_DAYS * 86400 < ts - fs then Inl (ValueError ''audit window must be <= 31 days'')
        else Inr (f, t))))))"

definition audit_port :: "params \<Rightarrow> int option res" where
  "audit_port ps = (let raw = ui_text ps ''port'' in
     if raw = [] then Inr None
     else (case int_of_text raw of
         None \<Rightarrow> Inl (ValueError ''port must be an integer'')
       | Some p \<Rightarrow> if p < 1 \<or> 65535 < p then Inl (ValueError ''port must be 1..65535'') else Inr (Some p)))"

definition audit_limit :: "params \<Rightarrow> int res" where
  "audit_limit ps = (let raw = ui_text ps ''limit'' in
     rbind (if raw = [] then Inr AUDIT_DEFAULT_LIMIT
            else (case int_of_text raw of None \<Rightarrow> Inl (ValueError ''limit must be an integer'') | Some l \<Rightarrow> Inr l))
       (\<lambda>l. if l < 1 \<or> AUDIT_MAX_LIMIT < l then Inl (ValueError ''limit must be 1..1000'') else Inr l))"

definition audit_cursor :: "params \<Rightarrow> keyset_pos option res" where
  "audit_cursor ps =
     (let t = ui_text ps ''after_started_at''; e = ui_text ps ''after_event_id''; n = ui_text ps ''after_node_id'' in
      if t = [] \<and> e = [] \<and> n = [] then Inr None
      else if t = [] \<or> e = [] \<or> n = []
      then Inl (ValueError ''cursor requires after_started_at, after_event_id, after_node_id'')
      else (case int_of_text e of None \<Rightarrow> Inl (ValueError ''invalid literal for int()'') | Some i \<Rightarrow> Inr (Some (t, i, n))))"

text \<open>
  The part of \<open>api_audit\<close> before its query: first the registry, the database and the filter, then the
  whole request with its limit and cursor.
\<close>

definition audit_target :: "registry res \<Rightarrow> fleet_db res \<Rightarrow> params \<Rightarrow> string \<Rightarrow> string \<Rightarrow> int option
    \<Rightarrow> (registry \<times> fleet_db \<times> fleet_filter) res" where
  "audit_target reg cache ps f t port =
     rbind reg (\<lambda>g.
     rbind (if ui_text ps ''node'' = [] then Inr None
            else rbind (validate_name (ui_text ps ''node'')) (\<lambda>_.
              rbind (require_node g (ui_text ps ''node'')) (\<lambda>n. Inr (Some (n_node_id n))))) (\<lambda>nid.
     rbind cache (\<lambda>db.
     rbind (resolve_user_id_for_ui db (ui_text ps ''user'')) (\<lambda>uid.
     (case ui_opt (case uid of None \<Rightarrow> [] | Some u \<Rightarrow> u) of
        None \<Rightarrow> Inl (KeyError ''unknown user in local cache'')
      | Some u \<Rightarrow> Inr (g, db, \<lparr>ff_user_id = u, ff_from = f, ff_to = t, ff_node_id = nid,
           ff_dest = ui_opt (lower (ui_text ps ''destination'')), ff_dest_ip = ui_opt (ui_text ps ''destination_ip''),
           ff_dest_port = port, ff_network = ui_opt (lower (ui_text ps ''network''))\<rparr>))))))"

definition audit_request :: "registry res \<Rightarrow> fleet_db res \<Rightarrow> params
    \<Rightarrow> (registry \<times> fleet_db \<times> fleet_filter \<times> int \<times> keyset_pos option) res" where
  "audit_request reg cache ps =
     (if ui_text ps ''user'' = [] then Inl (ValueError ''user is required (tag or user_id)'')
      else rbind (audit_window ps) (\<lambda>(f, t).
        rbind (audit_port ps) (\<lambda>port.
        rbind (audit_limit ps) (\<lambda>limit.
        rbind (audit_cursor ps) (\<lambda>cur.
        rbind (audit_target reg cache ps f t port) (\<lambda>(g, db, filt). Inr (g, db, filt, limit, cur)))))))"

record audit_page =
  ap_user_id :: string
  ap_rows :: "audit_line list"
  ap_truncated :: bool
  ap_next :: "keyset_pos option"

definition page_of :: "registry \<Rightarrow> string \<Rightarrow> int \<Rightarrow> audit_row list \<Rightarrow> audit_page" where
  "page_of g uid limit raw =
     (let truncated = limit < int (length raw);
          rows = (if truncated then take (nat limit) raw else raw)
      in \<lparr>ap_user_id = uid, ap_rows = map (audit_line_of g) rows, ap_truncated = truncated,
          ap_next = (if truncated \<and> rows \<noteq> [] then Some (audit_pos (last rows)) else None)\<rparr>)"

definition api_audit :: "registry res \<Rightarrow> fleet_db res \<Rightarrow> params \<Rightarrow> audit_page res" where
  "api_audit reg cache ps =
     rbind (audit_request reg cache ps) (\<lambda>(g, db, f, limit, cur).
     rbind (query_fleet_audit db f (Some (limit + 1)) (map_option fst cur) (map_option (\<lambda>c. fst (snd c)) cur)
        (map_option (\<lambda>c. snd (snd c)) cur)) (\<lambda>raw.
     Inr (page_of g (ff_user_id f) limit raw)))"

text \<open>
  A reader of the listing: it asks again with the cursor of the last page until a page has none.
  The cursor travels as text in the query string.
\<close>

definition with_cursor :: "params \<Rightarrow> keyset_pos option \<Rightarrow> params" where
  "with_cursor ps cur = (case cur of
     None \<Rightarrow> ps(''after_started_at'' := None, ''after_event_id'' := None, ''after_node_id'' := None)
   | Some (t, e, n) \<Rightarrow> ps(''after_started_at'' := Some t, ''after_event_id'' := Some (int_text e), ''after_node_id'' := Some n))"

fun read_pages :: "nat \<Rightarrow> (keyset_pos option \<Rightarrow> audit_page res) \<Rightarrow> keyset_pos option \<Rightarrow> audit_line list res" where
  "read_pages 0 ask cur = Inl (RuntimeError ''too many pages'')"
| "read_pages (Suc k) ask cur = rbind (ask cur) (\<lambda>p. (case ap_next p of
      None \<Rightarrow> Inr (ap_rows p)
    | Some c \<Rightarrow> rbind (read_pages k ask (Some c)) (\<lambda>rest. Inr (ap_rows p @ rest))))"

section \<open>Ranked usage\<close>

text \<open>\<open>_traffic_trend\<close>: one row per day of the window with usage, by day.\<close>

definition traffic_trend :: "fleet_db \<Rightarrow> int \<Rightarrow> int \<Rightarrow> (fleet_daily \<Rightarrow> bool) \<Rightarrow> stats_row list res" where
  "traffic_trend db today days extra =
     rbind (stats_date_window today days) (\<lambda>(s, e).
     rbind (query_daily_grouped db s e (\<lambda>y. [y_date y]) extra) (\<lambda>rows.
     Inr (sort_key (\<lambda>r. hd (st_keys r)) rows)))"

definition dict_text :: "string \<Rightarrow> dict \<Rightarrow> string" where
  "dict_text k d = py_str (py_or (dget k d) (JStr []))"

text \<open>
  The users the filter selects.  \<open>snap\<close> are the users of the snapshot, \<open>cached\<close> the sanitized users
  of the cache file when it has a list of them.
\<close>

definition merge_cached :: "dict \<Rightarrow> (string \<times> dict) list \<Rightarrow> (string \<times> dict) list" where
  "merge_cached u by_uid =
     (let uid = dict_text ''user_id'' u in
      if uid = [] then by_uid
      else (case map_of by_uid uid of
          None \<Rightarrow> AList.update uid u by_uid
        | Some r \<Rightarrow>
            (let r1 = (if truthy (dget ''department'' u) \<and> \<not> truthy (dget ''department'' r)
                       then AList.update ''department'' (dget ''department'' u) r else r);
                 r2 = (if truthy (dget ''tag'' u) then AList.update ''tag'' (dget ''tag'' u) r1 else r1)
             in AList.update uid r2 by_uid)))"

definition allowed_uids :: "dict list \<Rightarrow> dict list \<Rightarrow> string option \<Rightarrow> string option \<Rightarrow> string list" where
  "allowed_uids snap cached user department =
     (let by_uid = fold (\<lambda>u al. if truthy (dget ''user_id'' u) then AList.update (py_str (dget ''user_id'' u)) u al else al)
            snap [];
          merged = map snd (fold merge_cached cached by_uid);
          sel = filter (\<lambda>u. (nonempty user \<longrightarrow> the user \<in> {dict_text ''tag'' u, dict_text ''user_id'' u})
                   \<and> (nonempty department \<longrightarrow> lower (dict_text ''department'' u) = lower (the department))
                   \<and> truthy (dget ''user_id'' u)) merged
      in remdups (map (\<lambda>u. py_str (dget ''user_id'' u)) sel))"

record top_stats =
  ts_rows :: "stats_row list"
  ts_totals :: usage_totals
  ts_trend :: "stats_row list"

definition top_keys :: "string \<Rightarrow> fleet_daily \<Rightarrow> string list" where
  "top_keys kind y = (if kind = ''nodes'' then [y_node_id y]
     else if kind = ''users'' then [y_user_id y, y_node_id y] else [y_destination_host y, y_node_id y])"

definition top_filter :: "string option \<Rightarrow> string option \<Rightarrow> string list option \<Rightarrow> fleet_daily \<Rightarrow> bool" where
  "top_filter nid destination uids y =
     ((nid \<noteq> None \<longrightarrow> nid = Some (y_node_id y))
      \<and> (nonempty destination \<longrightarrow> contains (ascii_lower (lower (the destination))) (ascii_lower (y_destination_host y)))
      \<and> (case uids of None \<Rightarrow> True | Some us \<Rightarrow> y_user_id y \<in> set us))"

definition top_node :: "registry \<Rightarrow> string option \<Rightarrow> string option res" where
  "top_node g node =
     (if nonempty node then rbind (validate_name (the node)) (\<lambda>_.
        rbind (require_node g (the node)) (\<lambda>n. Inr (Some (n_node_id n)))) else Inr None)"

definition top_report :: "fleet_db \<Rightarrow> int \<Rightarrow> int \<Rightarrow> string \<Rightarrow> string \<Rightarrow> string \<Rightarrow> string option \<Rightarrow> string option
    \<Rightarrow> string list option \<Rightarrow> top_stats res" where
  "top_report db today days s e kind nid destination uids =
     (if uids = Some [] then Inr \<lparr>ts_rows = [], ts_totals = stats_totals [], ts_trend = []\<rparr>
      else let extra = top_filter nid destination uids in
        rbind (query_daily_grouped db s e (top_keys kind) extra) (\<lambda>rows.
        rbind (traffic_trend db today days extra) (\<lambda>trend.
        Inr \<lparr>ts_rows = rows, ts_totals = stats_totals rows, ts_trend = trend\<rparr>)))"

definition api_stats_top :: "int \<Rightarrow> registry res \<Rightarrow> fleet_db res \<Rightarrow> dict list \<Rightarrow> dict list \<Rightarrow> string \<Rightarrow> int
    \<Rightarrow> string option \<Rightarrow> string option \<Rightarrow> string option \<Rightarrow> string option \<Rightarrow> top_stats res" where
  "api_stats_top today reg cache snap cached kind days node user department destination =
     (if kind \<notin> {''users'', ''hosts'', ''nodes''} then Inl (ValueError ''kind must be users, hosts, or nodes'')
      else if days < 1 then Inl (ValueError ''days must be >= 1'')
      else rbind reg (\<lambda>g. rbind (stats_date_window today days) (\<lambda>(s, e).
        rbind (top_node g node) (\<lambda>nid.
        rbind cache (\<lambda>db.
        top_report db today days s e kind nid destination
          (if nonempty user \<or> nonempty department then Some (allowed_uids snap cached user department) else None))))))"

end
