(* ===== verification/UiQueryProps.thy ===== *)
theory UiQueryProps
  imports UiQuery FleetLive
begin

text \<open>
  The audit listing delivers every matching event exactly once over its pages, and the ranked usage
  conserves the bytes of the daily rows.
\<close>

section \<open>Keyset pagination\<close>

lemma after_pos_iff: "after_pos (audit_pos b) = (\<lambda>a. audit_pos b < audit_pos a)"
  by (auto simp: fun_eq_iff after_pos_def audit_pos_def less_prod_def')

lemma sorted_after_prefix:
  fixes h :: "'a \<Rightarrow> 'k :: linorder"
  assumes "sorted (map h L)" "distinct (map h L)" "k < length L"
  shows "filter (\<lambda>x. h (L ! k) < h x) L = drop (Suc k) L"
proof -
  have sd: "sorted_wrt (<) (map h L)" using assms(1,2) by (simp add: strict_sorted_iff)
  have L: "L = take (Suc k) L @ drop (Suc k) L" by simp
  have "filter (\<lambda>x. h (L ! k) < h x) (take (Suc k) L) = []"
    using assms(1,3) by (auto simp: filter_empty_conv in_set_conv_nth not_less sorted_iff_nth_mono)
  moreover have "filter (\<lambda>x. h (L ! k) < h x) (drop (Suc k) L) = drop (Suc k) L"
  proof (rule filter_True, rule ballI)
    fix x assume "x \<in> set (drop (Suc k) L)"
    then obtain i where "i < length L - Suc k" "x = L ! (Suc k + i)" by (auto simp: in_set_conv_nth)
    then show "h (L ! k) < h x" using sorted_wrt_nth_less [OF sd, of k "Suc k + i"] by simp
  qed
  ultimately show ?thesis by (metis L append_Nil filter_append)
qed

text \<open>The whole listing of a filter.\<close>

definition listing :: "fleet_db \<Rightarrow> fleet_filter \<Rightarrow> audit_row list" where
  "listing db f = sort_key audit_pos (filter (fleet_match f) (audit_events db))"

lemma listing_strict:
  assumes "distinct (map event_key (audit_events db))"
  shows "sorted (map audit_pos (listing db f))" "distinct (map audit_pos (listing db f))"
proof -
  show "sorted (map audit_pos (listing db f))" by (simp add: listing_def)
  have "distinct (audit_events db)" and inj: "inj_on event_key (set (audit_events db))"
    using assms by (simp_all add: distinct_map)
  moreover have "inj_on audit_pos (set (audit_events db))"
    using inj by (auto simp: inj_on_def audit_pos_def event_key_def)
  ultimately show "distinct (map audit_pos (listing db f))"
    by (auto simp: distinct_map listing_def inj_on_def)
qed

definition cursor_at :: "fleet_db \<Rightarrow> fleet_filter \<Rightarrow> nat \<Rightarrow> keyset_pos option" where
  "cursor_at db f k = (if k = 0 then None else Some (audit_pos (listing db f ! (k - 1))))"

lemma query_page:
  assumes uniq: "distinct (map event_key (audit_events db))"
    and ids: "\<And>a. a \<in> set (listing db f) \<Longrightarrow> in_64 (a_event_id a) \<and> a_node_id a \<noteq> []"
    and port: "bind_ints (opt_ints (ff_dest_port f)) = Inr ()" and l: "1 \<le> l" "in_64 l" and k: "k \<le> length (listing db f)"
    and cur: "cur = cursor_at db f k"
  shows "query_fleet_audit db f (Some l) (map_option fst cur) (map_option (\<lambda>c. fst (snd c)) cur)
      (map_option (\<lambda>c. snd (snd c)) cur) = Inr (take (nat l) (drop k (listing db f)))"
proof (cases k)
  case 0
  then show ?thesis using port l
    by (simp add: cur cursor_at_def query_fleet_audit_def listing_def Let_def bind_ints_ok opt_ints_def res_simps)
next
  case (Suc j)
  define b where "b = listing db f ! j"
  have b: "b \<in> set (listing db f)" using k Suc by (simp add: b_def)
  have c: "cur = Some (a_started_at b, a_event_id b, a_node_id b)"
    using Suc by (simp add: cur cursor_at_def b_def audit_pos_def)
  have "sort_key audit_pos (filter (after_pos (audit_pos b)) (filter (fleet_match f) (audit_events db)))
      = filter (after_pos (audit_pos b)) (listing db f)"
    by (simp only: listing_def filter_sort)
  also have "\<dots> = drop k (listing db f)"
    using sorted_after_prefix [OF listing_strict [OF uniq], of j f] k Suc
    by (simp add: after_pos_iff b_def)
  finally have d: "sort_key audit_pos (filter (after_pos (a_started_at b, a_event_id b, a_node_id b))
      (filter (fleet_match f) (audit_events db))) = drop k (listing db f)"
    by (simp only: audit_pos_def)
  have bi: "bind_ints (opt_ints (ff_dest_port f) @ [a_event_id b, l]) = Inr ()"
    using ids [OF b] port l(2) by (simp add: bind_ints_ok)
  show ?thesis
    using bi unfolding c query_fleet_audit_def Let_def option.map option.simps fst_conv snd_conv option.sel d
    using ids [OF b] l(1) by (simp add: nonempty_def opt_ints_def)
qed

lemma ui_text_upd [simp]: "ui_text (ps(k := v)) k' = (if k = k' then strip (case v of None \<Rightarrow> [] | Some s \<Rightarrow> s) else ui_text ps k')"
  by (simp add: ui_text_def)

text \<open>A text that survives the query string and the trimming of the handler.\<close>

definition plain_text :: "string \<Rightarrow> bool" where
  "plain_text s \<longleftrightarrow> s \<noteq> [] \<and> strip s = s"

lemma audit_request_cursor:
  assumes "audit_request reg cache (with_cursor ps None) = Inr (g, db, f, limit, None)"
    and "plain_text t" "plain_text n"
  shows "audit_request reg cache (with_cursor ps (Some (t, e, n))) = Inr (g, db, f, limit, Some (t, e, n))"
proof -
  have cur: "audit_cursor (with_cursor ps (Some (t, e, n))) = Inr (Some (t, e, n))"
    using assms(2,3) by (simp add: audit_cursor_def with_cursor_def plain_text_def strip_int_text)
  have same: "ui_text (with_cursor ps (Some (t, e, n))) k = ui_text (with_cursor ps None) k"
    if "k \<in> {''user'', ''from'', ''to'', ''node'', ''destination'', ''destination_ip'', ''network'', ''port'', ''limit''}" for k
    using that by (auto simp: with_cursor_def)
  note texts = same [of "''user''", simplified] same [of "''from''", simplified] same [of "''to''", simplified]
    same [of "''node''", simplified] same [of "''destination''", simplified] same [of "''destination_ip''", simplified]
    same [of "''network''", simplified] same [of "''port''", simplified] same [of "''limit''", simplified]
  show ?thesis
    using assms(1)
    unfolding audit_request_def cur audit_window_def audit_port_def audit_limit_def audit_target_def texts
    by (auto simp: res_simps split: if_splits)
qed

lemma audit_request_bounds:
  assumes "audit_request reg cache ps = Inr (g, db, f, limit, cur)"
  shows "1 \<le> limit" "limit \<le> 1000" "bind_ints (opt_ints (ff_dest_port f)) = Inr ()"
proof -
  from assms obtain q r port where a: "audit_limit ps = Inr limit" "audit_port ps = Inr port"
    "audit_target reg cache ps q r port = Inr (g, db, f)"
    by (auto simp: audit_request_def res_simps split: if_splits)
  show "1 \<le> limit" "limit \<le> 1000"
    using a(1) by (auto simp: audit_limit_def AUDIT_MAX_LIMIT_def Let_def res_simps split: if_splits)
  have "ff_dest_port f = port"
    using a(3) by (auto simp: audit_target_def res_simps split: option.splits)
  then show "bind_ints (opt_ints (ff_dest_port f)) = Inr ()"
    using a(2) by (auto simp: audit_port_def Let_def bind_ints_ok opt_ints_def in_64_def INT64_MAX_def
        split: if_splits option.splits)
qed

lemma read_pages_from:
  assumes req: "audit_request reg cache (with_cursor ps None) = Inr (g, db, f, limit, None)"
    and uniq: "distinct (map event_key (audit_events db))"
    and rows: "\<And>a. a \<in> set (listing db f) \<Longrightarrow>
      plain_text (a_started_at a) \<and> plain_text (a_node_id a) \<and> in_64 (a_event_id a)"
    and k: "k \<le> length (listing db f)" and fuel: "length (listing db f) - k < fuel"
  shows "read_pages fuel (\<lambda>c. api_audit reg cache (with_cursor ps c)) (cursor_at db f k)
    = Inr (map (audit_line_of g) (drop k (listing db f)))"
  using k fuel
proof (induction fuel arbitrary: k)
  case (Suc fuel)
  let ?L = "listing db f"
  note lim = audit_request_bounds [OF req]
  have rq: "audit_request reg cache (with_cursor ps (cursor_at db f k)) = Inr (g, db, f, limit, cursor_at db f k)"
  proof (cases k)
    case 0
    then show ?thesis using req by (simp add: cursor_at_def)
  next
    case (Suc j)
    then have "?L ! j \<in> set ?L" using Suc.prems(1) by simp
    then show ?thesis using rows audit_request_cursor [OF req] Suc
      by (simp add: cursor_at_def audit_pos_def)
  qed
  have page: "api_audit reg cache (with_cursor ps (cursor_at db f k))
      = Inr (page_of g (ff_user_id f) limit (take (nat (limit + 1)) (drop k ?L)))"
    using query_page [OF uniq _ lim(3), of "limit + 1" k "cursor_at db f k"] rows lim(1,2) Suc.prems(1)
    by (simp add: api_audit_def rq in_64_def INT64_MAX_def plain_text_def)
  show ?case
  proof (cases "int (length ?L - k) \<le> limit")
    case True
    then have "ap_next (page_of g (ff_user_id f) limit (take (nat (limit + 1)) (drop k ?L))) = None"
      and "ap_rows (page_of g (ff_user_id f) limit (take (nat (limit + 1)) (drop k ?L))) = map (audit_line_of g) (drop k ?L)"
      using lim(1) by (auto simp: page_of_def Let_def)
    then show ?thesis by (simp add: page)
  next
    case False
    define m where "m = nat limit"
    have m: "0 < m" "k + m < length ?L" "int m = limit" using lim(1) False by (auto simp: m_def)
    have nt: "take m (take (nat (limit + 1)) (drop k ?L)) = take m (drop k ?L)"
      using m by (simp add: min_def)
    have trunc: "limit < int (length (take (nat (limit + 1)) (drop k ?L)))" using m by simp
    have last: "last (take m (drop k ?L)) = ?L ! (k + m - 1)"
      using m by (subst last_conv_nth) auto
    have nx: "ap_next (page_of g (ff_user_id f) limit (take (nat (limit + 1)) (drop k ?L))) = cursor_at db f (k + m)"
      using m trunc nt last by (auto simp: page_of_def Let_def cursor_at_def m_def)
    have rs: "ap_rows (page_of g (ff_user_id f) limit (take (nat (limit + 1)) (drop k ?L)))
        = map (audit_line_of g) (take m (drop k ?L))"
      using trunc nt by (simp add: page_of_def Let_def m_def)
    have c: "cursor_at db f (k + m) = Some (audit_pos (?L ! (k + m - 1)))"
      using m(1) by (simp add: cursor_at_def)
    have ih: "read_pages fuel (\<lambda>c. api_audit reg cache (with_cursor ps c)) (cursor_at db f (k + m))
        = Inr (map (audit_line_of g) (drop (k + m) ?L))"
      using Suc.IH [of "k + m"] Suc.prems m by simp
    have "drop k ?L = take m (drop k ?L) @ drop (k + m) ?L"
      by (metis append_take_drop_id drop_drop add.commute)
    then show ?thesis
      using ih by (simp add: page nx rs c flip: map_append)
  qed
qed simp

section \<open>Grouped usage\<close>

lemma stats_group_Inr:
  assumes "stats_group keys ys k = Inr r"
  defines "g \<equiv> filter (\<lambda>y. keys y = k) ys"
  shows "st_keys r = k" "st_node_id r = y_node_id (hd g)" "st_up r = sum_list (map y_upload_bytes g)"
    "st_down r = sum_list (map y_download_bytes g)" "st_count r = sum_list (map y_connection_count g)"
  using assms by (auto simp: stats_group_def sum_ints_def Let_def res_simps split: if_splits)

lemma sum_list_sort_key: "sum_list (map (f :: 'a \<Rightarrow> int) (sort_key h xs)) = sum_list (map f xs)"
  by (metis mset_map mset_sort sum_mset_sum_list)

lemma grouped_sum:
  fixes col :: "stats_row \<Rightarrow> int" and f :: "fleet_daily \<Rightarrow> int"
  assumes q: "query_daily_grouped db s e keys extra = Inr rows"
    and col: "\<And>ys k r. stats_group keys ys k = Inr r \<Longrightarrow> col r = sum_list (map f (filter (\<lambda>y. keys y = k) ys))"
  shows "sum_list (map col rows) = sum_list (map f (filter (in_window s e extra) (fleet_daily_usage db)))"
proof -
  let ?ys = "filter (in_window s e extra) (fleet_daily_usage db)"
  let ?ks = "remdups (map keys ?ys)"
  from q obtain rs where rs: "rmap (stats_group keys ?ys) ?ks = Inr rs" and rows: "rows = sort_key (\<lambda>r. (- (st_up r + st_down r), st_keys r)) rs"
    by (auto simp: query_daily_grouped_def Let_def res_simps)
  have "map col rs = map (\<lambda>k. sum_list (map f (filter (\<lambda>y. keys y = k) ?ys))) ?ks"
    by (rule rmap_image [OF rs]) (rule col)
  then have "sum_list (map col rs) = (\<Sum>k\<in>set ?ks. sum_list (map f (filter (\<lambda>y. keys y = k) ?ys)))"
    by (simp only: sum_list_distinct_conv_sum_set distinct_remdups)
  also have "\<dots> = sum_list (map f (filter (\<lambda>y. keys y \<in> set ?ks) ?ys))"
    by (rule sum_over_groups) simp
  also have "filter (\<lambda>y. keys y \<in> set ?ks) ?ys = ?ys" by (rule filter_True) simp
  finally show ?thesis by (simp add: rows sum_list_sort_key)
qed

lemma grouped_totals:
  assumes "query_daily_grouped db s e keys extra = Inr rows"
  defines "ys \<equiv> filter (in_window s e extra) (fleet_daily_usage db)"
  shows "sum_list (map st_up rows) = sum_list (map y_upload_bytes ys)"
    "sum_list (map st_down rows) = sum_list (map y_download_bytes ys)"
    "sum_list (map st_count rows) = sum_list (map y_connection_count ys)"
  unfolding ys_def by (rule grouped_sum [OF assms(1)], erule stats_group_Inr)+

text \<open>The per-node totals add up to the totals.\<close>

lemma sum_update:
  fixes f :: "'v \<Rightarrow> int"
  assumes "distinct (map fst al)"
  shows "sum_list (map (\<lambda>p. f (snd p)) (AList.update k v al))
    = sum_list (map (\<lambda>p. f (snd p)) al) - (case map_of al k of None \<Rightarrow> 0 | Some w \<Rightarrow> f w) + f v"
  using assms by (induction al) (auto split: option.split dest: map_of_SomeD simp: map_of_eq_None_iff)

lemma by_node_sum:
  fixes f :: "node_total \<Rightarrow> int" and h :: "stats_row \<Rightarrow> int"
  assumes "\<And>r t. f \<lparr>nt_up = nt_up t + st_up r, nt_down = nt_down t + st_down r, nt_count = nt_count t + st_count r\<rparr> = f t + h r"
    and "f \<lparr>nt_up = 0, nt_down = 0, nt_count = 0\<rparr> = 0" and "distinct (map fst al)"
  shows "sum_list (map (\<lambda>p. f (snd p)) (fold add_node_total rows al))
    = sum_list (map (\<lambda>p. f (snd p)) al) + sum_list (map h rows)"
  using assms(3)
proof (induction rows arbitrary: al)
  case (Cons r rows)
  have "distinct (map fst (add_node_total r al))"
    using Cons.prems by (simp add: add_node_total_def Let_def distinct_update)
  moreover have "sum_list (map (\<lambda>p. f (snd p)) (add_node_total r al)) = sum_list (map (\<lambda>p. f (snd p)) al) + h r"
    using assms(1,2) by (simp add: add_node_total_def Let_def sum_update [OF Cons.prems] split: option.split)
  ultimately show ?case using Cons.IH by simp
qed simp

lemma totals_by_node:
  "sum_list (map (\<lambda>p. nt_up (snd p)) (tot_by_node (stats_totals rows))) = tot_up (stats_totals rows)"
  "sum_list (map (\<lambda>p. nt_down (snd p)) (tot_by_node (stats_totals rows))) = tot_down (stats_totals rows)"
  "sum_list (map (\<lambda>p. nt_count (snd p)) (tot_by_node (stats_totals rows))) = tot_count (stats_totals rows)"
  using by_node_sum [of nt_up st_up "[]" rows] by_node_sum [of nt_down st_down "[]" rows]
    by_node_sum [of nt_count st_count "[]" rows]
  by (simp_all add: stats_totals_def)

lemma stats_totals_sums:
  "tot_up (stats_totals rows) = sum_list (map st_up rows)"
  "tot_down (stats_totals rows) = sum_list (map st_down rows)"
  "tot_count (stats_totals rows) = sum_list (map st_count rows)"
  by (simp_all add: stats_totals_def)

lemma trend_totals:
  assumes "traffic_trend db today days extra = Inr trend" and "stats_date_window today days = Inr (s, e)"
  defines "ys \<equiv> filter (in_window s e extra) (fleet_daily_usage db)"
  shows "sum_list (map st_up trend) = sum_list (map y_upload_bytes ys)"
    "sum_list (map st_down trend) = sum_list (map y_download_bytes ys)"
    "sum_list (map st_count trend) = sum_list (map y_connection_count ys)"
proof -
  from assms(1,2) obtain rows where "query_daily_grouped db s e (\<lambda>y. [y_date y]) extra = Inr rows"
    and "trend = sort_key (\<lambda>r. hd (st_keys r)) rows"
    by (auto simp: traffic_trend_def res_simps)
  then show "sum_list (map st_up trend) = sum_list (map y_upload_bytes ys)"
    "sum_list (map st_down trend) = sum_list (map y_download_bytes ys)"
    "sum_list (map st_count trend) = sum_list (map y_connection_count ys)"
    using grouped_totals [of db s e _ extra rows] by (simp_all add: sum_list_sort_key ys_def)
qed

lemma api_stats_top_cases:
  assumes "api_stats_top today reg (Inr db) snap cached kind days node user department destination = Inr r"
  shows "\<exists>s e extra. stats_date_window today days = Inr (s, e)
    \<and> (r = \<lparr>ts_rows = [], ts_totals = stats_totals [], ts_trend = []\<rparr> \<and> (user \<noteq> None \<or> department \<noteq> None)
      \<or> (\<exists>rows trend. query_daily_grouped db s e (top_keys kind) extra = Inr rows
          \<and> traffic_trend db today days extra = Inr trend
          \<and> r = \<lparr>ts_rows = rows, ts_totals = stats_totals rows, ts_trend = trend\<rparr>))
    \<and> (node = None \<and> user = None \<and> department = None \<and> destination = None \<longrightarrow> extra = (\<lambda>y. True))"
proof -
  define uids where "uids = (if nonempty user \<or> nonempty department
      then Some (allowed_uids snap cached user department) else None)"
  from assms obtain g s e nid where w: "stats_date_window today days = Inr (s, e)"
    and tn: "top_node g node = Inr nid"
    and body: "top_report db today days s e kind nid destination uids = Inr r"
    unfolding api_stats_top_def uids_def [symmetric] by (auto simp: res_simps split: if_split_asm)
  have n: "node = None \<longrightarrow> nid = None" using tn by (auto simp: top_node_def nonempty_def)
  have "user \<noteq> None \<or> department \<noteq> None" if "uids = Some []"
    using that by (auto simp: uids_def nonempty_def split: if_splits)
  moreover have "top_filter nid destination uids = (\<lambda>y. True)"
    if "node = None \<and> user = None \<and> department = None \<and> destination = None"
    using that n by (simp add: top_filter_def uids_def nonempty_def fun_eq_iff)
  ultimately show ?thesis
    using w body by (intro exI [of _ s] exI [of _ e] exI [of _ "top_filter nid destination uids"])
      (auto simp: top_report_def Let_def res_simps split: if_splits)
qed

section \<open>Properties\<close>

text \<open>
  C38: Reading the audit listing of the UI page by page, with any page size and the cursor of each page
  passed back as text, gives the rows of the unpaged query exactly: nothing is lost or repeated, and
  the reading ends after at most one request more than there are events.  Events have unique keys,
  and start times and node ids without surrounding blanks.
\<close>

theorem audit_pages_complete:
  assumes "audit_request reg cache (with_cursor ps None) = Inr (g, db, f, limit, None)"
    and "distinct (map event_key (audit_events db))"
    and "\<forall>a \<in> set (audit_events db). fleet_match f a \<longrightarrow>
      plain_text (a_started_at a) \<and> plain_text (a_node_id a) \<and> in_64 (a_event_id a)"
  shows "read_pages (Suc (length (audit_events db))) (\<lambda>c. api_audit reg cache (with_cursor ps c)) None
      = rbind (query_fleet_audit db f None None None None) (\<lambda>rows. Inr (map (audit_line_of g) rows))"
proof -
  have "query_fleet_audit db f None None None None = Inr (listing db f)"
    using audit_request_bounds(3) [OF assms(1)]
    by (simp add: query_fleet_audit_def Let_def listing_def opt_ints_def)
  moreover have "read_pages (Suc (length (audit_events db))) (\<lambda>c. api_audit reg cache (with_cursor ps c)) (cursor_at db f 0)
      = Inr (map (audit_line_of g) (drop 0 (listing db f)))"
    using assms(3) by (intro read_pages_from [OF assms(1,2)]) (auto simp: listing_def less_Suc_eq_le)
  ultimately show ?thesis by (simp add: cursor_at_def)
qed

text \<open>A small controller for the witnesses: three events of one user, read one per page.\<close>

definition ex_ui_uuid :: "char \<Rightarrow> string" where
  "ex_ui_uuid c = replicate 8 c @ ''-'' @ replicate 4 c @ ''-'' @ replicate 4 c @ ''-'' @ replicate 4 c @ ''-'' @ replicate 12 c"

definition ex_ui_event :: "int \<Rightarrow> string \<Rightarrow> audit_row" where
  "ex_ui_event i t = \<lparr>a_node_id = ''n1'', a_instance_id = None, a_event_id = i, a_export_seq = Some i, a_connection_id = ''c'',
     a_generation = 1, a_user_id = ex_ui_uuid CHR ''a'', a_user_tag = Some ''ann'', a_started_at = t, a_last_seen_at = t,
     a_closed_at = Some t, a_destination_host = None, a_destination_ip = Some ''1.1.1.1'', a_destination_port = None,
     a_network = None, a_upload_bytes = 1, a_download_bytes = 2, a_imported_at = t\<rparr>"

definition ex_ui_daily :: "string \<Rightarrow> string \<Rightarrow> int \<Rightarrow> fleet_daily" where
  "ex_ui_daily day nid b = \<lparr>y_date = day, y_node_id = nid, y_instance_id = None, y_user_id = ex_ui_uuid CHR ''a'',
     y_user_tag = Some ''ann'', y_destination_host = ''h'', y_upload_bytes = b, y_download_bytes = 2 * b, y_connection_count = 1\<rparr>"

definition ex_ui_db :: fleet_db where
  "ex_ui_db = \<lparr>audit_events = [ex_ui_event 3 ''2026-07-02T00:00:00Z'', ex_ui_event 1 ''2026-07-02T00:00:00Z'',
       ex_ui_event 2 ''2026-07-01T00:00:00Z''], sync_cursor = [],
     fleet_daily_usage = [ex_ui_daily ''2026-07-01'' ''n1'' 5, ex_ui_daily ''2026-07-02'' ''n2'' 7, ex_ui_daily ''2026-07-02'' ''n1'' 1],
     instance_history = [], node_snapshot = [], user_snapshot = []\<rparr>"

definition ex_ui_params :: params where
  "ex_ui_params = [''user'' \<mapsto> ex_ui_uuid CHR ''a'', ''from'' \<mapsto> ''2026-07-01T00:00:00Z'', ''to'' \<mapsto> ''2026-07-03T00:00:00Z'', ''limit'' \<mapsto> ''1'']"

definition ex_ui_filter :: fleet_filter where
  "ex_ui_filter = \<lparr>ff_user_id = ex_ui_uuid CHR ''a'', ff_from = ''2026-07-01T00:00:00Z'', ff_to = ''2026-07-03T00:00:00Z'',
     ff_node_id = None, ff_dest = None, ff_dest_ip = None, ff_dest_port = None, ff_network = None\<rparr>"

lemma audit_pages_complete_witness:
  "read_pages 4 (\<lambda>c. api_audit (Inr empty_registry) (Inr ex_ui_db) (with_cursor ex_ui_params c)) None
    = rbind (query_fleet_audit ex_ui_db ex_ui_filter None None None None) (\<lambda>rows. Inr (map (audit_line_of empty_registry) rows))"
proof -
  have r: "audit_request (Inr empty_registry) (Inr ex_ui_db) (with_cursor ex_ui_params None)
      = Inr (empty_registry, ex_ui_db, ex_ui_filter, 1, None)" by code_simp
  have d: "distinct (map event_key (audit_events ex_ui_db))" by code_simp
  have p: "\<forall>a \<in> set (audit_events ex_ui_db). fleet_match ex_ui_filter a \<longrightarrow>
      plain_text (a_started_at a) \<and> plain_text (a_node_id a) \<and> in_64 (a_event_id a)" by code_simp
  have "Suc (length (audit_events ex_ui_db)) = 4" by (simp add: ex_ui_db_def)
  then show ?thesis using audit_pages_complete [OF r d p] by simp
qed

text \<open>
  The ranked usage of the UI conserves bytes: whatever the ranking and the filters, the totals equal
  the sums over the nodes and over the days of the trend, and without filters they are exactly the
  sums of the daily rows in the window.
\<close>

theorem top_stats_conserve:
  assumes "api_stats_top today reg (Inr db) snap cached kind days node user department destination = Inr r"
  shows "tot_up (ts_totals r) = sum_list (map st_up (ts_trend r))
      \<and> tot_down (ts_totals r) = sum_list (map st_down (ts_trend r))
      \<and> tot_count (ts_totals r) = sum_list (map st_count (ts_trend r))
      \<and> tot_up (ts_totals r) = sum_list (map (\<lambda>p. nt_up (snd p)) (tot_by_node (ts_totals r)))
      \<and> tot_down (ts_totals r) = sum_list (map (\<lambda>p. nt_down (snd p)) (tot_by_node (ts_totals r)))
      \<and> tot_count (ts_totals r) = sum_list (map (\<lambda>p. nt_count (snd p)) (tot_by_node (ts_totals r)))
      \<and> (node = None \<and> user = None \<and> department = None \<and> destination = None \<longrightarrow>
          (\<exists>s e. stats_date_window today days = Inr (s, e)
            \<and> tot_up (ts_totals r) + tot_down (ts_totals r)
              = sum_list (map (\<lambda>y. y_upload_bytes y + y_download_bytes y)
                  (filter (\<lambda>y. y_node_id y \<noteq> [] \<and> s \<le> y_date y \<and> y_date y \<le> e) (fleet_daily_usage db)))))"
proof -
  obtain s e extra where w: "stats_date_window today days = Inr (s, e)"
    and alt: "r = \<lparr>ts_rows = [], ts_totals = stats_totals [], ts_trend = []\<rparr> \<and> (user \<noteq> None \<or> department \<noteq> None)
      \<or> (\<exists>rows trend. query_daily_grouped db s e (top_keys kind) extra = Inr rows
          \<and> traffic_trend db today days extra = Inr trend
          \<and> r = \<lparr>ts_rows = rows, ts_totals = stats_totals rows, ts_trend = trend\<rparr>)"
    and none: "node = None \<and> user = None \<and> department = None \<and> destination = None \<longrightarrow> extra = (\<lambda>y. True)"
    using api_stats_top_cases [OF assms] by blast
  from alt show ?thesis
  proof
    assume "r = \<lparr>ts_rows = [], ts_totals = stats_totals [], ts_trend = []\<rparr> \<and> (user \<noteq> None \<or> department \<noteq> None)"
    then show ?thesis by (auto simp: stats_totals_def)
  next
    assume "\<exists>rows trend. query_daily_grouped db s e (top_keys kind) extra = Inr rows
          \<and> traffic_trend db today days extra = Inr trend
          \<and> r = \<lparr>ts_rows = rows, ts_totals = stats_totals rows, ts_trend = trend\<rparr>"
    then obtain rows trend where q: "query_daily_grouped db s e (top_keys kind) extra = Inr rows"
      and t: "traffic_trend db today days extra = Inr trend"
      and r: "r = \<lparr>ts_rows = rows, ts_totals = stats_totals rows, ts_trend = trend\<rparr>" by blast
    have win: "filter (in_window s e extra) (fleet_daily_usage db)
        = filter (\<lambda>y. y_node_id y \<noteq> [] \<and> s \<le> y_date y \<and> y_date y \<le> e) (fleet_daily_usage db)"
      if "extra = (\<lambda>y. True)"
      by (simp add: in_window_def [abs_def] that)
    show ?thesis
      using none win w
      by (simp add: r totals_by_node stats_totals_sums grouped_totals [OF q] trend_totals [OF t w] sum_list_addf)
  qed
qed

lemma top_stats_conserve_witness:
  "\<exists>r. api_stats_top 20636 (Inr empty_registry) (Inr ex_ui_db) [] [] ''nodes'' 7 None None None None = Inr r
    \<and> tot_up (ts_totals r) = 13 \<and> sum_list (map st_up (ts_trend r)) = 13"
proof -
  have "case api_stats_top 20636 (Inr empty_registry) (Inr ex_ui_db) [] [] ''nodes'' 7 None None None None of
      Inl e \<Rightarrow> False | Inr r \<Rightarrow> tot_up (ts_totals r) = 13" by code_simp
  then obtain r where r: "api_stats_top 20636 (Inr empty_registry) (Inr ex_ui_db) [] [] ''nodes'' 7 None None None None = Inr r"
    "tot_up (ts_totals r) = 13" by (auto split: sum.splits)
  show ?thesis using r top_stats_conserve [OF r(1)] by simp
qed

end
