(* ===== verification/UiGuard.thy ===== *)
theory UiGuard
  imports UiQuery
begin

text \<open>
  The request handling of the local audit UI (\<open>lib/vincula-ui/server.py\<close>): the guards on Host,
  token, content type and origin, the routes, the mapping of exceptions to status codes, and the
  bounded pool of workers.

  The handlers are a parameter \<open>run\<close>: it runs an endpoint on a state of any type and gives the new
  state and the JSON answer or the exception.  Header values, the path and the query are the ones
  \<open>http.server\<close> and \<open>urllib\<close> parsed; \<open>loads\<close> is \<open>json.loads\<close>.
\<close>

section \<open>Headers\<close>

definition count_char :: "char \<Rightarrow> string \<Rightarrow> nat" where
  "count_char c s = length (filter (\<lambda>x. x = c) s)"

definition port_text :: "string \<Rightarrow> string \<Rightarrow> (string \<times> int option) option" where
  "port_text nm t = (case int_of_text t of None \<Rightarrow> None | Some p \<Rightarrow> Some (nm, Some p))"

definition parse_host_header :: "string \<Rightarrow> (string \<times> int option) option" where
  "parse_host_header host_header =
     (let raw = strip host_header in
      if raw = [] then None
      else if hd raw = CHR ''['' then
        (let nm = takeWhile (\<lambda>c. c \<noteq> CHR '']'') (tl raw); rest = drop (Suc (Suc (length nm))) raw in
         if CHR '']'' \<notin> set raw then None
         else if starts_with '':'' rest then port_text nm (tl rest)
         else if rest \<noteq> [] then None else Some (nm, None))
      else if count_char CHR '':'' raw = 1 then (let (nm, p) = rsplit1 CHR '':'' raw in port_text nm p)
      else Some (raw, None))"

definition host_header_allowed :: "string \<Rightarrow> int \<Rightarrow> bool" where
  "host_header_allowed host_header listen_port =
     (case parse_host_header host_header of
        None \<Rightarrow> False
      | Some (nm, port) \<Rightarrow> lower nm \<in> {''127.0.0.1'', ''localhost'', ''::1''}
          \<and> (case port of None \<Rightarrow> True | Some p \<Rightarrow> p = listen_port))"

definition allowed_origins :: "int \<Rightarrow> string list" where
  "allowed_origins p = [''http://127.0.0.1:'' @ int_text p, ''http://localhost:'' @ int_text p, ''http://[::1]:'' @ int_text p]"

definition content_type_is_json :: "string option \<Rightarrow> bool" where
  "content_type_is_json header = (case header of
     None \<Rightarrow> False
   | Some h \<Rightarrow> h \<noteq> [] \<and> lower (strip (takeWhile (\<lambda>c. c \<noteq> CHR '';'') h)) = ''application/json'')"

section \<open>Requests\<close>

datatype http_method = GET | POST | PUT | DELETE

record http_request =
  rq_method :: http_method
  rq_path :: string
  rq_query :: params
  rq_host :: "string option"
  rq_token :: "string option"
  rq_ctype :: "string option"
  rq_origin :: "string option"
  rq_length :: "string option"
  rq_body :: string

text \<open>A response is its status and, on success, the JSON it carries.\<close>

type_synonym reply = "nat \<times> json option"

definition ascii_only :: "string \<Rightarrow> bool" where
  "ascii_only s = list_all (\<lambda>c. code c < 128) s"

text \<open>\<open>secrets.compare_digest\<close> raises \<open>TypeError\<close> on text that is not ASCII.\<close>

definition token_ok :: "string \<Rightarrow> string \<Rightarrow> bool res" where
  "token_ok tok presented =
     (if tok = [] then Inr False
      else if \<not> ascii_only presented \<or> \<not> ascii_only tok then Inl TypeError
      else Inr (presented = tok))"

text \<open>\<open>_check_request_guards\<close>: the status of the refusal it sent, \<open>None\<close> when the request passes.\<close>

definition check_request_guards :: "string \<Rightarrow> int \<Rightarrow> http_request \<Rightarrow> bool \<Rightarrow> bool \<Rightarrow> nat option res" where
  "check_request_guards tok port rq for_api is_post =
     (if \<not> host_header_allowed (case rq_host rq of None \<Rightarrow> [] | Some h \<Rightarrow> h) port then Inr (Some 403)
      else rbind (if for_api then token_ok tok (case rq_token rq of None \<Rightarrow> [] | Some t \<Rightarrow> t) else Inr True) (\<lambda>tk.
        if \<not> tk then Inr (Some 401)
        else if is_post \<and> \<not> content_type_is_json (rq_ctype rq) then Inr (Some 415)
        else if is_post \<and> nonempty (rq_origin rq) \<and> the (rq_origin rq) \<notin> set (allowed_origins port) then Inr (Some 403)
        else Inr None))"

definition read_json_body :: "loads \<Rightarrow> http_request \<Rightarrow> dict res" where
  "read_json_body loads rq =
     (case int_of_text (case rq_length rq of None \<Rightarrow> ''0'' | Some l \<Rightarrow> if l = [] then ''0'' else l) of
        None \<Rightarrow> Inl (ValueError ''invalid literal for int()'')
      | Some n \<Rightarrow>
          if n \<le> 0 then Inr []
          else if 1000000 < n then Inl (ValueError ''request body too large'')
          else if rq_body rq = [] then Inr []
          else (case loads (rq_body rq) of
              None \<Rightarrow> Inl (ValueError ''invalid JSON'')
            | Some (JObj d) \<Rightarrow> Inr d
            | Some _ \<Rightarrow> Inl (ValueError ''JSON body must be an object'')))"

section \<open>Routes\<close>

datatype endpoint =
    Ep_Overview
  | Ep_Nodes
  | Ep_Operations int
  | Ep_Recipes
  | Ep_Users
  | Ep_Node string
  | Ep_User string
  | Ep_Audit params
  | Ep_Stats string int "string option" "string option" "string option" "string option"
  | Ep_Builder_Meta
  | Ep_Meta
  | Ep_Probe
  | Ep_Verify
  | Ep_Refresh_Users
  | Ep_Build dict
  | Ep_Sync "string option"

text \<open>A route leads to an endpoint or answers with a status at once.\<close>

datatype route = To endpoint | Answer nat

definition one :: "params \<Rightarrow> string \<Rightarrow> string" where
  "one qs k = (case qs k of None \<Rightarrow> [] | Some v \<Rightarrow> v)"

definition int_param :: "params \<Rightarrow> string \<Rightarrow> string \<Rightarrow> int res" where
  "int_param qs k dflt = (case int_of_text (if one qs k = [] then dflt else one qs k) of
     None \<Rightarrow> Inl (ValueError (k @ '' must be an integer'')) | Some n \<Rightarrow> Inr n)"

definition named_path :: "string \<Rightarrow> string \<Rightarrow> string option" where
  "named_path prefix path =
     (let nm = drop (length prefix) path in if starts_with prefix path \<and> name_ok nm then Some nm else None)"

definition route_api_get :: "string \<Rightarrow> params \<Rightarrow> route res" where
  "route_api_get path qs =
     (if path = ''/api/overview'' then Inr (To Ep_Overview)
      else if path = ''/api/health'' \<or> path = ''/api/nodes'' then Inr (To Ep_Nodes)
      else if path = ''/api/operations'' then rbind (int_param qs ''limit'' ''100'') (\<lambda>l. Inr (To (Ep_Operations l)))
      else if path = ''/api/recipes'' then Inr (To Ep_Recipes)
      else if path = ''/api/users'' then Inr (To Ep_Users)
      else (case named_path ''/api/nodes/'' path of Some nm \<Rightarrow> Inr (To (Ep_Node nm)) | None \<Rightarrow>
        (case named_path ''/api/users/'' path of Some nm \<Rightarrow> Inr (To (Ep_User nm)) | None \<Rightarrow>
         if path = ''/api/audit'' then Inr (To (Ep_Audit qs))
         else if path = ''/api/stats/top'' then rbind (int_param qs ''days'' ''7'') (\<lambda>days.
           Inr (To (Ep_Stats (if one qs ''kind'' = [] then ''users'' else one qs ''kind'') days
             (ui_opt (one qs ''node'')) (ui_opt (one qs ''user'')) (ui_opt (one qs ''department''))
             (ui_opt (one qs ''destination'')))))
         else if path = ''/api/command-builder'' then Inr (To Ep_Builder_Meta)
         else if path = ''/api/meta'' then Inr (To Ep_Meta)
         else Inr (Answer 404))))"

definition FORBIDDEN_POSTS :: "string list" where
  "FORBIDDEN_POSTS = [''/api/user/add'', ''/api/user/rotate'', ''/api/user/import'', ''/api/node/add'',
     ''/api/node/retire'', ''/api/node/replace'', ''/api/restore'']"

definition route_api_post :: "string \<Rightarrow> dict \<Rightarrow> route res" where
  "route_api_post path body =
     (if path = ''/api/refresh/probe'' then Inr (To Ep_Probe)
      else if path = ''/api/refresh/verify'' then Inr (To Ep_Verify)
      else if path = ''/api/refresh/status'' then Inr (To Ep_Probe)
      else if path = ''/api/refresh/users'' then Inr (To Ep_Refresh_Users)
      else if path = ''/api/command-builder'' then Inr (To (Ep_Build body))
      else if path = ''/api/sync'' then
        (if has_key ''reseed'' body \<and> dget ''reseed'' body \<noteq> JNull \<and> dget ''reseed'' body \<noteq> JStr [] then Inr (Answer 400)
         else (case dget ''node'' body of
             JNull \<Rightarrow> Inr (To (Ep_Sync None))
           | JStr nm \<Rightarrow> if nm = [] then Inr (To (Ep_Sync None))
               else rbind (validate_name nm) (\<lambda>_. Inr (To (Ep_Sync (Some nm))))
           | _ \<Rightarrow> Inl (ValueError ''node must be a string'')))
      else Inr (Answer 404))"

definition FLEET_BUSY_EXIT :: int where "FLEET_BUSY_EXIT = 4"

definition error_status :: "bool \<Rightarrow> exc \<Rightarrow> nat" where
  "error_status is_get e = (case e of
     KeyError _ \<Rightarrow> if is_get then 404 else 500
   | ValueError _ \<Rightarrow> 400
   | SystemExit _ c \<Rightarrow> if c = FLEET_BUSY_EXIT then 409 else 400
   | _ \<Rightarrow> 500)"

definition run_route :: "(endpoint \<Rightarrow> 's \<Rightarrow> 's \<times> json res) \<Rightarrow> bool \<Rightarrow> route res \<Rightarrow> 's \<Rightarrow> 's \<times> reply" where
  "run_route run is_get r s = (case r of
     Inl e \<Rightarrow> (s, (error_status is_get e, None))
   | Inr (Answer c) \<Rightarrow> (s, (c, None))
   | Inr (To ep) \<Rightarrow> (case run ep s of
       (s', Inl e) \<Rightarrow> (s', (error_status is_get e, None))
     | (s', Inr j) \<Rightarrow> (s', (200, Some j))))"

text \<open>
  \<open>_serve_static\<close>: the path below the static directory, resolved by the file system \<open>resolve\<close> to
  the components of a real path (\<open>None\<close> for an error); served only inside the directory \<open>root\<close>.
\<close>

definition static_rel :: "string \<Rightarrow> string" where
  "static_rel path = (if path = [] \<or> path = ''/'' then ''index.html'' else dropWhile (\<lambda>c. c = CHR ''/'') path)"

definition serve_static :: "string list \<Rightarrow> (string \<Rightarrow> string list) \<Rightarrow> (string list \<Rightarrow> bool) \<Rightarrow> string \<Rightarrow> string list option" where
  "serve_static root resolve is_file path =
     (let rel = static_rel path in
      if ''..'' \<in> set (split_on CHR ''/'' rel) then None
      else (let target = resolve rel in
        if take (length root) target = root \<and> is_file target then Some target else None))"

text \<open>A request, with exceptions that leave the handler answered by 500.\<close>

definition handle_get :: "string \<Rightarrow> int \<Rightarrow> (string \<Rightarrow> string list option) \<Rightarrow> (endpoint \<Rightarrow> 's \<Rightarrow> 's \<times> json res)
    \<Rightarrow> http_request \<Rightarrow> 's \<Rightarrow> 's \<times> reply" where
  "handle_get tok port static run rq s =
     (case check_request_guards tok port rq False False of
        Inl e \<Rightarrow> (s, (500, None))
      | Inr (Some c) \<Rightarrow> (s, (c, None))
      | Inr None \<Rightarrow>
          if starts_with ''/api/'' (rq_path rq) then
            (case check_request_guards tok port rq True False of
               Inl e \<Rightarrow> (s, (500, None))
             | Inr (Some c) \<Rightarrow> (s, (c, None))
             | Inr None \<Rightarrow> run_route run True (route_api_get (rq_path rq) (rq_query rq)) s)
          else (s, (if static (rq_path rq) = None then 404 else 200, None)))"

definition handle_post :: "string \<Rightarrow> int \<Rightarrow> loads \<Rightarrow> (endpoint \<Rightarrow> 's \<Rightarrow> 's \<times> json res) \<Rightarrow> http_request \<Rightarrow> 's \<Rightarrow> 's \<times> reply" where
  "handle_post tok port loads run rq s =
     (case check_request_guards tok port rq False False of
        Inl e \<Rightarrow> (s, (500, None))
      | Inr (Some c) \<Rightarrow> (s, (c, None))
      | Inr None \<Rightarrow>
          if \<not> starts_with ''/api/'' (rq_path rq) then (s, (404, None))
          else (case check_request_guards tok port rq True True of
              Inl e \<Rightarrow> (s, (500, None))
            | Inr (Some c) \<Rightarrow> (s, (c, None))
            | Inr None \<Rightarrow>
                if rq_path rq \<in> set FORBIDDEN_POSTS \<or> starts_with ''/api/mutate'' (rq_path rq) then (s, (405, None))
                else run_route run False (rbind (read_json_body loads rq) (route_api_post (rq_path rq))) s))"

definition handle_request :: "string \<Rightarrow> int \<Rightarrow> loads \<Rightarrow> (string \<Rightarrow> string list option)
    \<Rightarrow> (endpoint \<Rightarrow> 's \<Rightarrow> 's \<times> json res) \<Rightarrow> http_request \<Rightarrow> 's \<Rightarrow> 's \<times> reply" where
  "handle_request tok port loads static run rq s = (case rq_method rq of
     GET \<Rightarrow> handle_get tok port static run rq s
   | POST \<Rightarrow> handle_post tok port loads run rq s
   | _ \<Rightarrow> (s, (405, None)))"

section \<open>Worker pool\<close>

text \<open>
  \<open>BoundedThreadingHTTPServer\<close>: a connection takes a slot or is refused with 503, its thread gives
  the slot back; a thread that could not be started gives it back at once.
\<close>

record pool =
  po_free :: nat
  po_running :: "nat list"
  po_refused :: "nat list"

datatype pool_event = Connect nat bool | Finish nat

definition pool_step :: "nat \<Rightarrow> pool_event \<Rightarrow> pool \<Rightarrow> pool" where
  "pool_step max_workers ev p = (case ev of
     Connect c started \<Rightarrow>
       (if po_free p = 0 then p\<lparr>po_refused := c # po_refused p\<rparr>
        else if started then p\<lparr>po_free := po_free p - 1, po_running := c # po_running p\<rparr>
        else p\<lparr>po_free := min max_workers (Suc (po_free p - 1))\<rparr>)
   | Finish c \<Rightarrow>
       (if c \<in> set (po_running p)
        then p\<lparr>po_free := min max_workers (Suc (po_free p)), po_running := remove1 c (po_running p)\<rparr> else p))"

definition new_pool :: "int \<Rightarrow> pool" where
  "new_pool max_workers = \<lparr>po_free = nat (max 1 max_workers), po_running = [], po_refused = []\<rparr>"

end
