(* ===== verification/UiBuilder.thy ===== *)
theory UiBuilder
  imports UiGuard Trust
begin

text \<open>
  What the local audit UI shows and writes of users, and its command builder
  (\<open>lib/vincula-ui/server.py\<close>): the users cache without credentials and the shell command of an
  operation, which the operator copies.
\<close>

section \<open>Users without credentials\<close>

definition node_has_active_credential :: "dict \<Rightarrow> json" where
  "node_has_active_credential node =
     (if has_key ''has_active_credential'' node
      then (let v = dget ''has_active_credential'' node in if v = JNull then JNull else JBool (truthy v))
      else if has_key ''active_credential_id'' node then JBool (truthy (dget ''active_credential_id'' node))
      else JNull)"

definition sanitize_user_node_for_ui :: "dict \<Rightarrow> dict" where
  "sanitize_user_node_for_ui node =
     [(''name'', dget ''name'' node), (''tag'', dget ''tag'' node), (''enabled'', dget ''enabled'' node),
      (''status'', dget ''status'' node), (''has_active_credential'', node_has_active_credential node)]
     @ (if has_key ''node_id'' node then [(''node_id'', dget ''node_id'' node)] else [])"

definition sanitize_user :: "dict \<Rightarrow> dict res" where
  "sanitize_user user = rbind (dicts_of (dget ''nodes'' user)) (\<lambda>nodes.
     Inr [(''tag'', dget ''tag'' user), (''user_id'', dget ''user_id'' user), (''display_name'', dget ''display_name'' user),
       (''department'', dget ''department'' user), (''source'', dget ''source'' user),
       (''nodes'', JList (map (\<lambda>n. JObj (sanitize_user_node_for_ui n)) nodes))])"

definition sanitize_users_for_ui :: "json \<Rightarrow> dict list res" where
  "sanitize_users_for_ui users = (case users of
     JList xs \<Rightarrow> rmap sanitize_user (concat (map (\<lambda>x. case x of JObj d \<Rightarrow> [d] | _ \<Rightarrow> []) xs))
   | _ \<Rightarrow> Inr [])"

text \<open>The users cache: its two places, the first readable object wins; a write replaces the first and drops the second.\<close>

record users_files =
  uf_cache :: "json option"
  uf_legacy :: "json option"

definition safe_payload :: "dict \<Rightarrow> dict res" where
  "safe_payload payload = rbind (sanitize_users_for_ui (dget ''users'' payload)) (\<lambda>us.
     Inr (AList.update ''users'' (JList (map JObj us)) payload))"

definition object_of :: "json option \<Rightarrow> dict option" where
  "object_of doc = (case doc of Some (JObj d) \<Rightarrow> Some d | _ \<Rightarrow> None)"

definition load_users_cache :: "users_files \<Rightarrow> dict option res" where
  "load_users_cache fs = (case (case object_of (uf_cache fs) of Some d \<Rightarrow> Some d | None \<Rightarrow> object_of (uf_legacy fs)) of
     None \<Rightarrow> Inr None
   | Some d \<Rightarrow> rbind (safe_payload d) (\<lambda>s. Inr (Some s)))"

definition write_users_cache :: "dict \<Rightarrow> users_files res" where
  "write_users_cache payload = rbind (safe_payload payload) (\<lambda>s. Inr \<lparr>uf_cache = Some (JObj s), uf_legacy = None\<rparr>)"

text \<open>
  \<open>migrate_users_cache\<close> at the start of the server: the cache of either place is rewritten without
  credentials; when its text still mentions one (\<open>dumps\<close> gives the text), only the known fields stay.
\<close>

definition trimmed_cache :: "dict \<Rightarrow> dict res" where
  "trimmed_cache safe =
     rbind (py_int (py_or (dget ''schema_version'' safe) (JInt 1))) (\<lambda>v.
     Inr [(''schema_version'', JInt v), (''ok'', dget ''ok'' safe), (''refreshed_at'', dget ''refreshed_at'' safe),
       (''users'', py_or (dget ''users'' safe) (JList [])), (''unreachable'', py_or (dget ''unreachable'' safe) (JList []))])"

definition migrate_users_cache :: "(json \<Rightarrow> string) \<Rightarrow> users_files \<Rightarrow> users_files res" where
  "migrate_users_cache dumps fs =
     (if uf_cache fs = None \<and> uf_legacy fs = None then Inr fs
      else (case (case object_of (uf_cache fs) of Some d \<Rightarrow> Some d | None \<Rightarrow> object_of (uf_legacy fs)) of
          None \<Rightarrow> Inr (fs\<lparr>uf_legacy := None\<rparr>)
        | Some d \<Rightarrow> rbind (safe_payload d) (\<lambda>s.
            if contains ''active_credential_id'' (dumps (JObj s))
            then rbind (trimmed_cache s) (\<lambda>t. Inr \<lparr>uf_cache = Some (JObj t), uf_legacy = None\<rparr>)
            else Inr \<lparr>uf_cache = Some (JObj s), uf_legacy = None\<rparr>)))"

section \<open>Command builder\<close>

text \<open>The fields of an operation with whether they are required.\<close>

definition builder_fields :: "string \<Rightarrow> (string \<times> bool) list option" where
  "builder_fields op =
     (if op \<in> {''adopt'', ''provision'', ''replace''} then Some [(''name'', True), (''host'', True), (''host_key'', True)]
      else if op = ''user_add''
      then Some [(''tag'', True), (''nodes'', True), (''display_name'', False), (''department'', False)]
      else if op = ''rotate'' then Some [(''tag'', True), (''node'', True)]
      else if op = ''restore'' then Some [(''file'', True)]
      else if op = ''reseed'' then Some [(''name'', True)]
      else None)"

definition builder_validate_name :: "string \<Rightarrow> string \<Rightarrow> string res" where
  "builder_validate_name kind raw =
     (let t = strip raw in
      if t = [] then Inl (ValueError (''missing required field: '' @ kind))
      else if \<not> name_ok t then Inl (ValueError (''invalid '' @ kind)) else Inr t)"

text \<open>A refusal of the fleet module, \<open>SystemExit\<close>, becomes a \<open>ValueError\<close>.\<close>

definition exit_to_value :: "string \<Rightarrow> 'a res \<Rightarrow> 'a res" where
  "exit_to_value msg r = (case r of Inl (SystemExit _ _) \<Rightarrow> Inl (ValueError msg) | _ \<Rightarrow> r)"

definition builder_validate_host :: "string \<Rightarrow> string res" where
  "builder_validate_host raw =
     (let t = strip raw in
      if t = [] then Inl (ValueError ''missing required field: host'')
      else exit_to_value ''invalid host'' (validate_ssh_host t))"

definition builder_validate_host_key :: "string \<Rightarrow> string res" where
  "builder_validate_host_key raw =
     (let t = strip raw in
      if t = [] then Inl (ValueError ''missing required field: host_key'')
      else exit_to_value ''invalid host_key'' (normalize_fingerprint t))"

definition node_part :: "string \<Rightarrow> string res" where
  "node_part p = (if p = [] then Inl (ValueError ''invalid nodes: empty entry'')
     else if \<not> name_ok p then Inl (ValueError ''invalid node name'') else Inr p)"

definition builder_validate_nodes_csv :: "string \<Rightarrow> string res" where
  "builder_validate_nodes_csv raw =
     (let t = strip raw in
      if t = [] then Inl (ValueError ''missing required field: nodes'')
      else rbind (rmap node_part (map strip (split_on CHR '','' t))) (\<lambda>ps. Inr (join '','' ps)))"

definition has_break :: "string \<Rightarrow> bool" where
  "has_break s = list_ex (\<lambda>c. code c = 0 \<or> code c = 10 \<or> code c = 13) s"

definition builder_validate_file :: "string \<Rightarrow> string res" where
  "builder_validate_file raw =
     (let t = strip raw in
      if t = [] then Inl (ValueError ''missing required field: file'')
      else if has_break t then Inl (ValueError ''invalid file path'') else Inr t)"

definition builder_value :: "string \<Rightarrow> string \<Rightarrow> string res" where
  "builder_value nm raw =
     (if nm \<in> {''name'', ''tag'', ''node''} then builder_validate_name nm raw
      else if nm = ''host'' then builder_validate_host raw
      else if nm = ''host_key'' then builder_validate_host_key raw
      else if nm = ''nodes'' then builder_validate_nodes_csv raw
      else if nm = ''file'' then builder_validate_file raw
      else if has_break raw then Inl (ValueError (''invalid '' @ nm)) else Inr raw)"

definition builder_field :: "dict \<Rightarrow> string \<times> bool \<Rightarrow> (string \<times> string) res" where
  "builder_field doc f =
     (let raw = strip (dict_text (fst f) doc) in
      if snd f \<and> raw = [] then Inl (ValueError (''missing required field: '' @ fst f))
      else if raw = [] then Inr (fst f, []) else rbind (builder_value (fst f) raw) (\<lambda>v. Inr (fst f, v)))"

definition value_of :: "(string \<times> string) list \<Rightarrow> string \<Rightarrow> string" where
  "value_of vs k = (case map_of vs k of None \<Rightarrow> [] | Some v \<Rightarrow> v)"

definition host_argv :: "string \<Rightarrow> (string \<times> string) list \<Rightarrow> string list" where
  "host_argv verb vs = [''vcl-fleet'', ''node'', verb, value_of vs ''name'', ''--host'', value_of vs ''host'',
     ''--host-key'', value_of vs ''host_key'']"

definition builder_argv :: "string \<Rightarrow> (string \<times> string) list \<Rightarrow> string list" where
  "builder_argv op vs =
     (if op \<in> {''adopt'', ''provision'', ''replace''} then host_argv op vs
      else if op = ''user_add'' then
        [''vcl-fleet'', ''user'', ''add'', value_of vs ''tag'', ''--nodes'', value_of vs ''nodes'']
        @ (if value_of vs ''display_name'' = [] then [] else [''--display-name'', value_of vs ''display_name''])
        @ (if value_of vs ''department'' = [] then [] else [''--department'', value_of vs ''department''])
      else if op = ''rotate'' then [''vcl-fleet'', ''user'', ''rotate'', value_of vs ''tag'', ''--node'', value_of vs ''node'']
      else if op = ''restore'' then [''vcl-fleet'', ''audit'', ''archive'', ''restore'', value_of vs ''file'']
      else [''vcl-fleet'', ''sync'', ''--reseed'', value_of vs ''name''])"

record built_command =
  bc_operation :: string
  bc_command :: string
  bc_argv :: "string list"

definition api_command_build :: "dict \<Rightarrow> built_command res" where
  "api_command_build body =
     (let op = strip (dict_text ''operation'' body) in
      (case builder_fields op of
         None \<Rightarrow> Inl (ValueError ''unknown operation'')
       | Some fs \<Rightarrow> (case py_or (dget ''fields'' body) (JObj []) of
           JObj doc \<Rightarrow> rbind (rmap (builder_field doc) fs) (\<lambda>vs.
             let argv = builder_argv op vs in
             Inr \<lparr>bc_operation = op, bc_command = shlex_join argv, bc_argv = argv\<rparr>)
         | _ \<Rightarrow> Inl (ValueError ''fields must be an object''))))"

end
