(* ===== verification/UiProps.thy ===== *)
theory UiProps
  imports UiQueryProps UiBuilder
begin

text \<open>
  The local audit UI acts only on guarded requests, its pool of workers is bounded, no credential
  reaches the users it shows or writes, and the commands it builds are what the shell runs.
\<close>

section \<open>Guards\<close>

text \<open>A request that may reach an API endpoint.\<close>

definition trusted_request :: "string \<Rightarrow> int \<Rightarrow> http_request \<Rightarrow> bool" where
  "trusted_request tok port rq \<longleftrightarrow>
     (\<exists>h nm p. rq_host rq = Some h \<and> parse_host_header h = Some (nm, p)
        \<and> lower nm \<in> {''127.0.0.1'', ''localhost'', ''::1''} \<and> p \<in> {None, Some port})
     \<and> tok \<noteq> [] \<and> rq_token rq = Some tok
     \<and> (rq_method rq = GET \<or> rq_method rq = POST \<and> content_type_is_json (rq_ctype rq)
          \<and> (rq_origin rq \<in> {None, Some []} \<or> rq_origin rq \<in> Some ` set (allowed_origins port)))"

definition post_endpoint :: "endpoint \<Rightarrow> bool" where
  "post_endpoint ep \<longleftrightarrow> (case ep of Ep_Probe \<Rightarrow> True | Ep_Verify \<Rightarrow> True | Ep_Refresh_Users \<Rightarrow> True
     | Ep_Build _ \<Rightarrow> True | Ep_Sync _ \<Rightarrow> True | _ \<Rightarrow> False)"

lemma host_allowed:
  assumes "host_header_allowed h port"
  shows "\<exists>nm p. parse_host_header h = Some (nm, p) \<and> lower nm \<in> {''127.0.0.1'', ''localhost'', ''::1''} \<and> p \<in> {None, Some port}"
  using assms by (auto simp: host_header_allowed_def split: option.splits) (metis option.exhaust)+

lemma empty_host: "parse_host_header [] = None"
  by (simp add: parse_host_header_def strip_def lstrip_def rstrip_def)

lemma refusal_status: "check_request_guards tok port rq api post = Inr (Some c) \<Longrightarrow> c \<noteq> 200"
  by (auto simp: check_request_guards_def res_simps split: if_split_asm)

lemma guards_pass:
  assumes "check_request_guards tok port rq True is_post = Inr None"
    and "is_post \<longleftrightarrow> rq_method rq = POST" "rq_method rq \<in> {GET, POST}"
  shows "trusted_request tok port rq"
proof -
  from assms(1) have h: "host_header_allowed (case rq_host rq of None \<Rightarrow> [] | Some h \<Rightarrow> h) port"
    and t: "token_ok tok (case rq_token rq of None \<Rightarrow> [] | Some t \<Rightarrow> t) = Inr True"
    and p: "is_post \<longrightarrow> content_type_is_json (rq_ctype rq)
      \<and> (nonempty (rq_origin rq) \<longrightarrow> the (rq_origin rq) \<in> set (allowed_origins port))"
    by (auto simp: check_request_guards_def res_simps split: if_split_asm)
  obtain hd where hd: "rq_host rq = Some hd"
    using h by (cases "rq_host rq") (auto simp: host_header_allowed_def empty_host)
  have "tok \<noteq> []" and "rq_token rq = Some tok"
    using t by (auto simp: token_ok_def split: if_splits option.splits)
  moreover have "rq_origin rq \<in> {None, Some []} \<or> rq_origin rq \<in> Some ` set (allowed_origins port)" if is_post
    using p that by (cases "rq_origin rq") (auto simp: nonempty_def)
  ultimately show ?thesis
    using host_allowed [of hd port] h hd p assms(2,3) by (auto simp: trusted_request_def)
qed

lemma run_route_cases:
  assumes "run_route run g r s = (s', rep)" and that: "\<forall>c. r = Inr (Answer c) \<longrightarrow> c \<noteq> 200"
  shows "(\<exists>ep res. r = Inr (To ep) \<and> run ep s = (s', res)) \<or> (s' = s \<and> fst rep \<noteq> 200)"
proof (cases r)
  case (Inl e)
  then show ?thesis using assms by (auto simp: run_route_def error_status_def split: exc.splits if_splits)
next
  case (Inr rt)
  then show ?thesis using assms that by (cases rt) (auto simp: run_route_def split: prod.splits sum.splits)
qed

text \<open>Every route of a method leads to an endpoint of that method or to a refusal.\<close>

definition routes_to :: "(endpoint \<Rightarrow> bool) \<Rightarrow> route res \<Rightarrow> bool" where
  "routes_to P r \<longleftrightarrow> (case r of Inl _ \<Rightarrow> True | Inr (To ep) \<Rightarrow> P ep | Inr (Answer c) \<Rightarrow> c \<noteq> 200)"

lemma routes_to_if: "routes_to P x \<Longrightarrow> routes_to P y \<Longrightarrow> routes_to P (if c then x else y)"
  by simp

lemma routes_to_option: "routes_to P x \<Longrightarrow> (\<And>v. routes_to P (f v)) \<Longrightarrow> routes_to P (case o' of None \<Rightarrow> x | Some v \<Rightarrow> f v)"
  by (simp split: option.split)

lemma routes_to_bind: "(\<And>v. routes_to P (f v)) \<Longrightarrow> routes_to P (rbind m f)"
  by (cases m) (simp_all add: routes_to_def)

lemma routes_to_values: "routes_to P (Inl e)" "P ep \<Longrightarrow> routes_to P (Inr (To ep))" "c \<noteq> 200 \<Longrightarrow> routes_to P (Inr (Answer c))"
  by (simp_all add: routes_to_def)

lemmas routes_to_rules = routes_to_if routes_to_option routes_to_bind routes_to_values

lemma post_routes: "routes_to post_endpoint (route_api_post path body)"
proof -
  have "routes_to post_endpoint (case v of JNull \<Rightarrow> Inr (To (Ep_Sync None))
      | JStr nm \<Rightarrow> if nm = [] then Inr (To (Ep_Sync None)) else rbind (validate_name nm) (\<lambda>_. Inr (To (Ep_Sync (Some nm))))
      | _ \<Rightarrow> Inl (ValueError ''node must be a string''))" for v
    by (cases v) (auto intro!: routes_to_rules simp: post_endpoint_def)
  then show ?thesis
    unfolding route_api_post_def by (intro routes_to_rules) (simp_all add: post_endpoint_def)
qed

lemma get_routes: "routes_to (\<lambda>ep. \<not> post_endpoint ep) (route_api_get path qs)"
  unfolding route_api_get_def by (intro routes_to_rules) (simp_all add: post_endpoint_def)

section \<open>Credentials\<close>

text \<open>
  Forgetting credentials: in the users of a document, each \<open>active_credential_id\<close> is replaced by
  whether there is one.
\<close>

definition erase_node :: "json \<Rightarrow> json" where
  "erase_node n = (case n of
     JObj d \<Rightarrow> JObj (map (\<lambda>(k, v). (k, if k = ''active_credential_id'' then JBool (truthy v) else v)) d) | v \<Rightarrow> v)"

definition erase_user :: "json \<Rightarrow> json" where
  "erase_user u = (case u of
     JObj d \<Rightarrow> JObj (map (\<lambda>(k, v). (k, if k = ''nodes'' then (case v of JList ns \<Rightarrow> JList (map erase_node ns) | w \<Rightarrow> w) else v)) d)
   | v \<Rightarrow> v)"

definition erase_users :: "json \<Rightarrow> json" where
  "erase_users v = (case v of JList us \<Rightarrow> JList (map erase_user us) | w \<Rightarrow> w)"

definition erase_payload :: "dict \<Rightarrow> dict" where
  "erase_payload d = map (\<lambda>(k, v). (k, if k = ''users'' then erase_users v else v)) d"

definition erase_doc :: "json option \<Rightarrow> json option" where
  "erase_doc doc = (case doc of Some (JObj d) \<Rightarrow> Some (JObj (erase_payload d)) | v \<Rightarrow> v)"

definition erase_files :: "users_files \<Rightarrow> users_files" where
  "erase_files fs = \<lparr>uf_cache = erase_doc (uf_cache fs), uf_legacy = erase_doc (uf_legacy fs)\<rparr>"

lemma dget_map_at:
  "dget k (map (\<lambda>(k', v). (k', if k' = a then f v else v)) d)
    = (if k = a \<and> has_key k d then f (dget k d) else dget k d)"
  by (induction d) auto

lemma has_key_map_at [simp]: "has_key k (map (\<lambda>(k', v). (k', if k' = a then f v else v)) d) = has_key k d"
  by (induction d) auto

lemma no_key_dget: "\<not> has_key k d \<Longrightarrow> dget k d = JNull"
  by (induction d) auto

lemma sanitize_erased_node:
  "sanitize_user_node_for_ui (map (\<lambda>(k, v). (k, if k = ''active_credential_id'' then JBool (truthy v) else v)) d)
    = sanitize_user_node_for_ui d"
  by (simp add: sanitize_user_node_for_ui_def node_has_active_credential_def dget_map_at Let_def)

definition dict_list :: "json list \<Rightarrow> dict list" where
  "dict_list xs = concat (map (\<lambda>x. case x of JObj d \<Rightarrow> [d] | _ \<Rightarrow> []) xs)"

lemma sanitize_erased_nodes:
  "map (\<lambda>n. JObj (sanitize_user_node_for_ui n)) (dict_list (map erase_node xs))
    = map (\<lambda>n. JObj (sanitize_user_node_for_ui n)) (dict_list xs)"
  by (induction xs) (auto simp: dict_list_def erase_node_def sanitize_erased_node split: json.split)

lemma dicts_of_erased:
  "(\<exists>e. dicts_of (case v of JList ns \<Rightarrow> JList (map erase_node ns) | w \<Rightarrow> w) = Inl e \<and> dicts_of v = Inl e)
    \<or> (\<exists>ds ds'. dicts_of (case v of JList ns \<Rightarrow> JList (map erase_node ns) | w \<Rightarrow> w) = Inr ds' \<and> dicts_of v = Inr ds
        \<and> map (\<lambda>n. JObj (sanitize_user_node_for_ui n)) ds' = map (\<lambda>n. JObj (sanitize_user_node_for_ui n)) ds)"
proof (cases v)
  case (JList xs)
  then show ?thesis using sanitize_erased_nodes [of xs] by (simp add: dicts_of_def dict_list_def)
qed (auto simp: dicts_of_def)

lemma sanitize_erased_user:
  "sanitize_user (map (\<lambda>(k, v). (k, if k = ''nodes'' then (case v of JList ns \<Rightarrow> JList (map erase_node ns) | w \<Rightarrow> w) else v)) d)
    = sanitize_user d"
proof (cases "has_key ''nodes'' d")
  case True
  then show ?thesis using dicts_of_erased [of "dget ''nodes'' d"]
    by (auto simp: sanitize_user_def dget_map_at)
next
  case False
  then show ?thesis by (simp add: sanitize_user_def dget_map_at)
qed

lemma sanitize_erased: "sanitize_users_for_ui (erase_users v) = sanitize_users_for_ui v"
proof (cases v)
  case (JList xs)
  have "rmap sanitize_user (dict_list (map erase_user xs)) = rmap sanitize_user (dict_list xs)"
  proof (induction xs)
    case (Cons x xs)
    then show ?case
      by (cases x) (simp_all add: dict_list_def erase_user_def sanitize_erased_user)
  qed simp
  then show ?thesis by (simp add: JList sanitize_users_for_ui_def erase_users_def dict_list_def)
qed (simp_all add: sanitize_users_for_ui_def erase_users_def)

lemma update_users_erased:
  "distinct (map fst d) \<Longrightarrow> AList.update ''users'' w (erase_payload d) = AList.update ''users'' w d"
proof (induction d)
  case (Cons p d)
  obtain k v where p: "p = (k, v)" by (cases p)
  have "erase_payload d = d" if "k = ''users''"
    using Cons.prems that unfolding erase_payload_def by (intro map_idI) (force simp: p)
  then show ?case using Cons by (auto simp: p erase_payload_def)
qed (simp add: erase_payload_def)

lemma safe_payload_erased: "distinct (map fst d) \<Longrightarrow> safe_payload (erase_payload d) = safe_payload d"
  unfolding safe_payload_def update_users_erased
  by (cases "has_key ''users'' d")
    (simp_all add: erase_payload_def dget_map_at sanitize_erased)

lemma object_of_erased:
  "object_of (erase_doc doc) = map_option erase_payload (object_of doc)"
  by (auto simp: object_of_def erase_doc_def split: option.splits json.splits)

lemma erase_doc_None: "erase_doc doc = None \<longleftrightarrow> doc = None"
  by (auto simp: erase_doc_def split: option.splits json.splits)

lemma erase_doc_no_object: "object_of doc = None \<Longrightarrow> erase_doc doc = doc"
  by (auto simp: object_of_def erase_doc_def split: option.splits json.splits)

section \<open>Commands\<close>

text \<open>A word that no option parser takes for an option.\<close>

definition operand :: "string \<Rightarrow> bool" where
  "operand w \<longleftrightarrow> w \<noteq> [] \<and> hd w \<noteq> CHR ''-''"

lemma name_ok_operand: "name_ok v \<Longrightarrow> operand v"
  by (cases v) (auto simp: name_ok_def operand_def is_lower_def is_digit_def code_def)

lemma ipv4_operand: "is_ipv4 h \<Longrightarrow> operand h"
  by (cases h) (auto simp: is_ipv4_def Let_def operand_def ipv4_octet_def is_digit_def code_def split: list.splits if_splits)

lemma dns_operand:
  assumes "is_dns_hostname h" shows "operand h"
proof -
  define nm where "nm = (if ends_with ''.'' h then butlast h else h)"
  have nm: "nm \<noteq> []" "list_all label_re (split_on CHR ''.'' nm)"
    using assms by (simp_all add: is_dns_hostname_def Let_def nm_def)
  have "hd nm \<noteq> CHR ''-''"
    using nm by (cases nm) (auto simp: label_re_def alnum_def is_lower_def is_upper_def is_digit_def code_def
        split: list.splits if_splits)
  moreover have "hd nm = hd h \<and> h \<noteq> []"
    using nm(1) by (cases h) (auto simp: nm_def split: if_splits)
  ultimately show ?thesis by (simp add: operand_def)
qed

lemma ipv6_groups_first: "ipv6_groups ps \<Longrightarrow> ps ! 0 = [] \<or> hextet (ps ! 0)"
proof -
  assume g: "ipv6_groups ps"
  define n where "n = length ps"
  define gaps where "gaps = filter (\<lambda>i. ps ! i = []) [1..<n - 1]"
  have n: "3 \<le> n" using g by (simp add: ipv6_groups_def Let_def n_def)
  show ?thesis
  proof (cases gaps)
    case Nil
    then have "list_all hextet ps" using g by (simp add: ipv6_groups_def Let_def gaps_def n_def)
    then show ?thesis using n by (auto simp: list_all_length n_def dest!: spec [of _ 0])
  next
    case (Cons k ks)
    have "k \<in> set gaps" by (simp add: Cons)
    then have k: "1 \<le> k" "k < n" by (auto simp: gaps_def)
    show ?thesis
    proof (cases ks)
      case Nil
      then have "ps ! 0 \<noteq> [] \<longrightarrow> list_all hextet (take k ps)"
        using g Cons by (auto simp: ipv6_groups_def Let_def gaps_def n_def)
      then show ?thesis using k by (auto simp: list_all_length n_def dest: spec [of _ 0])
    next
      case (Cons k' ks')
      then show ?thesis using g \<open>gaps = k # ks\<close> by (simp add: ipv6_groups_def Let_def gaps_def n_def)
    qed
  qed
qed

lemma ipv6_operand:
  assumes "is_ipv6 h" shows "operand h"
proof -
  define addr where "addr = takeWhile (\<lambda>c. c \<noteq> CHR ''%'') h"
  define ps where "ps = split_on CHR '':'' addr"
  have a: "is_ipv6_plain addr" using assms by (simp add: is_ipv6_def Let_def addr_def)
  then have ne: "addr \<noteq> []" and l: "3 \<le> length ps"
    by (simp_all add: is_ipv6_plain_def Let_def ps_def)
  have "ps ! 0 = [] \<or> hextet (ps ! 0)"
  proof (cases "CHR ''.'' \<in> set (last ps)")
    case True
    then have "ipv6_groups (butlast ps @ [''0'', ''0''])" using a by (simp add: is_ipv6_plain_def Let_def ps_def)
    from ipv6_groups_first [OF this] show ?thesis using l by (simp add: nth_append nth_butlast)
  next
    case False
    then have "ipv6_groups ps" using a by (simp add: is_ipv6_plain_def Let_def ps_def)
    then show ?thesis by (rule ipv6_groups_first)
  qed
  then have "hd addr \<noteq> CHR ''-''"
    using ne by (cases addr) (auto simp: ps_def hextet_def is_hex_def is_digit_def code_def split: list.splits if_splits)
  then show ?thesis
    using ne by (cases h) (auto simp: operand_def addr_def split: if_splits)
qed

lemma host_operand: "validate_ssh_host t = Inr v \<Longrightarrow> operand v"
  using validate_ssh_host_Inr ipv4_operand ipv6_operand dns_operand by (metis is_ip_address_def)

lemma exit_to_value_Inr [simp]: "exit_to_value msg r = Inr v \<longleftrightarrow> r = Inr v"
  by (auto simp: exit_to_value_def split: sum.splits exc.splits)

lemma fingerprint_operand: "normalize_fingerprint t = Inr v \<Longrightarrow> operand v"
  by (auto simp: normalize_fingerprint_def Let_def die_def operand_def split: if_splits)

lemma nodes_operand:
  assumes "builder_validate_nodes_csv raw = Inr v" shows "operand v"
proof -
  from assms obtain ps where ps: "rmap node_part (map strip (split_on CHR '','' (strip raw))) = Inr ps" "v = join '','' ps"
    by (auto simp: builder_validate_nodes_csv_def Let_def res_simps split: if_splits)
  have "length ps = length (split_on CHR '','' (strip raw))" using rmap_Inr_length [OF ps(1)] by simp
  then obtain q qs where q: "ps = q # qs" by (cases ps) auto
  from rmap_Inr_set [OF ps(1), of q] q have "operand q"
    by (auto simp: node_part_def name_ok_operand split: if_splits)
  then show ?thesis by (cases qs) (simp_all add: ps(2) q operand_def hd_append)
qed

lemma builder_value_operand:
  assumes "builder_value k raw = Inr v" and "k \<notin> {''file'', ''display_name'', ''department''}"
    and "k \<in> {''name'', ''tag'', ''node'', ''host'', ''host_key'', ''nodes''}"
  shows "operand v"
proof -
  consider "k \<in> {''name'', ''tag'', ''node''}" | "k = ''host''" | "k = ''host_key''" | "k = ''nodes''"
    using assms(3) by blast
  then show ?thesis
  proof cases
    case 1
    then have "builder_validate_name k raw = Inr v" using assms(1) by (simp add: builder_value_def)
    then show ?thesis by (auto simp: builder_validate_name_def Let_def name_ok_operand split: if_splits)
  next
    case 2
    then have "builder_validate_host raw = Inr v" using assms(1) by (simp add: builder_value_def)
    then show ?thesis by (auto simp: builder_validate_host_def Let_def host_operand split: if_splits)
  next
    case 3
    then have "builder_validate_host_key raw = Inr v" using assms(1) by (simp add: builder_value_def)
    then show ?thesis by (auto simp: builder_validate_host_key_def Let_def fingerprint_operand split: if_splits)
  next
    case 4
    then show ?thesis using assms(1) nodes_operand by (simp add: builder_value_def)
  qed
qed

lemma builder_fields_names:
  assumes "builder_fields op = Some fs" and "(k, req) \<in> set fs"
  shows "k \<in> {''name'', ''tag'', ''node'', ''host'', ''host_key'', ''nodes''} \<longleftrightarrow> k \<notin> {''file'', ''display_name'', ''department''}"
    "k \<in> {''name'', ''tag'', ''node'', ''host'', ''host_key'', ''nodes''} \<Longrightarrow> req" "distinct (map fst fs)"
  using assms by (auto simp: builder_fields_def split: if_splits)

lemma builder_field_Inr:
  assumes "builder_field doc (k, req) = Inr kv"
  shows "fst kv = k" "req \<Longrightarrow> \<exists>raw. builder_value k raw = Inr (snd kv)"
  using assms by (auto simp: builder_field_def Let_def res_simps split: if_splits)

lemma build_cases:
  assumes "api_command_build body = Inr b"
  shows "\<exists>fs vs doc. builder_fields (bc_operation b) = Some fs \<and> rmap (builder_field doc) fs = Inr vs
    \<and> bc_argv b = builder_argv (bc_operation b) vs \<and> bc_command b = shlex_join (bc_argv b)"
  using assms by (auto simp: api_command_build_def Let_def res_simps split: option.splits json.splits) blast

section \<open>Properties\<close>

text \<open>
  C39: Whatever request arrives, an endpoint of the UI runs only for a trusted one: a loopback Host with
  the right port, the session's non-empty token, and for POST a JSON body with no foreign Origin.  Any
  other request leaves the state unchanged and is refused; and the endpoints that refresh, sync or
  build a command run for POST only.
\<close>

theorem ui_acts_on_trusted_requests:
  assumes "handle_request tok port loads static run rq s = (s', rep)"
    and "s' \<noteq> s \<or> (starts_with ''/api/'' (rq_path rq) \<and> fst rep = 200)"
  shows "trusted_request tok port rq
    \<and> (\<exists>ep res. run ep s = (s', res) \<and> (post_endpoint ep \<longleftrightarrow> rq_method rq = POST))"
proof (cases "rq_method rq")
  case GET
  have r: "handle_get tok port static run rq s = (s', rep)"
    using assms(1) by (simp add: handle_request_def GET)
  have g: "check_request_guards tok port rq True False = Inr None"
    and rt: "run_route run True (route_api_get (rq_path rq) (rq_query rq)) s = (s', rep)"
    using r assms(2) by (auto simp: handle_get_def split: sum.splits option.splits if_splits dest: refusal_status)
  have "\<forall>c. route_api_get (rq_path rq) (rq_query rq) = Inr (Answer c) \<longrightarrow> c \<noteq> 200"
    using get_routes [of "rq_path rq" "rq_query rq"] by (auto simp: routes_to_def)
  from run_route_cases [OF rt this] obtain ep res where "route_api_get (rq_path rq) (rq_query rq) = Inr (To ep)"
    and "run ep s = (s', res)" using assms(2) by auto
  then show ?thesis using guards_pass [OF g] get_routes [of "rq_path rq" "rq_query rq"]
    by (auto simp: GET routes_to_def)
next
  case POST
  have r: "handle_post tok port loads run rq s = (s', rep)"
    using assms(1) by (simp add: handle_request_def POST)
  let ?r = "rbind (read_json_body loads rq) (route_api_post (rq_path rq))"
  have rp: "routes_to post_endpoint ?r" by (rule routes_to_bind) (rule post_routes)
  have g: "check_request_guards tok port rq True True = Inr None" and rt: "run_route run False ?r s = (s', rep)"
    using r assms(2) by (auto simp: handle_post_def split: sum.splits option.splits if_splits dest: refusal_status)
  have "\<forall>c. ?r = Inr (Answer c) \<longrightarrow> c \<noteq> 200"
    using rp by (auto simp: routes_to_def)
  from run_route_cases [OF rt this] obtain ep res where "?r = Inr (To ep)" "run ep s = (s', res)"
    using assms(2) by auto
  then show ?thesis using guards_pass [OF g] rp by (auto simp: POST routes_to_def)
qed (use assms in \<open>auto simp: handle_request_def\<close>)

text \<open>A counting state: a sync adds one.\<close>

definition ex_ui_run :: "endpoint \<Rightarrow> nat \<Rightarrow> nat \<times> json res" where
  "ex_ui_run ep s = (case ep of Ep_Sync _ \<Rightarrow> (Suc s, Inr JNull) | _ \<Rightarrow> (s, Inr JNull))"

definition ex_ui_request :: http_request where
  "ex_ui_request = \<lparr>rq_method = POST, rq_path = ''/api/sync'', rq_query = (\<lambda>_. None), rq_host = Some ''LocalHost:80'',
     rq_token = Some ''t0k'', rq_ctype = Some ''application/json; charset=utf-8'', rq_origin = Some ''http://127.0.0.1:80'',
     rq_length = Some ''2'', rq_body = ''{}''\<rparr>"

lemma ui_acts_on_trusted_requests_witness:
  "trusted_request ''t0k'' 80 ex_ui_request
    \<and> (\<exists>ep res. ex_ui_run ep 0 = (1, res) \<and> (post_endpoint ep \<longleftrightarrow> rq_method ex_ui_request = POST))"
proof -
  have h: "handle_request ''t0k'' 80 (\<lambda>_. Some (JObj [])) (\<lambda>_. None) ex_ui_run ex_ui_request 0 = (1, (200, Some JNull))"
    by code_simp
  show ?thesis by (rule ui_acts_on_trusted_requests [OF h]) simp
qed

lemma pool_step_keeps:
  assumes "po_free p + length (po_running p) = m"
  shows "po_free (pool_step m ev p) + length (po_running (pool_step m ev p)) = m"
proof (cases ev)
  case (Connect c started)
  then show ?thesis using assms by (cases "po_free p") (simp_all add: pool_step_def)
next
  case (Finish c)
  then show ?thesis using assms length_pos_if_in_set [of c "po_running p"]
    by (cases "c \<in> set (po_running p)") (simp_all add: pool_step_def length_remove1)
qed

lemma pool_fold_keeps:
  "po_free p + length (po_running p) = m \<Longrightarrow>
    po_free (fold (pool_step m) evs p) + length (po_running (fold (pool_step m) evs p)) = m"
proof (induction evs arbitrary: p)
  case (Cons ev evs)
  show ?case using Cons.IH [OF pool_step_keeps [OF Cons.prems]] by simp
qed simp

text \<open>
  Over any sequence of connections and finished threads, free slots and running workers add up to the
  configured maximum (at least one): no slot is lost, and never more workers run.
\<close>

theorem pool_keeps_slots:
  "let p = fold (pool_step (nat (max 1 n))) evs (new_pool n) in po_free p + length (po_running p) = nat (max 1 n)"
proof -
  have "po_free (new_pool n) + length (po_running (new_pool n)) = nat (max 1 n)"
    by (simp add: new_pool_def)
  then have "po_free (fold (pool_step (nat (max 1 n))) evs (new_pool n))
      + length (po_running (fold (pool_step (nat (max 1 n))) evs (new_pool n))) = nat (max 1 n)"
    by (rule pool_fold_keeps)
  then show ?thesis unfolding Let_def .
qed

text \<open>
  No credential reaches the users cache or the readers of it: reading it, writing it and migrating an
  old one depend only on whether a node has a credential, never on which.
\<close>

theorem credentials_stay_out:
  assumes "\<forall>d. object_of (uf_cache fs) = Some d \<or> object_of (uf_legacy fs) = Some d \<or> payload = d \<longrightarrow> distinct (map fst d)"
  shows "load_users_cache (erase_files fs) = load_users_cache fs
    \<and> migrate_users_cache dumps (erase_files fs) = migrate_users_cache dumps fs
    \<and> write_users_cache (erase_payload payload) = write_users_cache payload"
proof (intro conjI)
  show "load_users_cache (erase_files fs) = load_users_cache fs"
    using assms by (auto simp: load_users_cache_def erase_files_def object_of_erased safe_payload_erased split: option.splits)
  show "migrate_users_cache dumps (erase_files fs) = migrate_users_cache dumps fs"
    using assms by (auto simp: migrate_users_cache_def erase_files_def object_of_erased safe_payload_erased
        erase_doc_None erase_doc_no_object split: option.splits)
  show "write_users_cache (erase_payload payload) = write_users_cache payload"
    using assms by (simp add: write_users_cache_def safe_payload_erased)
qed

text \<open>Two documents that differ in a credential only.\<close>

definition ex_cache_doc :: "string \<Rightarrow> dict" where
  "ex_cache_doc cred = [(''users'', JList [JObj [(''tag'', JStr ''ann''), (''nodes'', JList [JObj [(''name'', JStr ''n1''),
     (''active_credential_id'', JStr cred)]])]])]"

lemma credentials_stay_out_witness:
  "load_users_cache \<lparr>uf_cache = Some (JObj (ex_cache_doc ''s3cret'')), uf_legacy = None\<rparr>
    = load_users_cache \<lparr>uf_cache = Some (JObj (ex_cache_doc ''other'')), uf_legacy = None\<rparr>
   \<and> write_users_cache (ex_cache_doc ''s3cret'') = write_users_cache (ex_cache_doc ''other'')"
proof -
  let ?f = "\<lambda>c. \<lparr>uf_cache = Some (JObj (ex_cache_doc c)), uf_legacy = None\<rparr>"
  have same: "erase_payload (ex_cache_doc ''s3cret'') = erase_payload (ex_cache_doc ''other'')" by code_simp
  then have files: "erase_files (?f ''s3cret'') = erase_files (?f ''other'')"
    by (simp add: erase_files_def erase_doc_def)
  have d: "\<forall>d. object_of (uf_cache (?f c)) = Some d \<or> object_of (uf_legacy (?f c)) = Some d \<or> ex_cache_doc c = d
      \<longrightarrow> distinct (map fst d)" for c
    by (simp add: object_of_def ex_cache_doc_def)
  show ?thesis
    using credentials_stay_out [OF d [of "''s3cret''"]] credentials_stay_out [OF d [of "''other''"]] files same by metis
qed

text \<open>
  C40: The command that the builder shows is what a shell runs: split by the shell it is the argument list,
  which is the operation's fixed words with the checked values, and a name, tag, node list, host or
  host key is never empty and never taken for an option.
\<close>

theorem built_command_runs_as_shown:
  assumes "api_command_build body = Inr b"
  shows "sh_words Between [] (bc_command b) = Some (bc_argv b)
    \<and> (\<exists>fs vs. builder_fields (bc_operation b) = Some fs \<and> bc_argv b = builder_argv (bc_operation b) vs
        \<and> (\<forall>k \<in> {''name'', ''tag'', ''node'', ''host'', ''host_key'', ''nodes''}.
            k \<in> set (map fst fs) \<longrightarrow> operand (value_of vs k)))"
proof -
  from build_cases [OF assms] obtain fs vs doc where fs: "builder_fields (bc_operation b) = Some fs"
    and vs: "rmap (builder_field doc) fs = Inr vs" and argv: "bc_argv b = builder_argv (bc_operation b) vs"
    and cmd: "bc_command b = shlex_join (bc_argv b)" by blast
  have "operand (value_of vs k)"
    if k: "k \<in> {''name'', ''tag'', ''node'', ''host'', ''host_key'', ''nodes''}" "k \<in> set (map fst fs)" for k
  proof -
    have keys: "map fst vs = map fst fs"
      by (rule rmap_image [OF vs]) (use builder_field_Inr(1) in fastforce)
    then have "k \<in> set (map fst vs)" using k(2) by simp
    then obtain v where kv: "map_of vs k = Some v" by (metis map_of_eq_None_iff not_None_eq set_map)
    then have "(k, v) \<in> set vs" by (rule map_of_SomeD)
    from rmap_Inr_set [OF vs this] obtain f where f: "f \<in> set fs" "builder_field doc f = Inr (k, v)" by blast
    then have fk: "f = (k, snd f)" using builder_field_Inr(1) [of doc "fst f" "snd f" "(k, v)"]
      by (metis fst_conv prod.collapse)
    then have "snd f" using builder_fields_names(2) [OF fs] f(1) k(1) by metis
    then obtain raw where "builder_value k raw = Inr v"
      using builder_field_Inr(2) [of doc k "snd f" "(k, v)"] f(2) fk by fastforce
    then show ?thesis using builder_value_operand [of k raw v] k(1) by (auto simp: value_of_def kv)
  qed
  then show ?thesis using fs argv cmd sh_words_join by auto
qed

definition ex_build :: dict where
  "ex_build = [(''operation'', JStr ''restore''), (''fields'', JObj [(''file'', JStr ''my $(id) file'')])]"

lemma built_command_runs_as_shown_witness:
  "\<exists>b. api_command_build ex_build = Inr b
    \<and> bc_argv b = [''vcl-fleet'', ''audit'', ''archive'', ''restore'', ''my $(id) file'']
    \<and> sh_words Between [] (bc_command b) = Some [''vcl-fleet'', ''audit'', ''archive'', ''restore'', ''my $(id) file'']"
proof -
  have "case api_command_build ex_build of Inl _ \<Rightarrow> False
      | Inr b \<Rightarrow> bc_argv b = [''vcl-fleet'', ''audit'', ''archive'', ''restore'', ''my $(id) file'']" by code_simp
  then obtain b where b: "api_command_build ex_build = Inr b"
    "bc_argv b = [''vcl-fleet'', ''audit'', ''archive'', ''restore'', ''my $(id) file'']" by (auto split: sum.splits)
  from built_command_runs_as_shown [OF b(1)] show ?thesis unfolding b(2) using b by blast
qed

end
