(* ===== verification/FleetProbe.thy ===== *)
theory FleetProbe
  imports FleetUsers AuditExport
begin

text \<open>
  Node health as the controller reports it (\<open>lib/vincula-fleet.py\<close>): the clock comparison, the probe
  of a node, the commands \<open>probe\<close>, \<open>verify\<close> and \<open>status\<close> with the cache they write and read.

  \<open>ask cls n argv\<close> is the captured run of \<open>argv\<close> on node \<open>n\<close> with the credentials of class
  \<open>cls\<close>, an exception where these cannot be resolved; a probe asks each command once.  Instants of
  the controller are microseconds since the epoch.
\<close>

section \<open>Clock\<close>

definition CLOCK_SKEW_WARN_SECONDS :: int where "CLOCK_SKEW_WARN_SECONDS = 30"
definition CLOCK_SKEW_FAIL_SECONDS :: int where "CLOCK_SKEW_FAIL_SECONDS = 300"
definition CLOCK_SKEW_FAIL_CHECK :: string where "CLOCK_SKEW_FAIL_CHECK = ''audit-clock-health''"

definition parse_utc_now :: "string \<Rightarrow> int res" where
  "parse_utc_now value =
     (let raw = strip value in
      if raw = [] then Inl (ValueError ''empty utc_now'')
      else rbind (fromisoformat (if last raw = CHR ''Z'' then butlast raw @ ''+00:00'' else raw)) (\<lambda>w.
        case w of None \<Rightarrow> Inl (ValueError ''invalid isoformat'') | Some s \<Rightarrow> Inr (s * 1000000)))"

definition clock_skew_result :: "int \<Rightarrow> int \<Rightarrow> string" where
  "clock_skew_result controller remote =
     (let delta = \<bar>controller - remote\<bar> in
      if CLOCK_SKEW_FAIL_SECONDS * 1000000 < delta then ''FAIL''
      else if CLOCK_SKEW_WARN_SECONDS * 1000000 < delta then ''WARN'' else ''OK'')"

text \<open>The verdict and the drift in microseconds; text that cannot be read is a failure.\<close>

definition clock_skew_from_identity :: "int \<Rightarrow> dict \<Rightarrow> (string \<times> int option) res" where
  "clock_skew_from_identity controller ident =
     (if ident = [] \<or> dget ''utc_now'' ident = JNull \<or> dget ''utc_now'' ident = JStr [] then Inr (''FAIL'', None)
      else (case parse_utc_now (py_str (dget ''utc_now'' ident)) of
          Inl (ValueError _) \<Rightarrow> Inr (''FAIL'', None)
        | Inl TypeError \<Rightarrow> Inr (''FAIL'', None)
        | Inl e \<Rightarrow> Inl e
        | Inr remote \<Rightarrow> Inr (clock_skew_result controller remote, Some \<bar>controller - remote\<bar>)))"

text \<open>A \<open>timedelta\<close> divided by two rounds half to even.\<close>

definition half_even :: "int \<Rightarrow> int" where
  "half_even d = (if d mod 2 = 0 then d div 2 else if (d div 2) mod 2 = 0 then d div 2 else d div 2 + 1)"

definition clock_skew_from_identity_window :: "int \<Rightarrow> int \<Rightarrow> dict \<Rightarrow> (string \<times> int option) res" where
  "clock_skew_from_identity_window started finished ident =
     clock_skew_from_identity (started + half_even (finished - started)) ident"

section \<open>Probe of a node\<close>

datatype ssh_state = SSH_OK | SSH_FAIL | SSH_AUTH_FAILED

definition ssh_text :: "ssh_state \<Rightarrow> string" where
  "ssh_text s = (case s of SSH_OK \<Rightarrow> ''OK'' | SSH_FAIL \<Rightarrow> ''FAIL'' | SSH_AUTH_FAILED \<Rightarrow> ''AUTH_FAILED'')"

text \<open>\<open>ssh_remote_json\<close> with observe credentials.\<close>

definition observe_json :: "loads \<Rightarrow> captured \<Rightarrow> ssh_state \<times> dict option \<times> string" where
  "observe_json loads p =
     (case remote_json loads False p of (ok, payload, detail) \<Rightarrow>
        (if ok then SSH_OK else if is_auth_failure detail then SSH_AUTH_FAILED else SSH_FAIL, payload, detail))"

record probe_row =
  pr_name :: string
  pr_node_id :: string
  pr_instance_id :: json
  pr_enabled :: bool
  pr_version :: json
  pr_ssh :: string
  pr_proxy :: string
  pr_accounting :: string
  pr_registry :: string
  pr_clock :: string
  pr_skew :: "int option"
  pr_ssh_detail :: string
  pr_warnings :: "string list"
  pr_checks :: "(json \<times> bool) list"
  pr_ok :: bool

definition empty_probe_row :: "reg_node \<Rightarrow> probe_row" where
  "empty_probe_row n = \<lparr>pr_name = n_name n, pr_node_id = n_node_id n, pr_instance_id = JNull, pr_enabled = n_enabled n,
     pr_version = JNull, pr_ssh = ''OK'', pr_proxy = ''UNKNOWN'', pr_accounting = ''UNKNOWN'', pr_registry = ''UNKNOWN'',
     pr_clock = ''UNKNOWN'', pr_skew = None, pr_ssh_detail = [], pr_warnings = [], pr_checks = [], pr_ok = True\<rparr>"

definition all_states :: "string \<Rightarrow> probe_row \<Rightarrow> probe_row" where
  "all_states s r = r\<lparr>pr_ssh := s, pr_proxy := s, pr_accounting := s, pr_registry := s, pr_clock := s, pr_ok := True\<rparr>"

definition status_is_fail :: "probe_row \<Rightarrow> bool" where
  "status_is_fail r = (pr_ssh r \<in> {''FAIL'', ''AUTH_FAILED''} \<or> pr_proxy r = ''FAIL'' \<or> pr_accounting r = ''FAIL'')"

definition verify_is_fail :: "probe_row \<Rightarrow> bool" where
  "verify_is_fail r = (status_is_fail r \<or> pr_registry r = ''FAIL'' \<or> pr_clock r = ''FAIL'')"

definition unreachable :: "ssh_state \<Rightarrow> string \<Rightarrow> probe_row \<Rightarrow> probe_row" where
  "unreachable st detail r = r\<lparr>pr_ssh := ssh_text st, pr_ssh_detail := detail, pr_proxy := ''UNKNOWN'',
     pr_accounting := ''UNKNOWN'', pr_ok := False\<rparr>"

text \<open>What the identity says: version, clock and registry, \<open>prev\<close> the instance seen before.\<close>

definition with_identity :: "reg_node \<Rightarrow> string option \<Rightarrow> dict \<Rightarrow> string \<times> int option \<Rightarrow> probe_row \<Rightarrow> probe_row" where
  "with_identity n prev ident clock r =
     (let inst = py_or (dget ''instance_id'' ident) JNull;
          same = (dget ''node_id'' ident = JStr (n_node_id n));
          clock_warns = (if fst clock = ''WARN'' then [''clock drift''] else []);
          changed = (if same \<and> nonempty prev \<and> truthy inst \<and> \<not> py_eq_str inst (the prev)
                     then [''instance changed, node_id stable''] else [])
      in r\<lparr>pr_instance_id := inst, pr_version := dget ''vincula_version'' ident, pr_clock := fst clock, pr_skew := snd clock,
           pr_warnings := clock_warns @ changed,
           pr_checks := (if fst clock = ''FAIL'' then [(JStr CLOCK_SKEW_FAIL_CHECK, False)] else []),
           pr_registry := (if same then ''OK'' else ''FAIL'')\<rparr>)"

definition with_status :: "dict option \<Rightarrow> string \<Rightarrow> probe_row \<Rightarrow> probe_row" where
  "with_status doc detail r = (case doc of
     None \<Rightarrow> r\<lparr>pr_proxy := ''FAIL'', pr_accounting := ''FAIL'', pr_ssh_detail := detail\<rparr>
   | Some d \<Rightarrow> r\<lparr>pr_proxy := classify_proxy d, pr_accounting := classify_accounting d\<rparr>)"

definition verify_checks :: "dict option \<Rightarrow> (json \<times> bool) list res" where
  "verify_checks doc = (case doc of
     None \<Rightarrow> Inr []
   | Some d \<Rightarrow> (case dget ''accounting'' d of
       JObj a \<Rightarrow> rbind (dicts_of (dget ''checks'' a)) (\<lambda>cs. Inr (map (\<lambda>c. (dget ''name'' c, truthy (dget ''ok'' c))) cs))
     | _ \<Rightarrow> Inr []))"

definition with_verify :: "loads \<Rightarrow> captured \<Rightarrow> probe_row \<Rightarrow> probe_row res" where
  "with_verify loads p r = (case observe_json loads p of (st, doc, detail) \<Rightarrow>
     if st \<noteq> SSH_OK then Inr (unreachable st detail r)
     else rbind (verify_checks doc) (\<lambda>cs. let r' = r\<lparr>pr_checks := pr_checks r @ cs\<rparr> in
       Inr (r'\<lparr>pr_ok := \<not> verify_is_fail r'\<rparr>)))"

definition identity_argv :: "string list" where "identity_argv = [''vcl'', ''identity'', ''--json'']"
definition status_argv :: "string list" where "status_argv = [''vcl'', ''status'', ''--json'']"
definition verify_argv :: "string list" where "verify_argv = [''vcl'', ''verify'', ''--json'']"

type_synonym asking = "string \<Rightarrow> reg_node \<Rightarrow> string list \<Rightarrow> captured res"

definition probe_node :: "loads \<Rightarrow> asking \<Rightarrow> int \<Rightarrow> int \<Rightarrow> bool \<Rightarrow> string option \<Rightarrow> reg_node \<Rightarrow> probe_row res" where
  "probe_node loads ask started finished want_verify prev n =
     (let row = empty_probe_row n in
      if life n = ''retired'' then Inr (all_states ''-'' row)
      else if life n = ''disabled'' \<or> \<not> n_enabled n then Inr (all_states ''DISABLED'' row)
      else rbind (ask ''observe'' n identity_argv) (\<lambda>p. (case observe_json loads p of (st, ident, detail) \<Rightarrow>
        if st \<noteq> SSH_OK then Inr (row\<lparr>pr_ssh := ssh_text st, pr_ssh_detail := detail, pr_ok := False\<rparr>)
        else (case ident of
          None \<Rightarrow> Inr (row\<lparr>pr_proxy := ''FAIL'', pr_accounting := ''FAIL'', pr_ssh_detail := detail, pr_clock := ''FAIL'',
                    pr_ok := False\<rparr>)
        | Some d \<Rightarrow> rbind (clock_skew_from_identity_window started finished d) (\<lambda>clock.
            let row = with_identity n prev d clock row in
            rbind (ask ''observe'' n status_argv) (\<lambda>p. (case observe_json loads p of (st, doc, detail) \<Rightarrow>
              if st \<noteq> SSH_OK then Inr (unreachable st detail row)
              else let row = with_status doc detail row in
                if want_verify then rbind (ask ''observe'' n verify_argv) (\<lambda>p. with_verify loads p row)
                else Inr (row\<lparr>pr_ok := \<not> verify_is_fail row\<rparr>))))))))"

section \<open>Commands\<close>

definition selected_reg :: "registry \<Rightarrow> bool \<Rightarrow> reg_node list" where
  "selected_reg g include_all = (if include_all then g_nodes g else filter node_is_active (g_nodes g))"

record health =
  he_ok :: bool
  he_rows :: "probe_row list"

text \<open>\<open>clocks\<close> gives the instants around the identity call of each node.\<close>

definition run_status_payload ::
    "loads \<Rightarrow> asking \<Rightarrow> (reg_node \<Rightarrow> int \<times> int) \<Rightarrow> registry res \<Rightarrow> bool \<Rightarrow> health res" where
  "run_status_payload loads ask clocks reg include_all =
     rbind reg (\<lambda>g.
     rbind (rmap (\<lambda>n. probe_node loads ask (fst (clocks n)) (snd (clocks n)) False None n) (selected_reg g include_all)) (\<lambda>rows.
     Inr \<lparr>he_ok = \<not> list_ex status_is_fail rows, he_rows = rows\<rparr>))"

text \<open>\<open>last-status.json\<close> as it was read, \<open>None\<close> where it is missing or unreadable.\<close>

definition previous_instance :: "dict \<Rightarrow> (string \<times> string) option" where
  "previous_instance d = (case (dget ''name'' d, dget ''instance_id'' d) of
     (JStr nm, JStr i) \<Rightarrow> if i = [] then None else Some (nm, i) | _ \<Rightarrow> None)"

definition load_previous_instance_ids :: "dict option \<Rightarrow> (string \<times> string) list res" where
  "load_previous_instance_ids doc = (case doc of
     None \<Rightarrow> Inr []
   | Some d \<Rightarrow> rbind (dicts_of (dget ''nodes'' d)) (\<lambda>ns.
       Inr (fold (\<lambda>(k, v). AList.update k v) (List.map_filter previous_instance ns) [])))"

definition check_doc :: "json \<times> bool \<Rightarrow> json" where
  "check_doc c = JObj [(''name'', fst c), (''ok'', JBool (snd c))]"

definition verify_json_node :: "probe_row \<Rightarrow> json" where
  "verify_json_node r = JObj
     [(''name'', JStr (pr_name r)), (''ok'', JBool (pr_ok r)), (''vincula_version'', pr_version r),
      (''node_id'', JStr (pr_node_id r)), (''instance_id'', pr_instance_id r), (''enabled'', JBool (pr_enabled r)),
      (''ssh'', JStr (pr_ssh r)), (''proxy'', JStr (pr_proxy r)), (''accounting'', JStr (pr_accounting r)),
      (''registry'', JStr (pr_registry r)), (''clock'', JStr (pr_clock r)),
      (''warnings'', JList (map JStr (pr_warnings r))), (''checks'', JList (map check_doc (pr_checks r)))]"

definition verify_doc :: "health \<Rightarrow> string \<Rightarrow> dict" where
  "verify_doc h now = [(''schema_version'', JInt 1), (''ok'', JBool (he_ok h)), (''controller_utc'', JStr now),
     (''nodes'', JList (map verify_json_node (he_rows h)))]"

text \<open>\<open>verify\<close> also writes \<open>last-status.json\<close>: the result is the payload and the new file.\<close>

definition run_verify_payload ::
    "loads \<Rightarrow> asking \<Rightarrow> (reg_node \<Rightarrow> int \<times> int) \<Rightarrow> string \<Rightarrow> registry res \<Rightarrow> dict option \<Rightarrow> bool \<Rightarrow> (health \<times> dict) res" where
  "run_verify_payload loads ask clocks now reg lastdoc include_all =
     rbind reg (\<lambda>g.
     rbind (load_previous_instance_ids lastdoc) (\<lambda>prev.
     rbind (rmap (\<lambda>n. probe_node loads ask (fst (clocks n)) (snd (clocks n)) True (map_of prev (n_name n)) n)
              (selected_reg g include_all)) (\<lambda>rows.
     let h = \<lparr>he_ok = \<not> list_ex verify_is_fail rows, he_rows = rows\<rparr> in Inr (h, verify_doc h now))))"

definition exit_of :: "bool \<Rightarrow> int" where
  "exit_of ok = (if ok then 0 else 1)"

definition cmd_probe :: "loads \<Rightarrow> asking \<Rightarrow> (reg_node \<Rightarrow> int \<times> int) \<Rightarrow> registry res \<Rightarrow> bool \<Rightarrow> int res" where
  "cmd_probe loads ask clocks reg include_all =
     rbind (run_status_payload loads ask clocks reg include_all) (\<lambda>h. Inr (exit_of (he_ok h)))"

definition cmd_verify ::
    "loads \<Rightarrow> asking \<Rightarrow> (reg_node \<Rightarrow> int \<times> int) \<Rightarrow> string \<Rightarrow> registry res \<Rightarrow> dict option \<Rightarrow> bool \<Rightarrow> dict option \<times> int res" where
  "cmd_verify loads ask clocks now reg lastdoc include_all =
     (case run_verify_payload loads ask clocks now reg lastdoc include_all of
        Inl e \<Rightarrow> (lastdoc, Inl e)
      | Inr (h, doc) \<Rightarrow> (Some doc, Inr (exit_of (he_ok h))))"

section \<open>Cached status\<close>

record cached_row =
  ca_name :: string
  ca_node_id :: string
  ca_instance_id :: json
  ca_ssh :: json
  ca_proxy :: json
  ca_accounting :: json
  ca_version :: json
  ca_registry :: json
  ca_clock :: json
  ca_synced_at :: json
  ca_last_sync_at :: string
  ca_data_age :: string
  ca_cursor_status :: string

definition load_legacy_last_status :: "dict option \<Rightarrow> (string \<times> dict) list res" where
  "load_legacy_last_status doc = (case doc of
     None \<Rightarrow> Inr []
   | Some d \<Rightarrow> rbind (dicts_of (dget ''nodes'' d)) (\<lambda>ns.
       Inr (fold (\<lambda>n al. if truthy (dget ''name'' n) then AList.update (py_str (dget ''name'' n)) n al else al) ns [])))"

definition data_age :: "int \<Rightarrow> string option \<Rightarrow> string res" where
  "data_age controller last_sync = (case last_sync of
     None \<Rightarrow> Inr ''-''
   | Some ls \<Rightarrow> if ls = [] then Inr ''-''
       else (case fromisoformat (concat (map (\<lambda>c. if c = CHR ''Z'' then ''+00:00'' else [c]) ls)) of
           Inl e \<Rightarrow> Inl e
         | Inr None \<Rightarrow> Inr ''?''
         | Inr (Some s) \<Rightarrow>
             (let d = controller - s * 1000000 in
              Inr (int_text (if d < 0 then - ((- d) div 1000000) else d div 1000000) @ ''s''))))"

definition or_unknown :: "json \<Rightarrow> json" where
  "or_unknown v = py_or v (JStr ''UNKNOWN'')"

definition cached_status_row ::
    "int \<Rightarrow> fleet_db option \<Rightarrow> (string \<times> dict) list \<Rightarrow> reg_node \<Rightarrow> cached_row res" where
  "cached_status_row controller cache legacy n =
     (let nid = n_node_id n;
          snap = (case cache of None \<Rightarrow> None | Some db \<Rightarrow> map_of (node_snapshot db) nid);
          cur = (case cache of None \<Rightarrow> None | Some db \<Rightarrow> map_of (sync_cursor db) nid);
          leg = (case map_of legacy (n_name n) of None \<Rightarrow> [] | Some d \<Rightarrow> d);
          health = (if life n = ''disabled'' then (JStr ''DISABLED'', JStr ''UNKNOWN'', JStr ''UNKNOWN'')
            else if life n = ''retired'' then (JStr ''-'', JStr ''UNKNOWN'', JStr ''UNKNOWN'')
            else (case snap of
                Some s \<Rightarrow> (JStr ''OK'', or_unknown (JStr (s_proxy s)), or_unknown (JStr (s_accounting s)))
              | None \<Rightarrow> (or_unknown (dget ''ssh'' leg), or_unknown (dget ''proxy'' leg), or_unknown (dget ''accounting'' leg))));
          inst1 = (case snap of None \<Rightarrow> JNull | Some s \<Rightarrow> of_text (s_instance_id s));
          inst2 = (if inst1 = JNull then dget ''instance_id'' leg else inst1);
          inst3 = (if inst2 = JNull then (case cur of None \<Rightarrow> JNull | Some c \<Rightarrow> of_text (cu_instance_id c)) else inst2);
          ls = (case cur of None \<Rightarrow> None | Some c \<Rightarrow> Some (cu_last_sync_at c))
      in rbind (data_age controller ls) (\<lambda>age.
         Inr \<lparr>ca_name = n_name n, ca_node_id = nid, ca_instance_id = inst3, ca_ssh = fst health,
           ca_proxy = fst (snd health), ca_accounting = snd (snd health),
           ca_version = (case snap of Some s \<Rightarrow> of_text (s_version s) | None \<Rightarrow> dget ''vincula_version'' leg),
           ca_registry = (case snap of Some s \<Rightarrow> JStr ''OK'' | None \<Rightarrow> dget ''registry'' leg),
           ca_clock = (case snap of Some s \<Rightarrow> JStr (s_clock s) | None \<Rightarrow> dget ''clock'' leg),
           ca_synced_at = (case snap of Some s \<Rightarrow> JStr (s_synced_at s) | None \<Rightarrow> JNull),
           ca_last_sync_at = (case ls of None \<Rightarrow> ''-'' | Some t \<Rightarrow> if t = [] then ''-'' else t), ca_data_age = age,
           ca_cursor_status = (case cur of None \<Rightarrow> ''-'' | Some c \<Rightarrow> if cu_status c = [] then ''-'' else cu_status c)\<rparr>))"

definition cached_is_fail :: "cached_row \<Rightarrow> bool" where
  "cached_is_fail r = (py_eq_str (ca_ssh r) ''FAIL'' \<or> py_eq_str (ca_ssh r) ''AUTH_FAILED''
     \<or> py_eq_str (ca_proxy r) ''FAIL'' \<or> py_eq_str (ca_accounting r) ''FAIL'')"

definition run_cached_status_payload ::
    "int \<Rightarrow> registry res \<Rightarrow> fleet_db option \<Rightarrow> dict option \<Rightarrow> bool \<Rightarrow> (bool \<times> cached_row list) res" where
  "run_cached_status_payload controller reg cache lastdoc include_all =
     rbind reg (\<lambda>g.
     rbind (load_legacy_last_status lastdoc) (\<lambda>legacy.
     rbind (rmap (cached_status_row controller cache legacy) (selected_reg g include_all)) (\<lambda>rows.
     Inr (\<not> list_ex cached_is_fail rows, rows))))"

definition cmd_status :: "int \<Rightarrow> registry res \<Rightarrow> fleet_db option \<Rightarrow> dict option \<Rightarrow> bool \<Rightarrow> int res" where
  "cmd_status controller reg cache lastdoc include_all =
     rbind (run_cached_status_payload controller reg cache lastdoc include_all) (\<lambda>p. Inr (exit_of (fst p)))"

end
