(* ===== verification/NodeLife.thy ===== *)
theory NodeLife
  imports FleetProbe FleetUserOps InstanceHistory
begin

text \<open>
  The end of a node's life and the change of its machine: \<open>node retire\<close> and \<open>node replace\<close> of
  \<open>lib/vincula-fleet.py\<close>, each with its final sync, its remote commands and what it writes.

  The controller's state is the registry store, the credential bindings, \<open>fleet.db\<close> with the
  portable history, the remote machines, the operation journal and the snapshots of retired nodes.
  The environment answers for the network: runs of commands, the answers of a final sync, copies of
  files, the verdict of \<open>verify_archive\<close> (\<open>lib/vincula-backup.py\<close>, not modelled) on an archive.
\<close>

section \<open>State and environment\<close>

record journal_row =
  jr_operation :: string
  jr_target :: string
  jr_state :: string
  jr_exit :: int
  jr_detail :: string

record retired_snapshot =
  rs_identity :: dict
  rs_cursor :: "cursor_row option"
  rs_status :: dict

record ('s, 'w) controller =
  fc_store :: 's
  fc_bindings :: json_doc
  fc_cache :: world
  fc_nodes :: 'w
  fc_journal :: "journal_row list"
  fc_snapshots :: "(string \<times> retired_snapshot) list"

type_synonym ('s, 'w, 'a) step = "('s, 'w) controller \<Rightarrow> ('s, 'w) controller \<times> 'a res"

definition sret :: "'a \<Rightarrow> ('s, 'w, 'a) step" where
  "sret a c = (c, Inr a)"

definition sdie :: "string \<Rightarrow> ('s, 'w, 'a) step" where
  "sdie m c = (c, die m)"

definition sbind :: "('s, 'w, 'a) step \<Rightarrow> ('a \<Rightarrow> ('s, 'w, 'b) step) \<Rightarrow> ('s, 'w, 'b) step" where
  "sbind m f c = (case m c of (c', Inl e) \<Rightarrow> (c', Inl e) | (c', Inr a) \<Rightarrow> f a c')"

definition lift_res :: "'a res \<Rightarrow> ('s, 'w, 'a) step" where
  "lift_res r c = (c, r)"

text \<open>
  \<open>le_run\<close> runs a command with admin credentials, \<open>le_remote\<close> gives a node's answers to a sync,
  \<open>le_pull\<close> and \<open>le_push\<close> copy a file (\<open>scp\<close>), \<open>le_csv\<close> fetches the reissued credentials.
\<close>

record ('s, 'w) life_env =
  le_se :: ssh_env
  le_st :: "'s store"
  le_loads :: loads
  le_run :: "reg_node \<Rightarrow> string list \<Rightarrow> 'w \<Rightarrow> 'w \<times> captured res"
  le_ask :: "'w \<Rightarrow> asking"
  le_remote :: "reg_node \<Rightarrow> 'w \<Rightarrow> remote"
  le_pull :: "reg_node \<Rightarrow> string \<Rightarrow> 'w \<Rightarrow> string res"
  le_push :: "reg_node \<Rightarrow> string \<Rightarrow> 'w \<Rightarrow> 'w \<times> unit res"
  le_csv :: "reg_node \<Rightarrow> 'w \<Rightarrow> string option"
  le_verify :: "string \<Rightarrow> dict"
  le_is_file :: "string \<Rightarrow> bool"
  le_app :: "hist_line \<Rightarrow> bool"
  le_now :: string
  le_clock :: "int \<times> int"
  le_last :: "dict option"
  le_writable :: bool

definition remote_run :: "('s, 'w) life_env \<Rightarrow> reg_node \<Rightarrow> string list \<Rightarrow> ('s, 'w, captured) step" where
  "remote_run env n argv c = (case le_run env n argv (fc_nodes c) of (w, r) \<Rightarrow> (c\<lparr>fc_nodes := w\<rparr>, r))"

text \<open>\<open>ssh_remote_json\<close>: whether SSH was fine, the object and the detail.\<close>

definition ask_json :: "('s, 'w) life_env \<Rightarrow> bool \<Rightarrow> reg_node \<Rightarrow> string list \<Rightarrow> ('s, 'w, bool \<times> dict option \<times> string) step" where
  "ask_json env exit0 n argv = sbind (remote_run env n argv) (\<lambda>p. sret (remote_json (le_loads env) exit0 p))"

definition load_step :: "('s, 'w) life_env \<Rightarrow> ('s, 'w, registry) step" where
  "load_step env c = (c, st_load (le_st env) (fc_store c))"

definition save_step :: "('s, 'w) life_env \<Rightarrow> registry \<Rightarrow> ('s, 'w, unit) step" where
  "save_step env g c = (case st_save (le_st env) g (fc_store c) of (s, r) \<Rightarrow> (c\<lparr>fc_store := s\<rparr>, r))"

definition log_op :: "string \<Rightarrow> string \<Rightarrow> string \<Rightarrow> int \<Rightarrow> string \<Rightarrow> ('s, 'w, unit) step" where
  "log_op operation target state exit detail c = (c\<lparr>fc_journal := fc_journal c @
     [\<lparr>jr_operation = operation, jr_target = target, jr_state = state, jr_exit = exit, jr_detail = detail\<rparr>]\<rparr>, Inr ())"

definition final_sync :: "('s, 'w) life_env \<Rightarrow> reg_node \<Rightarrow> ('s, 'w, sync_row) step" where
  "final_sync env n c =
     (case sync_one_node (le_app env) (node.truncate n) (le_remote env n (fc_nodes c)) (le_now env) False (fc_cache c) of
        (w, r) \<Rightarrow> (c\<lparr>fc_cache := w\<rparr>, r))"

section \<open>Retire\<close>

definition final_sync_gate :: "('s, 'w) life_env \<Rightarrow> reg_node \<Rightarrow> string \<Rightarrow> ('s, 'w, unit) step" where
  "final_sync_gate env n what = sbind (final_sync env n) (\<lambda>row.
     if sr_status row = ''expired'' then sdie (what @ '': CURSOR_EXPIRED'')
     else if sr_status row \<noteq> ''ok'' then sdie (what @ '': final sync failed'') else sret ())"

text \<open>The identity of the node when it is reachable and is the node of the registry.\<close>

definition identity_gate :: "('s, 'w) life_env \<Rightarrow> reg_node \<Rightarrow> string \<Rightarrow> ('s, 'w, dict) step" where
  "identity_gate env n what = sbind (ask_json env False n identity_argv) (\<lambda>(ok, ident, detail).
     case (if ok then ident else None) of
       None \<Rightarrow> sdie (what @ '': SSH identity failed'')
     | Some d \<Rightarrow> if dget ''node_id'' d \<noteq> JStr (n_node_id n) then sdie (what @ '': remote node_id does not match'')
         else sret d)"

definition retire_identity :: "('s, 'w) life_env \<Rightarrow> bool \<Rightarrow> reg_node \<Rightarrow> ('s, 'w, dict option) step" where
  "retire_identity env skip_sync n =
     (if skip_sync then sbind (ask_json env False n identity_argv) (\<lambda>(ok, ident, detail). sret (if ok then ident else None))
      else if \<not> node_is_active n then sdie ''cannot retire: final sync requires an active node''
      else sbind (identity_gate env n ''cannot retire'') (\<lambda>d.
           sbind (final_sync_gate env n ''cannot retire'') (\<lambda>_. sret (Some d))))"

definition last_status_slice :: "dict option \<Rightarrow> string \<Rightarrow> dict option res" where
  "last_status_slice doc nm = (case doc of
     None \<Rightarrow> Inr None
   | Some d \<Rightarrow> rbind (dicts_of (dget ''nodes'' d)) (\<lambda>ns. Inr (find (\<lambda>n. py_eq_str (dget ''name'' n) nm) ns)))"

definition status_json_node :: "probe_row \<Rightarrow> dict" where
  "status_json_node r =
     [(''name'', JStr (pr_name r)), (''node_id'', JStr (pr_node_id r)), (''instance_id'', pr_instance_id r),
      (''enabled'', JBool (pr_enabled r)), (''ssh'', JStr (pr_ssh r)), (''proxy'', JStr (pr_proxy r)),
      (''accounting'', JStr (pr_accounting r))]
     @ (if pr_ssh_detail r = [] then [] else [(''ssh_detail'', JStr (pr_ssh_detail r))])"

definition last_status :: "('s, 'w) life_env \<Rightarrow> reg_node \<Rightarrow> ('s, 'w, dict) step" where
  "last_status env n c = (c, rbind (last_status_slice (le_last env) (n_name n)) (\<lambda>slice. case slice of
      Some d \<Rightarrow> Inr d
    | None \<Rightarrow> rbind (probe_node (le_loads env) (le_ask env (fc_nodes c)) (fst (le_clock env)) (snd (le_clock env)) False None n)
        (\<lambda>r. Inr (status_json_node r))))"

definition write_retire_snapshot :: "('s, 'w) life_env \<Rightarrow> reg_node \<Rightarrow> dict option \<Rightarrow> dict \<Rightarrow> ('s, 'w, unit) step" where
  "write_retire_snapshot env n ident status c =
     (if le_writable env
      then (c\<lparr>fc_snapshots := AList.update (n_name n)
              \<lparr>rs_identity = (case ident of Some d \<Rightarrow> d | None \<Rightarrow> []),
               rs_cursor = map_of (sync_cursor (fleet (fc_cache c))) (n_node_id n), rs_status = status\<rparr> (fc_snapshots c)\<rparr>, Inr ())
      else (c, Inl (RuntimeError ''OSError'')))"

definition disable_argv :: "string \<Rightarrow> string list" where
  "disable_argv tag = [''vcl'', ''user'', ''disable'', tag, ''--json'']"

definition user_tag_text :: "dict \<Rightarrow> string" where
  "user_tag_text u = py_str (py_or (dget ''tag'' u) (JStr []))"

text \<open>The tags that stay enabled because their command failed are the errors; the result is the kept tag.\<close>

fun disable_each :: "('s, 'w) life_env \<Rightarrow> reg_node \<Rightarrow> string list \<Rightarrow> ('s, 'w, string list \<times> string list) step" where
  "disable_each env n [] = sret ([], [])"
| "disable_each env n (tag # tags) = sbind (ask_json env True n (disable_argv tag)) (\<lambda>(ok, payload, detail).
     sbind (disable_each env n tags) (\<lambda>(done, failed).
       if ok \<and> (case payload of None \<Rightarrow> False | Some d \<Rightarrow> dget ''ok'' d = JBool True)
       then sret (tag # done, failed) else sret (done, tag # failed)))"

definition disable_remote_users_except_last ::
    "('s, 'w) life_env \<Rightarrow> reg_node \<Rightarrow> ('s, 'w, string list \<times> string option \<times> bool) step" where
  "disable_remote_users_except_last env n =
     sbind (remote_run env n [''vcl'', ''user'', ''list'', ''--json'']) (\<lambda>p.
     case list_users (le_loads env) p of
       Inl err \<Rightarrow> sret ([], None, True)
     | Inr users \<Rightarrow>
         (let tags = map user_tag_text (sort_key user_tag_text (filter (\<lambda>u. truthy (dget ''enabled'' u)) users))
          in if tags = [] then sret ([], None, False)
             else sbind (disable_each env n (filter (\<lambda>t. t \<noteq> []) (butlast tags))) (\<lambda>(done, failed).
               sret (done, (if last tags = [] then None else Some (last tags)), failed \<noteq> []))))"

definition cmd_node_retire :: "('s, 'w) life_env \<Rightarrow> bool \<Rightarrow> string \<Rightarrow> ('s, 'w, int) step" where
  "cmd_node_retire env skip_sync nm =
     sbind (lift_res (validate_name nm)) (\<lambda>_.
     sbind (load_step env) (\<lambda>g.
     sbind (lift_res (require_node g nm)) (\<lambda>n.
     if life n = ''retired'' then sdie ''node already retired''
     else sbind (retire_identity env skip_sync n) (\<lambda>ident.
          sbind (last_status env n) (\<lambda>status.
          sbind (write_retire_snapshot env n ident status) (\<lambda>_.
          sbind (disable_remote_users_except_last env n) (\<lambda>_.
          sbind (load_step env) (\<lambda>g'.
          sbind (lift_res (retire_in nm g')) (\<lambda>g''.
          sbind (save_step env g'') (\<lambda>_. sret 0))))))))))"

section \<open>Replace\<close>

record replace_args =
  ra_name :: string
  ra_host :: string
  ra_host_key :: "string option"
  ra_identity_file :: "string option"
  ra_from_backup :: "string option"

record replace_plan =
  rp_node :: reg_node
  rp_new :: reg_node
  rp_ref :: "string option"
  rp_old_instance :: "string option"

text \<open>
  The identity file of the new host: with a workspace its path is bound under the admin ref, without
  one the node keeps the path.  \<open>trust\<close> is the outcome of \<open>prepare_ssh_host_key\<close>.
\<close>

definition replace_identity ::
    "('s, 'w) life_env \<Rightarrow> string option \<Rightarrow> reg_node \<Rightarrow> ('s, 'w, reg_node \<times> string option) step" where
  "replace_identity env identity_file new c =
     (case given identity_file of
        None \<Rightarrow> (c, Inr (new, None))
      | Some raw \<Rightarrow> (case validate_identity_file (le_se env) raw True of
          Inl e \<Rightarrow> (c, Inl e)
        | Inr p \<Rightarrow>
            if se_known_hosts (le_se env) = None then (c, Inr (new\<lparr>r_identity_file := Some p\<rparr>, None))
            else (case bind_identity_for_workspace (le_se env) p (r_admin_ref new) (fc_bindings c) of
                (b, r) \<Rightarrow> (c\<lparr>fc_bindings := b\<rparr>, rbind r (\<lambda>k.
                   Inr (new\<lparr>r_admin_ref := Some k, r_observe_ref := None, r_identity_file := None\<rparr>, Some k))))))"

definition cursor_instance_id :: "fleet_db \<Rightarrow> string \<Rightarrow> string option" where
  "cursor_instance_id db nid = (case map_of (sync_cursor db) nid of
     None \<Rightarrow> None | Some cu \<Rightarrow> (case cu_instance_id cu of None \<Rightarrow> None | Some t \<Rightarrow> text_or_none t))"

definition replace_plan_step ::
    "('s, 'w) life_env \<Rightarrow> (string \<Rightarrow> int \<Rightarrow> string \<Rightarrow> unit res) \<Rightarrow> replace_args \<Rightarrow> ('s, 'w, replace_plan) step" where
  "replace_plan_step env trust a =
     sbind (lift_res (validate_name (ra_name a))) (\<lambda>_.
     sbind (load_step env) (\<lambda>g.
     sbind (lift_res (require_node g (ra_name a))) (\<lambda>n.
     if life n = ''retired'' then sdie ''cannot replace retired node''
     else if life n \<noteq> ''active'' \<or> \<not> n_enabled n then sdie ''cannot replace disabled node''
     else sbind (lift_res (parse_ssh_target (ra_host a) None (Some (r_ssh_port n)))) (\<lambda>(h, u, p).
       case given (ra_host_key a) of
         None \<Rightarrow> sdie ''node replace requires --host-key SHA256:...''
       | Some key \<Rightarrow> sbind (lift_res (trust h p key)) (\<lambda>_.
           sbind (replace_identity env (ra_identity_file a) (n\<lparr>n_ssh_host := h, r_ssh_user := u, r_ssh_port := p\<rparr>)) (\<lambda>(new, ref) c.
             (c, Inr \<lparr>rp_node = n, rp_new = new, rp_ref = ref,
                rp_old_instance = cursor_instance_id (fleet (fc_cache c)) (n_node_id n)\<rparr>)))))))"

text \<open>The archive: a given one, or a final sync of the old machine and a fresh backup of it.\<close>

definition REMOTE_BACKUP_TAR :: string where "REMOTE_BACKUP_TAR = ''/var/backups/vincula/backup.tar''"
definition REMOTE_RESTORE_TAR :: string where "REMOTE_RESTORE_TAR = ''/tmp/vincula-restore.tar''"
definition REMOTE_REISSUE_CSV :: string where "REMOTE_REISSUE_CSV = ''/tmp/reissue.csv''"

definition doc_ok :: "bool \<times> dict option \<times> string \<Rightarrow> bool" where
  "doc_ok r = (case r of (ok, doc, detail) \<Rightarrow> ok \<and> (case doc of None \<Rightarrow> False | Some d \<Rightarrow> dget ''ok'' d = JBool True))"

definition replace_archive ::
    "('s, 'w) life_env \<Rightarrow> replace_args \<Rightarrow> replace_plan \<Rightarrow> ('s, 'w, string option \<times> string) step" where
  "replace_archive env a p = (case given (ra_from_backup a) of
     Some f \<Rightarrow>
       if le_is_file env f then sret (rp_old_instance p, f)
       else sbind (log_op ''backup'' (ra_name a) ''FAILED'' 1 ''from-backup missing'') (\<lambda>_. sdie ''backup file not found'')
   | None \<Rightarrow> (let n = rp_node p in
       sbind (identity_gate env n ''cannot replace'') (\<lambda>ident.
       sbind (final_sync_gate env n ''cannot replace'') (\<lambda>_.
       sbind (ask_json env True n [''vcl'', ''backup'', ''create'', ''--json'']) (\<lambda>r.
       if \<not> doc_ok r
       then sbind (log_op ''backup'' (ra_name a) ''FAILED'' 1 ''remote backup create failed'') (\<lambda>_. sdie ''cannot replace: backup create failed'')
       else sbind (log_op ''backup'' (ra_name a) ''SUCCESS'' 0 ''remote backup create'') (\<lambda>_ c.
         (let path = (case fst (snd r) of None \<Rightarrow> REMOTE_BACKUP_TAR
                | Some d \<Rightarrow> py_str (py_or (dget ''path'' d) (JStr REMOTE_BACKUP_TAR)));
              old = (case optional_text (dget ''instance_id'' ident) of Some i \<Rightarrow> Some i | None \<Rightarrow> rp_old_instance p)
          in (c, rbind (le_pull env n path (fc_nodes c)) (\<lambda>f. Inr (old, f))))))))))"

definition check_archive :: "('s, 'w) life_env \<Rightarrow> replace_args \<Rightarrow> reg_node \<Rightarrow> string \<Rightarrow> ('s, 'w, unit) step" where
  "check_archive env a n f =
     (let v = le_verify env f; fail = (\<lambda>detail msg. sbind (log_op ''backup'' (ra_name a) ''FAILED'' 1 detail) (\<lambda>_. sdie msg)) in
      if \<not> truthy (dget ''ok'' v)
      then fail (if given (ra_from_backup a) \<noteq> None then ''from-backup verify failed'' else ''backup verify failed'') ''backup verify failed''
      else if truthy (dget ''secret_bearing'' v) then fail ''secret-bearing backup refused'' ''node replace requires a secretless backup''
      else if dget ''source_node_id'' v \<noteq> JStr (n_node_id n)
      then fail ''backup source_node_id mismatch'' ''cannot replace: backup source_node_id does not match''
      else if given (ra_from_backup a) \<noteq> None then log_op ''backup'' (ra_name a) ''SUCCESS'' 0 ''from-backup'' else sret ())"

text \<open>The new machine has the runtime but no installed version yet.\<close>

definition preflight_replace_target :: "('s, 'w) life_env \<Rightarrow> reg_node \<Rightarrow> ('s, 'w, unit) step" where
  "preflight_replace_target env new =
     sbind (remote_run env new [''test'', ''-x'', ''/usr/local/bin/vcl'']) (\<lambda>p.
     if cap_code p \<noteq> 0 then sdie ''cannot replace: no Vincula runtime''
     else sbind (remote_run env new [''test'', ''!'', ''-f'', ''/etc/vincula/VERSION'']) (\<lambda>q.
       if cap_code q \<noteq> 0 then sdie ''cannot replace: already has VERSION'' else sret ()))"

definition build_node_restore_argv :: "string \<Rightarrow> string \<Rightarrow> string list" where
  "build_node_restore_argv archive server =
     [''vcl'', ''restore'', archive, ''--reissue-output'', REMOTE_REISSUE_CSV, ''--server'', server, ''--json'']"

definition restore_on :: "('s, 'w) life_env \<Rightarrow> replace_args \<Rightarrow> reg_node \<Rightarrow> string \<Rightarrow> ('s, 'w, unit) step" where
  "restore_on env a new f =
     sbind (preflight_replace_target env new) (\<lambda>_.
     sbind (\<lambda>c. case le_push env new f (fc_nodes c) of (w, r) \<Rightarrow> (c\<lparr>fc_nodes := w\<rparr>, r)) (\<lambda>_.
     sbind (ask_json env True new (build_node_restore_argv REMOTE_RESTORE_TAR (n_ssh_host new))) (\<lambda>r.
     if doc_ok r then log_op ''restore'' (ra_name a) ''SUCCESS'' 0 ''remote restore''
     else sbind (log_op ''restore'' (ra_name a) ''FAILED'' 1 ''remote restore failed'') (\<lambda>_. sdie ''cannot replace: restore failed''))))"

text \<open>The instance of the restored machine, and why it is not accepted.\<close>

definition new_instance :: "reg_node \<Rightarrow> string option \<Rightarrow> dict \<Rightarrow> string option \<times> string option" where
  "new_instance n old ident =
     (if dget ''node_id'' ident \<noteq> JStr (n_node_id n) then (None, Some ''restored node_id does not match'')
      else (case optional_text (dget ''instance_id'' ident) of
          None \<Rightarrow> (None, Some ''restored instance_id missing'')
        | Some i \<Rightarrow> (Some i, if i = n_node_id n then Some ''restored instance_id equals node_id''
            else if old = Some i then Some ''restored instance_id was not rotated'' else None)))"

definition verify_new :: "('s, 'w) life_env \<Rightarrow> reg_node \<Rightarrow> ('s, 'w, string option) step" where
  "verify_new env new = sbind (ask_json env False new verify_argv) (\<lambda>(ok, doc, detail).
     if \<not> ok \<or> doc = None then sret (Some (if detail = [] then ''verify unreachable after restore'' else detail))
     else if doc_ok (ok, doc, detail) then sret None
     else sret (Some ''vcl verify --json is not ok after restore''))"

definition confirm_new ::
    "('s, 'w) life_env \<Rightarrow> reg_node \<Rightarrow> reg_node \<Rightarrow> string option \<Rightarrow> ('s, 'w, string option \<times> string option) step" where
  "confirm_new env n new old =
     sbind (ask_json env False new identity_argv) (\<lambda>(ok, ident, detail).
     case (if ok then ident else None) of
       None \<Rightarrow> sret (None, Some (if detail = [] then ''identity unreachable after restore'' else detail))
     | Some d \<Rightarrow> (case new_instance n old d of
         (i, Some err) \<Rightarrow> sret (i, Some err)
       | (i, None) \<Rightarrow> sbind (verify_new env new) (\<lambda>failed. sret (i, failed))))"

text \<open>The new instance in \<open>fleet.db\<close>: three statements, the cursor keeps its position.\<close>

definition cache_step :: "unit act \<Rightarrow> ('s, 'w, unit) step" where
  "cache_step m c = (case m (fc_cache c) of (w, r) \<Rightarrow> (c\<lparr>fc_cache := w\<rparr>, rbind r (\<lambda>_. Inr ())))"

definition moved_cursor :: "cursor_row option \<Rightarrow> string \<Rightarrow> string \<Rightarrow> cursor_row" where
  "moved_cursor cu i now = (case cu of
     None \<Rightarrow> \<lparr>cu_instance_id = Some i, cu_last_event_id = 0, cu_last_export_seq = 0, cu_cursor_kind = ''export_seq'',
       cu_last_sync_at = now, cu_status = ''ok''\<rparr>
   | Some r \<Rightarrow> r\<lparr>cu_instance_id := Some i,
       cu_cursor_kind := (case text_or_none (cu_cursor_kind r) of None \<Rightarrow> ''export_seq'' | Some k \<Rightarrow> k),
       cu_last_sync_at := now, cu_status := (if cu_status r = [] then ''ok'' else cu_status r)\<rparr>)"

definition switch_instance :: "('s, 'w) life_env \<Rightarrow> string \<Rightarrow> string \<Rightarrow> string \<Rightarrow> unit act" where
  "switch_instance env nid i host =
     abind (retire_active_instance (le_app env) nid (le_now env)) (\<lambda>_.
     abind (atomically (\<lambda>d. rbind (insert_instance nid i (le_now env) (Some host) (Some host) ''active'' None d)
              (\<lambda>d'. Inr (d', ())))) (\<lambda>_.
     atomically (\<lambda>d. rbind (put_cursor d nid (moved_cursor (map_of (sync_cursor d) nid) i (le_now env)))
              (\<lambda>d'. Inr (d', ())))))"

definition moved_node :: "replace_plan \<Rightarrow> reg_node \<Rightarrow> reg_node" where
  "moved_node p s =
     (let moved = s\<lparr>n_ssh_host := n_ssh_host (rp_new p), r_ssh_user := r_ssh_user (rp_new p),
            r_ssh_port := r_ssh_port (rp_new p), n_status := Some ''active'', n_enabled := True\<rparr>
      in (case rp_ref p of
            Some k \<Rightarrow> moved\<lparr>r_admin_ref := Some k, r_observe_ref := None, r_identity_file := None\<rparr>
          | None \<Rightarrow> if nonempty (r_identity_file (rp_new p)) then moved\<lparr>r_identity_file := r_identity_file (rp_new p)\<rparr>
              else moved))"

definition replace_in :: "('s, 'w) life_env \<Rightarrow> replace_plan \<Rightarrow> registry \<Rightarrow> registry res" where
  "replace_in env p g = rbind (require_node g (n_name (rp_node p))) (\<lambda>_.
     if rp_ref p = None \<and> nonempty (r_identity_file (rp_new p)) \<and> se_known_hosts (le_se env) \<noteq> None
     then die ''workspace active: identity_file must not be stored in fleet.json''
     else Inr (set_node (n_name (rp_node p)) (moved_node p) g))"

record replace_result =
  rr_ok :: bool
  rr_old_instance :: "string option"
  rr_new_instance :: "string option"
  rr_host :: string
  rr_csv :: "string option"
  rr_error :: "string option"

text \<open>The part after the new machine was confirmed: \<open>fleet.db\<close>, then the registry, then the old machine.\<close>

definition switch_over ::
    "('s, 'w) life_env \<Rightarrow> replace_plan \<Rightarrow> string option \<Rightarrow> string \<Rightarrow> string option \<Rightarrow> ('s, 'w, replace_result) step" where
  "switch_over env p old i csv =
     sbind (cache_step (switch_instance env (n_node_id (rp_node p)) i (n_ssh_host (rp_new p)))) (\<lambda>_.
     sbind (load_step env) (\<lambda>g.
     sbind (lift_res (replace_in env p g)) (\<lambda>g'.
     sbind (save_step env g') (\<lambda>_.
     sbind (disable_remote_users_except_last env (rp_node p)) (\<lambda>_.
     sret \<lparr>rr_ok = True, rr_old_instance = old, rr_new_instance = Some i, rr_host = n_ssh_host (rp_new p),
       rr_csv = csv, rr_error = None\<rparr>)))))"

definition replace_finish ::
    "('s, 'w) life_env \<Rightarrow> replace_plan \<Rightarrow> string option \<Rightarrow> string option \<times> string option \<Rightarrow> ('s, 'w, replace_result) step" where
  "replace_finish env p old outcome c = (case outcome of
     (Some i, None) \<Rightarrow> switch_over env p old i (le_csv env (rp_new p) (fc_nodes c)) c
   | (new, failed) \<Rightarrow> sret \<lparr>rr_ok = False, rr_old_instance = old, rr_new_instance = new,
       rr_host = n_ssh_host (rp_node p), rr_csv = None, rr_error = failed\<rparr> c)"

definition cmd_node_replace ::
    "('s, 'w) life_env \<Rightarrow> (string \<Rightarrow> int \<Rightarrow> string \<Rightarrow> unit res) \<Rightarrow> replace_args \<Rightarrow> ('s, 'w, replace_result) step" where
  "cmd_node_replace env trust a =
     sbind (replace_plan_step env trust a) (\<lambda>p.
     sbind (replace_archive env a p) (\<lambda>q.
     sbind (check_archive env a (rp_node p) (snd q)) (\<lambda>_.
     sbind (restore_on env a (rp_new p) (snd q)) (\<lambda>_.
     sbind (confirm_new env (rp_node p) (rp_new p) (fst q)) (replace_finish env p (fst q))))))"

end
