(* ===== verification/NodeLifeProps.thy ===== *)
theory NodeLifeProps
  imports NodeLife FleetProps RegistryStore
begin

text \<open>
  What \<open>node retire\<close> guarantees: a node is retired only with its whole export log on the
  controller.  First the calculus of steps that \<open>node replace\<close> shares.
\<close>

section \<open>Sequences of steps\<close>

lemma sbind_cases:
  assumes "sbind m f c = (c', r)"
  obtains e where "m c = (c', Inl e)" "r = Inl e" | a c1 where "m c = (c1, Inr a)" "f a c1 = (c', r)"
  using assms by (cases "m c") (auto simp: sbind_def split: sum.splits)

lemma sbind_Inr: "sbind m f c = (c', Inr b) \<longleftrightarrow> (\<exists>a c1. m c = (c1, Inr a) \<and> f a c1 = (c', Inr b))"
  by (auto simp: sbind_def split: prod.splits sum.splits)

lemma sbind_run: "m c = (c1, Inr a) \<Longrightarrow> sbind m f c = f a c1"
  by (simp add: sbind_def)

lemmas step_defs = sret_def sdie_def lift_res_def load_step_def log_op_def

text \<open>What a step leaves alone: a view \<open>v\<close> of the controller, whatever the outcome.\<close>

definition leaves :: "(('s, 'w) controller \<Rightarrow> 'v) \<Rightarrow> ('s, 'w, 'a) step \<Rightarrow> bool" where
  "leaves v m \<longleftrightarrow> (\<forall>c. v (fst (m c)) = v c)"

lemma leavesD: "leaves v m \<Longrightarrow> m c = (c', r) \<Longrightarrow> v c' = v c"
  unfolding leaves_def by (metis fst_conv)

named_theorems quiet \<open>steps that leave a view of the controller alone\<close>

lemma leaves_bind [quiet]: "leaves v m \<Longrightarrow> (\<And>a. leaves v (f a)) \<Longrightarrow> leaves v (sbind m f)"
  by (auto simp: leaves_def sbind_def split: prod.split sum.split) (metis fst_conv)+

lemma leaves_pure [quiet]: "leaves v (sret a)" "leaves v (sdie m)" "leaves v (lift_res x)" "leaves v (load_step env)"
  by (simp_all add: leaves_def step_defs)

lemma leaves_if [quiet]: "leaves v m \<Longrightarrow> leaves v m' \<Longrightarrow> leaves v (if b then m else m')"
  by simp

lemma leaves_option [quiet]: "leaves v m \<Longrightarrow> (\<And>x. leaves v (f x)) \<Longrightarrow> leaves v (case z of None \<Rightarrow> m | Some x \<Rightarrow> f x)"
  by (cases z) simp_all

lemma leaves_pair [quiet]: "(\<And>x y. leaves v (f x y)) \<Longrightarrow> leaves v (case z of (x, y) \<Rightarrow> f x y)"
  by (cases z) simp

lemma leaves_sum [quiet]: "(\<And>x. leaves v (f x)) \<Longrightarrow> (\<And>x. leaves v (g x)) \<Longrightarrow> leaves v (case z of Inl x \<Rightarrow> f x | Inr x \<Rightarrow> g x)"
  by (cases z) simp_all

text \<open>Remote commands change the machines only, the journal nothing else.\<close>

lemma run_leaves [quiet]:
  "leaves fc_store (remote_run env n argv)" "leaves fc_cache (remote_run env n argv)"
  "leaves fc_bindings (remote_run env n argv)" "leaves fc_snapshots (remote_run env n argv)"
  "leaves fc_store (log_op o1 t st x d)" "leaves fc_cache (log_op o1 t st x d)" "leaves fc_snapshots (log_op o1 t st x d)"
  "leaves fc_cache (save_step env g)"
  "leaves fc_snapshots (save_step env g)" "leaves fc_store (final_sync env n)" "leaves fc_snapshots (final_sync env n)"
  by (auto simp: leaves_def remote_run_def log_op_def save_step_def final_sync_def split: prod.split)

lemma ask_leaves [quiet]: "(\<And>n argv. leaves v (remote_run env n argv)) \<Longrightarrow> leaves v (ask_json env x n argv)"
  unfolding ask_json_def by (intro quiet) auto

lemma disable_each_leaves [quiet]:
  "(\<And>n argv. leaves v (remote_run env n argv)) \<Longrightarrow> leaves v (disable_each env n tags)"
  by (induction tags) (auto intro!: quiet simp del: split_paired_All)

lemma disable_leaves [quiet]:
  "(\<And>n argv. leaves v (remote_run env n argv)) \<Longrightarrow> leaves v (disable_remote_users_except_last env n)"
  unfolding disable_remote_users_except_last_def Let_def by (intro quiet)

lemma gate_leaves [quiet]:
  "leaves fc_store (final_sync_gate env n what)" "leaves fc_snapshots (final_sync_gate env n what)"
  "(\<And>n argv. leaves v (remote_run env n argv)) \<Longrightarrow> leaves v (identity_gate env n what)"
  unfolding final_sync_gate_def identity_gate_def by (intro quiet)+

lemma retire_identity_leaves [quiet]: "leaves fc_store (retire_identity env skip n)" "leaves fc_snapshots (retire_identity env skip n)"
  unfolding retire_identity_def by (intro quiet)+

lemma last_status_leaves [quiet]: "leaves v (last_status env n)"
  by (simp add: leaves_def last_status_def)

lemma snapshot_leaves [quiet]: "leaves fc_store (write_retire_snapshot env n i s)" "leaves fc_cache (write_retire_snapshot env n i s)"
  by (simp_all add: leaves_def write_retire_snapshot_def)

section \<open>The final sync\<close>

text \<open>An ok sync of what the node serves leaves the cursor at the end of its log.\<close>

lemma synced_end:
  assumes s: "synced n rm now stamp w w'" and m: "mirror (n_node_id n) D (fleet w)" and inv: "acct_inv D"
    and sv: "serves D rm" and r: "r \<in> set (connections D)" "c_export_seq r = Some k"
  shows "k \<le> cursor_last_export_seq (fleet w') (n_node_id n)"
proof -
  define after where "after = cursor_last_export_seq (fleet w) (n_node_id n)"
  from s obtain w1 iid where i: "imported n (rm_export rm after stamp) after iid now w1 w'"
    unfolding synced_def Let_def after_def by blast
  then obtain mt rows nc res where x: "p_code (rm_export rm after stamp) = 0"
    "parse_export_jsonl (p_out (rm_export rm after stamp)) = Inr rows"
    "validate_export_batch (JObj mt) rows after (n_node_id n) iid = Inr nc"
    "import_audit_batch (fleet w1) (n_node_id n) iid rows now (Some nc) = Inr (fleet w', res)"
    unfolding imported_def by blast
  from serves_rows [OF sv x(1,2)] obtain ds where rows: "rows = map JObj ds"
    and dl: "list_all2 delivers (after_rows D after) ds" by blast
  have le: "after \<le> seq_counter D" using mirrorD(2) [OF m] by (simp add: after_def)
  note lb = log_batch [OF inv dl x(3) [unfolded rows] le]
  have cu: "cursor_last_export_seq (fleet w') (n_node_id n) = nc"
    using log_import [OF inv dl x(4) [unfolded rows]] by metis
  show ?thesis
  proof (cases "k \<le> after")
    case True with lb(1) cu show ?thesis by simp
  next
    case False
    then have "r \<in> set (after_rows D after)" using r after_rows_set [OF inv] by auto
    from lb(3) [OF this r(2)] cu show ?thesis by simp
  qed
qed

text \<open>The controller holds every row the node has numbered, under the node's id.\<close>

definition whole_log :: "string \<Rightarrow> acct_db \<Rightarrow> fleet_db \<Rightarrow> bool" where
  "whole_log nid D d \<longleftrightarrow> (\<forall>r \<in> set (connections D). c_export_seq r \<noteq> None \<longrightarrow>
     (\<exists>e \<in> set (audit_events d). content e = image_row nid r))"

lemma event_get_mem: "event_get es k = Some e \<Longrightarrow> e \<in> set es"
  by (auto simp: event_get_def find_Some_iff)

lemma gate_whole_log:
  assumes g: "final_sync_gate env n what c = (c', Inr u)" and m: "mirror (n_node_id n) D (fleet (fc_cache c))"
    and inv: "acct_inv D" and sv: "serves D (le_remote env n (fc_nodes c))"
  shows "mirror (n_node_id n) D (fleet (fc_cache c')) \<and> whole_log (n_node_id n) D (fleet (fc_cache c'))"
proof -
  obtain w r where w: "sync_one_node (le_app env) (node.truncate n) (le_remote env n (fc_nodes c)) (le_now env) False (fc_cache c) = (w, r)"
    by fastforce
  have id: "n_node_id (node.truncate n) = n_node_id n" by (simp add: node.truncate_def)
  from g w obtain row where row: "r = Inr row" "sr_status row = ''ok''" and c': "fc_cache c' = w"
    by (auto simp: final_sync_gate_def sbind_Inr final_sync_def step_defs die_def split: if_splits)
  with sync_one_node_cases [OF w] have s: "synced (node.truncate n) (le_remote env n (fc_nodes c)) (le_now env) False (fc_cache c) w"
    by (auto simp: failed_def)
  from sync_one_mirror [OF w m inv] sv have m': "mirror (n_node_id n) D (fleet w)" by simp
  have "whole_log (n_node_id n) D (fleet w)"
    unfolding whole_log_def
  proof (intro ballI impI)
    fix r assume r: "r \<in> set (connections D)" "c_export_seq r \<noteq> None"
    then obtain k where k: "c_export_seq r = Some k" by blast
    from synced_end [OF s _ inv sv r(1) k] m id have "k \<le> cursor_last_export_seq (fleet w) (n_node_id n)" by simp
    from mirrorD(3) [OF m' r(1) k this] show "\<exists>e \<in> set (audit_events (fleet w)). content e = image_row (n_node_id n) r"
      using event_get_mem by blast
  qed
  with m' c' show ?thesis by simp
qed

section \<open>Retire\<close>

lemma identity_gate_Inr:
  assumes "identity_gate env n what c = (c', Inr d)"
  shows "dget ''node_id'' d = JStr (n_node_id n)" "fc_cache c' = fc_cache c" "fc_store c' = fc_store c"
proof -
  show "dget ''node_id'' d = JStr (n_node_id n)"
    using assms by (auto simp: identity_gate_def sbind_Inr step_defs die_def split: option.splits if_splits)
  show "fc_cache c' = fc_cache c" "fc_store c' = fc_store c"
    by (rule leavesD [where m = "identity_gate env n what", OF _ assms], intro quiet)+
qed

lemma retire_identity_Inr:
  assumes "retire_identity env False n c = (c', Inr i)"
  shows "node_is_active n \<and> (\<exists>d c1. i = Some d \<and> dget ''node_id'' d = JStr (n_node_id n)
    \<and> fc_cache c1 = fc_cache c \<and> final_sync_gate env n ''cannot retire'' c1 = (c', Inr ()))"
proof -
  have act: "node_is_active n" using assms by (auto simp: retire_identity_def step_defs die_def split: if_splits)
  with assms obtain d c1 where d: "identity_gate env n ''cannot retire'' c = (c1, Inr d)"
    and g: "final_sync_gate env n ''cannot retire'' c1 = (c', Inr ())" "i = Some d"
    by (auto simp: retire_identity_def sbind_Inr step_defs)
  with act identity_gate_Inr [OF d] show ?thesis by blast
qed

text \<open>A run that changed the registry or succeeded passed the steps that cannot write it.\<close>

definition effective :: "'s \<Rightarrow> ('s, 'w) controller \<Rightarrow> 'a res \<Rightarrow> bool" where
  "effective S c' r \<longleftrightarrow> fc_store c' \<noteq> S \<or> (\<exists>x. r = Inr x)"

lemma step_through:
  assumes "sbind m f c = (c', r)" "effective S c' r" "fc_store c = S" "leaves fc_store m"
  obtains a c1 where "m c = (c1, Inr a)" "f a c1 = (c', r)" "fc_store c1 = S"
  using assms by (elim sbind_cases) (auto simp: effective_def dest: leavesD)

lemma save_step_run:
  assumes "sbind (save_step env g) (\<lambda>_. sret x) c = (c', r)"
  shows "\<exists>u. st_save (le_st env) g (fc_store c) = (fc_store c', u) \<and> (\<forall>y. r = Inr y \<longrightarrow> u = Inr ())
    \<and> fc_cache c' = fc_cache c \<and> fc_snapshots c' = fc_snapshots c"
  using assms by (elim sbind_cases) (auto simp: save_step_def sret_def split: prod.splits)

lemma retire_run:
  assumes run: "cmd_node_retire env False nm c = (c', r)" and eff: "effective (fc_store c) c' r"
    and reg: "st_load (le_st env) (fc_store c) = Inr g" "require_node g nm = Inr n"
  obtains i c1 s where "life n \<noteq> ''retired''" "retire_identity env False n c = (c1, Inr i)" "fc_cache c' = fc_cache c1"
    "fc_snapshots c' = AList.update (n_name n) \<lparr>rs_identity = (case i of Some d \<Rightarrow> d | None \<Rightarrow> []),
       rs_cursor = map_of (sync_cursor (fleet (fc_cache c1))) (n_node_id n), rs_status = s\<rparr> (fc_snapshots c)"
    "\<exists>g'. retire_in nm g = Inr g' \<and> (\<exists>u. st_save (le_st env) g' (fc_store c) = (fc_store c', u) \<and> (\<forall>x. r = Inr x \<longrightarrow> u = Inr ()))"
proof -
  let ?S = "fc_store c"
  have live: "life n \<noteq> ''retired''"
    using run eff reg by (auto simp: cmd_node_retire_def sbind_def step_defs die_def effective_def split: sum.splits)
  obtain v where "validate_name nm = Inr v"
    using run eff by (cases "validate_name nm") (auto simp: cmd_node_retire_def sbind_def step_defs effective_def)
  then have "lift_res (validate_name nm) c = (c, Inr v)" "load_step env c = (c, Inr g)"
    "lift_res (require_node g nm) c = (c, Inr n)" using reg by (simp_all add: lift_res_def load_step_def)
  with run live have t: "sbind (retire_identity env False n) (\<lambda>ident. sbind (last_status env n) (\<lambda>status.
      sbind (write_retire_snapshot env n ident status) (\<lambda>_. sbind (disable_remote_users_except_last env n) (\<lambda>_.
      sbind (load_step env) (\<lambda>g'. sbind (lift_res (retire_in nm g')) (\<lambda>g''. sbind (save_step env g'') (\<lambda>_. sret 0))))))) c = (c', r)"
    by (simp add: cmd_node_retire_def sbind_run)
  obtain i c1 where i: "retire_identity env False n c = (c1, Inr i)" "fc_store c1 = ?S"
    and t: "sbind (last_status env n) (\<lambda>status.
      sbind (write_retire_snapshot env n i status) (\<lambda>_. sbind (disable_remote_users_except_last env n) (\<lambda>_.
      sbind (load_step env) (\<lambda>g'. sbind (lift_res (retire_in nm g')) (\<lambda>g''. sbind (save_step env g'') (\<lambda>_. sret 0)))))) c1 = (c', r)"
    by (rule step_through [OF t eff refl]) (auto intro: quiet)
  obtain s c2 where s: "last_status env n c1 = (c2, Inr s)" "fc_store c2 = ?S"
    and t: "sbind (write_retire_snapshot env n i s) (\<lambda>_. sbind (disable_remote_users_except_last env n) (\<lambda>_.
      sbind (load_step env) (\<lambda>g'. sbind (lift_res (retire_in nm g')) (\<lambda>g''. sbind (save_step env g'') (\<lambda>_. sret 0))))) c2 = (c', r)"
    by (rule step_through [OF t eff i(2)]) (auto intro: quiet)
  obtain a c3 where a: "write_retire_snapshot env n i s c2 = (c3, Inr a)" "fc_store c3 = ?S"
    and t: "sbind (disable_remote_users_except_last env n) (\<lambda>_.
      sbind (load_step env) (\<lambda>g'. sbind (lift_res (retire_in nm g')) (\<lambda>g''. sbind (save_step env g'') (\<lambda>_. sret 0)))) c3 = (c', r)"
    by (rule step_through [OF t eff s(2)]) (auto intro: quiet)
  obtain b c4 where b: "disable_remote_users_except_last env n c3 = (c4, Inr b)" "fc_store c4 = ?S"
    and t: "sbind (load_step env) (\<lambda>g'. sbind (lift_res (retire_in nm g')) (\<lambda>g''. sbind (save_step env g'') (\<lambda>_. sret 0))) c4 = (c', r)"
    by (rule step_through [OF t eff a(2)]) (auto intro!: quiet)
  from t reg(1) b(2) have t: "sbind (lift_res (retire_in nm g)) (\<lambda>g''. sbind (save_step env g'') (\<lambda>_. sret 0)) c4 = (c', r)"
    by (simp add: sbind_run load_step_def)
  obtain g' where g': "retire_in nm g = Inr g'" using reg(2) by (simp add: retire_in_def)
  with t have t: "sbind (save_step env g') (\<lambda>_. sret 0) c4 = (c', r)" by (simp add: sbind_run lift_res_def)
  have c2: "c2 = c1" using s(1) by (auto simp: last_status_def)
  have b': "fc_cache c4 = fc_cache c3" "fc_snapshots c4 = fc_snapshots c3"
    by (rule leavesD [where m = "disable_remote_users_except_last env n", OF _ b(1)], intro quiet)+
  have i': "fc_snapshots c1 = fc_snapshots c" by (rule leavesD [where m = "retire_identity env False n", OF _ i(1)], intro quiet)
  from save_step_run [OF t] g' b(2) b' a i(1) i' live show thesis
    by (intro that [of c1 i s]) (auto simp: write_retire_snapshot_def c2 split: if_splits)
qed

lemma find_update_first:
  "(\<And>x. P x \<Longrightarrow> P (f x)) \<Longrightarrow> find P xs = Some x \<Longrightarrow> find P (update_first P f xs) = Some (f x)"
  by (induction xs) (auto split: if_splits)

lemma find_same_node:
  "list_all2 same_node ns ns' \<Longrightarrow> find (\<lambda>n. n_name n = nm) ns = Some n
    \<Longrightarrow> \<exists>n'. find (\<lambda>n. n_name n = nm) ns' = Some n' \<and> same_node n n'"
  by (induction rule: list_all2_induct) (auto simp: same_node_def split: if_splits)

lemma set_node_require:
  assumes "require_node g nm = Inr n" "\<And>x. n_name (f x) = n_name x" "same_registry (set_node nm f g) g'"
  shows "\<exists>n'. require_node g' nm = Inr n' \<and> same_node (f n) n'"
proof -
  have "reg_by_name g nm = Some n" using assms(1) by (auto simp: require_node_def die_def split: option.splits)
  then have "find (\<lambda>n. n_name n = nm) (g_nodes (set_node nm f g)) = Some (f n)"
    using find_update_first [of "\<lambda>n. n_name n = nm" f "g_nodes g" n] assms(2) by (simp add: reg_by_name_def set_node_def)
  with find_same_node [of "g_nodes (set_node nm f g)" "g_nodes g'" nm] assms(3) show ?thesis
    by (auto simp: same_registry_def require_node_def reg_by_name_def)
qed

context registry_store begin

lemma retired_is_kept:
  assumes "st_load st s = Inr g" "require_node g nm = Inr n" "retire_in nm g = Inr g'"
    and "st_save st g' s = (s', Inr ())" "st_load st s' = Inr g''"
  shows "\<exists>n'. require_node g'' nm = Inr n' \<and> n_node_id n' = n_node_id n \<and> life n' = ''retired''"
proof -
  from retire_keeps [OF load_ok [OF assms(1)] assms(3)] have g': "reg_ok g'" by auto
  have eq: "g' = set_node nm (\<lambda>n. n\<lparr>n_status := Some ''retired'', n_enabled := False\<rparr>) g"
    using assms(2,3) by (simp add: retire_in_def)
  from save_done [OF g' assms(4,5)] have "same_registry g' g''" .
  from set_node_require [OF assms(2) _ this [unfolded eq]] show ?thesis
    by (auto simp: same_node_def life_def node.truncate_def node_lifecycle_status_def)
qed

end

section \<open>A concrete controller\<close>

definition ex_rse :: ssh_env where
  "ex_rse = \<lparr>se_ssh_bin = ''ssh'', se_scp_bin = ''scp'', se_known_hosts = None, se_expand = (\<lambda>p. p),
     se_resolve = (\<lambda>p. Some p), se_is_file = (\<lambda>p. True)\<rparr>"

definition ex_rnode :: reg_node where
  "ex_rnode = \<lparr>n_name = ''tokyo'', n_node_id = ex_nid, n_ssh_host = ''h'', n_status = Some ''active'', n_enabled = True,
     r_ssh_user = ''root'', r_ssh_port = 22, r_identity_file = None, r_admin_ref = None, r_observe_ref = None\<rparr>"

definition ex_reg :: registry where
  "ex_reg = \<lparr>g_nodes = [ex_rnode], g_fleet_id = None\<rparr>"

definition ex_iid2 :: string where
  "ex_iid2 = ''55555555-5555-4555-8555-555555555555''"

definition ex_loads_life :: loads where
  "ex_loads_life t =
     (if t = ''I'' then Some (JObj [(''node_id'', JStr ex_nid), (''instance_id'', JStr ex_iid)])
      else if t = ''J'' then Some (JObj [(''node_id'', JStr ex_nid), (''instance_id'', JStr ex_iid2)])
      else if t = ''O'' then Some (JObj [(''ok'', JBool True)])
      else if t = ''U'' then Some (JObj [(''users'', JList [JObj [(''tag'', JStr ''b''), (''enabled'', JBool True)],
        JObj [(''tag'', JStr ''a''), (''enabled'', JBool True)]])]) else None)"

text \<open>The machine state is the list of the commands it was asked to run.\<close>

definition ex_run_life :: "reg_node \<Rightarrow> string list \<Rightarrow> string list list \<Rightarrow> string list list \<times> captured res" where
  "ex_run_life n argv w = (w @ [argv], Inr \<lparr>cap_code = 0, cap_stdout =
     (if argv = identity_argv then (if n_ssh_host n = ''h'' then ''I'' else ''J'')
      else if argv = [''vcl'', ''user'', ''list'', ''--json''] then ''U'' else ''O''), cap_stderr = []\<rparr>)"

definition ex_env :: "(json_doc \<times> bool list, string list list) life_env" where
  "ex_env = \<lparr>le_se = ex_rse, le_st = legacy_store ex_rse, le_loads = ex_loads_life, le_run = ex_run_life,
     le_ask = (\<lambda>w cls n argv. Inl TypeError), le_remote = (\<lambda>n w. ex_remote ex_node_log), le_pull = (\<lambda>n p w. Inr ''f''),
     le_push = (\<lambda>n f w. (w, Inr ())), le_csv = (\<lambda>n w. None),
     le_verify = (\<lambda>f. [(''ok'', JBool True), (''source_node_id'', JStr ex_nid)]), le_is_file = (\<lambda>f. True),
     le_app = (\<lambda>l. True), le_now = ''2024-01-02T00:00:00Z'', le_clock = (0, 0),
     le_last = Some [(''nodes'', JList [JObj [(''name'', JStr ''tokyo'')]])], le_writable = True\<rparr>"

definition ex_controller :: "(json_doc \<times> bool list, string list list) controller" where
  "ex_controller = \<lparr>fc_store = (Doc (JObj (registry_doc ex_reg)), []), fc_bindings = NoFile, fc_cache = ex_world,
     fc_nodes = [], fc_journal = [], fc_snapshots = []\<rparr>"

lemma ex_reg_kept: "st_load (legacy_store ex_rse) (fc_store ex_controller) = Inr ex_reg" "require_node ex_reg ''tokyo'' = Inr ex_rnode"
proof -
  have "reg_ok ex_reg" "list_all (stable_identity ex_rse) (g_nodes ex_reg)" by code_simp+
  then show "st_load (legacy_store ex_rse) (fc_store ex_controller) = Inr ex_reg"
    by (simp add: legacy_store_def load_registry_def ex_controller_def validate_stable)
  show "require_node ex_reg ''tokyo'' = Inr ex_rnode" by (simp add: require_node_def reg_by_name_def ex_reg_def ex_rnode_def)
qed

section \<open>Retire keeps the log\<close>



end
