(* ===== verification/NodeReplaceProps.thy ===== *)
theory NodeReplaceProps
  imports NodeLifeProps
begin

text \<open>
  What \<open>node replace\<close> guarantees: the registry moves to a new machine only after that machine
  answered as the node under a fresh instance and passed its own verification, with the log of the
  old machine on the controller; and what a failure half-way leaves behind.
\<close>

section \<open>Instances under a sync\<close>

lemma import_history:
  assumes "import_audit_batch db nid iid rows now nc = Inr (db', res)"
  shows "instance_history db' = instance_history db"
proof -
  have rb: "rebuild_daily_usage_for_node x nid = Inr y \<Longrightarrow> instance_history y = instance_history x" for x y
    by (auto simp: rebuild_daily_usage_for_node_def rbind_eq_Inr Let_def)
  obtain x where "rebuild_daily_usage_for_node (db\<lparr>audit_events := x\<rparr>) nid = Inr (db'\<lparr>sync_cursor := sync_cursor db\<rparr>)"
    by (rule import_Inr [OF assms]) blast
  from rb [OF this] show ?thesis by simp
qed

lemma fail_sync_history:
  "instance_history (fleet (fst (fail_sync n now after iid status err cs w))) = instance_history (fleet w)"
  by (auto simp: fail_sync_def abind_def atomically_def mark_cursor_status_def write_sync_cursor_def put_cursor_def Let_def
      res_simps split: sum.split prod.split)

lemma pull_history:
  "instance_history (fleet (fst (pull_and_import n rm now stamp after iid w))) = instance_history (fleet w)"
  by (auto simp: pull_and_import_def Let_def fail_sync_history split: sum.split exc.split dest: import_history)

lemma pull_after_record_history:
  assumes "history_inv (fleet w)"
  shows "history_inv (fleet (fst (abind (case iid of None \<Rightarrow> aret () | Some i \<Rightarrow> record_instance app nid i None host now)
      (\<lambda>_. pull_and_import n rm now stamp after iid) w)))"
proof -
  let ?m = "case iid of None \<Rightarrow> aret () | Some i \<Rightarrow> record_instance app nid i None host now"
  have "history_inv (fleet (fst (?m w)))"
    using assms record_instance_inv by (cases iid) (simp_all add: aret_def)
  then show ?thesis
    by (cases "?m w"; cases "snd (?m w)") (simp_all add: abind_def history_inv_def pull_history)
qed

lemma fail_sync_history_inv:
  "history_inv (fleet w) \<Longrightarrow> history_inv (fleet (fst (fail_sync n now after iid status err cs w)))"
  by (simp add: history_inv_def fail_sync_history)

lemma sync_history_inv:
  assumes "history_inv (fleet w)"
  shows "history_inv (fleet (fst (sync_one_node app n rm now stamp w)))"
  using assms fail_sync_history_inv
    pull_after_record_history [where iid = None, unfolded option.case] pull_after_record_history [where iid = "Some i" for i, unfolded option.case]
  unfolding sync_one_node_def Let_def by (auto split: prod.split option.split)

section \<open>Replace\<close>

text \<open>The new instance: the only active one, everything else of the node as it was.\<close>

lemma switch_effect:
  assumes s: "switch_instance env nid i host w = (w', Inr u)" and inv: "history_inv (fleet w)"
  shows "history_inv (fleet w') \<and> i \<noteq> nid
    \<and> i_instance_id ` {r \<in> set (instance_history (fleet w')). is_active_of nid r} = {i}
    \<and> node_view x (fleet w') = node_view x (fleet w) \<and> audit_events (fleet w') = audit_events (fleet w)
    \<and> map_of (sync_cursor (fleet w')) nid = Some (moved_cursor (map_of (sync_cursor (fleet w)) nid) i (le_now env))"
proof -
  let ?d = "retire_where (is_active_of nid) (le_now env) (fleet w)"
  obtain w1 where r: "retire_active_instance (le_app env) nid (le_now env) w = (w1, Inr ())"
    using s by (auto simp: switch_instance_def abind_def split: prod.splits sum.splits)
  then have w1: "fleet w1 = ?d"
    using append_each_fleet [of "le_app env" _ "w\<lparr>fleet := ?d\<rparr>"]
    by (auto simp: retire_active_instance_def Let_def split: sum.splits) (metis fst_conv select_convs(1) simps(1) surjective)
  from s r obtain d where d: "insert_instance nid i (le_now env) (Some host) (Some host) ''active'' None ?d = Inr d"
    and e: "put_cursor d nid (moved_cursor (map_of (sync_cursor d) nid) i (le_now env)) = Inr (fleet w')"
    by (auto simp: switch_instance_def abind_def atomically_def w1 res_simps split: sum.splits)
  have "history_inv d"
    by (rule insert_after_retire [OF retire_where_inv [OF inv] retired_none_active d])
  moreover have w': "fleet w' = d\<lparr>sync_cursor := AList.update nid (moved_cursor (map_of (sync_cursor d) nid) i (le_now env)) (sync_cursor d)\<rparr>"
    using e by (auto simp: put_cursor_def rbind_eq_Inr)
  then have h: "instance_history (fleet w') = instance_history d" by simp
  ultimately have "history_inv (fleet w')" by (simp add: history_inv_def)
  from d have new: "\<exists>row. instance_history d = instance_history ?d @ [row] \<and> is_active_of nid row \<and> i_instance_id row = i"
    and ne: "i \<noteq> nid" and cu: "sync_cursor d = sync_cursor (fleet w)" and ev: "audit_events d = audit_events (fleet w)"
    by (auto simp: insert_instance_def die_def rbind_eq_Inr is_active_of_def retire_where_def split: if_splits)
  from new obtain row where row: "instance_history d = instance_history ?d @ [row]" "is_active_of nid row" "i_instance_id row = i"
    by blast
  have "{r \<in> set (instance_history (fleet w')). is_active_of nid r} = {row}"
    using retired_none_active [of nid "le_now env" "fleet w"] row(2) by (auto simp: h row(1))
  moreover have "cursor_last_export_seq (fleet w') x = cursor_last_export_seq (fleet w) x"
    by (simp add: w' cursor_last_export_seq_def cu update_conv' moved_cursor_def split: option.split)
  moreover have "audit_events (fleet w') = audit_events (fleet w)" by (simp add: w' ev)
  moreover have "map_of (sync_cursor (fleet w')) nid = Some (moved_cursor (map_of (sync_cursor (fleet w)) nid) i (le_now env))"
    by (simp add: w' cu update_conv')
  ultimately show ?thesis using \<open>history_inv (fleet w')\<close> ne row(3) by (simp add: node_view_def)
qed

text \<open>Which steps of \<open>node replace\<close> can touch the registry store or \<open>fleet.db\<close>: only the last ones.\<close>

lemma leaves_read [quiet]: "leaves v (\<lambda>c. (c, f c))"
  by (simp add: leaves_def)

lemma replace_identity_leaves [quiet]:
  "leaves fc_store (replace_identity env f n)" "leaves fc_cache (replace_identity env f n)" "leaves fc_nodes (replace_identity env f n)"
  by (auto simp: leaves_def replace_identity_def split: option.split sum.split prod.split)

lemma plan_leaves [quiet]:
  "leaves fc_store (replace_plan_step env trust a)" "leaves fc_cache (replace_plan_step env trust a)"
  unfolding replace_plan_step_def by (intro quiet)+

lemma archive_leaves [quiet]: "leaves fc_store (replace_archive env a p)"
  unfolding replace_archive_def Let_def by (intro quiet)+

lemma check_leaves [quiet]: "leaves fc_store (check_archive env a n f)" "leaves fc_cache (check_archive env a n f)"
  unfolding check_archive_def Let_def by (intro quiet)+

lemma push_leaves [quiet]:
  "leaves fc_store (\<lambda>c. case le_push env new f (fc_nodes c) of (w, r) \<Rightarrow> (c\<lparr>fc_nodes := w\<rparr>, r))"
  "leaves fc_cache (\<lambda>c. case le_push env new f (fc_nodes c) of (w, r) \<Rightarrow> (c\<lparr>fc_nodes := w\<rparr>, r))"
  by (auto simp: leaves_def split: prod.split)

lemma restore_leaves [quiet]: "leaves fc_store (restore_on env a new f)" "leaves fc_cache (restore_on env a new f)"
  unfolding restore_on_def preflight_replace_target_def by (intro quiet)+

lemma confirm_leaves [quiet]: "leaves fc_store (confirm_new env n new old)" "leaves fc_cache (confirm_new env n new old)"
  unfolding confirm_new_def verify_new_def by (intro quiet)+

lemma cache_step_leaves [quiet]: "leaves fc_store (cache_step m)"
  by (auto simp: leaves_def cache_step_def split: prod.split)

section \<open>What each step establishes\<close>

text \<open>\<open>m\<close> is the machine the node is moved to: same node, the target that was asked for and trusted.\<close>

definition trusted_target ::
    "('s, 'w) life_env \<Rightarrow> (string \<Rightarrow> int \<Rightarrow> string \<Rightarrow> unit res) \<Rightarrow> replace_args \<Rightarrow> reg_node \<Rightarrow> reg_node \<Rightarrow> bool" where
  "trusted_target env trust a n m \<longleftrightarrow> n_node_id m = n_node_id n \<and> n_name m = n_name n
     \<and> parse_ssh_target (ra_host a) None (Some (r_ssh_port n)) = Inr (n_ssh_host m, r_ssh_user m, r_ssh_port m)
     \<and> (\<exists>key. given (ra_host_key a) = Some key \<and> trust (n_ssh_host m) (r_ssh_port m) key = Inr ())"

text \<open>A machine answered a command with the document \<open>d\<close>.\<close>

definition answered :: "('s, 'w) life_env \<Rightarrow> reg_node \<Rightarrow> string list \<Rightarrow> dict \<Rightarrow> bool" where
  "answered env n argv d \<longleftrightarrow> (\<exists>w w' p detail. le_run env n argv w = (w', Inr p)
     \<and> remote_json (le_loads env) False p = (True, Some d, detail))"

lemma ask_json_Inr:
  assumes "ask_json env False n argv c = (c', Inr (True, Some d, detail))"
  shows "answered env n argv d"
  using assms unfolding answered_def
  by (auto simp: ask_json_def sbind_Inr remote_run_def sret_def split: prod.splits)

lemma replace_identity_Inr:
  assumes "replace_identity env f new c = (c', Inr (m, ref))"
  shows "n_node_id m = n_node_id new" "n_name m = n_name new" "n_ssh_host m = n_ssh_host new"
    "r_ssh_user m = r_ssh_user new" "r_ssh_port m = r_ssh_port new" "ref_ok ref"
proof -
  show "n_node_id m = n_node_id new" "n_name m = n_name new" "n_ssh_host m = n_ssh_host new"
    "r_ssh_user m = r_ssh_user new" "r_ssh_port m = r_ssh_port new"
    using assms by (auto simp: replace_identity_def rbind_eq_Inr split: option.splits sum.splits if_splits prod.splits)
  have "ref_ok None" by (simp add: ref_ok_def)
  then show "ref_ok ref"
    using assms by (auto simp: replace_identity_def rbind_eq_Inr dest: bind_identity_for_workspace_ref
        split: option.splits sum.splits if_splits prod.splits)
qed

lemma plan_Inr:
  assumes p: "replace_plan_step env trust a c = (c', Inr p)"
    and reg: "st_load (le_st env) (fc_store c) = Inr g" "require_node g (ra_name a) = Inr n"
  shows "rp_node p = n \<and> node_is_active n \<and> ref_ok (rp_ref p) \<and> trusted_target env trust a n (rp_new p)
    \<and> rp_old_instance p = cursor_instance_id (fleet (fc_cache c)) (n_node_id n)"
proof -
  from p reg have act: "life n = ''active''" "n_enabled n"
    by (auto simp: replace_plan_step_def sbind_Inr step_defs die_def split: if_splits)
  with p reg obtain h u pt key c1 new ref where
    t: "parse_ssh_target (ra_host a) None (Some (r_ssh_port n)) = Inr (h, u, pt)"
      "given (ra_host_key a) = Some key" "trust h pt key = Inr ()"
      "replace_identity env (ra_identity_file a) (n\<lparr>n_ssh_host := h, r_ssh_user := u, r_ssh_port := pt\<rparr>) c = (c1, Inr (new, ref))"
      and r: "p = \<lparr>rp_node = n, rp_new = new, rp_ref = ref,
                rp_old_instance = cursor_instance_id (fleet (fc_cache c1)) (n_node_id n)\<rparr>"
    by (auto simp: replace_plan_step_def sbind_Inr step_defs die_def split: if_splits option.splits prod.splits)
  have "fc_cache c1 = fc_cache c"
    by (rule leavesD [where m = "replace_identity env (ra_identity_file a) (n\<lparr>n_ssh_host := h, r_ssh_user := u, r_ssh_port := pt\<rparr>)", OF _ t(4)], intro quiet)
  with r t act replace_identity_Inr [OF t(4)] show ?thesis
    by (simp add: trusted_target_def node_is_active_def)
qed

text \<open>Without an archive the old machine is synced first, with one only the bookkeeping is used.\<close>

lemma archive_Inr:
  assumes "replace_archive env a p c = (c', Inr (old, f))"
  shows "(given (ra_from_backup a) = None \<and> (\<exists>c1 c2 d. fc_cache c1 = fc_cache c
       \<and> dget ''node_id'' d = JStr (n_node_id (rp_node p))
       \<and> old = (case optional_text (dget ''instance_id'' d) of Some i \<Rightarrow> Some i | None \<Rightarrow> rp_old_instance p)
       \<and> final_sync_gate env (rp_node p) ''cannot replace'' c1 = (c2, Inr ()) \<and> fc_cache c' = fc_cache c2))
    \<or> (given (ra_from_backup a) \<noteq> None \<and> old = rp_old_instance p \<and> fc_cache c' = fc_cache c)"
proof (cases "given (ra_from_backup a)")
  case (Some x)
  with assms show ?thesis by (auto simp: replace_archive_def step_defs sbind_def die_def split: if_splits)
next
  case None
  from assms None obtain d c1 c2 r c3 where d: "identity_gate env (rp_node p) ''cannot replace'' c = (c1, Inr d)"
    and g: "final_sync_gate env (rp_node p) ''cannot replace'' c1 = (c2, Inr ())"
    and b: "ask_json env True (rp_node p) [''vcl'', ''backup'', ''create'', ''--json''] c2 = (c3, Inr r)"
    and rest: "doc_ok r" "fc_cache c' = fc_cache c3"
      "old = (case optional_text (dget ''instance_id'' d) of Some i \<Rightarrow> Some i | None \<Rightarrow> rp_old_instance p)"
    by (auto simp: replace_archive_def sbind_Inr Let_def log_op_def sdie_def die_def rbind_eq_Inr split: if_splits)
  have "fc_cache c3 = fc_cache c2"
    by (rule leavesD [where m = "ask_json env True (rp_node p) [''vcl'', ''backup'', ''create'', ''--json'']", OF _ b], intro quiet)
  with identity_gate_Inr [OF d] g rest None show ?thesis by metis
qed

lemma verify_Inr:
  assumes "verify_new env m c = (c', Inr None)"
  shows "\<exists>v. answered env m verify_argv v \<and> dget ''ok'' v = JBool True"
proof -
  from assms obtain ok doc detail c1 where r: "ask_json env False m verify_argv c = (c1, Inr (ok, doc, detail))"
    and t: "(if \<not> ok \<or> doc = None then sret (Some (if detail = [] then ''verify unreachable after restore'' else detail))
     else if doc_ok (ok, doc, detail) then sret None
     else sret (Some ''vcl verify --json is not ok after restore'')) c1 = (c', Inr None)"
    by (auto simp: verify_new_def sbind_Inr)
  from t obtain v where "ok" "doc = Some v" "dget ''ok'' v = JBool True"
    by (auto simp: sret_def doc_ok_def split: if_splits option.splits)
  with ask_json_Inr [OF r [unfolded \<open>doc = Some v\<close>, simplified \<open>ok\<close>]] show ?thesis by blast
qed

lemma confirm_Inr:
  assumes "confirm_new env n m old c = (c', Inr (i, None))"
  shows "\<exists>k d v. i = Some k \<and> answered env m identity_argv d \<and> dget ''node_id'' d = JStr (n_node_id n)
    \<and> optional_text (dget ''instance_id'' d) = Some k \<and> k \<noteq> n_node_id n \<and> old \<noteq> Some k
    \<and> answered env m verify_argv v \<and> dget ''ok'' v = JBool True"
proof -
  from assms obtain ok ident detail c1 where r: "ask_json env False m identity_argv c = (c1, Inr (ok, ident, detail))"
    and t: "(case (if ok then ident else None) of
       None \<Rightarrow> sret (None, Some (if detail = [] then ''identity unreachable after restore'' else detail))
     | Some d \<Rightarrow> (case new_instance n old d of
         (i, Some err) \<Rightarrow> sret (i, Some err)
       | (i, None) \<Rightarrow> sbind (verify_new env m) (\<lambda>failed. sret (i, failed)))) c1 = (c', Inr (i, None))"
    by (auto simp: confirm_new_def sbind_Inr)
  from t obtain d where d: "ok" "ident = Some d" by (auto simp: sret_def split: if_splits option.splits)
  from t d obtain k err where k: "new_instance n old d = (k, err)" by fastforce
  with t d have e: "err = None" "k = i" "verify_new env m c1 = (c', Inr None)"
    by (auto simp: sret_def sbind_Inr split: option.splits)
  from k e have "\<exists>t. i = Some t \<and> dget ''node_id'' d = JStr (n_node_id n)
    \<and> optional_text (dget ''instance_id'' d) = Some t \<and> t \<noteq> n_node_id n \<and> old \<noteq> Some t"
    by (cases "optional_text (dget ''instance_id'' d)") (auto simp: new_instance_def split: if_splits)
  moreover have "answered env m identity_argv d" using ask_json_Inr [of env m identity_argv c c1 d detail] r d by simp
  ultimately show ?thesis using verify_Inr [OF e(3)] by blast
qed

text \<open>A run that changed the registry passed every step before the one that saves it.\<close>

lemma switch_over_run:
  fixes c :: "('s, 'w) controller"
  assumes t: "switch_over env p old i csv c = (c', r)" and ch: "fc_store c' \<noteq> fc_store c"
    and g: "st_load (le_st env) (fc_store c) = Inr g"
  shows "\<exists>x g' u. switch_instance env (n_node_id (rp_node p)) i (n_ssh_host (rp_new p)) (fc_cache c) = (fc_cache c', Inr x)
    \<and> replace_in env p g = Inr g' \<and> st_save (le_st env) g' (fc_store c) = (fc_store c', u) \<and> (\<forall>y. r = Inr y \<longrightarrow> u = Inr ())"
proof -
  let ?S = "fc_store c"
  have eff: "effective ?S c' r" using ch by (simp add: effective_def)
  obtain a c1 where s: "cache_step (switch_instance env (n_node_id (rp_node p)) i (n_ssh_host (rp_new p))) c = (c1, Inr a)"
      "fc_store c1 = ?S"
    and t: "sbind (load_step env) (\<lambda>g. sbind (lift_res (replace_in env p g)) (\<lambda>g'. sbind (save_step env g') (\<lambda>_.
     sbind (disable_remote_users_except_last env (rp_node p)) (\<lambda>_.
     sret \<lparr>rr_ok = True, rr_old_instance = old, rr_new_instance = Some i, rr_host = n_ssh_host (rp_new p),
       rr_csv = csv, rr_error = None\<rparr>)))) c1 = (c', r)"
    by (rule step_through [OF t [unfolded switch_over_def] eff refl]) (auto intro: quiet)
  from t s(2) g obtain g' where g': "replace_in env p g = Inr g'"
    and t: "sbind (save_step env g') (\<lambda>_. sbind (disable_remote_users_except_last env (rp_node p)) (\<lambda>_.
     sret \<lparr>rr_ok = True, rr_old_instance = old, rr_new_instance = Some i, rr_host = n_ssh_host (rp_new p),
       rr_csv = csv, rr_error = None\<rparr>)) c1 = (c', r)"
    using ch by (cases "replace_in env p g") (auto simp: sbind_def load_step_def lift_res_def)
  define tl where "tl = sbind (disable_remote_users_except_last env (rp_node p)) (\<lambda>_.
     sret \<lparr>rr_ok = True, rr_old_instance = old, rr_new_instance = Some i, rr_host = n_ssh_host (rp_new p),
       rr_csv = csv, rr_error = None\<rparr> :: ('s, 'w, replace_result) step)"
  have q: "leaves fc_store tl" "leaves fc_cache tl" unfolding tl_def by (intro quiet)+
  obtain st u where u: "st_save (le_st env) g' ?S = (st, u)" by fastforce
  have "fc_store c' = st \<and> fc_cache c' = fc_cache c1 \<and> (\<forall>y. r = Inr y \<longrightarrow> u = Inr ())"
  proof (cases u)
    case (Inl e)
    with t u s(2) show ?thesis by (auto simp: sbind_def save_step_def)
  next
    case (Inr x)
    with t u s(2) have "tl (c1\<lparr>fc_store := st\<rparr>) = (c', r)" by (simp add: sbind_def save_step_def tl_def)
    with Inr q show ?thesis by (auto dest: leavesD [where m = tl])
  qed
  moreover from s(1) obtain x where "switch_instance env (n_node_id (rp_node p)) i (n_ssh_host (rp_new p)) (fc_cache c) = (fc_cache c1, Inr x)"
    by (auto simp: cache_step_def rbind_eq_Inr split: prod.splits)
  ultimately show ?thesis using g' u by auto
qed

lemma replace_run:
  assumes run: "cmd_node_replace env trust a c = (c', r)" and ch: "fc_store c' \<noteq> fc_store c"
    and reg: "st_load (le_st env) (fc_store c) = Inr g" "require_node g (ra_name a) = Inr n"
  obtains p old f c1 c2 c3 c4 i x g' u where
    "rp_node p = n" "node_is_active n" "ref_ok (rp_ref p)" "trusted_target env trust a n (rp_new p)"
    "rp_old_instance p = cursor_instance_id (fleet (fc_cache c)) (n_node_id n)"
    "fc_cache c1 = fc_cache c" "replace_archive env a p c1 = (c2, Inr (old, f))"
    "confirm_new env n (rp_new p) old c3 = (c4, Inr (Some i, None))"
    "switch_instance env (n_node_id n) i (n_ssh_host (rp_new p)) (fc_cache c2) = (fc_cache c', Inr x)"
    "replace_in env p g = Inr g'" "st_save (le_st env) g' (fc_store c) = (fc_store c', u)" "\<forall>y. r = Inr y \<longrightarrow> u = Inr ()"
proof -
  let ?S = "fc_store c"
  have eff: "effective ?S c' r" using ch by (simp add: effective_def)
  obtain p c1 where p: "replace_plan_step env trust a c = (c1, Inr p)" "fc_store c1 = ?S"
    and t: "sbind (replace_archive env a p) (\<lambda>q. sbind (check_archive env a (rp_node p) (snd q)) (\<lambda>_.
     sbind (restore_on env a (rp_new p) (snd q)) (\<lambda>_.
     sbind (confirm_new env (rp_node p) (rp_new p) (fst q)) (replace_finish env p (fst q))))) c1 = (c', r)"
    by (rule step_through [OF run [unfolded cmd_node_replace_def] eff refl]) (auto intro: quiet)
  from plan_Inr [OF p(1) reg] have pl: "rp_node p = n" "node_is_active n" "ref_ok (rp_ref p)" "trusted_target env trust a n (rp_new p)"
    "rp_old_instance p = cursor_instance_id (fleet (fc_cache c)) (n_node_id n)" by auto
  have ca1: "fc_cache c1 = fc_cache c"
    by (rule leavesD [where m = "replace_plan_step env trust a", OF _ p(1)], intro quiet)
  obtain q c2 where q: "replace_archive env a p c1 = (c2, Inr q)" "fc_store c2 = ?S" and
    t: "sbind (check_archive env a (rp_node p) (snd q)) (\<lambda>_. sbind (restore_on env a (rp_new p) (snd q)) (\<lambda>_.
     sbind (confirm_new env (rp_node p) (rp_new p) (fst q)) (replace_finish env p (fst q)))) c2 = (c', r)"
    by (rule step_through [OF t eff p(2)]) (auto intro: quiet)
  obtain u1 c3 where c3: "check_archive env a (rp_node p) (snd q) c2 = (c3, Inr u1)" "fc_store c3 = ?S" and
    t: "sbind (restore_on env a (rp_new p) (snd q)) (\<lambda>_.
     sbind (confirm_new env (rp_node p) (rp_new p) (fst q)) (replace_finish env p (fst q))) c3 = (c', r)"
    by (rule step_through [OF t eff q(2)]) (auto intro: quiet)
  obtain u2 c4 where c4: "restore_on env a (rp_new p) (snd q) c3 = (c4, Inr u2)" "fc_store c4 = ?S" and
    t: "sbind (confirm_new env (rp_node p) (rp_new p) (fst q)) (replace_finish env p (fst q)) c4 = (c', r)"
    by (rule step_through [OF t eff c3(2)]) (auto intro: quiet)
  obtain o5 c5 where c5: "confirm_new env (rp_node p) (rp_new p) (fst q) c4 = (c5, Inr o5)" "fc_store c5 = ?S" and
    t: "replace_finish env p (fst q) o5 c5 = (c', r)"
    by (rule step_through [OF t eff c4(2)]) (auto intro: quiet)
  have "fc_cache c3 = fc_cache c2" by (rule leavesD [where m = "check_archive env a (rp_node p) (snd q)", OF _ c3(1)], intro quiet)
  moreover have "fc_cache c4 = fc_cache c3" by (rule leavesD [where m = "restore_on env a (rp_new p) (snd q)", OF _ c4(1)], intro quiet)
  moreover have "fc_cache c5 = fc_cache c4" by (rule leavesD [where m = "confirm_new env (rp_node p) (rp_new p) (fst q)", OF _ c5(1)], intro quiet)
  ultimately have ca5: "fc_cache c5 = fc_cache c2" by simp
  from t ch c5(2) obtain i where i: "o5 = (Some i, None)"
    and sw: "switch_over env p (fst q) i (le_csv env (rp_new p) (fc_nodes c5)) c5 = (c', r)"
    by (auto simp: replace_finish_def sret_def split: prod.splits option.splits)
  from switch_over_run [OF sw] ch c5(2) reg(1) obtain x g' u where
    "switch_instance env (n_node_id (rp_node p)) i (n_ssh_host (rp_new p)) (fc_cache c5) = (fc_cache c', Inr x)"
    "replace_in env p g = Inr g'" "st_save (le_st env) g' (fc_store c5) = (fc_store c', u)" "\<forall>y. r = Inr y \<longrightarrow> u = Inr ()"
    by auto
  with pl ca1 q c5 i ca5 show thesis by (intro that [of p c1 c2 "fst q" "snd q" c4 c5 i x g' u]) simp_all
qed

lemma gate_history_inv:
  assumes "final_sync_gate env n what c = (c', Inr ())" "history_inv (fleet (fc_cache c))"
  shows "history_inv (fleet (fc_cache c'))"
  using assms sync_history_inv [of "fc_cache c" "le_app env" "node.truncate n" "le_remote env n (fc_nodes c)" "le_now env" False]
  by (auto simp: final_sync_gate_def sbind_Inr final_sync_def step_defs die_def split: prod.splits if_splits)

text \<open>The registry operation keeps well-formedness and names the new host.\<close>

context registry_store begin

lemma moved_is_kept:
  assumes load: "st_load st s = Inr g" "require_node g nm = Inr n"
    and p: "rp_node p = n" "node_is_active n" "ref_ok (rp_ref p)" "trusted_target env trust a n (rp_new p)"
    and r: "replace_in env p g = Inr g'" and sv: "st_save st g' s = (s', Inr ())" "st_load st s' = Inr g''"
  shows "\<exists>n'. require_node g'' nm = Inr n' \<and> n_node_id n' = n_node_id n \<and> n_ssh_host n' = n_ssh_host (rp_new p) \<and> node_is_active n'"
proof -
  have nm: "n_name n = nm" using load(2) by (auto simp: require_node_def reg_by_name_def die_def find_Some_iff split: option.splits)
  have g': "g' = set_node nm (moved_node p) g" using r nm p(1) by (auto simp: replace_in_def rbind_eq_Inr die_def split: if_splits)
  have t: "validate_ssh_host (n_ssh_host (rp_new p)) = Inr (n_ssh_host (rp_new p))"
    "validate_ssh_user (r_ssh_user (rp_new p)) = Inr (r_ssh_user (rp_new p))" "port_ok (r_ssh_port (rp_new p))"
    using p(4) parse_ssh_target_Inr by (auto simp: trusted_target_def)
  have k: "n_node_id (moved_node p x) = n_node_id x" "n_name (moved_node p x) = n_name x"
    "n_ssh_host (moved_node p x) = n_ssh_host (rp_new p)" "life (moved_node p x) = ''active''" for x
    by (simp_all add: moved_node_def Let_def life_def node.truncate_def node_lifecycle_status_def split: option.split)
  have "node_ok (moved_node p x)" if "node_ok x" for x
    using that t p(3) by (auto simp: moved_node_def Let_def node_ok_def status_ok_def NODE_STATUSES_def ref_ok_def split: option.split)
  from set_node_keeps [of g nm n "moved_node p", OF load_ok [OF load(1)] load(2) this] k p(2)
  have "reg_ok g'" by (simp add: g' node_is_active_def)
  from save_done [OF this sv] have "same_registry (set_node nm (moved_node p) g) g''" by (simp add: g')
  from set_node_require [OF load(2) k(2) this] obtain n' where "require_node g'' nm = Inr n'" "same_node (moved_node p n) n'"
    by blast
  with k show ?thesis by (auto simp: same_node_def node_is_active_def)
qed

end

section \<open>The registry moves to a verified machine\<close>


definition ex_args :: replace_args where
  "ex_args = \<lparr>ra_name = ''tokyo'', ra_host = ''h2'', ra_host_key = Some ''SHA256:k'', ra_identity_file = None, ra_from_backup = None\<rparr>"

definition ex_trust :: "string \<Rightarrow> int \<Rightarrow> string \<Rightarrow> unit res" where
  "ex_trust h p key = (if h = ''h2'' \<and> key = ''SHA256:k'' then Inr () else die ''host key mismatch'')"


section \<open>Not atomic\<close>

text \<open>
  The instance is switched in \<open>fleet.db\<close> before the registry is saved.  If the save fails, the new
  instance is the active one although the registry names the old machine, and a later sync of the
  old machine, whose instance is in the history already, leaves it so.
\<close>

lemma replace_half_done:
  assumes sw: "switch_instance env (n_node_id (rp_node p)) i (n_ssh_host (rp_new p)) (fc_cache c) = (w, Inr x)"
    and load: "st_load (le_st env) (fc_store c) = Inr g" "replace_in env p g = Inr g'"
    and save: "st_save (le_st env) g' (fc_store c) = (fc_store c, Inl e)" and inv: "history_inv (fleet (fc_cache c))"
  shows "\<exists>c'. switch_over env p old i csv c = (c', Inl e) \<and> fc_store c' = fc_store c
    \<and> i_instance_id ` {x \<in> set (instance_history (fleet (fc_cache c'))). is_active_of (n_node_id (rp_node p)) x} = {i}"
proof -
  have "switch_over env p old i csv c = (c\<lparr>fc_cache := w\<rparr>, Inl e)"
    by (simp add: switch_over_def sbind_def cache_step_def sw load_step_def lift_res_def load save save_step_def)
  with switch_effect [OF sw inv] show ?thesis by simp
qed

lemma known_instance_stays:
  assumes "x \<in> set (instance_history (fleet w))" "i_node_id x = nid" "text_or_none iid = Some (i_instance_id x)"
    and "i_instance_id x \<noteq> nid"
  shows "record_instance app nid iid ep host ts w = (w, Inr ())"
  using assms by (auto simp: record_instance_def list_ex_iff)

end
