(* ===== verification/BackupFormat.thy ===== *)
theory BackupFormat
  imports PyValue
begin

text \<open>
  The backup archive (\<open>lib/vincula-backup.py\<close>): what a default backup leaves out, the manifest, the
  reading of a tar file with its caps, the verification of an archive and its creation.

  A tar file is the list of its members with their declared size and the bytes that reading them
  gives.  The library functions the code calls are fields of \<open>codec\<close>: \<open>json.loads\<close> on decoded bytes,
  the encoded \<open>json.dumps\<close>, the two kinds of decoding, SHA-256, the SQLite backup, \<open>age\<close>.
\<close>

section \<open>Library functions and files\<close>

datatype member_kind = Regular | Directory | Special

record tar_member =
  tm_name :: string
  tm_kind :: member_kind
  tm_size :: int
  tm_data :: string

datatype 'c blob = Tarball "tar_member list" | Cipher 'c | Junk

record 'c codec =
  cd_loads :: "string \<Rightarrow> json option"
  cd_dumps :: "json \<Rightarrow> string"
  cd_decode :: "string \<Rightarrow> string option"
  cd_lenient :: "string \<Rightarrow> string"
  cd_encode :: "string \<Rightarrow> string"
  cd_sha256 :: "string \<Rightarrow> string"
  cd_snapshot :: "string \<Rightarrow> string"
  cd_age :: bool
  cd_encrypt :: "'c blob \<Rightarrow> 'c option"
  cd_decrypt :: "'c \<Rightarrow> 'c blob option"

definition tar_error :: "'a res" where "tar_error = Inl (RuntimeError ''TarError'')"
definition os_error :: "'a res" where "os_error = Inl (RuntimeError ''OSError'')"

definition COMPONENT_NAMES :: "string list" where
  "COMPONENT_NAMES = [''state.json'', ''users.json'', ''config.toml'', ''accounting.db'', ''VERSION'']"

definition IN_MEMORY_MEMBERS :: "string list" where
  "IN_MEMORY_MEMBERS = [''manifest.json'', ''state.json'', ''users.json'', ''config.toml'', ''VERSION'']"

definition MAX_TEXT_MEMBER_BYTES :: int where "MAX_TEXT_MEMBER_BYTES = 16 * 1024 * 1024"
definition MAX_MEMBER_BYTES :: int where "MAX_MEMBER_BYTES = 1024 * 1024 * 1024"
definition MAX_ARCHIVE_BYTES :: int where "MAX_ARCHIVE_BYTES = 2 * 1024 * 1024 * 1024"

definition age_suffix :: "string \<Rightarrow> bool" where "age_suffix = ends_with ''.age''"

definition resolve_backup_output :: "string \<Rightarrow> bool \<Rightarrow> string" where
  "resolve_backup_output path include_secrets =
     (if \<not> include_secrets \<or> age_suffix path then path
      else if ends_with ''.tar'' path then path @ ''.age'' else path @ ''.tar.age'')"

section \<open>Member names\<close>

text \<open>\<open>Path(name).parts\<close> without the root: the components between slashes, no empty one and no dot.\<close>

definition path_parts :: "string \<Rightarrow> string list" where
  "path_parts p = filter (\<lambda>c. c \<noteq> [] \<and> c \<noteq> ''.'') (split_on CHR ''/'' p)"

definition path_name :: "string \<Rightarrow> string" where
  "path_name p = (if path_parts p = [] then [] else last (path_parts p))"

definition safe_member_name :: "string \<Rightarrow> bool" where
  "safe_member_name name \<longleftrightarrow> name \<noteq> [] \<and> \<not> starts_with ''/'' name \<and> \<not> starts_with [char_of (92 :: nat)] name
     \<and> ''..'' \<notin> set (path_parts name)"

definition member_size_cap :: "string \<Rightarrow> int" where
  "member_size_cap name = (if name \<in> set IN_MEMORY_MEMBERS then min MAX_TEXT_MEMBER_BYTES MAX_MEMBER_BYTES else MAX_MEMBER_BYTES)"

section \<open>What a default backup leaves out\<close>

text \<open>\<open>re.match\<close> of a key, blanks and an equals sign; \<open>re.search\<close> with \<open>MULTILINE\<close>: at the start of the text or after a newline.\<close>

definition key_assigned :: "string \<Rightarrow> string \<Rightarrow> bool" where
  "key_assigned key s = (starts_with key s
     \<and> starts_with ''='' (dropWhile is_space (drop (length key) s)))"

fun after_newlines :: "string \<Rightarrow> string list" where
  "after_newlines [] = []"
| "after_newlines (c # s) = (if code c = 10 then s # after_newlines s else after_newlines s)"

definition CLASH_KEY :: string where "CLASH_KEY = ''clash_api_secret''"

definition clash_secret_search :: "string \<Rightarrow> bool" where
  "clash_secret_search t = list_ex (key_assigned CLASH_KEY) (t # after_newlines t)"

definition DQUOTE :: string where "DQUOTE = [char_of (34 :: nat)]"
definition NEWLINE :: string where "NEWLINE = [char_of (10 :: nat)]"

fun uuid_key_search :: "string \<Rightarrow> bool" where
  "uuid_key_search [] = False"
| "uuid_key_search (c # s) =
     ((starts_with (DQUOTE @ ''uuid'' @ DQUOTE) (c # s) \<and> starts_with '':'' (dropWhile is_space (drop 6 (c # s))))
      \<or> uuid_key_search s)"

text \<open>\<open>str.splitlines(keepends=True)\<close>.\<close>

fun keep_lines_acc :: "string \<Rightarrow> string \<Rightarrow> string list" where
  "keep_lines_acc acc [] = (if acc = [] then [] else [rev acc])"
| "keep_lines_acc acc [c] = [rev (c # acc)]"
| "keep_lines_acc acc (c # d # s) =
     (if code c = 13 \<and> code d = 10 then rev (d # c # acc) # keep_lines_acc [] s
      else if is_line_break c then rev (c # acc) # keep_lines_acc [] (d # s)
      else keep_lines_acc (c # acc) (d # s))"

definition keep_lines :: "string \<Rightarrow> string list" where
  "keep_lines s = keep_lines_acc [] s"

definition strip_config_toml :: "string \<Rightarrow> string" where
  "strip_config_toml text = concat (filter (\<lambda>line. \<not> key_assigned CLASH_KEY line) (keep_lines text))"

text \<open>A loop \<open>for x in v or []\<close> that changes the dicts of a list in place; a value that cannot be iterated raises.\<close>

definition iterable :: "json \<Rightarrow> bool" where
  "iterable v = (case v of JInt _ \<Rightarrow> \<not> truthy v | JBool _ \<Rightarrow> \<not> truthy v | JFloat _ \<Rightarrow> \<not> truthy v | _ \<Rightarrow> True)"

definition each_dict :: "(dict \<Rightarrow> dict res) \<Rightarrow> json \<Rightarrow> json res" where
  "each_dict f v = (if \<not> iterable v then Inl TypeError else (case v of
     JList xs \<Rightarrow> rbind (rmap (\<lambda>x. case x of JObj d \<Rightarrow> rbind (f d) (\<lambda>d'. Inr (JObj d')) | _ \<Rightarrow> Inr x) xs) (\<lambda>ys. Inr (JList ys))
   | _ \<Rightarrow> Inr v))"

definition in_place :: "string \<Rightarrow> (json \<Rightarrow> json res) \<Rightarrow> dict \<Rightarrow> dict res" where
  "in_place k f d = rbind (f (dget k d)) (\<lambda>v. Inr (if has_key k d then AList.update k v d else d))"

definition strip_state :: "dict \<Rightarrow> dict" where
  "strip_state doc = (case map_of doc ''node'' of
     Some (JObj node) \<Rightarrow> AList.update ''node'' (JObj (AList.delete ''reality_private_key'' node)) doc | _ \<Rightarrow> doc)"

definition strip_user :: "dict \<Rightarrow> dict res" where
  "strip_user = in_place ''credentials'' (each_dict (\<lambda>c. Inr (AList.delete ''uuid'' c)))"

definition strip_users :: "dict \<Rightarrow> dict res" where
  "strip_users = in_place ''users'' (each_dict strip_user)"

definition the_node :: "dict \<Rightarrow> dict" where
  "the_node state = (case dget ''node'' state of JObj n \<Rightarrow> n | _ \<Rightarrow> [])"

text \<open>All dicts under \<open>users[].credentials[]\<close>.\<close>

definition credentials_of :: "dict \<Rightarrow> dict list res" where
  "credentials_of users = rbind (dicts_of (dget ''users'' users)) (\<lambda>us.
     rbind (rmap (\<lambda>u. dicts_of (dget ''credentials'' u)) us) (\<lambda>css. Inr (concat css)))"

definition assert_secretless :: "dict \<Rightarrow> dict \<Rightarrow> string \<Rightarrow> unit res" where
  "assert_secretless state users toml_text =
     (if has_key ''reality_private_key'' (the_node state)
      then Inl (ValueError ''secretless state still contains reality_private_key'')
      else rbind (dicts_of (dget ''users'' users)) (\<lambda>us.
           rbind (rfold (\<lambda>u _. rbind (dicts_of (dget ''credentials'' u)) (\<lambda>cs.
              if list_ex (has_key ''uuid'') cs
              then Inl (ValueError ''secretless users still contain credentials[].uuid'') else Inr ())) us ()) (\<lambda>_.
           if clash_secret_search toml_text then Inl (ValueError ''secretless config still contains clash_api_secret'')
           else Inr ())))"

end
