(* ===== verification/BackupArchive.thy ===== *)
theory BackupArchive
  imports BackupFormat
begin

text \<open>
  Reading, verifying and creating a backup archive (\<open>lib/vincula-backup.py\<close>).  Small members are
  kept in memory; a large one is written under its last path component into the extraction
  directory, so two members with that component share the file.
\<close>

definition die_backup :: "string \<Rightarrow> 'a res" where
  "die_backup msg = Inl (SystemExit msg 1)"

section \<open>Reading\<close>

datatype source = Bytes string | OnDisk string

record loaded =
  ld_members :: "(string \<times> source) list"
  ld_disk :: "(string \<times> string) list"
  ld_total :: int

text \<open>\<open>taken\<close> is the name of the file being read in the extraction directory, when it lies there.\<close>

definition read_member :: "string option \<Rightarrow> tar_member \<Rightarrow> loaded \<Rightarrow> loaded res" where
  "read_member taken m l =
     (let name = tm_name m; cap = member_size_cap name; copied = int (length (tm_data m)) in
      if \<not> safe_member_name name then tar_error
      else if tm_kind m = Directory then Inr l
      else if tm_kind m \<noteq> Regular then tar_error
      else if tm_size m < 0 then tar_error
      else if cap < tm_size m then tar_error
      else if MAX_ARCHIVE_BYTES < ld_total l + tm_size m then tar_error
      else if cap < copied then tar_error
      else if copied \<noteq> tm_size m then tar_error
      else if name \<in> set IN_MEMORY_MEMBERS
      then Inr (l\<lparr>ld_members := AList.update name (Bytes (tm_data m)) (ld_members l), ld_total := ld_total l + tm_size m\<rparr>)
      else if path_name name = [] then os_error
      else if taken = Some (path_name name) then Inl Unsupported
      else Inr (l\<lparr>ld_members := AList.update name (OnDisk (path_name name)) (ld_members l),
             ld_disk := AList.update (path_name name) (tm_data m) (ld_disk l), ld_total := ld_total l + tm_size m\<rparr>))"

definition read_tar_members :: "string option \<Rightarrow> tar_member list \<Rightarrow> loaded res" where
  "read_tar_members taken ms = rfold (read_member taken) ms \<lparr>ld_members = [], ld_disk = [], ld_total = 0\<rparr>"

definition member_bytes :: "loaded \<Rightarrow> source \<Rightarrow> string res" where
  "member_bytes l s = (case s of Bytes b \<Rightarrow> Inr b
     | OnDisk f \<Rightarrow> (case map_of (ld_disk l) f of Some b \<Rightarrow> Inr b | None \<Rightarrow> os_error))"

text \<open>\<open>json.loads(_as_bytes(m).decode(...))\<close>; \<open>None\<close> stands for the exceptions the callers catch.\<close>

definition as_bytes :: "loaded \<Rightarrow> source \<Rightarrow> string option" where
  "as_bytes l s = (case member_bytes l s of Inl e \<Rightarrow> None
     | Inr b \<Rightarrow> (case s of Bytes _ \<Rightarrow> Some b
         | OnDisk _ \<Rightarrow> if MAX_TEXT_MEMBER_BYTES < int (length b) then None else Some b))"

definition member_json :: "'c codec \<Rightarrow> loaded \<Rightarrow> source \<Rightarrow> json option" where
  "member_json cd l s = (case as_bytes l s of None \<Rightarrow> None | Some b \<Rightarrow> cd_loads cd b)"

section \<open>Verification\<close>

text \<open>A verification result: the error code, or the manifest.\<close>

type_synonym verdict = "string + dict"

definition secret_bearing_consistent :: "bool \<Rightarrow> string \<Rightarrow> string \<Rightarrow> bool" where
  "secret_bearing_consistent secret_bearing encryption path =
     (if secret_bearing then encryption = ''age'' \<and> age_suffix path else encryption = ''none'' \<and> \<not> age_suffix path)"

text \<open>The \<open>files\<close> entries as a map from path to hash; \<open>None\<close> where an entry is malformed.\<close>

fun hash_by_path :: "json list \<Rightarrow> (string \<times> string) list \<Rightarrow> (string \<times> string) list option" where
  "hash_by_path [] acc = Some acc"
| "hash_by_path (e # es) acc = (case e of
     JObj d \<Rightarrow> if has_key ''path'' d \<and> has_key ''sha256'' d
       then hash_by_path es (AList.update (py_str (dget ''path'' d)) (lower (py_str (dget ''sha256'' d))) acc) else None
   | _ \<Rightarrow> None)"

fun check_digests :: "'c codec \<Rightarrow> loaded \<Rightarrow> (string \<times> string) list \<Rightarrow> string list \<Rightarrow> bool res" where
  "check_digests cd l hashes [] = Inr True"
| "check_digests cd l hashes (name # names) =
     (case map_of (ld_members l) name of None \<Rightarrow> Inl (KeyError name)
      | Some s \<Rightarrow> rbind (member_bytes l s) (\<lambda>b.
          if map_of hashes name \<noteq> Some (cd_sha256 cd b) then Inr False else check_digests cd l hashes names))"

definition verify_components :: "'c codec \<Rightarrow> loaded \<Rightarrow> dict \<Rightarrow> verdict res" where
  "verify_components cd l m = (case (dget ''included_components'' m, dget ''files'' m) of
     (JList included, JList files) \<Rightarrow>
       (let names = map py_str included in
        case hash_by_path files [] of
          None \<Rightarrow> Inr (Inl ''invalid_archive'')
        | Some hashes \<Rightarrow>
            if set names \<noteq> set (map fst hashes) then Inr (Inl ''invalid_archive'')
            else if set names \<noteq> set (filter (\<lambda>n. n \<noteq> ''manifest.json'') (map fst (ld_members l)))
            then Inr (Inl ''invalid_archive'')
            else rbind (check_digests cd l hashes names) (\<lambda>ok.
              if ok then Inr (Inr m) else Inr (Inl ''checksum_mismatch'')))
   | _ \<Rightarrow> Inr (Inl ''invalid_archive''))"

definition verify_flags :: "dict \<Rightarrow> string \<Rightarrow> string option" where
  "verify_flags m path =
     (let sb = truthy (dget ''secret_bearing'' m) in
      if \<not> py_eq_int (dget ''schema_version'' m) 1 then Some ''unsupported_schema''
      else case dget ''encryption'' m of
        JStr enc \<Rightarrow>
          if enc \<notin> {''none'', ''age''} then Some ''invalid_archive''
          else if sb \<and> enc \<noteq> ''age'' then Some ''secret_bearing_unencrypted''
          else if \<not> secret_bearing_consistent sb enc path
          then (if sb then Some ''secret_bearing_unencrypted'' else Some ''invalid_archive'')
          else None
      | _ \<Rightarrow> Some ''invalid_archive'')"

definition verify_members :: "'c codec \<Rightarrow> loaded \<Rightarrow> string \<Rightarrow> verdict res" where
  "verify_members cd l path = (case map_of (ld_members l) ''manifest.json'' of
     None \<Rightarrow> Inr (Inl ''missing_manifest'')
   | Some s \<Rightarrow> (case member_json cd l s of
       Some (JObj m) \<Rightarrow> (case verify_flags m path of Some err \<Rightarrow> Inr (Inl err) | None \<Rightarrow> verify_components cd l m)
     | _ \<Rightarrow> Inr (Inl ''invalid_archive'')))"

text \<open>The content checks: an error code, or \<open>None\<close>.\<close>

definition invalid_archive :: "string option" where "invalid_archive = Some ''invalid_archive''"

definition secretless_state :: "json option \<Rightarrow> string option" where
  "secretless_state doc = (case doc of
     None \<Rightarrow> invalid_archive
   | Some (JObj d) \<Rightarrow> if has_key ''reality_private_key'' (the_node d) then invalid_archive else None
   | Some _ \<Rightarrow> None)"

definition secretless_users :: "'c codec \<Rightarrow> string option \<Rightarrow> json option \<Rightarrow> string option res" where
  "secretless_users cd bytes doc = (case (bytes, doc) of
     (Some b, Some v) \<Rightarrow>
       if uuid_key_search (cd_lenient cd b) then Inr invalid_archive
       else (case v of
           JObj users \<Rightarrow> (case assert_secretless [(''node'', JObj [])] users [] of
               Inr _ \<Rightarrow> Inr None
             | Inl (ValueError _) \<Rightarrow> Inr invalid_archive
             | Inl e \<Rightarrow> Inl e)
         | _ \<Rightarrow> Inr None)
   | _ \<Rightarrow> Inr invalid_archive)"

definition assert_secretless_members :: "'c codec \<Rightarrow> loaded \<Rightarrow> string option res" where
  "assert_secretless_members cd l =
     (let get = map_of (ld_members l);
          st = (case get ''state.json'' of None \<Rightarrow> None | Some s \<Rightarrow> secretless_state (member_json cd l s)) in
      if st \<noteq> None then Inr st
      else rbind (case get ''users.json'' of None \<Rightarrow> Inr None
             | Some s \<Rightarrow> secretless_users cd (as_bytes l s) (member_json cd l s)) (\<lambda>us.
        if us \<noteq> None then Inr us
        else Inr (case get ''config.toml'' of None \<Rightarrow> None
          | Some s \<Rightarrow> (case as_bytes l s of None \<Rightarrow> invalid_archive
              | Some b \<Rightarrow> if clash_secret_search (cd_lenient cd b) then invalid_archive else None))))"

definition live_credential :: "dict \<Rightarrow> bool" where
  "live_credential c = (dget ''status'' c = JStr ''active'' \<and> truthy (dget ''uuid'' c))"

definition bearing_state :: "json option \<Rightarrow> string option" where
  "bearing_state doc = (case doc of
     Some (JObj d) \<Rightarrow> if truthy (dget ''reality_private_key'' (the_node d)) then None else invalid_archive
   | _ \<Rightarrow> invalid_archive)"

definition bearing_users :: "json option \<Rightarrow> string option res" where
  "bearing_users doc = (case doc of
     None \<Rightarrow> Inr invalid_archive
   | Some (JObj users) \<Rightarrow> (case dget ''users'' users of
       JList (u # us) \<Rightarrow> rbind (credentials_of users) (\<lambda>cs.
         Inr (if list_ex live_credential cs then None else invalid_archive))
     | _ \<Rightarrow> Inr None)
   | Some _ \<Rightarrow> Inr None)"

definition assert_secret_bearing_members :: "'c codec \<Rightarrow> loaded \<Rightarrow> string option res" where
  "assert_secret_bearing_members cd l =
     (let get = map_of (ld_members l);
          st = (case get ''state.json'' of None \<Rightarrow> None | Some s \<Rightarrow> bearing_state (member_json cd l s)) in
      if st \<noteq> None then Inr st
      else rbind (case get ''users.json'' of None \<Rightarrow> Inr None | Some s \<Rightarrow> bearing_users (member_json cd l s)) (\<lambda>us.
        if us \<noteq> None then Inr us
        else Inr (case get ''config.toml'' of None \<Rightarrow> None
          | Some s \<Rightarrow> (case as_bytes l s of None \<Rightarrow> invalid_archive
              | Some b \<Rightarrow> if clash_secret_search (cd_lenient cd b) then None else invalid_archive))))"

text \<open>\<open>_verify_members\<close> and the content check for the kind of archive the manifest declares.\<close>

definition verify_loaded :: "'c codec \<Rightarrow> loaded \<Rightarrow> string \<Rightarrow> verdict res" where
  "verify_loaded cd l path = rbind (verify_members cd l path) (\<lambda>v. case v of
     Inl err \<Rightarrow> Inr (Inl err)
   | Inr m \<Rightarrow> rbind (if truthy (dget ''secret_bearing'' m) then assert_secret_bearing_members cd l
               else assert_secretless_members cd l) (\<lambda>bad.
       case bad of Some err \<Rightarrow> Inr (Inl err) | None \<Rightarrow> Inr (Inr m)))"

text \<open>The file at a path, \<open>None\<close> where there is none; the identity file of \<open>age\<close> exists or not.\<close>

definition load_members :: "'c codec \<Rightarrow> bool \<Rightarrow> string \<Rightarrow> 'c blob option \<Rightarrow> (string + loaded) res" where
  "load_members cd identity path file = (case file of
     None \<Rightarrow> Inr (Inl ''invalid_archive'')
   | Some b \<Rightarrow>
       if age_suffix path \<and> \<not> identity then Inr (Inl ''age_identity_required'')
       else if age_suffix path \<and> \<not> cd_age cd then Inr (Inl ''age_required'')
       else (let plain = (if age_suffix path
               then (case b of Cipher c \<Rightarrow> cd_decrypt cd c | _ \<Rightarrow> None) else Some b);
                 taken = (if age_suffix path then Some ''archive.tar'' else None) in
             case plain of
               None \<Rightarrow> Inr (Inl ''failed'')
             | Some (Tarball ms) \<Rightarrow> (case read_tar_members taken ms of
                 Inr l \<Rightarrow> Inr (Inr l)
               | Inl Unsupported \<Rightarrow> Inl Unsupported
               | Inl e \<Rightarrow> Inr (Inl ''invalid_archive''))
             | Some _ \<Rightarrow> Inr (Inl ''invalid_archive'')))"

definition verify_archive :: "'c codec \<Rightarrow> bool \<Rightarrow> string \<Rightarrow> 'c blob option \<Rightarrow> verdict res" where
  "verify_archive cd identity path file = rbind (load_members cd identity path file) (\<lambda>x. case x of
     Inl err \<Rightarrow> Inr (Inl err) | Inr l \<Rightarrow> verify_loaded cd l path)"

section \<open>Creation\<close>

text \<open>The state directory of a node and its accounting database, the bytes of each file.\<close>

record node_files =
  nf_state :: "string option"
  nf_users :: "string option"
  nf_config :: "string option"
  nf_version :: "string option"
  nf_accounting :: "string option"

text \<open>\<open>strip_secretless\<close> on the parsed documents; a document that is no object has no \<open>get\<close>.\<close>

definition strip_secretless :: "json \<Rightarrow> json \<Rightarrow> string \<Rightarrow> (dict \<times> dict \<times> string) res" where
  "strip_secretless state users toml_text = (case (state, users) of
     (JObj s, JObj u) \<Rightarrow> rbind (strip_users u) (\<lambda>u'. Inr (strip_state s, u', strip_config_toml toml_text))
   | _ \<Rightarrow> Inl AttributeError)"

definition assemble_components :: "'c codec \<Rightarrow> node_files \<Rightarrow> bool \<Rightarrow> (string \<times> string) list res" where
  "assemble_components cd nf include_secrets =
     (case (nf_state nf, nf_users nf, nf_config nf) of
        (Some st, Some us, Some cf) \<Rightarrow>
          (let version = (case nf_version nf of None \<Rightarrow> [] | Some v \<Rightarrow> [(''VERSION'', v)]);
               db = (case nf_accounting nf of None \<Rightarrow> [] | Some d \<Rightarrow> [(''accounting.db'', cd_snapshot cd d)]) in
           rbind (if include_secrets then Inr (st, us, cf)
                  else (case (cd_loads cd st, cd_loads cd us, cd_decode cd cf) of
                      (Some sv, Some uv, Some t) \<Rightarrow>
                        rbind (strip_secretless sv uv t) (\<lambda>(s, u, t').
                        rbind (assert_secretless s u t') (\<lambda>_.
                        Inr (cd_dumps cd (JObj s), cd_dumps cd (JObj u), cd_encode cd t')))
                    | (Some sv, Some uv, None) \<Rightarrow> Inl (ValueError ''UnicodeDecodeError'')
                    | _ \<Rightarrow> die_backup ''cannot parse state/users JSON''))
             (\<lambda>(s, u, t). Inr ([(''state.json'', s), (''users.json'', u), (''config.toml'', t)] @ version @ db)))
      | _ \<Rightarrow> die_backup ''required file not found'')"

definition build_manifest ::
    "string \<Rightarrow> string \<Rightarrow> string \<Rightarrow> string \<Rightarrow> string list \<Rightarrow> bool \<Rightarrow> string \<Rightarrow> (string \<Rightarrow> string) \<Rightarrow> dict" where
  "build_manifest version created nid iid included secret_bearing encryption hash =
     [(''schema_version'', JInt 1), (''vincula_version'', JStr version), (''created_at'', JStr created),
      (''source_node_id'', JStr nid), (''source_instance_id'', JStr iid),
      (''included_components'', JList (map JStr included)), (''secret_bearing'', JBool secret_bearing),
      (''encryption'', JStr encryption),
      (''files'', JList (map (\<lambda>n. JObj [(''path'', JStr n), (''sha256'', JStr (hash n))]) included))]"

definition tar_file :: "string \<Rightarrow> string \<Rightarrow> tar_member" where
  "tar_file name data = \<lparr>tm_name = name, tm_kind = Regular, tm_size = int (length data), tm_data = data\<rparr>"

definition write_tar :: "string \<Rightarrow> (string \<times> string) list \<Rightarrow> tar_member list res" where
  "write_tar manifest_bytes members =
     (if MAX_ARCHIVE_BYTES < int (length manifest_bytes) then Inl (ValueError ''archive exceeds'')
      else rbind (rfold (\<lambda>(name, data) total.
          if member_size_cap name < int (length data) then Inl (ValueError ''tar member exceeds'')
          else if MAX_ARCHIVE_BYTES < total + int (length data) then Inl (ValueError ''archive exceeds'')
          else Inr (total + int (length data))) members (int (length manifest_bytes))) (\<lambda>_.
        Inr (tar_file ''manifest.json'' manifest_bytes # map (\<lambda>(n, d). tar_file n d) members)))"

text \<open>The identity and the version the manifest names.\<close>

definition source_identity :: "'c codec \<Rightarrow> (string \<times> string) list \<Rightarrow> string option \<Rightarrow> (string \<times> string \<times> string) res" where
  "source_identity cd comps given_version =
     (case map_of comps ''state.json'' of None \<Rightarrow> Inl (KeyError ''state.json'') | Some st \<Rightarrow>
        (case cd_loads cd st of
           None \<Rightarrow> Inl (ValueError ''JSONDecodeError'')
         | Some (JObj d) \<Rightarrow>
             (let text = (\<lambda>k x. py_str (py_or (dget k x) (JStr [])));
                  nid = text ''node_id'' (the_node d); iid = text ''instance_id'' (the_node d) in
              if nid = [] \<or> iid = [] then die_backup ''state.json missing node.node_id or node.instance_id''
              else rbind (case given_version of
                  Some (c # v) \<Rightarrow> Inr (c # v)
                | _ \<Rightarrow> (case map_of comps ''VERSION'' of
                    Some b \<Rightarrow> (case cd_decode cd b of None \<Rightarrow> Inl (ValueError ''UnicodeDecodeError'') | Some t \<Rightarrow> Inr (strip t))
                  | None \<Rightarrow> Inr (text ''project_version'' d))) (\<lambda>v.
                if v = [] then die_backup ''cannot determine vincula_version for manifest'' else Inr (nid, iid, v)))
         | Some _ \<Rightarrow> Inl AttributeError))"

record 'c backup_result =
  bk_path :: string
  bk_blob :: "'c blob"
  bk_manifest :: dict

definition die_on_os :: "'a res \<Rightarrow> 'a res" where
  "die_on_os r = (case r of Inl (RuntimeError m) \<Rightarrow> die_backup m | Inl (ValueError m) \<Rightarrow> die_backup m | _ \<Rightarrow> r)"

definition included_components :: "(string \<times> string) list \<Rightarrow> (string \<times> string) list" where
  "included_components comps = List.map_filter (\<lambda>n. map_option (Pair n) (map_of comps n)) COMPONENT_NAMES"

definition manifest_of ::
    "'c codec \<Rightarrow> bool \<Rightarrow> string \<Rightarrow> (string \<times> string) list \<Rightarrow> string \<times> string \<times> string \<Rightarrow> dict" where
  "manifest_of cd include_secrets created comps who = (case who of (nid, iid, version) \<Rightarrow>
     build_manifest version created nid iid (map fst comps) include_secrets
       (if include_secrets then ''age'' else ''none'') (\<lambda>n. cd_sha256 cd (the (map_of comps n))))"

text \<open>The staged archive is read back and verified before anything is written.\<close>

definition self_check :: "'c codec \<Rightarrow> bool \<Rightarrow> string \<Rightarrow> tar_member list \<Rightarrow> unit res" where
  "self_check cd include_secrets output staged =
     rbind (die_on_os (read_tar_members None staged)) (\<lambda>inner.
     rbind (verify_members cd inner output) (\<lambda>checked. case checked of
       Inl err \<Rightarrow> die_backup err
     | Inr _ \<Rightarrow>
         rbind (if include_secrets then assert_secret_bearing_members cd inner
                else assert_secretless_members cd inner) (\<lambda>bad.
           case bad of Some err \<Rightarrow> die_backup err | None \<Rightarrow> Inr ())))"

definition seal :: "'c codec \<Rightarrow> bool \<Rightarrow> string \<Rightarrow> tar_member list \<Rightarrow> dict \<Rightarrow> 'c backup_result res" where
  "seal cd include_secrets output staged m =
     (if include_secrets
      then (case cd_encrypt cd (Tarball staged) of
          None \<Rightarrow> die_backup ''age encryption failed''
        | Some x \<Rightarrow> Inr \<lparr>bk_path = output, bk_blob = Cipher x, bk_manifest = m\<rparr>)
      else Inr \<lparr>bk_path = output, bk_blob = Tarball staged, bk_manifest = m\<rparr>)"

definition create_backup ::
    "'c codec \<Rightarrow> node_files \<Rightarrow> bool \<Rightarrow> string \<Rightarrow> bool \<Rightarrow> string \<Rightarrow> string option \<Rightarrow> 'c backup_result res" where
  "create_backup cd nf include_secrets path recipient created given_version =
     (if include_secrets \<and> \<not> recipient then die_backup ''Secret-bearing backup requires --age-recipient FILE.''
      else if include_secrets \<and> \<not> cd_age cd then die_backup ''Secret-bearing backup requires age.''
      else (let output = resolve_backup_output path include_secrets in
        rbind (assemble_components cd nf include_secrets) (\<lambda>comps0.
        let comps = included_components comps0 in
        rbind (source_identity cd comps given_version) (\<lambda>who.
        let m = manifest_of cd include_secrets created comps who in
        rbind (die_on_os (write_tar (cd_dumps cd (JObj m)) comps)) (\<lambda>staged.
        rbind (self_check cd include_secrets output staged) (\<lambda>_.
        seal cd include_secrets output staged m))))))"

end
