(* ===== verification/BackupProps.thy ===== *)
theory BackupProps
  imports BackupArchive AcctDaemon
begin

text \<open>
  What the backup format guarantees: bounds of reading an archive nobody vouches for, integrity of
  an accepted one, that a created archive verifies, and that a default one does not depend on the
  secrets of the node.  Last, the line of a configuration file that is not recognised as a secret.
\<close>

section \<open>Bounds of reading\<close>

definition regular_bytes :: "tar_member list \<Rightarrow> int" where
  "regular_bytes ms = sum_list (map (\<lambda>m. int (length (tm_data m))) (filter (\<lambda>m. tm_kind m = Regular) ms))"

text \<open>A file name that stays in its directory.\<close>

definition plain_name :: "string \<Rightarrow> bool" where
  "plain_name f \<longleftrightarrow> f \<noteq> [] \<and> f \<noteq> ''.'' \<and> f \<noteq> ''..'' \<and> CHR ''/'' \<notin> set f"

lemma split_on_parts: "p \<in> set (split_on d s) \<Longrightarrow> d \<notin> set p"
proof (induction s arbitrary: p)
  case (Cons c s)
  then show ?case by (cases "split_on d s") (auto split: if_splits)
qed simp

lemma safe_name_plain:
  assumes "safe_member_name n" "path_name n \<noteq> []"
  shows "plain_name (path_name n)"
proof -
  have ne: "path_parts n \<noteq> []" using assms(2) by (auto simp: path_name_def)
  then have l: "path_name n \<in> set (path_parts n)" by (simp add: path_name_def)
  then have "path_name n \<noteq> [] \<and> path_name n \<noteq> ''.''" "path_name n \<in> set (split_on CHR ''/'' n)"
    by (auto simp: path_parts_def)
  moreover have "path_name n \<noteq> ''..''" using l assms(1) by (auto simp: safe_member_name_def)
  ultimately show ?thesis using split_on_parts by (auto simp: plain_name_def)
qed

definition read_inv :: "tar_member list \<Rightarrow> loaded \<Rightarrow> bool" where
  "read_inv ms l \<longleftrightarrow> ld_total l = regular_bytes ms \<and> ld_total l \<le> MAX_ARCHIVE_BYTES
     \<and> (\<forall>f \<in> set (map fst (ld_disk l)). plain_name f)
     \<and> (\<forall>(n, s) \<in> set (ld_members l). safe_member_name n
          \<and> (\<forall>b. s = Bytes b \<longrightarrow> int (length b) \<le> MAX_TEXT_MEMBER_BYTES))
     \<and> (\<forall>(f, b) \<in> set (ld_disk l). int (length b) \<le> MAX_MEMBER_BYTES)"

lemma update_set: "(k, v) \<in> set (AList.update a b xs) \<Longrightarrow> (k, v) = (a, b) \<or> (k, v) \<in> set xs"
  by (induction xs) (auto split: if_splits)

lemma read_member_cases:
  assumes "read_member t m l = Inr l'"
  obtains "tm_kind m = Directory" "l' = l"
  | "tm_kind m = Regular" "safe_member_name (tm_name m)" "int (length (tm_data m)) = tm_size m"
    "ld_total l + tm_size m \<le> MAX_ARCHIVE_BYTES" "tm_size m \<le> member_size_cap (tm_name m)"
    "tm_name m \<in> set IN_MEMORY_MEMBERS"
    "l' = l\<lparr>ld_members := AList.update (tm_name m) (Bytes (tm_data m)) (ld_members l), ld_total := ld_total l + tm_size m\<rparr>"
  | "tm_kind m = Regular" "safe_member_name (tm_name m)" "int (length (tm_data m)) = tm_size m"
    "ld_total l + tm_size m \<le> MAX_ARCHIVE_BYTES" "tm_size m \<le> member_size_cap (tm_name m)"
    "path_name (tm_name m) \<noteq> []" "tm_name m \<notin> set IN_MEMORY_MEMBERS" "t \<noteq> Some (path_name (tm_name m))"
    "l' = l\<lparr>ld_members := AList.update (tm_name m) (OnDisk (path_name (tm_name m))) (ld_members l),
       ld_disk := AList.update (path_name (tm_name m)) (tm_data m) (ld_disk l), ld_total := ld_total l + tm_size m\<rparr>"
  using assms unfolding read_member_def Let_def
  by (auto simp: tar_error_def os_error_def split: if_splits)

lemma member_caps: "member_size_cap n \<le> MAX_MEMBER_BYTES" "n \<in> set IN_MEMORY_MEMBERS \<Longrightarrow> member_size_cap n = MAX_TEXT_MEMBER_BYTES"
  by (simp_all add: member_size_cap_def MAX_MEMBER_BYTES_def MAX_TEXT_MEMBER_BYTES_def)

lemma read_member_inv:
  assumes r: "read_member t m l = Inr l'" and i: "read_inv ms l"
  shows "read_inv (ms @ [m]) l'"
  using r
proof (cases rule: read_member_cases)
  case 1
  with i show ?thesis by (simp add: read_inv_def regular_bytes_def)
next
  case 2
  have "int (length (tm_data m)) \<le> MAX_TEXT_MEMBER_BYTES" using 2 member_caps(2) by simp
  with i 2 show ?thesis
    by (auto simp: read_inv_def regular_bytes_def dest!: update_set)
next
  case 3
  have "int (length (tm_data m)) \<le> MAX_MEMBER_BYTES" using 3(3,5) member_caps(1) [of "tm_name m"] by simp
  with i 3 safe_name_plain [OF 3(2,6)] show ?thesis
    by (auto simp: read_inv_def regular_bytes_def update_keys dest!: update_set)
qed

lemma read_members_inv:
  assumes "rfold (read_member t) ms l = Inr l'" "read_inv pre l"
  shows "read_inv (pre @ ms) l'"
  using assms
proof (induction ms arbitrary: pre l)
  case (Cons m ms)
  from Cons.prems(1) obtain l1 where "read_member t m l = Inr l1" "rfold (read_member t) ms l1 = Inr l'"
    by (auto simp: res_simps)
  with Cons.IH [of l1 "pre @ [m]"] read_member_inv Cons.prems(2) show ?case by fastforce
qed simp

text \<open>
  C32: Reading an archive is bounded whatever its members are: if it succeeds, the bytes taken in are at
  most two gigabytes, every member kept in memory at most 16 megabytes and every extracted file at
  most one gigabyte, no member has an absolute name or a parent step, and every extracted file has a
  plain name inside the extraction directory.
\<close>

theorem reading_is_bounded:
  assumes "read_tar_members taken ms = Inr l"
  shows "regular_bytes ms \<le> 2 * 1024 ^ 3 \<and> (\<forall>f \<in> set (map fst (ld_disk l)). plain_name f)
    \<and> (\<forall>(f, b) \<in> set (ld_disk l). int (length b) \<le> 1024 ^ 3)
    \<and> (\<forall>(n, s) \<in> set (ld_members l). safe_member_name n \<and> (\<forall>b. s = Bytes b \<longrightarrow> int (length b) \<le> 16 * 1024 ^ 2))"
proof -
  have "read_inv [] \<lparr>ld_members = [], ld_disk = [], ld_total = 0\<rparr>"
    by (simp add: read_inv_def regular_bytes_def MAX_ARCHIVE_BYTES_def)
  from read_members_inv [OF assms [unfolded read_tar_members_def] this] show ?thesis
    by (simp add: read_inv_def MAX_ARCHIVE_BYTES_def MAX_MEMBER_BYTES_def MAX_TEXT_MEMBER_BYTES_def)
qed

definition ex_tar :: "tar_member list" where
  "ex_tar = [tar_file ''manifest.json'' ''m'', tar_file ''x/accounting.db'' ''db'']"

theorem reading_is_bounded_witness:
  "\<exists>l. read_tar_members None ex_tar = Inr l \<and> map fst (ld_disk l) = [''accounting.db''] \<and> plain_name ''accounting.db''
     \<and> (\<forall>t l. read_tar_members t [tar_file ''../x'' []] \<noteq> Inr l)"
proof -
  have "case read_tar_members None ex_tar of Inl e \<Rightarrow> False | Inr l \<Rightarrow> map fst (ld_disk l) = [''accounting.db'']" by code_simp
  then obtain l where l: "read_tar_members None ex_tar = Inr l" "map fst (ld_disk l) = [''accounting.db'']"
    by (auto split: sum.splits)
  have "\<not> safe_member_name ''../x''" by code_simp
  then have "\<forall>t l. read_tar_members t [tar_file ''../x'' []] \<noteq> Inr l"
    by (simp add: read_tar_members_def read_member_def Let_def tar_file_def tar_error_def)
  with reading_is_bounded [OF l(1)] l show ?thesis by auto
qed

section \<open>Integrity\<close>

lemma check_digests_Inr:
  assumes "check_digests cd l hashes names = Inr True" "n \<in> set names"
  shows "\<exists>s b. map_of (ld_members l) n = Some s \<and> member_bytes l s = Inr b \<and> map_of hashes n = Some (cd_sha256 cd b)"
  using assms by (induction names) (auto simp: res_simps split: option.splits if_splits)

lemma verify_members_Inr:
  assumes "verify_members cd l path = Inr (Inr m)"
  obtains s files names hashes where "map_of (ld_members l) ''manifest.json'' = Some s" "member_json cd l s = Some (JObj m)"
    "verify_flags m path = None" "dget ''files'' m = JList files" "dget ''included_components'' m = JList names"
    "hash_by_path files [] = Some hashes" "set (map py_str names) = set (map fst hashes)"
    "set (map py_str names) = set (map fst (ld_members l)) - {''manifest.json''}"
    "check_digests cd l hashes (map py_str names) = Inr True"
proof -
  from assms obtain s where s: "map_of (ld_members l) ''manifest.json'' = Some s" "member_json cd l s = Some (JObj m)"
    "verify_flags m path = None" and c: "verify_components cd l m = Inr (Inr m)"
    by (auto simp: verify_members_def verify_components_def rbind_eq_Inr Let_def
        split: option.splits json.splits if_splits)
  from c obtain names files hashes where "dget ''files'' m = JList files" "dget ''included_components'' m = JList names"
    "hash_by_path files [] = Some hashes" "set (map py_str names) = set (map fst hashes)"
    "set (map py_str names) = set (filter (\<lambda>n. n \<noteq> ''manifest.json'') (map fst (ld_members l)))"
    "check_digests cd l hashes (map py_str names) = Inr True"
    by (auto simp: verify_components_def rbind_eq_Inr Let_def split: option.splits json.splits if_splits)
  with s show thesis by (intro that [of s files names hashes]) auto
qed

text \<open>
  An accepted archive is intact and of the kind its name says: the members are exactly the manifest
  and the components it lists, every component has the digest the manifest gives for it, the archive
  is secret-bearing exactly if its name ends in .age, and the checks for its kind passed.
\<close>

theorem accepted_archive_is_intact:
  assumes "verify_archive cd identity path file = Inr (Inr m)"
  shows "\<exists>l hashes. load_members cd identity path file = Inr (Inr l) \<and> (truthy (dget ''secret_bearing'' m) \<longleftrightarrow> age_suffix path)
    \<and> (\<exists>files. dget ''files'' m = JList files \<and> hash_by_path files [] = Some hashes)
    \<and> set (map fst hashes) = set (map fst (ld_members l)) - {''manifest.json''}
    \<and> (\<forall>n s. n \<noteq> ''manifest.json'' \<longrightarrow> map_of (ld_members l) n = Some s
         \<longrightarrow> (\<exists>b. member_bytes l s = Inr b \<and> map_of hashes n = Some (cd_sha256 cd b)))
    \<and> (if age_suffix path then assert_secret_bearing_members cd l else assert_secretless_members cd l) = Inr None"
proof -
  from assms obtain l where l: "load_members cd identity path file = Inr (Inr l)" "verify_loaded cd l path = Inr (Inr m)"
    by (cases "load_members cd identity path file") (auto simp: verify_archive_def split: sum.splits)
  from l(2) have v: "verify_members cd l path = Inr (Inr m)" and k: "(if truthy (dget ''secret_bearing'' m)
      then assert_secret_bearing_members cd l else assert_secretless_members cd l) = Inr None"
    by (cases "verify_members cd l path"; auto simp: verify_loaded_def rbind_eq_Inr split: sum.splits option.splits if_splits)+
  from v obtain s files names hashes where h: "verify_flags m path = None" "dget ''files'' m = JList files"
    "hash_by_path files [] = Some hashes" "set (map py_str names) = set (map fst hashes)"
    "set (map py_str names) = set (map fst (ld_members l)) - {''manifest.json''}"
    "check_digests cd l hashes (map py_str names) = Inr True"
    by (rule verify_members_Inr)
  from h(1) have sb: "truthy (dget ''secret_bearing'' m) \<longleftrightarrow> age_suffix path"
    by (auto simp: verify_flags_def secret_bearing_consistent_def Let_def split: json.splits if_splits)
  have "\<exists>b. member_bytes l s = Inr b \<and> map_of hashes n = Some (cd_sha256 cd b)"
    if "n \<noteq> ''manifest.json''" "map_of (ld_members l) n = Some s" for n s
  proof -
    from that have "n \<in> set (map py_str names)" using h(5) by (force dest: map_of_SomeD)
    from check_digests_Inr [OF h(6) this] that(2) show ?thesis by auto
  qed
  with l(1) sb h k show ?thesis by (intro exI [of _ l] exI [of _ hashes]) auto
qed

section \<open>A created archive verifies\<close>

lemma read_member_other:
  "read_member t m l = Inr l' \<Longrightarrow> n \<noteq> tm_name m \<Longrightarrow> map_of (ld_members l') n = map_of (ld_members l) n"
  by (erule read_member_cases) (simp_all add: update_conv')

lemma read_members_other:
  "rfold (read_member t) ms l = Inr l' \<Longrightarrow> n \<notin> tm_name ` set ms \<Longrightarrow> map_of (ld_members l') n = map_of (ld_members l) n"
proof (induction ms arbitrary: l)
  case (Cons m ms)
  then show ?case by (auto simp: res_simps read_member_other)
qed simp

lemma read_members_taken:
  "(\<And>m. m \<in> set ms \<Longrightarrow> path_name (tm_name m) \<noteq> x) \<Longrightarrow> rfold (read_member (Some x)) ms l = rfold (read_member None) ms l"
proof (induction ms arbitrary: l)
  case (Cons m ms)
  have "path_name (tm_name m) \<noteq> x" using Cons.prems by simp
  then have "read_member (Some x) m l = read_member None m l" by (auto simp: read_member_def Let_def)
  then show ?case using Cons by (cases "read_member None m l") auto
qed simp

lemma age_suffix_append [simp]: "age_suffix (p @ ''.age'')" "age_suffix (p @ ''.tar.age'')"
  by (simp_all add: age_suffix_def ends_with_def)

lemma resolve_suffix: "age_suffix (resolve_backup_output p True)"
  by (simp add: resolve_backup_output_def)

lemma create_steps:
  assumes "create_backup cd nf inc path rec created ver = Inr b"
  obtains comps who m staged inner m' where
    "set (map fst comps) \<subseteq> set COMPONENT_NAMES" "m = manifest_of cd inc created comps who"
    "bk_manifest b = m" "bk_path b = resolve_backup_output path inc"
    "staged = tar_file ''manifest.json'' (cd_dumps cd (JObj m)) # map (\<lambda>(n, d). tar_file n d) comps"
    "read_tar_members None staged = Inr inner" "verify_members cd inner (bk_path b) = Inr (Inr m')"
    "(if inc then assert_secret_bearing_members cd inner else assert_secretless_members cd inner) = Inr None"
    "if inc then cd_age cd \<and> (\<exists>x. cd_encrypt cd (Tarball staged) = Some x \<and> bk_blob b = Cipher x) else bk_blob b = Tarball staged"
proof -
  have die: "die_backup e \<noteq> Inr y" for e and y :: 'y by (simp add: die_backup_def)
  have die_os: "die_on_os r = Inr y \<Longrightarrow> r = Inr y" for r :: "'z res" and y
    by (auto simp: die_on_os_def die_backup_def split: sum.splits exc.splits)
  from assms obtain c0 who staged where age: "inc \<longrightarrow> cd_age cd"
    and w: "write_tar (cd_dumps cd (JObj (manifest_of cd inc created (included_components c0) who))) (included_components c0) = Inr staged"
    and sc: "self_check cd inc (resolve_backup_output path inc) staged = Inr ()"
    and se: "seal cd inc (resolve_backup_output path inc) staged (manifest_of cd inc created (included_components c0) who) = Inr b"
    unfolding create_backup_def Let_def by (simp add: die rbind_eq_Inr split: if_split_asm) (blast dest: die_os)+
  define comps where "comps = included_components c0"
  note w = w [folded comps_def] and se = se [folded comps_def]
  have n: "set (map fst comps) \<subseteq> set COMPONENT_NAMES"
    by (auto simp: comps_def included_components_def List.map_filter_def)
  from sc obtain inner where r: "read_tar_members None staged = Inr inner"
    and k: "rbind (verify_members cd inner (resolve_backup_output path inc)) (\<lambda>checked. case checked of
       Inl err \<Rightarrow> die_backup err
     | Inr _ \<Rightarrow> rbind (if inc then assert_secret_bearing_members cd inner else assert_secretless_members cd inner) (\<lambda>bad.
           case bad of Some err \<Rightarrow> die_backup err | None \<Rightarrow> Inr ())) = Inr ()"
    unfolding self_check_def rbind_eq_Inr by (auto dest!: die_os)
  from k obtain m' where v: "verify_members cd inner (resolve_backup_output path inc) = Inr (Inr m')"
    and c: "(if inc then assert_secret_bearing_members cd inner else assert_secretless_members cd inner) = Inr None"
    by (cases "verify_members cd inner (resolve_backup_output path inc)")
       (auto simp: die rbind_eq_Inr split: sum.splits option.splits)
  have st: "staged = tar_file ''manifest.json'' (cd_dumps cd (JObj (manifest_of cd inc created comps who))) # map (\<lambda>(n, d). tar_file n d) comps"
    using w by (auto simp: write_tar_def rbind_eq_Inr split: if_splits)
  from se have s: "bk_manifest b = manifest_of cd inc created comps who" "bk_path b = resolve_backup_output path inc"
    "if inc then \<exists>x. cd_encrypt cd (Tarball staged) = Some x \<and> bk_blob b = Cipher x else bk_blob b = Tarball staged"
    by (auto simp: seal_def die split: if_splits option.splits)
  show thesis
    by (rule that [OF n refl s(1,2) st r]) (use v c s age in \<open>auto split: if_splits\<close>)
qed

definition indented_secret :: "string \<Rightarrow> string" where
  "indented_secret x = '' '' @ CLASH_KEY @ '' = '' @ DQUOTE @ x @ DQUOTE @ NEWLINE"

text \<open>A concrete node: the texts of its files are names, the library maps them to the documents.\<close>

definition ex_bstate :: "json \<Rightarrow> dict" where
  "ex_bstate k = [(''node'', JObj ([(''node_id'', JStr ''n''), (''instance_id'', JStr ''i'')]
     @ (if k = JNull then [] else [(''reality_private_key'', k)])))]"

definition ex_busers :: "json \<Rightarrow> dict" where
  "ex_busers u = [(''users'', JList [JObj [(''tag'', JStr ''a''),
     (''credentials'', JList [JObj ([(''status'', JStr ''active'')] @ (if u = JNull then [] else [(''uuid'', u)]))])]])]"

definition ex_bmanifest :: dict where
  "ex_bmanifest = build_manifest ''0.5'' ''t'' ''n'' ''i'' [''state.json'', ''users.json'', ''config.toml'', ''VERSION''] False ''none''
     (\<lambda>n. if n = ''state.json'' then ''s'' else if n = ''users.json'' then ''u'' else if n = ''VERSION'' then ''0.5'' else lower (indented_secret ''zz''))"

definition ex_codec :: "tar_member list codec" where
  "ex_codec = \<lparr>cd_loads = (\<lambda>t. if t = ''S0'' then Some (JObj (ex_bstate (JStr ''K''))) else if t = ''S1'' then Some (JObj (ex_bstate (JStr ''L'')))
       else if t = ''S'' then Some (JObj (ex_bstate JNull)) else if t = ''U0'' then Some (JObj (ex_busers (JStr ''u'')))
       else if t = ''U1'' then Some (JObj (ex_busers (JStr ''v''))) else if t = ''U'' then Some (JObj (ex_busers JNull))
       else if t = ''M'' then Some (JObj ex_bmanifest) else None),
     cd_dumps = (\<lambda>v. case v of JObj d \<Rightarrow> if has_key ''node'' d then ''S'' else if has_key ''users'' d then ''U'' else ''M'' | _ \<Rightarrow> []),
     cd_decode = Some, cd_lenient = (\<lambda>b. b), cd_encode = (\<lambda>t. t), cd_sha256 = lower, cd_snapshot = (\<lambda>b. b), cd_age = True,
     cd_encrypt = (\<lambda>b. case b of Tarball ms \<Rightarrow> Some ms | _ \<Rightarrow> None), cd_decrypt = (\<lambda>ms. Some (Tarball ms))\<rparr>"

definition ex_files :: node_files where
  "ex_files = \<lparr>nf_state = Some ''S0'', nf_users = Some ''U0'', nf_config = Some (indented_secret ''zz''),
     nf_version = Some ''0.5'', nf_accounting = None\<rparr>"

lemma ex_created: "case create_backup ex_codec ex_files False ''b.tar'' False ''t'' None of Inl e \<Rightarrow> False
    | Inr b \<Rightarrow> bk_manifest b = ex_bmanifest \<and> bk_path b = ''b.tar'' \<and> (case bk_blob b of
        Tarball ms \<Rightarrow> list_ex (\<lambda>m. tm_name m = ''config.toml'' \<and> tm_data m = indented_secret ''zz'') ms | _ \<Rightarrow> False)"
  by code_simp

text \<open>
  C30: What \<open>create_backup\<close> writes verifies.  If it succeeds, \<open>verify_archive\<close> accepts the file at the path it
  reports and returns the manifest that was written, with the kind that was asked for.  The library is
  assumed to parse the manifest it has printed, and \<open>age\<close> to decrypt what it encrypted.
\<close>

theorem created_backup_verifies:
  assumes c: "create_backup cd nf inc path rec created ver = Inr b"
    and loads: "cd_loads cd (cd_dumps cd (JObj (bk_manifest b))) = Some (JObj (bk_manifest b))"
    and age: "inc \<Longrightarrow> identity \<and> (\<forall>p x. cd_encrypt cd p = Some x \<longrightarrow> cd_decrypt cd x = Some p)"
  shows "verify_archive cd identity (bk_path b) (Some (bk_blob b)) = Inr (Inr (bk_manifest b))
    \<and> dget ''secret_bearing'' (bk_manifest b) = JBool inc \<and> (inc \<longrightarrow> age_suffix (bk_path b))"
proof -
  obtain comps who m staged inner m' where n: "set (map fst comps) \<subseteq> set COMPONENT_NAMES"
    and m: "m = manifest_of cd inc created comps who" "bk_manifest b = m" and p: "bk_path b = resolve_backup_output path inc"
    and st: "staged = tar_file ''manifest.json'' (cd_dumps cd (JObj m)) # map (\<lambda>(n, d). tar_file n d) comps"
    and r: "read_tar_members None staged = Inr inner" and v: "verify_members cd inner (bk_path b) = Inr (Inr m')"
    and k: "(if inc then assert_secret_bearing_members cd inner else assert_secretless_members cd inner) = Inr None"
    and e: "if inc then cd_age cd \<and> (\<exists>x. cd_encrypt cd (Tarball staged) = Some x \<and> bk_blob b = Cipher x) else bk_blob b = Tarball staged"
    by (rule create_steps [OF c])
  have names: "tm_name ` set (map (\<lambda>(n, d). tar_file n d) comps) \<subseteq> set COMPONENT_NAMES"
    using n by (auto simp: tar_file_def)
  have fresh: "''manifest.json'' \<notin> set COMPONENT_NAMES" by (simp add: COMPONENT_NAMES_def)
  from r obtain l1 where l1: "read_member None (tar_file ''manifest.json'' (cd_dumps cd (JObj m))) \<lparr>ld_members = [], ld_disk = [], ld_total = 0\<rparr> = Inr l1"
    and l2: "rfold (read_member None) (map (\<lambda>(n, d). tar_file n d) comps) l1 = Inr inner"
    by (auto simp: st read_tar_members_def res_simps)
  from l1 have "map_of (ld_members l1) ''manifest.json'' = Some (Bytes (cd_dumps cd (JObj m)))"
    by (rule read_member_cases) (simp_all add: tar_file_def IN_MEMORY_MEMBERS_def)
  with read_members_other [OF l2, of "''manifest.json''"] names fresh
  have mf: "map_of (ld_members inner) ''manifest.json'' = Some (Bytes (cd_dumps cd (JObj m)))" by auto
  from v obtain s0 where s0: "map_of (ld_members inner) ''manifest.json'' = Some s0" "member_json cd inner s0 = Some (JObj m')"
    "verify_flags m' (bk_path b) = None" by (rule verify_members_Inr) blast
  have "s0 = Bytes (cd_dumps cd (JObj m))" using s0(1) mf by simp
  with s0(2) loads m(2) have m': "m' = m" by (simp add: member_json_def as_bytes_def member_bytes_def)
  have sb: "dget ''secret_bearing'' m = JBool inc"
    by (simp add: m(1) manifest_of_def build_manifest_def split: prod.split)
  have vl: "verify_loaded cd inner (bk_path b) = Inr (Inr m)"
    using v k by (auto simp: verify_loaded_def m' sb split: if_splits)
  have pn: "\<forall>x \<in> set COMPONENT_NAMES. path_name x \<noteq> ''archive.tar''" "path_name ''manifest.json'' \<noteq> ''archive.tar''" by code_simp+
  have "\<And>t. t \<in> set staged \<Longrightarrow> path_name (tm_name t) \<noteq> ''archive.tar''"
    using pn names by (auto simp: st tar_file_def)
  then have tk: "read_tar_members (Some ''archive.tar'') staged = Inr inner"
    using r read_members_taken [of staged "''archive.tar''"] unfolding read_tar_members_def by simp
  have suffix: "age_suffix (bk_path b) \<longleftrightarrow> inc"
    using s0(3) by (auto simp: m' sb verify_flags_def secret_bearing_consistent_def Let_def split: json.splits if_splits)
  have "load_members cd identity (bk_path b) (Some (bk_blob b)) = Inr (Inr inner)"
    using e age tk r suffix by (cases inc) (auto simp: load_members_def Let_def)
  with vl sb suffix m(2) show ?thesis by (simp add: verify_archive_def)
qed

theorem created_backup_verifies_witness:
  "\<exists>b. create_backup ex_codec ex_files False ''b.tar'' False ''t'' None = Inr b
     \<and> verify_archive ex_codec False (bk_path b) (Some (bk_blob b)) = Inr (Inr ex_bmanifest)"
proof -
  obtain b where b: "create_backup ex_codec ex_files False ''b.tar'' False ''t'' None = Inr b" "bk_manifest b = ex_bmanifest"
    using ex_created by (auto split: sum.splits)
  have "cd_loads ex_codec (cd_dumps ex_codec (JObj ex_bmanifest)) = Some (JObj ex_bmanifest)" by code_simp
  with created_backup_verifies [OF b(1), of False] b show ?thesis by simp
qed

text \<open>The accepted archive of the example.\<close>

theorem accepted_archive_is_intact_witness:
  "\<exists>b l. create_backup ex_codec ex_files False ''b.tar'' False ''t'' None = Inr b
     \<and> load_members ex_codec False ''b.tar'' (Some (bk_blob b)) = Inr (Inr l) \<and> assert_secretless_members ex_codec l = Inr None"
proof -
  obtain b where b: "create_backup ex_codec ex_files False ''b.tar'' False ''t'' None = Inr b"
    using ex_created by (auto split: sum.splits)
  have "case create_backup ex_codec ex_files False ''b.tar'' False ''t'' None of Inl e \<Rightarrow> False
    | Inr b \<Rightarrow> (case verify_archive ex_codec False ''b.tar'' (Some (bk_blob b)) of
        Inl e \<Rightarrow> False | Inr v \<Rightarrow> (case v of Inl e \<Rightarrow> False | Inr m \<Rightarrow> True))" by code_simp
  with b obtain m where v: "verify_archive ex_codec False ''b.tar'' (Some (bk_blob b)) = Inr (Inr m)" by (auto split: sum.splits)
  have "\<not> age_suffix ''b.tar''" by code_simp
  with accepted_archive_is_intact [OF v] b show ?thesis by auto
qed

section \<open>A default backup does not depend on the secrets\<close>

text \<open>A state directory with given secrets in the places the code knows of.\<close>

definition with_private_key :: "json \<Rightarrow> dict \<Rightarrow> dict" where
  "with_private_key k state = AList.update ''node'' (JObj (AList.update ''reality_private_key'' k (the_node state))) state"

definition with_uuid :: "(dict \<Rightarrow> json) \<Rightarrow> json \<Rightarrow> json" where
  "with_uuid f c = (case c of JObj d \<Rightarrow> JObj (AList.update ''uuid'' (f d) d) | _ \<Rightarrow> c)"

definition with_user_uuids :: "(dict \<Rightarrow> json) \<Rightarrow> json \<Rightarrow> json" where
  "with_user_uuids f u = (case u of
     JObj d \<Rightarrow> (case dget ''credentials'' d of
         JList cs \<Rightarrow> JObj (AList.update ''credentials'' (JList (map (with_uuid f) cs)) d) | _ \<Rightarrow> u)
   | _ \<Rightarrow> u)"

definition with_uuids :: "(dict \<Rightarrow> json) \<Rightarrow> dict \<Rightarrow> dict" where
  "with_uuids f users = (case dget ''users'' users of
     JList us \<Rightarrow> AList.update ''users'' (JList (map (with_user_uuids f) us)) users | _ \<Rightarrow> users)"

definition with_clash :: "string \<Rightarrow> string \<Rightarrow> string \<Rightarrow> string" where
  "with_clash x before after = before @ CLASH_KEY @ '' = '' @ x @ NEWLINE @ after"

definition one_line :: "string \<Rightarrow> bool" where
  "one_line x \<longleftrightarrow> list_all (\<lambda>c. \<not> is_line_break c) x"

lemma delete_update: "AList.delete k (AList.update k v d) = AList.delete k d"
  by (induction d) auto

lemma strip_private_key:
  assumes "has_key ''node'' state" "\<exists>n. dget ''node'' state = JObj n"
  shows "strip_state (with_private_key k state) = strip_state state"
proof -
  from assms obtain n where n: "map_of state ''node'' = Some (JObj n)"
    by (auto simp: has_key_def dget_def)
  then have t: "the_node state = n" by (simp add: the_node_def dget_def)
  show ?thesis
    by (simp add: strip_state_def with_private_key_def n t update_conv' delete_update update_twice)
qed

lemma each_dict_map:
  assumes "\<And>x. (case g x of JObj d \<Rightarrow> rbind (h d) (\<lambda>d'. Inr (JObj d')) | _ \<Rightarrow> Inr (g x))
      = (case x of JObj d \<Rightarrow> rbind (h d) (\<lambda>d'. Inr (JObj d')) | _ \<Rightarrow> Inr x)"
  shows "each_dict h (JList (map g xs)) = each_dict h (JList xs)"
proof -
  let ?k = "\<lambda>x. case x of JObj d \<Rightarrow> rbind (h d) (\<lambda>d'. Inr (JObj d')) | _ \<Rightarrow> Inr x"
  have "rmap ?k (map g xs) = rmap ?k xs"
    by (induction xs) (use assms in simp_all)
  then show ?thesis by (simp add: each_dict_def iterable_def)
qed

lemma strip_uuid: "each_dict (\<lambda>c. Inr (AList.delete ''uuid'' c)) (JList (map (with_uuid f) cs))
    = each_dict (\<lambda>c. Inr (AList.delete ''uuid'' c)) (JList cs)"
  by (rule each_dict_map) (simp add: with_uuid_def delete_update split: json.split)

lemma strip_user_uuid:
  "(case with_user_uuids f u of JObj d \<Rightarrow> rbind (strip_user d) (\<lambda>d'. Inr (JObj d')) | _ \<Rightarrow> Inr (with_user_uuids f u))
    = (case u of JObj d \<Rightarrow> rbind (strip_user d) (\<lambda>d'. Inr (JObj d')) | _ \<Rightarrow> Inr u)"
proof (cases u)
  case (JObj d)
  show ?thesis
  proof (cases "dget ''credentials'' d")
    case (JList cs)
    then have "has_key ''credentials'' d" by (auto simp: has_key_def dget_def split: option.splits)
    then show ?thesis
      by (simp add: JObj JList with_user_uuids_def strip_user_def in_place_def strip_uuid has_key_def update_conv' update_twice)
  qed (simp_all add: JObj with_user_uuids_def)
qed (simp_all add: with_user_uuids_def)

lemma strip_users_uuids: "strip_users (with_uuids f users) = strip_users users"
proof (cases "dget ''users'' users")
  case (JList us)
  then have "has_key ''users'' users" by (auto simp: has_key_def dget_def split: option.splits)
  then show ?thesis
    by (simp add: JList with_uuids_def strip_users_def in_place_def has_key_def update_conv' update_twice
        each_dict_map [OF strip_user_uuid])
qed (simp_all add: with_uuids_def)

text \<open>Lines of a text that is joined at a newline.\<close>

lemma keep_lines_acc_append:
  "s = [] \<or> code (last s) = 10 \<Longrightarrow> acc = [] \<or> s \<noteq> [] \<Longrightarrow> keep_lines_acc acc (s @ t) = keep_lines_acc acc s @ keep_lines_acc [] t"
proof (induction acc s rule: keep_lines_acc.induct)
  case (2 acc c)
  then show ?case by (cases t) (simp_all add: is_line_break_def)
next
  case (3 acc c d s)
  then show ?case by (auto split: if_splits)
qed simp

lemma keep_lines_one: "one_line x \<Longrightarrow> keep_lines_acc acc (x @ NEWLINE) = [rev acc @ x @ NEWLINE]"
proof (induction x arbitrary: acc)
  case Nil
  show ?case by (simp add: NEWLINE_def)
next
  case (Cons c x)
  obtain d s where d: "x @ NEWLINE = d # s" by (cases "x @ NEWLINE") (auto simp: NEWLINE_def)
  from Cons.prems have "\<not> is_line_break c" "code c \<noteq> 13" "one_line x" by (auto simp: one_line_def is_line_break_def)
  with Cons.IH [of "c # acc"] d show ?case by simp
qed

lemma strip_clash:
  assumes "one_line x" "before = [] \<or> code (last before) = 10"
  shows "strip_config_toml (with_clash x before after) = strip_config_toml (before @ after)"
proof -
  let ?l = "CLASH_KEY @ '' = '' @ x"
  have l: "one_line ?l" using assms(1) by (simp add: one_line_def CLASH_KEY_def is_line_break_def code_def)
  have k: "key_assigned CLASH_KEY (?l @ NEWLINE)"
    by (simp add: key_assigned_def starts_with_def is_space_def code_def)
  have s: "with_clash x before after = before @ ((?l @ NEWLINE) @ after)" by (simp add: with_clash_def)
  have "keep_lines (with_clash x before after) = keep_lines before @ [?l @ NEWLINE] @ keep_lines after"
    unfolding s keep_lines_def
    using keep_lines_acc_append [of before "[]" "(?l @ NEWLINE) @ after"] keep_lines_acc_append [of "?l @ NEWLINE" "[]" after]
      keep_lines_one [OF l, of "[]"] assms(2)
    by (simp add: NEWLINE_def)
  moreover have "keep_lines (before @ after) = keep_lines before @ keep_lines after"
    using keep_lines_acc_append [of before "[]" after] assms(2) by (simp add: keep_lines_def)
  ultimately show ?thesis using k by (simp add: strip_config_toml_def)
qed



section \<open>A secret that is not recognised\<close>

text \<open>
  The configuration is read line by line without the blanks around a line, but the secret is
  recognised at the start of a line only: indented, it is used by the node and kept in the backup.
\<close>

lemma after_newlines_one: "one_line l \<Longrightarrow> after_newlines (l @ NEWLINE) = [[]]"
  by (induction l) (auto simp: one_line_def NEWLINE_def is_line_break_def)

lemma strip_quoted: "strip (c # DQUOTE @ x @ DQUOTE) = (if is_space c then DQUOTE @ x @ DQUOTE else c # DQUOTE @ x @ DQUOTE)"
  by (simp add: strip_def rstrip_def lstrip_def DQUOTE_def is_space_def code_def)

lemma strip_indented: "strip (indented_secret x) = CLASH_KEY @ '' = '' @ DQUOTE @ x @ DQUOTE"
  by (simp add: strip_def rstrip_def lstrip_def DQUOTE_def NEWLINE_def CLASH_KEY_def indented_secret_def is_space_def code_def)

lemma indented_secret_kept:
  assumes "one_line x"
  shows "strip_config_toml (indented_secret x) = indented_secret x" "\<not> clash_secret_search (indented_secret x)"
    "map_of (parse_toml_simple [indented_secret x]) CLASH_KEY = Some x"
proof -
  let ?l = "'' '' @ CLASH_KEY @ '' = '' @ DQUOTE @ x @ DQUOTE"
  have l: "one_line ?l" using assms by (simp add: one_line_def CLASH_KEY_def DQUOTE_def is_line_break_def code_def)
  have i: "indented_secret x = ?l @ NEWLINE" by (simp add: indented_secret_def)
  have k: "\<not> key_assigned CLASH_KEY (indented_secret x)" "\<not> key_assigned CLASH_KEY []"
    by (simp_all add: key_assigned_def starts_with_def indented_secret_def CLASH_KEY_def)
  show "strip_config_toml (indented_secret x) = indented_secret x"
    using k(1) keep_lines_one [OF l, of "[]"] by (simp add: strip_config_toml_def keep_lines_def i)
  show "\<not> clash_secret_search (indented_secret x)"
    using k after_newlines_one [OF l] by (simp add: clash_secret_search_def i)
  have q: "starts_with [char_of (34 :: nat)] (DQUOTE @ x @ DQUOTE) \<and> ends_with [char_of (34 :: nat)] (DQUOTE @ x @ DQUOTE)"
    "butlast (tl (DQUOTE @ x @ DQUOTE)) = x"
    by (simp_all add: starts_with_def ends_with_def DQUOTE_def butlast_append)
  have t: "takeWhile (\<lambda>c. c \<noteq> CHR ''='') (CLASH_KEY @ '' = '' @ DQUOTE @ x @ DQUOTE) = CLASH_KEY @ '' ''"
    "tl (dropWhile (\<lambda>c. c \<noteq> CHR ''='') (CLASH_KEY @ '' = '' @ DQUOTE @ x @ DQUOTE)) = CHR '' '' # DQUOTE @ x @ DQUOTE"
    by (simp_all add: CLASH_KEY_def)
  have n: "strip (CLASH_KEY @ '' '') = CLASH_KEY" "is_space CHR '' ''" by code_simp+
  have h: "\<not> starts_with ''#'' (CLASH_KEY @ '' = '' @ DQUOTE @ x @ DQUOTE)" "CLASH_KEY @ '' = '' @ DQUOTE @ x @ DQUOTE \<noteq> []"
    "list_ex (\<lambda>c. c = CHR ''='') (CLASH_KEY @ '' = '' @ DQUOTE @ x @ DQUOTE)"
    by (simp_all add: starts_with_def CLASH_KEY_def)
  have "toml_line (indented_secret x) [] = [(CLASH_KEY, x)]"
    unfolding toml_line_def Let_def strip_indented t strip_quoted n(1)
    using h q n(2) by simp
  then show "map_of (parse_toml_simple [indented_secret x]) CLASH_KEY = Some x" by (simp add: parse_toml_simple_def)
qed

text \<open>
  The secret that is missed.  A node that has its Clash secret on an indented line uses it, and the
  default backup of that node succeeds, verifies as secretless and contains the secret.
\<close>

theorem indented_secret_leaks:
  "\<exists>b ms. create_backup ex_codec ex_files False ''b.tar'' False ''t'' None = Inr b \<and> bk_blob b = Tarball ms
     \<and> (\<exists>m \<in> set ms. tm_name m = ''config.toml'' \<and> map_of (parse_toml_simple [tm_data m]) CLASH_KEY = Some ''zz'')
     \<and> (case verify_archive ex_codec False ''b.tar'' (Some (bk_blob b)) of Inr (Inr m) \<Rightarrow> \<not> truthy (dget ''secret_bearing'' m) | _ \<Rightarrow> False)"
proof -
  obtain b ms where b: "create_backup ex_codec ex_files False ''b.tar'' False ''t'' None = Inr b" "bk_blob b = Tarball ms"
    "\<exists>m \<in> set ms. tm_name m = ''config.toml'' \<and> tm_data m = indented_secret ''zz''"
    using ex_created by (auto simp: list_ex_iff split: sum.splits blob.splits)
  have "case create_backup ex_codec ex_files False ''b.tar'' False ''t'' None of Inl e \<Rightarrow> False
    | Inr b \<Rightarrow> (case verify_archive ex_codec False ''b.tar'' (Some (bk_blob b)) of
        Inl e \<Rightarrow> False | Inr v \<Rightarrow> (case v of Inl e \<Rightarrow> False | Inr m \<Rightarrow> \<not> truthy (dget ''secret_bearing'' m)))" by code_simp
  with b(1) obtain m where v: "verify_archive ex_codec False ''b.tar'' (Some (bk_blob b)) = Inr (Inr m)" "\<not> truthy (dget ''secret_bearing'' m)"
    by (auto split: sum.splits)
  have "one_line ''zz''" by code_simp
  with b v indented_secret_kept(3) [of "''zz''"] show ?thesis by auto
qed

end
