(* ===== verification/RestorePlan.thy ===== *)
theory RestorePlan
  imports BackupArchive
begin

text \<open>
  The restore plan of \<open>lib/vincula-backup.py\<close>: the documents a restore installs, from the documents of
  a verified archive.  A safe plan rotates the Reality key pair, the Clash secret and every active
  credential, a secrets plan keeps them; both mint a new instance id.  Random ids are a stream
  \<open>fresh\<close> that is read from a position on.
\<close>

definition restore_error :: "string \<Rightarrow> 'a res" where
  "restore_error msg = Inl (RuntimeError msg)"

section \<open>Identifiers\<close>

fun mint :: "string \<Rightarrow> nat \<Rightarrow> string \<Rightarrow> (nat \<Rightarrow> string) \<Rightarrow> nat \<Rightarrow> (string \<times> nat) res" where
  "mint msg 0 forbid fresh n = restore_error msg"
| "mint msg (Suc k) forbid fresh n = (if fresh n \<noteq> forbid then Inr (fresh n, n + 1) else mint msg k forbid fresh (n + 1))"

definition mint_uuid :: "string \<Rightarrow> (nat \<Rightarrow> string) \<Rightarrow> nat \<Rightarrow> (string \<times> nat) res" where
  "mint_uuid = mint ''failed to mint UUID'' 8"

definition mint_instance_id :: "string \<Rightarrow> string \<Rightarrow> (nat \<Rightarrow> string) \<Rightarrow> nat \<Rightarrow> (string \<times> nat) res" where
  "mint_instance_id node_id existing fresh n =
     (if uuid_ok existing \<and> existing \<noteq> node_id then Inr (existing, n)
      else mint ''Refusing to copy node_id into instance_id.'' 8 node_id fresh n)"

definition uri_authority_host :: "string \<Rightarrow> string" where
  "uri_authority_host server =
     (if CHR '':'' \<in> set server \<and> \<not> starts_with ''['' server then ''['' @ server @ '']'' else server)"

definition render_vless_uri :: "string \<Rightarrow> string \<Rightarrow> string \<Rightarrow> string \<Rightarrow> string \<Rightarrow> string \<Rightarrow> string \<Rightarrow> string" where
  "render_vless_uri uuid server port sni public short tag =
     ''vless://'' @ uuid @ ''@'' @ uri_authority_host server @ '':'' @ port
     @ ''?encryption=none&flow=xtls-rprx-vision&security=reality''
     @ ''&sni='' @ sni @ ''&fp=chrome&pbk='' @ public @ ''&sid='' @ short @ ''&type=tcp#vincula-'' @ tag"

section \<open>Settings\<close>

definition assigned_value :: "string \<Rightarrow> string \<Rightarrow> string" where
  "assigned_value key s = strip (tl (dropWhile is_space (drop (length key) s)))"

definition unquote :: "string \<Rightarrow> string" where
  "unquote raw = (if 2 \<le> length raw \<and> hd raw = last raw \<and> (code (hd raw) = 34 \<or> code (hd raw) = 39)
     then butlast (tl raw) else raw)"

definition toml_get :: "string \<Rightarrow> string \<Rightarrow> string option" where
  "toml_get text key = (case find (\<lambda>l. key_assigned key (strip l)) (splitlines text) of
     None \<Rightarrow> None | Some l \<Rightarrow> Some (unquote (assigned_value key (strip l))))"

definition TOML_UNQUOTED_KEYS :: "string list" where
  "TOML_UNQUOTED_KEYS = [''port'', ''clash_api_port'', ''accounting_raw_retention_days'',
     ''accounting_daily_retention_days'', ''billing_cycle_start_day'']"

definition toml_rendered :: "string \<Rightarrow> json \<Rightarrow> string" where
  "toml_rendered key v = (if key \<in> set TOML_UNQUOTED_KEYS \<or> is_int v \<or> is_bool v
     then key @ '' = '' @ py_str v else key @ '' = '' @ DQUOTE @ py_str v @ DQUOTE)"

definition toml_set :: "string \<Rightarrow> string \<Rightarrow> json \<Rightarrow> string" where
  "toml_set text key v =
     (let rendered = toml_rendered key v; lines = keep_lines text;
          out = concat (map (\<lambda>l. if key_assigned key l then rendered @ (if ends_with NEWLINE l then NEWLINE else []) else l) lines) in
      if list_ex (key_assigned key) lines then out
      else (if out \<noteq> [] \<and> \<not> ends_with NEWLINE out then out @ NEWLINE else out) @ rendered @ NEWLINE)"

section \<open>Plan\<close>

record plan_args =
  pa_include_secrets :: bool
  pa_instance_id :: string
  pa_private :: string
  pa_public :: string
  pa_short_id :: string
  pa_clash :: string
  pa_server :: "string option"
  pa_listen :: "string option"
  pa_port :: json
  pa_service_account :: "dict option"
  pa_reissue :: "(string \<times> dict) list"
  pa_version :: "string option"
  pa_now :: string

record reissue_row =
  ri_user :: string
  ri_node :: string
  ri_old :: string
  ri_new :: string
  ri_uri :: string

record restore_plan =
  pl_mode :: string
  pl_node_id :: string
  pl_source_instance :: string
  pl_instance :: string
  pl_state :: dict
  pl_users :: dict
  pl_config :: string
  pl_accounting :: "string option"
  pl_rows :: "reissue_row list"
  pl_owner_uri :: string
  pl_clash_secret :: string
  pl_secret_bearing :: bool

definition text_at :: "string \<Rightarrow> dict \<Rightarrow> string" where
  "text_at k d = py_str (py_or (dget k d) (JStr []))"

definition port_digits :: "string \<Rightarrow> bool" where
  "port_digits s = (s \<noteq> [] \<and> list_all (\<lambda>c. is_digit c \<or> code c \<in> {178, 179, 185}) s)"

definition put_if :: "bool \<Rightarrow> string \<Rightarrow> json \<Rightarrow> dict \<Rightarrow> dict" where
  "put_if b k v d = (if b then AList.update k v d else d)"

text \<open>The staged node object before secrets: identity, and where the new machine listens.\<close>

definition node_port :: "json \<Rightarrow> json" where
  "node_port v = (case py_int v of Inr n \<Rightarrow> JInt n | Inl _ \<Rightarrow> v)"

definition place_node :: "plan_args \<Rightarrow> string \<Rightarrow> string \<Rightarrow> dict \<Rightarrow> dict" where
  "place_node a node_id iid node =
     put_if (py_str (pa_port a) \<noteq> [] \<and> pa_port a \<noteq> JNull) ''port'' (node_port (pa_port a))
    (put_if (nonempty (pa_listen a)) ''listen'' (of_text (pa_listen a))
    (put_if (nonempty (pa_server a)) ''server'' (of_text (pa_server a))
    (AList.update ''instance_id'' (JStr iid) (AList.update ''node_id'' (JStr node_id) node))))"

text \<open>One credential of a user: a historical one is kept, an active one is revoked and replaced.\<close>

definition minted_or :: "json \<Rightarrow> string \<Rightarrow> (nat \<Rightarrow> string) \<Rightarrow> nat \<Rightarrow> (string \<times> nat) res" where
  "minted_or v forbid fresh n = (if truthy v then Inr (py_str v, n) else mint_uuid forbid fresh n)"

record link_parts =
  lp_node_id :: string
  lp_name :: string
  lp_server :: string
  lp_port :: string
  lp_sni :: string

definition new_credential :: "string \<Rightarrow> string \<Rightarrow> string \<Rightarrow> string \<Rightarrow> dict" where
  "new_credential cid node_id uuid now =
     [(''credential_id'', JStr cid), (''node_id'', JStr node_id), (''uuid'', JStr uuid), (''status'', JStr ''active''),
      (''created_at'', JStr now), (''revoked_at'', JNull)]"

definition revoked :: "string \<Rightarrow> dict \<Rightarrow> dict" where
  "revoked now c = AList.update ''revoked_at'' (JStr now) (AList.update ''status'' (JStr ''revoked'') c)"

definition is_active_credential :: "dict \<Rightarrow> bool" where
  "is_active_credential c = (dget ''status'' c = JStr ''active'')"

definition rotate_credential ::
    "plan_args \<Rightarrow> (nat \<Rightarrow> string) \<Rightarrow> link_parts \<Rightarrow> string \<Rightarrow> dict
      \<Rightarrow> dict list \<times> dict list \<times> reissue_row list \<times> nat \<Rightarrow> (dict list \<times> dict list \<times> reissue_row list \<times> nat) res" where
  "rotate_credential a fresh lp tag c0 acc = (case acc of (kept, added, rows, n) \<Rightarrow>
     (let c = AList.delete ''uuid'' c0 in
      if \<not> is_active_credential c then Inr (kept @ [c], added, rows, n)
      else (let old = text_at ''credential_id'' c;
                mapping = (case map_of (pa_reissue a) old of None \<Rightarrow> [] | Some d \<Rightarrow> d) in
            rbind (minted_or (dget ''credential_id'' mapping) (lp_node_id lp) fresh n) (\<lambda>(cid, n).
            rbind (minted_or (dget ''uuid'' mapping) (lp_node_id lp) fresh n) (\<lambda>(uuid, n).
            Inr (kept @ [revoked (pa_now a) c], added @ [new_credential cid (lp_node_id lp) uuid (pa_now a)],
                 rows @ [\<lparr>ri_user = tag, ri_node = lp_name lp, ri_old = old, ri_new = cid,
                   ri_uri = render_vless_uri uuid (lp_server lp) (lp_port lp) (lp_sni lp) (pa_public a) (pa_short_id a) tag\<rparr>], n))))))"

definition rotate_user ::
    "plan_args \<Rightarrow> (nat \<Rightarrow> string) \<Rightarrow> link_parts \<Rightarrow> dict \<Rightarrow> reissue_row list \<times> nat \<Rightarrow> (dict \<times> reissue_row list \<times> nat) res" where
  "rotate_user a fresh lp u acc =
     rbind (dicts_of (dget ''credentials'' u)) (\<lambda>cs.
     rbind (rfold (rotate_credential a fresh lp (text_at ''tag'' u)) cs ([], [], fst acc, snd acc)) (\<lambda>(kept, added, rows, n).
     Inr (AList.update ''credentials'' (JList (map JObj (kept @ added))) u, rows, n)))"

fun rotate_users ::
    "plan_args \<Rightarrow> (nat \<Rightarrow> string) \<Rightarrow> link_parts \<Rightarrow> json list \<Rightarrow> reissue_row list \<times> nat \<Rightarrow> (json list \<times> reissue_row list \<times> nat) res" where
  "rotate_users a fresh lp [] acc = Inr ([], acc)"
| "rotate_users a fresh lp (u # us) acc = (case u of
     JObj d \<Rightarrow> rbind (rotate_user a fresh lp d acc) (\<lambda>(d', acc').
       rbind (rotate_users a fresh lp us acc') (\<lambda>(us', acc''). Inr (JObj d' # us', acc'')))
   | _ \<Rightarrow> rbind (rotate_users a fresh lp us acc) (\<lambda>(us', acc'). Inr (u # us', acc')))"

definition rotate_all ::
    "plan_args \<Rightarrow> (nat \<Rightarrow> string) \<Rightarrow> link_parts \<Rightarrow> dict \<Rightarrow> nat \<Rightarrow> (dict \<times> reissue_row list) res" where
  "rotate_all a fresh lp users n =
     (if \<not> iterable (dget ''users'' users) then Inl TypeError
      else (case dget ''users'' users of
        JList us \<Rightarrow> rbind (rotate_users a fresh lp us ([], n)) (\<lambda>(us', rows, _).
          Inr (AList.update ''users'' (JList us') users, rows))
      | _ \<Rightarrow> Inr (users, [])))"

definition uuid_texts :: "dict list \<Rightarrow> string list" where
  "uuid_texts cs = map (\<lambda>c. py_str (dget ''uuid'' c)) (filter (\<lambda>c. truthy (dget ''uuid'' c)) cs)"

text \<open>The checks on rotated users: no uuid on a historical credential, none of the backup reused.\<close>

definition check_rotated :: "dict \<Rightarrow> dict \<Rightarrow> unit res" where
  "check_rotated users staged =
     rbind (credentials_of staged) (\<lambda>new.
     if list_ex (\<lambda>c. \<not> is_active_credential c \<and> has_key ''uuid'' c) new
     then restore_error ''safe restore left a uuid on a historical credential''
     else rbind (credentials_of users) (\<lambda>old.
       if set (uuid_texts new) \<inter> set (uuid_texts old) \<noteq> {} then restore_error ''safe restore reused a backup VLESS uuid''
       else Inr ()))"

text \<open>The check on kept users: every credential id still has the uuid it had, the last one if an id occurs twice.\<close>

definition check_kept :: "dict \<Rightarrow> unit res" where
  "check_kept users =
     rbind (credentials_of users) (\<lambda>cs.
     let known = fold (\<lambda>c m. if dget ''credential_id'' c = JNull then m
           else AList.update (py_str (dget ''credential_id'' c)) (dget ''uuid'' c) m) cs [] in
     if list_ex (\<lambda>c. dget (text_at ''credential_id'' c) known \<noteq> dget ''uuid'' c) cs
     then restore_error ''secrets restore changed a credential uuid'' else Inr ())"

text \<open>The state with identity, service account and version, and the node object in it.\<close>

definition staged_identity ::
    "plan_args \<Rightarrow> dict \<Rightarrow> bool \<Rightarrow> string \<Rightarrow> (nat \<Rightarrow> string) \<Rightarrow> (dict \<times> dict \<times> string \<times> string \<times> nat) res" where
  "staged_identity a state secrets source_nid fresh =
     (let staged = (if secrets then state else strip_state state);
          staged = (if has_key ''node'' staged then staged else AList.update ''node'' (JObj []) staged) in
      case dget ''node'' staged of
        JObj node \<Rightarrow>
          (let node_id = py_str (py_or (dget ''node_id'' node) (JStr source_nid)) in
           if node_id = [] then restore_error ''backup state missing node_id''
           else rbind (mint_instance_id node_id (pa_instance_id a) fresh 0) (\<lambda>(iid, n).
             let staged = (case pa_service_account a of None \<Rightarrow> staged | Some d \<Rightarrow> AList.update ''service_account'' (JObj d) staged)
             in Inr (staged, place_node a node_id iid node, node_id, iid, n)))
      | _ \<Rightarrow> restore_error ''state.json node is not an object'')"

text \<open>The Reality keys of a safe plan, and what a secrets plan must find.\<close>

definition staged_keys :: "plan_args \<Rightarrow> bool \<Rightarrow> dict \<Rightarrow> dict res" where
  "staged_keys a secrets node =
     (if secrets
      then (if truthy (dget ''reality_private_key'' node) then Inr node
            else restore_error ''secrets restore missing reality_private_key'')
      else if pa_private a = [] \<or> pa_public a = [] \<or> pa_short_id a = []
      then restore_error ''safe restore requires a new Reality keypair''
      else if pa_clash a = [] then restore_error ''safe restore requires a new Clash secret''
      else Inr (AList.update ''reality_short_id'' (JStr (pa_short_id a))
             (AList.update ''reality_public_key'' (JStr (pa_public a))
             (AList.update ''reality_private_key'' (JStr (pa_private a)) node))))"

definition toml_port :: "json \<Rightarrow> json res" where
  "toml_port v = (if port_digits (py_str v) then rbind (py_int v) (\<lambda>n. Inr (JInt n)) else Inr v)"

definition set_if :: "bool \<Rightarrow> string \<Rightarrow> json \<Rightarrow> string \<Rightarrow> string" where
  "set_if b k v t = (if b then toml_set t k v else t)"

definition staged_config :: "plan_args \<Rightarrow> bool \<Rightarrow> string \<Rightarrow> string \<Rightarrow> string \<Rightarrow> string res" where
  "staged_config a secrets config node_id version =
     (let t = toml_set (if secrets then config else strip_config_toml config) ''node_id'' (JStr node_id);
          t = set_if (version \<noteq> []) ''project_version'' (JStr version) t;
          t = set_if (nonempty (pa_server a)) ''server'' (of_text (pa_server a)) t;
          t = set_if (nonempty (pa_listen a)) ''listen'' (of_text (pa_listen a)) t in
      rbind (if pa_port a \<noteq> JNull \<and> py_str (pa_port a) \<noteq> []
             then rbind (toml_port (pa_port a)) (\<lambda>p. Inr (toml_set t ''port'' p)) else Inr t) (\<lambda>t.
      if \<not> secrets then Inr (toml_set t CLASH_KEY (JStr (pa_clash a)))
      else if toml_get t CLASH_KEY = None \<or> toml_get t CLASH_KEY = Some [] then restore_error ''secrets restore missing clash_api_secret''
      else Inr t))"

text \<open>The link of the owner, or of the last user with a live credential.\<close>

definition link_of :: "dict \<Rightarrow> link_parts \<Rightarrow> string \<Rightarrow> string \<Rightarrow> string" where
  "link_of node lp tag uuid = render_vless_uri uuid (text_at ''server'' node) (lp_port lp)
     (text_at ''reality_server_name'' node) (text_at ''reality_public_key'' node) (text_at ''reality_short_id'' node) tag"

fun owner_link :: "dict \<Rightarrow> link_parts \<Rightarrow> dict list \<Rightarrow> string \<Rightarrow> string res" where
  "owner_link node lp [] acc = Inr acc"
| "owner_link node lp (u # us) acc =
     rbind (dicts_of (dget ''credentials'' u)) (\<lambda>cs.
     let tag = text_at ''tag'' u; live = filter live_credential cs;
         links = map (\<lambda>c. link_of node lp tag (py_str (dget ''uuid'' c))) live;
         acc' = (if links = [] then acc else if tag = ''owner'' then hd links else last links) in
     if tag = ''owner'' \<and> acc' \<noteq> [] then Inr acc' else owner_link node lp us acc')"

definition parts_of_node :: "dict \<Rightarrow> string \<Rightarrow> link_parts" where
  "parts_of_node node node_id = \<lparr>lp_node_id = node_id, lp_name = (let t = py_or (dget ''node_name'' node) (JStr ''node'') in py_str t),
     lp_server = text_at ''server'' node, lp_port = (if dget ''port'' node = JNull then ''443'' else py_str (dget ''port'' node)),
     lp_sni = text_at ''reality_server_name'' node\<rparr>"

definition validate_plan_identity :: "dict \<Rightarrow> string \<Rightarrow> string \<Rightarrow> unit res" where
  "validate_plan_identity state source_nid iid =
     (let nid = text_at ''node_id'' (the_node state); i = text_at ''instance_id'' (the_node state) in
      if nid \<noteq> source_nid then restore_error ''staged node_id does not match backup source_node_id''
      else if i \<noteq> iid then restore_error ''staged instance_id is not the planned new instance_id''
      else if i = nid then restore_error ''staged instance_id must not equal node_id''
      else Inr ())"

definition staged_users :: "plan_args \<Rightarrow> (nat \<Rightarrow> string) \<Rightarrow> bool \<Rightarrow> link_parts \<Rightarrow> dict \<Rightarrow> nat \<Rightarrow> (dict \<times> reissue_row list) res" where
  "staged_users a fresh secrets lp users n =
     (if secrets then rbind (check_kept users) (\<lambda>_. Inr (users, []))
      else rbind (strip_users users) (\<lambda>us.
           rbind (rotate_all a fresh lp us n) (\<lambda>(us', rows).
           rbind (check_rotated users us') (\<lambda>_. Inr (us', rows)))))"

definition build_restore_plan ::
    "plan_args \<Rightarrow> (nat \<Rightarrow> string) \<Rightarrow> dict \<Rightarrow> dict \<Rightarrow> string \<Rightarrow> string option \<Rightarrow> dict \<Rightarrow> restore_plan res" where
  "build_restore_plan a fresh state users config accounting manifest =
     (let source_nid = text_at ''source_node_id'' manifest;
          bearing = truthy (dget ''secret_bearing'' manifest);
          secrets = (pa_include_secrets a \<and> bearing) in
      rbind (staged_identity a state secrets source_nid fresh) (\<lambda>(staged, node, node_id, iid, n).
      let version = (case pa_version a of Some (c # v) \<Rightarrow> c # v | _ \<Rightarrow> text_at ''project_version'' staged);
          staged = put_if (version \<noteq> []) ''project_version'' (JStr version) staged in
      rbind (staged_keys a secrets node) (\<lambda>node.
      let staged = AList.update ''node'' (JObj node) staged; lp = parts_of_node node node_id in
      rbind (staged_users a fresh secrets lp users n) (\<lambda>(us, rows).
      rbind (staged_config a secrets config node_id version) (\<lambda>cf.
      if \<not> secrets \<and> (toml_get cf CLASH_KEY = None \<or> toml_get cf CLASH_KEY = Some [])
      then restore_error ''safe restore staged empty Clash secret''
      else rbind (validate_plan_identity staged (if source_nid = [] then node_id else source_nid) iid) (\<lambda>_.
      rbind (dicts_of (dget ''users'' us)) (\<lambda>uds.
      rbind (owner_link node lp uds []) (\<lambda>owner.
      Inr \<lparr>pl_mode = (if secrets then ''secrets'' else ''safe''), pl_node_id = node_id,
        pl_source_instance = text_at ''source_instance_id'' manifest, pl_instance = iid, pl_state = staged, pl_users = us,
        pl_config = cf, pl_accounting = accounting, pl_rows = rows, pl_owner_uri = owner,
        pl_clash_secret = (case toml_get cf CLASH_KEY of Some (c # t) \<Rightarrow> c # t | _ \<Rightarrow> pa_clash a),
        pl_secret_bearing = bearing\<rparr>))))))))"

end
