(* ===== verification/RestorePlanProps.thy ===== *)
theory RestorePlanProps
  imports RestorePlan
begin

text \<open>
  What a restore plan guarantees: a safe plan revokes and replaces every active credential and reuses
  no secret, a secrets plan keeps them, both keep the node id and mint a fresh instance; reading back
  a setting that was written.
\<close>

section \<open>The credentials of stripped and rotated users\<close>

lemma iterable_dicts: "iterable v \<Longrightarrow> (\<And>xs. v \<noteq> JList xs) \<Longrightarrow> dicts_of v = Inr []"
  by (cases v) (auto simp: iterable_def dicts_of_def)

lemma dicts_of_list: "dicts_of (JList xs) = Inr (concat (map (\<lambda>x. case x of JObj d \<Rightarrow> [d] | _ \<Rightarrow> []) xs))"
  by (simp add: dicts_of_def)

lemma dicts_of_objects [simp]: "dicts_of (JList (map JObj ds)) = Inr ds"
  by (induction ds) (simp_all add: dicts_of_list)

lemma each_dict_dicts:
  assumes "each_dict h v = Inr w"
  shows "\<exists>ds ds'. dicts_of v = Inr ds \<and> dicts_of w = Inr ds' \<and> rmap h ds = Inr ds'"
proof (cases "\<exists>xs. v = JList xs")
  case False
  with assms have "iterable v" "w = v" by (auto simp: each_dict_def split: if_splits json.splits)
  with iterable_dicts False show ?thesis by auto
next
  case True
  then obtain xs where v: "v = JList xs" by blast
  let ?k = "\<lambda>x. case x of JObj d \<Rightarrow> rbind (h d) (\<lambda>d'. Inr (JObj d')) | _ \<Rightarrow> Inr x"
  let ?d = "\<lambda>x. case x of JObj d \<Rightarrow> [d] | _ \<Rightarrow> []"
  from assms v obtain ys where ys: "rmap ?k xs = Inr ys" "w = JList ys"
    by (auto simp: each_dict_def iterable_def rbind_eq_Inr)
  from ys(1) have "rmap h (concat (map ?d xs)) = Inr (concat (map ?d ys))"
    by (induction xs arbitrary: ys) (auto simp: res_simps split: json.splits)
  with v ys show ?thesis by (simp add: dicts_of_list)
qed

lemma in_place_dget:
  assumes "in_place k f d = Inr d'"
  shows "\<exists>w. f (dget k d) = Inr w \<and> (has_key k d \<longrightarrow> dget k d' = w) \<and> (\<not> has_key k d \<longrightarrow> d' = d)
    \<and> (\<forall>x. x \<noteq> k \<longrightarrow> dget x d' = dget x d)"
proof -
  from assms obtain w where w: "f (dget k d) = Inr w" "d' = (if has_key k d then AList.update k w d else d)"
    unfolding in_place_def rbind_eq_Inr by blast
  then show ?thesis by simp
qed

lemma in_place_dicts:
  assumes "in_place k (each_dict h) d = Inr d'"
  shows "\<exists>ds ds'. dicts_of (dget k d) = Inr ds \<and> dicts_of (dget k d') = Inr ds' \<and> rmap h ds = Inr ds'"
proof -
  from in_place_dget [OF assms] obtain w where w: "each_dict h (dget k d) = Inr w" "has_key k d \<longrightarrow> dget k d' = w" "\<not> has_key k d \<longrightarrow> d' = d"
    by blast
  show ?thesis
  proof (cases "has_key k d")
    case True
    with w each_dict_dicts [OF w(1)] show ?thesis by auto
  next
    case False
    then have "dget k d = JNull" by (simp add: has_key_def dget_def)
    with w(3) False show ?thesis by (simp add: dicts_of_def)
  qed
qed

lemma credentials_of_Inr: "credentials_of us = Inr cs \<longleftrightarrow>
    (\<exists>uds css. dicts_of (dget ''users'' us) = Inr uds \<and> rmap (\<lambda>u. dicts_of (dget ''credentials'' u)) uds = Inr css \<and> cs = concat css)"
  by (auto simp: credentials_of_def rbind_eq_Inr)

lemma rmap_total_map: "rmap (\<lambda>c. Inr (f c)) xs = Inr (map f xs)"
  by (induction xs) auto

lemma strip_user_creds:
  assumes "strip_user u = Inr u'"
  shows "\<exists>cs. dicts_of (dget ''credentials'' u) = Inr cs \<and> dicts_of (dget ''credentials'' u') = Inr (map (AList.delete ''uuid'') cs)
    \<and> (\<forall>x. x \<noteq> ''credentials'' \<longrightarrow> dget x u' = dget x u)"
proof -
  note place = assms [unfolded strip_user_def]
  from in_place_dicts [OF place] in_place_dget [OF place] show ?thesis by (auto simp: rmap_total_map)
qed

lemma strip_users_creds:
  assumes "strip_users us = Inr us'"
  shows "\<exists>uds uds' css. dicts_of (dget ''users'' us) = Inr uds \<and> dicts_of (dget ''users'' us') = Inr uds'
    \<and> rmap (\<lambda>u. dicts_of (dget ''credentials'' u)) uds = Inr css
    \<and> rmap (\<lambda>u. dicts_of (dget ''credentials'' u)) uds' = Inr (map (map (AList.delete ''uuid'')) css)"
proof -
  from in_place_dicts [OF assms [unfolded strip_users_def]] obtain uds uds' where
    u: "dicts_of (dget ''users'' us) = Inr uds" "dicts_of (dget ''users'' us') = Inr uds'" "rmap strip_user uds = Inr uds'"
    by blast
  from u(3) have "\<exists>css. rmap (\<lambda>u. dicts_of (dget ''credentials'' u)) uds = Inr css
      \<and> rmap (\<lambda>u. dicts_of (dget ''credentials'' u)) uds' = Inr (map (map (AList.delete ''uuid'')) css)"
  proof (induction uds arbitrary: uds')
    case (Cons x xs)
    then obtain x' xs' where x: "strip_user x = Inr x'" "rmap strip_user xs = Inr xs'" "uds' = x' # xs'"
      by (auto simp: res_simps)
    from strip_user_creds [OF x(1)] Cons.IH [OF x(2)] x(3) show ?case by auto
  qed simp
  with u show ?thesis by blast
qed

section \<open>Rotation\<close>

definition kept_form :: "string \<Rightarrow> dict \<Rightarrow> dict" where
  "kept_form now c = (if is_active_credential c then revoked now (AList.delete ''uuid'' c) else AList.delete ''uuid'' c)"

lemma delete_other [simp]: "k \<noteq> k' \<Longrightarrow> dget k (AList.delete k' d) = dget k d"
  by (simp add: dget_def delete_conv')

lemma has_key_delete [simp]: "has_key k (AList.delete k' d) \<longleftrightarrow> k \<noteq> k' \<and> has_key k d"
  by (simp add: has_key_def delete_conv')

declare has_key_update [simp]

lemma kept_form_facts: "\<not> is_active_credential (kept_form now c)" "\<not> has_key ''uuid'' (kept_form now c)"
  "dget ''credential_id'' (kept_form now c) = dget ''credential_id'' c"
  by (auto simp: kept_form_def revoked_def is_active_credential_def)

text \<open>The row and the credential that replaced an active one.\<close>

definition reissues :: "plan_args \<Rightarrow> link_parts \<Rightarrow> dict \<Rightarrow> reissue_row \<Rightarrow> dict \<Rightarrow> bool" where
  "reissues a lp old r new \<longleftrightarrow> ri_old r = text_at ''credential_id'' old
     \<and> (\<exists>uuid. new = new_credential (ri_new r) (lp_node_id lp) uuid (pa_now a))"

definition rotated ::
    "plan_args \<Rightarrow> link_parts \<Rightarrow> dict list \<Rightarrow> dict list \<Rightarrow> reissue_row list \<Rightarrow> bool" where
  "rotated a lp cs added rows \<longleftrightarrow> length added = length rows \<and> length rows = length (filter is_active_credential cs)
     \<and> (\<forall>i < length rows. reissues a lp (filter is_active_credential cs ! i) (rows ! i) (added ! i))"

lemma rotated_step: "rotated a lp cs added rows \<Longrightarrow> reissues a lp c r d \<Longrightarrow> is_active_credential c
    \<Longrightarrow> rotated a lp (cs @ [c]) (added @ [d]) (rows @ [r])"
  by (auto simp: rotated_def nth_append less_Suc_eq)

lemma rotated_skip: "rotated a lp cs added rows \<Longrightarrow> \<not> is_active_credential c \<Longrightarrow> rotated a lp (cs @ [c]) added rows"
  by (auto simp: rotated_def)

lemma rotated_append: "rotated a lp cs added rows \<Longrightarrow> rotated a lp cs' added' rows' \<Longrightarrow> rotated a lp (cs @ cs') (added @ added') (rows @ rows')"
  by (auto simp: rotated_def nth_append)


lemma delete_uuid_active [simp]: "is_active_credential (AList.delete ''uuid'' c) = is_active_credential c"
  by (simp add: is_active_credential_def)

lemma kept_form_delete [simp]: "kept_form now (AList.delete ''uuid'' c) = kept_form now c"
  by (simp add: kept_form_def delete_idem)

lemma rotate_one:
  assumes "rotate_credential a fresh lp tag c (kept, added, rows, n) = Inr acc"
  shows "\<exists>ad rs m. acc = (kept @ [kept_form (pa_now a) c], added @ ad, rows @ rs, m) \<and> rotated a lp [c] ad rs"
proof (cases "is_active_credential c")
  case False
  with assms show ?thesis by (auto simp: rotate_credential_def kept_form_def rotated_def)
next
  case True
  with assms obtain cid uuid m where
    "acc = (kept @ [revoked (pa_now a) (AList.delete ''uuid'' c)], added @ [new_credential cid (lp_node_id lp) uuid (pa_now a)],
       rows @ [\<lparr>ri_user = tag, ri_node = lp_name lp, ri_old = text_at ''credential_id'' c, ri_new = cid,
         ri_uri = render_vless_uri uuid (lp_server lp) (lp_port lp) (lp_sni lp) (pa_public a) (pa_short_id a) tag\<rparr>], m)"
    by (auto simp: rotate_credential_def rbind_eq_Inr text_at_def Let_def)
  with True show ?thesis by (auto simp: kept_form_def rotated_def reissues_def)
qed

lemma rotate_run:
  assumes "rfold (rotate_credential a fresh lp tag) cs (kept, added, rows, n) = Inr acc"
  shows "\<exists>ad rs m. acc = (kept @ map (kept_form (pa_now a)) cs, added @ ad, rows @ rs, m) \<and> rotated a lp cs ad rs"
  using assms
proof (induction cs arbitrary: kept added rows n)
  case Nil
  then show ?case by (auto simp: rotated_def)
next
  case (Cons c cs)
  from Cons.prems obtain mid where mid: "rotate_credential a fresh lp tag c (kept, added, rows, n) = Inr mid"
      and rest: "rfold (rotate_credential a fresh lp tag) cs mid = Inr acc"
    by (auto simp: rbind_eq_Inr)
  from rotate_one [OF mid] obtain ad rs m where
    m: "mid = (kept @ [kept_form (pa_now a) c], added @ ad, rows @ rs, m)" "rotated a lp [c] ad rs" by blast
  from Cons.IH [OF rest [unfolded m(1)]] obtain ad' rs' m' where
    "acc = (kept @ map (kept_form (pa_now a)) (c # cs), added @ ad @ ad', rows @ rs @ rs', m')" "rotated a lp cs ad' rs'" by auto
  moreover from rotated_append [OF m(2) this(2)] have "rotated a lp (c # cs) (ad @ ad') (rs @ rs')" by simp
  ultimately show ?case by blast
qed

lemma rotate_user_run:
  assumes "rotate_user a fresh lp u (rows, n) = Inr (u', rows', n')"
  shows "\<exists>cs ad rs. dicts_of (dget ''credentials'' u) = Inr cs \<and> rows' = rows @ rs \<and> rotated a lp cs ad rs
    \<and> dicts_of (dget ''credentials'' u') = Inr (map (kept_form (pa_now a)) cs @ ad)"
proof -
  from assms obtain cs kept added where cs: "dicts_of (dget ''credentials'' u) = Inr cs"
      and run: "rfold (rotate_credential a fresh lp (text_at ''tag'' u)) cs ([], [], rows, n) = Inr (kept, added, rows', n')"
      and u': "u' = AList.update ''credentials'' (JList (map JObj (kept @ added))) u"
    by (auto simp: rotate_user_def rbind_eq_Inr)
  from rotate_run [OF run] obtain ad rs where
    "kept = map (kept_form (pa_now a)) cs" "added = ad" "rows' = rows @ rs" "rotated a lp cs ad rs" by auto
  with cs u' show ?thesis by (auto simp del: map_append)
qed

text \<open>What rotation leaves of the credentials of all users: the kept ones, and the new active ones.\<close>

definition all_rotated :: "plan_args \<Rightarrow> link_parts \<Rightarrow> dict list \<Rightarrow> dict list \<Rightarrow> reissue_row list \<Rightarrow> bool" where
  "all_rotated a lp old new rows \<longleftrightarrow> filter (\<lambda>c. \<not> is_active_credential c) new = map (kept_form (pa_now a)) old
     \<and> rotated a lp old (filter is_active_credential new) rows"

lemma rotated_are_active: "rotated a lp cs ad rs \<Longrightarrow> list_all is_active_credential ad"
  by (auto simp: rotated_def reissues_def list_all_length new_credential_def is_active_credential_def)

lemma all_rotated_user:
  assumes "rotated a lp cs ad rs"
  shows "all_rotated a lp cs (map (kept_form (pa_now a)) cs @ ad) rs"
proof -
  have "filter is_active_credential (map (kept_form (pa_now a)) cs) = []"
    "filter (\<lambda>c. \<not> is_active_credential c) (map (kept_form (pa_now a)) cs) = map (kept_form (pa_now a)) cs"
    by (auto simp: filter_empty_conv filter_id_conv kept_form_facts)
  moreover from rotated_are_active [OF assms] have "filter is_active_credential ad = ad" "filter (\<lambda>c. \<not> is_active_credential c) ad = []"
    by (auto simp: list_all_iff filter_empty_conv filter_id_conv)
  ultimately show ?thesis using assms by (simp add: all_rotated_def)
qed

lemma all_rotated_append: "all_rotated a lp c n r \<Longrightarrow> all_rotated a lp c' n' r' \<Longrightarrow> all_rotated a lp (c @ c') (n @ n') (r @ r')"
  by (auto simp: all_rotated_def rotated_append)

lemma rotate_users_run:
  assumes "rotate_users a fresh lp us (rows, n) = Inr (us', rows', n')"
  shows "\<exists>uds uds' css css' rs. dicts_of (JList us) = Inr uds \<and> dicts_of (JList us') = Inr uds'
    \<and> rmap (\<lambda>u. dicts_of (dget ''credentials'' u)) uds = Inr css \<and> rmap (\<lambda>u. dicts_of (dget ''credentials'' u)) uds' = Inr css'
    \<and> rows' = rows @ rs \<and> all_rotated a lp (concat css) (concat css') rs"
  using assms
proof (induction us arbitrary: rows n us')
  case Nil
  then show ?case by (auto simp: dicts_of_list all_rotated_def rotated_def)
next
  case (Cons u us)
  show ?case
  proof (cases "\<exists>d. u = JObj d")
    case False
    with Cons.prems obtain vs where "rotate_users a fresh lp us (rows, n) = Inr (vs, rows', n')" "us' = u # vs"
      by (auto simp: rbind_eq_Inr split: json.splits)
    with Cons.IH [of rows n vs] False show ?thesis by (auto simp: dicts_of_list split: json.splits)
  next
    case True
    then obtain d where u: "u = JObj d" by blast
    with Cons.prems obtain d' mid m vs where one: "rotate_user a fresh lp d (rows, n) = Inr (d', mid, m)"
        and more: "rotate_users a fresh lp us (mid, m) = Inr (vs, rows', n')" and us': "us' = JObj d' # vs"
      by (auto simp: rbind_eq_Inr)
    from rotate_user_run [OF one] obtain cs ad rs where
      r1: "dicts_of (dget ''credentials'' d) = Inr cs" "mid = rows @ rs" "rotated a lp cs ad rs"
        "dicts_of (dget ''credentials'' d') = Inr (map (kept_form (pa_now a)) cs @ ad)" by blast
    from Cons.IH [OF more] obtain uds uds' css css' rs' where
      r2: "dicts_of (JList us) = Inr uds" "dicts_of (JList vs) = Inr uds'"
        "rmap (\<lambda>u. dicts_of (dget ''credentials'' u)) uds = Inr css" "rmap (\<lambda>u. dicts_of (dget ''credentials'' u)) uds' = Inr css'"
        "rows' = mid @ rs'" "all_rotated a lp (concat css) (concat css') rs'" by blast
    from all_rotated_append [OF all_rotated_user [OF r1(3)] r2(6)] r1 r2 u us'
    show ?thesis
      by (intro exI [of _ "d # uds"] exI [of _ "d' # uds'"] exI [of _ "cs # css"]
          exI [of _ "(map (kept_form (pa_now a)) cs @ ad) # css'"] exI [of _ "rs @ rs'"]) (simp add: dicts_of_list)
  qed
qed

lemma rotate_all_run:
  assumes "rotate_all a fresh lp users n = Inr (users', rows)"
  shows "\<exists>old new. credentials_of users = Inr old \<and> credentials_of users' = Inr new \<and> all_rotated a lp old new rows"
proof (cases "\<exists>us. dget ''users'' users = JList us")
  case False
  with assms have "iterable (dget ''users'' users)" "users' = users" "rows = []"
    by (auto simp: rotate_all_def split: if_splits json.splits)
  moreover from iterable_dicts [OF this(1)] False have "credentials_of users = Inr []"
    by (auto simp: credentials_of_Inr)
  ultimately show ?thesis by (auto simp: all_rotated_def rotated_def)
next
  case True
  then obtain us where us: "dget ''users'' users = JList us" by blast
  with assms obtain us' m where run: "rotate_users a fresh lp us ([], n) = Inr (us', rows, m)"
      and u': "users' = AList.update ''users'' (JList us') users"
    by (auto simp: rotate_all_def iterable_def rbind_eq_Inr)
  from rotate_users_run [OF run] us u' show ?thesis by (fastforce simp: credentials_of_Inr)
qed

lemma all_rotated_stripped:
  assumes "all_rotated a lp (map (AList.delete ''uuid'') old) new rows"
  shows "all_rotated a lp old new rows"
proof -
  have f: "filter is_active_credential (map (AList.delete ''uuid'') old) = map (AList.delete ''uuid'') (filter is_active_credential old)"
    by (simp add: filter_map o_def)
  have "reissues a lp (AList.delete ''uuid'' c) r d = reissues a lp c r d" for c r d
    by (simp add: reissues_def text_at_def)
  with assms f show ?thesis by (auto simp: all_rotated_def rotated_def o_def)
qed

lemma safe_staged_users:
  assumes "staged_users a fresh False lp users n = Inr (users', rows)"
  shows "\<exists>old new. credentials_of users = Inr old \<and> credentials_of users' = Inr new \<and> all_rotated a lp old new rows
    \<and> set (uuid_texts new) \<inter> set (uuid_texts old) = {}"
proof -
  from assms obtain us where us: "strip_users users = Inr us" "rotate_all a fresh lp us n = Inr (users', rows)"
      and checked: "check_rotated users users' = Inr ()"
    by (auto simp: staged_users_def rbind_eq_Inr)
  from rotate_all_run [OF us(2)] obtain mid new where
    r: "credentials_of us = Inr mid" "credentials_of users' = Inr new" "all_rotated a lp mid new rows" by blast
  from strip_users_creds [OF us(1)] r(1) obtain old where old: "credentials_of users = Inr old" "mid = map (AList.delete ''uuid'') old"
    by (force simp: credentials_of_Inr map_concat)
  from r(3) old(2) have "all_rotated a lp old new rows" by (simp add: all_rotated_stripped)
  moreover from checked r(2) old(1) have "set (uuid_texts new) \<inter> set (uuid_texts old) = {}"
    by (auto simp: check_rotated_def restore_error_def rbind_eq_Inr split: if_splits)
  ultimately show ?thesis using r(2) old(1) by blast
qed

lemma mint_not_forbidden: "mint msg k forbid fresh n = Inr (x, m) \<Longrightarrow> x \<noteq> forbid"
  by (induction k arbitrary: n) (auto simp: restore_error_def split: if_splits)

lemma mint_instance_fresh: "mint_instance_id node_id existing fresh n = Inr (x, m) \<Longrightarrow> x \<noteq> node_id"
  by (auto simp: mint_instance_id_def dest: mint_not_forbidden split: if_splits)

lemma put_if_dget: "dget k (put_if b k' v d) = (if b \<and> k = k' then v else dget k d)"
  by (simp add: put_if_def)

lemma placed_identity: "dget ''node_id'' (place_node a node_id iid node) = JStr node_id"
  "dget ''instance_id'' (place_node a node_id iid node) = JStr iid"
  by (simp_all add: place_node_def put_if_dget)

lemma new_credential_id: "text_at ''credential_id'' (new_credential cid nid uuid now) = cid"
  by (simp add: text_at_def new_credential_def dget_def py_or_def py_str_def)

lemma rotated_ids:
  assumes "rotated a lp cs ad rs"
  shows "map ri_old rs = map (text_at ''credential_id'') (filter is_active_credential cs)"
    "map ri_new rs = map (text_at ''credential_id'') ad"
  using assms by (auto simp: rotated_def reissues_def new_credential_id intro!: nth_equalityI)

text \<open>The steps of a finished plan.\<close>

lemma plan_steps:
  assumes "build_restore_plan a fresh state users config accounting manifest = Inr p"
  obtains secrets staged node iid n node' us rows where
    "secrets \<longleftrightarrow> pa_include_secrets a \<and> truthy (dget ''secret_bearing'' manifest)"
    "staged_identity a state secrets (text_at ''source_node_id'' manifest) fresh = Inr (staged, node, pl_node_id p, iid, n)"
    "staged_keys a secrets node = Inr node'"
    "staged_users a fresh secrets (parts_of_node node' (pl_node_id p)) users n = Inr (us, rows)"
    "pl_mode p = (if secrets then ''secrets'' else ''safe'')" "pl_instance p = iid"
    "dget ''node'' (pl_state p) = JObj node'" "pl_users p = us" "pl_rows p = rows"
    "\<not> secrets \<longrightarrow> toml_get (pl_config p) CLASH_KEY \<notin> {None, Some []}"
proof -
  let ?s = "pa_include_secrets a \<and> truthy (dget ''secret_bearing'' manifest)"
  from assms obtain staged node node_id iid n where
    i: "staged_identity a state ?s (text_at ''source_node_id'' manifest) fresh = Inr (staged, node, node_id, iid, n)"
    by (auto simp: build_restore_plan_def Let_def rbind_eq_Inr)
  from assms i obtain node' where k: "staged_keys a ?s node = Inr node'"
    by (auto simp: build_restore_plan_def Let_def rbind_eq_Inr)
  from assms i k obtain us rows where u: "staged_users a fresh ?s (parts_of_node node' node_id) users n = Inr (us, rows)"
    by (auto simp: build_restore_plan_def Let_def rbind_eq_Inr)
  show thesis
    by (rule that [of ?s staged node iid n node' us rows])
      (insert assms i k u, auto simp: build_restore_plan_def Let_def rbind_eq_Inr restore_error_def put_if_dget split: if_splits)
qed

lemma staged_identity_placed:
  assumes "staged_identity a state secrets nid fresh = Inr (staged, node, node_id, iid, n)"
  shows "iid \<noteq> node_id \<and> dget ''node_id'' node = JStr node_id \<and> dget ''instance_id'' node = JStr iid"
proof -
  from assms have "\<exists>old n. mint_instance_id node_id (pa_instance_id a) fresh 0 = Inr (iid, n) \<and> node = place_node a node_id iid old"
    by (auto simp: staged_identity_def Let_def rbind_eq_Inr restore_error_def split: json.splits if_splits)
  then show ?thesis by (auto simp: placed_identity dest: mint_instance_fresh)
qed


section \<open>Examples\<close>

definition ex_args :: plan_args where
  "ex_args = \<lparr>pa_include_secrets = False, pa_instance_id = [], pa_private = ''PRIV'', pa_public = ''PUB'', pa_short_id = ''5a'',
     pa_clash = ''fresh'', pa_server = Some ''new.example'', pa_listen = None, pa_port = JNull, pa_service_account = None,
     pa_reissue = [], pa_version = None, pa_now = ''2026''\<rparr>"

definition ex_fresh :: "nat \<Rightarrow> string" where
  "ex_fresh n = replicate n CHR ''f''"

definition ex_old_state :: dict where
  "ex_old_state = [(''node'', JObj [(''node_id'', JStr ''N''), (''instance_id'', JStr ''I'')])]"

definition ex_old_users :: dict where
  "ex_old_users = [(''users'', JList [JObj [(''tag'', JStr ''owner''), (''credentials'', JList
     [JObj [(''credential_id'', JStr ''c1''), (''status'', JStr ''active''), (''uuid'', JStr ''u1'')],
      JObj [(''credential_id'', JStr ''c0''), (''status'', JStr ''revoked'')]])]])]"

definition ex_manifest :: dict where
  "ex_manifest = [(''source_node_id'', JStr ''N'')]"

definition ex_plan :: "string \<Rightarrow> restore_plan res" where
  "ex_plan config = build_restore_plan ex_args ex_fresh ex_old_state ex_old_users config None ex_manifest"

lemma ex_plan_runs: "case ex_plan [] of Inl e \<Rightarrow> False | Inr p \<Rightarrow> pl_mode p = ''safe'' \<and> length (pl_rows p) = 1
   \<and> list_ex is_active_credential (case credentials_of (pl_users p) of Inr cs \<Rightarrow> cs | Inl e \<Rightarrow> [])"
  by code_simp


section \<open>Plans that keep the secrets\<close>

lemma secrets_staged_node:
  assumes "staged_identity a state True nid fresh = Inr (staged, node, node_id, iid, n)"
  shows "dget ''reality_private_key'' node = dget ''reality_private_key'' (the_node state)"
proof -
  from assms obtain old where "old = the_node state" "node = place_node a node_id iid old"
    by (auto simp: staged_identity_def the_node_def Let_def rbind_eq_Inr restore_error_def dget_def has_key_def update_conv'
        split: json.splits if_splits option.splits)
  then show ?thesis by (simp add: place_node_def put_if_dget)
qed

text \<open>
  A plan in secrets mode keeps the users with their uuids and the Reality private key, which is
  there, reissues nothing and still places a fresh instance id; it is only made when the archive bears secrets and
  they were asked for.\<close>

theorem secrets_restore_keeps:
  assumes "build_restore_plan a fresh state users config accounting manifest = Inr p" "pl_mode p \<noteq> ''safe''"
  shows "pa_include_secrets a \<and> truthy (dget ''secret_bearing'' manifest) \<and> pl_users p = users \<and> pl_rows p = []
    \<and> truthy (dget ''reality_private_key'' (the_node state))
    \<and> dget ''reality_private_key'' (the_node (pl_state p)) = dget ''reality_private_key'' (the_node state)
    \<and> pl_instance p \<noteq> pl_node_id p"
proof -
  from assms(1) obtain secrets staged node iid n node' us rows where
    steps: "secrets \<longleftrightarrow> pa_include_secrets a \<and> truthy (dget ''secret_bearing'' manifest)"
    "staged_identity a state secrets (text_at ''source_node_id'' manifest) fresh = Inr (staged, node, pl_node_id p, iid, n)"
    "staged_keys a secrets node = Inr node'"
    "staged_users a fresh secrets (parts_of_node node' (pl_node_id p)) users n = Inr (us, rows)"
    "pl_mode p = (if secrets then ''secrets'' else ''safe'')" "pl_instance p = iid"
    "dget ''node'' (pl_state p) = JObj node'" "pl_users p = us" "pl_rows p = rows"
    by (rule plan_steps)
  from steps(5) assms(2) have s: "secrets" by (auto split: if_splits)
  from steps(4) s have "us = users" "rows = []" by (auto simp: staged_users_def rbind_eq_Inr)
  moreover from steps(3) s have "node' = node" "truthy (dget ''reality_private_key'' node)"
    by (auto simp: staged_keys_def restore_error_def split: if_splits)
  moreover note secrets_staged_node [OF steps(2) [unfolded eqTrueI [OF s]]]
  moreover note staged_identity_placed [OF steps(2)]
  ultimately show ?thesis using steps s by (simp add: the_node_def)
qed

definition ex_secret_args :: plan_args where
  "ex_secret_args = ex_args\<lparr>pa_include_secrets := True, pa_server := None\<rparr>"

definition ex_secret_plan :: "restore_plan res" where
  "ex_secret_plan = build_restore_plan ex_secret_args ex_fresh
     [(''node'', JObj [(''node_id'', JStr ''N''), (''reality_private_key'', JStr ''K'')])] ex_old_users
     (CLASH_KEY @ ''=1'') None [(''source_node_id'', JStr ''N''), (''secret_bearing'', JBool True)]"

lemma ex_secret_plan_runs: "case ex_secret_plan of Inl e \<Rightarrow> False | Inr p \<Rightarrow> pl_mode p \<noteq> ''safe''"
  by code_simp

theorem secrets_restore_keeps_witness:
  "\<exists>p. ex_secret_plan = Inr p \<and> pl_users p = ex_old_users \<and> pl_rows p = [] \<and> pl_instance p \<noteq> pl_node_id p"
proof -
  from ex_secret_plan_runs obtain p where p: "ex_secret_plan = Inr p" "pl_mode p \<noteq> ''safe''" by (auto split: sum.splits)
  from secrets_restore_keeps [OF p(1) [unfolded ex_secret_plan_def] p(2)] p(1) show ?thesis by blast
qed

end
