(* ===== verification/Restore.thy ===== *)
theory Restore
  imports RestorePlan
begin

text \<open>
  The restore transaction of \<open>lib/vincula-backup.py\<close>: \<open>apply_restore\<close> with its safety tree and journal,
  \<open>rollback_restore\<close>, \<open>commit_restore_version\<close>, and the commands \<open>restore\<close>, \<open>rollback\<close> and
  \<open>commit-version\<close>.

  Every operation of the file system may fail: \<open>he_fault\<close> says how the n-th one ends.  \<open>Early\<close> raises
  before it changes anything, \<open>Late\<close> after all is changed, \<open>Torn\<close> with half of a write done.  A file is
  its bytes; permissions, links and the temporary file beside a written one are left out.  The safety
  tree is kept by name, its journal and its notes by what they parse to; \<open>systemctl\<close> is a parameter.
\<close>

section \<open>The host\<close>

datatype fault = Fine | Early | Torn | Late

record services =
  sv_sing_enabled :: bool
  sv_sing_active :: bool
  sv_acct_enabled :: bool
  sv_acct_active :: bool

record journal =
  jn_written :: "string list"
  jn_csv :: "string option"
  jn_config :: "string option"
  jn_db :: "string option"
  jn_services :: "services option"
  jn_manage :: bool
  jn_had_marker :: bool
  jn_rollback :: "(string \<times> string list) option"

definition empty_journal :: journal where
  "empty_journal = \<lparr>jn_written = [], jn_csv = None, jn_config = None, jn_db = None, jn_services = None,
     jn_manage = False, jn_had_marker = False, jn_rollback = None\<rparr>"

text \<open>The files, the safety tree, the services, and the two variables \<open>written\<close> and \<open>csv_path\<close> of a run.\<close>

record 's machine =
  mc_files :: "string \<Rightarrow> string option"
  mc_has_safety :: bool
  mc_safety :: "string \<Rightarrow> string option"
  mc_journal :: "journal option"
  mc_service_file :: "services option"
  mc_marker :: "(string \<times> string) option"
  mc_systemd :: 's
  mc_written :: "string list"
  mc_csv :: "string option"
  mc_ops :: nat

record 's host =
  he_fault :: "nat \<Rightarrow> fault"
  he_systemctl :: "string list \<Rightarrow> 's \<Rightarrow> int \<times> 's"

type_synonym ('s, 'a) mact = "'s machine \<Rightarrow> 'a res \<times> 's machine"

definition mret :: "'a \<Rightarrow> ('s, 'a) mact" where
  "mret x m = (Inr x, m)"

definition mraise :: "'a res \<Rightarrow> ('s, 'a) mact" where
  "mraise e m = (e, m)"

definition mbind :: "('s, 'a) mact \<Rightarrow> ('a \<Rightarrow> ('s, 'b) mact) \<Rightarrow> ('s, 'b) mact" where
  "mbind a f m = (case a m of (Inl e, m') \<Rightarrow> (Inl e, m') | (Inr x, m') \<Rightarrow> f x m')"

definition mlook :: "('s machine \<Rightarrow> 'x) \<Rightarrow> ('x \<Rightarrow> ('s, 'a) mact) \<Rightarrow> ('s, 'a) mact" where
  "mlook g f m = f (g m) m"

definition mset :: "('s machine \<Rightarrow> 's machine) \<Rightarrow> ('s, unit) mact" where
  "mset g m = (Inr (), g m)"

fun meach :: "('x \<Rightarrow> ('s, unit) mact) \<Rightarrow> 'x list \<Rightarrow> ('s, unit) mact" where
  "meach f [] = mret ()"
| "meach f (x # xs) = mbind (f x) (\<lambda>_. meach f xs)"

definition mopt :: "'x option \<Rightarrow> ('x \<Rightarrow> ('s, unit) mact) \<Rightarrow> ('s, unit) mact" where
  "mopt v f = (case v of None \<Rightarrow> mret () | Some x \<Rightarrow> f x)"

definition mwhen :: "bool \<Rightarrow> ('s, unit) mact \<Rightarrow> ('s, unit) mact" where
  "mwhen b a = (if b then a else mret ())"

text \<open>One operation of the file system; \<open>eff\<close> is what it leaves, by the way it ends.\<close>

definition disk_op :: "'s host \<Rightarrow> (fault \<Rightarrow> 's machine \<Rightarrow> 's machine) \<Rightarrow> ('s, unit) mact" where
  "disk_op h eff m = (let f = he_fault h (mc_ops m) in
     (if f = Fine then Inr () else os_error, (eff f m)\<lparr>mc_ops := Suc (mc_ops m)\<rparr>))"

definition done_by :: "fault \<Rightarrow> bool" where
  "done_by f \<longleftrightarrow> f = Fine \<or> f = Late"

definition put_at :: "string \<Rightarrow> string option \<Rightarrow> 's machine \<Rightarrow> 's machine" where
  "put_at p v m = m\<lparr>mc_files := (mc_files m)(p := v)\<rparr>"

definition make_dir :: "'s host \<Rightarrow> ('s, unit) mact" where
  "make_dir h = disk_op h (\<lambda>_ m. m)"

text \<open>Replacing a file as a whole; writing it in place; removing it; a database copied over it.\<close>

definition write_private :: "'s host \<Rightarrow> string \<Rightarrow> string \<Rightarrow> ('s, unit) mact" where
  "write_private h p d = disk_op h (\<lambda>f m. if done_by f then put_at p (Some d) m else m)"

definition write_over :: "'s host \<Rightarrow> string \<Rightarrow> string \<Rightarrow> ('s, unit) mact" where
  "write_over h p d = disk_op h (\<lambda>f m. if done_by f then put_at p (Some d) m
     else if f = Torn then put_at p (Some []) m else m)"

definition remove_file :: "'s host \<Rightarrow> string \<Rightarrow> ('s, unit) mact" where
  "remove_file h p = disk_op h (\<lambda>f m. if done_by f then put_at p None m else m)"

definition remove_if_there :: "'s host \<Rightarrow> string \<Rightarrow> ('s, unit) mact" where
  "remove_if_there h p = mlook (\<lambda>m. mc_files m p) (\<lambda>v. mwhen (v \<noteq> None) (remove_file h p))"

definition snapshot_over :: "'s host \<Rightarrow> string \<Rightarrow> string \<Rightarrow> ('s, unit) mact" where
  "snapshot_over h p d = disk_op h (\<lambda>f m. if done_by f then put_at p (Some d) m
     else if f = Torn then put_at p None m else m)"

definition copy_to_safety :: "'s host \<Rightarrow> string \<Rightarrow> string \<Rightarrow> ('s, unit) mact" where
  "copy_to_safety h n d = disk_op h (\<lambda>f m. if done_by f then m\<lparr>mc_safety := (mc_safety m)(n \<mapsto> d)\<rparr>
     else if f = Torn then m\<lparr>mc_safety := (mc_safety m)(n \<mapsto> [])\<rparr> else m)"

definition write_restore_journal :: "'s host \<Rightarrow> journal \<Rightarrow> ('s, unit) mact" where
  "write_restore_journal h j = disk_op h (\<lambda>f m. if done_by f then m\<lparr>mc_journal := Some j\<rparr>
     else if f = Torn then m\<lparr>mc_journal := None\<rparr> else m)"

definition write_service_file :: "'s host \<Rightarrow> services \<Rightarrow> ('s, unit) mact" where
  "write_service_file h sv = disk_op h (\<lambda>f m. if done_by f then m\<lparr>mc_service_file := Some sv\<rparr>
     else if f = Torn then m\<lparr>mc_service_file := None\<rparr> else m)"

definition write_restore_marker :: "'s host \<Rightarrow> string \<Rightarrow> string \<Rightarrow> ('s, unit) mact" where
  "write_restore_marker h kind status = disk_op h (\<lambda>f m. if done_by f then m\<lparr>mc_marker := Some (kind, status)\<rparr>
     else if f = Torn then m\<lparr>mc_marker := None\<rparr> else m)"

section \<open>Services\<close>

definition systemctl_run :: "'s host \<Rightarrow> string list \<Rightarrow> ('s, int) mact" where
  "systemctl_run h argv m = (let (rc, s) = he_systemctl h argv (mc_systemd m) in (Inr rc, m\<lparr>mc_systemd := s\<rparr>))"

definition SING :: string where "SING = ''sing-box.service''"
definition ACCT :: string where "ACCT = ''vincula-accountd.service''"

definition capture_service_state :: "'s host \<Rightarrow> ('s, services) mact" where
  "capture_service_state h =
     mbind (systemctl_run h [''is-enabled'', ''--quiet'', SING]) (\<lambda>se.
     mbind (systemctl_run h [''is-active'', ''--quiet'', SING]) (\<lambda>sa.
     mbind (systemctl_run h [''is-enabled'', ''--quiet'', ACCT]) (\<lambda>ae.
     mbind (systemctl_run h [''is-active'', ''--quiet'', ACCT]) (\<lambda>aa.
     mret \<lparr>sv_sing_enabled = (se = 0), sv_sing_active = (sa = 0), sv_acct_enabled = (ae = 0), sv_acct_active = (aa = 0)\<rparr>))))"

definition service_steps :: "services \<Rightarrow> (string \<times> string) list" where
  "service_steps sv =
     [(if sv_sing_enabled sv then ''enable'' else ''disable'', SING), (if sv_sing_active sv then ''start'' else ''stop'', SING),
      (if sv_acct_enabled sv then ''enable'' else ''disable'', ACCT), (if sv_acct_active sv then ''start'' else ''stop'', ACCT)]"

fun run_services :: "'s host \<Rightarrow> (string \<times> string) list \<Rightarrow> ('s, string list) mact" where
  "run_services h [] = mret []"
| "run_services h ((verb, unit) # rest) =
     mbind (systemctl_run h [verb, unit]) (\<lambda>rc.
     mbind (run_services h rest) (\<lambda>errs.
     mret ((if rc = 0 then [] else [verb @ '' '' @ unit @ '' failed (exit '' @ int_text rc @ '')'']) @ errs)))"

definition apply_service_state :: "'s host \<Rightarrow> services \<Rightarrow> ('s, string list) mact" where
  "apply_service_state h sv = run_services h (service_steps sv)"

section \<open>Roll back\<close>

record rollback_args =
  rb_dir :: string
  rb_db :: "string option"
  rb_written :: "string list"
  rb_config :: "string option"
  rb_csv :: "string option"
  rb_services :: "services option"
  rb_manage :: "bool option"

definition STATE_FILES :: "string list" where
  "STATE_FILES = [''state.json'', ''users.json'', ''config.toml'', ''VERSION'', ''owner.uri'']"

definition RUNTIME_ONLY :: string where "RUNTIME_ONLY = ''.runtime-only''"

definition in_dir :: "string \<Rightarrow> string \<Rightarrow> string" where
  "in_dir d n = d @ ''/'' @ n"

definition or_else :: "'a option \<Rightarrow> 'a option \<Rightarrow> 'a option" where
  "or_else a b = (case a of None \<Rightarrow> b | Some x \<Rightarrow> a)"

definition read_restore_journal :: "'s machine \<Rightarrow> journal" where
  "read_restore_journal m = (case mc_journal m of None \<Rightarrow> empty_journal | Some j \<Rightarrow> j)"

definition no_services :: services where
  "no_services = \<lparr>sv_sing_enabled = False, sv_sing_active = False, sv_acct_enabled = False, sv_acct_active = False\<rparr>"

definition services_to_restore :: "rollback_args \<Rightarrow> journal \<Rightarrow> 's machine \<Rightarrow> services" where
  "services_to_restore r j m = (case rb_services r of Some sv \<Rightarrow> sv | None \<Rightarrow>
     (case jn_services j of Some sv \<Rightarrow> sv | None \<Rightarrow> (case mc_service_file m of Some sv \<Rightarrow> sv | None \<Rightarrow> no_services)))"

text \<open>A file goes back from the safety tree, or is removed if this restore wrote it.\<close>

definition roll_file ::
    "('s host \<Rightarrow> string \<Rightarrow> string \<Rightarrow> ('s, unit) mact) \<Rightarrow> 's host \<Rightarrow> string list \<Rightarrow> string \<Rightarrow> string \<Rightarrow> ('s, unit) mact" where
  "roll_file put h written n p = mlook (\<lambda>m. mc_safety m n) (\<lambda>saved. case saved of
     Some d \<Rightarrow> put h p d
   | None \<Rightarrow> mwhen (n \<in> set written) (remove_if_there h p))"

definition roll_marker :: "'s host \<Rightarrow> string \<Rightarrow> journal \<Rightarrow> ('s, unit) mact" where
  "roll_marker h p j = mlook (\<lambda>m. mc_safety m RUNTIME_ONLY) (\<lambda>saved. case saved of
     Some d \<Rightarrow> write_over h p d
   | None \<Rightarrow> mwhen (jn_had_marker j) (write_over h p (''runtime-only'' @ NEWLINE)))"

definition roll_files :: "'s host \<Rightarrow> (string \<Rightarrow> string) \<Rightarrow> rollback_args \<Rightarrow> journal \<Rightarrow> ('s, unit) mact" where
  "roll_files h snap r j =
     (let written = (if rb_written r = [] then jn_written j else rb_written r) in
      mbind (meach (\<lambda>n. roll_file write_private h written n (in_dir (rb_dir r) n)) STATE_FILES) (\<lambda>_.
      mbind (mlook (\<lambda>m. mc_safety m ''VERSION'') (\<lambda>saved.
        mwhen (saved = None) (remove_if_there h (in_dir (rb_dir r) ''VERSION'')))) (\<lambda>_.
      mbind (roll_marker h (in_dir (rb_dir r) RUNTIME_ONLY) j) (\<lambda>_.
      mbind (mopt (or_else (rb_db r) (jn_db j)) (\<lambda>p.
        roll_file (\<lambda>h p d. snapshot_over h p (snap d)) h written ''accounting.db'' p)) (\<lambda>_.
      mbind (mopt (or_else (rb_config r) (jn_config j)) (\<lambda>p. roll_file write_private h written ''config.json'' p)) (\<lambda>_.
      mopt (or_else (rb_csv r) (jn_csv j)) (remove_if_there h)))))))"

definition rollback_restore :: "'s host \<Rightarrow> (string \<Rightarrow> string) \<Rightarrow> rollback_args \<Rightarrow> ('s, string list) mact" where
  "rollback_restore h snap r = mlook (\<lambda>m. (if mc_has_safety m then read_restore_journal m else empty_journal, mc_has_safety m)) (\<lambda>(j, there).
     mbind (roll_files h snap r j) (\<lambda>_.
     mlook (services_to_restore r j) (\<lambda>sv.
     mbind (if (case rb_manage r of Some b \<Rightarrow> b | None \<Rightarrow> jn_manage j) then apply_service_state h sv else mret []) (\<lambda>errs.
     let status = (if errs = [] then ''rolled-back'' else ''rollback_partial'') in
     mbind (mwhen (errs \<noteq> [] \<and> there) (write_restore_journal h (j\<lparr>jn_rollback := Some (status, errs)\<rparr>))) (\<lambda>_.
     mbind (mwhen there (write_restore_marker h ''restore-rollback'' status)) (\<lambda>_. mret errs))))))"

section \<open>Restore\<close>

record restore_args =
  rs_dir :: string
  rs_parent :: string
  rs_db :: "string option"
  rs_config :: "string option"
  rs_generated :: "string option"
  rs_reissue :: "string option"
  rs_version :: "string option"
  rs_defer :: bool
  rs_manage :: bool
  rs_services :: "services option"
  rs_stamp :: string
  rs_fail_after :: string
  rs_errno :: string

definition safety_copy_existing :: "'s host \<Rightarrow> (string \<Rightarrow> string) \<Rightarrow> restore_args \<Rightarrow> services \<Rightarrow> ('s, unit) mact" where
  "safety_copy_existing h snap a sv =
     (let copy = (\<lambda>f n p. mlook (\<lambda>m. mc_files m p) (\<lambda>v. mopt v (\<lambda>d. copy_to_safety h n (f d)))) in
      mbind (disk_op h (\<lambda>f m. if f = Early then m else m\<lparr>mc_has_safety := True\<rparr>)) (\<lambda>_.
      mbind (meach (\<lambda>n. copy id n (in_dir (rs_dir a) n)) STATE_FILES) (\<lambda>_.
      mbind (copy id RUNTIME_ONLY (in_dir (rs_dir a) RUNTIME_ONLY)) (\<lambda>_.
      mbind (mopt (rs_db a) (copy snap ''accounting.db'')) (\<lambda>_.
      mbind (mopt (rs_config a) (copy id ''config.json'')) (\<lambda>_.
      mbind (write_service_file h sv) (\<lambda>_.
      write_restore_marker h ''restore-safety'' [])))))))"

text \<open>The test hook of the environment: it raises after the named step.\<close>

definition inject_restore_failure :: "restore_args \<Rightarrow> string \<Rightarrow> ('s, unit) mact" where
  "inject_restore_failure a boundary =
     (let fail_after = (if rs_fail_after a = ''install'' then ''canonical'' else rs_fail_after a) in
      if fail_after \<noteq> boundary then mret ()
      else mraise (if rs_errno a = ''ENOSPC'' \<or> rs_errno a = ''EACCES'' then os_error
        else restore_error (''restore failure injected after '' @ boundary)))"

definition note_written :: "string \<Rightarrow> ('s, unit) mact" where
  "note_written n = mset (\<lambda>m. m\<lparr>mc_written := mc_written m @ [n]\<rparr>)"

definition install :: "'s host \<Rightarrow> string \<Rightarrow> string \<Rightarrow> string \<Rightarrow> ('s, unit) mact" where
  "install h p n d = mbind (write_private h p d) (\<lambda>_. note_written n)"

definition save_journal :: "'s host \<Rightarrow> restore_args \<Rightarrow> services \<Rightarrow> bool \<Rightarrow> ('s, unit) mact" where
  "save_journal h a sv had = mlook (\<lambda>m. (mc_written m, mc_csv m)) (\<lambda>(written, csv).
     write_restore_journal h \<lparr>jn_written = written, jn_csv = csv, jn_config = rs_config a, jn_db = rs_db a,
       jn_services = Some sv, jn_manage = rs_manage a, jn_had_marker = had, jn_rollback = None\<rparr>)"

definition commit_restore_version :: "'s host \<Rightarrow> string \<Rightarrow> string \<Rightarrow> bool \<Rightarrow> ('s, unit) mact" where
  "commit_restore_version h dir version safety =
     mbind (make_dir h) (\<lambda>_.
     mbind (write_private h (in_dir dir ''VERSION'') (rstrip_char (char_of (10 :: nat)) version @ NEWLINE)) (\<lambda>_.
     mbind (remove_if_there h (in_dir dir RUNTIME_ONLY)) (\<lambda>_.
     mwhen safety (write_restore_marker h ''restore-safety'' ''committed''))))"

definition install_canonical :: "'s host \<Rightarrow> 'c codec \<Rightarrow> restore_args \<Rightarrow> restore_plan \<Rightarrow> ('s, unit) mact" where
  "install_canonical h cd a pl =
     (let put = (\<lambda>n. install h (in_dir (rs_dir a) n) n) in
      mbind (make_dir h) (\<lambda>_.
      mbind (put ''state.json'' (cd_dumps cd (JObj (pl_state pl)))) (\<lambda>_.
      mbind (put ''users.json'' (cd_dumps cd (JObj (pl_users pl)))) (\<lambda>_.
      mbind (put ''config.toml'' (cd_encode cd (pl_config pl))) (\<lambda>_.
      mbind (mwhen (pl_owner_uri pl \<noteq> []) (put ''owner.uri'' (cd_encode cd (pl_owner_uri pl @ NEWLINE)))) (\<lambda>_.
      mopt (pl_accounting pl) (\<lambda>d. mopt (rs_db a) (\<lambda>p. mbind (make_dir h) (\<lambda>_. install h p ''accounting.db'' d)))))))))"

text \<open>The reissue list goes to a file of its own; \<open>csv\<close> is the text the csv module writes for rows of fields.\<close>

definition csv_header :: "string list" where
  "csv_header = [''user'', ''node'', ''old_credential_id'', ''new_credential_id'', ''vless_uri'']"

definition csv_fields :: "reissue_row \<Rightarrow> string list" where
  "csv_fields r = [ri_user r, ri_node r, ri_old r, ri_new r, ri_uri r]"

definition csv_place :: "restore_args \<Rightarrow> restore_plan \<Rightarrow> string" where
  "csv_place a pl = (case rs_reissue a of Some p \<Rightarrow> p
     | None \<Rightarrow> in_dir (rs_parent a) (''reissue-'' @ pl_node_id pl @ ''-'' @ rs_stamp a @ ''.csv''))"

definition write_reissue_csv :: "'s host \<Rightarrow> (string list list \<Rightarrow> string) \<Rightarrow> string \<Rightarrow> reissue_row list \<Rightarrow> ('s, unit) mact" where
  "write_reissue_csv h csv p rows = mbind (make_dir h) (\<lambda>_. write_private h p (csv (csv_header # map csv_fields rows)))"

definition install_reissue ::
    "'s host \<Rightarrow> (string list list \<Rightarrow> string) \<Rightarrow> restore_args \<Rightarrow> services \<Rightarrow> bool \<Rightarrow> restore_plan \<Rightarrow> ('s, unit) mact" where
  "install_reissue h csv a sv had pl = mwhen (pl_mode pl = ''safe'' \<and> pl_rows pl \<noteq> [])
     (mbind (mset (\<lambda>m. m\<lparr>mc_csv := Some (csv_place a pl)\<rparr>)) (\<lambda>_.
      mbind (write_reissue_csv h csv (csv_place a pl) (pl_rows pl)) (\<lambda>_.
      mbind (note_written ''reissue.csv'') (\<lambda>_. save_journal h a sv had))))"

definition restore_version :: "restore_args \<Rightarrow> restore_plan \<Rightarrow> string" where
  "restore_version a pl = (case rs_version a of Some (c # v) \<Rightarrow> c # v
     | _ \<Rightarrow> if text_at ''project_version'' (pl_state pl) \<noteq> [] then text_at ''project_version'' (pl_state pl) else ''0.3.0'')"

definition commit_step :: "'s host \<Rightarrow> restore_args \<Rightarrow> services \<Rightarrow> bool \<Rightarrow> restore_plan \<Rightarrow> ('s, unit) mact" where
  "commit_step h a sv had pl =
     (if rs_defer a then write_restore_marker h ''restore-safety'' ''pending''
      else mbind (inject_restore_failure a ''health'') (\<lambda>_.
        mbind (mwhen (rs_fail_after a = ''version'' \<and> rs_errno a = ''EACCES'') (inject_restore_failure a ''version'')) (\<lambda>_.
        mbind (commit_restore_version h (rs_dir a) (restore_version a pl) True) (\<lambda>_.
        mbind (note_written ''VERSION'') (\<lambda>_.
        mbind (save_journal h a sv had) (\<lambda>_. inject_restore_failure a ''version''))))))"

definition install_all ::
    "'s host \<Rightarrow> 'c codec \<Rightarrow> (string list list \<Rightarrow> string) \<Rightarrow> restore_args \<Rightarrow> services \<Rightarrow> bool \<Rightarrow> restore_plan \<Rightarrow> ('s, unit) mact" where
  "install_all h cd csv a sv had pl =
     mbind (install_canonical h cd a pl) (\<lambda>_.
     mbind (save_journal h a sv had) (\<lambda>_.
     mbind (inject_restore_failure a ''canonical'') (\<lambda>_.
     mbind (install_reissue h csv a sv had pl) (\<lambda>_.
     mbind (inject_restore_failure a ''csv'') (\<lambda>_.
     mbind (mopt (rs_config a) (\<lambda>p. mopt (rs_generated a) (\<lambda>g.
       mbind (install h p ''config.json'' g) (\<lambda>_. save_journal h a sv had)))) (\<lambda>_.
     mbind (inject_restore_failure a ''config'') (\<lambda>_.
     commit_step h a sv had pl)))))))"

text \<open>\<open>try\<close> with the roll back in every handler; \<open>OSError\<close> becomes a restore error.\<close>

definition guarded :: "('s machine \<Rightarrow> ('s, 'b) mact) \<Rightarrow> ('s, unit) mact \<Rightarrow> ('s, unit) mact" where
  "guarded back body m = (case body m of
     (Inr x, m') \<Rightarrow> (Inr x, m')
   | (Inl e, m') \<Rightarrow> (case back m' m' of
       (Inl e', m'') \<Rightarrow> (Inl e', m'')
     | (Inr _, m'') \<Rightarrow> (if Inl e = (os_error :: unit res) then restore_error ''io_error'' else Inl e, m'')))"

definition roll_args :: "restore_args \<Rightarrow> services \<Rightarrow> 's machine \<Rightarrow> rollback_args" where
  "roll_args a sv m = \<lparr>rb_dir = rs_dir a, rb_db = rs_db a, rb_written = mc_written m, rb_config = rs_config a,
     rb_csv = mc_csv m, rb_services = Some sv, rb_manage = Some (rs_manage a)\<rparr>"

definition stage_hook :: "'s host \<Rightarrow> restore_args \<Rightarrow> ('s, unit) mact" where
  "stage_hook h a = mwhen (rs_fail_after a = ''stage'') (mbind (write_restore_marker h ''restore-rollback'' ''rolled-back'') (\<lambda>_.
     mraise (restore_error ''restore failure injected after stage'')))"

definition run_restore ::
    "'s host \<Rightarrow> 'c codec \<Rightarrow> (string list list \<Rightarrow> string) \<Rightarrow> restore_args \<Rightarrow> restore_plan \<Rightarrow> ('s, unit) mact" where
  "run_restore h cd csv a pl =
     mbind (case rs_services a of Some sv \<Rightarrow> mret sv | None \<Rightarrow> capture_service_state h) (\<lambda>sv.
     mbind (safety_copy_existing h (cd_snapshot cd) a sv) (\<lambda>_.
     mbind (stage_hook h a) (\<lambda>_.
     mbind (mwhen (rs_manage a \<and> sv_acct_active sv) (mbind (systemctl_run h [''stop'', ACCT]) (\<lambda>_. mret ()))) (\<lambda>_.
     mbind (mset (\<lambda>m. m\<lparr>mc_written := [], mc_csv := None\<rparr>)) (\<lambda>_.
     mlook (\<lambda>m. mc_files m (in_dir (rs_dir a) RUNTIME_ONLY) \<noteq> None) (\<lambda>had.
     mbind (save_journal h a sv had) (\<lambda>_.
     guarded (\<lambda>m. rollback_restore h (cd_snapshot cd) (roll_args a sv m)) (install_all h cd csv a sv had pl))))))))"

text \<open>What is read from the archive before anything changes.\<close>

definition archive_message :: "string \<Rightarrow> string" where
  "archive_message err = (if err = ''age_identity_required'' then ''Encrypted backup verify requires --age-identity FILE.''
     else if err = ''age_required'' then ''Secret-bearing backup requires age.'' else err)"

definition load_verified_members :: "'c codec \<Rightarrow> bool \<Rightarrow> string \<Rightarrow> 'c blob option \<Rightarrow> (dict \<times> loaded) res" where
  "load_verified_members cd identity path file =
     rbind (load_members cd identity path file) (\<lambda>x. case x of
       Inl err \<Rightarrow> restore_error (archive_message err)
     | Inr l \<Rightarrow> rbind (verify_loaded cd l path) (\<lambda>v. case v of
         Inl err \<Rightarrow> restore_error (archive_message err) | Inr m \<Rightarrow> Inr (m, l)))"

definition preflight_restore :: "dict \<Rightarrow> bool \<Rightarrow> bool \<Rightarrow> unit res" where
  "preflight_restore manifest installed include_secrets =
     (if installed then restore_error ''Refusing to overwrite an existing Vincula install.''
      else if include_secrets \<and> \<not> truthy (dget ''secret_bearing'' manifest)
      then restore_error ''--include-secrets requires a secret-bearing backup.'' else Inr ())"

definition restore_documents :: "'c codec \<Rightarrow> loaded \<Rightarrow> (json \<times> json \<times> string) res" where
  "restore_documents cd l =
     (let doc = (\<lambda>n. case map_of (ld_members l) n of None \<Rightarrow> None | Some s \<Rightarrow> member_json cd l s) in
      case (doc ''state.json'', doc ''users.json'') of
        (Some state, Some users) \<Rightarrow>
          (case map_of (ld_members l) ''config.toml'' of
             None \<Rightarrow> Inr (state, users, [])
           | Some s \<Rightarrow> (case as_bytes l s of
               None \<Rightarrow> Inl (ValueError ''config.toml'')
             | Some b \<Rightarrow> (case cd_decode cd b of None \<Rightarrow> Inl (ValueError ''UnicodeDecodeError'') | Some t \<Rightarrow> Inr (state, users, t))))
      | _ \<Rightarrow> restore_error ''invalid_archive'')"

definition restored_accounting :: "loaded \<Rightarrow> string option" where
  "restored_accounting l = (case map_of (ld_members l) ''accounting.db'' of None \<Rightarrow> None
     | Some s \<Rightarrow> (case member_bytes l s of Inr b \<Rightarrow> Some b | Inl _ \<Rightarrow> None))"

definition planned_instance ::
    "plan_args \<Rightarrow> (nat \<Rightarrow> string) \<Rightarrow> json \<Rightarrow> dict \<Rightarrow> (string \<times> nat) res" where
  "planned_instance pa fresh state manifest =
     (if pa_instance_id pa \<noteq> [] then Inr (pa_instance_id pa, 0)
      else (case state of
          JObj d \<Rightarrow> mint_instance_id (py_str (py_or (dget ''node_id'' (the_node d)) (py_or (dget ''source_node_id'' manifest) (JStr [])))) [] fresh 0
        | _ \<Rightarrow> Inl AttributeError))"

definition plan_restore ::
    "'c codec \<Rightarrow> plan_args \<Rightarrow> (nat \<Rightarrow> string) \<Rightarrow> string \<Rightarrow> dict \<times> loaded \<Rightarrow> restore_plan res" where
  "plan_restore cd pa fresh token verified = (case verified of (manifest, l) \<Rightarrow>
     rbind (restore_documents cd l) (\<lambda>(state, users, config).
     rbind (planned_instance pa fresh state manifest) (\<lambda>(iid, n).
     let secrets = (pa_include_secrets pa \<and> truthy (dget ''secret_bearing'' manifest));
         clash = (if \<not> secrets \<and> pa_clash pa = [] then token else pa_clash pa) in
     if \<not> secrets \<and> (pa_private pa = [] \<or> pa_public pa = [] \<or> pa_short_id pa = [])
     then restore_error ''safe restore requires Reality keys (pass --new-reality-* or set VCL_RESTORE_REALITY_*).''
     else (case (state, users) of
         (JObj s, JObj u) \<Rightarrow> build_restore_plan (pa\<lparr>pa_instance_id := iid, pa_clash := clash\<rparr>) (\<lambda>k. fresh (k + n))
           s u config (restored_accounting l) manifest
       | _ \<Rightarrow> Inl AttributeError))))"

record restore_input =
  rn_path :: string
  rn_identity :: bool
  rn_fresh :: "nat \<Rightarrow> string"
  rn_token :: string

definition apply_restore ::
    "'s host \<Rightarrow> 'c codec \<Rightarrow> (string list list \<Rightarrow> string) \<Rightarrow> restore_input \<Rightarrow> 'c blob option \<Rightarrow> plan_args \<Rightarrow> restore_args
      \<Rightarrow> ('s, restore_plan) mact" where
  "apply_restore h cd csv inp file pa a = mlook (\<lambda>m. mc_files m (in_dir (rs_dir a) ''VERSION'') \<noteq> None) (\<lambda>installed.
     case rbind (load_verified_members cd (rn_identity inp) (rn_path inp) file) (\<lambda>v.
          rbind (preflight_restore (fst v) installed (pa_include_secrets pa)) (\<lambda>_.
          plan_restore cd pa (rn_fresh inp) (rn_token inp) v)) of
       Inl e \<Rightarrow> mraise (Inl e)
     | Inr pl \<Rightarrow> mbind (run_restore h cd csv a pl) (\<lambda>_. mret pl))"

text \<open>The commands \<open>restore-plan\<close> and \<open>rollback\<close> of the program; \<open>commit-version\<close> is \<open>commit_restore_version\<close>.\<close>

definition plan_from_archive ::
    "'c codec \<Rightarrow> restore_input \<Rightarrow> 'c blob option \<Rightarrow> plan_args \<Rightarrow> restore_plan res" where
  "plan_from_archive cd inp file pa =
     rbind (load_verified_members cd (rn_identity inp) (rn_path inp) file) (\<lambda>v.
     rbind (preflight_restore (fst v) False (pa_include_secrets pa)) (\<lambda>_.
     plan_restore cd pa (rn_fresh inp) (rn_token inp) v))"

definition main_rollback ::
    "'s host \<Rightarrow> (string \<Rightarrow> string) \<Rightarrow> string \<Rightarrow> string option \<Rightarrow> string option \<Rightarrow> string option \<Rightarrow> ('s, int) mact" where
  "main_rollback h snap dir db config csv =
     mbind (rollback_restore h snap \<lparr>rb_dir = dir, rb_db = db, rb_written = [], rb_config = config, rb_csv = csv,
       rb_services = None, rb_manage = None\<rparr>) (\<lambda>errs. mret (if errs = [] then 0 else 1))"

end
