(* ===== verification/RestoreProps.thy ===== *)
theory RestoreProps
  imports Restore
begin

text \<open>
  The restore is a transaction: one that fails leaves the files as they were, a deferred one can be rolled
  put_back by a later process, one that succeeds has installed its plan.  A step is described by what it keeps
  (\<open>keeps\<close>), by what its success does to the files (\<open>does\<close>), and the roll back by the function of
  files it computes when nothing fails any more.
\<close>

named_theorems keeps_rules

section \<open>Steps\<close>

definition keeps :: "('s machine \<Rightarrow> bool) \<Rightarrow> ('s, 'a) mact \<Rightarrow> bool" where
  "keeps P a \<longleftrightarrow> (\<forall>m. P m \<longrightarrow> P (snd (a m)))"

lemma keepsD: "keeps P a \<Longrightarrow> a m = (r, m') \<Longrightarrow> P m \<Longrightarrow> P m'"
  by (metis keeps_def snd_conv)

lemma keeps_ret [keeps_rules]: "keeps P (mret x)" by (simp add: keeps_def mret_def)
lemma keeps_raise [keeps_rules]: "keeps P (mraise e)" by (simp add: keeps_def mraise_def)

lemma keeps_bind [keeps_rules]: "keeps P a \<Longrightarrow> (\<And>x. keeps P (f x)) \<Longrightarrow> keeps P (mbind a f)"
  by (fastforce simp: keeps_def mbind_def split: prod.splits sum.splits)

lemma keeps_look [keeps_rules]: "(\<And>x. keeps P (f x)) \<Longrightarrow> keeps P (mlook g f)"
  by (simp add: keeps_def mlook_def)

lemma keeps_set: "(\<And>m. P m \<Longrightarrow> P (g m)) \<Longrightarrow> keeps P (mset g)"
  by (simp add: keeps_def mset_def)

lemma keeps_each [keeps_rules]: "(\<And>x. x \<in> set xs \<Longrightarrow> keeps P (f x)) \<Longrightarrow> keeps P (meach f xs)"
  by (induction xs) (auto intro!: keeps_rules)

lemma keeps_opt [keeps_rules]: "(\<And>x. v = Some x \<Longrightarrow> keeps P (f x)) \<Longrightarrow> keeps P (mopt v f)"
  by (auto simp: mopt_def intro: keeps_rules split: option.split)

lemma keeps_when [keeps_rules]: "(b \<Longrightarrow> keeps P a) \<Longrightarrow> keeps P (mwhen b a)"
  by (auto simp: mwhen_def intro: keeps_rules)

lemma keeps_disk_op: "(\<And>m. P m \<Longrightarrow> P ((eff (he_fault h (mc_ops m)) m)\<lparr>mc_ops := Suc (mc_ops m)\<rparr>)) \<Longrightarrow> keeps P (disk_op h eff)"
  by (simp add: keeps_def disk_op_def Let_def)

text \<open>What success does to a part of the machine.\<close>

definition does :: "('s machine \<Rightarrow> 'x) \<Rightarrow> ('x \<Rightarrow> 'x) \<Rightarrow> ('s, 'a) mact \<Rightarrow> bool" where
  "does sel g a \<longleftrightarrow> (\<forall>m x m'. a m = (Inr x, m') \<longrightarrow> sel m' = g (sel m))"

lemma doesD: "does sel g a \<Longrightarrow> a m = (Inr x, m') \<Longrightarrow> sel m' = g (sel m)"
  by (simp add: does_def)

lemma mbind_Inr: "mbind a f m = (Inr y, m'') \<longleftrightarrow> (\<exists>x m'. a m = (Inr x, m') \<and> f x m' = (Inr y, m''))"
  by (auto simp: mbind_def split: prod.splits sum.splits)

lemma mbind_InrE:
  assumes "mbind a f m = (Inr y, m'')"
  obtains x m' where "a m = (Inr x, m')" "f x m' = (Inr y, m'')"
  using assms by (auto simp: mbind_Inr)

lemma mbind_cases:
  assumes "mbind a f m = (r, m'')"
  obtains (fail) e where "a m = (Inl e, m'')" "r = Inl e" | (ok) x m' where "a m = (Inr x, m')" "f x m' = (r, m'')"
  using assms by (auto simp: mbind_def split: prod.splits sum.splits)

lemma mbind_Inl: "mbind a f m = (Inl e, m'') \<longleftrightarrow> a m = (Inl e, m'') \<or> (\<exists>x m'. a m = (Inr x, m') \<and> f x m' = (Inl e, m''))"
  by (auto simp: mbind_def split: prod.splits sum.splits)

lemma disk_op_Inr: "disk_op h eff m = (Inr x, m') \<longleftrightarrow> he_fault h (mc_ops m) = Fine \<and> m' = (eff Fine m)\<lparr>mc_ops := Suc (mc_ops m)\<rparr>"
  by (auto simp: disk_op_def Let_def os_error_def)

lemma does_bind: "does sel g a \<Longrightarrow> (\<And>x. does sel k (f x)) \<Longrightarrow> does sel (\<lambda>v. k (g v)) (mbind a f)"
  by (fastforce simp: does_def mbind_Inr)

lemma does_ret: "does sel (\<lambda>v. v) (mret x)" by (simp add: does_def mret_def)

lemma does_op: "(\<And>m. sel ((eff Fine m)\<lparr>mc_ops := Suc (mc_ops m)\<rparr>) = g (sel m)) \<Longrightarrow> does sel g (disk_op h eff)"
  by (simp add: does_def disk_op_Inr)

text \<open>A step that fails has met a fault.\<close>

definition honest :: "'s host \<Rightarrow> ('s, 'a) mact \<Rightarrow> bool" where
  "honest h a \<longleftrightarrow> (\<forall>m. mc_ops m \<le> mc_ops (snd (a m))
     \<and> (\<forall>e. fst (a m) = Inl e \<longrightarrow> (\<exists>k < mc_ops (snd (a m)). he_fault h k \<noteq> Fine)))"

named_theorems honest_rules

lemma honest_ret [honest_rules]: "honest h (mret x)" by (simp add: honest_def mret_def)

lemma honest_bind [honest_rules]: "honest h a \<Longrightarrow> (\<And>x. honest h (f x)) \<Longrightarrow> honest h (mbind a f)"
  unfolding honest_def mbind_def
  by (auto split: prod.splits sum.splits) (metis fst_conv le_trans snd_conv)+

lemma honest_look [honest_rules]: "(\<And>x. honest h (f x)) \<Longrightarrow> honest h (mlook g f)"
  by (simp add: honest_def mlook_def)

lemma honest_set: "(\<And>m. mc_ops (g m) = mc_ops m) \<Longrightarrow> honest h (mset g)"
  by (simp add: honest_def mset_def)

lemma honest_each [honest_rules]: "(\<And>x. honest h (f x)) \<Longrightarrow> honest h (meach f xs)"
  by (induction xs) (auto intro!: honest_rules)

lemma honest_opt [honest_rules]: "(\<And>x. honest h (f x)) \<Longrightarrow> honest h (mopt v f)"
  by (auto simp: mopt_def intro: honest_rules split: option.split)

lemma honest_when [honest_rules]: "honest h a \<Longrightarrow> honest h (mwhen b a)"
  by (auto simp: mwhen_def intro: honest_rules)

lemma honest_disk_op [honest_rules]: "honest h (disk_op h eff)"
  by (auto simp: honest_def disk_op_def Let_def split: if_splits)

lemma honest_systemctl [honest_rules]: "honest h (systemctl_run h argv)"
  by (auto simp: honest_def systemctl_run_def Let_def split: prod.splits)

lemmas disk_defs = make_dir_def write_private_def write_over_def remove_file_def snapshot_over_def copy_to_safety_def
  write_restore_journal_def write_service_file_def write_restore_marker_def

lemma honest_disk [honest_rules]: "honest h (make_dir h)" "honest h (write_private h p d)" "honest h (write_over h p d)"
  "honest h (remove_file h p)" "honest h (snapshot_over h p d)" "honest h (copy_to_safety h n d)"
  "honest h (write_restore_journal h j)" "honest h (write_service_file h sv)" "honest h (write_restore_marker h k s)"
  by (simp_all add: disk_defs honest_disk_op)

lemma honest_remove [honest_rules]: "honest h (remove_if_there h p)"
  unfolding remove_if_there_def by (intro honest_rules)

section \<open>Roll back\<close>

definition all_fine :: "'s host \<Rightarrow> nat \<Rightarrow> bool" where
  "all_fine h k \<longleftrightarrow> (\<forall>i \<ge> k. he_fault h i = Fine)"

text \<open>A step that only computes the function \<open>g\<close> of the files, when nothing fails any more.\<close>

definition rolls :: "'s host \<Rightarrow> ((string \<Rightarrow> string option) \<Rightarrow> (string \<Rightarrow> string option) \<Rightarrow> (string \<Rightarrow> string option)) \<Rightarrow> ('s, unit) mact \<Rightarrow> bool" where
  "rolls h g a \<longleftrightarrow> (\<forall>m. all_fine h (mc_ops m) \<longrightarrow>
     (\<exists>k \<ge> mc_ops m. a m = (Inr (), m\<lparr>mc_files := g (mc_safety m) (mc_files m), mc_ops := k\<rparr>)))"

lemma all_fine_le: "all_fine h k \<Longrightarrow> k \<le> l \<Longrightarrow> all_fine h l"
  by (auto simp: all_fine_def)

lemma rollsD:
  assumes "rolls h g a" "all_fine h (mc_ops m)"
  obtains k where "k \<ge> mc_ops m" "a m = (Inr (), m\<lparr>mc_files := g (mc_safety m) (mc_files m), mc_ops := k\<rparr>)"
  using assms unfolding rolls_def by blast

lemma rolls_bind:
  assumes a: "rolls h g a" and b: "rolls h k b"
  shows "rolls h (\<lambda>S F. k S (g S F)) (mbind a (\<lambda>_. b))"
  unfolding rolls_def
proof (intro allI impI)
  fix m :: "'a machine"
  assume fine: "all_fine h (mc_ops m)"
  from a fine obtain i where i: "i \<ge> mc_ops m" "a m = (Inr (), m\<lparr>mc_files := g (mc_safety m) (mc_files m), mc_ops := i\<rparr>)"
    by (rule rollsD)
  from fine i(1) have "all_fine h (mc_ops (m\<lparr>mc_files := g (mc_safety m) (mc_files m), mc_ops := i\<rparr>))" by (simp add: all_fine_le)
  from rollsD [OF b this] obtain j where "j \<ge> i"
    "b (m\<lparr>mc_files := g (mc_safety m) (mc_files m), mc_ops := i\<rparr>)
      = (Inr (), m\<lparr>mc_files := k (mc_safety m) (g (mc_safety m) (mc_files m)), mc_ops := j\<rparr>)"
    by auto
  with i show "\<exists>l \<ge> mc_ops m. mbind a (\<lambda>_. b) m = (Inr (), m\<lparr>mc_files := k (mc_safety m) (g (mc_safety m) (mc_files m)), mc_ops := l\<rparr>)"
    by (intro exI [of _ j]) (simp add: mbind_def)
qed

lemma rolls_ret: "rolls h (\<lambda>S F. F) (mret ())"
  by (auto simp: rolls_def mret_def)

lemma rolls_put: "rolls h (\<lambda>S F. F(p := Some d)) (write_private h p d)" "rolls h (\<lambda>S F. F(p := Some d)) (write_over h p d)"
  "rolls h (\<lambda>S F. F(p := Some d)) (snapshot_over h p d)"
  by (auto simp: rolls_def disk_defs disk_op_def done_by_def put_at_def all_fine_def Let_def intro!: exI [of _ "Suc k" for k])

lemma rolls_remove: "rolls h (\<lambda>S F. F(p := None)) (remove_if_there h p)"
  unfolding rolls_def
proof (intro allI impI)
  fix m :: "'a machine" assume f: "all_fine h (mc_ops m)"
  then have now: "he_fault h (mc_ops m) = Fine" by (simp add: all_fine_def)
  show "\<exists>k \<ge> mc_ops m. remove_if_there h p m = (Inr (), m\<lparr>mc_files := (mc_files m)(p := None), mc_ops := k\<rparr>)"
  proof (cases "mc_files m p")
    case None
    then have "(mc_files m)(p := None) = mc_files m" by auto
    with None show ?thesis by (intro exI [of _ "mc_ops m"]) (simp add: remove_if_there_def mlook_def mwhen_def mret_def)
  next
    case (Some d)
    with now show ?thesis
      by (intro exI [of _ "Suc (mc_ops m)"])
        (simp add: remove_if_there_def mlook_def mwhen_def remove_file_def disk_op_def Let_def done_by_def put_at_def)
  qed
qed

lemma rolls_look: "(\<And>v. rolls h (g v) (f v)) \<Longrightarrow> rolls h (\<lambda>S. g (S n) S) (mlook (\<lambda>m. mc_safety m n) f)"
  by (simp add: rolls_def mlook_def)

lemma rolls_each: "(\<And>x. rolls h (g x) (f x)) \<Longrightarrow> rolls h (\<lambda>S. fold (\<lambda>x. g x S) xs) (meach f xs)"
proof (induction xs)
  case Nil
  then show ?case using rolls_ret by (simp add: id_def)
next
  case (Cons x xs)
  from rolls_bind [OF Cons.prems Cons.IH [OF Cons.prems]] show ?case by (simp add: comp_def)
qed

text \<open>The files after a roll back, as a function of the safety tree and the files before it.\<close>

definition put_back :: "(string \<Rightarrow> string) \<Rightarrow> string list \<Rightarrow> string \<Rightarrow> string \<Rightarrow> (string \<Rightarrow> string option) \<Rightarrow> (string \<Rightarrow> string option) \<Rightarrow> (string \<Rightarrow> string option)" where
  "put_back f written n p S F = (case S n of Some d \<Rightarrow> F(p := Some (f d)) | None \<Rightarrow> if n \<in> set written then F(p := None) else F)"

definition back_marker :: "journal \<Rightarrow> string \<Rightarrow> (string \<Rightarrow> string option) \<Rightarrow> (string \<Rightarrow> string option) \<Rightarrow> (string \<Rightarrow> string option)" where
  "back_marker j p S F = (case S RUNTIME_ONLY of Some d \<Rightarrow> F(p := Some d)
     | None \<Rightarrow> if jn_had_marker j then F(p := Some (''runtime-only'' @ NEWLINE)) else F)"

definition back_opt :: "'x option \<Rightarrow> ('x \<Rightarrow> (string \<Rightarrow> string option) \<Rightarrow> (string \<Rightarrow> string option) \<Rightarrow> (string \<Rightarrow> string option))
    \<Rightarrow> (string \<Rightarrow> string option) \<Rightarrow> (string \<Rightarrow> string option) \<Rightarrow> (string \<Rightarrow> string option)" where
  "back_opt v g S = (case v of None \<Rightarrow> (\<lambda>F. F) | Some x \<Rightarrow> g x S)"

definition back_files :: "(string \<Rightarrow> string) \<Rightarrow> rollback_args \<Rightarrow> journal \<Rightarrow> (string \<Rightarrow> string option) \<Rightarrow> (string \<Rightarrow> string option) \<Rightarrow> (string \<Rightarrow> string option)" where
  "back_files snap r j S F = (let written = (if rb_written r = [] then jn_written j else rb_written r) in
     back_opt (or_else (rb_csv r) (jn_csv j)) (\<lambda>p S F. F(p := None)) S
    (back_opt (or_else (rb_config r) (jn_config j)) (put_back id written ''config.json'') S
    (back_opt (or_else (rb_db r) (jn_db j)) (put_back snap written ''accounting.db'') S
    (back_marker j (in_dir (rb_dir r) RUNTIME_ONLY) S
    ((if S ''VERSION'' = None then (\<lambda>F. F(in_dir (rb_dir r) ''VERSION'' := None)) else (\<lambda>F. F))
    (fold (\<lambda>n. put_back id written n (in_dir (rb_dir r) n) S) STATE_FILES F))))))"

lemma rolls_when_remove: "rolls h (\<lambda>S. if b then (\<lambda>F. F(p := None)) else (\<lambda>F. F)) (mwhen b (remove_if_there h p))"
  using rolls_remove rolls_ret by (auto simp: mwhen_def)

lemma rolls_roll_file:
  assumes "\<And>h p d. rolls h (\<lambda>S F. F(p := Some (f d))) (put h p d)"
  shows "rolls h (put_back f written n p) (roll_file put h written n p)"
proof -
  have "rolls h (case v of Some d \<Rightarrow> (\<lambda>S F. F(p := Some (f d))) | None \<Rightarrow> (\<lambda>S. if n \<in> set written then (\<lambda>F. F(p := None)) else (\<lambda>F. F)))
      (case v of Some d \<Rightarrow> put h p d | None \<Rightarrow> mwhen (n \<in> set written) (remove_if_there h p))" for v
    using assms rolls_when_remove [of h "n \<in> set written" p] by (cases v) (auto split: if_splits)
  from rolls_look [OF this] show ?thesis
    unfolding roll_file_def put_back_def [abs_def] by (rule back_subst [where P = "\<lambda>g. rolls h g a" for a]) (auto simp: fun_eq_iff split: option.split)
qed

lemma rolls_roll_marker: "rolls h (back_marker j p) (roll_marker h p j)"
proof -
  have "rolls h (case v of Some d \<Rightarrow> (\<lambda>S F. F(p := Some d))
        | None \<Rightarrow> (\<lambda>S. if jn_had_marker j then (\<lambda>F. F(p := Some (''runtime-only'' @ NEWLINE))) else (\<lambda>F. F)))
      (case v of Some d \<Rightarrow> write_over h p d | None \<Rightarrow> mwhen (jn_had_marker j) (write_over h p (''runtime-only'' @ NEWLINE)))" for v
    using rolls_put rolls_ret by (cases v) (auto simp: mwhen_def)
  from rolls_look [OF this] show ?thesis
    unfolding roll_marker_def back_marker_def [abs_def]
    by (rule back_subst [where P = "\<lambda>g. rolls h g a" for a]) (auto simp: fun_eq_iff split: option.split)
qed

lemma rolls_opt: "(\<And>x. rolls h (g x) (f x)) \<Longrightarrow> rolls h (back_opt v g) (mopt v f)"
  using rolls_ret by (auto simp: back_opt_def [abs_def] mopt_def split: option.split)

lemma rolls_files: "rolls h (back_files snap r j) (roll_files h snap r j)"
proof -
  let ?w = "if rb_written r = [] then jn_written j else rb_written r"
  have v: "rolls h (\<lambda>S. if S ''VERSION'' = None then (\<lambda>F. F(in_dir (rb_dir r) ''VERSION'' := None)) else (\<lambda>F. F))
      (mlook (\<lambda>m. mc_safety m ''VERSION'') (\<lambda>saved. mwhen (saved = None) (remove_if_there h (in_dir (rb_dir r) ''VERSION''))))"
    by (rule rolls_look [where g = "\<lambda>v S. if v = None then (\<lambda>F. F(in_dir (rb_dir r) ''VERSION'' := None)) else (\<lambda>F. F)"])
      (rule rolls_when_remove)
  have w: "rolls h (put_back id ?w n p) (roll_file write_private h ?w n p)" for n p
    by (rule rolls_roll_file) (simp add: rolls_put)
  have d: "rolls h (put_back snap ?w n p) (roll_file (\<lambda>h p d. snapshot_over h p (snap d)) h ?w n p)" for n p
    by (rule rolls_roll_file) (simp add: rolls_put)
  note all = rolls_bind [OF rolls_each [of h "\<lambda>n. put_back id ?w n (in_dir (rb_dir r) n)", OF w]
    rolls_bind [OF v rolls_bind [OF rolls_roll_marker rolls_bind [OF rolls_opt [of h "put_back snap ?w ''accounting.db''", OF d]
    rolls_bind [OF rolls_opt [of h "put_back id ?w ''config.json''", OF w] rolls_opt [of h "\<lambda>p S F. F(p := None)", OF rolls_remove]]]]]]
  show ?thesis
    unfolding roll_files_def back_files_def [abs_def] Let_def by (rule all)
qed

text \<open>The managed files: a name in the safety tree and the path it is the copy of.\<close>

definition keyed :: "restore_args \<Rightarrow> (string \<times> string) list" where
  "keyed a = map (\<lambda>n. (n, in_dir (rs_dir a) n)) (STATE_FILES @ [RUNTIME_ONLY])
     @ (case rs_db a of None \<Rightarrow> [] | Some p \<Rightarrow> [(''accounting.db'', p)])
     @ (case rs_config a of None \<Rightarrow> [] | Some p \<Rightarrow> [(''config.json'', p)])"

lemma in_dir_inj [simp]: "in_dir d n = in_dir d n' \<longleftrightarrow> n = n'"
  by (simp add: in_dir_def)

lemma keyed_cases:
  assumes "(n, p) \<in> set (keyed a)"
  obtains (state) "n \<in> set STATE_FILES" "p = in_dir (rs_dir a) n" | (mark) "n = RUNTIME_ONLY" "p = in_dir (rs_dir a) n"
    | (db) "n = ''accounting.db''" "rs_db a = Some p" | (config) "n = ''config.json''" "rs_config a = Some p"
  using assms unfolding keyed_def by (auto split: option.splits)

lemma put_back_at: "put_back f w n p S F q = (if q = p then (case S n of Some d \<Rightarrow> Some (f d) | None \<Rightarrow> if n \<in> set w then None else F q) else F q)"
  by (simp add: put_back_def split: option.split)

lemma back_marker_at: "back_marker j p S F q = (if q = p then (case S RUNTIME_ONLY of Some d \<Rightarrow> Some d
    | None \<Rightarrow> if jn_had_marker j then Some (''runtime-only'' @ NEWLINE) else F q) else F q)"
  by (simp add: back_marker_def split: option.split)

definition restored_as :: "(string \<Rightarrow> string) \<Rightarrow> string \<Rightarrow> string \<Rightarrow> string" where
  "restored_as snap n d = (if n = ''accounting.db'' then snap d else d)"

text \<open>What a path gets back: the saved content, or nothing if the restore wrote the file.\<close>

definition back_value :: "string \<Rightarrow> bool \<Rightarrow> (string \<Rightarrow> string option) \<Rightarrow> string option \<Rightarrow> string option" where
  "back_value n remove S old = (case S n of Some d \<Rightarrow> Some d | None \<Rightarrow> if remove then None else old)"

lemma put_back_id_at: "put_back id w n p S F q = (if q = p then back_value n (n \<in> set w) S (F q) else F q)"
  by (simp add: put_back_at back_value_def split: option.split)

lemma back_state_files:
  assumes "distinct ns"
  shows "fold (\<lambda>n. put_back id w n (in_dir d n) S) ns F q
    = (case find (\<lambda>n. q = in_dir d n) ns of Some n \<Rightarrow> back_value n (n \<in> set w) S (F q) | None \<Rightarrow> F q)"
  using assms
proof (induction ns arbitrary: F)
  case (Cons n ns)
  show ?case
  proof (cases "q = in_dir d n")
    case True
    with Cons.prems have "find (\<lambda>n. q = in_dir d n) ns = None" by (auto simp: find_None_iff)
    with True Cons show ?thesis by (simp add: put_back_at back_value_def split: option.split)
  next
    case False
    with Cons show ?thesis by (simp add: put_back_at)
  qed
qed simp

lemma state_files_distinct: "distinct STATE_FILES"
  by (simp add: STATE_FILES_def)

lemma find_state_file: "n \<in> set STATE_FILES \<Longrightarrow> find (\<lambda>k. in_dir d n = in_dir d k) STATE_FILES = Some n"
  by (auto simp: STATE_FILES_def)

lemma find_no_state_file: "(\<And>n. n \<in> set STATE_FILES \<Longrightarrow> q \<noteq> in_dir d n) \<Longrightarrow> find (\<lambda>k. q = in_dir d k) STATE_FILES = None"
  by (auto simp: find_None_iff)

text \<open>The value of a roll back at a path, one stage after the other.\<close>

lemma back_files_at:
  assumes "rb_dir r = rs_dir a" "or_else (rb_db r) (jn_db j) = rs_db a" "or_else (rb_config r) (jn_config j) = rs_config a"
    "or_else (rb_csv r) (jn_csv j) \<noteq> Some p"
  defines "w \<equiv> if rb_written r = [] then jn_written j else rb_written r"
  shows "back_files snap r j S F p =
   (let v1 = (case find (\<lambda>k. p = in_dir (rs_dir a) k) STATE_FILES of
               Some n \<Rightarrow> back_value n (n \<in> set w) S (F p) | None \<Rightarrow> F p);
        v2 = (if S ''VERSION'' = None \<and> p = in_dir (rs_dir a) ''VERSION'' then None else v1);
        v3 = (if p = in_dir (rs_dir a) RUNTIME_ONLY then (case S RUNTIME_ONLY of Some d \<Rightarrow> Some d
               | None \<Rightarrow> if jn_had_marker j then Some (''runtime-only'' @ NEWLINE) else v2) else v2);
        v4 = (if rs_db a = Some p then (case S ''accounting.db'' of Some d \<Rightarrow> Some (snap d)
               | None \<Rightarrow> if ''accounting.db'' \<in> set w then None else v3) else v3)
    in if rs_config a = Some p then back_value ''config.json'' (''config.json'' \<in> set w) S v4 else v4)"
proof -
  have o: "back_opt v (put_back f w' n) S G p = (if v = Some p then (case S n of Some d \<Rightarrow> Some (f d) | None \<Rightarrow> if n \<in> set w' then None else G p) else G p)"
    for v f w' n G by (cases v) (auto simp: back_opt_def put_back_at)
  have o': "back_opt v (\<lambda>p S F. F(p := None)) S G p = G p" if "v \<noteq> Some p" for v G
    using that by (cases v) (simp_all add: back_opt_def)
  have u: "(if b then (\<lambda>F. F(x := None)) else (\<lambda>F. F)) G p = (if b \<and> p = x then None else G p)" for b x G by simp
  show ?thesis
    unfolding back_files_def Let_def assms(1,2,3) o'[OF assms(4)] o u back_marker_at back_state_files [OF state_files_distinct] back_value_def w_def
    by (simp only: id_apply)
qed

lemma marker_no_state_file: "n \<in> set STATE_FILES \<Longrightarrow> n \<noteq> RUNTIME_ONLY"
  by (auto simp: STATE_FILES_def RUNTIME_ONLY_def)

lemma state_file_names: "n \<in> set STATE_FILES \<Longrightarrow> n \<noteq> ''accounting.db'' \<and> n \<noteq> ''config.json''"
  by (auto simp: STATE_FILES_def)

lemma back_files_keyed:
  assumes "distinct (map snd (keyed a))" "(n, p) \<in> set (keyed a)"
    and r: "rb_dir r = rs_dir a" "or_else (rb_db r) (jn_db j) = rs_db a" "or_else (rb_config r) (jn_config j) = rs_config a"
      "or_else (rb_csv r) (jn_csv j) \<noteq> Some p"
    and had: "jn_had_marker j \<longrightarrow> S RUNTIME_ONLY \<noteq> None"
  shows "back_files snap r j S F p = (case S n of Some d \<Rightarrow> Some (restored_as snap n d)
     | None \<Rightarrow> if n \<noteq> RUNTIME_ONLY \<and> (n \<in> set (if rb_written r = [] then jn_written j else rb_written r) \<or> n = ''VERSION'')
         then None else F p)"
proof -
  have st: "rs_db a \<noteq> Some (in_dir (rs_dir a) k) \<and> rs_config a \<noteq> Some (in_dir (rs_dir a) k)" if "k \<in> set (STATE_FILES @ [RUNTIME_ONLY])" for k
    using assms(1) that unfolding keyed_def by (auto split: option.splits)
  have dc: "rs_db a = Some q \<Longrightarrow> rs_config a \<noteq> Some q" for q
    using assms(1) unfolding keyed_def by (auto split: option.splits)
  from assms(2) show ?thesis
  proof (cases rule: keyed_cases)
    case state
    with st [of n] state_file_names [OF state(1)] marker_no_state_file [OF state(1)] find_state_file [OF state(1)] show ?thesis
      unfolding back_files_at [OF r] Let_def by (auto simp: back_value_def restored_as_def split: option.split)
  next
    case mark
    have "find (\<lambda>k. p = in_dir (rs_dir a) k) STATE_FILES = None"
      using mark marker_no_state_file by (intro find_no_state_file) auto
    moreover have "RUNTIME_ONLY \<noteq> ''VERSION''" "RUNTIME_ONLY \<noteq> ''accounting.db''" by (simp_all add: RUNTIME_ONLY_def)
    ultimately show ?thesis
      using mark st [of RUNTIME_ONLY] had
      unfolding back_files_at [OF r] Let_def by (auto simp: restored_as_def split: option.split)
  next
    case db
    with st have "find (\<lambda>k. p = in_dir (rs_dir a) k) STATE_FILES = None" by (intro find_no_state_file) auto
    moreover from db st have "p \<noteq> in_dir (rs_dir a) RUNTIME_ONLY" "p \<noteq> in_dir (rs_dir a) ''VERSION''"
      by (auto simp: STATE_FILES_def)
    ultimately show ?thesis using db dc
      unfolding back_files_at [OF r] Let_def by (auto simp: restored_as_def RUNTIME_ONLY_def split: option.split)
  next
    case config
    with st have "find (\<lambda>k. p = in_dir (rs_dir a) k) STATE_FILES = None" by (intro find_no_state_file) auto
    moreover from config st have "p \<noteq> in_dir (rs_dir a) RUNTIME_ONLY" "p \<noteq> in_dir (rs_dir a) ''VERSION''"
      by (auto simp: STATE_FILES_def)
    moreover from config dc have "rs_db a \<noteq> Some p" by auto
    ultimately show ?thesis using config
      unfolding back_files_at [OF r] Let_def by (auto simp: back_value_def restored_as_def RUNTIME_ONLY_def split: option.split)
  qed
qed

lemma back_files_other:
  assumes "p \<notin> snd ` set (keyed a)"
    and r: "rb_dir r = rs_dir a" "or_else (rb_db r) (jn_db j) = rs_db a" "or_else (rb_config r) (jn_config j) = rs_config a"
      "or_else (rb_csv r) (jn_csv j) \<noteq> Some p"
  shows "back_files snap r j S F p = F p"
proof -
  from assms(1) have p: "p \<noteq> in_dir (rs_dir a) k" if "k \<in> set (STATE_FILES @ [RUNTIME_ONLY])" for k
    using that unfolding keyed_def by force
  then have "find (\<lambda>k. p = in_dir (rs_dir a) k) STATE_FILES = None" by (intro find_no_state_file) auto
  moreover from p have "p \<noteq> in_dir (rs_dir a) RUNTIME_ONLY" "p \<noteq> in_dir (rs_dir a) ''VERSION''" by (auto simp: STATE_FILES_def)
  moreover from assms(1) have "rs_db a \<noteq> Some p" "rs_config a \<noteq> Some p" unfolding keyed_def by force+
  ultimately show ?thesis unfolding back_files_at [OF r] Let_def by auto
qed

section \<open>The safety copy\<close>

definition saved_before :: "(string \<Rightarrow> string) \<Rightarrow> restore_args \<Rightarrow> (string \<Rightarrow> string option) \<Rightarrow> (string \<Rightarrow> string option) \<Rightarrow> bool" where
  "saved_before snap a F S \<longleftrightarrow> (\<forall>(n, p) \<in> set (keyed a). S n = map_option (restored_as snap n) (F p))"

definition no_files_change :: "('s, 'a) mact \<Rightarrow> bool" where
  "no_files_change x \<longleftrightarrow> (\<forall>F c. keeps (\<lambda>m. mc_files m = F \<and> mc_csv m = c) x)"

lemma no_files_changeD: "no_files_change x \<Longrightarrow> x m = (r, m') \<Longrightarrow> mc_files m' = mc_files m \<and> mc_csv m' = mc_csv m"
  using keepsD [of "\<lambda>k. mc_files k = mc_files m \<and> mc_csv k = mc_csv m" x m r m'] by (simp add: no_files_change_def)

lemma no_change_op: "(\<And>f m. mc_files (eff f m) = mc_files m) \<Longrightarrow> (\<And>f m. mc_csv (eff f m) = mc_csv m) \<Longrightarrow> no_files_change (disk_op h eff)"
  by (simp add: no_files_change_def keeps_disk_op)

named_theorems no_change

lemma no_change_ret [no_change]: "no_files_change (mret x)" "no_files_change (mraise e)"
  by (simp_all add: no_files_change_def keeps_ret keeps_raise)

lemma no_change_systemctl [no_change]: "no_files_change (systemctl_run h argv)"
  by (auto simp: systemctl_run_def keeps_def no_files_change_def split: prod.splits)

lemma no_change_disk [no_change]: "no_files_change (make_dir h)"
  "no_files_change (copy_to_safety h n d)" "no_files_change (write_restore_journal h j)" "no_files_change (write_service_file h sv)"
  "no_files_change (write_restore_marker h k st)"
  "no_files_change (disk_op h (\<lambda>f m. if f = Early then m else m\<lparr>mc_has_safety := b\<rparr>))"
  unfolding disk_defs by (rule no_change_op, simp, simp)+

lemma no_change_bind [no_change]: "no_files_change x \<Longrightarrow> (\<And>v. no_files_change (f v)) \<Longrightarrow> no_files_change (mbind x f)"
  unfolding no_files_change_def by (intro allI keeps_bind) auto

lemma no_change_look [no_change]: "(\<And>v. no_files_change (f v)) \<Longrightarrow> no_files_change (mlook g f)"
  unfolding no_files_change_def by (intro allI keeps_look) auto

lemma no_change_each [no_change]: "(\<And>v. no_files_change (f v)) \<Longrightarrow> no_files_change (meach f xs)"
  unfolding no_files_change_def by (intro allI keeps_each) auto

lemma no_change_opt [no_change]: "(\<And>v. no_files_change (f v)) \<Longrightarrow> no_files_change (mopt u f)"
  unfolding no_files_change_def by (intro allI keeps_opt) auto

lemma no_change_when [no_change]: "no_files_change y \<Longrightarrow> no_files_change (mwhen b y)"
  unfolding no_files_change_def by (intro allI keeps_when) auto

lemma no_change_safety_copy [no_change]: "no_files_change (safety_copy_existing h snap a sv)"
  unfolding safety_copy_existing_def Let_def by (intro no_change)

lemma no_change_capture [no_change]: "no_files_change (capture_service_state h)"
  unfolding capture_service_state_def by (intro no_change)

lemma no_change_services [no_change]: "no_files_change (run_services h steps)"
  by (induction h steps rule: run_services.induct) (simp_all only: run_services.simps, (intro no_change; assumption)+)

lemma no_change_journal [no_change]: "no_files_change (save_journal h a sv had)"
  unfolding save_journal_def by (intro no_change) (simp add: no_change split: prod.split)

lemma no_change_stage [no_change]: "no_files_change (stage_hook h a)"
  unfolding stage_hook_def by (intro no_change)

definition scopy :: "(string \<Rightarrow> string) \<Rightarrow> string \<Rightarrow> string \<Rightarrow> (string \<Rightarrow> string option) \<Rightarrow> (string \<Rightarrow> string option) \<Rightarrow> (string \<Rightarrow> string option)" where
  "scopy f n p F S = (case F p of None \<Rightarrow> S | Some d \<Rightarrow> S(n := Some (f d)))"

lemma scopy_at: "scopy f n p F S x = (if x = n \<and> F p \<noteq> None then map_option f (F p) else S x)"
  by (auto simp: scopy_def split: option.split)

text \<open>A successful step that computes the function \<open>g\<close> of the safety tree.\<close>

definition saves :: "((string \<Rightarrow> string option) \<Rightarrow> (string \<Rightarrow> string option) \<Rightarrow> (string \<Rightarrow> string option)) \<Rightarrow> ('s, 'a) mact \<Rightarrow> bool" where
  "saves g x \<longleftrightarrow> (\<forall>m v m'. x m = (Inr v, m') \<longrightarrow> mc_files m' = mc_files m \<and> (mc_has_safety m \<longrightarrow> mc_has_safety m')
     \<and> mc_safety m' = g (mc_files m) (mc_safety m))"

lemma saves_bind: "saves g x \<Longrightarrow> saves k y \<Longrightarrow> saves (\<lambda>F S. k F (g F S)) (mbind x (\<lambda>_. y))"
  unfolding saves_def mbind_Inr by (metis (no_types, lifting))

lemma saves_copy: "saves (scopy f n p) (mlook (\<lambda>m. mc_files m p) (\<lambda>v. mopt v (\<lambda>d. copy_to_safety h n (f d))))"
  by (auto simp: saves_def mlook_def mopt_def copy_to_safety_def disk_op_Inr mret_def scopy_def done_by_def split: option.splits)

lemma saves_each: "(\<And>x. saves (g x) (f x)) \<Longrightarrow> saves (\<lambda>F. fold (\<lambda>x. g x F) xs) (meach f xs)"
proof (induction xs)
  case Nil
  then show ?case by (simp add: saves_def mret_def)
next
  case (Cons x xs)
  from saves_bind [OF Cons.prems Cons.IH [OF Cons.prems]] show ?case by (simp add: comp_def)
qed

lemma saves_opt: "(\<And>x. saves (g x) (f x)) \<Longrightarrow> saves (\<lambda>F S. case v of None \<Rightarrow> S | Some x \<Rightarrow> g x F S) (mopt v f)"
  by (cases v) (simp_all add: mopt_def saves_def mret_def)

lemma saves_none: "saves (\<lambda>F S. S) (write_service_file h sv)" "saves (\<lambda>F S. S) (write_restore_marker h k st)"
  by (auto simp: saves_def disk_defs disk_op_Inr)

lemma fold_scopy: "distinct ns \<Longrightarrow> fold (\<lambda>n. scopy id n (in_dir d n) F) ns S x
    = (if x \<in> set ns \<and> F (in_dir d x) \<noteq> None then F (in_dir d x) else S x)"
  by (induction ns arbitrary: S) (auto simp: scopy_at map_option.id)

lemma opt_scopy: "(case v of None \<Rightarrow> (\<lambda>S. S) | Some p \<Rightarrow> scopy k n p F) S x
    = (if x = n \<and> v \<noteq> None \<and> F (the v) \<noteq> None then map_option k (F (the v)) else S x)"
  by (cases v) (auto simp: scopy_at)

lemma marker_names: "RUNTIME_ONLY \<noteq> ''accounting.db''" "RUNTIME_ONLY \<noteq> ''config.json''" "RUNTIME_ONLY \<notin> set STATE_FILES"
  "RUNTIME_ONLY \<noteq> ''VERSION''"
  by (simp_all add: RUNTIME_ONLY_def STATE_FILES_def)

lemma saved_keyed:
  assumes "(n, p) \<in> set (keyed a)"
  shows "(case rs_config a of None \<Rightarrow> (\<lambda>S. S) | Some p \<Rightarrow> scopy id ''config.json'' p F)
      ((case rs_db a of None \<Rightarrow> (\<lambda>S. S) | Some p \<Rightarrow> scopy snap ''accounting.db'' p F)
      (scopy id RUNTIME_ONLY (in_dir (rs_dir a) RUNTIME_ONLY) F
      (fold (\<lambda>n. scopy id n (in_dir (rs_dir a) n) F) STATE_FILES (\<lambda>n. None)))) n = map_option (restored_as snap n) (F p)"
  using assms
proof (cases rule: keyed_cases)
  case state
  from state_file_names [OF state(1)] marker_no_state_file [OF state(1)] state show ?thesis
    unfolding opt_scopy scopy_at fold_scopy [OF state_files_distinct] by (cases "F p") (simp_all add: restored_as_def)
next
  case mark
  with marker_names show ?thesis
    unfolding opt_scopy scopy_at fold_scopy [OF state_files_distinct] by (cases "F p") (simp_all add: restored_as_def)
next
  case db
  with marker_names state_file_names [of n] show ?thesis
    unfolding opt_scopy scopy_at fold_scopy [OF state_files_distinct] by (cases "F p") (auto simp: restored_as_def)
next
  case config
  with marker_names state_file_names [of n] show ?thesis
    unfolding opt_scopy scopy_at fold_scopy [OF state_files_distinct] by (cases "F p") (auto simp: restored_as_def)
qed

lemma safety_copy_saves:
  assumes "safety_copy_existing h snap a sv m = (Inr x, m')" "mc_safety m = (\<lambda>n. None)"
  shows "mc_has_safety m' \<and> saved_before snap a (mc_files m) (mc_safety m')"
proof -
  let ?d = "rs_dir a"
  note all = saves_bind [OF saves_each [of "\<lambda>n. scopy id n (in_dir ?d n)", OF saves_copy]
    saves_bind [OF saves_copy [of id RUNTIME_ONLY "in_dir ?d RUNTIME_ONLY"] saves_bind [OF saves_opt [of "scopy snap ''accounting.db''", OF saves_copy]
    saves_bind [OF saves_opt [of "scopy id ''config.json''", OF saves_copy] saves_bind [OF saves_none(1) saves_none(2)]]]]]
  from assms(1) [unfolded safety_copy_existing_def Let_def] obtain x1 m1 where
    m1: "disk_op h (\<lambda>f m. if f = Early then m else m\<lparr>mc_has_safety := True\<rparr>) m = (Inr x1, m1)"
    and rest: "mbind (meach (\<lambda>n. mlook (\<lambda>m. mc_files m (in_dir ?d n)) (\<lambda>v. mopt v (\<lambda>d. copy_to_safety h n (id d)))) STATE_FILES) (\<lambda>_.
      mbind (mlook (\<lambda>m. mc_files m (in_dir ?d RUNTIME_ONLY)) (\<lambda>v. mopt v (\<lambda>d. copy_to_safety h RUNTIME_ONLY (id d)))) (\<lambda>_.
      mbind (mopt (rs_db a) (\<lambda>p. mlook (\<lambda>m. mc_files m p) (\<lambda>v. mopt v (\<lambda>d. copy_to_safety h ''accounting.db'' (snap d))))) (\<lambda>_.
      mbind (mopt (rs_config a) (\<lambda>p. mlook (\<lambda>m. mc_files m p) (\<lambda>v. mopt v (\<lambda>d. copy_to_safety h ''config.json'' (id d))))) (\<lambda>_.
      mbind (write_service_file h sv) (\<lambda>_. write_restore_marker h ''restore-safety'' []))))) m1 = (Inr x, m')"
    by (rule mbind_InrE)
  from m1 have s: "mc_has_safety m1" "mc_files m1 = mc_files m" "mc_safety m1 = mc_safety m" by (auto simp: disk_op_Inr)
  from all [unfolded saves_def, rule_format, OF rest] s have h: "mc_has_safety m'" and
    g: "mc_safety m' = (case rs_config a of None \<Rightarrow> (\<lambda>S. S) | Some p \<Rightarrow> scopy id ''config.json'' p (mc_files m))
      ((case rs_db a of None \<Rightarrow> (\<lambda>S. S) | Some p \<Rightarrow> scopy snap ''accounting.db'' p (mc_files m))
      (scopy id RUNTIME_ONLY (in_dir ?d RUNTIME_ONLY) (mc_files m)
      (fold (\<lambda>n. scopy id n (in_dir ?d n) (mc_files m)) STATE_FILES (\<lambda>n. None))))"
    using assms(2) by (auto split: option.splits)
  have "mc_safety m' n = map_option (restored_as snap n) (mc_files m p)" if "(n, p) \<in> set (keyed a)" for n p
    unfolding g using saved_keyed [OF that] .
  with h show ?thesis by (auto simp: saved_before_def)
qed

section \<open>The installation\<close>

definition late :: "'s host \<Rightarrow> nat \<Rightarrow> bool" where
  "late h k \<longleftrightarrow> (\<exists>i < k. he_fault h i = Late)"

lemma late_mono: "late h k \<Longrightarrow> late h (Suc k)" "he_fault h k = Late \<Longrightarrow> late h (Suc k)"
  by (auto simp: late_def less_Suc_eq)

text \<open>Every file that differs from before is the reissue list, or can be rolled back, or was new and its
  write reported a failure after it was done.\<close>

definition accounted_for :: "'s host \<Rightarrow> restore_args \<Rightarrow> (string \<Rightarrow> string option) \<Rightarrow> 's machine \<Rightarrow> string \<Rightarrow> bool" where
  "accounted_for h a S m p \<longleftrightarrow> mc_csv m = Some p \<or> (\<exists>n. (n, p) \<in> set (keyed a)
     \<and> (S n \<noteq> None \<or> n \<in> set (mc_written m) \<and> n \<noteq> RUNTIME_ONLY \<or> n = ''VERSION'' \<or> late h (mc_ops m)))"

definition run_inv :: "'s host \<Rightarrow> restore_args \<Rightarrow> (string \<Rightarrow> string option) \<Rightarrow> (string \<Rightarrow> string option) \<Rightarrow> bool \<Rightarrow> string option \<Rightarrow> 's machine \<Rightarrow> bool" where
  "run_inv h a F S had c m \<longleftrightarrow> mc_safety m = S \<and> mc_has_safety m \<and> mc_csv m = c
     \<and> (\<forall>j. mc_journal m = Some j \<longrightarrow> jn_had_marker j = had \<and> jn_db j = rs_db a \<and> jn_config j = rs_config a \<and> jn_csv j \<in> {None, c})
     \<and> (\<forall>p. mc_files m p = F p \<or> accounted_for h a S m p)"

lemma accounted_mono: "accounted_for h a S m p \<Longrightarrow> mc_csv m' = mc_csv m \<Longrightarrow> set (mc_written m) \<subseteq> set (mc_written m')
    \<Longrightarrow> (late h (mc_ops m) \<Longrightarrow> late h (mc_ops m')) \<Longrightarrow> accounted_for h a S m' p"
  by (auto simp: accounted_for_def)

lemma run_inv_tick: "run_inv h a F S had c m \<Longrightarrow> run_inv h a F S had c (m\<lparr>mc_ops := Suc (mc_ops m)\<rparr>)"
  by (auto simp: run_inv_def late_mono intro: accounted_mono)

lemma inv_make_dir: "keeps (run_inv h a F S had c) (make_dir h)"
  by (simp add: make_dir_def keeps_disk_op run_inv_tick)

lemma inv_marker: "keeps (run_inv h a F S had c) (write_restore_marker h k st)"
  unfolding write_restore_marker_def
  by (rule keeps_disk_op) (auto simp: run_inv_def late_mono intro: accounted_mono)

lemma inv_journal: "keeps (run_inv h a F S had c) (save_journal h a sv had)"
  unfolding keeps_def save_journal_def mlook_def write_restore_journal_def disk_op_def Let_def
  by (auto simp: run_inv_def late_mono intro: accounted_mono)

lemma run_inv_write:
  assumes "run_inv h a F S had c m" "mc_safety m' = mc_safety m" "mc_has_safety m' = mc_has_safety m" "mc_csv m' = mc_csv m"
    "mc_journal m' = mc_journal m" "set (mc_written m) \<subseteq> set (mc_written m')" "late h (mc_ops m) \<Longrightarrow> late h (mc_ops m')"
    "\<And>q. mc_files m' q = mc_files m q \<or> accounted_for h a S m' q"
  shows "run_inv h a F S had c m'"
proof -
  have "mc_files m' q = F q \<or> accounted_for h a S m' q" for q
  proof -
    from assms(1) have "mc_files m q = F q \<or> accounted_for h a S m q" by (simp add: run_inv_def)
    with assms(8) [of q] accounted_mono [of h a S m q m'] assms(4,6,7) show ?thesis by auto
  qed
  with assms(1-5) show ?thesis by (simp add: run_inv_def)
qed

lemma inv_install:
  assumes "(n, p) \<in> set (keyed a)" "n \<noteq> RUNTIME_ONLY"
  shows "keeps (run_inv h a F S had c) (install h p n d)"
  unfolding keeps_def
proof (intro allI impI)
  fix m :: "'a machine"
  assume i: "run_inv h a F S had c m"
  show "run_inv h a F S had c (snd (install h p n d m))"
    by (rule run_inv_write [OF i])
      (use assms in \<open>auto simp: install_def write_private_def disk_op_def Let_def mbind_def note_written_def mset_def put_at_def
          done_by_def accounted_for_def late_mono os_error_def\<close>)
qed

lemma inv_version: "keeps (run_inv h a F S had c) (write_private h (in_dir (rs_dir a) ''VERSION'') d)"
  unfolding write_private_def
proof (rule keeps_disk_op)
  fix m :: "'a machine"
  let ?m = "((\<lambda>f m. if done_by f then put_at (in_dir (rs_dir a) ''VERSION'') (Some d) m else m) (he_fault h (mc_ops m)) m)\<lparr>mc_ops := Suc (mc_ops m)\<rparr>"
  assume i: "run_inv h a F S had c m"
  show "run_inv h a F S had c ?m"
    by (rule run_inv_write [OF i]) (auto simp: put_at_def accounted_for_def late_mono keyed_def STATE_FILES_def)
qed

lemma inv_remove_marker:
  assumes "S RUNTIME_ONLY = F (in_dir (rs_dir a) RUNTIME_ONLY)"
  shows "keeps (run_inv h a F S had c) (remove_if_there h (in_dir (rs_dir a) RUNTIME_ONLY))"
  unfolding keeps_def
proof (intro allI impI)
  fix m :: "'a machine"
  let ?p = "in_dir (rs_dir a) RUNTIME_ONLY"
  assume i: "run_inv h a F S had c m"
  have k: "(RUNTIME_ONLY, ?p) \<in> set (keyed a)" by (simp add: keyed_def)
  show "run_inv h a F S had c (snd (remove_if_there h ?p m))"
  proof (cases "mc_files m ?p")
    case None
    with i show ?thesis by (simp add: remove_if_there_def mlook_def mwhen_def mret_def)
  next
    case (Some d)
    from i have "mc_files m ?p = F ?p \<or> accounted_for h a S m ?p" unfolding run_inv_def by blast
    with Some assms have "S RUNTIME_ONLY \<noteq> None \<or> accounted_for h a S m ?p" by (metis option.distinct(1))
    then show ?thesis
    proof
      assume "S RUNTIME_ONLY \<noteq> None"
      then show ?thesis
        by (intro run_inv_write [OF i]) (use k in \<open>auto simp: remove_if_there_def mlook_def mwhen_def mret_def remove_file_def disk_op_def
            Let_def put_at_def accounted_for_def late_mono\<close>)
    next
      assume "accounted_for h a S m ?p"
      then have "accounted_for h a S (snd (remove_if_there h ?p m)) ?p"
        by (rule accounted_mono) (auto simp: remove_if_there_def mlook_def mwhen_def mret_def remove_file_def disk_op_def
            Let_def put_at_def late_mono)
      then show ?thesis
        by (intro run_inv_write [OF i]) (auto simp: remove_if_there_def mlook_def mwhen_def mret_def remove_file_def disk_op_def
            Let_def put_at_def late_mono)
    qed
  qed
qed

lemma inv_note: "keeps (run_inv h a F S had c) (note_written n)"
  unfolding note_written_def
proof (rule keeps_set)
  fix m :: "'a machine"
  assume i: "run_inv h a F S had c m"
  show "run_inv h a F S had c (m\<lparr>mc_written := mc_written m @ [n]\<rparr>)" by (rule run_inv_write [OF i]) auto
qed

lemma inv_csv: "c = Some p \<Longrightarrow> keeps (run_inv h a F S had c) (write_private h p d)"
  unfolding write_private_def
proof (rule keeps_disk_op)
  fix m :: "'a machine"
  let ?m = "((\<lambda>f m. if done_by f then put_at p (Some d) m else m) (he_fault h (mc_ops m)) m)\<lparr>mc_ops := Suc (mc_ops m)\<rparr>"
  assume c: "c = Some p" and i: "run_inv h a F S had c m"
  show "run_inv h a F S had c ?m"
    by (rule run_inv_write [OF i]) (use c i in \<open>auto simp: put_at_def accounted_for_def late_mono run_inv_def\<close>)
qed

lemma inv_inject: "keeps P (inject_restore_failure a b)"
  by (auto simp: inject_restore_failure_def Let_def intro: keeps_rules)

lemma inv_canonical: "keeps (run_inv h a F S had c) (install_canonical h cd a pl)"
  unfolding install_canonical_def Let_def
  by (intro keeps_rules inv_make_dir inv_install) (auto simp: keyed_def STATE_FILES_def RUNTIME_ONLY_def)

lemma inv_commit:
  assumes "S RUNTIME_ONLY = F (in_dir (rs_dir a) RUNTIME_ONLY)"
  shows "keeps (run_inv h a F S had c) (commit_step h a sv had pl)"
  unfolding commit_step_def commit_restore_version_def
  by (auto intro!: keeps_rules inv_marker inv_inject inv_make_dir inv_version inv_remove_marker [where F = F and S = S, OF assms] inv_note inv_journal)

text \<open>The invariant with either value of \<open>csv_path\<close>.\<close>

definition run_inv' :: "'s host \<Rightarrow> restore_args \<Rightarrow> (string \<Rightarrow> string option) \<Rightarrow> (string \<Rightarrow> string option) \<Rightarrow> bool \<Rightarrow> string \<Rightarrow> 's machine \<Rightarrow> bool" where
  "run_inv' h a F S had p m \<longleftrightarrow> run_inv h a F S had None m \<or> run_inv h a F S had (Some p) m"

lemma either_csv: "(\<And>c. keeps (run_inv h a F S had c) x) \<Longrightarrow> keeps (run_inv' h a F S had p) x"
  by (auto simp: keeps_def run_inv'_def)

lemma inv_reissue: "keeps (run_inv' h a F S had (csv_place a pl)) (install_reissue h csv a sv had pl)"
proof -
  let ?p = "csv_place a pl"
  let ?rest = "mbind (write_reissue_csv h csv ?p (pl_rows pl)) (\<lambda>_. mbind (note_written ''reissue.csv'') (\<lambda>_. save_journal h a sv had))"
  have "keeps (run_inv h a F S had (Some ?p)) ?rest"
    unfolding write_reissue_csv_def by (intro keeps_rules inv_make_dir inv_csv inv_note inv_journal refl)
  moreover have "run_inv h a F S had (Some ?p) (m\<lparr>mc_csv := Some ?p\<rparr>)" if "run_inv' h a F S had ?p m" for m
    using that by (auto simp: run_inv'_def run_inv_def accounted_for_def)
  ultimately have "keeps (run_inv' h a F S had ?p) (mbind (mset (\<lambda>m. m\<lparr>mc_csv := Some ?p\<rparr>)) (\<lambda>_. ?rest))"
    by (fastforce simp: keeps_def mbind_def mset_def run_inv'_def)
  then show ?thesis unfolding install_reissue_def by (intro keeps_when)
qed

lemma inv_install_all:
  assumes "S RUNTIME_ONLY = F (in_dir (rs_dir a) RUNTIME_ONLY)"
  shows "keeps (run_inv' h a F S had (csv_place a pl)) (install_all h cd csv a sv had pl)"
proof -
  have "keeps (run_inv h a F S had c) (mopt (rs_config a) (\<lambda>p. mopt (rs_generated a) (\<lambda>g.
      mbind (install h p ''config.json'' g) (\<lambda>_. save_journal h a sv had))))" for c
    by (intro keeps_rules inv_install inv_journal) (auto simp: keyed_def RUNTIME_ONLY_def)
  with assms show ?thesis unfolding install_all_def
    by (intro keeps_bind inv_reissue either_csv) (auto intro: inv_canonical inv_journal inv_inject inv_commit)
qed

section \<open>The transaction\<close>

lemma rollback_computes:
  assumes "rollback_restore h snap r m = (res, m')" "mc_has_safety m" "all_fine h (mc_ops m)"
  shows "mc_files m' = back_files snap r (read_restore_journal m) (mc_safety m) (mc_files m) \<and> mc_csv m' = mc_csv m"
proof -
  let ?j = "read_restore_journal m"
  let ?rest = "mlook (services_to_restore r ?j) (\<lambda>sv.
     mbind (if (case rb_manage r of Some b \<Rightarrow> b | None \<Rightarrow> jn_manage ?j) then apply_service_state h sv else mret []) (\<lambda>errs.
     mbind (mwhen (errs \<noteq> [] \<and> True) (write_restore_journal h (?j\<lparr>jn_rollback := Some (if errs = [] then ''rolled-back'' else ''rollback_partial'', errs)\<rparr>))) (\<lambda>_.
     mbind (mwhen True (write_restore_marker h ''restore-rollback'' (if errs = [] then ''rolled-back'' else ''rollback_partial''))) (\<lambda>_. mret errs))))"
  from rollsD [OF rolls_files assms(3)] obtain k where
    k: "roll_files h snap r ?j m = (Inr (), m\<lparr>mc_files := back_files snap r ?j (mc_safety m) (mc_files m), mc_ops := k\<rparr>)" by metis
  have n: "no_files_change ?rest"
    by (intro no_change) (auto simp: apply_service_state_def intro: no_change)
  from assms(1,2) have "mbind (roll_files h snap r ?j) (\<lambda>_. ?rest) m = (res, m')"
    unfolding rollback_restore_def mlook_def Let_def by simp
  with k have "?rest (m\<lparr>mc_files := back_files snap r ?j (mc_safety m) (mc_files m), mc_ops := k\<rparr>) = (res, m')"
    by (simp add: mbind_def)
  from no_files_changeD [OF n this] show ?thesis by simp
qed

lemma keyed_unique: "distinct (map snd (keyed a)) \<Longrightarrow> (n, p) \<in> set (keyed a) \<Longrightarrow> (n', p) \<in> set (keyed a) \<Longrightarrow> n = n'"
  by (metis eq_key_imp_eq_value distinct_map fst_conv inj_onD snd_conv)

lemma keyed_accounting: "(''accounting.db'', p) \<in> set (keyed a) \<Longrightarrow> rs_db a = Some p"
  by (auto simp: keyed_def STATE_FILES_def RUNTIME_ONLY_def split: option.splits)

lemma rollback_files:
  assumes inv: "run_inv h a F S had c m" and fine: "all_fine h' (mc_ops m')" and d: "distinct (map snd (keyed a))"
    and saved: "saved_before snap a F S" and had: "had \<longrightarrow> S RUNTIME_ONLY \<noteq> None"
    and same: "mc_files m' = mc_files m" "mc_safety m' = mc_safety m" "mc_has_safety m' = mc_has_safety m" "mc_journal m' = mc_journal m"
    and r: "rb_dir r = rs_dir a" "or_else (rb_db r) (jn_db (read_restore_journal m)) = rs_db a"
      "or_else (rb_config r) (jn_config (read_restore_journal m)) = rs_config a"
      "or_else (rb_csv r) (jn_csv (read_restore_journal m)) = c"
      "set (mc_written m) \<subseteq> set (if rb_written r = [] then jn_written (read_restore_journal m) else rb_written r)"
    and run: "rollback_restore h' snap r m' = (res, m'')"
  shows "\<forall>q. c \<noteq> Some q \<longrightarrow> mc_files m'' q = F q
      \<or> (rs_db a = Some q \<and> (\<exists>x. F q = Some x \<and> mc_files m'' q = Some (snap (snap x))))
      \<or> (F q = None \<and> q \<in> snd ` set (keyed a) \<and> late h (mc_ops m))"
    and "c = Some q \<Longrightarrow> mc_files m'' q = None" and "mc_csv m'' = mc_csv m'"
proof -
  let ?j = "read_restore_journal m"
  let ?w = "if rb_written r = [] then jn_written ?j else rb_written r"
  from inv have i: "mc_safety m = S" "mc_has_safety m" by (simp_all add: run_inv_def)
  have j: "read_restore_journal m' = ?j" by (simp add: read_restore_journal_def same)
  from rollback_computes [OF run] fine i same have f: "mc_files m'' = back_files snap r ?j S (mc_files m)"
    and "mc_csv m'' = mc_csv m'" by (simp_all add: j)
  then show "mc_csv m'' = mc_csv m'" by simp
  from inv have "jn_had_marker ?j \<longrightarrow> had"
    by (auto simp: read_restore_journal_def run_inv_def empty_journal_def split: option.split)
  with had have hm: "jn_had_marker ?j \<longrightarrow> S RUNTIME_ONLY \<noteq> None" by blast
  show "mc_files m'' q = None" if "c = Some q"
    unfolding f back_files_def Let_def r(4) that by (simp add: back_opt_def)
  show "\<forall>q. c \<noteq> Some q \<longrightarrow> mc_files m'' q = F q
      \<or> (rs_db a = Some q \<and> (\<exists>x. F q = Some x \<and> mc_files m'' q = Some (snap (snap x))))
      \<or> (F q = None \<and> q \<in> snd ` set (keyed a) \<and> late h (mc_ops m))"
  proof (intro allI impI)
    fix q assume c: "c \<noteq> Some q"
    with r(4) have cs: "or_else (rb_csv r) (jn_csv ?j) \<noteq> Some q" by simp
    from inv have acc: "mc_files m q = F q \<or> accounted_for h a S m q" and mc: "mc_csv m = c" by (simp_all add: run_inv_def)
    show "mc_files m'' q = F q \<or> (rs_db a = Some q \<and> (\<exists>x. F q = Some x \<and> mc_files m'' q = Some (snap (snap x))))
      \<or> (F q = None \<and> q \<in> snd ` set (keyed a) \<and> late h (mc_ops m))"
    proof (cases "q \<in> snd ` set (keyed a)")
      case False
      then have "\<not> accounted_for h a S m q" using c mc unfolding accounted_for_def by force
      with acc have "mc_files m q = F q" by simp
      with back_files_other [OF False r(1-3) cs] f show ?thesis by simp
    next
      case True
      then obtain n where n: "(n, q) \<in> set (keyed a)" by auto
      from saved n have s: "S n = map_option (restored_as snap n) (F q)" by (auto simp: saved_before_def)
      note val = back_files_keyed [where S = S and j = ?j and snap = snap and F = "mc_files m", OF d n r(1-3) cs hm]
      show ?thesis
      proof (cases "F q")
        case (Some x)
        then have "mc_files m'' q = Some (restored_as snap n (restored_as snap n x))" using s val f by simp
        with Some keyed_accounting [of q a] n show ?thesis by (auto simp: restored_as_def split: if_splits)
      next
        case None
        with s have sn: "S n = None" by simp
        consider "mc_files m q = F q" | "n \<noteq> RUNTIME_ONLY" "n \<in> set (mc_written m) \<or> n = ''VERSION''" | "late h (mc_ops m)"
        proof (cases "accounted_for h a S m q")
          case False
          with acc that(1) show thesis by simp
        next
          case acc: True
          then obtain n' where n': "(n', q) \<in> set (keyed a)" "S n' \<noteq> None \<or> n' \<in> set (mc_written m) \<and> n' \<noteq> RUNTIME_ONLY \<or> n' = ''VERSION'' \<or> late h (mc_ops m)"
            using c mc unfolding accounted_for_def by blast
          from keyed_unique [OF d n n'(1)] n'(2) sn that(2,3) marker_names(4) show thesis by metis
        qed
        moreover from val f sn have v: "mc_files m'' q = (if n \<noteq> RUNTIME_ONLY \<and> (n \<in> set ?w \<or> n = ''VERSION'') then None else mc_files m q)"
          by simp
        ultimately show ?thesis
        proof cases
          case 1
          with v None show ?thesis by simp
        next
          case 2
          with r(5) v None show ?thesis by auto
        next
          case 3
          with True None show ?thesis by blast
        qed
      qed
    qed
  qed
qed

lemma inject_off: "rs_fail_after a = [] \<Longrightarrow> b \<noteq> [] \<Longrightarrow> inject_restore_failure a b = mret ()"
  by (simp add: inject_restore_failure_def)

lemma honest_install_all:
  assumes "rs_fail_after a = []"
  shows "honest h (install_all h cd csv a sv had pl)"
proof -
  have n: "honest h (note_written k)" "honest h (mset (\<lambda>m. m\<lparr>mc_csv := v\<rparr>))" for k v
    by (simp_all add: note_written_def honest_set)
  have j: "honest h (save_journal h a sv had)"
    unfolding save_journal_def by (rule honest_look) (simp add: honest_rules split: prod.split)
  have i: "honest h (install h p k d)" for p k d
    unfolding install_def by (intro honest_rules n)
  have c: "honest h (install_canonical h cd a pl)"
    unfolding install_canonical_def Let_def by (intro honest_rules i)
  have r: "honest h (install_reissue h csv a sv had pl)"
    unfolding install_reissue_def write_reissue_csv_def by (intro honest_rules n j)
  have f: "honest h (inject_restore_failure a b)" if "b \<noteq> []" for b
    using assms that by (simp add: inject_off honest_ret)
  have s: "honest h (commit_step h a sv had pl)"
    unfolding commit_step_def commit_restore_version_def by (auto intro!: honest_rules n j f)
  show ?thesis
    unfolding install_all_def by (intro honest_rules c j r i s f) auto
qed

lemma systemctl_same: "systemctl_run h argv m = (r, m') \<Longrightarrow> \<exists>s. m' = m\<lparr>mc_systemd := s\<rparr>"
  by (auto simp: systemctl_run_def split: prod.splits)

lemma capture_same:
  assumes "capture_service_state h m = (r, m')"
  shows "\<exists>s. m' = m\<lparr>mc_systemd := s\<rparr>"
proof -
  let ?P = "\<lambda>k. \<exists>s. k = m\<lparr>mc_systemd := s\<rparr>"
  have "keeps ?P (systemctl_run h argv)" for argv
    by (auto simp: keeps_def systemctl_run_def split: prod.splits)
  then have "keeps ?P (capture_service_state h)"
    unfolding capture_service_state_def by (intro keeps_rules)
  moreover have "?P m" by (intro exI [of _ "mc_systemd m"]) simp
  ultimately show ?thesis using assms keepsD by blast
qed

text \<open>The restore up to the handler: it fails before any file is changed, or the safety tree is complete.\<close>

lemma run_restore_cases:
  assumes "run_restore h cd csv a pl m = (r, m')" "rs_fail_after a = []" "mc_safety m = (\<lambda>n. None)" "mc_csv m = None"
  obtains (early) e where "r = Inl e" "mc_files m' = mc_files m" "mc_csv m' = None"
  | (go) sv had m1 where
      "guarded (\<lambda>m. rollback_restore h (cd_snapshot cd) (roll_args a sv m)) (install_all h cd csv a sv had pl) m1 = (r, m')"
      "run_inv h a (mc_files m) (mc_safety m1) had None m1"
      "saved_before (cd_snapshot cd) a (mc_files m) (mc_safety m1)" "had \<longleftrightarrow> mc_files m (in_dir (rs_dir a) RUNTIME_ONLY) \<noteq> None"
      "mc_files m1 = mc_files m"
proof -
  let ?mk = "in_dir (rs_dir a) RUNTIME_ONLY"
  let ?go = "\<lambda>sv had. guarded (\<lambda>m. rollback_restore h (cd_snapshot cd) (roll_args a sv m)) (install_all h cd csv a sv had pl)"
  let ?look = "\<lambda>sv. mlook (\<lambda>m. mc_files m ?mk \<noteq> None) (\<lambda>had. mbind (save_journal h a sv had) (\<lambda>_. ?go sv had))"
  let ?stop = "\<lambda>sv. mwhen (rs_manage a \<and> sv_acct_active sv) (mbind (systemctl_run h [''stop'', ACCT]) (\<lambda>_. mret ()))"
  from assms(1) [unfolded run_restore_def] show thesis
  proof (cases rule: mbind_cases)
    case fail
    have "no_files_change (case rs_services a of Some sv \<Rightarrow> mret sv | None \<Rightarrow> capture_service_state h)"
      by (auto intro: no_change split: option.split)
    from no_files_changeD [OF this fail(1)] fail(2) assms(4) early show thesis by simp
  next
    case (ok sv k1)
    have "\<exists>s. k1 = m\<lparr>mc_systemd := s\<rparr>"
    proof (cases "rs_services a")
      case None
      with ok(1) capture_same show ?thesis by auto
    next
      case (Some sv)
      with ok(1) show ?thesis by (intro exI [of _ "mc_systemd m"]) (simp add: mret_def)
    qed
    then have k1: "mc_files k1 = mc_files m" "mc_safety k1 = (\<lambda>n. None)" "mc_csv k1 = None" using assms(3,4) by auto
    from ok(2) show thesis
    proof (cases rule: mbind_cases)
      case fail
      from no_files_changeD [OF no_change_safety_copy fail(1)] fail(2) k1 early show thesis by simp
    next
      case (ok x k2)
      from no_files_changeD [OF no_change_safety_copy ok(1)] k1 have k2: "mc_files k2 = mc_files m" "mc_csv k2 = None" by auto
      from safety_copy_saves [OF ok(1) k1(2)] k1(1) have sv: "mc_has_safety k2" "saved_before (cd_snapshot cd) a (mc_files m) (mc_safety k2)"
        by auto
      from ok(2) assms(2) have "mbind (?stop sv) (\<lambda>_. mbind (mset (\<lambda>m. m\<lparr>mc_written := [], mc_csv := None\<rparr>)) (\<lambda>_. ?look sv)) k2 = (r, m')"
        by (simp add: stage_hook_def mwhen_def mbind_def mret_def)
      moreover obtain s where "?stop sv k2 = (Inr (), k2\<lparr>mc_systemd := s\<rparr>)"
      proof (cases "rs_manage a \<and> sv_acct_active sv")
        case False
        then show thesis by (intro that [of "mc_systemd k2"]) (auto simp: mwhen_def mret_def)
      next
        case True
        then show thesis
          by (intro that [of "snd (he_systemctl h [''stop'', ACCT] (mc_systemd k2))"])
            (auto simp: mwhen_def mret_def mbind_def systemctl_run_def split: prod.split)
      qed
      ultimately have l: "?look sv (k2\<lparr>mc_systemd := s, mc_written := [], mc_csv := None\<rparr>) = (r, m')"
        by (simp add: mbind_def mset_def)
      let ?k = "k2\<lparr>mc_systemd := s, mc_written := [], mc_csv := None\<rparr>"
      let ?had = "mc_files m ?mk \<noteq> None"
      from l k2 have "mbind (save_journal h a sv ?had) (\<lambda>_. ?go sv ?had) ?k = (r, m')" by (simp add: mlook_def)
      then show thesis
      proof (cases rule: mbind_cases)
        case fail
        from no_files_changeD [OF no_change_journal fail(1)] fail(2) k2 early show thesis by simp
      next
        case (ok x k3)
        from ok(1) have "k3 = ?k\<lparr>mc_journal := Some \<lparr>jn_written = [], jn_csv = None, jn_config = rs_config a, jn_db = rs_db a,
            jn_services = Some sv, jn_manage = rs_manage a, jn_had_marker = ?had, jn_rollback = None\<rparr>, mc_ops := Suc (mc_ops ?k)\<rparr>"
          by (auto simp: save_journal_def mlook_def write_restore_journal_def disk_op_Inr done_by_def)
        then have "run_inv h a (mc_files m) (mc_safety k3) ?had None k3" "mc_safety k3 = mc_safety k2" "mc_files k3 = mc_files m"
          using sv k2 by (simp_all add: run_inv_def)
        with go [OF ok(2)] sv(2) show thesis by simp
      qed
    qed
  qed
qed

definition one_fault :: "'s host \<Rightarrow> bool" where
  "one_fault h \<longleftrightarrow> (\<forall>i k. he_fault h i \<noteq> Fine \<longrightarrow> he_fault h k \<noteq> Fine \<longrightarrow> i = k)"

lemma or_else_same [simp]: "or_else v v = v" "or_else v None = v" "or_else None v = v"
  by (auto simp: or_else_def split: option.split)

lemma run_inv_journal:
  assumes "run_inv h a F S had c m"
  shows "or_else (rs_db a) (jn_db (read_restore_journal m)) = rs_db a" "or_else (rs_config a) (jn_config (read_restore_journal m)) = rs_config a"
    "or_else c (jn_csv (read_restore_journal m)) = c"
  using assms by (auto simp: run_inv_def read_restore_journal_def empty_journal_def split: option.split)

lemma saved_marker: "saved_before snap a F S \<Longrightarrow> S RUNTIME_ONLY = F (in_dir (rs_dir a) RUNTIME_ONLY)"
proof -
  have "(RUNTIME_ONLY, in_dir (rs_dir a) RUNTIME_ONLY) \<in> set (keyed a)" by (simp add: keyed_def)
  moreover assume "saved_before snap a F S"
  ultimately show ?thesis
    by (cases "F (in_dir (rs_dir a) RUNTIME_ONLY)") (auto simp: saved_before_def restored_as_def marker_names)
qed


section \<open>A deferred restore\<close>

text \<open>The journal says what the run has written and where its reissue list is.\<close>

definition journal_current :: "'s machine \<Rightarrow> bool" where
  "journal_current m \<longleftrightarrow> (\<exists>j. mc_journal m = Some j \<and> jn_written j = mc_written m \<and> jn_csv j = mc_csv m)"

lemma save_journal_current: "save_journal h a sv had m = (Inr x, m') \<Longrightarrow> journal_current m'"
  by (auto simp: save_journal_def mlook_def write_restore_journal_def disk_op_Inr done_by_def journal_current_def)

lemma inject_Inr: "inject_restore_failure a b m = (Inr x, m') \<Longrightarrow> m' = m"
  by (auto simp: inject_restore_failure_def Let_def mret_def mraise_def os_error_def restore_error_def split: if_splits)

lemma deferred_journal_current:
  assumes "install_all h cd csv a sv had pl m = (Inr x, m')" "rs_defer a"
  shows "journal_current m'"
proof -
  from assms(1) [unfolded install_all_def] obtain x1 m1 x2 m2 x3 m3 x4 m4 x5 m5 x6 m6 x7 m7 where
    "install_canonical h cd a pl m = (Inr x1, m1)" and s2: "save_journal h a sv had m1 = (Inr x2, m2)"
    and i3: "inject_restore_failure a ''canonical'' m2 = (Inr x3, m3)" and s4: "install_reissue h csv a sv had pl m3 = (Inr x4, m4)"
    and i5: "inject_restore_failure a ''csv'' m4 = (Inr x5, m5)"
    and s6: "mopt (rs_config a) (\<lambda>p. mopt (rs_generated a) (\<lambda>g. mbind (install h p ''config.json'' g) (\<lambda>_. save_journal h a sv had))) m5 = (Inr x6, m6)"
    and i7: "inject_restore_failure a ''config'' m6 = (Inr x7, m7)" and s8: "commit_step h a sv had pl m7 = (Inr x, m')"
    by (elim mbind_InrE) (rule that; assumption)
  have m3: "journal_current m3" using save_journal_current [OF s2] inject_Inr [OF i3] by simp
  have m4: "journal_current m4"
  proof (cases "pl_mode pl = ''safe'' \<and> pl_rows pl \<noteq> []")
    case False
    with s4 m3 show ?thesis by (simp add: install_reissue_def mwhen_def mret_def)
  next
    case True
    with s4 show ?thesis by (auto simp: install_reissue_def mwhen_def mbind_Inr dest: save_journal_current)
  qed
  from m4 inject_Inr [OF i5] have m5: "journal_current m5" by simp
  have m6: "journal_current m6"
    using s6 m5 by (auto simp: mopt_def mret_def mbind_Inr dest: save_journal_current split: option.splits)
  from s8 assms(2) inject_Inr [OF i7] have "write_restore_marker h ''restore-safety'' ''pending'' m6 = (Inr x, m')"
    by (simp add: commit_step_def)
  with m6 show ?thesis by (auto simp: write_restore_marker_def disk_op_Inr done_by_def journal_current_def)
qed

text \<open>
  C27: The two-phase restore.  A restore that deferred its commit and succeeded can be rolled back by a later
  process that knows only the target directory: from the safety tree and the journal in it every file becomes what
  it was before the restore, and the reissue list is removed.\<close>

theorem deferred_restore_rolls_back:
  assumes "apply_restore h cd csv inp file pa a m = (Inr pl, m')" "rs_defer a"
    and "distinct (map snd (keyed a))" "mc_safety m = (\<lambda>n. None)" "mc_csv m = None" "rs_fail_after a = []"
    and "\<forall>i. he_fault h i = Fine" "\<forall>i. he_fault h' i = Fine"
    and "main_rollback h' (cd_snapshot cd) (rs_dir a) None None None (m'\<lparr>mc_written := [], mc_csv := None, mc_ops := 0\<rparr>) = (res, m'')"
  shows "\<forall>p. (mc_csv m' = Some p \<longrightarrow> mc_files m'' p = None)
    \<and> (mc_csv m' \<noteq> Some p \<longrightarrow> mc_files m'' p = mc_files m p
      \<or> (rs_db a = Some p \<and> (\<exists>x. mc_files m p = Some x \<and> mc_files m'' p = Some (cd_snapshot cd (cd_snapshot cd x)))))"
proof -
  from assms(1) obtain pl' where "run_restore h cd csv a pl' m = (Inr (), m')"
    by (auto simp: apply_restore_def mlook_def mraise_def mbind_Inr mret_def split: sum.splits)
  from this assms(6,4,5) show ?thesis
  proof (cases rule: run_restore_cases)
    case early
    then show ?thesis by simp
  next
    case (go sv had m1)
    let ?F = "mc_files m" and ?S = "mc_safety m1" and ?p = "csv_place a pl'"
    let ?r = "\<lparr>rb_dir = rs_dir a, rb_db = None, rb_written = [], rb_config = None, rb_csv = None, rb_services = None, rb_manage = None\<rparr>"
    from go(1) have body: "install_all h cd csv a sv had pl' m1 = (Inr (), m')"
      by (auto simp: guarded_def restore_error_def split: prod.splits sum.splits if_splits)
    from go(2) have "run_inv' h a ?F ?S had ?p m1" by (simp add: run_inv'_def)
    from keepsD [OF inv_install_all [where F = ?F and S = ?S, OF saved_marker [OF go(3)]] body this]
    obtain c where inv: "run_inv h a ?F ?S had c m'" by (auto simp: run_inv'_def)
    then have c: "mc_csv m' = c" by (simp add: run_inv_def)
    from deferred_journal_current [OF body assms(2)] obtain j where
      j: "mc_journal m' = Some j" "jn_written j = mc_written m'" "jn_csv j = c" using c by (auto simp: journal_current_def)
    with inv have jd: "jn_db j = rs_db a" "jn_config j = rs_config a" by (auto simp: run_inv_def)
    from j have rj: "read_restore_journal m' = j" by (simp add: read_restore_journal_def)
    have had: "had \<longrightarrow> ?S RUNTIME_ONLY \<noteq> None" using go(4) saved_marker [OF go(3)] by simp
    obtain res' where undone: "rollback_restore h' (cd_snapshot cd) ?r (m'\<lparr>mc_written := [], mc_csv := None, mc_ops := 0\<rparr>) = (res', m'')"
      using assms(9) by (auto simp: main_rollback_def mbind_def mret_def split: prod.splits sum.splits)
    let ?m = "m'\<lparr>mc_written := [], mc_csv := None, mc_ops := 0\<rparr>"
    have same: "mc_files ?m = mc_files m'" "mc_safety ?m = mc_safety m'" "mc_has_safety ?m = mc_has_safety m'" "mc_journal ?m = mc_journal m'"
      by simp_all
    from assms(8) have fine: "all_fine h' (mc_ops ?m)" by (simp add: all_fine_def)
    have r: "rb_dir ?r = rs_dir a" "or_else (rb_db ?r) (jn_db (read_restore_journal m')) = rs_db a"
      "or_else (rb_config ?r) (jn_config (read_restore_journal m')) = rs_config a"
      "or_else (rb_csv ?r) (jn_csv (read_restore_journal m')) = c"
      "set (mc_written m') \<subseteq> set (if rb_written ?r = [] then jn_written (read_restore_journal m') else rb_written ?r)"
      by (simp_all add: rj jd j)
    note rb = rollback_files [OF inv fine assms(3) go(3) had same r undone]
    from assms(7) have nl: "\<not> late h (mc_ops m')" by (simp add: late_def)
    show ?thesis
    proof (intro allI conjI impI)
      fix p assume "mc_csv m' = Some p"
      with rb(2) [of p] c show "mc_files m'' p = None" by simp
    next
      fix p assume "mc_csv m' \<noteq> Some p"
      with rb(1) c nl show "mc_files m'' p = mc_files m p
        \<or> (rs_db a = Some p \<and> (\<exists>x. mc_files m p = Some x \<and> mc_files m'' p = Some (cd_snapshot cd (cd_snapshot cd x))))" by blast
    qed
  qed
qed

section \<open>A restore that succeeds\<close>

lemma does_same: "no_files_change x \<Longrightarrow> does mc_files (\<lambda>F. F) x"
  by (auto simp: does_def dest: no_files_changeD)

lemma does_write: "does mc_files (\<lambda>F. F(p := Some d)) (write_private h p d)"
  unfolding write_private_def by (rule does_op) (simp add: done_by_def put_at_def)

lemma does_note: "does mc_files (\<lambda>F. F) (note_written n)"
  by (simp add: does_def note_written_def mset_def)

lemma does_install: "does mc_files (\<lambda>F. F(p := Some d)) (install h p n d)"
  using does_bind [OF does_write does_note] by (simp add: install_def)

lemma does_remove: "does mc_files (\<lambda>F. F(p := None)) (remove_if_there h p)"
  by (auto simp: does_def remove_if_there_def mlook_def mwhen_def mret_def remove_file_def disk_op_Inr done_by_def put_at_def
      split: if_splits)

lemma does_when: "does mc_files g x \<Longrightarrow> does mc_files (\<lambda>F. if b then g F else F) (mwhen b x)"
  by (simp add: mwhen_def does_ret)

lemma does_opt: "(\<And>v. does mc_files (g v) (f v)) \<Longrightarrow> does mc_files (\<lambda>F. case u of None \<Rightarrow> F | Some v \<Rightarrow> g v F) (mopt u f)"
  by (cases u) (simp_all add: mopt_def does_ret)

lemma does_inject: "does mc_files (\<lambda>F. F) (inject_restore_failure a b)"
  by (auto simp: does_def dest: inject_Inr)

text \<open>What the canonical files become, what the commit makes of them.\<close>

definition canonical_files :: "'c codec \<Rightarrow> restore_args \<Rightarrow> restore_plan \<Rightarrow> (string \<Rightarrow> string option) \<Rightarrow> (string \<Rightarrow> string option)" where
  "canonical_files cd a pl F =
     (let F1 = F(in_dir (rs_dir a) ''state.json'' := Some (cd_dumps cd (JObj (pl_state pl))),
                 in_dir (rs_dir a) ''users.json'' := Some (cd_dumps cd (JObj (pl_users pl))),
                 in_dir (rs_dir a) ''config.toml'' := Some (cd_encode cd (pl_config pl)));
          F2 = (if pl_owner_uri pl \<noteq> [] then F1(in_dir (rs_dir a) ''owner.uri'' := Some (cd_encode cd (pl_owner_uri pl @ NEWLINE))) else F1)
      in case pl_accounting pl of None \<Rightarrow> F2 | Some d \<Rightarrow> (case rs_db a of None \<Rightarrow> F2 | Some p \<Rightarrow> F2(p := Some d)))"

definition committed_files :: "restore_args \<Rightarrow> restore_plan \<Rightarrow> (string \<Rightarrow> string option) \<Rightarrow> (string \<Rightarrow> string option)" where
  "committed_files a pl F = (if rs_defer a then F
     else F(in_dir (rs_dir a) ''VERSION'' := Some (rstrip_char (char_of (10 :: nat)) (restore_version a pl) @ NEWLINE),
            in_dir (rs_dir a) RUNTIME_ONLY := None))"

definition installed_files ::
    "'c codec \<Rightarrow> (string list list \<Rightarrow> string) \<Rightarrow> restore_args \<Rightarrow> restore_plan \<Rightarrow> (string \<Rightarrow> string option) \<Rightarrow> (string \<Rightarrow> string option)" where
  "installed_files cd csv a pl F =
     (let F1 = canonical_files cd a pl F;
          F2 = (if pl_mode pl = ''safe'' \<and> pl_rows pl \<noteq> []
                then F1(csv_place a pl := Some (csv (csv_header # map csv_fields (pl_rows pl)))) else F1);
          F3 = (case rs_config a of None \<Rightarrow> F2 | Some p \<Rightarrow> (case rs_generated a of None \<Rightarrow> F2 | Some g \<Rightarrow> F2(p := Some g)))
      in committed_files a pl F3)"

lemma does_canonical: "does mc_files (canonical_files cd a pl) (install_canonical h cd a pl)"
proof -
  let ?d = "in_dir (rs_dir a)"
  note mk = does_same [OF no_change_disk(1)]
  note all = does_bind [OF mk [of h] does_bind [OF does_install [of "?d ''state.json''" "cd_dumps cd (JObj (pl_state pl))" h "''state.json''"]
    does_bind [OF does_install [of "?d ''users.json''" "cd_dumps cd (JObj (pl_users pl))" h "''users.json''"]
    does_bind [OF does_install [of "?d ''config.toml''" "cd_encode cd (pl_config pl)" h "''config.toml''"]
    does_bind [OF does_when [of "\<lambda>F. F(?d ''owner.uri'' := Some (cd_encode cd (pl_owner_uri pl @ NEWLINE)))" _ "pl_owner_uri pl \<noteq> []", OF does_install]
    does_opt [of "\<lambda>d F. case rs_db a of None \<Rightarrow> F | Some p \<Rightarrow> F(p := Some d)" _ "pl_accounting pl",
      OF does_opt [of "\<lambda>p F. F(p := Some d)" _ "rs_db a" for d, OF does_bind [OF mk [of h] does_install]]]]]]]]
  show ?thesis
    unfolding install_canonical_def Let_def canonical_files_def [abs_def] by (rule all)
qed

lemma does_commit: "does mc_files (committed_files a pl) (commit_step h a sv had pl)"
proof (cases "rs_defer a")
  case True
  with does_same [OF no_change_disk(5)] show ?thesis by (simp add: commit_step_def committed_files_def [abs_def])
next
  case False
  let ?d = "in_dir (rs_dir a)"
  have v: "does mc_files (\<lambda>F. F(?d ''VERSION'' := Some (rstrip_char (char_of (10 :: nat)) (restore_version a pl) @ NEWLINE), ?d RUNTIME_ONLY := None))
      (commit_restore_version h (rs_dir a) (restore_version a pl) True)"
    unfolding commit_restore_version_def mwhen_def if_True
    by (rule does_bind [OF does_same [OF no_change_disk(1)] does_bind [OF does_write does_bind [OF does_remove does_same [OF no_change_disk(5)]]]])
  have w: "does mc_files (\<lambda>F. F) (mwhen b (inject_restore_failure a x))" for b x
    by (auto simp: mwhen_def does_ret does_inject)
  from does_bind [OF does_inject [of a "''health''"] does_bind [OF w [of "rs_fail_after a = ''version'' \<and> rs_errno a = ''EACCES''" "''version''"]
    does_bind [OF v does_bind [OF does_note [of "''VERSION''"] does_bind [OF does_same [OF no_change_journal [of h a sv had]] does_inject [of a "''version''"]]]]]]
  show ?thesis using False by (simp add: commit_step_def committed_files_def [abs_def])
qed

lemma does_reissue: "does mc_files (\<lambda>F. if pl_mode pl = ''safe'' \<and> pl_rows pl \<noteq> []
    then F(csv_place a pl := Some (csv (csv_header # map csv_fields (pl_rows pl)))) else F) (install_reissue h csv a sv had pl)"
proof -
  have "does mc_files (\<lambda>F. F) (mset (\<lambda>m. m\<lparr>mc_csv := Some (csv_place a pl)\<rparr>))" by (simp add: does_def mset_def)
  note all = does_bind [OF this does_bind [OF does_bind [OF does_same [OF no_change_disk(1)] does_write]
    does_bind [OF does_note does_same [OF no_change_journal]]]]
  show ?thesis unfolding install_reissue_def write_reissue_csv_def by (rule does_when, rule all)
qed

lemma does_install_all: "does mc_files (installed_files cd csv a pl) (install_all h cd csv a sv had pl)"
proof -
  note j = does_same [OF no_change_journal [of h a sv had]]
  note cfg = does_opt [of "\<lambda>p F. case rs_generated a of None \<Rightarrow> F | Some g \<Rightarrow> F(p := Some g)" _ "rs_config a",
    OF does_opt [of "\<lambda>g F. F(p := Some g)" _ "rs_generated a" for p, OF does_bind [OF does_install j]]]
  note all = does_bind [OF does_canonical does_bind [OF j does_bind [OF does_inject does_bind [OF does_reissue
    does_bind [OF does_inject does_bind [OF cfg does_bind [OF does_inject does_commit]]]]]]]
  show ?thesis unfolding install_all_def installed_files_def [abs_def] Let_def by (rule all)
qed

text \<open>
  C28: A restore that succeeds had no installed version in its way and has installed the plan it returns: the
  files afterwards are those before with the plan's documents, the database of the archive, the reissue list and the
  generated configuration in place, and, unless the commit is deferred, the version written and the marker removed.\<close>

theorem restore_installs_plan:
  assumes "apply_restore h cd csv inp file pa a m = (Inr pl, m')" "mc_safety m = (\<lambda>n. None)" "mc_csv m = None" "rs_fail_after a = []"
  shows "mc_files m (in_dir (rs_dir a) ''VERSION'') = None \<and> plan_from_archive cd inp file pa = Inr pl
    \<and> mc_files m' = installed_files cd csv a pl (mc_files m)"
proof -
  from assms(1) have v: "mc_files m (in_dir (rs_dir a) ''VERSION'') = None" "plan_from_archive cd inp file pa = Inr pl"
    and run: "run_restore h cd csv a pl m = (Inr (), m')"
    by (auto simp: apply_restore_def mlook_def mraise_def mbind_Inr mret_def rbind_eq_Inr preflight_restore_def restore_error_def plan_from_archive_def
        split: sum.splits if_splits)
  from run assms(4,2,3) show ?thesis
  proof (cases rule: run_restore_cases)
    case early
    then show ?thesis by simp
  next
    case (go sv had m1)
    from go(1) have "install_all h cd csv a sv had pl m1 = (Inr (), m')"
      by (auto simp: guarded_def restore_error_def split: prod.splits sum.splits if_splits)
    from doesD [OF does_install_all this] have "mc_files m' = installed_files cd csv a pl (mc_files m1)" .
    with v go(5) show ?thesis by simp
  qed
qed

section \<open>Examples\<close>

definition ex_rstate :: dict where
  "ex_rstate = [(''node'', JObj [(''node_id'', JStr ''N''), (''instance_id'', JStr ''I'')]), (''project_version'', JStr ''1'')]"

definition ex_rmanifest :: dict where
  "ex_rmanifest = [(''schema_version'', JInt 1), (''secret_bearing'', JBool False), (''encryption'', JStr ''none''),
     (''source_node_id'', JStr ''N''), (''included_components'', JList [JStr ''state.json'', JStr ''users.json'']),
     (''files'', JList [JObj [(''path'', JStr ''state.json''), (''sha256'', JStr ''s'')], JObj [(''path'', JStr ''users.json''), (''sha256'', JStr ''u'')]])]"

definition ex_rcodec :: "unit codec" where
  "ex_rcodec = \<lparr>cd_loads = (\<lambda>s. if s = ''s'' then Some (JObj ex_rstate) else if s = ''u'' then Some (JObj [(''users'', JList [])])
       else if s = ''m'' then Some (JObj ex_rmanifest) else None),
     cd_dumps = (\<lambda>v. ''doc''), cd_decode = Some, cd_lenient = (\<lambda>s. s), cd_encode = (\<lambda>s. s), cd_sha256 = (\<lambda>s. s),
     cd_snapshot = (\<lambda>s. s), cd_age = False, cd_encrypt = (\<lambda>b. None), cd_decrypt = (\<lambda>b. None)\<rparr>"

definition ex_rarchive :: "unit blob" where
  "ex_rarchive = Tarball [tar_file ''manifest.json'' ''m'', tar_file ''state.json'' ''s'', tar_file ''users.json'' ''u'']"

definition ex_rhost :: "(nat \<Rightarrow> fault) \<Rightarrow> bool host" where
  "ex_rhost f = \<lparr>he_fault = f, he_systemctl = (\<lambda>argv on. if argv = [''stop'', ACCT] then (0, False) else if argv = [''start'', ACCT] then (0, True)
     else if argv = [''is-active'', ''--quiet'', ACCT] then (if on then 0 else 3, on) else (0, on))\<rparr>"

definition ex_rmachine :: "bool machine" where
  "ex_rmachine = \<lparr>mc_files = (\<lambda>p. if p = ''d/owner.uri'' then Some ''old'' else None), mc_has_safety = False, mc_safety = (\<lambda>n. None), mc_journal = None,
     mc_service_file = None, mc_marker = None, mc_systemd = True, mc_written = [], mc_csv = None, mc_ops = 0\<rparr>"

definition ex_rargs :: "bool \<Rightarrow> restore_args" where
  "ex_rargs defer = \<lparr>rs_dir = ''d'', rs_parent = [], rs_db = None, rs_config = None, rs_generated = None, rs_reissue = None, rs_version = None,
     rs_defer = defer, rs_manage = True, rs_services = None, rs_stamp = [], rs_fail_after = [], rs_errno = []\<rparr>"

definition ex_rplan :: plan_args where
  "ex_rplan = \<lparr>pa_include_secrets = False, pa_instance_id = [], pa_private = ''PRIV'', pa_public = ''PUB'', pa_short_id = ''5a'',
     pa_clash = ''fresh'', pa_server = None, pa_listen = None, pa_port = JNull, pa_service_account = None,
     pa_reissue = [], pa_version = None, pa_now = ''2026''\<rparr>"

definition ex_rinput :: restore_input where
  "ex_rinput = \<lparr>rn_path = ''b.tar'', rn_identity = False, rn_fresh = (\<lambda>n. ''f''), rn_token = ''t''\<rparr>"

definition ex_restore :: "(nat \<Rightarrow> fault) \<Rightarrow> bool \<Rightarrow> restore_plan res \<times> bool machine" where
  "ex_restore f defer = apply_restore (ex_rhost f) ex_rcodec (\<lambda>rows. concat (concat rows)) ex_rinput (Some ex_rarchive) ex_rplan (ex_rargs defer) ex_rmachine"

definition fault_at :: "nat \<Rightarrow> nat \<Rightarrow> fault" where
  "fault_at k i = (if i = k then Early else Fine)"

lemma ex_failing_runs: "case ex_restore (fault_at 7) False of (x, m) \<Rightarrow> (case x of Inl e \<Rightarrow> True | Inr p \<Rightarrow> False)"
  by code_simp

lemma ex_deferred_runs: "case ex_restore (\<lambda>i. Fine) True of (x, m) \<Rightarrow> (case x of Inl e \<Rightarrow> False | Inr p \<Rightarrow> mc_files m ''d/state.json'' = Some ''doc'')"
  by code_simp

lemma ex_keyed: "distinct (map snd (keyed (ex_rargs b)))"
  by (simp add: keyed_def ex_rargs_def in_dir_def STATE_FILES_def RUNTIME_ONLY_def)

lemma ex_rmachine_clean: "mc_safety ex_rmachine = (\<lambda>n. None)" "mc_csv ex_rmachine = None" "rs_fail_after (ex_rargs b) = []"
  "rs_db (ex_rargs b) = None" "rs_defer (ex_rargs b) = b" "rs_dir (ex_rargs b) = ''d''"
  by (simp_all add: ex_rmachine_def ex_rargs_def)


theorem deferred_restore_rolls_back_witness:
  "\<exists>p m' res m''. ex_restore (\<lambda>i. Fine) True = (Inr p, m') \<and> mc_files m' ''d/state.json'' = Some ''doc''
     \<and> main_rollback (ex_rhost (\<lambda>i. Fine)) (\<lambda>s. s) ''d'' None None None (m'\<lparr>mc_written := [], mc_csv := None, mc_ops := 0\<rparr>) = (res, m'')
     \<and> (\<forall>p. mc_csv m' \<noteq> Some p \<longrightarrow> mc_files m'' p = mc_files ex_rmachine p)"
proof -
  obtain p m' where r: "ex_restore (\<lambda>i. Fine) True = (Inr p, m')" "mc_files m' ''d/state.json'' = Some ''doc''"
    using ex_deferred_runs by (auto split: prod.splits sum.splits)
  obtain res m'' where u: "main_rollback (ex_rhost (\<lambda>i. Fine)) (cd_snapshot ex_rcodec) (rs_dir (ex_rargs True)) None None None
      (m'\<lparr>mc_written := [], mc_csv := None, mc_ops := 0\<rparr>) = (res, m'')" by fastforce
  have fine: "\<forall>i. he_fault (ex_rhost (\<lambda>i. Fine)) i = Fine" by (simp add: ex_rhost_def)
  have "cd_snapshot ex_rcodec = (\<lambda>s. s)" by (simp add: ex_rcodec_def)
  with deferred_restore_rolls_back [OF r(1) [unfolded ex_restore_def] _ ex_keyed ex_rmachine_clean(1-3) fine fine u] r u show ?thesis
    by (auto simp: ex_rmachine_clean)
qed

theorem restore_installs_plan_witness:
  "\<exists>p m'. ex_restore (\<lambda>i. Fine) True = (Inr p, m')
     \<and> mc_files m' = installed_files ex_rcodec (\<lambda>rows. concat (concat rows)) (ex_rargs True) p (mc_files ex_rmachine)"
proof -
  obtain p m' where r: "ex_restore (\<lambda>i. Fine) True = (Inr p, m')"
    using ex_deferred_runs by (auto split: prod.splits sum.splits)
  from restore_installs_plan [OF r [unfolded ex_restore_def] ex_rmachine_clean(1-3)] r show ?thesis by blast
qed

text \<open>
  The hole in the transaction.  The journal is written after the accounting daemon was stopped and before the
  handler is entered: when that write fails, the restore ends with the bare operating-system error and the daemon,
  which ran before, stays stopped.\<close>

theorem failed_journal_stops_accounting:
  "mc_systemd ex_rmachine \<and> (\<exists>m'. ex_restore (fault_at 4) False = (os_error, m') \<and> \<not> mc_systemd m')"
proof -
  have "case ex_restore (fault_at 4) False of (x, m) \<Rightarrow> (case x of Inl e \<Rightarrow> e = RuntimeError ''OSError'' \<and> \<not> mc_systemd m | Inr p \<Rightarrow> False)"
    by code_simp
  then show ?thesis by (auto simp: os_error_def ex_rmachine_def split: prod.splits sum.splits)
qed

end
