(* ===== verification/AuditArchive.thy ===== *)
theory AuditArchive
  imports FleetQuery
begin

text \<open>
  The audit archive (\<open>lib/vincula-audit-archive.py\<close>) and its commands (\<open>lib/vincula-fleet.py\<close>): events
  of the cache in a time range with the nodes, users and instances they name, and the restore of an
  archive into a cache, which adds events and never moves a sync cursor.

  An archive file is its tables; rows have the declared types and, as SQLite integers, 64 bits.  An
  event of an archive is a row of the cache without \<open>imported_at\<close>, kept as the empty text.
\<close>

section \<open>Archive files\<close>

record node_attribution =
  na_node_id :: string
  na_name :: "string option"
  na_instance_id :: "string option"

record user_attribution =
  ua_node_id :: string
  ua_user_id :: string
  ua_tag :: "string option"

record instance_attribution =
  ia_node_id :: string
  ia_instance_id :: string
  ia_first_seen_at :: string
  ia_last_seen_at :: string

record archive =
  ar_tables :: "string list"
  ar_meta :: "(string \<times> string) list"
  ar_events :: "audit_row list"
  ar_nodes :: "node_attribution list"
  ar_users :: "user_attribution list"
  ar_instances :: "instance_attribution list"

definition ARCHIVE_SCHEMA_LABEL :: string where
  "ARCHIVE_SCHEMA_LABEL = ''audit-archive/v1''"

definition ARCHIVE_TABLES :: "string list" where
  "ARCHIVE_TABLES = [''meta'', ''audit_events'', ''node_attribution'', ''user_attribution'', ''instance_attribution'']"

text \<open>The remote fields of an event; \<open>_payload_equal\<close> compares these.\<close>

definition event_values :: "audit_row \<Rightarrow> audit_row" where
  "event_values r = r\<lparr>a_imported_at := []\<rparr>"

definition payload_equal :: "audit_row \<Rightarrow> audit_row \<Rightarrow> bool" where
  "payload_equal e r \<longleftrightarrow> event_values e = event_values r"

section \<open>Attribution\<close>

definition name_by_nid :: "registry \<Rightarrow> string \<Rightarrow> string option" where
  "name_by_nid g nid = (if nid = [] then None else map_option n_name (find (\<lambda>n. n_node_id n = nid) (rev (g_nodes g))))"

definition own_instance :: "audit_row \<Rightarrow> string option" where
  "own_instance e = (if nonempty (a_instance_id e) then a_instance_id e else None)"

definition attribute_node :: "registry \<Rightarrow> audit_row \<Rightarrow> node_attribution list \<Rightarrow> node_attribution list" where
  "attribute_node g e ns =
     (if list_ex (\<lambda>n. na_node_id n = a_node_id e) ns
      then map (\<lambda>n. if na_node_id n = a_node_id e \<and> na_instance_id n = None
             then n\<lparr>na_instance_id := own_instance e\<rparr> else n) ns
      else ns @ [\<lparr>na_node_id = a_node_id e, na_name = name_by_nid g (a_node_id e), na_instance_id = own_instance e\<rparr>])"

definition attribute_user :: "audit_row \<Rightarrow> user_attribution list \<Rightarrow> user_attribution list" where
  "attribute_user e us =
     (if a_user_id e = [] \<or> list_ex (\<lambda>u. ua_node_id u = a_node_id e \<and> ua_user_id u = a_user_id e) us then us
      else us @ [\<lparr>ua_node_id = a_node_id e, ua_user_id = a_user_id e, ua_tag = a_user_tag e\<rparr>])"

definition attribute_instance :: "audit_row \<Rightarrow> instance_attribution list \<Rightarrow> instance_attribution list" where
  "attribute_instance e is = (case own_instance e of
     None \<Rightarrow> is
   | Some iid \<Rightarrow>
       (if list_ex (\<lambda>i. ia_node_id i = a_node_id e \<and> ia_instance_id i = iid) is
        then map (\<lambda>i. if ia_node_id i = a_node_id e \<and> ia_instance_id i = iid
               then i\<lparr>ia_first_seen_at := (if a_started_at e < ia_first_seen_at i then a_started_at e else ia_first_seen_at i),
                      ia_last_seen_at := (if ia_last_seen_at i < a_last_seen_at e then a_last_seen_at e else ia_last_seen_at i)\<rparr>
               else i) is
        else is @ [\<lparr>ia_node_id = a_node_id e, ia_instance_id = iid, ia_first_seen_at = a_started_at e,
               ia_last_seen_at = a_last_seen_at e\<rparr>]))"

definition attribution_from_events ::
    "registry \<Rightarrow> audit_row list \<Rightarrow> node_attribution list \<times> user_attribution list \<times> instance_attribution list" where
  "attribution_from_events g events =
     (let es = filter (\<lambda>e. a_node_id e \<noteq> []) events in
      (fold (attribute_node g) es [], fold attribute_user es [], fold attribute_instance es []))"

section \<open>Creation and verification\<close>

text \<open>A path without a file is \<open>None\<close>, a file that is no database \<open>Some None\<close>.\<close>

definition create_archive ::
    "archive option option \<Rightarrow> string \<Rightarrow> string \<Rightarrow> string \<Rightarrow> string \<Rightarrow> audit_row list
      \<Rightarrow> node_attribution list \<times> user_attribution list \<times> instance_attribution list \<Rightarrow> archive res" where
  "create_archive dest fid created t_from t_to events attribution =
     (if dest \<noteq> None then die ''archive exists''
      else if \<not> distinct (map event_key events) then Inl IntegrityError
      else (case attribution of (nodes, users, instances) \<Rightarrow>
        Inr \<lparr>ar_tables = ARCHIVE_TABLES,
          ar_meta = [(''schema_version'', ARCHIVE_SCHEMA_LABEL), (''fleet_id'', fid), (''created_at'', created),
            (''time_from'', t_from), (''time_to'', t_to)],
          ar_events = map event_values events, ar_nodes = nodes, ar_users = users, ar_instances = instances\<rparr>))"

record archive_info =
  ai_schema_version :: string
  ai_tables :: "string list"
  ai_fleet_id :: string
  ai_created_at :: string
  ai_time_from :: string
  ai_time_to :: string
  ai_event_count :: nat
  ai_node_count :: nat
  ai_user_count :: nat
  ai_instance_count :: nat

definition meta_text :: "archive \<Rightarrow> string \<Rightarrow> string" where
  "meta_text a k = (case map_of (ar_meta a) k of None \<Rightarrow> [] | Some v \<Rightarrow> v)"

text \<open>The error text, or the description of an archive.\<close>

definition verify_audit_archive :: "archive option option \<Rightarrow> string + archive_info" where
  "verify_audit_archive file = (case file of
     None \<Rightarrow> Inl ''cannot open archive''
   | Some None \<Rightarrow> Inl ''file is not a database''
   | Some (Some a) \<Rightarrow>
       (case find (\<lambda>t. t \<notin> set (ar_tables a)) ARCHIVE_TABLES of
          Some t \<Rightarrow> Inl (''missing table: '' @ t)
        | None \<Rightarrow>
            if map_of (ar_meta a) ''schema_version'' \<noteq> Some ARCHIVE_SCHEMA_LABEL
            then Inl (''unsupported schema_version: ''
              @ (case map_of (ar_meta a) ''schema_version'' of None \<Rightarrow> ''None'' | Some v \<Rightarrow> v))
            else Inr \<lparr>ai_schema_version = ARCHIVE_SCHEMA_LABEL, ai_tables = ARCHIVE_TABLES,
              ai_fleet_id = meta_text a ''fleet_id'', ai_created_at = meta_text a ''created_at'',
              ai_time_from = meta_text a ''time_from'', ai_time_to = meta_text a ''time_to'',
              ai_event_count = length (ar_events a), ai_node_count = length (ar_nodes a),
              ai_user_count = length (ar_users a), ai_instance_count = length (ar_instances a)\<rparr>))"

definition inspect_archive :: "archive option option \<Rightarrow> archive_info res" where
  "inspect_archive file = (case verify_audit_archive file of Inl err \<Rightarrow> die err | Inr i \<Rightarrow> Inr i)"

section \<open>Restore\<close>

record archive_result =
  as_inserted :: nat
  as_deduped :: nat
  as_aggregated :: nat

definition sync_cursor_snapshot :: "fleet_db \<Rightarrow> (string \<times> int) list" where
  "sync_cursor_snapshot db = map (\<lambda>(n, c). (n, cu_last_export_seq c)) (sync_cursor db)"

definition archive_conflict :: "'a res" where
  "archive_conflict = Inl (RuntimeError ''ARCHIVE_CONFLICT'')"

text \<open>One row of the archive: the events of the cache, the number inserted and deduplicated, the nodes touched.\<close>

definition restore_row ::
    "string \<Rightarrow> audit_row \<Rightarrow> audit_row list \<times> nat \<times> nat \<times> string list \<Rightarrow> (audit_row list \<times> nat \<times> nat \<times> string list) res" where
  "restore_row now row acc = (case acc of (es, ins, ded, touched) \<Rightarrow>
     (case find (\<lambda>e. event_key e = event_key row) es of
        Some e \<Rightarrow> if payload_equal e row then Inr (es, ins, Suc ded, touched) else archive_conflict
      | None \<Rightarrow> Inr (es @ [row\<lparr>a_imported_at := now\<rparr>], Suc ins, ded,
          if a_node_id row = [] \<or> a_node_id row \<in> set touched then touched else touched @ [a_node_id row])))"

definition rebuild_nodes :: "string list \<Rightarrow> fleet_db \<Rightarrow> fleet_db res" where
  "rebuild_nodes nids db = rfold (\<lambda>nid db. rebuild_daily_usage_for_node db nid) nids db"

definition restore_archive_into_cache ::
    "archive option option \<Rightarrow> string option \<Rightarrow> string \<Rightarrow> fleet_db \<Rightarrow> (fleet_db \<times> archive_result) res" where
  "restore_archive_into_cache file cache_fid now db =
     rbind (inspect_archive file) (\<lambda>info.
     if ai_fleet_id info \<noteq> [] \<and> nonempty cache_fid \<and> cache_fid \<noteq> Some (ai_fleet_id info)
     then die ''ARCHIVE_FLEET_MISMATCH: archive fleet_id mismatch''
     else rbind (rfold (restore_row now) (case file of Some (Some a) \<Rightarrow> ar_events a | _ \<Rightarrow> [])
        (audit_events db, 0, 0, [])) (\<lambda>(es, ins, ded, touched).
     rbind (rebuild_nodes (sort touched) (db\<lparr>audit_events := es\<rparr>)) (\<lambda>db'.
     if sync_cursor_snapshot db' \<noteq> sync_cursor_snapshot db
     then die ''ARCHIVE_CURSOR_TOUCHED: restore must not change sync_cursor''
     else Inr (db', \<lparr>as_inserted = ins, as_deduped = ded, as_aggregated = length touched\<rparr>))))"

section \<open>The commands\<close>

definition window_events :: "fleet_db \<Rightarrow> string \<Rightarrow> string \<Rightarrow> audit_row list" where
  "window_events db q_from q_to = sort_key audit_pos (filter (event_overlap q_from q_to) (audit_events db))"

definition cmd_audit_archive_create ::
    "registry res \<Rightarrow> fleet_db res \<Rightarrow> string option \<Rightarrow> archive option option \<Rightarrow> string \<Rightarrow> string \<Rightarrow> string \<Rightarrow> archive res" where
  "cmd_audit_archive_create reg cache fid dest q_from q_to created =
     rbind (parse_rfc3339 q_from) (\<lambda>f.
     rbind (parse_rfc3339 q_to) (\<lambda>t.
     if t < f then die ''--from must not be after --to''
     else rbind cache (\<lambda>db.
     rbind reg (\<lambda>g.
     let rows = window_events db f t in
     create_archive dest (case fid of None \<Rightarrow> [] | Some x \<Rightarrow> x) created f t rows (attribution_from_events g rows)))))"

definition cmd_audit_archive_verify :: "archive option option \<Rightarrow> string list res" where
  "cmd_audit_archive_verify file = (case verify_audit_archive file of
     Inl err \<Rightarrow> die err
   | Inr i \<Rightarrow> Inr [''ok '' @ ai_schema_version i, ''tables: '' @ join '','' (ai_tables i)])"

definition cmd_audit_archive_inspect :: "archive option option \<Rightarrow> string list res" where
  "cmd_audit_archive_inspect file = rbind (inspect_archive file) (\<lambda>i.
     Inr [''fleet_id='' @ ai_fleet_id i, ''created_at='' @ ai_created_at i, ''time_from='' @ ai_time_from i,
       ''time_to='' @ ai_time_to i, ''events='' @ nat_text (ai_event_count i),
       ''nodes='' @ nat_text (ai_node_count i) @ '' users='' @ nat_text (ai_user_count i)
         @ '' instances='' @ nat_text (ai_instance_count i)])"

text \<open>The database after the command, and what it printed or the exception.\<close>

definition cmd_audit_archive_restore ::
    "archive option option \<Rightarrow> string option \<Rightarrow> string \<Rightarrow> fleet_db \<Rightarrow> fleet_db \<times> archive_result res" where
  "cmd_audit_archive_restore file cache_fid now db =
     (case restore_archive_into_cache file cache_fid now db of
        Inl e \<Rightarrow> (db, if e = RuntimeError ''ARCHIVE_CONFLICT'' then die ''ARCHIVE_CONFLICT'' else Inl e)
      | Inr (db', r) \<Rightarrow> (db',
          if sync_cursor_snapshot db' \<noteq> sync_cursor_snapshot db
          then die ''ARCHIVE_CURSOR_TOUCHED: restore must not change sync_cursor'' else Inr r))"

end
