(* ===== verification/AuditArchiveProps.thy ===== *)
theory AuditArchiveProps
  imports AuditArchive FleetDbInv
begin

text \<open>
  Restoring an audit archive only adds events, keeps cursors, and is all or nothing; what was archived
  comes back; a conflict is reported exactly when there is one.
\<close>

section \<open>Rows\<close>

lemma payload_equal_key: "payload_equal e r \<Longrightarrow> event_key e = event_key r"
proof -
  assume "payload_equal e r"
  then have "event_values e = event_values r" by (simp add: payload_equal_def)
  then have "a_node_id (event_values e) = a_node_id (event_values r)" "a_event_id (event_values e) = a_event_id (event_values r)" by simp_all
  then show ?thesis by (simp add: event_key_def event_values_def)
qed

lemma payload_equal_refl [simp]: "payload_equal e e"
  by (simp add: payload_equal_def)

lemma payload_equal_imported [simp]: "payload_equal (r\<lparr>a_imported_at := t\<rparr>) s = payload_equal r s" "payload_equal r (s\<lparr>a_imported_at := t\<rparr>) = payload_equal r s"
  by (simp_all add: payload_equal_def event_values_def)

lemma payload_equal_values [simp]: "payload_equal r (event_values s) = payload_equal r s" "payload_equal (event_values r) s = payload_equal r s"
  by (simp_all add: event_values_def)

lemma event_key_imported [simp]: "event_key (r\<lparr>a_imported_at := t\<rparr>) = event_key r" "event_key (event_values r) = event_key r"
  by (simp_all add: event_key_def event_values_def)

lemma payload_equal_trans: "payload_equal a b \<Longrightarrow> payload_equal b c \<Longrightarrow> payload_equal a c"
  by (simp add: payload_equal_def)

lemma payload_equal_sym: "payload_equal a b \<Longrightarrow> payload_equal b a"
  by (simp add: payload_equal_def)

lemma restore_row_cases:
  assumes "restore_row now r (es, i, d, t) = Inr acc"
  obtains (dup) e where "e \<in> set es" "payload_equal e r" "acc = (es, i, Suc d, t)"
  | (new) "event_key r \<notin> event_key ` set es" "acc = (es @ [r\<lparr>a_imported_at := now\<rparr>], Suc i, d,
      if a_node_id r = [] \<or> a_node_id r \<in> set t then t else t @ [a_node_id r])"
proof (cases "find (\<lambda>e. event_key e = event_key r) es")
  case None
  then have "event_key r \<notin> event_key ` set es" by (auto simp: find_None_iff)
  with None assms new show thesis by (simp add: restore_row_def)
next
  case (Some e)
  then have "e \<in> set es" by (auto simp: find_Some_iff)
  with Some assms dup show thesis by (auto simp: restore_row_def archive_conflict_def split: if_splits)
qed

lemma restore_rows_Inr:
  assumes "rfold (restore_row now) rows (es, i, d, t) = Inr (es', i', d', t')"
  shows "\<exists>added. es' = es @ added \<and> i' = i + length added \<and> i' + d' = i + d + length rows
    \<and> (\<forall>r \<in> set rows. \<exists>e \<in> set es'. payload_equal e r)
    \<and> (\<forall>e \<in> set added. \<exists>r \<in> set rows. payload_equal e r)
    \<and> set t' = set t \<union> (a_node_id ` set added - {[]}) \<and> (distinct t \<longrightarrow> distinct t')
    \<and> (distinct (map event_key es) \<longrightarrow> distinct (map event_key es'))"
  using assms
proof (induction rows arbitrary: es i d t)
  case (Cons r rows)
  from Cons.prems obtain acc where step: "restore_row now r (es, i, d, t) = Inr acc"
    and rest: "rfold (restore_row now) rows acc = Inr (es', i', d', t')" by (auto simp: rbind_eq_Inr)
  from step show ?case
  proof (cases rule: restore_row_cases)
    case (dup e)
    from Cons.IH [OF rest [unfolded dup(3)]] dup show ?thesis by fastforce
  next
    case new
    let ?r = "r\<lparr>a_imported_at := now\<rparr>"
    from Cons.IH [OF rest [unfolded new(2)]] obtain added where
      a: "es' = (es @ [?r]) @ added" "i' = Suc i + length added" "i' + d' = Suc i + d + length rows"
      "\<forall>r \<in> set rows. \<exists>e \<in> set es'. payload_equal e r" "\<forall>e \<in> set added. \<exists>r \<in> set rows. payload_equal e r"
      "set t' = set (if a_node_id r = [] \<or> a_node_id r \<in> set t then t else t @ [a_node_id r]) \<union> (a_node_id ` set added - {[]})"
      "distinct (if a_node_id r = [] \<or> a_node_id r \<in> set t then t else t @ [a_node_id r]) \<longrightarrow> distinct t'"
      "distinct (map event_key (es @ [?r])) \<longrightarrow> distinct (map event_key es')" by blast
    have k: "a_node_id ?r = a_node_id r" by simp
    from a(6) have "set t' = set t \<union> (a_node_id ` set (?r # added) - {[]})" by (auto split: if_splits)
    moreover from a(8) new(1) have "distinct (map event_key es) \<longrightarrow> distinct (map event_key es')" by simp
    moreover from a(7) have "distinct t \<longrightarrow> distinct t'" by auto
    ultimately show ?thesis using a(1-5)
      by (intro exI [of _ "?r # added"]) auto
  qed
qed auto

text \<open>A conflict is what stops the rows, and the only thing.\<close>

lemma restore_rows_conflict:
  assumes "distinct (map event_key rows)"
  shows "rfold (restore_row now) rows (es, i, d, t) = archive_conflict
    \<longleftrightarrow> (\<exists>r \<in> set rows. case find (\<lambda>e. event_key e = event_key r) es of None \<Rightarrow> False | Some e \<Rightarrow> \<not> payload_equal e r)"
    and "rfold (restore_row now) rows (es, i, d, t) = Inl e \<Longrightarrow> Inl e = (archive_conflict :: unit res)"
  using assms
proof (induction rows arbitrary: es i d t)
  case (Cons r rows)
  {
    case 1
    show ?case
    proof (cases "find (\<lambda>e. event_key e = event_key r) es")
      case None
      have "find (\<lambda>e. event_key e = event_key s) (es @ [r\<lparr>a_imported_at := now\<rparr>]) = find (\<lambda>e. event_key e = event_key s) es"
        if "s \<in> set rows" for s
        using 1 that by (auto simp: find_append split: option.split)
      with None Cons.IH(1) 1 show ?thesis by (auto simp: restore_row_def archive_conflict_def cong: bex_cong)
    next
      case (Some e)
      with Cons.IH(1) 1 show ?thesis by (auto simp: restore_row_def archive_conflict_def)
    qed
  next
    case 2
    then show ?case using Cons.IH(2)
      by (auto simp: restore_row_def archive_conflict_def split: option.splits if_splits)
  }
qed (auto simp: archive_conflict_def)

section \<open>The daily aggregate\<close>

text \<open>The rows a rebuild makes of the events of a node.\<close>

definition daily_rows_of :: "fleet_db \<Rightarrow> string \<Rightarrow> fleet_daily list res" where
  "daily_rows_of db n = rmap (fleet_daily_group n (node_events db n)) (remdups (map event_group (node_events db n)))"

definition daily_at :: "fleet_db \<Rightarrow> string \<Rightarrow> fleet_daily list" where
  "daily_at db n = filter (\<lambda>y. y_node_id y = n) (fleet_daily_usage db)"

lemma rebuild_rows:
  assumes "rebuild_daily_usage_for_node db nid = Inr db'" "nid \<noteq> []"
  shows "daily_rows_of db nid = Inr (daily_at db' nid)" "n \<noteq> nid \<Longrightarrow> daily_at db' n = daily_at db n"
    "db' = db\<lparr>fleet_daily_usage := fleet_daily_usage db'\<rparr>"
proof -
  from assms obtain rows where rows: "daily_rows_of db nid = Inr rows"
    and u: "fleet_daily_usage db' = filter (\<lambda>y. y_node_id y \<noteq> nid) (fleet_daily_usage db) @ rows"
    by (auto simp: rebuild_daily_usage_for_node_def daily_rows_of_def rbind_eq_Inr Let_def)
  have n: "y_node_id y = nid" if y: "y \<in> set rows" for y
  proof -
    obtain k where "fleet_daily_group nid (node_events db nid) k = Inr y"
      using rmap_Inr_set [OF rows [unfolded daily_rows_of_def] y] by blast
    then show ?thesis by (rule fleet_daily_group_Inr(2))
  qed
  have "filter (\<lambda>y. y_node_id y = nid) rows = rows" using n by (simp add: filter_id_conv)
  with rows u show "daily_rows_of db nid = Inr (daily_at db' nid)" by (simp add: daily_at_def)
  show "daily_at db' n = daily_at db n" if "n \<noteq> nid"
  proof -
    have "filter (\<lambda>y. y_node_id y = n) rows = []" using n that by (auto simp: filter_empty_conv)
    moreover have "filter (\<lambda>y. y_node_id y \<noteq> nid \<and> y_node_id y = n) (fleet_daily_usage db) = filter (\<lambda>y. y_node_id y = n) (fleet_daily_usage db)"
      using that by (auto intro!: filter_cong)
    ultimately show ?thesis using u by (simp add: daily_at_def)
  qed
  show "db' = db\<lparr>fleet_daily_usage := fleet_daily_usage db'\<rparr>" by (rule rebuild_Inr(1) [OF assms(1)])
qed

lemma daily_rows_same: "audit_events db = audit_events db' \<Longrightarrow> daily_rows_of db n = daily_rows_of db' n"
  by (simp add: daily_rows_of_def node_events_def)

lemma rebuild_nodes_Inr:
  assumes "rebuild_nodes ns db = Inr db'" "distinct ns" "[] \<notin> set ns"
  shows "db' = db\<lparr>fleet_daily_usage := fleet_daily_usage db'\<rparr> \<and> (\<forall>n. n \<notin> set ns \<longrightarrow> daily_at db' n = daily_at db n)
    \<and> (\<forall>n \<in> set ns. daily_rows_of db n = Inr (daily_at db' n))"
  using assms
proof (induction ns arbitrary: db)
  case Nil
  then show ?case by (simp add: rebuild_nodes_def)
next
  case (Cons k ns)
  from Cons.prems(1) obtain db1 where one: "rebuild_daily_usage_for_node db k = Inr db1" and rest: "rebuild_nodes ns db1 = Inr db'"
    by (auto simp: rebuild_nodes_def rbind_eq_Inr)
  from Cons.prems have k: "k \<noteq> []" "k \<notin> set ns" by auto
  note r = rebuild_rows [OF one k(1)]
  have e: "audit_events db1 = audit_events db" by (subst r(3)) simp
  from Cons.IH [OF rest] Cons.prems have ih: "db' = db1\<lparr>fleet_daily_usage := fleet_daily_usage db'\<rparr>"
    "\<And>n. n \<notin> set ns \<Longrightarrow> daily_at db' n = daily_at db1 n" "\<And>n. n \<in> set ns \<Longrightarrow> daily_rows_of db1 n = Inr (daily_at db' n)" by auto
  have "db' = db\<lparr>fleet_daily_usage := fleet_daily_usage db'\<rparr>" by (subst ih(1), subst r(3)) simp
  moreover have "daily_at db' n = daily_at db n" if "n \<notin> set (k # ns)" for n
    using ih(2) r(2) that by simp
  moreover have "daily_rows_of db n = Inr (daily_at db' n)" if "n \<in> set (k # ns)" for n
  proof (cases "n = k")
    case True
    with ih(2) [OF k(2)] r(1) show ?thesis by simp
  next
    case False
    with ih(3) that daily_rows_same [OF e] show ?thesis by simp
  qed
  ultimately show ?case by blast
qed

lemma rebuild_same_cursor: "rebuild_nodes ns db = Inr db' \<Longrightarrow> sync_cursor db' = sync_cursor db"
  unfolding rebuild_nodes_def
proof (induction ns arbitrary: db)
  case (Cons n ns)
  then obtain db1 where "rebuild_daily_usage_for_node db n = Inr db1" "rfold (\<lambda>nid db. rebuild_daily_usage_for_node db nid) ns db1 = Inr db'"
    by (auto simp: rbind_eq_Inr)
  then show ?case using Cons.IH rebuild_Inr(1) by (metis fleet_db.select_convs(2) fleet_db.surjective fleet_db.update_convs(3))
qed simp

section \<open>Restore\<close>

lemma cmd_restore_Inr:
  assumes "cmd_audit_archive_restore file fid now db = (db', Inr res)"
  obtains a es touched info where "file = Some (Some a)" "inspect_archive file = Inr info"
    "rfold (restore_row now) (ar_events a) (audit_events db, 0, 0, []) = Inr (es, as_inserted res, as_deduped res, touched)"
    "rebuild_nodes (sort touched) (db\<lparr>audit_events := es\<rparr>) = Inr db'" "as_aggregated res = length touched"
proof -
  from assms have r: "restore_archive_into_cache file fid now db = Inr (db', res)"
    by (auto simp: cmd_audit_archive_restore_def die_def split: sum.splits prod.splits if_splits)
  then obtain info where i: "inspect_archive file = Inr info" by (auto simp: restore_archive_into_cache_def rbind_eq_Inr)
  then obtain a where "file = Some (Some a)"
    by (auto simp: inspect_archive_def verify_audit_archive_def die_def split: option.splits)
  with i r that show thesis
    by (auto simp: restore_archive_into_cache_def rbind_eq_Inr die_def split: if_splits)
qed

text \<open>
  C33: Restoring an audit archive only adds.  Whatever happens the cursors, the instance history and the snapshots of
  the cache stay; if the command fails nothing changed at all.  If it succeeds the events are the old ones with new
  ones after them, keys stay unique, every event of the archive is there with its payload and every new one is from
  the archive, the counts add up, and the daily rows of a node that got an event are those of a rebuild, of every other
  node those before.
\<close>

theorem archive_restore_additive:
  assumes "cmd_audit_archive_restore file fid now db = (db', r)" "distinct (map event_key (audit_events db))"
  shows "sync_cursor db' = sync_cursor db \<and> instance_history db' = instance_history db \<and> node_snapshot db' = node_snapshot db
    \<and> user_snapshot db' = user_snapshot db
    \<and> (case r of Inl e \<Rightarrow> db' = db
      | Inr res \<Rightarrow> \<exists>a added. file = Some (Some a) \<and> audit_events db' = audit_events db @ added
          \<and> distinct (map event_key (audit_events db')) \<and> as_inserted res = length added
          \<and> as_inserted res + as_deduped res = length (ar_events a)
          \<and> (\<forall>x \<in> set (ar_events a). \<exists>e \<in> set (audit_events db'). payload_equal e x)
          \<and> (\<forall>e \<in> set added. \<exists>x \<in> set (ar_events a). payload_equal e x)
          \<and> (\<forall>n. n \<noteq> [] \<longrightarrow> (if n \<in> a_node_id ` set added then daily_rows_of db' n = Inr (daily_at db' n)
                else daily_at db' n = daily_at db n)))"
proof (cases r)
  case (Inl e)
  with assms(1) have "db' = db"
    by (auto simp: cmd_audit_archive_restore_def restore_archive_into_cache_def rbind_eq_Inr die_def split: sum.splits prod.splits if_splits)
  with Inl show ?thesis by simp
next
  case (Inr res)
  with assms(1) have "cmd_audit_archive_restore file fid now db = (db', Inr res)" by simp
  then obtain a es touched info where steps: "file = Some (Some a)"
    "rfold (restore_row now) (ar_events a) (audit_events db, 0, 0, []) = Inr (es, as_inserted res, as_deduped res, touched)"
    "rebuild_nodes (sort touched) (db\<lparr>audit_events := es\<rparr>) = Inr db'" by (rule cmd_restore_Inr)
  from restore_rows_Inr [OF steps(2)] obtain added where ad: "es = audit_events db @ added" "as_inserted res = length added"
    "as_inserted res + as_deduped res = length (ar_events a)" "\<forall>x \<in> set (ar_events a). \<exists>e \<in> set es. payload_equal e x"
    "\<forall>e \<in> set added. \<exists>x \<in> set (ar_events a). payload_equal e x" "set touched = a_node_id ` set added - {[]}" "distinct touched"
    "distinct (map event_key es)" using assms(2) by auto
  from rebuild_nodes_Inr [OF steps(3)] ad(6,7) have rb: "db' = db\<lparr>audit_events := es, fleet_daily_usage := fleet_daily_usage db'\<rparr>"
    "\<forall>n. n \<notin> set touched \<longrightarrow> daily_at db' n = daily_at (db\<lparr>audit_events := es\<rparr>) n"
    "\<forall>n \<in> set touched. daily_rows_of (db\<lparr>audit_events := es\<rparr>) n = Inr (daily_at db' n)" by auto
  have ev: "audit_events db' = es" by (subst rb(1)) simp
  have same: "sync_cursor db' = sync_cursor db" "instance_history db' = instance_history db" "node_snapshot db' = node_snapshot db"
    "user_snapshot db' = user_snapshot db" by (subst rb(1), simp)+
  have daily: "if n \<in> a_node_id ` set added then daily_rows_of db' n = Inr (daily_at db' n) else daily_at db' n = daily_at db n"
    if "n \<noteq> []" for n
  proof (cases "n \<in> set touched")
    case True
    with ad(6) rb(3) daily_rows_same [of db' "db\<lparr>audit_events := es\<rparr>" n] ev show ?thesis by simp
  next
    case False
    with ad(6) that have "n \<notin> a_node_id ` set added" by blast
    moreover from False rb(2) have "daily_at db' n = daily_at db n" by (simp add: daily_at_def)
    ultimately show ?thesis by simp
  qed
  from Inr same ev ad steps(1) daily show ?thesis by auto
qed

section \<open>Round trip\<close>

lemma created_archive:
  assumes "cmd_audit_archive_create reg (Inr src) fid dest q_from q_to created = Inr a"
  obtains f t g where "parse_rfc3339 q_from = Inr f" "parse_rfc3339 q_to = Inr t" "reg = Inr g"
    "ar_events a = map event_values (window_events src f t)" "ar_tables a = ARCHIVE_TABLES"
    "ar_meta a = [(''schema_version'', ARCHIVE_SCHEMA_LABEL), (''fleet_id'', case fid of None \<Rightarrow> [] | Some x \<Rightarrow> x), (''created_at'', created),
       (''time_from'', f), (''time_to'', t)]"
proof -
  from assms obtain f t g where p: "parse_rfc3339 q_from = Inr f" "parse_rfc3339 q_to = Inr t" "reg = Inr g"
    and c: "create_archive dest (case fid of None \<Rightarrow> [] | Some x \<Rightarrow> x) created f t (window_events src f t)
      (attribution_from_events g (window_events src f t)) = Inr a"
    by (auto simp: cmd_audit_archive_create_def rbind_eq_Inr die_def Let_def split: if_splits)
  obtain ns us ins where "attribution_from_events g (window_events src f t) = (ns, us, ins)" by (metis prod_cases3)
  with c that [OF p] show thesis by (auto simp: create_archive_def die_def split: if_splits)
qed

lemma created_verifies:
  assumes "ar_tables a = ARCHIVE_TABLES" "ar_meta a = (''schema_version'', ARCHIVE_SCHEMA_LABEL) # (''fleet_id'', x) # m"
  shows "\<exists>i. inspect_archive (Some (Some a)) = Inr i \<and> ai_fleet_id i = x"
proof -
  have "find (\<lambda>t. t \<notin> set ARCHIVE_TABLES) ARCHIVE_TABLES = None" by (simp add: find_None_iff)
  with assms show ?thesis by (simp add: inspect_archive_def verify_audit_archive_def meta_text_def)
qed

lemma window_keys: "distinct (map event_key (audit_events src)) \<Longrightarrow> distinct (map event_key (window_events src f t))"
  by (simp add: window_events_def distinct_map) (auto simp: inj_on_def)

lemma find_key_unique:
  assumes "distinct (map event_key es)" "e \<in> set es"
  shows "find (\<lambda>x. event_key x = event_key e) es = Some e"
  using assms by (induction es) (auto simp: rev_image_eqI)

lemma all_duplicates:
  assumes "\<forall>r \<in> set rows. \<exists>e. find (\<lambda>x. event_key x = event_key r) es = Some e \<and> payload_equal e r"
  shows "rfold (restore_row now) rows (es, i, d, t) = Inr (es, i, d + length rows, t)"
  using assms by (induction rows arbitrary: d) (auto simp: restore_row_def)

text \<open>
  C34: An archive brings its events back.  An archive made of a cache for a time range restores into the same
  cache without any change, every event counted as a duplicate.  Restored into any other cache, if that
  succeeds, every event of the range is there with its payload, and every event there was there before or is
  one of the range.
\<close>

theorem archive_round_trip:
  assumes "cmd_audit_archive_create reg (Inr src) fid dest q_from q_to created = Inr a" "distinct (map event_key (audit_events src))"
    "parse_rfc3339 q_from = Inr f" "parse_rfc3339 q_to = Inr t"
  shows "cmd_audit_archive_restore (Some (Some a)) fid now src
      = (src, Inr \<lparr>as_inserted = 0, as_deduped = length (window_events src f t), as_aggregated = 0\<rparr>)
    \<and> (\<forall>fid' db db' res. cmd_audit_archive_restore (Some (Some a)) fid' now db = (db', Inr res) \<longrightarrow>
        (\<forall>e \<in> set (audit_events src). event_overlap f t e \<longrightarrow> (\<exists>e' \<in> set (audit_events db'). payload_equal e' e))
        \<and> (\<forall>e' \<in> set (audit_events db'). e' \<in> set (audit_events db)
            \<or> (\<exists>e \<in> set (audit_events src). event_overlap f t e \<and> payload_equal e' e)))"
proof -
  from assms(1) obtain m where ar: "ar_events a = map event_values (window_events src f t)" "ar_tables a = ARCHIVE_TABLES"
    "ar_meta a = (''schema_version'', ARCHIVE_SCHEMA_LABEL) # (''fleet_id'', case fid of None \<Rightarrow> [] | Some x \<Rightarrow> x) # m"
    by (rule created_archive) (use assms(3,4) in auto)
  have w: "set (window_events src f t) = {e \<in> set (audit_events src). event_overlap f t e}" by (simp add: window_events_def)
  from created_verifies [OF ar(2,3)] obtain i where i: "inspect_archive (Some (Some a)) = Inr i"
    "ai_fleet_id i = (case fid of None \<Rightarrow> [] | Some x \<Rightarrow> x)" by blast
  have "\<forall>r \<in> set (ar_events a). \<exists>e. find (\<lambda>x. event_key x = event_key r) (audit_events src) = Some e \<and> payload_equal e r"
    using w find_key_unique [OF assms(2)] by (auto simp: ar(1))
  from all_duplicates [OF this, of now 0 0 "[]"]
  have "rfold (restore_row now) (ar_events a) (audit_events src, 0, 0, []) = Inr (audit_events src, 0, length (window_events src f t), [])"
    by (simp add: ar(1))
  with i have same: "cmd_audit_archive_restore (Some (Some a)) fid now src
      = (src, Inr \<lparr>as_inserted = 0, as_deduped = length (window_events src f t), as_aggregated = 0\<rparr>)"
    by (auto simp: cmd_audit_archive_restore_def restore_archive_into_cache_def rebuild_nodes_def nonempty_def split: option.splits)
  have "(\<forall>e \<in> set (audit_events src). event_overlap f t e \<longrightarrow> (\<exists>e' \<in> set (audit_events db'). payload_equal e' e))
        \<and> (\<forall>e' \<in> set (audit_events db'). e' \<in> set (audit_events db)
            \<or> (\<exists>e \<in> set (audit_events src). event_overlap f t e \<and> payload_equal e' e))"
    if run: "cmd_audit_archive_restore (Some (Some a)) fid' now db = (db', Inr res)" for fid' db db' res
  proof -
    from run obtain es touched where
      r: "rfold (restore_row now) (ar_events a) (audit_events db, 0, 0, []) = Inr (es, as_inserted res, as_deduped res, touched)"
      and b: "rebuild_nodes (sort touched) (db\<lparr>audit_events := es\<rparr>) = Inr db'" by (rule cmd_restore_Inr) auto
    from restore_rows_Inr [OF r] obtain added where ad: "es = audit_events db @ added"
      "\<forall>x \<in> set (ar_events a). \<exists>e \<in> set es. payload_equal e x" "\<forall>e \<in> set added. \<exists>x \<in> set (ar_events a). payload_equal e x"
      "set touched = a_node_id ` set added - {[]}" "distinct touched" by auto
    from rebuild_nodes_Inr [OF b] ad(4,5) have k: "db' = db\<lparr>audit_events := es, fleet_daily_usage := fleet_daily_usage db'\<rparr>" by simp
    have "audit_events db' = es" by (subst k) simp
    with ad(1-3) w ar(1) show ?thesis by auto
  qed
  with same show ?thesis by blast
qed

section \<open>Conflicts\<close>

lemma rmap_Inl: "rmap f xs = Inl e \<Longrightarrow> \<exists>x \<in> set xs. f x = Inl e"
  by (induction xs) (auto simp: rbind_def split: sum.splits)

lemma rebuild_error: "rebuild_daily_usage_for_node db n = Inl e \<Longrightarrow> e = OperationalError"
  by (auto simp: rebuild_daily_usage_for_node_def Let_def rbind_eq_Inl fleet_daily_group_def sum_ints_def
      dest!: rmap_Inl split: if_splits prod.splits)

lemma rebuild_nodes_error: "rebuild_nodes ns db = Inl e \<Longrightarrow> e = OperationalError"
  unfolding rebuild_nodes_def
  by (induction ns arbitrary: db) (auto simp: rbind_def dest: rebuild_error split: sum.splits)

text \<open>
  For a valid archive of the right fleet the restore reports a conflict exactly when the cache has an event of
  some archived key with another payload.
\<close>

theorem archive_conflict_iff:
  assumes "verify_audit_archive (Some (Some a)) = Inr info" "ai_fleet_id info = [] \<or> fid = None \<or> fid = Some (ai_fleet_id info)"
    and "distinct (map event_key (ar_events a))" "distinct (map event_key (audit_events db))"
  shows "snd (cmd_audit_archive_restore (Some (Some a)) fid now db) = die ''ARCHIVE_CONFLICT''
    \<longleftrightarrow> (\<exists>x \<in> set (ar_events a). \<exists>e \<in> set (audit_events db). event_key e = event_key x \<and> \<not> payload_equal e x)"
proof -
  let ?run = "rfold (restore_row now) (ar_events a) (audit_events db, 0, 0, [])"
  have some: "(case find (\<lambda>e. event_key e = event_key x) (audit_events db) of None \<Rightarrow> False | Some e \<Rightarrow> \<not> payload_equal e x)
      \<longleftrightarrow> (\<exists>e \<in> set (audit_events db). event_key e = event_key x \<and> \<not> payload_equal e x)" for x
  proof (cases "find (\<lambda>e. event_key e = event_key x) (audit_events db)")
    case None
    then have "\<forall>e \<in> set (audit_events db). event_key e \<noteq> event_key x" by (auto simp: find_None_iff)
    with None show ?thesis by auto
  next
    case (Some e)
    then have e: "e \<in> set (audit_events db)" "event_key e = event_key x" by (auto simp: find_Some_iff)
    have u: "e' = e" if "e' \<in> set (audit_events db)" "event_key e' = event_key x" for e'
      using find_key_unique [OF assms(4) that(1)] that(2) Some by simp
    show ?thesis unfolding Some option.case using e u by blast
  qed
  note rows = restore_rows_conflict [OF assms(3), of now "audit_events db" 0 0 "[]"]
  let ?tail = "\<lambda>(es, ins, ded, touched). rbind (rebuild_nodes (sort touched) (db\<lparr>audit_events := es\<rparr>)) (\<lambda>db'.
       if sync_cursor_snapshot db' \<noteq> sync_cursor_snapshot db then die ''ARCHIVE_CURSOR_TOUCHED: restore must not change sync_cursor''
       else Inr (db', \<lparr>as_inserted = ins, as_deduped = ded, as_aggregated = length touched\<rparr>))"
  have r: "restore_archive_into_cache (Some (Some a)) fid now db = rbind ?run ?tail"
  proof -
    have "(ai_fleet_id info \<noteq> [] \<and> nonempty fid \<and> fid \<noteq> Some (ai_fleet_id info)) = False" using assms(2) by (auto simp: nonempty_def)
    then show ?thesis unfolding restore_archive_into_cache_def inspect_archive_def assms(1) by (simp only: sum.case rbind_Inr if_False option.case)
  qed
  have tail: "?tail acc \<noteq> archive_conflict \<and> ?tail acc \<noteq> die ''ARCHIVE_CONFLICT''" for acc
  proof (cases acc)
    case (fields es ins ded touched)
    show ?thesis
    proof (cases "rebuild_nodes (sort touched) (db\<lparr>audit_events := es\<rparr>)")
      case (Inl e)
      with rebuild_nodes_error [OF Inl] fields show ?thesis by (simp add: archive_conflict_def die_def)
    next
      case (Inr db')
      with fields show ?thesis by (simp add: archive_conflict_def die_def)
    qed
  qed
  have both: "(restore_archive_into_cache (Some (Some a)) fid now db = archive_conflict \<longleftrightarrow> ?run = archive_conflict)
    \<and> restore_archive_into_cache (Some (Some a)) fid now db \<noteq> die ''ARCHIVE_CONFLICT''"
  proof (cases ?run)
    case (Inl e)
    with rows(2) have "e = RuntimeError ''ARCHIVE_CONFLICT''" by (simp add: archive_conflict_def)
    with Inl r show ?thesis by (simp add: archive_conflict_def die_def)
  next
    case (Inr acc)
    with r tail [of acc] show ?thesis by (simp add: archive_conflict_def)
  qed
  then have "restore_archive_into_cache (Some (Some a)) fid now db = archive_conflict \<longleftrightarrow> ?run = archive_conflict"
    and other: "restore_archive_into_cache (Some (Some a)) fid now db \<noteq> die ''ARCHIVE_CONFLICT''" by auto
  moreover have "snd (cmd_audit_archive_restore (Some (Some a)) fid now db) = die ''ARCHIVE_CONFLICT''
      \<longleftrightarrow> restore_archive_into_cache (Some (Some a)) fid now db = archive_conflict"
  proof (cases "restore_archive_into_cache (Some (Some a)) fid now db")
    case (Inl e)
    with other show ?thesis by (simp add: cmd_audit_archive_restore_def archive_conflict_def die_def)
  next
    case (Inr p)
    then show ?thesis by (cases p) (simp add: cmd_audit_archive_restore_def archive_conflict_def die_def)
  qed
  ultimately show ?thesis unfolding rows(1) some by blast
qed

section \<open>Examples\<close>

definition ex_event :: "int \<Rightarrow> int \<Rightarrow> audit_row" where
  "ex_event i up = \<lparr>a_node_id = ''n1'', a_instance_id = Some ''i1'', a_event_id = i, a_export_seq = Some i, a_connection_id = ''c'',
     a_generation = 1, a_user_id = ''u'', a_user_tag = Some ''ann'', a_started_at = ''2026-07-02T00:00:00Z'',
     a_last_seen_at = ''2026-07-02T00:00:00Z'', a_closed_at = None, a_destination_host = None, a_destination_ip = Some ''1.1.1.1'',
     a_destination_port = None, a_network = None, a_upload_bytes = up, a_download_bytes = 2, a_imported_at = ''t''\<rparr>"

definition ex_source :: fleet_db where
  "ex_source = \<lparr>audit_events = [ex_event 1 5, ex_event 2 6], sync_cursor = [], fleet_daily_usage = [], instance_history = [],
     node_snapshot = [], user_snapshot = []\<rparr>"

definition ex_archive :: archive where
  "ex_archive = \<lparr>ar_tables = ARCHIVE_TABLES,
     ar_meta = [(''schema_version'', ARCHIVE_SCHEMA_LABEL), (''fleet_id'', ''F''), (''created_at'', ''t''),
       (''time_from'', ''2026-07-01T00:00:00Z''), (''time_to'', ''2026-07-03T00:00:00Z'')],
     ar_events = [event_values (ex_event 1 5), event_values (ex_event 2 6)],
     ar_nodes = [\<lparr>na_node_id = ''n1'', na_name = None, na_instance_id = Some ''i1''\<rparr>],
     ar_users = [\<lparr>ua_node_id = ''n1'', ua_user_id = ''u'', ua_tag = Some ''ann''\<rparr>],
     ar_instances = [\<lparr>ia_node_id = ''n1'', ia_instance_id = ''i1'', ia_first_seen_at = ''2026-07-02T00:00:00Z'',
       ia_last_seen_at = ''2026-07-02T00:00:00Z''\<rparr>]\<rparr>"

definition ex_empty :: fleet_db where
  "ex_empty = ex_source\<lparr>audit_events := []\<rparr>"

lemma ex_archived: "cmd_audit_archive_create (Inr empty_registry) (Inr ex_source) (Some ''F'') None ''2026-07-01T00:00:00Z'' ''2026-07-03T00:00:00Z'' ''t'' = Inr ex_archive"
  by code_simp

lemma ex_dates: "parse_rfc3339 ''2026-07-01T00:00:00Z'' = Inr ''2026-07-01T00:00:00Z''" "parse_rfc3339 ''2026-07-03T00:00:00Z'' = Inr ''2026-07-03T00:00:00Z''"
  by code_simp+

lemma ex_restored: "case cmd_audit_archive_restore (Some (Some ex_archive)) (Some ''F'') ''now'' ex_empty of (db, r) \<Rightarrow>
    (case r of Inl e \<Rightarrow> False | Inr res \<Rightarrow> as_inserted res = 2 \<and> as_aggregated res = 1)"
  by code_simp

lemma ex_source_keys: "distinct (map event_key (audit_events ex_source))" "distinct (map event_key (audit_events ex_empty))"
  by code_simp+

theorem archive_restore_additive_witness:
  "\<exists>db res added. cmd_audit_archive_restore (Some (Some ex_archive)) (Some ''F'') ''now'' ex_empty = (db, Inr res)
     \<and> as_inserted res = 2 \<and> sync_cursor db = sync_cursor ex_empty \<and> audit_events db = audit_events ex_empty @ added \<and> length added = 2"
proof -
  obtain db res where r: "cmd_audit_archive_restore (Some (Some ex_archive)) (Some ''F'') ''now'' ex_empty = (db, Inr res)" "as_inserted res = 2"
    using ex_restored by (auto split: prod.splits sum.splits)
  from archive_restore_additive [OF r(1) ex_source_keys(2)] r show ?thesis by fastforce
qed

theorem archive_round_trip_witness:
  "\<exists>db res. cmd_audit_archive_restore (Some (Some ex_archive)) (Some ''F'') ''now'' ex_empty = (db, Inr res)
     \<and> (\<exists>e \<in> set (audit_events db). payload_equal e (ex_event 1 5))"
proof -
  obtain db res where r: "cmd_audit_archive_restore (Some (Some ex_archive)) (Some ''F'') ''now'' ex_empty = (db, Inr res)"
    using ex_restored by (auto split: prod.splits sum.splits)
  have "ex_event 1 5 \<in> set (audit_events ex_source)" by (simp add: ex_source_def)
  moreover have "event_overlap ''2026-07-01T00:00:00Z'' ''2026-07-03T00:00:00Z'' (ex_event 1 5)" by code_simp
  ultimately show ?thesis using archive_round_trip [OF ex_archived ex_source_keys(1) ex_dates, of "''now''"] r by blast
qed

theorem archive_conflict_iff_witness:
  "snd (cmd_audit_archive_restore (Some (Some ex_archive)) (Some ''F'') ''now'' (ex_source\<lparr>audit_events := [ex_event 2 7]\<rparr>)) = die ''ARCHIVE_CONFLICT''"
proof -
  obtain info where i: "verify_audit_archive (Some (Some ex_archive)) = Inr info" "ai_fleet_id info = ''F''"
    by (simp add: verify_audit_archive_def ex_archive_def ARCHIVE_TABLES_def meta_text_def)
  have d: "distinct (map event_key (ar_events ex_archive))" "distinct (map event_key (audit_events (ex_source\<lparr>audit_events := [ex_event 2 7]\<rparr>)))"
    by code_simp+
  have c: "event_key (ex_event 2 7) = event_key (event_values (ex_event 2 6)) \<and> \<not> payload_equal (ex_event 2 7) (event_values (ex_event 2 6))"
    by (simp add: ex_event_def event_key_def payload_equal_def event_values_def)
  have "event_values (ex_event 2 6) \<in> set (ar_events ex_archive)" by (simp add: ex_archive_def)
  moreover have "ex_event 2 7 \<in> set (audit_events (ex_source\<lparr>audit_events := [ex_event 2 7]\<rparr>))" by simp
  ultimately have "\<exists>x \<in> set (ar_events ex_archive). \<exists>e \<in> set (audit_events (ex_source\<lparr>audit_events := [ex_event 2 7]\<rparr>)).
      event_key e = event_key x \<and> \<not> payload_equal e x" using c by blast
  with archive_conflict_iff [OF i(1) _ d, of "Some ''F''" "''now''"] i(2) show ?thesis by simp
qed

end
