(* ===== verification/LegacySeed.thy ===== *)
theory LegacySeed
  imports Access "HOL-Library.Word"
begin

text \<open>
  The legacy seed of a node (\<open>lib/legacy_seed.py\<close>): the key pair of Reality (X25519 in Python integers,
  URL-safe base64), the files that hold the secrets, the VLESS URI and what is accepted of them.

  \<open>urlparse\<close>, \<open>parse_qsl\<close>, \<open>unquote\<close> and \<open>base64\<close> of the standard library are written out as far as the
  code uses them (\<open>urlparse\<close> with the check of bracketed hosts of CPython 3.11.4).  Percent escapes that
  decode to a character above 255 are outside of the model (\<open>Unsupported\<close>).
\<close>

unbundle bit_operations_syntax

section \<open>Errors\<close>

datatype seed_exc = LegacySeedError string | OtherError exc

type_synonym 'a seed_res = "seed_exc + 'a"

definition refuse :: "string \<Rightarrow> 'a seed_res" where
  "refuse m = Inl (LegacySeedError m)"

definition NL :: char where
  "NL = char_of (10 :: nat)"

section \<open>URL-safe base64\<close>

type_synonym byte = "8 word"

definition b64_digit :: "nat \<Rightarrow> char" where
  "b64_digit v = (if v < 26 then char_of (65 + v) else if v < 52 then char_of (97 + (v - 26))
     else if v < 62 then char_of (48 + (v - 52)) else if v = 62 then CHR ''-'' else CHR ''_'')"

text \<open>The decoder knows both alphabets.\<close>

definition b64_value :: "char \<Rightarrow> nat option" where
  "b64_value c = (if is_upper c then Some (code c - 65) else if is_lower c then Some (code c - 97 + 26)
     else if is_digit c then Some (code c - 48 + 52) else if c = CHR ''-'' \<or> c = CHR ''+'' then Some 62
     else if c = CHR ''_'' \<or> c = CHR ''/'' then Some 63 else None)"

text \<open>
  \<open>binascii.a2b_base64\<close> as \<open>b64decode\<close> calls it: characters outside of the alphabet are skipped, padding
  that completes a group ends the data.  The state is the position in the group, the bits left over
  and the padding seen.
\<close>

fun a2b :: "nat \<Rightarrow> nat \<Rightarrow> nat \<Rightarrow> string \<Rightarrow> byte list option" where
  "a2b q left pads [] = (if q = 0 then Some [] else None)"
| "a2b q left pads (c # s) =
     (if c = CHR ''='' then
        (if 2 \<le> q then (if 4 \<le> q + Suc pads then Some [] else a2b q left (Suc pads) s) else a2b q left pads s)
      else (case b64_value c of
          None \<Rightarrow> a2b q left pads s
        | Some v \<Rightarrow>
            if q = 0 then a2b 1 v 0 s
            else if q = 1 then map_option ((#) (of_nat (left * 4 + v div 16))) (a2b 2 (v mod 16) 0 s)
            else if q = 2 then map_option ((#) (of_nat (left * 16 + v div 4))) (a2b 3 (v mod 4) 0 s)
            else map_option ((#) (of_nat (left * 64 + v))) (a2b 0 0 0 s)))"

definition b64url_decode_32 :: "string \<Rightarrow> byte list seed_res" where
  "b64url_decode_32 raw =
     (let s = strip raw; t = s @ replicate ((4 - length s mod 4) mod 4) CHR ''='' in
      if list_ex (\<lambda>c. 128 \<le> code c) t then refuse ''invalid Reality key encoding''
      else (case a2b 0 0 0 t of
          None \<Rightarrow> refuse ''invalid Reality key encoding''
        | Some d \<Rightarrow> if length d \<noteq> 32 then refuse ''invalid Reality key length'' else Inr d))"

fun b2a :: "byte list \<Rightarrow> string" where
  "b2a [] = []"
| "b2a [a] = [b64_digit (unat a div 4), b64_digit (unat a mod 4 * 16), CHR ''='', CHR ''='']"
| "b2a [a, b] = [b64_digit (unat a div 4), b64_digit (unat a mod 4 * 16 + unat b div 16),
     b64_digit (unat b mod 16 * 4), CHR ''='']"
| "b2a (a # b # c # s) = b64_digit (unat a div 4) # b64_digit (unat a mod 4 * 16 + unat b div 16)
     # b64_digit (unat b mod 16 * 4 + unat c div 64) # b64_digit (unat c mod 64) # b2a s"

definition b64url_encode_32 :: "byte list \<Rightarrow> string" where
  "b64url_encode_32 data = rstrip_char CHR ''='' (b2a data)"

section \<open>X25519\<close>

definition P25519 :: int where
  "P25519 = 2 ^ 255 - 19"

definition A24 :: int where
  "A24 = 121665"

fun le_nat :: "byte list \<Rightarrow> nat" where
  "le_nat [] = 0"
| "le_nat (b # bs) = unat b + 256 * le_nat bs"

fun le_bytes :: "nat \<Rightarrow> nat \<Rightarrow> byte list" where
  "le_bytes 0 n = []"
| "le_bytes (Suc k) n = of_nat (n mod 256) # le_bytes k (n div 256)"

text \<open>\<open>pow(b, e, m)\<close>.\<close>

fun pow_mod :: "int \<Rightarrow> nat \<Rightarrow> int \<Rightarrow> int" where
  "pow_mod b e m = (if e = 0 then 1 mod m
     else let h = pow_mod (b * b mod m) (e div 2) m in if even e then h else b * h mod m)"

declare pow_mod.simps [simp del]

definition clamp :: "byte list \<Rightarrow> byte list" where
  "clamp k = (let k = k[0 := k ! 0 AND 248]; k = k[31 := k ! 31 AND 127] in k[31 := k ! 31 OR 64])"

text \<open>The registers of the loop: \<open>x2, z2, x3, z3\<close> and whether a swap is pending.\<close>

type_synonym ladder = "int \<times> int \<times> int \<times> int \<times> bool"

definition ladder_round :: "nat \<Rightarrow> nat \<Rightarrow> ladder \<Rightarrow> ladder" where
  "ladder_round n t s = (case s of (x2, z2, x3, z3, swap) \<Rightarrow>
     (let kt = bit n t;
          swap = (swap \<noteq> kt);
          (x2, x3) = (if swap then (x3, x2) else (x2, x3));
          (z2, z3) = (if swap then (z3, z2) else (z2, z3));
          a = (x2 + z2) mod P25519;
          aa = (a * a) mod P25519;
          b = (x2 - z2) mod P25519;
          bb = (b * b) mod P25519;
          e = (aa - bb) mod P25519;
          c = (x3 + z3) mod P25519;
          d = (x3 - z3) mod P25519;
          da = (d * a) mod P25519;
          cb = (c * b) mod P25519
      in ((aa * bb) mod P25519, (e * ((aa + (A24 * e) mod P25519) mod P25519)) mod P25519,
          ((da + cb) mod P25519)\<^sup>2 mod P25519, (9 * (((da - cb) mod P25519)\<^sup>2 mod P25519)) mod P25519, kt)))"

definition ladder_result :: "ladder \<Rightarrow> int \<times> int" where
  "ladder_result s = (case s of (x2, z2, x3, z3, swap) \<Rightarrow> if swap then (x3, z3) else (x2, z2))"

definition x25519_scalarmult_base :: "byte list \<Rightarrow> byte list seed_res" where
  "x25519_scalarmult_base private =
     (if length private \<noteq> 32 then refuse ''invalid Reality private key length''
      else (let n = le_nat (clamp private);
                (x2, z2) = ladder_result (fold (ladder_round n) (rev [0..<255]) (1, 0, 9, 1, False));
                inv_z = pow_mod z2 (nat (P25519 - 2)) P25519
            in Inr (le_bytes 32 (nat ((x2 * inv_z) mod P25519)))))"

definition derive_reality_public_key :: "string \<Rightarrow> string seed_res" where
  "derive_reality_public_key private_key =
     rbind (b64url_decode_32 private_key) (\<lambda>priv.
     rbind (x25519_scalarmult_base priv) (\<lambda>pub. Inr (b64url_encode_32 pub)))"

section \<open>Recognisers\<close>

text \<open>In a Python pattern the final \<open>$\<close> also matches before a last newline.\<close>

definition before_newline :: "string \<Rightarrow> string" where
  "before_newline s = (if s \<noteq> [] \<and> last s = NL then butlast s else s)"

definition uuid_re :: "string \<Rightarrow> bool" where
  "uuid_re s = uuid_ok (lower (before_newline s))"

definition short_id_re :: "string \<Rightarrow> bool" where
  "short_id_re s = (let t = before_newline s in length t \<le> 16 \<and> list_all is_hex t)"

definition key_char :: "char \<Rightarrow> bool" where
  "key_char c = (alnum c \<or> c = CHR ''_'' \<or> c = CHR ''-'')"

definition reality_key_re :: "string \<Rightarrow> bool" where
  "reality_key_re s = (let t = before_newline s; n = length (takeWhile key_char t) in
     (n = 43 \<or> n = 44) \<and> dropWhile key_char t \<in> {[], ''='', ''==''})"

text \<open>At least two labels; a text with a newline is refused before.\<close>

definition dns_name_re :: "string \<Rightarrow> bool" where
  "dns_name_re v = (let ls = split_on CHR ''.'' v in length v \<le> 253 \<and> 2 \<le> length ls \<and> list_all label_re ls)"

definition COMPAT_FP :: "string list" where
  "COMPAT_FP = [[], ''chrome'', ''chrome_auto'', ''randomized'']"

definition CRITICAL_QS_KEYS :: "string list" where
  "CRITICAL_QS_KEYS = [''encryption'', ''flow'', ''security'', ''type'', ''sni'', ''fp'', ''pbk'', ''sid'']"

definition seed_user_tag :: "string \<Rightarrow> string seed_res" where
  "seed_user_tag tag = (let t = strip tag in
     if has_ascii_control t then refuse ''invalid legacy user tag''
     else if \<not> name_ok t then refuse ''invalid legacy user tag''
     else if t = ''owner'' then refuse ''legacy user tag must not be owner''
     else Inr t)"

definition validate_server_host :: "string \<Rightarrow> bool" where
  "validate_server_host value = (let v = strip value in
     if v = [] \<or> list_ex (\<lambda>c. code c < 32) v then False
     else if CHR '':'' \<in> set v then is_ipv6 v
     else if list_all (\<lambda>c. is_digit c \<or> c = CHR ''.'') v then is_ipv4 v
     else if CHR ''.'' \<notin> set v \<or> contains ''..'' v then False
     else dns_name_re v)"

definition validate_sni_host :: "string \<Rightarrow> bool" where
  "validate_sni_host value = (let v = strip value in
     if v = [] \<or> list_ex (\<lambda>c. code c < 32) v then False
     else if CHR ''.'' \<notin> set v \<or> contains ''..'' v then False
     else dns_name_re v)"

section \<open>Secret files\<close>

datatype file_kind = Symlink | RegularFile | OtherFile

record file_stat =
  fs_kind :: file_kind
  fs_uid :: int
  fs_mode :: nat

datatype file_text = Unreadable | NotUtf8 | FileText string

text \<open>\<open>sd_euid\<close> is \<open>None\<close> where the system has no user ids.\<close>

record seed_env =
  sd_lstat :: "string \<Rightarrow> file_stat option"
  sd_resolve :: "string \<Rightarrow> string option"
  sd_read :: "string \<Rightarrow> file_text"
  sd_euid :: "int option"
  sd_sudo_uid :: "string option"

text \<open>\<open>str.isdigit\<close> holds for the superscripts, which \<open>int\<close> refuses.\<close>

definition isdigit :: "string \<Rightarrow> bool" where
  "isdigit s = (s \<noteq> [] \<and> list_all (\<lambda>c. is_digit c \<or> code c \<in> {178, 179, 185}) s)"

definition allowed_secret_owners :: "seed_env \<Rightarrow> int list seed_res" where
  "allowed_secret_owners env = (case sd_euid env of
     None \<Rightarrow> Inr []
   | Some euid \<Rightarrow>
       (let raw = strip (case sd_sudo_uid env of None \<Rightarrow> [] | Some t \<Rightarrow> t) in
        if euid = 0 \<and> isdigit raw
        then (case int_of_text raw of None \<Rightarrow> Inl (OtherError (ValueError ''invalid literal for int()'')) | Some u \<Rightarrow> Inr [euid, u])
        else Inr [euid]))"

definition validate_secret_file :: "seed_env \<Rightarrow> string \<Rightarrow> string \<Rightarrow> string seed_res" where
  "validate_secret_file env path label =
     (case sd_lstat env path of
        None \<Rightarrow> refuse (label @ '': cannot stat'')
      | Some st \<Rightarrow>
          if fs_kind st = Symlink then refuse (label @ '': symlink refused'')
          else if fs_kind st \<noteq> RegularFile then refuse (label @ '': not a regular file'')
          else rbind (if sd_euid env = None then Inr ()
                 else rbind (allowed_secret_owners env) (\<lambda>owners.
                   if fs_uid st \<notin> set owners then refuse (label @ '': not owned by current user'')
                   else if fs_mode st AND 63 \<noteq> 0 then refuse (label @ '': group/world readable refused'')
                   else Inr ())) (\<lambda>_.
               case sd_resolve env path of
                 None \<Rightarrow> Inl (OtherError (RuntimeError ''OSError''))
               | Some p \<Rightarrow> Inr p))"

definition stripped_lines :: "string \<Rightarrow> string list" where
  "stripped_lines text = filter (\<lambda>l. l \<noteq> []) (map strip (splitlines text))"

definition read_file :: "seed_env \<Rightarrow> string \<Rightarrow> string seed_res" where
  "read_file env path = (case sd_read env path of
     Unreadable \<Rightarrow> refuse ''cannot read file''
   | NotUtf8 \<Rightarrow> refuse ''file is not valid UTF-8''
   | FileText t \<Rightarrow> Inr t)"

definition read_uri_file_single_line :: "seed_env \<Rightarrow> string \<Rightarrow> string seed_res" where
  "read_uri_file_single_line env path = rbind (read_file env path) (\<lambda>text.
     case stripped_lines text of
       [] \<Rightarrow> refuse ''file is empty''
     | [l] \<Rightarrow> Inr l
     | _ \<Rightarrow> refuse ''URI file must contain exactly one URI'')"

definition read_single_key_line :: "seed_env \<Rightarrow> string \<Rightarrow> string seed_res" where
  "read_single_key_line env path = rbind (read_file env path) (\<lambda>text.
     case stripped_lines text of
       [] \<Rightarrow> refuse ''private key file is empty''
     | [key] \<Rightarrow> if reality_key_re key then Inr key else refuse ''invalid Reality private key format''
     | _ \<Rightarrow> refuse ''private key file must contain exactly one key'')"

section \<open>The URI\<close>

text \<open>\<open>str.partition\<close> and \<open>str.rpartition\<close>: the text before, whether the separator is there, the text after.\<close>

definition partition_at :: "char \<Rightarrow> string \<Rightarrow> string \<times> bool \<times> string" where
  "partition_at d s = (takeWhile (\<lambda>c. c \<noteq> d) s, d \<in> set s, drop 1 (dropWhile (\<lambda>c. c \<noteq> d) s))"

definition rpartition_at :: "char \<Rightarrow> string \<Rightarrow> string \<times> bool \<times> string" where
  "rpartition_at d s = (if d \<in> set s then (fst (rsplit1 d s), True, snd (rsplit1 d s)) else ([], False, s))"

definition hex_val :: "char \<Rightarrow> nat option" where
  "hex_val c = (if is_digit c then Some (code c - 48) else if 97 \<le> code c \<and> code c \<le> 102 then Some (code c - 87)
     else if 65 \<le> code c \<and> code c \<le> 70 then Some (code c - 55) else None)"

text \<open>The byte of an escape at the start of the text, and the rest.\<close>

fun escape :: "string \<Rightarrow> (nat \<times> string) option" where
  "escape (p # a # b # s) = (if p \<noteq> CHR ''%'' then None
     else case (hex_val a, hex_val b) of (Some x, Some y) \<Rightarrow> Some (16 * x + y, s) | _ \<Rightarrow> None)"
| "escape _ = None"

lemma escape_length: "escape s = Some (v, r) \<Longrightarrow> length r < length s"
  by (induction s rule: escape.induct) (auto split: option.splits if_splits)

text \<open>\<open>unquote\<close>; \<open>None\<close> when the text has a character above 255.\<close>

function (sequential) unquote :: "string \<Rightarrow> string option" where
  "unquote [] = Some []"
| "unquote (c # s) = (case escape (c # s) of
     None \<Rightarrow> map_option ((#) c) (unquote s)
   | Some (v, r) \<Rightarrow>
       if v < 128 then map_option ((#) (char_of v)) (unquote r)
       else if v = 194 \<or> v = 195 then
         (case escape r of
            Some (w, r') \<Rightarrow> if 128 \<le> w \<and> w < 192 then map_option ((#) (char_of ((v - 192) * 64 + (w - 128)))) (unquote r') else None
          | None \<Rightarrow> None)
       else None)"
  by pat_completeness auto
termination by (relation "measure length") (auto dest!: escape_length)

definition unquoted :: "string \<Rightarrow> string seed_res" where
  "unquoted s = (case unquote s of None \<Rightarrow> Inl (OtherError Unsupported) | Some t \<Rightarrow> Inr t)"

text \<open>\<open>parse_qsl(query, keep_blank_values=True)\<close>.\<close>

definition plus_to_space :: "string \<Rightarrow> string" where
  "plus_to_space s = map (\<lambda>c. if c = CHR ''+'' then CHR '' '' else c) s"

definition qs_pair :: "string \<Rightarrow> (string \<times> string) seed_res" where
  "qs_pair nv = (case partition_at CHR ''='' nv of (name, _, val) \<Rightarrow>
     rbind (unquoted (plus_to_space name)) (\<lambda>n. rbind (unquoted (plus_to_space val)) (\<lambda>v. Inr (n, v))))"

definition parse_qsl :: "string \<Rightarrow> (string \<times> string) list seed_res" where
  "parse_qsl query = rmap qs_pair (filter (\<lambda>nv. nv \<noteq> []) (split_on CHR ''&'' query))"

definition see_parameter :: "string \<times> string \<Rightarrow> (string \<times> string) list \<Rightarrow> (string \<times> string) list seed_res" where
  "see_parameter kv seen = (let k = lower (fst kv) in
     if map_of seen k = None then Inr (seen @ [(k, snd kv)])
     else if k \<in> set CRITICAL_QS_KEYS then refuse (''duplicate query parameter: '' @ k)
     else Inr seen)"

definition parse_query_no_dup :: "string \<Rightarrow> (string \<times> string) list seed_res" where
  "parse_query_no_dup query = rbind (parse_qsl query) (\<lambda>ps. rfold see_parameter ps [])"

text \<open>
  \<open>urlparse\<close> of a text that starts with \<open>vless://\<close> in any case: tabs and newlines are dropped, the authority
  ends at the first of \<open>/?#\<close>, then the fragment and the query are split off.
\<close>

record url_parts =
  up_netloc :: string
  up_path :: string
  up_query :: string

definition bracketed_ok :: "string \<Rightarrow> bool" where
  "bracketed_ok host =
     (if starts_with ''v'' host
      then (let r = drop 1 host; hex = takeWhile is_hex r; t = dropWhile is_hex r
            in hex \<noteq> [] \<and> starts_with ''.'' t \<and> 2 \<le> length t)
      else is_ipv6 host)"

definition netloc_ok :: "string \<Rightarrow> bool" where
  "netloc_ok n = (let opens = CHR ''['' \<in> set n; closes = CHR '']'' \<in> set n in
     opens = closes \<and> (opens \<longrightarrow> bracketed_ok (fst (partition_at CHR '']'' (snd (snd (partition_at CHR ''['' n)))))))"

definition urlparse_vless :: "string \<Rightarrow> url_parts option" where
  "urlparse_vless raw =
     (let url = drop 8 (filter (\<lambda>c. code c \<notin> {9, 10, 13}) raw);
          netloc = takeWhile (\<lambda>c. c \<notin> set ''/?#'') url;
          rest = fst (partition_at CHR ''#'' (dropWhile (\<lambda>c. c \<notin> set ''/?#'') url))
      in case partition_at CHR ''?'' rest of (path, _, query) \<Rightarrow>
        if netloc_ok netloc then Some \<lparr>up_netloc = netloc, up_path = path, up_query = query\<rparr> else None)"

definition url_username :: "string \<Rightarrow> string" where
  "url_username netloc = (case rpartition_at CHR ''@'' netloc of (userinfo, _, _) \<Rightarrow> fst (partition_at CHR '':'' userinfo))"

definition url_has_password :: "string \<Rightarrow> bool" where
  "url_has_password netloc = (case rpartition_at CHR ''@'' netloc of (userinfo, _, _) \<Rightarrow> CHR '':'' \<in> set userinfo)"

definition url_hostinfo :: "string \<Rightarrow> string \<times> string" where
  "url_hostinfo netloc = (case rpartition_at CHR ''@'' netloc of (_, _, hostinfo) \<Rightarrow>
     (case partition_at CHR ''['' hostinfo of (_, opened, bracketed) \<Rightarrow>
        if opened then (case partition_at CHR '']'' bracketed of (h, _, p) \<Rightarrow> (h, snd (snd (partition_at CHR '':'' p))))
        else (case partition_at CHR '':'' hostinfo of (h, _, p) \<Rightarrow> (h, p))))"

definition url_hostname :: "string \<Rightarrow> string" where
  "url_hostname netloc = (case partition_at CHR ''%'' (fst (url_hostinfo netloc)) of
     (h, percent, zone) \<Rightarrow> lower h @ (if percent then ''%'' else []) @ zone)"

text \<open>No port is \<open>None\<close>; the outer option is the \<open>ValueError\<close> of a bad one.\<close>

definition url_port :: "string \<Rightarrow> nat option option" where
  "url_port netloc = (let p = snd (url_hostinfo netloc) in
     if p = [] then Some None
     else if \<not> list_all is_digit p then None
     else (case digits_value 0 False p of None \<Rightarrow> None | Some n \<Rightarrow> if n \<le> 65535 then Some (Some n) else None))"

record vless_fields =
  vf_uuid :: string
  vf_server :: string
  vf_port :: nat
  vf_sni :: string
  vf_public_key :: string
  vf_short_id :: string
  vf_fingerprint :: string

definition query_text :: "(string \<times> string) list \<Rightarrow> string \<Rightarrow> string \<Rightarrow> string" where
  "query_text qs k d = (case map_of qs k of None \<Rightarrow> d | Some [] \<Rightarrow> d | Some v \<Rightarrow> v)"

text \<open>The parameters, then the authority and the whole URI, each check in its order.\<close>

definition check_parameters :: "(string \<times> string) list \<Rightarrow> unit seed_res" where
  "check_parameters qs =
     (if lower (query_text qs ''encryption'' ''none'') \<noteq> ''none'' then refuse ''encryption must be none''
      else if query_text qs ''flow'' [] \<noteq> ''xtls-rprx-vision'' then refuse ''incompatible flow''
      else if lower (query_text qs ''security'' []) \<noteq> ''reality'' then refuse ''security must be reality''
      else if lower (query_text qs ''type'' ''tcp'') \<noteq> ''tcp'' then refuse ''transport must be tcp''
      else if query_text qs ''sni'' [] = [] then refuse ''missing sni''
      else if \<not> validate_sni_host (query_text qs ''sni'' []) then refuse ''invalid sni''
      else if query_text qs ''pbk'' [] = [] then refuse ''missing pbk''
      else if \<not> reality_key_re (query_text qs ''pbk'' []) then refuse ''invalid pbk''
      else if \<not> short_id_re (query_text qs ''sid'' []) then refuse ''invalid short ID''
      else if lower (query_text qs ''fp'' []) \<notin> set COMPAT_FP then refuse ''incompatible Reality fingerprint''
      else Inr ())"

definition parse_authority :: "url_parts \<Rightarrow> (string \<times> string \<times> nat) seed_res" where
  "parse_authority u =
     (if url_has_password (up_netloc u) then refuse ''URI userinfo must not include a password''
      else if up_path u \<noteq> [] \<and> up_path u \<noteq> ''/'' then refuse ''URI must not include a path''
      else rbind (unquoted (url_username (up_netloc u))) (\<lambda>uuid.
        if \<not> uuid_re uuid then refuse ''invalid UUID''
        else if fst (url_hostinfo (up_netloc u)) = [] then refuse ''missing server host''
        else if \<not> validate_server_host (url_hostname (up_netloc u)) then refuse ''invalid server host''
        else (case url_port (up_netloc u) of
            None \<Rightarrow> refuse ''invalid port''
          | Some None \<Rightarrow> refuse ''missing port''
          | Some (Some port) \<Rightarrow>
              if port < 1 then refuse ''invalid port'' else Inr (uuid, url_hostname (up_netloc u), port))))"

definition parse_legacy_vless_uri :: "string \<Rightarrow> vless_fields seed_res" where
  "parse_legacy_vless_uri uri =
     (let raw = strip uri in
      if NL \<in> set raw \<or> char_of (13 :: nat) \<in> set raw then refuse ''URI must be a single line''
      else if \<not> starts_with ''vless://'' (lower raw) then refuse ''scheme must be vless''
      else (case urlparse_vless raw of
          None \<Rightarrow> refuse ''invalid URI''
        | Some u \<Rightarrow>
            rbind (parse_authority u) (\<lambda>(uuid, server, port).
            rbind (parse_query_no_dup (up_query u)) (\<lambda>qs.
            rbind (check_parameters qs) (\<lambda>_.
            let fp = lower (query_text qs ''fp'' []) in
            Inr \<lparr>vf_uuid = lower uuid, vf_server = server, vf_port = port, vf_sni = query_text qs ''sni'' [],
              vf_public_key = query_text qs ''pbk'' [], vf_short_id = lower (query_text qs ''sid'' []),
              vf_fingerprint = (if fp = [] then ''chrome'' else fp)\<rparr>)))))"

section \<open>The seed\<close>

record legacy_seed =
  ls_uri_path :: string
  ls_key_path :: string
  ls_tag :: string
  ls_fields :: vless_fields
  ls_private_key :: string

definition load_legacy_seed ::
    "seed_env \<Rightarrow> string \<Rightarrow> string \<Rightarrow> string \<Rightarrow> string option \<Rightarrow> nat option \<Rightarrow> bool \<Rightarrow> legacy_seed seed_res" where
  "load_legacy_seed env uri_file key_file user_tag advertised install_port require_advertised =
     rbind (seed_user_tag user_tag) (\<lambda>tag.
     rbind (validate_secret_file env uri_file ''legacy URI file'') (\<lambda>uri_path.
     rbind (validate_secret_file env key_file ''legacy Reality private key file'') (\<lambda>key_path.
     rbind (read_uri_file_single_line env uri_path) (\<lambda>uri_line.
     rbind (read_single_key_line env key_path) (\<lambda>private_key.
     rbind (parse_legacy_vless_uri uri_line) (\<lambda>v.
     rbind (derive_reality_public_key private_key) (\<lambda>derived.
     if derived \<noteq> vf_public_key v then refuse ''Reality private key does not match URI pbk''
     else (let adv = strip (case advertised of None \<Rightarrow> [] | Some a \<Rightarrow> a) in
       if require_advertised \<and> adv = [] then refuse ''advertised server required for legacy seed''
       else if adv \<noteq> [] \<and> lower (vf_server v) \<noteq> lower adv \<and> vf_server v \<noteq> adv then refuse ''URI authority must match --server''
       else if (case install_port of None \<Rightarrow> False | Some p \<Rightarrow> vf_port v \<noteq> p) then refuse ''URI port must match install port''
       else Inr \<lparr>ls_uri_path = uri_path, ls_key_path = key_path, ls_tag = tag, ls_fields = v,
         ls_private_key = private_key\<rparr>))))))))"

section \<open>The installer's entry\<close>

definition seed_lines :: "legacy_seed \<Rightarrow> string list" where
  "seed_lines s = (let v = ls_fields s in
     [''UUID='' @ vf_uuid v, ''SERVER='' @ vf_server v, ''PORT='' @ nat_text (vf_port v), ''SNI='' @ vf_sni v,
      ''PBK='' @ vf_public_key v, ''SID='' @ vf_short_id v, ''FP='' @ vf_fingerprint v,
      ''PRIVATE_KEY='' @ ls_private_key s, ''PUBLIC_KEY='' @ vf_public_key v, ''TAG='' @ ls_tag s])"

text \<open>The exit code and the standard output; an error that is not the code's own is raised.\<close>

definition cli_validate_seed ::
    "seed_env \<Rightarrow> string \<Rightarrow> string \<Rightarrow> string \<Rightarrow> string \<Rightarrow> nat \<Rightarrow> (int \<times> string) res" where
  "cli_validate_seed env uri_file key_file tag server port =
     (case load_legacy_seed env uri_file key_file tag (text_or_none (strip server)) (Some port) False of
        Inl (LegacySeedError _) \<Rightarrow> Inr (1, [])
      | Inl (OtherError e) \<Rightarrow> Inl e
      | Inr s \<Rightarrow> Inr (0, join [NL] (seed_lines s) @ [NL]))"

end
