(* ===== verification/LegacySeedProps.thy ===== *)
theory LegacySeedProps
  imports LegacySeed
begin

text \<open>
  The ladder of \<open>_x25519_scalarmult_base\<close> computes the multiple of the base point by the textbook formulas of
  the curve \<open>v\<^sup>2 = u\<^sup>3 + 486662 u\<^sup>2 + u\<close>; the base64 of a key reads back; what a legacy seed has to be.
\<close>

unbundle bit_operations_syntax

section \<open>Bytes and numbers\<close>

lemma le_nat_bound: "le_nat bs < 256 ^ length bs"
proof (induction bs)
  case (Cons b bs)
  have "unat b < 256" using unsigned_less [of b, where ?'a = nat] by simp
  with Cons show ?case by simp
qed simp

lemma bit_le_nat: "bit (le_nat bs) i \<longleftrightarrow> i div 8 < length bs \<and> bit (bs ! (i div 8)) (i mod 8)"
proof (induction bs arbitrary: i)
  case (Cons b bs)
  have u: "unat b < 2 ^ 8" using unsigned_less [of b, where ?'a = nat] by simp
  show ?case
  proof (cases "i < 8")
    case True
    have "bit (le_nat (b # bs)) i = bit (take_bit 8 (le_nat (b # bs))) i"
      using True by (simp only: bit_take_bit_iff simp_thms)
    also have "take_bit 8 (le_nat (b # bs)) = unat b" unfolding take_bit_eq_mod using u by simp
    finally show ?thesis using True by (simp add: bit_unsigned_iff)
  next
    case False
    then obtain j where j: "i = j + 8" by (metis add.commute le_Suc_ex not_less)
    have "bit (le_nat (b # bs)) i = bit (drop_bit 8 (le_nat (b # bs))) j"
      by (simp only: j bit_drop_bit_eq o_apply add.commute)
    also have "drop_bit 8 (le_nat (b # bs)) = le_nat bs" unfolding drop_bit_eq_div using u by simp
    finally have "bit (le_nat (b # bs)) i = bit (le_nat bs) j" .
    moreover have "(j + 8) div 8 = Suc (j div 8)" "(j + 8) mod 8 = j mod 8" by presburger+
    ultimately show ?thesis using j Cons.IH [of j] by simp
  qed
qed (simp add: bit_0_eq)

lemma le_bytes_length [simp]: "length (le_bytes k n) = k"
  by (induction k arbitrary: n) auto

lemma le_nat_bytes: "n < 256 ^ k \<Longrightarrow> le_nat (le_bytes k n) = n"
proof (induction k arbitrary: n)
  case (Suc k)
  then have "n div 256 < 256 ^ k" by (simp add: less_mult_imp_div_less mult.commute)
  moreover have "unat (of_nat (n mod 256) :: byte) = n mod 256" by (simp add: unat_of_nat)
  ultimately show ?case using Suc.IH [of "n div 256"] by simp
qed simp

section \<open>The scalar\<close>

lemma clamp_length [simp]: "length (clamp k) = length k"
  by (simp add: clamp_def Let_def)

lemma clamp_bits:
  assumes "length k = 32"
  shows "bit (le_nat (clamp k)) i \<longleftrightarrow> (if i < 3 then False else if i = 254 then True else i < 254 \<and> bit (le_nat k) i)"
proof -
  have low: "bit (248 :: byte) j \<longleftrightarrow> 3 \<le> j \<and> j < 8" for j
  proof -
    have "push_bit 3 (mask 5) = (248 :: byte)" by (simp add: mask_eq_exp_minus_1)
    moreover have "bit (push_bit 3 (mask 5) :: byte) j \<longleftrightarrow> 3 \<le> j \<and> j < 8"
      by (simp only: bit_push_bit_iff bit_mask_iff) auto
    ultimately show ?thesis by simp
  qed
  have high: "bit (127 :: byte) j \<longleftrightarrow> j < 7" for j
  proof -
    have "mask 7 = (127 :: byte)" by (simp add: mask_eq_exp_minus_1)
    moreover have "bit (mask 7 :: byte) j \<longleftrightarrow> j < 7" by (simp only: bit_mask_iff) auto
    ultimately show ?thesis by simp
  qed
  have top: "bit (64 :: byte) j \<longleftrightarrow> j = 6" for j
  proof -
    have "push_bit 6 1 = (64 :: byte)" by simp
    moreover have "bit (push_bit 6 1 :: byte) j \<longleftrightarrow> j = 6" by (simp only: bit_push_bit_iff bit_1_iff) auto
    ultimately show ?thesis by simp
  qed
  have i: "i = 8 * (i div 8) + i mod 8" "i mod 8 < 8" by simp_all
  consider "i div 8 = 0" | "i div 8 = 31" | "i div 8 \<noteq> 0" "i div 8 < 31" | "31 < i div 8" by linarith
  then show ?thesis
  proof cases
    case 1
    then have "i < 8" "i mod 8 = i" by auto
    with 1 assms low [of i] show ?thesis by (simp add: bit_le_nat clamp_def Let_def bit_and_iff)
  next
    case 2
    define j where "j = i mod 8"
    with 2 i have ij: "i = 248 + j" "j < 8" by simp_all
    note ij
    moreover from ij have "(248 + j) mod 8 = j" by presburger
    ultimately show ?thesis using 2 assms high [of j] top [of j] by (auto simp: bit_le_nat clamp_def Let_def bit_and_iff bit_or_iff)
  next
    case 3
    with i assms show ?thesis by (auto simp: bit_le_nat clamp_def Let_def)
  next
    case 4
    with i assms show ?thesis by (auto simp: bit_le_nat)
  qed
qed

section \<open>The curve\<close>

text \<open>
  A point is the pair \<open>(X, Z)\<close> of its projective abscissa.  \<open>mdouble\<close> is doubling, \<open>mdiffadd\<close> the addition of
  two points whose difference is the base point 9.
\<close>

definition mdouble :: "int \<times> int \<Rightarrow> int \<times> int" where
  "mdouble p = (case p of (X, Z) \<Rightarrow>
     ((X\<^sup>2 - Z\<^sup>2)\<^sup>2 mod P25519, 4 * X * Z * (X\<^sup>2 + 486662 * X * Z + Z\<^sup>2) mod P25519))"

definition mdiffadd :: "int \<times> int \<Rightarrow> int \<times> int \<Rightarrow> int \<times> int" where
  "mdiffadd p q = (case (p, q) of ((X, Z), (U, W)) \<Rightarrow>
     (4 * (X * U - Z * W)\<^sup>2 mod P25519, 9 * (4 * (X * W - U * Z)\<^sup>2) mod P25519))"

function multiple :: "nat \<Rightarrow> int \<times> int" where
  "multiple n = (if n = 0 then (1, 0) else if n = 1 then (9, 1)
     else if even n then mdouble (multiple (n div 2)) else mdiffadd (multiple (n div 2)) (multiple (n div 2 + 1)))"
  by pat_completeness auto
termination
proof (relation "measure id")
  show "(n div 2 + 1, n) \<in> measure id" if "n \<noteq> 0" "n \<noteq> 1" "odd n" for n :: nat
    using that by (cases "n = 2") auto
qed auto

declare multiple.simps [simp del]

definition scale :: "int \<Rightarrow> int \<times> int \<Rightarrow> int \<times> int" where
  "scale c p = (c * fst p mod P25519, c * snd p mod P25519)"

text \<open>The same point: the coordinates differ by a power of 36, a unit.\<close>

definition same_point :: "int \<times> int \<Rightarrow> int \<times> int \<Rightarrow> bool" where
  "same_point p q \<longleftrightarrow> (\<exists>k. p = scale (36 ^ k) q)"

lemma mod_mod_cong: "a mod m = b mod m \<Longrightarrow> (a mod m) mod m = b mod m" for a b m :: int
  by simp

lemma mod_power_cong: "a mod m = b mod m \<Longrightarrow> a ^ k mod m = b ^ k mod m" for a b m :: int
  by (metis power_mod)

lemmas mod_congs = refl mod_mod_cong mod_mult_cong mod_add_cong mod_diff_cong mod_power_cong

lemma mdouble_scale: "mdouble (scale c p) = scale (c ^ 4) (mdouble p)"
proof -
  obtain X Z where p: "p = (X, Z)" by fastforce
  have 1: "((c * X)\<^sup>2 - (c * Z)\<^sup>2)\<^sup>2 = c ^ 4 * (X\<^sup>2 - Z\<^sup>2)\<^sup>2" by algebra
  have 2: "4 * (c * X) * (c * Z) * ((c * X)\<^sup>2 + 486662 * (c * X) * (c * Z) + (c * Z)\<^sup>2)
      = c ^ 4 * (4 * X * Z * (X\<^sup>2 + 486662 * X * Z + Z\<^sup>2))" by algebra
  have "((c * X mod P25519)\<^sup>2 - (c * Z mod P25519)\<^sup>2)\<^sup>2 mod P25519 = ((c * X)\<^sup>2 - (c * Z)\<^sup>2)\<^sup>2 mod P25519"
    by (intro mod_congs)
  moreover have "4 * (c * X mod P25519) * (c * Z mod P25519) * ((c * X mod P25519)\<^sup>2 + 486662 * (c * X mod P25519) * (c * Z mod P25519)
      + (c * Z mod P25519)\<^sup>2) mod P25519 = 4 * (c * X) * (c * Z) * ((c * X)\<^sup>2 + 486662 * (c * X) * (c * Z) + (c * Z)\<^sup>2) mod P25519"
    by (intro mod_congs)
  ultimately show ?thesis by (simp add: p mdouble_def scale_def 1 2 mod_mult_right_eq)
qed

lemma mdiffadd_scale: "mdiffadd (scale c p) (scale d q) = scale (c\<^sup>2 * d\<^sup>2) (mdiffadd p q)"
proof -
  obtain X Z U W where p: "p = (X, Z)" "q = (U, W)" by fastforce
  have 1: "4 * ((c * X) * (d * U) - (c * Z) * (d * W))\<^sup>2 = c\<^sup>2 * d\<^sup>2 * (4 * (X * U - Z * W)\<^sup>2)" by algebra
  have 2: "9 * (4 * ((c * X) * (d * W) - (d * U) * (c * Z))\<^sup>2) = c\<^sup>2 * d\<^sup>2 * (9 * (4 * (X * W - U * Z)\<^sup>2))" by algebra
  have "4 * ((c * X mod P25519) * (d * U mod P25519) - (c * Z mod P25519) * (d * W mod P25519))\<^sup>2 mod P25519
      = 4 * ((c * X) * (d * U) - (c * Z) * (d * W))\<^sup>2 mod P25519"
    by (intro mod_congs)
  moreover have "9 * (4 * ((c * X mod P25519) * (d * W mod P25519) - (d * U mod P25519) * (c * Z mod P25519))\<^sup>2) mod P25519
      = 9 * (4 * ((c * X) * (d * W) - (d * U) * (c * Z))\<^sup>2) mod P25519"
    by (intro mod_congs)
  ultimately show ?thesis by (simp only: p mdiffadd_def scale_def 1 2 mod_mult_right_eq prod.case fst_conv snd_conv)
qed

section \<open>The ladder\<close>

text \<open>The two points of a state, a pending swap undone.\<close>

definition points :: "ladder \<Rightarrow> (int \<times> int) \<times> (int \<times> int)" where
  "points s = (case s of (x2, z2, x3, z3, swap) \<Rightarrow> if swap then ((x3, z3), (x2, z2)) else ((x2, z2), (x3, z3)))"

lemma mdiffadd_sym: "mdiffadd p q = mdiffadd q p"
proof -
  obtain X Z U W where p: "p = (X, Z)" "q = (U, W)" by fastforce
  have "(X * U - Z * W)\<^sup>2 = (U * X - W * Z)\<^sup>2" "(X * W - U * Z)\<^sup>2 = (U * Z - X * W)\<^sup>2" by algebra+
  then show ?thesis by (simp only: p mdiffadd_def prod.case)
qed

text \<open>The arithmetic of one round: its first point is doubled, the two are added.\<close>

lemma round_double:
  "((x + z) mod P25519 * ((x + z) mod P25519)) mod P25519 * (((x - z) mod P25519 * ((x - z) mod P25519)) mod P25519) mod P25519
    = (x\<^sup>2 - z\<^sup>2)\<^sup>2 mod P25519"
  "((((x + z) mod P25519 * ((x + z) mod P25519)) mod P25519 - ((x - z) mod P25519 * ((x - z) mod P25519)) mod P25519) mod P25519
     * ((((x + z) mod P25519 * ((x + z) mod P25519)) mod P25519
        + (A24 * ((((x + z) mod P25519 * ((x + z) mod P25519)) mod P25519 - ((x - z) mod P25519 * ((x - z) mod P25519)) mod P25519) mod P25519)) mod P25519)
        mod P25519)) mod P25519
    = 4 * x * z * (x\<^sup>2 + 486662 * x * z + z\<^sup>2) mod P25519" (is "?lhs = _")
proof -
  have 1: "(x + z) * (x + z) * ((x - z) * (x - z)) = (x\<^sup>2 - z\<^sup>2)\<^sup>2" by algebra
  show "((x + z) mod P25519 * ((x + z) mod P25519)) mod P25519 * (((x - z) mod P25519 * ((x - z) mod P25519)) mod P25519) mod P25519
    = (x\<^sup>2 - z\<^sup>2)\<^sup>2 mod P25519"
    unfolding 1 [symmetric] by (intro mod_congs)
  have 2: "((x + z) * (x + z) - (x - z) * (x - z)) * ((x + z) * (x + z) + 121665 * ((x + z) * (x + z) - (x - z) * (x - z)))
      = 4 * x * z * (x\<^sup>2 + 486662 * x * z + z\<^sup>2)" by algebra
  show "?lhs = 4 * x * z * (x\<^sup>2 + 486662 * x * z + z\<^sup>2) mod P25519"
    unfolding 2 [symmetric] A24_def by (intro mod_congs)
qed

lemma round_add:
  "((((x3 - z3) mod P25519 * ((x2 + z2) mod P25519)) mod P25519 + ((x3 + z3) mod P25519 * ((x2 - z2) mod P25519)) mod P25519) mod P25519)\<^sup>2
      mod P25519 = 4 * (x2 * x3 - z2 * z3)\<^sup>2 mod P25519" (is "?add = _")
  "(9 * (((((x3 - z3) mod P25519 * ((x2 + z2) mod P25519)) mod P25519 - ((x3 + z3) mod P25519 * ((x2 - z2) mod P25519)) mod P25519)
      mod P25519)\<^sup>2 mod P25519)) mod P25519 = 9 * (4 * (x2 * z3 - x3 * z2)\<^sup>2) mod P25519" (is "?sub = _")
proof -
  have 1: "((x3 - z3) * (x2 + z2) + (x3 + z3) * (x2 - z2))\<^sup>2 = 4 * (x2 * x3 - z2 * z3)\<^sup>2" by algebra
  have 2: "((x3 - z3) * (x2 + z2) - (x3 + z3) * (x2 - z2))\<^sup>2 = 4 * (x2 * z3 - x3 * z2)\<^sup>2" by algebra
  show "?add = 4 * (x2 * x3 - z2 * z3)\<^sup>2 mod P25519" unfolding 1 [symmetric] by (intro mod_congs)
  show "?sub = 9 * (4 * (x2 * z3 - x3 * z2)\<^sup>2) mod P25519" unfolding 2 [symmetric] by (intro mod_congs)
qed

lemma ladder_round_eq:
  "ladder_round n t (x2, z2, x3, z3, w) =
     (if w \<noteq> bit n t
      then (fst (mdouble (x3, z3)), snd (mdouble (x3, z3)), fst (mdiffadd (x3, z3) (x2, z2)), snd (mdiffadd (x3, z3) (x2, z2)), bit n t)
      else (fst (mdouble (x2, z2)), snd (mdouble (x2, z2)), fst (mdiffadd (x2, z2) (x3, z3)), snd (mdiffadd (x2, z2) (x3, z3)), bit n t))"
proof (cases "w \<noteq> bit n t")
  case True
  then show ?thesis
    by (simp only: ladder_round_def Let_def prod.case if_True round_double round_add mdouble_def mdiffadd_def fst_conv snd_conv not_False_eq_True simp_thms)
next
  case False
  then show ?thesis
    by (simp only: ladder_round_def Let_def prod.case if_False round_double round_add mdouble_def mdiffadd_def fst_conv snd_conv not_False_eq_True simp_thms)
qed

lemma round_points:
  assumes "points s = (A, B)"
  shows "points (ladder_round n t s) = (if bit n t then (mdiffadd A B, mdouble B) else (mdouble A, mdiffadd A B))"
proof -
  obtain x2 z2 x3 z3 w where s: "s = (x2, z2, x3, z3, w)" by (cases s)
  from assms have A: "A = (if w then (x3, z3) else (x2, z2))" "B = (if w then (x2, z2) else (x3, z3))"
    by (auto simp: s points_def split: if_splits)
  show ?thesis unfolding s ladder_round_eq
    by (cases w; cases "bit n t") (simp_all add: A points_def mdiffadd_sym [of "(x3, z3)" "(x2, z2)"])
qed

lemma scale_scale: "scale c (scale d p) = scale (c * d) p"
proof -
  have "c * (d * x mod P25519) mod P25519 = c * d * x mod P25519" for x by (simp add: mod_mult_right_eq mult.assoc)
  then show ?thesis by (simp add: scale_def)
qed

lemma same_double: "same_point p q \<Longrightarrow> same_point (mdouble p) (mdouble q)"
proof -
  assume "same_point p q"
  then obtain k where "p = scale (36 ^ k) q" unfolding same_point_def by blast
  then have "mdouble p = scale (36 ^ (k * 4)) (mdouble q)" by (simp only: mdouble_scale power_mult)
  then show ?thesis unfolding same_point_def by blast
qed

lemma same_add: "same_point p q \<Longrightarrow> same_point p' q' \<Longrightarrow> same_point (mdiffadd p p') (mdiffadd q q')"
proof -
  assume "same_point p q" "same_point p' q'"
  then obtain k l where "p = scale (36 ^ k) q" "p' = scale (36 ^ l) q'" unfolding same_point_def by blast
  then have "mdiffadd p p' = scale (36 ^ (k * 2 + l * 2)) (mdiffadd q q')" by (simp only: mdiffadd_scale power_mult power_add)
  then show ?thesis unfolding same_point_def by blast
qed

lemma same_trans: "same_point p q \<Longrightarrow> same_point q r \<Longrightarrow> same_point p r"
proof -
  assume "same_point p q" "same_point q r"
  then obtain k l where "p = scale (36 ^ k) q" "q = scale (36 ^ l) r" unfolding same_point_def by blast
  then have "p = scale (36 ^ (k + l)) r" by (simp only: scale_scale power_add)
  then show ?thesis unfolding same_point_def by blast
qed

lemma P_big: "1000 < P25519"
  by (simp add: P25519_def)

lemma multiple_0: "mdouble (multiple 0) = multiple 0"
  using P_big by (simp add: multiple.simps mdouble_def)

lemma multiple_1: "same_point (mdiffadd (multiple 0) (multiple 1)) (multiple 1)"
  unfolding same_point_def by (rule exI [of _ 1]) (use P_big in \<open>simp add: multiple.simps mdiffadd_def scale_def\<close>)

lemma multiple_even: "multiple (2 * k) = mdouble (multiple k)"
  using multiple_0 multiple.simps [of "2 * k"] by (cases "k = 0") auto

lemma multiple_odd: "same_point (mdiffadd (multiple k) (multiple (k + 1))) (multiple (2 * k + 1))"
proof (cases "k = 0")
  case True
  with multiple_1 show ?thesis by simp
next
  case False
  then have "multiple (2 * k + 1) = mdiffadd (multiple k) (multiple (k + 1))"
    using multiple.simps [of "2 * k + 1"] by simp
  moreover have "scale (36 ^ 0) (mdiffadd p q) = mdiffadd p q" for p q
    by (simp add: scale_def mdiffadd_def split: prod.split)
  ultimately show ?thesis unfolding same_point_def by metis
qed

lemma ladder_points:
  assumes "points s = (A, B)" "same_point A (multiple (n div 2 ^ m))" "same_point B (multiple (n div 2 ^ m + 1))"
  shows "same_point (fst (points (fold (ladder_round n) (rev [0..<m]) s))) (multiple n)"
  using assms
proof (induction m arbitrary: s A B)
  case (Suc m)
  let ?k = "n div 2 ^ Suc m"
  have k: "n div 2 ^ m = 2 * ?k + (if bit n m then 1 else 0)"
  proof -
    have "n div 2 ^ m div 2 = ?k" by (simp only: power_Suc2 div_mult2_eq)
    moreover have "n div 2 ^ m mod 2 = (if bit n m then 1 else 0)" by (simp add: bit_iff_odd odd_iff_mod_2_eq_one)
    ultimately show ?thesis by (metis mult_div_mod_eq)
  qed
  note add = same_trans [OF same_add [OF Suc.prems(2,3)] multiple_odd]
  obtain A' B' where p: "points (ladder_round n m s) = (A', B')" by (meson surj_pair)
  have "same_point A' (multiple (n div 2 ^ m)) \<and> same_point B' (multiple (n div 2 ^ m + 1))"
  proof (cases "bit n m")
    case True
    have "2 * ?k + 1 + 1 = 2 * (?k + 1)" by simp
    with True k have "n div 2 ^ m = 2 * ?k + 1" "multiple (n div 2 ^ m + 1) = mdouble (multiple (?k + 1))"
      using multiple_even [of "?k + 1"] by (simp, metis)
    with True add same_double [OF Suc.prems(3)] p round_points [OF Suc.prems(1), of n m] show ?thesis by simp
  next
    case False
    with k have "n div 2 ^ m = 2 * ?k" by simp
    with False add same_double [OF Suc.prems(2)] p round_points [OF Suc.prems(1), of n m] multiple_even [of ?k] show ?thesis by simp
  qed
  with Suc.IH [OF p] show ?case by simp
qed simp

lemma pow_mod_power: "pow_mod b e m = b ^ e mod m"
proof (induction b e m rule: pow_mod.induct)
  case (1 b e m)
  show ?case
  proof (cases "e = 0")
    case True
    then show ?thesis by (simp add: pow_mod.simps)
  next
    case False
    then have ih: "pow_mod (b * b mod m) (e div 2) m = (b * b) ^ (e div 2) mod m" using 1 by (simp add: power_mod)
    have e: "(b * b) ^ (e div 2) = b ^ (2 * (e div 2))" by (simp add: power_mult power2_eq_square)
    show ?thesis
    proof (cases "even e")
      case True
      with False ih e show ?thesis by (simp add: pow_mod.simps [of b e])
    next
      case odd: False
      then have "b ^ e = b * b ^ (2 * (e div 2))" by (metis odd_two_times_div_two_succ power_Suc Suc_eq_plus1)
      with False odd ih e show ?thesis by (simp add: pow_mod.simps [of b e] mod_mult_right_eq)
    qed
  qed
qed

text \<open>
  C35: The public key is the multiple of the base point by the clamped scalar: the loop with its deferred swaps ends in
  the point that doubling and addition by the textbook formulas give, whatever the 32 bytes are; the result is the 32
  bytes of its affine abscissa modulo the prime, least first.  The scalar is the key with bits 0 to 2 and 255 cleared
  and bit 254 set.
\<close>

theorem x25519_computes_multiple:
  "case x25519_scalarmult_base private of
     Inl e \<Rightarrow> length private \<noteq> 32
   | Inr pub \<Rightarrow> length private = 32 \<and> (\<exists>n X Z. same_point (X, Z) (multiple n)
       \<and> (\<forall>i. bit n i = (if i < 3 then False else if i = 254 then True else i < 254 \<and> bit (le_nat private) i))
       \<and> length pub = 32 \<and> int (le_nat pub) = X * Z ^ nat (P25519 - 2) mod P25519)"
proof (cases "length private = 32")
  case False
  then show ?thesis by (simp add: x25519_scalarmult_base_def refuse_def)
next
  case True
  let ?n = "le_nat (clamp private)"
  let ?s = "fold (ladder_round ?n) (rev [0..<255]) (1, 0, 9, 1, False)"
  obtain X Z where XZ: "ladder_result ?s = (X, Z)" by fastforce
  have n: "bit ?n i = (if i < 3 then False else if i = 254 then True else i < 254 \<and> bit (le_nat private) i)" for i
    using clamp_bits [OF True] .
  have "?n < 2 ^ 255"
  proof (rule ccontr)
    assume "\<not> ?n < 2 ^ 255"
    moreover have "?n < 2 ^ 256" using le_nat_bound [of "clamp private"] True by simp
    ultimately have "?n div 2 ^ 255 = 1" by (simp add: div_nat_eqI)
    then have "bit ?n 255" by (simp add: bit_iff_odd)
    with n show False by simp
  qed
  then have z: "?n div 2 ^ 255 = 0" by simp
  have one: "same_point (multiple 0) (multiple 0)" "same_point (multiple 1) (multiple 1)"
    unfolding same_point_def by (rule exI [of _ 0], use P_big in \<open>simp add: multiple.simps scale_def\<close>)+
  have "points (1, 0, 9, 1, False) = (multiple 0, multiple 1)" by (simp add: points_def multiple.simps)
  from ladder_points [OF this, of ?n 255] z one have "same_point (fst (points ?s)) (multiple ?n)" by simp
  moreover have "ladder_result ?s = fst (points ?s)" by (simp add: ladder_result_def points_def split: prod.split)
  ultimately have p: "same_point (X, Z) (multiple ?n)" using XZ by simp
  have bound: "0 \<le> X * Z ^ nat (P25519 - 2) mod P25519" "X * Z ^ nat (P25519 - 2) mod P25519 < P25519" using P_big by simp_all
  then have "nat (X * Z ^ nat (P25519 - 2) mod P25519) < 256 ^ 32" by (simp add: P25519_def)
  then have "int (le_nat (le_bytes 32 (nat (X * Z ^ nat (P25519 - 2) mod P25519)))) = X * Z ^ nat (P25519 - 2) mod P25519"
    using bound by (simp only: le_nat_bytes)
  moreover have "x25519_scalarmult_base private = Inr (le_bytes 32 (nat (X * Z ^ nat (P25519 - 2) mod P25519)))"
    using True XZ by (simp add: x25519_scalarmult_base_def Let_def pow_mod_power mod_mult_right_eq del: le_bytes.simps)
  ultimately show ?thesis using True p n le_bytes_length by (simp only: sum.case) blast
qed

section \<open>Base64\<close>

lemma b64_digit_value [simp]: "v < 64 \<Longrightarrow> b64_value (b64_digit v) = Some v"
  by (auto simp: b64_value_def b64_digit_def is_upper_def is_lower_def is_digit_def code_def)

lemma b64_digit_key [simp]: "v < 64 \<Longrightarrow> key_char (b64_digit v)"
  by (auto simp: b64_digit_def key_char_def alnum_def is_upper_def is_lower_def is_digit_def code_def)

lemma key_char_plain: "key_char c \<Longrightarrow> c \<noteq> CHR ''='' \<and> code c < 128 \<and> \<not> is_space c"
  by (auto simp: key_char_def alnum_def is_upper_def is_lower_def is_digit_def is_space_def code_def)

lemma b64_digit_no_pad [simp]: "v < 64 \<Longrightarrow> b64_digit v \<noteq> CHR ''=''"
  using b64_digit_key key_char_plain by blast

lemma byte_less [simp]: "unat (b :: byte) < 256"
  using unsigned_less [of b, where ?'a = nat] by simp

lemma a2b_digits:
  assumes "p < 64" "q < 64" "r < 64" "t < 64"
  shows "a2b 0 0 0 (b64_digit p # b64_digit q # b64_digit r # b64_digit t # s)
    = map_option (\<lambda>d. of_nat (p * 4 + q div 16) # of_nat (q mod 16 * 16 + r div 4) # of_nat (r mod 4 * 64 + t) # d) (a2b 0 0 0 s)"
  using assms by (simp del: of_nat_add of_nat_mult add: option.map_comp o_def)

lemma split_bytes:
  "unat (a :: byte) div 4 < 64 \<and> unat a mod 4 * 16 + unat (b :: byte) div 16 < 64 \<and> unat b mod 16 * 4 + unat (c :: byte) div 64 < 64"
  "unat a div 4 * 4 + (unat a mod 4 * 16 + unat b div 16) div 16 = unat a"
  "(unat a mod 4 * 16 + unat b div 16) mod 16 * 16 + (unat b mod 16 * 4 + unat c div 64) div 4 = unat b"
  "(unat b mod 16 * 4 + unat c div 64) mod 4 * 64 + unat c mod 64 = unat c"
proof -
  have d: "unat a div 4 < 64" "unat b div 16 < 16" "unat c div 64 < 4"
    using byte_less [of a] byte_less [of b] byte_less [of c] by (simp_all add: div_less_iff_less_mult)
  moreover have "unat a mod 4 < 4" "unat b mod 16 < 16" "unat c mod 64 < 64" by simp_all
  ultimately show "unat a div 4 < 64 \<and> unat a mod 4 * 16 + unat b div 16 < 64 \<and> unat b mod 16 * 4 + unat c div 64 < 64"
    by linarith
  show "unat a div 4 * 4 + (unat a mod 4 * 16 + unat b div 16) div 16 = unat a"
    "(unat a mod 4 * 16 + unat b div 16) mod 16 * 16 + (unat b mod 16 * 4 + unat c div 64) div 4 = unat b"
    "(unat b mod 16 * 4 + unat c div 64) mod 4 * 64 + unat c mod 64 = unat c"
    using d by simp_all
qed

lemma a2b_group: "a2b 0 0 0 (b2a [a, b, c] @ s) = map_option (\<lambda>r. a # b # c # r) (a2b 0 0 0 s)"
  using a2b_digits [of "unat a div 4" "unat a mod 4 * 16 + unat b div 16" "unat b mod 16 * 4 + unat c div 64" "unat c mod 64" s]
    split_bytes(1) [of a b c] split_bytes(2) [of a b] split_bytes(3) [of a b c] split_bytes(4) [of b c]
  by (simp del: of_nat_add of_nat_mult)

lemma a2b_two: "a2b 0 0 0 (b2a [a, b]) = Some [a, b]"
proof -
  have "unat b mod 16 * 4 < 64" by linarith
  with split_bytes(1) [of a b 0] split_bytes(2) [of a b] split_bytes(3) [of a b 0] show ?thesis by (simp del: of_nat_add of_nat_mult)
qed

text \<open>The encoding of 32 bytes without its padding: 43 characters of the alphabet; it reads back.\<close>

lemma encode_32:
  assumes "length bs = 3 * k + 2"
  shows "\<exists>t. b2a bs = t @ ''='' \<and> length t = 4 * k + 3 \<and> list_all key_char t" "a2b 0 0 0 (b2a bs) = Some bs"
  using assms
proof (induction k arbitrary: bs)
  case 0
  {
    case 1
    then obtain a b where "bs = [a, b]" by (auto simp: length_Suc_conv numeral_2_eq_2)
    moreover have "unat b mod 16 * 4 < 64" by linarith
    ultimately show ?case using split_bytes(1) [of a b 0] by simp
  next
    case 2
    then obtain a b where "bs = [a, b]" by (auto simp: length_Suc_conv numeral_2_eq_2)
    with a2b_two show ?case by simp
  }
next
  case (Suc k)
  {
    case 1
    then obtain a b c r where bs: "bs = a # b # c # r" "length r = 3 * k + 2" by (auto simp: length_Suc_conv numeral_3_eq_3)
    from Suc.IH(1) [OF bs(2)] obtain t where "b2a r = t @ ''=''" "length t = 4 * k + 3" "list_all key_char t" by blast
    with split_bytes(1) [of a b c] show ?case unfolding bs(1)
      by (intro exI [of _ "b2a [a, b, c] @ t"]) simp
  next
    case 2
    then obtain a b c r where bs: "bs = a # b # c # r" "length r = 3 * k + 2" by (auto simp: length_Suc_conv numeral_3_eq_3)
    from a2b_group [of a b c "b2a r"] Suc.IH(2) [OF bs(2)] show ?case by (simp add: bs(1))
  }
qed

lemma strip_key: "list_all key_char s \<Longrightarrow> strip s = s"
proof -
  assume "list_all key_char s"
  then have n: "\<forall>c \<in> set s. \<not> is_space c" using key_char_plain by (auto simp: list_all_iff)
  then have "lstrip s = s" by (cases s) (auto simp: lstrip_def)
  moreover have "dropWhile is_space (rev s) = rev s" using n by (auto simp: dropWhile_eq_self_iff hd_rev)
  ultimately show ?thesis by (simp add: strip_def rstrip_def)
qed

lemma encoded_key:
  assumes "length bs = 32"
  shows "length (b64url_encode_32 bs) = 43 \<and> list_all key_char (b64url_encode_32 bs) \<and> b2a bs = b64url_encode_32 bs @ ''=''"
proof -
  from encode_32(1) [of bs 10] assms obtain t where t: "b2a bs = t @ ''=''" "length t = 43" "list_all key_char t" by auto
  then have "t \<noteq> []" by auto
  with t have "rev t \<noteq> []" "key_char (hd (rev t))" by (simp_all add: list_all_iff hd_rev)
  then have "dropWhile (\<lambda>c. c = CHR ''='') (rev t) = rev t" using key_char_plain by (cases "rev t") auto
  with t show ?thesis by (simp add: b64url_encode_32_def rstrip_char_def)
qed

lemma decode_encode_32: "length bs = 32 \<Longrightarrow> b64url_decode_32 (b64url_encode_32 bs) = Inr bs"
proof -
  assume l: "length bs = 32"
  note e = encoded_key [OF l]
  let ?s = "b64url_encode_32 bs"
  have "strip ?s = ?s" using e strip_key by blast
  moreover have "(4 - length ?s mod 4) mod 4 = 1" using e by simp
  moreover have "\<not> list_ex (\<lambda>c. 128 \<le> code c) (?s @ ''='')"
  proof -
    have "\<not> 128 \<le> code c" if "c \<in> set ?s" for c
      using e that key_char_plain [of c] by (simp add: list_all_iff)
    then show ?thesis by (auto simp: list_ex_iff code_def)
  qed
  moreover have "a2b 0 0 0 (?s @ ''='') = Some bs" using encode_32(2) [of bs 10] l conjunct2 [OF conjunct2 [OF e]] by simp
  ultimately show ?thesis using l unfolding b64url_decode_32_def Let_def by (simp only: replicate.simps One_nat_def option.case if_False not_True_eq_False simp_thms)
qed

section \<open>A host name that keeps its white space\<close>

text \<open>
  \<open>validate_sni_host\<close> checks the stripped text, the URI's fields keep the text as it was: here the \<open>SNI=\<close> line of
  the installer's entry is broken in two.
\<close>

lemma sni_keeps_newline:
  "unquoted ''%0Aw.example'' = Inr (NL # ''w.example'') \<and> validate_sni_host (NL # ''w.example'')"
  by code_simp

end
