(* ===== verification/Spec2Isabelle.thy ===== *)
theory Spec2Isabelle
  imports FleetProps Snapshot WorkspaceProps FleetLock FleetUserProps FleetSchema UiProps NodeReplaceProps BackupProps
    RestorePlanProps RestoreProps AuditArchiveProps LegacySeedProps
begin

text \<open>
  Vincula runs a proxy on many machines and keeps an audit trail of it.  On every node a collector
  (\<open>lib/vincula-accountd.py\<close>) polls the proxy's Clash API, accounts traffic per connection in SQLite
  and numbers closed connections in an export log; \<open>lib/vincula-audit.py\<close> exports that log.  A
  controller (\<open>lib/vincula-fleet.py\<close>, with \<open>lib/workspace.py\<close>, \<open>lib/access.py\<close>, \<open>lib/trust.py\<close>)
  keeps a registry of nodes in a portable workspace, talks to them over SSH, imports their logs into
  \<open>fleet.db\<close>, manages users and the life of nodes, and serves a local web UI
  (\<open>lib/vincula-ui/server.py\<close>).  The files under \<open>lib/observation/\<close> define what a node reports.

  \<^bold>\<open>Layers.\<close>
  \<^item> Values: \<open>Prelude\<close> (results with exceptions, \<open>rbind\<close>, \<open>rmap\<close>, \<open>rfold\<close>), \<open>PyStr\<close>, \<open>PyTime\<close>,
    \<open>PyValue\<close> (Python text, integers, dates and JSON values as the source uses them).
  \<^item> Node collector: \<open>AcctDb\<close> (tables, 64-bit bindings), \<open>AcctPoll\<close> (one poll: adopt, close, delta),
    \<open>AcctMaint\<close> (rollup, retention, schema 2 to 4), \<open>AcctDaemon\<close> (settings, tick, commit, restart).
    Invariants and effects: \<open>AcctInv\<close>, \<open>AcctPollInv\<close>, \<open>AcctPollRun\<close>, \<open>AcctMaintInv\<close>,
    \<open>AcctDaemonInv\<close>; properties in \<open>AcctProps\<close>.
  \<^item> Export: \<open>AuditExport\<close> (queries and \<open>export\<close> of \<open>vincula-audit.py\<close>), proved in \<open>AuditExportInv\<close>.
  \<^item> Controller cache: \<open>FleetDb\<close> (events, cursors, daily rows, import, validation), \<open>InstanceHistory\<close>,
    \<open>FleetSync\<close> (incremental and full sync, the command), \<open>FleetSchema\<close> (opening and migrating
    \<open>fleet.db\<close>).  \<open>FleetDbInv\<close>, \<open>FleetImportInv\<close>, \<open>FleetSyncInv\<close>, \<open>FleetMirror\<close> (a system of node
    and controller steps and its invariant), \<open>FleetLive\<close> (a sync that catches up) and \<open>FleetProps\<close>.
  \<^item> Network seam: \<open>Access\<close>, \<open>AccessInv\<close> (host syntax, SSH argument vectors, bindings, bounded capture),
    \<open>Trust\<close> (pinning of host keys), \<open>Observation\<close>, \<open>ObservationInv\<close> (capabilities, the telemetry
    validator and the published schema), \<open>Snapshot\<close> (what the node builds, and what is accepted).
  \<^item> Registry: \<open>Registry\<close>, \<open>RegistryInv\<close>, \<open>RegistryStore\<close> (commands over a store given by the locale
    \<open>registry_store\<close>), \<open>Workspace\<close>, \<open>WorkspaceInv\<close>, \<open>WorkspaceProps\<close> (manifest, revisions, conflict
    and rollback detection), \<open>FleetLock\<close> (the operation lock of threads and processes).
  \<^item> Users: \<open>FleetUsers\<close>, \<open>FleetUserOps\<close>, \<open>FleetUserProps\<close> (add, show, import, export over nodes).
  \<^item> Node life: \<open>FleetProbe\<close> (\<open>probe\<close>, \<open>verify\<close>, \<open>status\<close>), \<open>NodeLife\<close> (\<open>retire\<close>, \<open>replace\<close>),
    \<open>NodeLifeProps\<close>, \<open>NodeReplaceProps\<close>.
  \<^item> Backup (\<open>lib/vincula-backup.py\<close>): \<open>BackupFormat\<close> (what a default backup leaves out), \<open>BackupArchive\<close>
    (capped reading, verification, creation), \<open>RestorePlan\<close> (the documents a restore installs),
    \<open>Restore\<close> (the transaction with its safety tree, journal and roll back, every file operation able
    to fail); proved in \<open>BackupProps\<close>, \<open>RestorePlanProps\<close>, \<open>RestoreProps\<close>.
  \<^item> Archives (\<open>lib/vincula-audit-archive.py\<close>): \<open>AuditArchive\<close> (events with their attribution, restore into a
    cache), \<open>AuditArchiveProps\<close>.
  \<^item> Legacy seed (\<open>lib/legacy_seed.py\<close>): \<open>LegacySeed\<close> (X25519 and base64, secret files, the VLESS URI),
    \<open>LegacySeedProps\<close>.
  \<^item> Reading and UI: \<open>FleetQuery\<close> (local audit query and statistics), \<open>UiQuery\<close>, \<open>UiQueryProps\<close>,
    \<open>UiGuard\<close> (request guards, routes, worker pool), \<open>UiBuilder\<close> (users cache, command builder),
    \<open>UiProps\<close>.

  \<^bold>\<open>How code becomes definitions.\<close>  A function that can raise returns \<open>exc + 'a\<close>; \<open>die\<close> is
  \<open>SystemExit\<close>.  A step that writes returns the new state with its result, and where the source
  commits statement by statement (\<open>isolation_level=None\<close>) so does the model.  Tables are lists or
  association lists in row order.  Remote commands, HTTP bodies, the clock, random ids and the file
  system are arguments (in \<open>Restore\<close> the file system is a state whose operations may each fail); a JSON file is the parsed document, missing or broken; a CSV file is its rows.
  Interfaces are locales: \<open>iteration_order\<close> (order of a Python set), \<open>keyed_table\<close> (events, cursors)
  and \<open>registry_store\<close> (the legacy file and the workspace); each is interpreted on the model.

  \<^bold>\<open>What is proved.\<close>  Accounting: a poll adds exactly the growth of the counters, every run of the
  daemon keeps its invariants, the export log is append-only, rollup conserves, retention deletes only
  what expired.  Transport: an export has no gap, the controller mirrors the log in every
  interleaving, syncs fail closed, catch up and are idempotent, and the command refines the abstract
  system.  Identity: one active instance per node, retirement only with the whole log saved, a
  machine replaced only by one that proved to be the node.  Backup: what is created verifies, a
  default backup does not depend on the secrets, a safe restore rotates every credential, and a restore
  that fails leaves the files as they were; an archive of events only adds to a cache.  Keys: the
  derivation computes the multiple of the base point.  Trust: pinning, argument quoting, the
  lock, workspace revisions that never go back, registry commands that lose no node.  UI: no endpoint
  runs for an untrusted request, paging is complete, totals are conserved, the shown command is the
  one that runs.

  \<^bold>\<open>Bounds.\<close>  SQLite integers are 64-bit and binding a larger one is an error; Python integers are
  unbounded.  Text is \<open>char\<close>, code points up to 255.  Fuel appears in one place, \<open>read_pages\<close>, where
  one page per event is proved enough; the wait for the file lock ends by its clock.

  \<^bold>\<open>Not modelled.\<close>  Messages printed for people (tables, warnings, hints); \<open>payload_json\<close> copies;
  SQLite itself, SSH, HTTP and the digest, which are arguments; the accounting plane checks and the
  creation of the schema.  Not modelled at all are provisioning and upgrade of a node
  (\<open>provision.py\<close>, \<open>node_upgrade.py\<close>, \<open>sing_box_release.py\<close>), the reports of
  \<open>vincula-stats.py\<close>, the overview pages of the UI, and the shell programs under \<open>bin/\<close>.
\<close>

end
